(* ===== verification/Prelude.thy ===== *)
theory Prelude
  imports Complex_Main "HOL-Library.AList"
begin

text \<open>
  Shared types, automation and generic lemmas.

  \<^item> Numbers: a Python \<^verbatim>\<open>Decimal\<close> or \<^verbatim>\<open>float\<close> that the code computes with is an exact rational.
    The 28 digit rounding of the decimal context and the binary rounding of floats are left
    out; explicit roundings of the code (\<^verbatim>\<open>quantize\<close>, \<^verbatim>\<open>math.floor\<close>) are modelled.
  \<^item> Errors: every exception is a value of \<open>py_error\<close>; a fallible operation returns a sum with
    the error on the left, and \<open>bind_err\<close> sequences such operations as Python's control flow does.
  \<^item> Dictionaries: an association list with distinct keys in insertion order, updated in place or
    extended at the end (\<open>AList.update\<close>), as a Python \<^verbatim>\<open>dict\<close> behaves.
\<close>

type_synonym decimal = rat
type_synonym seconds = rat

datatype py_error =
    AttributeError
  | KeyError
  | IndexError
  | TypeError
  | ValueError
  | RuntimeError
  | AssertionError
  | DivisionByZero
  | InvalidOperation
  | RaisedException

named_theorems err_simps \<open>equations that resolve the error monad\<close>
named_theorems decimal_intros \<open>sign and order facts on decimals\<close>

subsection \<open>Results that may be errors\<close>

definition bind_err :: "'e + 'a \<Rightarrow> ('a \<Rightarrow> 'e + 'b) \<Rightarrow> 'e + 'b" where
  "bind_err m f = (case m of Inl e \<Rightarrow> Inl e | Inr x \<Rightarrow> f x)"

lemma bind_err_simps [simp, err_simps]:
  "bind_err (Inl e) f = Inl e"
  "bind_err (Inr x) f = f x"
  by (simp_all add: bind_err_def)

lemma bind_err_assoc: "bind_err (bind_err m f) g = bind_err m (\<lambda>x. bind_err (f x) g)"
  by (cases m) simp_all

lemma bind_err_eq_Inr [err_simps]:
  "bind_err m f = Inr y \<longleftrightarrow> (\<exists>x. m = Inr x \<and> f x = Inr y)"
  by (cases m) auto

lemma bind_err_eq_Inl [err_simps]:
  "bind_err m f = Inl e \<longleftrightarrow> m = Inl e \<or> (\<exists>x. m = Inr x \<and> f x = Inl e)"
  by (cases m) auto

text \<open>A list comprehension over a fallible function stops at the first exception.\<close>

fun map_err :: "('a \<Rightarrow> 'e + 'b) \<Rightarrow> 'a list \<Rightarrow> 'e + 'b list" where
  "map_err f [] = Inr []"
| "map_err f (x # xs) = bind_err (f x) (\<lambda>y. bind_err (map_err f xs) (\<lambda>ys. Inr (y # ys)))"

lemma map_err_Inr:
  assumes "\<And>x. x \<in> set xs \<Longrightarrow> f x = Inr (g x)"
  shows "map_err f xs = Inr (map g xs)"
  using assms by (induction xs) auto

lemma map_err_length: "map_err f xs = Inr ys \<Longrightarrow> length ys = length xs"
  by (induction xs arbitrary: ys) (auto simp: err_simps)

text \<open>A loop over a list that threads a state and stops at the first exception.\<close>

fun fold_err :: "('a \<Rightarrow> 's \<Rightarrow> 'e + 's) \<Rightarrow> 'a list \<Rightarrow> 's \<Rightarrow> 'e + 's" where
  "fold_err f [] s = Inr s"
| "fold_err f (x # xs) s = bind_err (f x s) (fold_err f xs)"

lemma fold_err_append:
  "fold_err f (xs @ ys) s = bind_err (fold_err f xs s) (fold_err f ys)"
  by (induction xs arbitrary: s) (auto simp: bind_err_def split: sum.splits)

lemma fold_err_invariant:
  assumes "fold_err f xs s = Inr t" and "P s"
    and "\<And>x s t. x \<in> set xs \<Longrightarrow> P s \<Longrightarrow> f x s = Inr t \<Longrightarrow> P t"
  shows "P t"
  using assms
proof (induction xs arbitrary: s)
  case Nil
  then show ?case by simp
next
  case (Cons x xs)
  from Cons.prems(1) obtain s' where s': "f x s = Inr s'" and rest: "fold_err f xs s' = Inr t"
    by (auto simp: err_simps)
  have "P s'" using Cons.prems(3)[of x s s'] Cons.prems(2) s' by simp
  moreover have "\<And>y s t. y \<in> set xs \<Longrightarrow> P s \<Longrightarrow> f y s = Inr t \<Longrightarrow> P t"
    using Cons.prems(3) by (meson list.set_intros(2))
  ultimately show ?case by (rule Cons.IH[OF rest])
qed

lemma fold_err_result:
  assumes "P s"
    and "\<And>x s t. x \<in> set xs \<Longrightarrow> P s \<Longrightarrow> f x s = Inr t \<Longrightarrow> P t"
    and "\<And>x s e. x \<in> set xs \<Longrightarrow> P s \<Longrightarrow> f x s = Inl e \<Longrightarrow> Q e"
  shows "case fold_err f xs s of Inl e \<Rightarrow> Q e | Inr t \<Rightarrow> P t"
  using assms
proof (induction xs arbitrary: s)
  case (Cons x xs)
  show ?case
  proof (cases "f x s")
    case (Inl e)
    then show ?thesis using Cons.prems(3)[of x s e] Cons.prems(1) by simp
  next
    case (Inr t)
    then have "P t" using Cons.prems(2)[of x s t] Cons.prems(1) by simp
    then have "case fold_err f xs t of Inl e \<Rightarrow> Q e | Inr t \<Rightarrow> P t"
      by (rule Cons.IH) (use Cons.prems(2,3) in \<open>meson list.set_intros(2)\<close>)+
    then show ?thesis using Inr by simp
  qed
qed simp

subsection \<open>Decimals\<close>

text \<open>
  Decimal division: \<^verbatim>\<open>0/0\<close> raises \<^verbatim>\<open>InvalidOperation\<close>, any other division by zero
  \<^verbatim>\<open>DivisionByZero\<close>.
\<close>

definition dec_div :: "decimal \<Rightarrow> decimal \<Rightarrow> py_error + decimal" where
  "dec_div a b = (if b = 0 then Inl (if a = 0 then InvalidOperation else DivisionByZero)
                  else Inr (a / b))"

lemma dec_div_nonzero [simp]: "b \<noteq> 0 \<Longrightarrow> dec_div a b = Inr (a / b)"
  by (simp add: dec_div_def)

lemma dec_div_Inr [err_simps]: "dec_div a b = Inr c \<longleftrightarrow> b \<noteq> 0 \<and> c = a / b"
  by (auto simp: dec_div_def)

text \<open>\<^verbatim>\<open>math.isclose\<close> with its default relative tolerance of \<open>10^-9\<close>.\<close>

definition isclose :: "decimal \<Rightarrow> decimal \<Rightarrow> bool" where
  "isclose a b \<longleftrightarrow> \<bar>a - b\<bar> \<le> (1 / 1000000000) * max \<bar>a\<bar> \<bar>b\<bar>"

lemma isclose_refl [simp]: "isclose a a"
  by (simp add: isclose_def)

lemma isclose_sym: "isclose a b = isclose b a"
  by (simp add: isclose_def abs_minus_commute max.commute)

text \<open>Rounding half to even at a positive quantum, the default rounding of \<^verbatim>\<open>Decimal.quantize\<close>.\<close>

definition round_half_even :: "rat \<Rightarrow> int" where
  "round_half_even x =
     (let f = \<lfloor>x\<rfloor>; r = x - of_int f in
      if r < 1/2 then f else if 1/2 < r then f + 1 else if even f then f else f + 1)"

definition quantize_half_even :: "rat \<Rightarrow> rat \<Rightarrow> rat" where
  "quantize_half_even q x = of_int (round_half_even (x / q)) * q"

lemma frac_rat_bounds: "0 \<le> x - of_int \<lfloor>x\<rfloor>" "x - of_int \<lfloor>x\<rfloor> < 1" for x :: rat
  by linarith+

lemma round_half_even_nonpos:
  "round_half_even x \<le> 0 \<longleftrightarrow> x \<le> 1/2"
proof (cases "\<lfloor>x\<rfloor> < 0")
  case True
  then have "x < 0" by simp
  with True show ?thesis by (auto simp: round_half_even_def Let_def)
next
  case False
  note nonneg = False
  show ?thesis
  proof (cases "\<lfloor>x\<rfloor> = 0")
    case True
    then show ?thesis by (auto simp: round_half_even_def Let_def)
  next
    case False
    with nonneg have "1 \<le> \<lfloor>x\<rfloor>" by linarith
    moreover from this have "1 \<le> x" by linarith
    ultimately show ?thesis by (auto simp: round_half_even_def Let_def; linarith)
  qed
qed

lemma quantize_half_even_nonpos:
  assumes "0 < q"
  shows "quantize_half_even q x \<le> 0 \<longleftrightarrow> x \<le> q / 2"
proof -
  have "quantize_half_even q x \<le> 0 \<longleftrightarrow> round_half_even (x / q) \<le> 0"
    using assms by (simp add: quantize_half_even_def mult_le_0_iff not_le)
  also have "\<dots> \<longleftrightarrow> x / q \<le> 1 / 2" by (rule round_half_even_nonpos)
  also have "\<dots> \<longleftrightarrow> x \<le> q / 2" using assms by (simp add: field_simps)
  finally show ?thesis .
qed

lemma scale_le [decimal_intros]: "0 \<le> (a::decimal) \<Longrightarrow> s \<le> 1 \<Longrightarrow> a * s \<le> a"
  using mult_left_mono[of s 1 a] by simp

text \<open>Sums over the entries of a list with a given key.\<close>

lemma sum_key_none: "k \<notin> key ` set xs \<Longrightarrow> (\<Sum>x \<leftarrow> xs. if key x = k then f x else (0::'a::monoid_add)) = 0"
  by (induction xs) auto

lemma sum_key_distinct:
  "distinct (map key xs) \<Longrightarrow> x \<in> set xs \<Longrightarrow>
   (\<Sum>y \<leftarrow> xs. if key y = key x then f y else (0::'a::comm_monoid_add)) = f x"
  by (induction xs) (auto simp: sum_key_none)

subsection \<open>The end of a list\<close>

definition take_last :: "nat \<Rightarrow> 'a list \<Rightarrow> 'a list" where
  "take_last n xs = drop (length xs - n) xs"

lemma take_last_take_last [simp]: "take_last n (take_last n xs @ ys) = take_last n (xs @ ys)"
  by (cases "length xs \<le> n") (simp_all add: take_last_def add.commute)

lemma take_last_map: "take_last n (map f xs) = map f (take_last n xs)"
  by (simp add: take_last_def drop_map)

lemma length_take_last [simp]: "length (take_last n xs) = min n (length xs)"
  by (simp add: take_last_def)

lemma set_take_last: "set (take_last n xs) \<subseteq> set xs"
  by (auto simp: take_last_def dest: in_set_dropD)

lemma take_last_all: "length xs \<le> n \<Longrightarrow> take_last n xs = xs"
  by (simp add: take_last_def)

subsection \<open>Dictionaries\<close>

type_synonym ('k, 'v) pydict = "('k \<times> 'v) list"

definition dict_ok :: "('k, 'v) pydict \<Rightarrow> bool" where
  "dict_ok d \<longleftrightarrow> distinct (map fst d)"

lemma dict_ok_Nil [simp]: "dict_ok []"
  by (simp add: dict_ok_def)

lemma set_update_subset: "set (AList.update k v d) \<subseteq> insert (k, v) (set d)"
  by (induction d) auto

lemma set_delete_subset: "set (AList.delete k d) \<subseteq> set d"
  by (auto simp: AList.delete_eq)

lemma dict_ok_update [simp]: "dict_ok d \<Longrightarrow> dict_ok (AList.update k v d)"
  by (simp add: dict_ok_def distinct_update)

lemma dict_ok_delete [simp]: "dict_ok d \<Longrightarrow> dict_ok (AList.delete k d)"
  by (simp add: dict_ok_def distinct_delete)

lemma dict_values_update:
  "map_of d k = None \<Longrightarrow> map snd (AList.update k v d) = map snd d @ [v]"
  by (induction d) (auto split: if_splits)

lemma dict_update_append:
  "map_of d k = None \<Longrightarrow> AList.update k v d = d @ [(k, v)]"
  by (induction d) (auto split: if_splits)

lemma map_of_map_snd:
  "map_of (map (\<lambda>(k, v). (k, f v)) d) k = map_option f (map_of d k)"
  by (induction d) auto

subsection \<open>Strings\<close>

text \<open>\<^verbatim>\<open>str.split\<close> with a one character separator.\<close>

fun split_char :: "char \<Rightarrow> string \<Rightarrow> string list" where
  "split_char c [] = [[]]"
| "split_char c (x # xs) =
     (if x = c then [] # split_char c xs
      else (case split_char c xs of [] \<Rightarrow> [[x]] | w # ws \<Rightarrow> (x # w) # ws))"

lemma split_char_nonempty [simp]: "split_char c xs \<noteq> []"
  by (cases xs) (auto split: list.splits)

lemma split_char_none: "c \<notin> set xs \<Longrightarrow> split_char c xs = [xs]"
  by (induction xs) auto

lemma split_char_append:
  "c \<notin> set xs \<Longrightarrow> split_char c (xs @ c # ys) = xs # split_char c ys"
  by (induction xs) auto

text \<open>Python's \<^verbatim>\<open>a or b\<close> on an optional string: \<^verbatim>\<open>None\<close> and the empty string are false.\<close>

definition or_str :: "string option \<Rightarrow> string \<Rightarrow> string" where
  "or_str a b = (case a of None \<Rightarrow> b | Some s \<Rightarrow> if s = [] then b else s)"

definition or_opt :: "string option \<Rightarrow> string option \<Rightarrow> string option" where
  "or_opt a b = (case a of None \<Rightarrow> b | Some s \<Rightarrow> if s = [] then b else a)"

subsection \<open>State and exceptions\<close>

text \<open>What a method leaves behind: a result or the exception, and the state, which an exception does not undo.\<close>

type_synonym ('s, 'a) outcome = "(py_error + 'a) \<times> 's"

definition and_then :: "('s, 'a) outcome \<Rightarrow> ('a \<Rightarrow> 's \<Rightarrow> ('s, 'b) outcome) \<Rightarrow> ('s, 'b) outcome" where
  "and_then r f = (case r of (Inl e, s) \<Rightarrow> (Inl e, s) | (Inr a, s) \<Rightarrow> f a s)"

lemma and_then_simps [simp]:
  "and_then (Inl e, s) f = (Inl e, s)" "and_then (Inr a, s) f = f a s"
  by (simp_all add: and_then_def)

lemma and_then_assoc: "and_then (and_then r f) g = and_then r (\<lambda>a s. and_then (f a s) g)"
  by (simp add: and_then_def split: prod.splits sum.splits)

text \<open>Whatever the outcome, the state satisfies a predicate.\<close>

definition leaves :: "('s \<Rightarrow> bool) \<Rightarrow> ('s, 'a) outcome \<Rightarrow> bool" where
  "leaves P r \<longleftrightarrow> P (snd r)"

lemma leaves_pair [simp]: "leaves P (r, s) \<longleftrightarrow> P s"
  by (simp add: leaves_def)

lemma leaves_read: "P s \<Longrightarrow> leaves P (r, s)"
  by simp

lemma leaves_and_then [intro]:
  assumes "leaves P r" "\<And>a s. r = (Inr a, s) \<Longrightarrow> P s \<Longrightarrow> leaves P (f a s)"
  shows "leaves P (and_then r f)"
  using assms by (cases r; cases "fst r") (auto simp: leaves_def)

end
