(* ===== verification/Common_Types.thy ===== *)
theory Common_Types
  imports Prelude
begin

text \<open>
  The enumerations of \<^verbatim>\<open>core/data_type/common.py\<close> and the trading pair helpers of
  \<^verbatim>\<open>connector/utils.py\<close>.
\<close>

datatype order_type = MARKET | LIMIT | LIMIT_MAKER

definition is_limit_type :: "order_type \<Rightarrow> bool" where
  "is_limit_type t \<longleftrightarrow> t = LIMIT \<or> t = LIMIT_MAKER"

datatype position_action = OPEN_POSITION | CLOSE_POSITION | NIL_POSITION

datatype position_side = LONG | SHORT | BOTH

datatype position_mode = HEDGE | ONEWAY

datatype price_type = MidPrice | BestBid | BestAsk | LastTrade | LastOwnTrade | InventoryCost | Custom

datatype trade_type = BUY | SELL | RANGE

text \<open>The \<^verbatim>\<open>name\<close> and \<^verbatim>\<open>value\<close> attributes of the members, as the JSON encodings use them.\<close>

fun order_type_name :: "order_type \<Rightarrow> string" where
  "order_type_name MARKET = ''MARKET''"
| "order_type_name LIMIT = ''LIMIT''"
| "order_type_name LIMIT_MAKER = ''LIMIT_MAKER''"

definition order_type_of_name :: "string \<Rightarrow> py_error + order_type" where
  "order_type_of_name s =
     (if s = ''MARKET'' then Inr MARKET else if s = ''LIMIT'' then Inr LIMIT
      else if s = ''LIMIT_MAKER'' then Inr LIMIT_MAKER else Inl AttributeError)"

fun trade_type_name :: "trade_type \<Rightarrow> string" where
  "trade_type_name BUY = ''BUY''"
| "trade_type_name SELL = ''SELL''"
| "trade_type_name RANGE = ''RANGE''"

definition trade_type_of_name :: "string \<Rightarrow> py_error + trade_type" where
  "trade_type_of_name s =
     (if s = ''BUY'' then Inr BUY else if s = ''SELL'' then Inr SELL
      else if s = ''RANGE'' then Inr RANGE else Inl AttributeError)"

fun position_action_value :: "position_action \<Rightarrow> string" where
  "position_action_value OPEN_POSITION = ''OPEN''"
| "position_action_value CLOSE_POSITION = ''CLOSE''"
| "position_action_value NIL_POSITION = ''NIL''"

definition position_action_of_value :: "string \<Rightarrow> py_error + position_action" where
  "position_action_of_value s =
     (if s = ''OPEN'' then Inr OPEN_POSITION else if s = ''CLOSE'' then Inr CLOSE_POSITION
      else if s = ''NIL'' then Inr NIL_POSITION else Inl ValueError)"

lemma order_type_name_inverse [simp]: "order_type_of_name (order_type_name t) = Inr t"
  by (cases t) (simp_all add: order_type_of_name_def)

lemma trade_type_name_inverse [simp]: "trade_type_of_name (trade_type_name t) = Inr t"
  by (cases t) (simp_all add: trade_type_of_name_def)

lemma position_action_value_inverse [simp]:
  "position_action_of_value (position_action_value p) = Inr p"
  by (cases p) (simp_all add: position_action_of_value_def)

subsection \<open>Trading pairs\<close>

definition split_hb_trading_pair :: "string \<Rightarrow> py_error + (string \<times> string)" where
  "split_hb_trading_pair tp =
     (case split_char (CHR ''-'') tp of
        [base, quote] \<Rightarrow> Inr (base, quote)
      | _ \<Rightarrow> Inl ValueError)"

definition combine_to_hb_trading_pair :: "string \<Rightarrow> string \<Rightarrow> string" where
  "combine_to_hb_trading_pair base quote = base @ ''-'' @ quote"

lemma split_combine:
  assumes "CHR ''-'' \<notin> set base" and "CHR ''-'' \<notin> set quote"
  shows "split_hb_trading_pair (combine_to_hb_trading_pair base quote) = Inr (base, quote)"
  using assms
  by (simp add: split_hb_trading_pair_def combine_to_hb_trading_pair_def
      split_char_append split_char_none)

lemma split_char_no_sep: "w \<in> set (split_char c xs) \<Longrightarrow> c \<notin> set w"
  by (induction xs arbitrary: w) (auto split: list.splits if_splits)

lemma split_hb_Inr:
  assumes "split_hb_trading_pair k = Inr (b, q)"
  shows "split_char (CHR ''-'') k = [b, q]" "CHR ''-'' \<notin> set b" "CHR ''-'' \<notin> set q"
proof -
  show *: "split_char (CHR ''-'') k = [b, q]"
    using assms by (auto simp: split_hb_trading_pair_def split: list.splits)
  show "CHR ''-'' \<notin> set b" "CHR ''-'' \<notin> set q"
    using split_char_no_sep[of b "CHR ''-''" k] split_char_no_sep[of q "CHR ''-''" k] * by auto
qed

end
