(* ===== verification/Rate_Oracle.thy ===== *)
theory Rate_Oracle
  imports Common_Types "HOL-Library.Sublist"
begin

text \<open>
  \<^verbatim>\<open>core/gateway/utils.py\<close> (\<^verbatim>\<open>unwrap_token_symbol\<close>) and \<^verbatim>\<open>core/rate_oracle/utils.py\<close>
  (\<^verbatim>\<open>find_rate\<close>): the conversion rate of a pair from a dictionary of prices, directly, inverted
  or through one linking token.  The contract of a rate source is the locale \<open>rate_source\<close>: a rate
  it returns agrees with every valuation of the tokens that explains its prices.
\<close>

subsection \<open>Wrapped token symbols\<close>

definition word_char :: "char \<Rightarrow> bool" where
  "word_char c \<longleftrightarrow> (let n = (of_char c :: nat) in
     (48 \<le> n \<and> n \<le> 57) \<or> (65 \<le> n \<and> n \<le> 90) \<or> (97 \<le> n \<and> n \<le> 122) \<or> n = 95)"

definition capital_w_tokens :: "string list" where
  "capital_w_tokens = [''BTC'', ''ETH'', ''AVAX'', ''ALBT'', ''XRP'']"

definition match_capital_w :: "string \<Rightarrow> string option" where
  "match_capital_w s =
     (case s of [] \<Rightarrow> None
      | c # rest \<Rightarrow> if c = CHR ''W'' then find (\<lambda>t. prefix t rest) capital_w_tokens else None)"

definition match_small_w :: "string \<Rightarrow> string option" where
  "match_small_w s =
     (case s of [] \<Rightarrow> None
      | c # rest \<Rightarrow>
          if c = CHR ''w'' \<and> takeWhile word_char rest \<noteq> [] then Some (takeWhile word_char rest)
          else None)"

text \<open>The pattern ends at \<^verbatim>\<open>$\<close>: the end of the string or the position before a final newline.\<close>

definition match_dot_e :: "string \<Rightarrow> string option" where
  "match_dot_e s =
     (let t = (if s \<noteq> [] \<and> last s = CHR 0x0A then butlast s else s); r = rev t in
      if 2 \<le> length r \<and> (r ! 0 = CHR ''e'' \<or> r ! 0 = CHR ''E'') \<and> r ! 1 = CHR ''.''
         \<and> takeWhile word_char (drop 2 r) \<noteq> []
      then Some (rev (takeWhile word_char (drop 2 r))) else None)"

definition unwrap_token_symbol :: "string \<Rightarrow> string" where
  "unwrap_token_symbol s =
     (case match_capital_w s of Some t \<Rightarrow> t
      | None \<Rightarrow> (case match_small_w s of Some t \<Rightarrow> t
      | None \<Rightarrow> (case match_dot_e s of Some t \<Rightarrow> t | None \<Rightarrow> s)))"

subsection \<open>Finding a rate\<close>

type_synonym price_dict = "(string, decimal) pydict"

text \<open>The loop over the prices whose pair starts with the base token.\<close>

fun find_link_rate ::
  "price_dict \<Rightarrow> string \<Rightarrow> (string \<times> decimal) list \<Rightarrow> py_error + decimal option" where
  "find_link_rate prices quote [] = Inr None"
| "find_link_rate prices quote ((base_pair, proxy_price) # rest) =
     (case split_char (CHR ''-'') base_pair of
        _ # link_quote # _ \<Rightarrow>
          (case map_of prices (combine_to_hb_trading_pair link_quote quote) of
             Some p \<Rightarrow> Inr (Some (proxy_price * p))
           | None \<Rightarrow>
               (case map_of prices (combine_to_hb_trading_pair quote link_quote) of
                  Some p \<Rightarrow> bind_err (dec_div proxy_price p) (\<lambda>r. Inr (Some r))
                | None \<Rightarrow> find_link_rate prices quote rest))
      | _ \<Rightarrow> Inl IndexError)"

definition find_rate :: "price_dict \<Rightarrow> string \<Rightarrow> py_error + decimal option" where
  "find_rate prices pair =
     (case map_of prices pair of
        Some p \<Rightarrow> Inr (Some p)
      | None \<Rightarrow>
          bind_err (split_hb_trading_pair pair) (\<lambda>(b, q).
            let base = unwrap_token_symbol b; quote = unwrap_token_symbol q in
            if base = quote then Inr (Some 1)
            else (case map_of prices (combine_to_hb_trading_pair quote base) of
                    Some p \<Rightarrow> bind_err (dec_div 1 p) (\<lambda>r. Inr (Some r))
                  | None \<Rightarrow>
                      find_link_rate prices quote
                        (filter (\<lambda>(k, v). prefix (base @ ''-'') k) prices))))"

subsection \<open>The contract of a rate source\<close>

text \<open>
  \<open>v\<close> values every token in one common unit; \<open>explains v src\<close> says that the prices held by the
  source are the quotients of those values.
\<close>

locale rate_source =
  fixes rate_of :: "'src \<Rightarrow> string \<Rightarrow> py_error + decimal option"
    and explains :: "(string \<Rightarrow> decimal) \<Rightarrow> 'src \<Rightarrow> bool"
  assumes rate_sound:
      "explains v src \<Longrightarrow> rate_of src pair = Inr (Some r) \<Longrightarrow>
       split_hb_trading_pair pair = Inr (b, q) \<Longrightarrow> r * v q = v b"
    and rate_total:
      "explains v src \<Longrightarrow> split_hb_trading_pair pair = Inr (b, q) \<Longrightarrow>
       \<exists>r. rate_of src pair = Inr r"
    and values_pos: "explains v src \<Longrightarrow> 0 < v t"
begin

lemma rate_unique:
  assumes "explains v src" and "split_hb_trading_pair pair = Inr (b, q)"
    and "rate_of src pair = Inr (Some r)"
  shows "r = v b / v q"
  using rate_sound[OF assms(1,3,2)] values_pos[OF assms(1), of q] by (simp add: field_simps)

lemma rate_pos:
  assumes "explains v src" and "split_hb_trading_pair pair = Inr (b, q)"
    and "rate_of src pair = Inr (Some r)"
  shows "0 < r"
  using rate_unique[OF assms] values_pos[OF assms(1)] by simp

text \<open>Converting there and back leaves an amount unchanged.\<close>

lemma rate_inverse:
  assumes "explains v src"
    and "split_hb_trading_pair pair = Inr (b, q)" and "rate_of src pair = Inr (Some r)"
    and "split_hb_trading_pair pair' = Inr (q, b)" and "rate_of src pair' = Inr (Some r')"
  shows "r * r' = 1"
  using rate_unique[OF assms(1,2,3)] rate_unique[OF assms(1,4,5)]
    values_pos[OF assms(1), of b] values_pos[OF assms(1), of q] by simp

end

subsection \<open>The dictionary of prices is a rate source\<close>

text \<open>
  A valuation explains the prices when every key is a trading pair, its price is the quotient of
  the two values, and a wrapped token is worth its underlying.
\<close>

definition prices_explained :: "(string \<Rightarrow> decimal) \<Rightarrow> price_dict \<Rightarrow> bool" where
  "prices_explained v prices \<longleftrightarrow>
     (\<forall>t. 0 < v t \<and> v (unwrap_token_symbol t) = v t) \<and>
     (\<forall>(k, p) \<in> set prices. \<exists>b q. split_hb_trading_pair k = Inr (b, q) \<and> p * v q = v b)"

lemma split_char_prefix:
  assumes "prefix (b @ ''-'') k" and "CHR ''-'' \<notin> set b"
  shows "\<exists>rest. split_char (CHR ''-'') k = b # rest"
  using assms by (auto simp: prefix_def split_char_append)

lemma takeWhile_subset: "set (takeWhile P xs) \<subseteq> set xs"
  by (meson set_takeWhileD subsetI)

lemma unwrap_no_dash:
  assumes "CHR ''-'' \<notin> set s"
  shows "CHR ''-'' \<notin> set (unwrap_token_symbol s)"
proof -
  have 1: "CHR ''-'' \<notin> set t" if "match_capital_w s = Some t" for t
  proof -
    have "t \<in> set capital_w_tokens" using that
      by (auto simp: match_capital_w_def find_Some_iff split: list.splits if_splits)
    then show ?thesis by (auto simp: capital_w_tokens_def)
  qed
  have 2: "CHR ''-'' \<notin> set t" if "match_small_w s = Some t" for t
    using that assms
    by (auto simp: match_small_w_def split: list.splits if_splits dest: set_takeWhileD)
  have 3: "CHR ''-'' \<notin> set t" if "match_dot_e s = Some t" for t
    using that assms
    by (auto simp: match_dot_e_def Let_def split: if_splits
        dest!: set_takeWhileD in_set_dropD in_set_butlastD)
  show ?thesis using 1 2 3 assms
    by (simp add: unwrap_token_symbol_def split: option.split)
qed

lemma prices_explainedD:
  assumes "prices_explained v prices"
  shows "0 < v t" and "v (unwrap_token_symbol t) = v t"
    and "map_of prices k = Some p \<Longrightarrow> split_hb_trading_pair k = Inr (b, q) \<Longrightarrow> p * v q = v b"
    and "(k, p) \<in> set prices \<Longrightarrow> \<exists>b q. split_hb_trading_pair k = Inr (b, q) \<and> p * v q = v b"
proof -
  show "0 < v t" "v (unwrap_token_symbol t) = v t"
    using assms by (auto simp: prices_explained_def)
  show in_set: "(k, p) \<in> set prices \<Longrightarrow>
      \<exists>b q. split_hb_trading_pair k = Inr (b, q) \<and> p * v q = v b" for k p
    using assms by (fastforce simp: prices_explained_def)
  show "map_of prices k = Some p \<Longrightarrow> split_hb_trading_pair k = Inr (b, q) \<Longrightarrow> p * v q = v b"
    using in_set[OF map_of_SomeD] by fastforce
qed

lemma find_link_rate_sound:
  assumes ok: "prices_explained v prices" and sub: "set links \<subseteq> set prices"
    and pre: "\<And>k p. (k, p) \<in> set links \<Longrightarrow> prefix (b @ ''-'') k"
    and nodash: "CHR ''-'' \<notin> set b" "CHR ''-'' \<notin> set q"
  shows "\<exists>r. find_link_rate prices q links = Inr r \<and> (\<forall>x. r = Some x \<longrightarrow> x * v q = v b)"
  using sub pre
proof (induction links)
  case Nil
  then show ?case by simp
next
  case (Cons l ls)
  obtain k p where l: "l = (k, p)" by (cases l)
  have "(k, p) \<in> set prices" and pre_k: "prefix (b @ ''-'') k" using Cons.prems l by auto
  then obtain b' m where k: "split_hb_trading_pair k = Inr (b', m)" and p: "p * v m = v b'"
    using prices_explainedD(4)[OF ok] by blast
  note sk = split_hb_Inr[OF k]
  have "b' = b" using split_char_prefix[OF pre_k nodash(1)] sk(1) by auto
  have IH: "\<exists>r. find_link_rate prices q ls = Inr r \<and> (\<forall>x. r = Some x \<longrightarrow> x * v q = v b)"
    using Cons.IH Cons.prems by (meson list.set_intros(2) set_subset_Cons subset_trans)
  have m1: "x * v q = v m" if "map_of prices (combine_to_hb_trading_pair m q) = Some x" for x
    using prices_explainedD(3)[OF ok that split_combine[OF sk(3) nodash(2)]] .
  have m2: "x * v m = v q" if "map_of prices (combine_to_hb_trading_pair q m) = Some x" for x
    using prices_explainedD(3)[OF ok that split_combine[OF nodash(2) sk(3)]] .
  have pos: "0 < v m" "0 < v q" using prices_explainedD(1)[OF ok] by auto
  show ?case
  proof (cases "map_of prices (combine_to_hb_trading_pair m q)")
    case (Some x)
    have "p * x * v q = v b" using m1[OF Some] p \<open>b' = b\<close> by (simp add: mult.assoc)
    then show ?thesis by (simp add: l sk Some)
  next
    case None
    show ?thesis
    proof (cases "map_of prices (combine_to_hb_trading_pair q m)")
      case (Some x)
      have x: "x = v q / v m" using m2[OF Some] pos by (simp add: field_simps)
      then have "x \<noteq> 0" using pos by simp
      moreover have "p / x * v q = p * v m" using pos by (simp add: x)
      then have "p / x * v q = v b" using p \<open>b' = b\<close> by simp
      ultimately show ?thesis by (simp add: l sk None Some)
    next
      case none2: None
      show ?thesis using IH by (simp add: l sk None none2)
    qed
  qed
qed

lemma find_rate_sound_total:
  assumes ok: "prices_explained v prices" and pair: "split_hb_trading_pair pair = Inr (b, q)"
  shows "\<exists>r. find_rate prices pair = Inr r \<and> (\<forall>x. r = Some x \<longrightarrow> x * v q = v b)"
proof (cases "map_of prices pair")
  case (Some p)
  then show ?thesis using prices_explainedD(3)[OF ok Some pair] by (simp add: find_rate_def)
next
  case None
  let ?b = "unwrap_token_symbol b" and ?q = "unwrap_token_symbol q"
  have nd: "CHR ''-'' \<notin> set ?b" "CHR ''-'' \<notin> set ?q"
    using split_hb_Inr(2,3)[OF pair] unwrap_no_dash by auto
  have vb: "v ?b = v b" and vq: "v ?q = v q" and pos: "0 < v b" "0 < v q"
    using prices_explainedD(1,2)[OF ok] by auto
  show ?thesis
  proof (cases "?b = ?q")
    case True
    then have "v b = v q" using vb vq by simp
    with True show ?thesis by (simp add: find_rate_def None pair)
  next
    case neq: False
    show ?thesis
    proof (cases "map_of prices (combine_to_hb_trading_pair ?q ?b)")
      case (Some p)
      have "p * v b = v q"
        using prices_explainedD(3)[OF ok Some split_combine[OF nd(2,1)]] vb vq by simp
      then have p: "p = v q / v b" using pos by (simp add: field_simps)
      then have "p \<noteq> 0" "1 / p * v q = v b" using pos by auto
      then show ?thesis by (simp add: find_rate_def None pair neq Some Let_def)
    next
      case none2: None
      let ?links = "filter (\<lambda>(k, v). prefix (?b @ ''-'') k) prices"
      have "\<exists>r. find_link_rate prices ?q ?links = Inr r \<and> (\<forall>x. r = Some x \<longrightarrow> x * v ?q = v ?b)"
        by (rule find_link_rate_sound[OF ok]) (use nd in auto)
      then show ?thesis using vb vq by (simp add: find_rate_def None pair neq none2 Let_def)
    qed
  qed
qed

interpretation price_oracle: rate_source find_rate prices_explained
proof unfold_locales
  fix v prices pair r b q
  assume "prices_explained v prices" "find_rate prices pair = Inr (Some r)"
    "split_hb_trading_pair pair = Inr (b, q)"
  then show "r * v q = v b" using find_rate_sound_total by fastforce
next
  fix v prices pair b q
  assume "prices_explained v prices" "split_hb_trading_pair pair = Inr (b, q)"
  then show "\<exists>r. find_rate prices pair = Inr r" using find_rate_sound_total by fastforce
next
  fix v prices t
  assume "prices_explained v prices"
  then show "0 < v t" by (rule prices_explainedD)
qed

end
