(* ===== verification/Json.thy ===== *)
theory Json
  imports Common_Types
begin

text \<open>
  JSON values as the serialisers of the code build and read them. \<open>JDec d\<close> is the string
  rendering \<^verbatim>\<open>str(d)\<close> of a finite \<^verbatim>\<open>Decimal\<close> (or integer), kept as the number it denotes; every
  other string is \<open>JStr\<close>. An object is a list of key/value pairs, a \<^verbatim>\<open>dict\<close>.
\<close>

datatype json =
    JNull
  | JStr string
  | JDec decimal
  | JNum rat
  | JList "json list"
  | JObj "(string \<times> json) list"

text \<open>\<^verbatim>\<open>data["key"]\<close> raises \<^verbatim>\<open>KeyError\<close> on a missing key; \<^verbatim>\<open>data.get\<close> takes a default.\<close>

fun json_field :: "json \<Rightarrow> string \<Rightarrow> py_error + json" where
  "json_field (JObj kvs) k = (case map_of kvs k of None \<Rightarrow> Inl KeyError | Some v \<Rightarrow> Inr v)"
| "json_field _ k = Inl TypeError"

fun json_get :: "json \<Rightarrow> string \<Rightarrow> json \<Rightarrow> py_error + json" where
  "json_get (JObj kvs) k dflt = (case map_of kvs k of None \<Rightarrow> Inr dflt | Some v \<Rightarrow> Inr v)"
| "json_get _ k dflt = Inl AttributeError"

text \<open>\<^verbatim>\<open>Decimal(x)\<close>: a rendering of a number or a number is read, other strings are refused.\<close>

fun decimal_of_json :: "json \<Rightarrow> py_error + decimal" where
  "decimal_of_json (JDec d) = Inr d"
| "decimal_of_json (JNum d) = Inr d"
| "decimal_of_json (JStr s) = Inl InvalidOperation"
| "decimal_of_json _ = Inl TypeError"

fun string_of_json :: "json \<Rightarrow> py_error + string" where
  "string_of_json (JStr s) = Inr s"
| "string_of_json _ = Inl TypeError"

fun opt_string_of_json :: "json \<Rightarrow> py_error + string option" where
  "opt_string_of_json JNull = Inr None"
| "opt_string_of_json (JStr s) = Inr (Some s)"
| "opt_string_of_json _ = Inl TypeError"

fun json_of_opt_string :: "string option \<Rightarrow> json" where
  "json_of_opt_string None = JNull"
| "json_of_opt_string (Some s) = JStr s"

fun list_of_json :: "json \<Rightarrow> py_error + json list" where
  "list_of_json (JList xs) = Inr xs"
| "list_of_json _ = Inl TypeError"

fun items_of_json :: "json \<Rightarrow> py_error + (string \<times> json) list" where
  "items_of_json (JObj kvs) = Inr kvs"
| "items_of_json _ = Inl AttributeError"

lemma opt_string_json_inverse [simp]: "opt_string_of_json (json_of_opt_string s) = Inr s"
  by (cases s) simp_all

lemma map_err_inverse:
  assumes "\<And>x. x \<in> set xs \<Longrightarrow> g (f x) = Inr x"
  shows "map_err g (map f xs) = Inr xs"
  using assms by (induction xs) auto

end
