(* ===== verification/Trade_Fee.thy ===== *)
theory Trade_Fee
  imports Json
begin

text \<open>
  \<^verbatim>\<open>core/data_type/trade_fee.py\<close>: token amounts, the fee schema of an exchange, the two kinds of
  trade fee, their construction for spot and perpetual trades, the amount of a fee in a given
  token and the JSON encoding; \<^verbatim>\<open>client/config/trade_fee_schema_loader.py\<close>: the user's
  overrides; \<^verbatim>\<open>core/utils/estimate_fee.py\<close>: the fee built for an order.
\<close>

record token_amount =
  ta_token :: string
  ta_amount :: decimal

record trade_fee_schema =
  fs_percent_fee_token :: "string option"
  fs_maker_percent_fee_decimal :: decimal
  fs_taker_percent_fee_decimal :: decimal
  fs_buy_percent_fee_deducted_from_returns :: bool
  fs_maker_fixed_fees :: "token_amount list"
  fs_taker_fixed_fees :: "token_amount list"

definition validate_schema :: "trade_fee_schema \<Rightarrow> py_error + trade_fee_schema" where
  "validate_schema s =
     (if fs_percent_fee_token s \<noteq> None \<and> fs_buy_percent_fee_deducted_from_returns s
      then Inl AssertionError else Inr s)"

text \<open>The subclass of a fee is its \<open>fee_class\<close>.\<close>

datatype fee_class = AddedToCost | DeductedFromReturns

record trade_fee =
  tf_class :: fee_class
  tf_percent :: decimal
  tf_percent_token :: "string option"
  tf_flat_fees :: "token_amount list"

definition new_spot_fee ::
  "trade_fee_schema \<Rightarrow> trade_type \<Rightarrow> decimal \<Rightarrow> string option \<Rightarrow> token_amount list \<Rightarrow> trade_fee" where
  "new_spot_fee schema side pct pct_token flat =
     \<lparr>tf_class = (if side = BUY \<and> (\<not> fs_buy_percent_fee_deducted_from_returns schema
                                   \<or> fs_percent_fee_token schema \<noteq> None)
                  then AddedToCost else DeductedFromReturns),
      tf_percent = pct, tf_percent_token = pct_token, tf_flat_fees = flat\<rparr>"

definition new_perpetual_fee ::
  "trade_fee_schema \<Rightarrow> position_action \<Rightarrow> decimal \<Rightarrow> string option \<Rightarrow> token_amount list \<Rightarrow> trade_fee" where
  "new_perpetual_fee schema action pct pct_token flat =
     \<lparr>tf_class = (if action = OPEN_POSITION \<or> fs_percent_fee_token schema \<noteq> None
                  then AddedToCost else DeductedFromReturns),
      tf_percent = pct, tf_percent_token = pct_token, tf_flat_fees = flat\<rparr>"

definition fee_asset :: "trade_fee \<Rightarrow> string option" where
  "fee_asset fee =
     or_opt (tf_percent_token fee)
       (case tf_flat_fees fee of [] \<Rightarrow> None | ta # _ \<Rightarrow> Some (ta_token ta))"

subsection \<open>The fee in a given token\<close>

definition interchangeable_tokens :: "(string \<times> string) list" where
  "interchangeable_tokens = [(''WETH'', ''ETH''), (''WBTC'', ''BTC'')]"

definition are_tokens_interchangeable :: "string \<Rightarrow> string \<Rightarrow> bool" where
  "are_tokens_interchangeable s t \<longleftrightarrow>
     s = t \<or> list_ex (\<lambda>(a, b). (s = a \<or> s = b) \<and> (t = a \<or> t = b)) interchangeable_tokens"

text \<open>
  What the code reads from the connector and the rate source for a conversion: the pairs with an
  order book, the mid price of such a pair, and the rate of the rate source if it has one.
\<close>

record rate_env =
  re_has_order_book :: "string \<Rightarrow> bool"
  re_mid_price :: "string \<Rightarrow> decimal"
  re_rate :: "string \<Rightarrow> decimal option"

definition get_exchange_rate :: "rate_env \<Rightarrow> string \<Rightarrow> py_error + decimal" where
  "get_exchange_rate env pair =
     (if re_has_order_book env pair then Inr (re_mid_price env pair)
      else (case re_rate env pair of None \<Rightarrow> Inl ValueError | Some r \<Rightarrow> Inr r))"

definition flat_fee_in_token ::
  "rate_env \<Rightarrow> string \<Rightarrow> string \<Rightarrow> decimal \<Rightarrow> string \<Rightarrow> token_amount \<Rightarrow> py_error + decimal" where
  "flat_fee_in_token env base quote price token ff =
     (if are_tokens_interchangeable (ta_token ff) token then Inr (ta_amount ff)
      else if are_tokens_interchangeable (ta_token ff) base \<and> are_tokens_interchangeable quote token
      then Inr (ta_amount ff * price)
      else bind_err (get_exchange_rate env (combine_to_hb_trading_pair (ta_token ff) token))
             (\<lambda>rate. Inr (ta_amount ff * rate)))"

definition percent_fee_in_token ::
  "rate_env \<Rightarrow> string \<Rightarrow> decimal \<Rightarrow> decimal \<Rightarrow> string \<Rightarrow> decimal \<Rightarrow> py_error + decimal" where
  "percent_fee_in_token env quote price order_amount token pct =
     (if pct = 0 then Inr 0
      else if are_tokens_interchangeable quote token then Inr (price * order_amount * pct)
      else bind_err (get_exchange_rate env (combine_to_hb_trading_pair quote token))
             (\<lambda>rate. Inr (price * order_amount * pct * rate)))"

definition fee_amount_in_token ::
  "rate_env \<Rightarrow> trade_fee \<Rightarrow> string \<Rightarrow> decimal \<Rightarrow> decimal \<Rightarrow> string \<Rightarrow> py_error + decimal" where
  "fee_amount_in_token env fee trading_pair price order_amount token =
     bind_err (split_hb_trading_pair trading_pair) (\<lambda>(base, quote).
     bind_err (percent_fee_in_token env quote price order_amount token (tf_percent fee)) (\<lambda>pct_amount.
       fold_err (\<lambda>ff acc. bind_err (flat_fee_in_token env base quote price token ff)
                            (\<lambda>a. Inr (acc + a)))
         (tf_flat_fees fee) pct_amount))"

subsection \<open>JSON\<close>

definition token_amount_to_json :: "token_amount \<Rightarrow> json" where
  "token_amount_to_json ta = JObj [(''token'', JStr (ta_token ta)), (''amount'', JDec (ta_amount ta))]"

definition token_amount_from_json :: "json \<Rightarrow> py_error + token_amount" where
  "token_amount_from_json data =
     bind_err (json_field data ''token'') (\<lambda>t. bind_err (string_of_json t) (\<lambda>token.
     bind_err (json_field data ''amount'') (\<lambda>a. bind_err (decimal_of_json a) (\<lambda>amount.
       Inr \<lparr>ta_token = token, ta_amount = amount\<rparr>))))"

fun type_descriptor_for_json :: "fee_class \<Rightarrow> string" where
  "type_descriptor_for_json AddedToCost = ''AddedToCost''"
| "type_descriptor_for_json DeductedFromReturns = ''DeductedFromReturns''"

definition fee_class_for_type :: "string \<Rightarrow> py_error + fee_class" where
  "fee_class_for_type d =
     (if d = ''AddedToCost'' then Inr AddedToCost
      else if d = ''DeductedFromReturns'' then Inr DeductedFromReturns else Inl KeyError)"

definition trade_fee_to_json :: "trade_fee \<Rightarrow> json" where
  "trade_fee_to_json fee = JObj [
     (''fee_type'', JStr (type_descriptor_for_json (tf_class fee))),
     (''percent'', JDec (tf_percent fee)),
     (''percent_token'', json_of_opt_string (tf_percent_token fee)),
     (''flat_fees'', JList (map token_amount_to_json (tf_flat_fees fee)))]"

definition trade_fee_from_json :: "json \<Rightarrow> py_error + trade_fee" where
  "trade_fee_from_json data =
     bind_err (json_field data ''fee_type'') (\<lambda>d. bind_err (string_of_json d) (\<lambda>descr.
     bind_err (fee_class_for_type descr) (\<lambda>cls.
     bind_err (json_field data ''percent'') (\<lambda>p. bind_err (decimal_of_json p) (\<lambda>pct.
     bind_err (json_field data ''percent_token'') (\<lambda>t. bind_err (opt_string_of_json t) (\<lambda>tok.
     bind_err (json_field data ''flat_fees'') (\<lambda>f. bind_err (list_of_json f) (\<lambda>fs.
     bind_err (map_err token_amount_from_json fs) (\<lambda>flat.
       Inr \<lparr>tf_class = cls, tf_percent = pct, tf_percent_token = tok, tf_flat_fees = flat\<rparr>))))))))))"

subsection \<open>Schema overrides and fee construction\<close>

text \<open>
  The values of the user's fee configuration for one exchange; \<^verbatim>\<open>None\<close> where a variable is not
  set. A fixed fee override is a list of token/amount pairs.
\<close>

record fee_overrides =
  fo_percent_fee_token :: "string option"
  fo_maker_percent_fee :: "decimal option"
  fo_taker_percent_fee :: "decimal option"
  fo_buy_percent_fee_deducted_from_returns :: "bool option"
  fo_maker_fixed_fees :: "token_amount list option"
  fo_taker_fixed_fees :: "token_amount list option"

definition override_list :: "'a list option \<Rightarrow> 'a list \<Rightarrow> 'a list" where
  "override_list v dflt = (case v of None \<Rightarrow> dflt | Some [] \<Rightarrow> dflt | Some xs \<Rightarrow> xs)"

definition superimpose_overrides ::
  "fee_overrides \<Rightarrow> trade_fee_schema \<Rightarrow> py_error + trade_fee_schema" where
  "superimpose_overrides fo s = validate_schema \<lparr>
     fs_percent_fee_token = or_opt (fo_percent_fee_token fo) (fs_percent_fee_token s),
     fs_maker_percent_fee_decimal =
       (case fo_maker_percent_fee fo of Some v \<Rightarrow> v / 100 | None \<Rightarrow> fs_maker_percent_fee_decimal s),
     fs_taker_percent_fee_decimal =
       (case fo_taker_percent_fee fo of Some v \<Rightarrow> v / 100 | None \<Rightarrow> fs_taker_percent_fee_decimal s),
     fs_buy_percent_fee_deducted_from_returns =
       (case fo_buy_percent_fee_deducted_from_returns fo of
          Some v \<Rightarrow> v | None \<Rightarrow> fs_buy_percent_fee_deducted_from_returns s),
     fs_maker_fixed_fees = override_list (fo_maker_fixed_fees fo) (fs_maker_fixed_fees s),
     fs_taker_fixed_fees = override_list (fo_taker_fixed_fees fo) (fs_taker_fixed_fees s)\<rparr>"

definition build_trade_fee ::
  "trade_fee_schema \<Rightarrow> bool \<Rightarrow> trade_type \<Rightarrow> token_amount list \<Rightarrow> trade_fee" where
  "build_trade_fee schema is_maker side extra_flat_fees =
     new_spot_fee schema side
       (if is_maker then fs_maker_percent_fee_decimal schema else fs_taker_percent_fee_decimal schema)
       (fs_percent_fee_token schema)
       ((if is_maker then fs_maker_fixed_fees schema else fs_taker_fixed_fees schema) @ extra_flat_fees)"

definition build_perpetual_trade_fee ::
  "trade_fee_schema \<Rightarrow> bool \<Rightarrow> position_action \<Rightarrow> trade_fee" where
  "build_perpetual_trade_fee schema is_maker action =
     new_perpetual_fee schema action
       (if is_maker then fs_maker_percent_fee_decimal schema else fs_taker_percent_fee_decimal schema)
       (fs_percent_fee_token schema)
       (if is_maker then fs_maker_fixed_fees schema else fs_taker_fixed_fees schema)"

definition estimate_fee :: "trade_fee_schema \<Rightarrow> bool \<Rightarrow> trade_fee" where
  "estimate_fee schema is_maker = build_trade_fee schema is_maker BUY []"

subsection \<open>Lemmas\<close>

lemma token_amount_json_inverse [simp]:
  "token_amount_from_json (token_amount_to_json ta) = Inr ta"
  by (simp add: token_amount_from_json_def token_amount_to_json_def)

lemma fee_class_json_inverse [simp]:
  "fee_class_for_type (type_descriptor_for_json c) = Inr c"
  by (cases c) (simp_all add: fee_class_for_type_def)

lemma trade_fee_json_inverse [simp]:
  "trade_fee_from_json (trade_fee_to_json fee) = Inr fee"
  by (simp add: trade_fee_from_json_def trade_fee_to_json_def map_err_inverse)

lemma interchangeable_refl [simp]: "are_tokens_interchangeable t t"
  by (simp add: are_tokens_interchangeable_def)

lemma interchangeable_sym:
  "are_tokens_interchangeable s t = are_tokens_interchangeable t s"
  by (auto simp: are_tokens_interchangeable_def interchangeable_tokens_def)

lemma interchangeable_trans:
  "are_tokens_interchangeable s t \<Longrightarrow> are_tokens_interchangeable t u \<Longrightarrow>
     are_tokens_interchangeable s u"
  by (auto simp: are_tokens_interchangeable_def interchangeable_tokens_def)

lemma validate_schema_Inr:
  "validate_schema s = Inr s' \<Longrightarrow>
     s' = s \<and> (fs_percent_fee_token s = None \<or> \<not> fs_buy_percent_fee_deducted_from_returns s)"
  by (auto simp: validate_schema_def split: if_splits)

end
