(* ===== verification/In_Flight_Order.thy ===== *)
theory In_Flight_Order
  imports Trade_Fee
begin

text \<open>
  \<^verbatim>\<open>core/data_type/in_flight_order.py\<close>: the client's record of one order, the order and trade
  updates that change it, its status predicates and its JSON encoding.  The two asyncio events
  are the Booleans \<open>ifo_exchange_id_event\<close> and \<open>ifo_filled_event\<close> (set or not).
\<close>

datatype order_state =
    PENDING_CREATE | OPEN | PENDING_CANCEL | CANCELED | PARTIALLY_FILLED | FILLED | FAILED
  | PENDING_APPROVAL | APPROVED | CREATED | COMPLETED

definition order_state_values :: "order_state list" where
  "order_state_values = [PENDING_CREATE, OPEN, PENDING_CANCEL, CANCELED, PARTIALLY_FILLED, FILLED,
     FAILED, PENDING_APPROVAL, APPROVED, CREATED, COMPLETED]"

fun order_state_value :: "order_state \<Rightarrow> int" where
  "order_state_value PENDING_CREATE = 0"
| "order_state_value OPEN = 1"
| "order_state_value PENDING_CANCEL = 2"
| "order_state_value CANCELED = 3"
| "order_state_value PARTIALLY_FILLED = 4"
| "order_state_value FILLED = 5"
| "order_state_value FAILED = 6"
| "order_state_value PENDING_APPROVAL = 7"
| "order_state_value APPROVED = 8"
| "order_state_value CREATED = 9"
| "order_state_value COMPLETED = 10"

text \<open>\<^verbatim>\<open>OrderState(n)\<close> raises \<^verbatim>\<open>ValueError\<close> on a number that is no member's value.\<close>

definition order_state_of_value :: "int \<Rightarrow> py_error + order_state" where
  "order_state_of_value n =
     (if 0 \<le> n \<and> n < 11 then Inr (order_state_values ! nat n) else Inl ValueError)"

record order_update =
  ou_trading_pair :: string
  ou_update_timestamp :: seconds
  ou_new_state :: order_state
  ou_client_order_id :: "string option"
  ou_exchange_order_id :: "string option"

record trade_update =
  tu_trade_id :: string
  tu_client_order_id :: string
  tu_exchange_order_id :: string
  tu_trading_pair :: string
  tu_fill_timestamp :: seconds
  tu_fill_price :: decimal
  tu_fill_base_amount :: decimal
  tu_fill_quote_amount :: decimal
  tu_fee :: trade_fee

record in_flight_order =
  ifo_client_order_id :: string
  ifo_trading_pair :: string
  ifo_order_type :: order_type
  ifo_trade_type :: trade_type
  ifo_price :: "decimal option"
  ifo_amount :: decimal
  ifo_exchange_order_id :: "string option"
  ifo_current_state :: order_state
  ifo_leverage :: int
  ifo_position :: position_action
  ifo_executed_amount_base :: decimal
  ifo_executed_amount_quote :: decimal
  ifo_creation_timestamp :: seconds
  ifo_last_update_timestamp :: seconds
  ifo_order_fills :: "(string, trade_update) pydict"
  ifo_exchange_id_event :: bool
  ifo_filled_event :: bool

definition new_in_flight_order ::
  "string \<Rightarrow> string \<Rightarrow> order_type \<Rightarrow> trade_type \<Rightarrow> decimal \<Rightarrow> seconds \<Rightarrow> decimal option \<Rightarrow>
   string option \<Rightarrow> order_state \<Rightarrow> int \<Rightarrow> position_action \<Rightarrow> in_flight_order" where
  "new_in_flight_order coid tp ot side amount created price exid state lev pos =
     \<lparr>ifo_client_order_id = coid, ifo_trading_pair = tp, ifo_order_type = ot, ifo_trade_type = side,
      ifo_price = price, ifo_amount = amount, ifo_exchange_order_id = exid,
      ifo_current_state = state, ifo_leverage = lev, ifo_position = pos,
      ifo_executed_amount_base = 0, ifo_executed_amount_quote = 0,
      ifo_creation_timestamp = created, ifo_last_update_timestamp = created,
      ifo_order_fills = [],
      ifo_exchange_id_event = (case exid of None \<Rightarrow> False | Some s \<Rightarrow> s \<noteq> []),
      ifo_filled_event = False\<rparr>"

text \<open>
  \<^verbatim>\<open>attributes\<close>: what \<^verbatim>\<open>__eq__\<close> compares, everything but the fills and the events.
\<close>

definition attributes_eq :: "in_flight_order \<Rightarrow> in_flight_order \<Rightarrow> bool" where
  "attributes_eq a b \<longleftrightarrow>
     a\<lparr>ifo_order_fills := [], ifo_exchange_id_event := False, ifo_filled_event := False\<rparr> =
     b\<lparr>ifo_order_fills := [], ifo_exchange_id_event := False, ifo_filled_event := False\<rparr>"

subsection \<open>Status\<close>

definition base_asset :: "in_flight_order \<Rightarrow> string" where
  "base_asset o' = hd (split_char (CHR ''-'') (ifo_trading_pair o'))"

definition quote_asset :: "in_flight_order \<Rightarrow> py_error + string" where
  "quote_asset o' = (case split_char (CHR ''-'') (ifo_trading_pair o') of
     _ # q # _ \<Rightarrow> Inr q | _ \<Rightarrow> Inl IndexError)"

definition is_pending_create :: "in_flight_order \<Rightarrow> bool" where
  "is_pending_create o' \<longleftrightarrow> ifo_current_state o' = PENDING_CREATE"

definition is_pending_cancel_confirmation :: "in_flight_order \<Rightarrow> bool" where
  "is_pending_cancel_confirmation o' \<longleftrightarrow> ifo_current_state o' = PENDING_CANCEL"

definition is_open :: "in_flight_order \<Rightarrow> bool" where
  "is_open o' \<longleftrightarrow> ifo_current_state o' \<in> {PENDING_CREATE, OPEN, PARTIALLY_FILLED, PENDING_CANCEL}"

definition fully_executed :: "in_flight_order \<Rightarrow> bool" where
  "fully_executed o' \<longleftrightarrow>
     isclose (ifo_executed_amount_base o') (ifo_amount o')
     \<or> ifo_amount o' \<le> ifo_executed_amount_base o'"

definition is_done :: "in_flight_order \<Rightarrow> bool" where
  "is_done o' \<longleftrightarrow> ifo_current_state o' \<in> {CANCELED, FILLED, FAILED} \<or> fully_executed o'"

definition is_filled :: "in_flight_order \<Rightarrow> bool" where
  "is_filled o' \<longleftrightarrow> ifo_current_state o' = FILLED \<or> (ifo_amount o' \<noteq> 0 \<and> fully_executed o')"

definition is_failure :: "in_flight_order \<Rightarrow> bool" where
  "is_failure o' \<longleftrightarrow> ifo_current_state o' = FAILED"

definition is_cancelled :: "in_flight_order \<Rightarrow> bool" where
  "is_cancelled o' \<longleftrightarrow> ifo_current_state o' = CANCELED"

definition average_executed_price :: "in_flight_order \<Rightarrow> decimal option" where
  "average_executed_price o' =
     (let (executed_value, total_base_amount) =
        foldl (\<lambda>(ev, tb) f. (ev + tu_fill_price f * tu_fill_base_amount f,
                             tb + tu_fill_base_amount f))
          (0, 0) (map snd (ifo_order_fills o'))
      in if executed_value = 0 \<or> total_base_amount = 0 then None
         else Some (executed_value / total_base_amount))"

subsection \<open>Updates\<close>

definition update_exchange_order_id :: "string option \<Rightarrow> in_flight_order \<Rightarrow> in_flight_order" where
  "update_exchange_order_id exid o' =
     o'\<lparr>ifo_exchange_order_id := exid, ifo_exchange_id_event := True\<rparr>"

definition check_filled_condition :: "in_flight_order \<Rightarrow> in_flight_order" where
  "check_filled_condition o' =
     (if quantize_half_even (1 / 100000000) (\<bar>ifo_amount o'\<bar> - ifo_executed_amount_base o') \<le> 0
      then o'\<lparr>ifo_filled_event := True\<rparr> else o')"

definition update_with_order_update ::
  "order_update \<Rightarrow> in_flight_order \<Rightarrow> bool \<times> in_flight_order" where
  "update_with_order_update ou o' =
     (if ou_client_order_id ou \<noteq> Some (ifo_client_order_id o')
         \<and> ou_exchange_order_id ou \<noteq> ifo_exchange_order_id o'
      then (False, o')
      else
        let prev_data = (ifo_exchange_order_id o', ifo_current_state o');
            o1 = (if ifo_exchange_order_id o' = None
                  then update_exchange_order_id (ou_exchange_order_id ou) o' else o');
            o2 = o1\<lparr>ifo_current_state := ou_new_state ou\<rparr>;
            updated = (prev_data \<noteq> (ifo_exchange_order_id o2, ifo_current_state o2))
        in (updated,
            if updated then o2\<lparr>ifo_last_update_timestamp := ou_update_timestamp ou\<rparr> else o2))"

definition update_with_trade_update ::
  "trade_update \<Rightarrow> in_flight_order \<Rightarrow> bool \<times> in_flight_order" where
  "update_with_trade_update tu o' =
     (if map_of (ifo_order_fills o') (tu_trade_id tu) \<noteq> None
         \<or> (ifo_client_order_id o' \<noteq> tu_client_order_id tu
            \<and> ifo_exchange_order_id o' \<noteq> Some (tu_exchange_order_id tu))
      then (False, o')
      else (True, check_filled_condition
        (o'\<lparr>ifo_order_fills := AList.update (tu_trade_id tu) tu (ifo_order_fills o'),
            ifo_executed_amount_base := ifo_executed_amount_base o' + tu_fill_base_amount tu,
            ifo_executed_amount_quote := ifo_executed_amount_quote o' + tu_fill_quote_amount tu,
            ifo_last_update_timestamp := tu_fill_timestamp tu\<rparr>)))"

definition cumulative_fee_paid ::
  "rate_env \<Rightarrow> in_flight_order \<Rightarrow> string \<Rightarrow> py_error + decimal" where
  "cumulative_fee_paid env o' token =
     fold_err (\<lambda>tu acc.
         bind_err (fee_amount_in_token env (tu_fee tu) (tu_trading_pair tu) (tu_fill_price tu)
                     (tu_fill_base_amount tu) token)
           (\<lambda>a. Inr (acc + a)))
       (map snd (ifo_order_fills o')) 0"

subsection \<open>JSON\<close>

definition trade_update_to_json :: "trade_update \<Rightarrow> json" where
  "trade_update_to_json tu = JObj [
     (''trade_id'', JStr (tu_trade_id tu)),
     (''client_order_id'', JStr (tu_client_order_id tu)),
     (''exchange_order_id'', JStr (tu_exchange_order_id tu)),
     (''trading_pair'', JStr (tu_trading_pair tu)),
     (''fill_timestamp'', JNum (tu_fill_timestamp tu)),
     (''fill_price'', JDec (tu_fill_price tu)),
     (''fill_base_amount'', JDec (tu_fill_base_amount tu)),
     (''fill_quote_amount'', JDec (tu_fill_quote_amount tu)),
     (''fee'', trade_fee_to_json (tu_fee tu))]"

definition str_field :: "json \<Rightarrow> string \<Rightarrow> py_error + string" where
  "str_field data k = bind_err (json_field data k) string_of_json"

definition dec_field :: "json \<Rightarrow> string \<Rightarrow> py_error + decimal" where
  "dec_field data k = bind_err (json_field data k) decimal_of_json"

definition trade_update_from_json :: "json \<Rightarrow> py_error + trade_update" where
  "trade_update_from_json data =
     bind_err (str_field data ''trade_id'') (\<lambda>tid.
     bind_err (str_field data ''client_order_id'') (\<lambda>coid.
     bind_err (str_field data ''exchange_order_id'') (\<lambda>exid.
     bind_err (str_field data ''trading_pair'') (\<lambda>tp.
     bind_err (dec_field data ''fill_timestamp'') (\<lambda>ts.
     bind_err (dec_field data ''fill_price'') (\<lambda>price.
     bind_err (dec_field data ''fill_base_amount'') (\<lambda>base.
     bind_err (dec_field data ''fill_quote_amount'') (\<lambda>quote.
     bind_err (json_field data ''fee'') (\<lambda>f. bind_err (trade_fee_from_json f) (\<lambda>fee.
       Inr \<lparr>tu_trade_id = tid, tu_client_order_id = coid, tu_exchange_order_id = exid,
            tu_trading_pair = tp, tu_fill_timestamp = ts, tu_fill_price = price,
            tu_fill_base_amount = base, tu_fill_quote_amount = quote, tu_fee = fee\<rparr>))))))))))"

text \<open>\<^verbatim>\<open>str(price)\<close> of a missing price is the string \<^verbatim>\<open>"None"\<close>.\<close>

definition price_to_json :: "decimal option \<Rightarrow> json" where
  "price_to_json p = (case p of None \<Rightarrow> JStr ''None'' | Some d \<Rightarrow> JDec d)"

definition in_flight_order_to_json :: "in_flight_order \<Rightarrow> json" where
  "in_flight_order_to_json o' = JObj [
     (''client_order_id'', JStr (ifo_client_order_id o')),
     (''exchange_order_id'', json_of_opt_string (ifo_exchange_order_id o')),
     (''trading_pair'', JStr (ifo_trading_pair o')),
     (''order_type'', JStr (order_type_name (ifo_order_type o'))),
     (''trade_type'', JStr (trade_type_name (ifo_trade_type o'))),
     (''price'', price_to_json (ifo_price o')),
     (''amount'', JDec (ifo_amount o')),
     (''executed_amount_base'', JDec (ifo_executed_amount_base o')),
     (''executed_amount_quote'', JDec (ifo_executed_amount_quote o')),
     (''last_state'', JDec (of_int (order_state_value (ifo_current_state o')))),
     (''leverage'', JDec (of_int (ifo_leverage o'))),
     (''position'', JStr (position_action_value (ifo_position o'))),
     (''creation_timestamp'', JNum (ifo_creation_timestamp o')),
     (''order_fills'', JObj (map (\<lambda>(k, f). (k, trade_update_to_json f)) (ifo_order_fills o')))]"

definition int_field :: "json \<Rightarrow> string \<Rightarrow> py_error + int" where
  "int_field data k =
     bind_err (dec_field data k) (\<lambda>d. if of_int \<lfloor>d\<rfloor> = d then Inr \<lfloor>d\<rfloor> else Inl ValueError)"

definition fills_from_items ::
  "(string \<times> json) list \<Rightarrow> py_error + (string, trade_update) pydict" where
  "fills_from_items kvs =
     fold_err (\<lambda>(k, v) d. bind_err (trade_update_from_json v) (\<lambda>tu. Inr (AList.update k tu d))) kvs []"

definition in_flight_order_from_json :: "json \<Rightarrow> py_error + in_flight_order" where
  "in_flight_order_from_json data =
     bind_err (str_field data ''client_order_id'') (\<lambda>coid.
     bind_err (str_field data ''trading_pair'') (\<lambda>tp.
     bind_err (bind_err (str_field data ''order_type'') order_type_of_name) (\<lambda>ot.
     bind_err (bind_err (str_field data ''trade_type'') trade_type_of_name) (\<lambda>side.
     bind_err (dec_field data ''amount'') (\<lambda>amount.
     bind_err (dec_field data ''price'') (\<lambda>price.
     bind_err (bind_err (json_field data ''exchange_order_id'') opt_string_of_json) (\<lambda>exid.
     bind_err (bind_err (int_field data ''last_state'') order_state_of_value) (\<lambda>state.
     bind_err (int_field data ''leverage'') (\<lambda>lev.
     bind_err (bind_err (str_field data ''position'') position_action_of_value) (\<lambda>pos.
     bind_err (bind_err (json_get data ''creation_timestamp'' (JNum (- 1))) decimal_of_json) (\<lambda>created.
     bind_err (dec_field data ''executed_amount_base'') (\<lambda>base.
     bind_err (dec_field data ''executed_amount_quote'') (\<lambda>quote.
     bind_err (bind_err (json_get data ''order_fills'' (JObj [])) items_of_json) (\<lambda>kvs.
     bind_err (fills_from_items kvs) (\<lambda>fills.
       Inr (check_filled_condition
         ((new_in_flight_order coid tp ot side amount created (Some price) exid state lev pos)
            \<lparr>ifo_executed_amount_base := base, ifo_executed_amount_quote := quote,
             ifo_order_fills := fills\<rparr>)))))))))))))))))"

subsection \<open>The fills explain the executed amounts\<close>

definition fills_inv :: "in_flight_order \<Rightarrow> bool" where
  "fills_inv o' \<longleftrightarrow>
     dict_ok (ifo_order_fills o')
     \<and> (\<forall>(k, f) \<in> set (ifo_order_fills o'). tu_trade_id f = k)
     \<and> ifo_executed_amount_base o' = (\<Sum>f \<leftarrow> map snd (ifo_order_fills o'). tu_fill_base_amount f)
     \<and> ifo_executed_amount_quote o' = (\<Sum>f \<leftarrow> map snd (ifo_order_fills o'). tu_fill_quote_amount f)"

definition trade_matches :: "in_flight_order \<Rightarrow> trade_update \<Rightarrow> bool" where
  "trade_matches o' tu \<longleftrightarrow>
     tu_client_order_id tu = ifo_client_order_id o'
     \<or> Some (tu_exchange_order_id tu) = ifo_exchange_order_id o'"

fun apply_trade_updates :: "trade_update list \<Rightarrow> in_flight_order \<Rightarrow> in_flight_order" where
  "apply_trade_updates [] o' = o'"
| "apply_trade_updates (u # us) o' = apply_trade_updates us (snd (update_with_trade_update u o'))"

lemma check_filled_condition_fields [simp]:
  "ifo_client_order_id (check_filled_condition o') = ifo_client_order_id o'"
  "ifo_exchange_order_id (check_filled_condition o') = ifo_exchange_order_id o'"
  "ifo_current_state (check_filled_condition o') = ifo_current_state o'"
  "ifo_amount (check_filled_condition o') = ifo_amount o'"
  "ifo_trade_type (check_filled_condition o') = ifo_trade_type o'"
  "ifo_trading_pair (check_filled_condition o') = ifo_trading_pair o'"
  "ifo_order_fills (check_filled_condition o') = ifo_order_fills o'"
  "ifo_executed_amount_base (check_filled_condition o') = ifo_executed_amount_base o'"
  "ifo_executed_amount_quote (check_filled_condition o') = ifo_executed_amount_quote o'"
  by (simp_all add: check_filled_condition_def)

lemma fills_inv_check [simp]: "fills_inv (check_filled_condition o') = fills_inv o'"
  by (simp add: fills_inv_def)

lemma trade_update_rejected:
  "\<not> trade_matches o' u \<or> map_of (ifo_order_fills o') (tu_trade_id u) \<noteq> None \<Longrightarrow>
     update_with_trade_update u o' = (False, o')"
  by (auto simp: update_with_trade_update_def trade_matches_def)

lemma trade_update_accepted:
  assumes "trade_matches o' u" and "map_of (ifo_order_fills o') (tu_trade_id u) = None"
  shows "fst (update_with_trade_update u o')"
    and "ifo_order_fills (snd (update_with_trade_update u o')) =
           ifo_order_fills o' @ [(tu_trade_id u, u)]"
    and "ifo_executed_amount_base (snd (update_with_trade_update u o')) =
           ifo_executed_amount_base o' + tu_fill_base_amount u"
    and "ifo_executed_amount_quote (snd (update_with_trade_update u o')) =
           ifo_executed_amount_quote o' + tu_fill_quote_amount u"
  using assms by (auto simp: update_with_trade_update_def trade_matches_def dict_update_append)

lemma trade_update_frame [simp]:
  "ifo_client_order_id (snd (update_with_trade_update u o')) = ifo_client_order_id o'"
  "ifo_exchange_order_id (snd (update_with_trade_update u o')) = ifo_exchange_order_id o'"
  "ifo_current_state (snd (update_with_trade_update u o')) = ifo_current_state o'"
  "ifo_amount (snd (update_with_trade_update u o')) = ifo_amount o'"
  "ifo_trade_type (snd (update_with_trade_update u o')) = ifo_trade_type o'"
  by (simp_all add: update_with_trade_update_def)

lemma order_update_frame [simp]:
  "ifo_client_order_id (snd (update_with_order_update ou o')) = ifo_client_order_id o'"
  "ifo_amount (snd (update_with_order_update ou o')) = ifo_amount o'"
  "ifo_trade_type (snd (update_with_order_update ou o')) = ifo_trade_type o'"
  "ifo_order_fills (snd (update_with_order_update ou o')) = ifo_order_fills o'"
  "ifo_executed_amount_base (snd (update_with_order_update ou o')) = ifo_executed_amount_base o'"
  "ifo_executed_amount_quote (snd (update_with_order_update ou o')) = ifo_executed_amount_quote o'"
  "ifo_filled_event (snd (update_with_order_update ou o')) = ifo_filled_event o'"
  by (simp_all add: update_with_order_update_def update_exchange_order_id_def Let_def)

lemma trade_update_inv:
  assumes "fills_inv o'"
  shows "fills_inv (snd (update_with_trade_update u o'))"
proof (cases "trade_matches o' u \<and> map_of (ifo_order_fills o') (tu_trade_id u) = None")
  case True
  then have new: "tu_trade_id u \<notin> fst ` set (ifo_order_fills o')"
    by (simp add: map_of_eq_None_iff)
  show ?thesis
    using assms new trade_update_accepted[of o' u] True
    by (auto simp: fills_inv_def dict_ok_def)
next
  case False
  then show ?thesis using assms trade_update_rejected[of o' u] by auto
qed

lemma order_update_inv: "fills_inv o' \<Longrightarrow> fills_inv (snd (update_with_order_update ou o'))"
  by (simp add: fills_inv_def)

lemma new_order_inv: "fills_inv (new_in_flight_order a b c d e f g h i j k)"
  by (simp add: fills_inv_def new_in_flight_order_def)

subsection \<open>Each trade counts once, in any order\<close>

lemma trade_matches_update [simp]:
  "trade_matches (snd (update_with_trade_update u o')) v = trade_matches o' v"
  by (simp add: trade_matches_def)

lemma apply_trade_updates_sums:
  assumes "\<And>u. u \<in> set us \<Longrightarrow> trade_matches o' u"
    and "\<And>u v. u \<in> set us \<Longrightarrow> v \<in> set us \<Longrightarrow> tu_trade_id u = tu_trade_id v \<Longrightarrow> u = v"
    and "\<And>u f. u \<in> set us \<Longrightarrow> map_of (ifo_order_fills o') (tu_trade_id u) = Some f \<Longrightarrow> f = u"
  shows "ifo_executed_amount_base (apply_trade_updates us o') = ifo_executed_amount_base o' +
           (\<Sum>u \<in> {u \<in> set us. map_of (ifo_order_fills o') (tu_trade_id u) = None}.
              tu_fill_base_amount u)
       \<and> ifo_executed_amount_quote (apply_trade_updates us o') = ifo_executed_amount_quote o' +
           (\<Sum>u \<in> {u \<in> set us. map_of (ifo_order_fills o') (tu_trade_id u) = None}.
              tu_fill_quote_amount u)"
  using assms
proof (induction us arbitrary: o')
  case Nil
  then show ?case by simp
next
  case (Cons u us)
  let ?o = "snd (update_with_trade_update u o')"
  let ?new = "\<lambda>o'' vs. {v \<in> set vs. map_of (ifo_order_fills o'') (tu_trade_id v) = None}"
  have match: "trade_matches o' u" using Cons.prems(1) by simp
  show ?case
  proof (cases "map_of (ifo_order_fills o') (tu_trade_id u)")
    case (Some f)
    then have "?o = o'" using trade_update_rejected[of o' u] by simp
    moreover have "?new o' (u # us) = ?new o' us" using Some by auto
    moreover note Cons.IH[of o'] Cons.prems
    ultimately show ?thesis by (simp add: Collect_conj_eq)
  next
    case None
    note acc = trade_update_accepted[OF match None]
    have lookup: "map_of (ifo_order_fills ?o) k =
        (if k = tu_trade_id u \<and> map_of (ifo_order_fills o') k = None then Some u
         else map_of (ifo_order_fills o') k)" for k
      by (simp add: acc(2) map_add_def split: option.split)
    have id_eq: "tu_trade_id v = tu_trade_id u \<longleftrightarrow> v = u" if "v \<in> set us" for v
      using Cons.prems(2)[of v u] that by auto
    have notin: "u \<notin> ?new ?o us" by (simp add: lookup None)
    have "x \<in> ?new o' (u # us) \<longleftrightarrow> x \<in> insert u (?new ?o us)" for x
      by (cases "x = u") (simp_all add: lookup None id_eq cong: conj_cong)
    then have new: "?new o' (u # us) = insert u (?new ?o us)" by (rule set_eqI)
    have "f = v" if "v \<in> set us" "map_of (ifo_order_fills ?o) (tu_trade_id v) = Some f" for v f
    proof (cases "v = u")
      case True
      then show ?thesis using that(2) by (simp add: lookup None)
    next
      case False
      then have "map_of (ifo_order_fills o') (tu_trade_id v) = Some f"
        using that id_eq[of v] by (simp add: lookup)
      then show ?thesis using Cons.prems(3)[of v f] that(1) by simp
    qed
    then have IH: "ifo_executed_amount_base (apply_trade_updates us ?o) = ifo_executed_amount_base ?o +
           (\<Sum>u \<in> ?new ?o us. tu_fill_base_amount u)
       \<and> ifo_executed_amount_quote (apply_trade_updates us ?o) = ifo_executed_amount_quote ?o +
           (\<Sum>u \<in> ?new ?o us. tu_fill_quote_amount u)"
      using Cons.IH[of ?o] Cons.prems(1,2) by simp
    show ?thesis using IH notin by (simp only: new apply_trade_updates.simps acc) simp
  qed
qed

lemma apply_trade_updates_snoc:
  "apply_trade_updates (us @ [u]) o' = snd (update_with_trade_update u (apply_trade_updates us o'))"
  by (induction us arbitrary: o') auto

lemma apply_trade_updates_inv: "fills_inv o' \<Longrightarrow> fills_inv (apply_trade_updates us o')"
  by (induction us arbitrary: o') (auto intro: trade_update_inv)

subsection \<open>The completely filled event\<close>

text \<open>
  The event is set exactly when the amount still to execute rounds to zero at eight decimals.
\<close>

definition fill_event_exact :: "in_flight_order \<Rightarrow> bool" where
  "fill_event_exact o' \<longleftrightarrow>
     ifo_filled_event o' = (\<bar>ifo_amount o'\<bar> - ifo_executed_amount_base o' \<le> 1 / 200000000)"

lemma check_filled_iff:
  "quantize_half_even (1 / 100000000) x \<le> 0 \<longleftrightarrow> x \<le> 1 / 200000000"
  by (simp add: quantize_half_even_nonpos)

lemma fill_event_trade_update:
  assumes "fill_event_exact o'" and "0 \<le> tu_fill_base_amount u"
  shows "fill_event_exact (snd (update_with_trade_update u o'))"
  using assms
  by (auto simp: fill_event_exact_def update_with_trade_update_def check_filled_condition_def
      check_filled_iff)

lemma fill_event_apply:
  assumes "fill_event_exact o'" and "\<And>u. u \<in> set us \<Longrightarrow> 0 \<le> tu_fill_base_amount u"
  shows "fill_event_exact (apply_trade_updates us o')"
  using assms
proof (induction us arbitrary: o')
  case Nil
  then show ?case by simp
next
  case (Cons u us)
  then show ?case by (simp add: fill_event_trade_update)
qed

subsection \<open>The average executed price\<close>

lemma average_fold:
  "foldl (\<lambda>(ev, tb) f. (ev + tu_fill_price f * tu_fill_base_amount f, tb + tu_fill_base_amount f))
     (a, b) fs
   = (a + (\<Sum>f \<leftarrow> fs. tu_fill_price f * tu_fill_base_amount f), b + (\<Sum>f \<leftarrow> fs. tu_fill_base_amount f))"
  by (induction fs arbitrary: a b) (auto simp: algebra_simps)

lemma weighted_sum_bounds:
  assumes "\<And>f. f \<in> set fs \<Longrightarrow> 0 \<le> tu_fill_base_amount f \<and> lo \<le> tu_fill_price f \<and> tu_fill_price f \<le> hi"
  shows "lo * (\<Sum>f \<leftarrow> fs. tu_fill_base_amount f)
           \<le> (\<Sum>f \<leftarrow> fs. tu_fill_price f * tu_fill_base_amount f)"
    and "(\<Sum>f \<leftarrow> fs. tu_fill_price f * tu_fill_base_amount f)
           \<le> hi * (\<Sum>f \<leftarrow> fs. tu_fill_base_amount f)"
  using assms
  by (induction fs) (auto simp: distrib_left intro!: add_mono mult_right_mono)

lemma positive_sum:
  "fs \<noteq> [] \<Longrightarrow> (\<And>f. f \<in> set fs \<Longrightarrow> 0 < tu_fill_base_amount f) \<Longrightarrow>
     0 < (\<Sum>f \<leftarrow> fs. tu_fill_base_amount f)"
proof (induction fs)
  case (Cons f fs)
  then show ?case by (cases fs) (auto intro: add_pos_pos)
qed simp

subsection \<open>Serialisation\<close>

lemma order_state_value_inverse [simp]:
  "order_state_of_value (order_state_value s) = Inr s"
  by (cases s) (simp_all add: order_state_of_value_def order_state_values_def)

lemma trade_update_json_inverse [simp]:
  "trade_update_from_json (trade_update_to_json tu) = Inr tu"
  by (simp add: trade_update_from_json_def trade_update_to_json_def str_field_def dec_field_def)

lemma fills_from_items_fold:
  assumes "distinct (map fst (d @ fills))"
  shows "fold_err (\<lambda>(k, v) d. bind_err (trade_update_from_json v) (\<lambda>tu. Inr (AList.update k tu d)))
     (map (\<lambda>(k, f). (k, trade_update_to_json f)) fills) d = Inr (d @ fills)"
  using assms
proof (induction fills arbitrary: d)
  case Nil
  then show ?case by simp
next
  case (Cons kf fills)
  obtain k f where kf: "kf = (k, f)" by (cases kf)
  have "map_of d k = None" using Cons.prems kf by (simp add: map_of_eq_None_iff)
  then show ?case using Cons.IH[of "d @ [(k, f)]"] Cons.prems kf by (simp add: dict_update_append)
qed

lemma fills_json_inverse [simp]:
  "dict_ok fills \<Longrightarrow>
     fills_from_items (map (\<lambda>(k, f). (k, trade_update_to_json f)) fills) = Inr fills"
  using fills_from_items_fold[of "[]" fills] by (simp add: fills_from_items_def dict_ok_def)

subsection \<open>A concrete order\<close>

definition sample_order :: in_flight_order where
  "sample_order = new_in_flight_order ''B1'' ''BTC-USDT'' LIMIT BUY 2 100 (Some 10) None
     PENDING_CREATE 1 NIL_POSITION"

definition sample_trade :: "string \<Rightarrow> decimal \<Rightarrow> trade_update" where
  "sample_trade tid amount =
     \<lparr>tu_trade_id = tid, tu_client_order_id = ''B1'', tu_exchange_order_id = ''X1'',
      tu_trading_pair = ''BTC-USDT'', tu_fill_timestamp = 101, tu_fill_price = 10,
      tu_fill_base_amount = amount, tu_fill_quote_amount = 10 * amount,
      tu_fee = \<lparr>tf_class = AddedToCost, tf_percent = 0, tf_percent_token = None, tf_flat_fees = []\<rparr>\<rparr>"

definition sample_filled_order :: in_flight_order where
  "sample_filled_order = sample_order
     \<lparr>ifo_order_fills := [(''T1'', sample_trade ''T1'' 1)], ifo_executed_amount_base := 1,
      ifo_executed_amount_quote := 10, ifo_last_update_timestamp := 101\<rparr>"

lemma sample_trade_ids [simp]:
  "sample_trade i a = sample_trade j b \<longleftrightarrow> i = j \<and> a = b"
  by (auto simp: sample_trade_def)

lemma sample_trade_sel [simp]:
  "tu_trade_id (sample_trade i a) = i" "tu_fill_base_amount (sample_trade i a) = a"
  "tu_fill_quote_amount (sample_trade i a) = 10 * a" "tu_fill_price (sample_trade i a) = 10"
  "tu_client_order_id (sample_trade i a) = ''B1''"
  by (simp_all add: sample_trade_def)

subsection \<open>Properties\<close>

text \<open>
  C3: an order counts every trade exactly once, whatever the order in which its updates arrive and
  however often they are repeated: the executed amounts grow by the sum over the set of the new
  trades.
\<close>

theorem trades_counted_once:
  assumes "\<And>u. u \<in> set us \<Longrightarrow> trade_matches o' u"
    and "\<And>u v. u \<in> set us \<Longrightarrow> v \<in> set us \<Longrightarrow> tu_trade_id u = tu_trade_id v \<Longrightarrow> u = v"
    and "\<And>u. u \<in> set us \<Longrightarrow> map_of (ifo_order_fills o') (tu_trade_id u) = None"
  shows "ifo_executed_amount_base (apply_trade_updates us o') =
           ifo_executed_amount_base o' + (\<Sum>u \<in> set us. tu_fill_base_amount u)
       \<and> ifo_executed_amount_quote (apply_trade_updates us o') =
           ifo_executed_amount_quote o' + (\<Sum>u \<in> set us. tu_fill_quote_amount u)"
proof -
  have new: "{u \<in> set us. map_of (ifo_order_fills o') (tu_trade_id u) = None} = set us"
    using assms(3) by auto
  have "f = u" if "u \<in> set us" "map_of (ifo_order_fills o') (tu_trade_id u) = Some f" for u f
    using assms(3)[OF that(1)] that(2) by simp
  from apply_trade_updates_sums[OF assms(1,2) this] show ?thesis by (simp only: new)
qed

theorem trades_counted_once_witness:
  "ifo_executed_amount_base (apply_trade_updates
      [sample_trade ''T1'' 1, sample_trade ''T2'' (1/2), sample_trade ''T1'' 1] sample_order) = 3/2
   \<and> ifo_executed_amount_quote (apply_trade_updates
      [sample_trade ''T1'' 1, sample_trade ''T2'' (1/2), sample_trade ''T1'' 1] sample_order) = 15"
proof -
  let ?us = "[sample_trade ''T1'' 1, sample_trade ''T2'' (1/2), sample_trade ''T1'' 1]"
  have 1: "trade_matches sample_order u" if "u \<in> set ?us" for u
    using that by (auto simp: trade_matches_def sample_order_def new_in_flight_order_def)
  have 2: "u = v" if "u \<in> set ?us" "v \<in> set ?us" "tu_trade_id u = tu_trade_id v" for u v
    using that by (simp only: list.set insert_iff empty_iff) (elim disjE; simp)
  have 3: "map_of (ifo_order_fills sample_order) (tu_trade_id u) = None" if "u \<in> set ?us" for u
    by (simp add: sample_order_def new_in_flight_order_def)
  have zero: "ifo_executed_amount_base sample_order = 0" "ifo_executed_amount_quote sample_order = 0"
    by (simp_all add: sample_order_def new_in_flight_order_def)
  have us: "set ?us = {sample_trade ''T1'' 1, sample_trade ''T2'' (1/2)}" by auto
  have sums: "(\<Sum>u \<in> set ?us. tu_fill_base_amount u) = 3/2"
    "(\<Sum>u \<in> set ?us. tu_fill_quote_amount u) = 15"
    unfolding us by simp_all
  have "ifo_executed_amount_base (apply_trade_updates ?us sample_order) =
           ifo_executed_amount_base sample_order + (\<Sum>u \<in> set ?us. tu_fill_base_amount u)
       \<and> ifo_executed_amount_quote (apply_trade_updates ?us sample_order) =
           ifo_executed_amount_quote sample_order + (\<Sum>u \<in> set ?us. tu_fill_quote_amount u)"
    by (rule trades_counted_once) (fact 1 2 3)+
  then show ?thesis unfolding sums zero by (simp only: add_0)
qed

text \<open>
  The completely filled event of an order is set exactly when what remains of its amount rounds
  to zero at eight decimals, after any sequence of trade updates with amounts that are not negative.
\<close>

theorem filled_event_exact:
  assumes "1 / 200000000 < \<bar>amount\<bar>"
    and "\<And>u. u \<in> set us \<Longrightarrow> 0 \<le> tu_fill_base_amount u"
  shows "let o1 = apply_trade_updates us
               (new_in_flight_order coid tp ot side amount created price exid state lev pos) in
    ifo_filled_event o1 \<longleftrightarrow> \<bar>ifo_amount o1\<bar> - ifo_executed_amount_base o1 \<le> 1 / 200000000"
proof -
  have "fill_event_exact (new_in_flight_order coid tp ot side amount created price exid state lev pos)"
    using assms(1) by (simp add: fill_event_exact_def new_in_flight_order_def)
  from fill_event_apply[OF this assms(2)] show ?thesis
    by (simp add: fill_event_exact_def Let_def)
qed

theorem filled_event_exact_witness:
  "ifo_filled_event (apply_trade_updates [sample_trade ''T1'' 1, sample_trade ''T2'' 1] sample_order)
   \<and> \<not> ifo_filled_event (apply_trade_updates [sample_trade ''T1'' 1] sample_order)"
proof -
  have "1 / 200000000 < \<bar>2 :: rat\<bar>" by simp
  note exact = filled_event_exact[OF this, of _ "''B1''" "''BTC-USDT''" LIMIT BUY 100 "Some 10" None
      PENDING_CREATE 1 NIL_POSITION, folded sample_order_def]
  have run: "ifo_amount (apply_trade_updates us sample_order) = 2" for us
    by (induction us rule: rev_induct) (simp_all add: sample_order_def new_in_flight_order_def
        apply_trade_updates_snoc)
  have base: "ifo_executed_amount_base (apply_trade_updates [sample_trade ''T1'' 1] sample_order) = 1"
    "ifo_executed_amount_base
       (apply_trade_updates [sample_trade ''T1'' 1, sample_trade ''T2'' 1] sample_order) = 2"
    by (simp_all add: update_with_trade_update_def sample_order_def new_in_flight_order_def)
  have pos: "0 \<le> tu_fill_base_amount u" if "u \<in> set [sample_trade ''T1'' 1, sample_trade ''T2'' 1]" for u
    using that by auto
  have pos1: "0 \<le> tu_fill_base_amount u" if "u \<in> set [sample_trade ''T1'' 1]" for u
    using that by auto
  show ?thesis
    using exact[of "[sample_trade ''T1'' 1, sample_trade ''T2'' 1]", OF pos]
      exact[of "[sample_trade ''T1'' 1]", OF pos1] run base
    by (simp add: Let_def del: apply_trade_updates.simps)
qed

text \<open>
  The average executed price of an order with fills of positive amount lies between the lowest
  and the highest fill price.
\<close>

theorem average_price_between:
  assumes "ifo_order_fills o' \<noteq> []" and "0 < lo"
    and "\<And>k f. (k, f) \<in> set (ifo_order_fills o') \<Longrightarrow>
           0 < tu_fill_base_amount f \<and> lo \<le> tu_fill_price f \<and> tu_fill_price f \<le> hi"
  shows "\<exists>p. average_executed_price o' = Some p \<and> lo \<le> p \<and> p \<le> hi"
proof -
  let ?fs = "map snd (ifo_order_fills o')"
  let ?v = "\<Sum>f \<leftarrow> ?fs. tu_fill_price f * tu_fill_base_amount f"
  let ?b = "\<Sum>f \<leftarrow> ?fs. tu_fill_base_amount f"
  have fs: "0 < tu_fill_base_amount f \<and> lo \<le> tu_fill_price f \<and> tu_fill_price f \<le> hi"
    if "f \<in> set ?fs" for f using that assms(3) by auto
  have b: "0 < ?b" using positive_sum[of ?fs] fs assms(1) by auto
  have weak: "0 \<le> tu_fill_base_amount f \<and> lo \<le> tu_fill_price f \<and> tu_fill_price f \<le> hi"
    if "f \<in> set ?fs" for f using fs[OF that] by simp
  note bounds = weighted_sum_bounds[of ?fs lo hi, OF weak]
  have v: "0 < ?v" using bounds(1) mult_pos_pos[OF assms(2) b] by linarith
  have "average_executed_price o' = Some (?v / ?b)"
    using b v unfolding average_executed_price_def average_fold by simp
  moreover have "lo \<le> ?v / ?b" using bounds(1) b by (simp only: pos_le_divide_eq)
  moreover have "?v / ?b \<le> hi" using bounds(2) b by (simp only: pos_divide_le_eq)
  ultimately show ?thesis by blast
qed

theorem average_price_between_witness:
  "\<exists>p. average_executed_price sample_filled_order = Some p \<and> 9 \<le> p \<and> p \<le> 11"
  by (rule average_price_between) (auto simp: sample_filled_order_def)

text \<open>The order that reading back an order's encoding yields.\<close>

definition restored_order :: "in_flight_order \<Rightarrow> in_flight_order" where
  "restored_order o' = check_filled_condition
     (o'\<lparr>ifo_last_update_timestamp := ifo_creation_timestamp o',
         ifo_exchange_id_event := (case ifo_exchange_order_id o' of None \<Rightarrow> False | Some x \<Rightarrow> x \<noteq> []),
         ifo_filled_event := False\<rparr>)"

lemma json_restored:
  assumes "dict_ok (ifo_order_fills o')"
  shows "in_flight_order_from_json (in_flight_order_to_json o') =
    (case ifo_price o' of None \<Rightarrow> Inl InvalidOperation | Some p \<Rightarrow> Inr (restored_order o'))"
  using assms
  by (cases o') (auto simp: in_flight_order_from_json_def in_flight_order_to_json_def str_field_def dec_field_def
      int_field_def price_to_json_def new_in_flight_order_def restored_order_def split: option.split)

text \<open>
  An order read back from its JSON encoding has every attribute but the last update time, which
  becomes the creation time, and its events recomputed; an order without a price cannot be read
  back, its price is written as the string None.
\<close>

theorem order_json_roundtrip:
  assumes "dict_ok (ifo_order_fills o')"
  shows "in_flight_order_from_json (in_flight_order_to_json o') =
    (case ifo_price o' of
       None \<Rightarrow> Inl InvalidOperation
     | Some p \<Rightarrow> Inr (check_filled_condition
         (o'\<lparr>ifo_last_update_timestamp := ifo_creation_timestamp o',
             ifo_exchange_id_event := (\<exists>x. ifo_exchange_order_id o' = Some x \<and> x \<noteq> []),
             ifo_filled_event := False\<rparr>)))"
proof -
  have *: "(case ifo_exchange_order_id o' of None \<Rightarrow> False | Some x \<Rightarrow> x \<noteq> []) \<longleftrightarrow> (\<exists>x. ifo_exchange_order_id o' = Some x \<and> x \<noteq> [])"
    by (simp split: option.split)
  show ?thesis unfolding *[symmetric] by (rule json_restored[unfolded restored_order_def, OF assms])
qed

theorem order_json_roundtrip_witness:
  "in_flight_order_from_json (in_flight_order_to_json sample_filled_order) =
     Inr (sample_filled_order\<lparr>ifo_last_update_timestamp := 100\<rparr>)"
proof -
  have "dict_ok (ifo_order_fills sample_filled_order)"
    by (simp add: sample_filled_order_def dict_ok_def)
  from order_json_roundtrip[OF this] show ?thesis
    by (simp add: sample_filled_order_def sample_order_def new_in_flight_order_def
        check_filled_condition_def check_filled_iff)
qed

end
