(* ===== verification/Order_Tracker.thy ===== *)
theory Order_Tracker
  imports In_Flight_Order
begin

text \<open>
  \<^verbatim>\<open>connector/client_order_tracker.py\<close>: the tracker every connector keeps of its orders.

  Order objects are shared: the tracker's dictionary, its cache and the coroutines that wait for
  an order's fills all refer to the same object.  The model keeps the objects in a store
  (\<open>tr_heap\<close>, a list) and refers to them by index.  The cache is a third party container
  (\<^verbatim>\<open>cachetools.TTLCache\<close>): its operations are the parameter \<open>cache_ops\<close>, what the tracker relies
  on is \<open>cache_contract\<close>, and the expiry of its entries is a step of the environment.  A coroutine
  suspended in \<^verbatim>\<open>wait_until_completely_filled\<close> is an entry of \<open>tr_waiting\<close>.  Events triggered on the
  connector are appended to \<open>tr_events\<close>.
\<close>

record 'c cache_ops =
  cache_put :: "string \<Rightarrow> nat \<Rightarrow> 'c \<Rightarrow> 'c"
  cache_items :: "'c \<Rightarrow> (string, nat) pydict"

text \<open>
  A cache returns what was put last, never invents an entry (it may drop others to make room),
  and lists every key once.
\<close>

definition cache_contract :: "'c cache_ops \<Rightarrow> bool" where
  "cache_contract ops \<longleftrightarrow>
     (\<forall>c. dict_ok (cache_items ops c)) \<and>
     (\<forall>k r c. map_of (cache_items ops (cache_put ops k r c)) k = Some r) \<and>
     (\<forall>k r c. set (cache_items ops (cache_put ops k r c)) \<subseteq> insert (k, r) (set (cache_items ops c)))"

datatype market_event =
    OrderCreatedEvent trade_type seconds order_type string decimal "decimal option" string seconds
      "string option"
  | OrderCancelledEvent seconds string "string option"
  | OrderFilledEvent seconds string string trade_type order_type decimal decimal trade_fee string
      int position_action
  | OrderCompletedEvent trade_type seconds string string string decimal decimal order_type
      "string option"
  | OrderFailureEvent seconds string order_type

record 'c tracker =
  tr_heap :: "in_flight_order list"
  tr_in_flight :: "(string, nat) pydict"
  tr_cached :: 'c
  tr_not_found :: "string \<Rightarrow> int"
  tr_waiting :: "(nat \<times> order_update \<times> seconds) list"
  tr_events :: "market_event list"
  tr_now :: seconds

definition ORDER_NOT_FOUND_COUNT_LIMIT :: int where
  "ORDER_NOT_FOUND_COUNT_LIMIT = 10"

definition TRADE_FILLS_WAIT_TIMEOUT :: seconds where
  "TRADE_FILLS_WAIT_TIMEOUT = 5"

definition init_tracker :: "'c \<Rightarrow> seconds \<Rightarrow> 'c tracker" where
  "init_tracker empty_cache now =
     \<lparr>tr_heap = [], tr_in_flight = [], tr_cached = empty_cache, tr_not_found = (\<lambda>_. 0),
      tr_waiting = [], tr_events = [], tr_now = now\<rparr>"

definition order_at :: "'c tracker \<Rightarrow> nat \<Rightarrow> in_flight_order" where
  "order_at t r = tr_heap t ! r"

definition set_order :: "nat \<Rightarrow> in_flight_order \<Rightarrow> 'c tracker \<Rightarrow> 'c tracker" where
  "set_order r o' t = t\<lparr>tr_heap := (tr_heap t)[r := o']\<rparr>"

definition trigger_event :: "market_event \<Rightarrow> 'c tracker \<Rightarrow> 'c tracker" where
  "trigger_event e t = t\<lparr>tr_events := tr_events t @ [e]\<rparr>"

subsection \<open>Tracking and looking up\<close>

definition start_tracking_order :: "nat \<Rightarrow> 'c tracker \<Rightarrow> 'c tracker" where
  "start_tracking_order r t =
     t\<lparr>tr_in_flight := AList.update (ifo_client_order_id (order_at t r)) r (tr_in_flight t)\<rparr>"

definition stop_tracking_order :: "'c cache_ops \<Rightarrow> string \<Rightarrow> 'c tracker \<Rightarrow> 'c tracker" where
  "stop_tracking_order ops coid t =
     (case map_of (tr_in_flight t) coid of
        None \<Rightarrow> t
      | Some r \<Rightarrow> t\<lparr>tr_cached := cache_put ops coid r (tr_cached t),
                     tr_in_flight := AList.delete coid (tr_in_flight t)\<rparr>)"

definition all_orders :: "'c cache_ops \<Rightarrow> 'c tracker \<Rightarrow> (string, nat) pydict" where
  "all_orders ops t =
     fold (\<lambda>(k, r). AList.update k r) (cache_items ops (tr_cached t)) (tr_in_flight t)"

definition fetch_tracked_order :: "string \<Rightarrow> 'c tracker \<Rightarrow> nat option" where
  "fetch_tracked_order coid t = map_of (tr_in_flight t) coid"

definition fetch_cached_order :: "'c cache_ops \<Rightarrow> string \<Rightarrow> 'c tracker \<Rightarrow> nat option" where
  "fetch_cached_order ops coid t = map_of (cache_items ops (tr_cached t)) coid"

definition fetch_order ::
  "'c cache_ops \<Rightarrow> string option \<Rightarrow> string option \<Rightarrow> 'c tracker \<Rightarrow> nat option" where
  "fetch_order ops coid exid t =
     (case (case coid of None \<Rightarrow> None | Some k \<Rightarrow> map_of (all_orders ops t) k) of
        Some r \<Rightarrow> Some r
      | None \<Rightarrow>
          (if exid = None then None
           else find (\<lambda>r. ifo_exchange_order_id (order_at t r) = exid)
                  (map snd (all_orders ops t))))"

text \<open>Orders are restored from their serialised form only when they are open.\<close>

fun restore_tracking_states :: "json list \<Rightarrow> 'c tracker \<Rightarrow> py_error + 'c tracker" where
  "restore_tracking_states [] t = Inr t"
| "restore_tracking_states (j # js) t =
     bind_err (in_flight_order_from_json j) (\<lambda>o'.
       let t1 = t\<lparr>tr_heap := tr_heap t @ [o']\<rparr> in
       restore_tracking_states js
         (if is_open o' then start_tracking_order (length (tr_heap t)) t1 else t1))"

subsection \<open>Events\<close>

definition trigger_created_event :: "nat \<Rightarrow> 'c tracker \<Rightarrow> 'c tracker" where
  "trigger_created_event r t =
     (let o' = order_at t r in
      trigger_event (OrderCreatedEvent (if ifo_trade_type o' = BUY then BUY else SELL)
        (tr_now t) (ifo_order_type o') (ifo_trading_pair o') (ifo_amount o') (ifo_price o')
        (ifo_client_order_id o') (ifo_creation_timestamp o') (ifo_exchange_order_id o')) t)"

definition trigger_cancelled_event :: "nat \<Rightarrow> 'c tracker \<Rightarrow> 'c tracker" where
  "trigger_cancelled_event r t =
     (let o' = order_at t r in
      trigger_event (OrderCancelledEvent (tr_now t) (ifo_client_order_id o')
        (ifo_exchange_order_id o')) t)"

definition trigger_filled_event :: "nat \<Rightarrow> trade_update \<Rightarrow> 'c tracker \<Rightarrow> 'c tracker" where
  "trigger_filled_event r tu t =
     (let o' = order_at t r in
      trigger_event (OrderFilledEvent (tr_now t) (ifo_client_order_id o') (ifo_trading_pair o')
        (ifo_trade_type o') (ifo_order_type o') (tu_fill_price tu) (tu_fill_base_amount tu)
        (tu_fee tu) (tu_trade_id tu) (ifo_leverage o') (ifo_position o')) t)"

text \<open>The quote asset of the completed event is the part of the pair after the dash, if any.\<close>

definition trigger_completed_event :: "nat \<Rightarrow> 'c tracker \<Rightarrow> py_error + 'c tracker" where
  "trigger_completed_event r t =
     (let o' = order_at t r in
      bind_err (quote_asset o') (\<lambda>quote.
        Inr (trigger_event (OrderCompletedEvent (if ifo_trade_type o' = BUY then BUY else SELL)
          (tr_now t) (ifo_client_order_id o') (base_asset o') quote
          (ifo_executed_amount_base o') (ifo_executed_amount_quote o') (ifo_order_type o')
          (ifo_exchange_order_id o')) t)))"

definition trigger_failure_event :: "nat \<Rightarrow> 'c tracker \<Rightarrow> 'c tracker" where
  "trigger_failure_event r t =
     (let o' = order_at t r in
      trigger_event (OrderFailureEvent (tr_now t) (ifo_client_order_id o') (ifo_order_type o')) t)"

definition trigger_order_creation ::
  "nat \<Rightarrow> order_state \<Rightarrow> order_state \<Rightarrow> 'c tracker \<Rightarrow> 'c tracker" where
  "trigger_order_creation r previous_state new_state t =
     (if previous_state = PENDING_CREATE \<and> new_state = OPEN then trigger_created_event r t else t)"

definition trigger_order_fills ::
  "nat \<Rightarrow> decimal \<Rightarrow> trade_update \<Rightarrow> 'c tracker \<Rightarrow> 'c tracker" where
  "trigger_order_fills r prev_executed_amount_base tu t =
     (if prev_executed_amount_base < ifo_executed_amount_base (order_at t r)
      then trigger_filled_event r tu t else t)"

text \<open>
  An exception leaves the effects before it in place: the second component says whether the
  operation raised.
\<close>

definition trigger_order_completion ::
  "'c cache_ops \<Rightarrow> nat \<Rightarrow> 'c tracker \<Rightarrow> 'c tracker \<times> py_error option" where
  "trigger_order_completion ops r t =
     (let o' = order_at t r; coid = ifo_client_order_id o' in
      if is_open o' then (t, None)
      else if is_cancelled o' then
        (stop_tracking_order ops coid (trigger_cancelled_event r t), None)
      else if is_filled o' then
        (case trigger_completed_event r t of
           Inl e \<Rightarrow> (t, Some e)
         | Inr t1 \<Rightarrow> (stop_tracking_order ops coid t1, None))
      else if is_failure o' then
        (stop_tracking_order ops coid (trigger_failure_event r t), None)
      else (stop_tracking_order ops coid t, None))"

subsection \<open>Processing updates\<close>

definition falsy :: "string option \<Rightarrow> bool" where
  "falsy s \<longleftrightarrow> s = None \<or> s = Some []"

text \<open>The part of \<^verbatim>\<open>_process_order_update\<close> after the wait for the fills.\<close>

definition finish_order_update ::
  "'c cache_ops \<Rightarrow> nat \<Rightarrow> order_update \<Rightarrow> 'c tracker \<Rightarrow> 'c tracker \<times> py_error option" where
  "finish_order_update ops r ou t =
     (let previous_state = ifo_current_state (order_at t r);
          (updated, o1) = update_with_order_update ou (order_at t r);
          t1 = set_order r o1 t
      in if updated
         then trigger_order_completion ops r
                (trigger_order_creation r previous_state (ou_new_state ou) t1)
         else (t1, None))"

text \<open>
  \<^verbatim>\<open>_process_order_update\<close> up to its only suspension: an update to \<^verbatim>\<open>FILLED\<close> of an order that is
  not done suspends until the order's fills have arrived or the timeout has passed.
\<close>

definition process_order_update ::
  "'c cache_ops \<Rightarrow> order_update \<Rightarrow> 'c tracker \<Rightarrow> 'c tracker \<times> py_error option" where
  "process_order_update ops ou t =
     (if falsy (ou_client_order_id ou) \<and> falsy (ou_exchange_order_id ou) then (t, None)
      else case fetch_order ops (ou_client_order_id ou) (ou_exchange_order_id ou) t of
        None \<Rightarrow> (t, None)
      | Some r \<Rightarrow>
          if ou_new_state ou = FILLED \<and> \<not> is_done (order_at t r)
          then (t\<lparr>tr_waiting := tr_waiting t @ [(r, ou, tr_now t + TRADE_FILLS_WAIT_TIMEOUT)]\<rparr>, None)
          else finish_order_update ops r ou t)"

text \<open>The suspended update at position \<open>i\<close> continues when the event is set or the time is up.\<close>

definition can_resume :: "nat \<Rightarrow> 'c tracker \<Rightarrow> bool" where
  "can_resume i t \<longleftrightarrow> i < length (tr_waiting t) \<and>
     (case tr_waiting t ! i of (r, ou, deadline) \<Rightarrow>
        ifo_filled_event (order_at t r) \<or> deadline \<le> tr_now t)"

definition resume_order_update ::
  "'c cache_ops \<Rightarrow> nat \<Rightarrow> 'c tracker \<Rightarrow> 'c tracker \<times> py_error option" where
  "resume_order_update ops i t =
     (case tr_waiting t ! i of (r, ou, deadline) \<Rightarrow>
        finish_order_update ops r ou
          (t\<lparr>tr_waiting := take i (tr_waiting t) @ drop (Suc i) (tr_waiting t)\<rparr>))"

definition process_trade_update :: "'c cache_ops \<Rightarrow> trade_update \<Rightarrow> 'c tracker \<Rightarrow> 'c tracker" where
  "process_trade_update ops tu t =
     (case fetch_order ops (Some (tu_client_order_id tu)) None t of
        None \<Rightarrow> t
      | Some r \<Rightarrow>
          let previous_executed_amount_base = ifo_executed_amount_base (order_at t r);
              (updated, o1) = update_with_trade_update tu (order_at t r);
              t1 = set_order r o1 t
          in if updated then trigger_order_fills r previous_executed_amount_base tu t1 else t1)"

definition failed_update :: "string \<Rightarrow> nat \<Rightarrow> 'c tracker \<Rightarrow> order_update" where
  "failed_update coid r t =
     \<lparr>ou_trading_pair = ifo_trading_pair (order_at t r), ou_update_timestamp = tr_now t,
      ou_new_state = FAILED, ou_client_order_id = Some coid, ou_exchange_order_id = None\<rparr>"

definition process_order_not_found ::
  "'c cache_ops \<Rightarrow> string \<Rightarrow> 'c tracker \<Rightarrow> 'c tracker \<times> py_error option" where
  "process_order_not_found ops coid t =
     (case fetch_tracked_order coid t of
        None \<Rightarrow> (t, None)
      | Some r \<Rightarrow>
          let t1 = t\<lparr>tr_not_found := (tr_not_found t)(coid := tr_not_found t coid + 1)\<rparr> in
          if ORDER_NOT_FOUND_COUNT_LIMIT < tr_not_found t1 coid \<and> \<not> is_done (order_at t1 r)
          then process_order_update ops (failed_update coid r t1) t1
          else (t1, None))"

subsection \<open>Steps and reachable trackers\<close>

text \<open>
  What can happen to a tracker: the connector tracks a new open order with a client id it has not
  used before, updates arrive, a suspended update continues, an order is reported missing or is
  dropped by the connector, cached entries expire and time passes.
\<close>

inductive tracker_step :: "'c cache_ops \<Rightarrow> 'c tracker \<Rightarrow> 'c tracker \<Rightarrow> bool" for ops where
  step_track:
    "o' = new_in_flight_order coid tp ot side amount created price exid state lev pos \<Longrightarrow>
     is_open o' \<Longrightarrow> split_hb_trading_pair tp = Inr (b, q) \<Longrightarrow>
     coid \<notin> ifo_client_order_id ` set (tr_heap t) \<Longrightarrow>
     tracker_step ops t (start_tracking_order (length (tr_heap t)) (t\<lparr>tr_heap := tr_heap t @ [o']\<rparr>))"
| step_trade: "tracker_step ops t (process_trade_update ops tu t)"
| step_update: "tracker_step ops t (fst (process_order_update ops ou t))"
| step_resume: "can_resume i t \<Longrightarrow> tracker_step ops t (fst (resume_order_update ops i t))"
| step_not_found: "tracker_step ops t (fst (process_order_not_found ops coid t))"
| step_stop: "tracker_step ops t (stop_tracking_order ops coid t)"
| step_expire: "set (cache_items ops c) \<subseteq> set (cache_items ops (tr_cached t)) \<Longrightarrow>
     tracker_step ops t (t\<lparr>tr_cached := c\<rparr>)"
| step_time: "tr_now t \<le> now \<Longrightarrow> tracker_step ops t (t\<lparr>tr_now := now\<rparr>)"

inductive tracker_reachable :: "'c cache_ops \<Rightarrow> 'c tracker \<Rightarrow> bool" for ops where
  reach_init: "cache_items ops c = [] \<Longrightarrow> tracker_reachable ops (init_tracker c now)"
| reach_step: "tracker_reachable ops t \<Longrightarrow> tracker_step ops t t' \<Longrightarrow> tracker_reachable ops t'"

subsection \<open>The invariant\<close>

definition refs_ok :: "'c cache_ops \<Rightarrow> 'c tracker \<Rightarrow> bool" where
  "refs_ok ops t \<longleftrightarrow>
     dict_ok (tr_in_flight t) \<and>
     (\<forall>(k, r) \<in> set (tr_in_flight t) \<union> set (cache_items ops (tr_cached t)).
        r < length (tr_heap t) \<and> ifo_client_order_id (order_at t r) = k) \<and>
     (\<forall>(r, ou, d) \<in> set (tr_waiting t). r < length (tr_heap t))"

definition heap_ok :: "'c tracker \<Rightarrow> bool" where
  "heap_ok t \<longleftrightarrow>
     distinct (map ifo_client_order_id (tr_heap t)) \<and>
     (\<forall>o' \<in> set (tr_heap t). fills_inv o' \<and> (\<exists>q. quote_asset o' = Inr q))"

text \<open>The fills reported for a client order id, and the fills of an order that are reported.\<close>

fun fill_log :: "string \<Rightarrow> market_event list \<Rightarrow> (string \<times> decimal) list" where
  "fill_log c [] = []"
| "fill_log c (e # es) =
     (case e of
        OrderFilledEvent ts coid tp side ot price amount fee tid lev pos \<Rightarrow>
          (if coid = c then [(tid, amount)] else [])
      | _ \<Rightarrow> []) @ fill_log c es"

definition reported_fills :: "in_flight_order \<Rightarrow> (string \<times> decimal) list" where
  "reported_fills o' =
     map (\<lambda>f. (tu_trade_id f, tu_fill_base_amount f))
       (filter (\<lambda>f. 0 < tu_fill_base_amount f) (map snd (ifo_order_fills o')))"

definition fills_reported :: "'c tracker \<Rightarrow> bool" where
  "fills_reported t \<longleftrightarrow>
     (\<forall>o' \<in> set (tr_heap t). fill_log (ifo_client_order_id o') (tr_events t) = reported_fills o') \<and>
     (\<forall>c. fill_log c (tr_events t) \<noteq> [] \<longrightarrow> c \<in> ifo_client_order_id ` set (tr_heap t))"

definition active_open :: "'c tracker \<Rightarrow> bool" where
  "active_open t \<longleftrightarrow> (\<forall>(k, r) \<in> set (tr_in_flight t). is_open (order_at t r))"

definition tracker_inv :: "'c cache_ops \<Rightarrow> 'c tracker \<Rightarrow> bool" where
  "tracker_inv ops t \<longleftrightarrow> refs_ok ops t \<and> heap_ok t \<and> fills_reported t \<and> active_open t"

named_theorems tracker_defs \<open>unfolding rules for the parts of the tracker invariant\<close>

declare refs_ok_def [tracker_defs] heap_ok_def [tracker_defs] fills_reported_def [tracker_defs]
  active_open_def [tracker_defs] tracker_inv_def [tracker_defs]

lemma fill_log_append [simp]: "fill_log c (es @ es') = fill_log c es @ fill_log c es'"
  by (induction es) auto

lemma tracker_sel [simp]:
  "order_at (t\<lparr>tr_in_flight := x1\<rparr>) r = order_at t r"
  "order_at (t\<lparr>tr_cached := x2\<rparr>) r = order_at t r"
  "order_at (t\<lparr>tr_waiting := x3\<rparr>) r = order_at t r"
  "order_at (t\<lparr>tr_not_found := x4\<rparr>) r = order_at t r"
  "order_at (t\<lparr>tr_now := x5\<rparr>) r = order_at t r"
  "order_at (trigger_event e t) r = order_at t r"
  "tr_heap (trigger_event e t) = tr_heap t"
  "tr_in_flight (trigger_event e t) = tr_in_flight t"
  "tr_cached (trigger_event e t) = tr_cached t"
  "tr_waiting (trigger_event e t) = tr_waiting t"
  "tr_events (trigger_event e t) = tr_events t @ [e]"
  "tr_not_found (trigger_event e t) = tr_not_found t"
  "tr_now (trigger_event e t) = tr_now t"
  by (simp_all add: order_at_def trigger_event_def)

lemma set_order_sel [simp]:
  "order_at (set_order r o' t) s = (if s = r \<and> r < length (tr_heap t) then o' else order_at t s)"
  "tr_heap (set_order r o' t) = (tr_heap t)[r := o']"
  "tr_in_flight (set_order r o' t) = tr_in_flight t"
  "tr_cached (set_order r o' t) = tr_cached t"
  "tr_waiting (set_order r o' t) = tr_waiting t"
  "tr_events (set_order r o' t) = tr_events t"
  "tr_not_found (set_order r o' t) = tr_not_found t"
  "tr_now (set_order r o' t) = tr_now t"
  by (auto simp: order_at_def set_order_def list_update_beyond)

lemma order_at_in_heap: "r < length (tr_heap t) \<Longrightarrow> order_at t r \<in> set (tr_heap t)"
  by (simp add: order_at_def)

lemma heap_ref_unique:
  assumes "heap_ok t" "r < length (tr_heap t)" "s < length (tr_heap t)"
    "ifo_client_order_id (order_at t r) = ifo_client_order_id (order_at t s)"
  shows "r = s"
  using assms nth_eq_iff_index_eq[of "map ifo_client_order_id (tr_heap t)" r s]
  by (simp add: heap_ok_def order_at_def)

text \<open>Lookups return references of the dictionary or the cache.\<close>

lemma all_orders_subset:
  "set (all_orders ops t) \<subseteq> set (tr_in_flight t) \<union> set (cache_items ops (tr_cached t))"
proof -
  have "set (fold (\<lambda>(k, r). AList.update k r) kvs d) \<subseteq> set d \<union> set kvs"
    for kvs :: "(string \<times> nat) list" and d
  proof (induction kvs arbitrary: d)
    case Nil
    then show ?case by simp
  next
    case (Cons kv kvs)
    obtain k v where kv: "kv = (k, v)" by (cases kv)
    show ?case using Cons.IH[of "AList.update k v d"] set_update_subset[of k v d] kv by auto
  qed
  from this[of "cache_items ops (tr_cached t)" "tr_in_flight t"] show ?thesis
    by (simp add: all_orders_def)
qed

lemma refs_okD:
  assumes "refs_ok ops t"
    and "(k, r) \<in> set (tr_in_flight t) \<or> (k, r) \<in> set (cache_items ops (tr_cached t))"
  shows "r < length (tr_heap t)" "ifo_client_order_id (order_at t r) = k"
  using assms by (auto simp: refs_ok_def)

lemma refs_ok_waitingD: "refs_ok ops t \<Longrightarrow> (r, ou, d) \<in> set (tr_waiting t) \<Longrightarrow> r < length (tr_heap t)"
  by (auto simp: refs_ok_def)

lemma refs_ok_dictD: "refs_ok ops t \<Longrightarrow> dict_ok (tr_in_flight t)"
  by (simp add: refs_ok_def)

lemma refs_okI:
  assumes "dict_ok (tr_in_flight t)"
    and "\<And>k r. (k, r) \<in> set (tr_in_flight t) \<or> (k, r) \<in> set (cache_items ops (tr_cached t)) \<Longrightarrow>
           r < length (tr_heap t) \<and> ifo_client_order_id (order_at t r) = k"
    and "\<And>r ou d. (r, ou, d) \<in> set (tr_waiting t) \<Longrightarrow> r < length (tr_heap t)"
  shows "refs_ok ops t"
  using assms unfolding refs_ok_def by blast

lemma active_openD: "active_open t \<Longrightarrow> (k, r) \<in> set (tr_in_flight t) \<Longrightarrow> is_open (order_at t r)"
  by (auto simp: active_open_def)

lemma active_openI:
  "(\<And>k r. (k, r) \<in> set (tr_in_flight t) \<Longrightarrow> is_open (order_at t r)) \<Longrightarrow> active_open t"
  by (auto simp: active_open_def)

lemma fills_reportedD:
  assumes "fills_reported t"
  shows "o' \<in> set (tr_heap t) \<Longrightarrow>
           fill_log (ifo_client_order_id o') (tr_events t) = reported_fills o'"
    and "fill_log c (tr_events t) \<noteq> [] \<Longrightarrow> c \<in> ifo_client_order_id ` set (tr_heap t)"
  using assms by (simp_all add: fills_reported_def)

lemma fills_reportedI:
  assumes "\<And>o'. o' \<in> set (tr_heap t) \<Longrightarrow>
             fill_log (ifo_client_order_id o') (tr_events t) = reported_fills o'"
    and "\<And>c. fill_log c (tr_events t) \<noteq> [] \<Longrightarrow> c \<in> ifo_client_order_id ` set (tr_heap t)"
  shows "fills_reported t"
  using assms by (simp add: fills_reported_def)

lemma heap_okD:
  assumes "heap_ok t"
  shows "distinct (map ifo_client_order_id (tr_heap t))"
    and "o' \<in> set (tr_heap t) \<Longrightarrow> fills_inv o'"
    and "o' \<in> set (tr_heap t) \<Longrightarrow> \<exists>q. quote_asset o' = Inr q"
  using assms by (simp_all add: heap_ok_def)

lemma heap_okI:
  assumes "distinct (map ifo_client_order_id (tr_heap t))"
    and "\<And>o'. o' \<in> set (tr_heap t) \<Longrightarrow> fills_inv o' \<and> (\<exists>q. quote_asset o' = Inr q)"
  shows "heap_ok t"
  using assms by (simp add: heap_ok_def)

lemma heap_update_cases: "o' \<in> set (xs[r := o1]) \<Longrightarrow> o' = o1 \<or> o' \<in> set xs"
  using set_update_subset_insert[of xs r o1] by blast

lemma delete_subset: "set (AList.delete k d) \<subseteq> set d"
  by (auto simp: AList.delete_eq)

lemma fetch_order_ref:
  assumes "refs_ok ops t" and "fetch_order ops coid exid t = Some r"
  shows "r < length (tr_heap t)"
proof -
  have "r \<in> snd ` set (all_orders ops t)"
    using assms(2)
    by (auto simp: fetch_order_def find_Some_iff split: option.splits if_splits
        dest: map_of_SomeD nth_mem intro: rev_image_eqI)
  then obtain k where "(k, r) \<in> set (all_orders ops t)" by auto
  then show ?thesis using refs_okD(1)[OF assms(1), of k r] all_orders_subset[of ops t] by blast
qed

subsection \<open>Every operation keeps the invariant\<close>

definition is_fill_event :: "market_event \<Rightarrow> bool" where
  "is_fill_event e \<longleftrightarrow> (\<exists>c. fill_log c [e] \<noteq> [])"

lemma trigger_event_inv:
  assumes "\<not> is_fill_event e"
  shows "refs_ok ops (trigger_event e t) = refs_ok ops t"
    and "heap_ok (trigger_event e t) = heap_ok t"
    and "fills_reported (trigger_event e t) = fills_reported t"
    and "active_open (trigger_event e t) = active_open t"
proof -
  have no_fill: "fill_log c [e] = []" for c
    using assms by (simp add: is_fill_event_def)
  show "fills_reported (trigger_event e t) = fills_reported t"
    using no_fill by (simp add: fills_reported_def del: fill_log.simps)
qed (simp_all add: refs_ok_def heap_ok_def active_open_def)

lemma stop_tracking_inv:
  assumes "cache_contract ops"
  shows "refs_ok ops t \<Longrightarrow> refs_ok ops (stop_tracking_order ops coid t)"
    and "heap_ok (stop_tracking_order ops coid t) = heap_ok t"
    and "fills_reported (stop_tracking_order ops coid t) = fills_reported t"
    and "active_open t \<Longrightarrow> active_open (stop_tracking_order ops coid t)"
proof -
  show "active_open (stop_tracking_order ops coid t)" if "active_open t"
  proof (rule active_openI)
    fix k r
    assume "(k, r) \<in> set (tr_in_flight (stop_tracking_order ops coid t))"
    then have "(k, r) \<in> set (tr_in_flight t)"
      using delete_subset[of coid "tr_in_flight t"]
      by (auto simp: stop_tracking_order_def split: option.splits)
    then show "is_open (order_at (stop_tracking_order ops coid t) r)"
      using active_openD[OF that] by (simp add: stop_tracking_order_def split: option.split)
  qed
  show "refs_ok ops (stop_tracking_order ops coid t)" if ok: "refs_ok ops t"
  proof (cases "map_of (tr_in_flight t) coid")
    case None
    then show ?thesis using ok by (simp add: stop_tracking_order_def)
  next
    case (Some r)
    have sub: "set (cache_items ops (cache_put ops coid r (tr_cached t)))
        \<subseteq> insert (coid, r) (set (cache_items ops (tr_cached t)))"
      using assms by (simp add: cache_contract_def)
    show ?thesis
    proof (rule refs_okI)
      fix k r'
      assume "(k, r') \<in> set (tr_in_flight (stop_tracking_order ops coid t)) \<or>
        (k, r') \<in> set (cache_items ops (tr_cached (stop_tracking_order ops coid t)))"
      then have "(k, r') \<in> set (tr_in_flight t) \<or> (k, r') \<in> set (cache_items ops (tr_cached t))"
        using delete_subset[of coid "tr_in_flight t"] sub map_of_SomeD[OF Some]
        by (auto simp: stop_tracking_order_def Some)
      then show "r' < length (tr_heap (stop_tracking_order ops coid t)) \<and>
          ifo_client_order_id (order_at (stop_tracking_order ops coid t) r') = k"
        using refs_okD[OF ok] by (simp add: stop_tracking_order_def Some)
    next
      fix r' ou d
      assume "(r', ou, d) \<in> set (tr_waiting (stop_tracking_order ops coid t))"
      then show "r' < length (tr_heap (stop_tracking_order ops coid t))"
        using refs_ok_waitingD[OF ok] by (simp add: stop_tracking_order_def Some)
    qed (use refs_ok_dictD[OF ok] in \<open>simp add: stop_tracking_order_def Some\<close>)
  qed
qed (auto simp: stop_tracking_order_def heap_ok_def fills_reported_def split: option.split)

lemma set_order_inv:
  assumes "r < length (tr_heap t)"
    and "ifo_client_order_id o1 = ifo_client_order_id (order_at t r)"
  shows "refs_ok ops t \<Longrightarrow> refs_ok ops (set_order r o1 t)"
    and "heap_ok t \<Longrightarrow> fills_inv o1 \<Longrightarrow> quote_asset o1 = Inr q \<Longrightarrow> heap_ok (set_order r o1 t)"
proof -
  show "refs_ok ops (set_order r o1 t)" if ok: "refs_ok ops t"
  proof (rule refs_okI)
    fix k r'
    assume "(k, r') \<in> set (tr_in_flight (set_order r o1 t)) \<or>
      (k, r') \<in> set (cache_items ops (tr_cached (set_order r o1 t)))"
    then have "(k, r') \<in> set (tr_in_flight t) \<or> (k, r') \<in> set (cache_items ops (tr_cached t))"
      by simp
    then have "r' < length (tr_heap t) \<and> ifo_client_order_id (order_at t r') = k"
      using refs_okD[OF ok] by blast
    then show "r' < length (tr_heap (set_order r o1 t)) \<and>
        ifo_client_order_id (order_at (set_order r o1 t) r') = k"
      using assms by auto
  next
    fix r' ou d
    assume "(r', ou, d) \<in> set (tr_waiting (set_order r o1 t))"
    then have "(r', ou, d) \<in> set (tr_waiting t)" by simp
    then show "r' < length (tr_heap (set_order r o1 t))" using refs_ok_waitingD[OF ok] by simp
  qed (use refs_ok_dictD[OF ok] in simp)
  have ids: "map ifo_client_order_id ((tr_heap t)[r := o1]) = map ifo_client_order_id (tr_heap t)"
    using assms by (simp add: map_update order_at_def list_update_same_conv)
  show "heap_ok t \<Longrightarrow> fills_inv o1 \<Longrightarrow> quote_asset o1 = Inr q \<Longrightarrow> heap_ok (set_order r o1 t)"
    by (rule heap_okI) (auto simp: ids heap_okD dest!: heap_update_cases)
qed

lemma set_order_fills_reported:
  assumes "r < length (tr_heap t)"
    and "ifo_client_order_id o1 = ifo_client_order_id (order_at t r)"
    and "reported_fills o1 = reported_fills (order_at t r)"
    and "fills_reported t"
  shows "fills_reported (set_order r o1 t)"
proof -
  have "ifo_client_order_id ` set ((tr_heap t)[r := o1]) = ifo_client_order_id ` set (tr_heap t)"
    using assms(1,2) by (metis list.set_map list_update_id map_update order_at_def)
  moreover have "fill_log (ifo_client_order_id o1) (tr_events t) = reported_fills o1"
    using assms order_at_in_heap[OF assms(1)] by (simp add: fills_reported_def)
  ultimately show ?thesis
    by (intro fills_reportedI)
      (auto simp: fills_reportedD[OF assms(4)] dest!: heap_update_cases)
qed

lemma completion_not_fill [simp]:
  "\<not> is_fill_event (OrderCancelledEvent ts c x)"
  "\<not> is_fill_event (OrderFailureEvent ts c ot)"
  "\<not> is_fill_event (OrderCompletedEvent side ts c b q eb eq ot x)"
  "\<not> is_fill_event (OrderCreatedEvent side ts ot tp a p c cr x)"
  by (simp_all add: is_fill_event_def)

lemma stop_tracking_sel [simp]:
  "order_at (stop_tracking_order ops c t) r = order_at t r"
  "tr_heap (stop_tracking_order ops c t) = tr_heap t"
  "tr_events (stop_tracking_order ops c t) = tr_events t"
  "tr_waiting (stop_tracking_order ops c t) = tr_waiting t"
  "tr_now (stop_tracking_order ops c t) = tr_now t"
  "tr_not_found (stop_tracking_order ops c t) = tr_not_found t"
  by (simp_all add: stop_tracking_order_def split: option.split)

lemma stop_tracking_in_flight:
  "tr_in_flight (stop_tracking_order ops c t) = AList.delete c (tr_in_flight t)"
proof (cases "map_of (tr_in_flight t) c")
  case None
  then have "c \<notin> fst ` set (tr_in_flight t)" by (simp add: map_of_eq_None_iff)
  then show ?thesis using None by (simp add: stop_tracking_order_def delete_id)
qed (simp add: stop_tracking_order_def)

lemma stop_tracking_drops:
  assumes "refs_ok ops t"
    and "\<And>k s. (k, s) \<in> set (tr_in_flight t) \<Longrightarrow> s \<noteq> r \<Longrightarrow> is_open (order_at t s)"
  shows "active_open (stop_tracking_order ops (ifo_client_order_id (order_at t r)) t)"
proof (rule active_openI)
  let ?c = "ifo_client_order_id (order_at t r)"
  fix k s
  assume "(k, s) \<in> set (tr_in_flight (stop_tracking_order ops ?c t))"
  then have "(k, s) \<in> set (tr_in_flight t)" "k \<noteq> ?c"
    by (auto simp: stop_tracking_in_flight AList.delete_eq)
  moreover from this have "s \<noteq> r" using refs_okD(2)[OF assms(1)] by blast
  ultimately show "is_open (order_at (stop_tracking_order ops ?c t) s)"
    using assms(2) by simp
qed

definition tracker_core :: "'c cache_ops \<Rightarrow> 'c tracker \<Rightarrow> bool" where
  "tracker_core ops t \<longleftrightarrow> refs_ok ops t \<and> heap_ok t \<and> fills_reported t"

lemma tracker_inv_core: "tracker_inv ops t \<longleftrightarrow> tracker_core ops t \<and> active_open t"
  by (auto simp: tracker_inv_def tracker_core_def)

lemma trigger_event_core: "\<not> is_fill_event e \<Longrightarrow> tracker_core ops (trigger_event e t) = tracker_core ops t"
  by (simp add: tracker_core_def trigger_event_inv)

lemma stop_tracking_core:
  "cache_contract ops \<Longrightarrow> tracker_core ops t \<Longrightarrow> tracker_core ops (stop_tracking_order ops c t)"
  by (simp add: tracker_core_def stop_tracking_inv)

lemma stop_after_event:
  assumes "cache_contract ops" "tracker_core ops t" "\<not> is_fill_event e"
    and "\<And>k s. (k, s) \<in> set (tr_in_flight t) \<Longrightarrow> s \<noteq> r \<Longrightarrow> is_open (order_at t s)"
  shows "tracker_inv ops (stop_tracking_order ops (ifo_client_order_id (order_at t r)) (trigger_event e t))"
proof -
  have core: "tracker_core ops (trigger_event e t)" using assms by (simp add: trigger_event_core)
  then have "refs_ok ops (trigger_event e t)" by (simp add: tracker_core_def)
  then have "active_open (stop_tracking_order ops
      (ifo_client_order_id (order_at (trigger_event e t) r)) (trigger_event e t))"
    by (rule stop_tracking_drops) (use assms(4) in auto)
  then show ?thesis using stop_tracking_core[OF assms(1) core] by (simp add: tracker_inv_core)
qed

lemma order_completion_inv:
  assumes "cache_contract ops" "tracker_core ops t" "r < length (tr_heap t)"
    and others: "\<And>k s. (k, s) \<in> set (tr_in_flight t) \<Longrightarrow> s \<noteq> r \<Longrightarrow> is_open (order_at t s)"
  shows "tracker_inv ops (fst (trigger_order_completion ops r t))"
    and "snd (trigger_order_completion ops r t) = None"
proof -
  let ?o = "order_at t r"
  obtain q where q: "quote_asset ?o = Inr q"
    using heap_okD(3)[OF _ order_at_in_heap[OF assms(3)]] assms(2) by (auto simp: tracker_core_def)
  note stop = stop_after_event[OF assms(1,2) _ others]
  have plain: "tracker_inv ops (stop_tracking_order ops (ifo_client_order_id ?o) t)"
    using stop_tracking_drops[of ops t r] others stop_tracking_core[OF assms(1,2)] assms(2)
    by (simp add: tracker_inv_core tracker_core_def)
  have open_case: "is_open ?o \<Longrightarrow> tracker_inv ops t"
    using assms(2) others by (auto simp: tracker_inv_core intro!: active_openI)
  show "tracker_inv ops (fst (trigger_order_completion ops r t))"
    using stop plain open_case
    by (simp add: trigger_order_completion_def Let_def trigger_cancelled_event_def
        trigger_completed_event_def trigger_failure_event_def q)
  show "snd (trigger_order_completion ops r t) = None"
    by (simp add: trigger_order_completion_def Let_def trigger_completed_event_def q)
qed

lemma order_update_same_state:
  "\<not> fst (update_with_order_update ou o') \<Longrightarrow>
     ifo_current_state (snd (update_with_order_update ou o')) = ifo_current_state o'"
  by (auto simp: update_with_order_update_def Let_def split: if_splits)

lemma is_open_state_cong: "ifo_current_state a = ifo_current_state b \<Longrightarrow> is_open a = is_open b"
  by (simp add: is_open_def)

lemma quote_asset_order_update [simp]:
  "quote_asset (snd (update_with_order_update ou o')) = quote_asset o'"
  by (simp add: quote_asset_def update_with_order_update_def update_exchange_order_id_def Let_def)

lemma quote_asset_trade_update [simp]:
  "quote_asset (snd (update_with_trade_update u o')) = quote_asset o'"
  by (simp add: quote_asset_def update_with_trade_update_def check_filled_condition_def)

lemma set_order_update_core:
  assumes "tracker_core ops t" "r < length (tr_heap t)"
  shows "tracker_core ops (set_order r (snd (update_with_order_update ou (order_at t r))) t)"
proof -
  let ?o1 = "snd (update_with_order_update ou (order_at t r))"
  have ok: "refs_ok ops t" "heap_ok t" "fills_reported t"
    using assms(1) by (simp_all add: tracker_core_def)
  note mem = order_at_in_heap[OF assms(2)]
  obtain q where "quote_asset ?o1 = Inr q" using heap_okD(3)[OF ok(2) mem] by auto
  moreover have "fills_inv ?o1" using heap_okD(2)[OF ok(2) mem] by (rule order_update_inv)
  moreover have "reported_fills ?o1 = reported_fills (order_at t r)" by (simp add: reported_fills_def)
  ultimately show ?thesis
    using set_order_inv[OF assms(2), of ?o1] set_order_fills_reported[OF assms(2), of ?o1] ok
    by (simp add: tracker_core_def)
qed

lemma finish_order_update_inv:
  assumes "cache_contract ops" "tracker_inv ops t" "r < length (tr_heap t)"
  shows "tracker_inv ops (fst (finish_order_update ops r ou t))"
    and "snd (finish_order_update ops r ou t) = None"
proof -
  let ?u = "update_with_order_update ou (order_at t r)"
  let ?t1 = "set_order r (snd ?u) t"
  let ?t2 = "trigger_order_creation r (ifo_current_state (order_at t r)) (ou_new_state ou) ?t1"
  have inv: "tracker_core ops t" "active_open t" using assms(2) by (simp_all add: tracker_inv_core)
  note core1 = set_order_update_core[OF inv(1) assms(3), of ou]
  have core2: "tracker_core ops ?t2"
    using core1 by (simp add: trigger_order_creation_def trigger_created_event_def Let_def
        trigger_event_core)
  have same: "tr_in_flight ?t2 = tr_in_flight t" "tr_heap ?t2 = tr_heap ?t1"
    "\<And>s. order_at ?t2 s = order_at ?t1 s"
    by (simp_all add: trigger_order_creation_def trigger_created_event_def Let_def)
  have others: "is_open (order_at ?t2 s)" if "(k, s) \<in> set (tr_in_flight ?t2)" "s \<noteq> r" for k s
    using that active_openD[OF inv(2)] by (simp add: same)
  have r2: "r < length (tr_heap ?t2)" using assms(3) by (simp add: same)
  have finish: "finish_order_update ops r ou t =
      (if fst ?u then trigger_order_completion ops r ?t2 else (?t1, None))"
    by (simp add: finish_order_update_def Let_def split: prod.split)
  have unchanged: "active_open ?t1" if "\<not> fst ?u"
    using active_openD[OF inv(2)] is_open_state_cong[OF order_update_same_state[OF that]]
    by (intro active_openI) auto
  show "tracker_inv ops (fst (finish_order_update ops r ou t))"
    using order_completion_inv(1)[OF assms(1) core2 r2 others] core1 unchanged
    by (simp add: finish tracker_inv_core[of ops ?t1])
  show "snd (finish_order_update ops r ou t) = None"
    using order_completion_inv(2)[OF assms(1) core2 r2 others] by (simp add: finish)
qed

lemma tracker_inv_refs: "tracker_inv ops t \<Longrightarrow> refs_ok ops t"
  by (simp add: tracker_inv_def)

lemma tracker_inv_frame:
  assumes "tracker_inv ops t"
    and "tr_heap t' = tr_heap t" "tr_in_flight t' = tr_in_flight t" "tr_events t' = tr_events t"
    and "set (cache_items ops (tr_cached t')) \<subseteq> set (cache_items ops (tr_cached t))"
    and "\<And>r ou d. (r, ou, d) \<in> set (tr_waiting t') \<Longrightarrow> r < length (tr_heap t)"
  shows "tracker_inv ops t'"
proof -
  have parts: "refs_ok ops t" "heap_ok t" "fills_reported t" "active_open t"
    using assms(1) by (simp_all add: tracker_inv_def)
  have at: "order_at t' r = order_at t r" for r by (simp add: order_at_def assms(2))
  have "refs_ok ops t'"
  proof (rule refs_okI)
    fix k r
    assume "(k, r) \<in> set (tr_in_flight t') \<or> (k, r) \<in> set (cache_items ops (tr_cached t'))"
    then have "(k, r) \<in> set (tr_in_flight t) \<or> (k, r) \<in> set (cache_items ops (tr_cached t))"
      using assms(3,5) by auto
    then show "r < length (tr_heap t') \<and> ifo_client_order_id (order_at t' r) = k"
      using refs_okD[OF parts(1)] assms(2) at by simp
  qed (use refs_ok_dictD[OF parts(1)] assms in auto)
  moreover have "heap_ok t'" "fills_reported t'" "active_open t'"
    using parts assms(2,3,4) by (simp_all add: heap_ok_def fills_reported_def active_open_def at)
  ultimately show ?thesis by (simp add: tracker_inv_def)
qed

lemma process_order_update_inv:
  assumes "cache_contract ops" "tracker_inv ops t"
  shows "tracker_inv ops (fst (process_order_update ops ou t)) \<and> snd (process_order_update ops ou t) = None"
proof (cases "falsy (ou_client_order_id ou) \<and> falsy (ou_exchange_order_id ou)")
  case True
  then show ?thesis using assms by (simp add: process_order_update_def)
next
  case ids: False
  show ?thesis
  proof (cases "fetch_order ops (ou_client_order_id ou) (ou_exchange_order_id ou) t")
    case None
    then show ?thesis using assms ids by (auto simp: process_order_update_def)
  next
    case (Some r)
    have r: "r < length (tr_heap t)"
      using fetch_order_ref[OF tracker_inv_refs[OF assms(2)] Some] .
    have wait: "tracker_inv ops (t\<lparr>tr_waiting := tr_waiting t @ [(r, ou, d)]\<rparr>)" for d
      by (rule tracker_inv_frame[OF assms(2)])
        (use r refs_ok_waitingD[OF tracker_inv_refs[OF assms(2)]] in auto)
    show ?thesis
      using ids Some wait finish_order_update_inv[OF assms r, of ou]
      by (auto simp: process_order_update_def)
  qed
qed

lemma resume_order_update_inv:
  assumes "cache_contract ops" "tracker_inv ops t" "can_resume i t"
  shows "tracker_inv ops (fst (resume_order_update ops i t)) \<and> snd (resume_order_update ops i t) = None"
proof -
  obtain r ou d where w: "tr_waiting t ! i = (r, ou, d)" by (cases "tr_waiting t ! i") auto
  have i: "i < length (tr_waiting t)" using assms(3) by (simp add: can_resume_def)
  have "(r, ou, d) \<in> set (tr_waiting t)" using w i by (metis nth_mem)
  then have r: "r < length (tr_heap t)" by (rule refs_ok_waitingD[OF tracker_inv_refs[OF assms(2)]])
  let ?t = "t\<lparr>tr_waiting := take i (tr_waiting t) @ drop (Suc i) (tr_waiting t)\<rparr>"
  have "tracker_inv ops ?t"
  proof (rule tracker_inv_frame[OF assms(2)])
    fix r' ou' d'
    assume "(r', ou', d') \<in> set (tr_waiting ?t)"
    then have "(r', ou', d') \<in> set (tr_waiting t)" by (auto dest: in_set_takeD in_set_dropD)
    then show "r' < length (tr_heap t)" by (rule refs_ok_waitingD[OF tracker_inv_refs[OF assms(2)]])
  qed simp_all
  then show ?thesis
    using finish_order_update_inv[OF assms(1), of ?t r ou] r by (simp add: resume_order_update_def w)
qed

lemma process_order_not_found_inv:
  assumes "cache_contract ops" "tracker_inv ops t"
  shows "tracker_inv ops (fst (process_order_not_found ops coid t))
    \<and> snd (process_order_not_found ops coid t) = None"
proof (cases "fetch_tracked_order coid t")
  case None
  then show ?thesis using assms by (simp add: process_order_not_found_def)
next
  case (Some r)
  let ?t = "t\<lparr>tr_not_found := (tr_not_found t)(coid := tr_not_found t coid + 1)\<rparr>"
  have "tracker_inv ops ?t"
    by (rule tracker_inv_frame[OF assms(2)])
      (use refs_ok_waitingD[OF tracker_inv_refs[OF assms(2)]] in auto)
  then show ?thesis
    using process_order_update_inv[OF assms(1), of ?t] Some
    by (simp add: process_order_not_found_def Let_def)
qed

lemma stop_tracking_order_inv:
  "cache_contract ops \<Longrightarrow> tracker_inv ops t \<Longrightarrow> tracker_inv ops (stop_tracking_order ops coid t)"
  by (simp add: tracker_inv_core stop_tracking_core stop_tracking_inv)

text \<open>A trade adds one fill to the order, and one event when its amount is positive.\<close>

lemma reported_fills_trade:
  assumes "fst (update_with_trade_update u o')"
  shows "reported_fills (snd (update_with_trade_update u o')) =
    reported_fills o' @ (if 0 < tu_fill_base_amount u
                         then [(tu_trade_id u, tu_fill_base_amount u)] else [])"
proof -
  have "trade_matches o' u" "map_of (ifo_order_fills o') (tu_trade_id u) = None"
    using assms trade_update_rejected[of o' u] by (metis fst_conv)+
  then show ?thesis by (simp add: reported_fills_def trade_update_accepted)
qed

lemma trade_event_core:
  assumes core: "tracker_core ops t" and r: "r < length (tr_heap t)"
    and acc: "fst (update_with_trade_update u (order_at t r))"
    and t': "t' = set_order r (snd (update_with_trade_update u (order_at t r))) t"
  shows "tracker_core ops (trigger_order_fills r (ifo_executed_amount_base (order_at t r)) u t')"
proof -
  let ?o = "order_at t r"
  let ?o1 = "snd (update_with_trade_update u ?o)"
  let ?c = "ifo_client_order_id ?o"
  let ?new = "if 0 < tu_fill_base_amount u then [(tu_trade_id u, tu_fill_base_amount u)] else []"
  have ok: "refs_ok ops t" "heap_ok t" "fills_reported t"
    using core by (simp_all add: tracker_core_def)
  note mem = order_at_in_heap[OF r]
  have base: "ifo_executed_amount_base ?o1 = ifo_executed_amount_base ?o + tu_fill_base_amount u"
    using acc by (auto simp: update_with_trade_update_def split: if_splits)
  let ?t2 = "trigger_order_fills r (ifo_executed_amount_base ?o) u t'"
  have at: "order_at t' r = ?o1" using r by (simp add: t')
  have heap: "tr_heap ?t2 = (tr_heap t)[r := ?o1]" "tr_in_flight ?t2 = tr_in_flight t"
    "tr_cached ?t2 = tr_cached t" "tr_waiting ?t2 = tr_waiting t"
    by (simp_all add: trigger_order_fills_def trigger_filled_event_def t' Let_def)
  have log: "fill_log c (tr_events ?t2) = fill_log c (tr_events t) @ (if c = ?c then ?new else [])" for c
    using base at
    by (simp add: trigger_order_fills_def trigger_filled_event_def Let_def t')
  obtain q where "quote_asset ?o1 = Inr q" using heap_okD(3)[OF ok(2) mem] by auto
  then have so: "refs_ok ops t'" "heap_ok t'"
    using set_order_inv[OF r, of ?o1] ok trade_update_inv[OF heap_okD(2)[OF ok(2) mem], of u]
    by (simp_all add: t')
  have at2: "order_at ?t2 s = order_at t' s" for s
    by (simp add: trigger_order_fills_def trigger_filled_event_def Let_def)
  have "refs_ok ops ?t2" using so(1) by (simp add: refs_ok_def heap at2) (simp add: t')
  moreover have "heap_ok ?t2" using so(2) by (simp add: heap_ok_def heap) (simp add: t')
  moreover have "fills_reported ?t2"
  proof (rule fills_reportedI)
    fix o'
    assume "o' \<in> set (tr_heap ?t2)"
    then obtain s where s: "s < length (tr_heap t)" and o': "o' = (tr_heap t)[r := ?o1] ! s"
      by (auto simp: heap in_set_conv_nth)
    show "fill_log (ifo_client_order_id o') (tr_events ?t2) = reported_fills o'"
    proof (cases "s = r")
      case True
      then show ?thesis
        using r o' fills_reportedD(1)[OF ok(3) mem] reported_fills_trade[OF acc] by (simp add: log)
    next
      case False
      then have "o' = order_at t s" using o' by (simp add: order_at_def)
      moreover have "ifo_client_order_id (order_at t s) \<noteq> ?c"
        using heap_ref_unique[OF ok(2) s r] False by blast
      ultimately show ?thesis
        using fills_reportedD(1)[OF ok(3) order_at_in_heap[OF s]] by (simp add: log)
    qed
  next
    fix c
    assume "fill_log c (tr_events ?t2) \<noteq> []"
    then have "c = ?c \<or> fill_log c (tr_events t) \<noteq> []" by (auto simp: log split: if_splits)
    then have "c \<in> set (map ifo_client_order_id (tr_heap t))"
      using fills_reportedD(2)[OF ok(3), of c] mem by auto
    moreover have "map ifo_client_order_id ((tr_heap t)[r := ?o1]) = map ifo_client_order_id (tr_heap t)"
      using r by (simp add: map_update order_at_def list_update_same_conv)
    ultimately have "c \<in> set (map ifo_client_order_id ((tr_heap t)[r := ?o1]))" by simp
    then show "c \<in> ifo_client_order_id ` set (tr_heap ?t2)" by (simp add: heap)
  qed
  ultimately show ?thesis by (simp add: tracker_core_def)
qed

lemma process_trade_update_inv:
  assumes "tracker_inv ops t"
  shows "tracker_inv ops (process_trade_update ops tu t)"
proof (cases "fetch_order ops (Some (tu_client_order_id tu)) None t")
  case None
  then show ?thesis using assms by (simp add: process_trade_update_def)
next
  case (Some r)
  have r: "r < length (tr_heap t)" by (rule fetch_order_ref[OF tracker_inv_refs[OF assms] Some])
  have core: "tracker_core ops t" and act: "active_open t"
    using assms by (simp_all add: tracker_inv_core)
  let ?u = "update_with_trade_update tu (order_at t r)"
  let ?t1 = "set_order r (snd ?u) t"
  have run: "process_trade_update ops tu t =
      (if fst ?u then trigger_order_fills r (ifo_executed_amount_base (order_at t r)) tu ?t1 else ?t1)"
    using Some by (simp add: process_trade_update_def Let_def split: prod.split)
  have same: "tr_in_flight (process_trade_update ops tu t) = tr_in_flight t"
    "order_at (process_trade_update ops tu t) s = order_at ?t1 s" for s
    by (simp_all add: run trigger_order_fills_def trigger_filled_event_def Let_def)
  have "is_open (snd ?u) = is_open (order_at t r)" by (rule is_open_state_cong) simp
  then have "active_open (process_trade_update ops tu t)"
    using active_openD[OF act] by (intro active_openI) (auto simp: same)
  moreover have "tracker_core ops (process_trade_update ops tu t)"
  proof (cases "fst ?u")
    case True
    then show ?thesis using trade_event_core[OF core r True refl] by (simp add: run)
  next
    case False
    then have "snd ?u = order_at t r"
      by (auto simp: update_with_trade_update_def split: if_splits)
    then have "?t1 = t" by (simp add: set_order_def order_at_def list_update_id)
    then show ?thesis using core False by (simp add: run)
  qed
  ultimately show ?thesis by (simp add: tracker_inv_core)
qed

lemma track_new_inv:
  assumes inv: "tracker_inv ops t"
    and o': "o' = new_in_flight_order coid tp ot side amount created price exid state lev pos"
    and op: "is_open o'" and pair: "split_hb_trading_pair tp = Inr (b, q)"
    and fresh: "coid \<notin> ifo_client_order_id ` set (tr_heap t)"
  shows "tracker_inv ops (start_tracking_order (length (tr_heap t)) (t\<lparr>tr_heap := tr_heap t @ [o']\<rparr>))"
    (is "tracker_inv ops ?t")
proof -
  have ok: "refs_ok ops t" "heap_ok t" "fills_reported t" "active_open t"
    using inv by (simp_all add: tracker_inv_def)
  have c: "ifo_client_order_id o' = coid" "ifo_order_fills o' = []" "fills_inv o'"
    by (simp_all add: o' new_order_inv) (simp_all add: new_in_flight_order_def)
  have at: "order_at ?t s = (if s = length (tr_heap t) then o' else order_at t s)"
    if "s \<le> length (tr_heap t)" for s
    using that by (simp add: order_at_def start_tracking_order_def nth_append)
  have heap: "tr_heap ?t = tr_heap t @ [o']" "tr_cached ?t = tr_cached t"
    "tr_waiting ?t = tr_waiting t" "tr_events ?t = tr_events t"
    "tr_in_flight ?t = AList.update coid (length (tr_heap t)) (tr_in_flight t)"
    by (simp_all add: start_tracking_order_def order_at_def c)
  have sub: "set (tr_in_flight ?t) \<subseteq> insert (coid, length (tr_heap t)) (set (tr_in_flight t))"
    unfolding heap by (rule set_update_subset)
  have "refs_ok ops ?t"
  proof (rule refs_okI)
    fix k r
    assume "(k, r) \<in> set (tr_in_flight ?t) \<or> (k, r) \<in> set (cache_items ops (tr_cached ?t))"
    then have "(k, r) = (coid, length (tr_heap t)) \<or> (k, r) \<in> set (tr_in_flight t) \<or>
        (k, r) \<in> set (cache_items ops (tr_cached t))"
      using sub heap(2) by auto
    then show "r < length (tr_heap ?t) \<and> ifo_client_order_id (order_at ?t r) = k"
      using refs_okD[OF ok(1), of k r] at[of r] c by (auto simp: heap)
  next
    fix r ou d
    assume "(r, ou, d) \<in> set (tr_waiting ?t)"
    then show "r < length (tr_heap ?t)" using refs_ok_waitingD[OF ok(1)] by (fastforce simp: heap)
  qed (use refs_ok_dictD[OF ok(1)] in \<open>simp add: heap\<close>)
  moreover have "quote_asset o' = Inr q"
    using split_hb_Inr(1)[OF pair] by (simp add: o' quote_asset_def new_in_flight_order_def)
  then have "heap_ok ?t"
    using heap_okD[OF ok(2)] fresh c by (intro heap_okI) (auto simp: heap)
  moreover have "fills_reported ?t"
  proof (rule fills_reportedI)
    fix o''
    assume "o'' \<in> set (tr_heap ?t)"
    moreover have "fill_log coid (tr_events t) = []" using fills_reportedD(2)[OF ok(3), of coid] fresh by auto
    ultimately show "fill_log (ifo_client_order_id o'') (tr_events ?t) = reported_fills o''"
      using fills_reportedD(1)[OF ok(3)] c by (auto simp: heap reported_fills_def)
  next
    fix c'
    assume "fill_log c' (tr_events ?t) \<noteq> []"
    then show "c' \<in> ifo_client_order_id ` set (tr_heap ?t)"
      using fills_reportedD(2)[OF ok(3), of c'] by (simp add: heap)
  qed
  moreover have "active_open ?t"
  proof (rule active_openI)
    fix k r
    assume "(k, r) \<in> set (tr_in_flight ?t)"
    then have "r = length (tr_heap t) \<or> (k, r) \<in> set (tr_in_flight t)" using sub by auto
    then show "is_open (order_at ?t r)"
      using active_openD[OF ok(4), of k r] refs_okD(1)[OF ok(1), of k r] at[of r] op by auto
  qed
  ultimately show ?thesis by (simp add: tracker_inv_def)
qed

lemma tracker_step_inv:
  assumes "tracker_step ops t t'" "cache_contract ops" "tracker_inv ops t"
  shows "tracker_inv ops t'"
  using assms
proof (induction rule: tracker_step.induct)
  case (step_track o' coid tp ot side amount created price exid state lev pos b q t)
  then show ?case using track_new_inv by blast
next
  case (step_expire c t)
  show ?case
    by (rule tracker_inv_frame[OF step_expire.prems(2)])
      (use step_expire refs_ok_waitingD[OF tracker_inv_refs[OF step_expire.prems(2)]] in auto)
next
  case (step_time t now)
  show ?case
    by (rule tracker_inv_frame[OF step_time.prems(2)])
      (use refs_ok_waitingD[OF tracker_inv_refs[OF step_time.prems(2)]] in auto)
qed (simp_all add: process_trade_update_inv process_order_update_inv resume_order_update_inv
      process_order_not_found_inv stop_tracking_order_inv)

lemma init_tracker_inv: "cache_items ops c = [] \<Longrightarrow> tracker_inv ops (init_tracker c now)"
  by (simp add: tracker_inv_def refs_ok_def heap_ok_def fills_reported_def active_open_def
      init_tracker_def)

lemma reachable_inv:
  "tracker_reachable ops t \<Longrightarrow> cache_contract ops \<Longrightarrow> tracker_inv ops t"
  by (induction rule: tracker_reachable.induct) (auto intro: init_tracker_inv tracker_step_inv)

subsection \<open>What the steps do\<close>

lemma fold_update_lookup:
  assumes "\<And>r'. (k, r') \<in> set kvs \<Longrightarrow> r' = r" and "map_of d k = Some r"
  shows "map_of (fold (\<lambda>(k, r). AList.update k r) kvs d) k = Some r"
  using assms
proof (induction kvs arbitrary: d)
  case Nil
  then show ?case by simp
next
  case (Cons kv kvs)
  obtain k' r' where kv: "kv = (k', r')" by (cases kv)
  have "map_of (AList.update k' r' d) k = Some r"
    using Cons.prems kv by (auto simp: update_conv')
  then show ?case using Cons.IH Cons.prems(1) kv by simp
qed

lemma fetch_order_active:
  assumes "tracker_inv ops t" "fetch_tracked_order c t = Some r"
  shows "fetch_order ops (Some c) x t = Some r"
proof -
  have parts: "refs_ok ops t" "heap_ok t" using assms(1) by (simp_all add: tracker_inv_def)
  have mem: "(c, r) \<in> set (tr_in_flight t)"
    using assms(2) by (simp add: fetch_tracked_order_def map_of_SomeD)
  have "r' = r" if "(c, r') \<in> set (cache_items ops (tr_cached t))" for r'
    using heap_ref_unique[OF parts(2), of r' r] refs_okD[OF parts(1), of c r']
      refs_okD[OF parts(1), of c r] that mem by auto
  then have "map_of (all_orders ops t) c = Some r"
    unfolding all_orders_def
    by (rule fold_update_lookup) (use assms(2) in \<open>simp_all add: fetch_tracked_order_def\<close>)
  then show ?thesis by (simp add: fetch_order_def)
qed

lemma update_by_client_id:
  assumes "ou_client_order_id ou = Some (ifo_client_order_id o')"
  shows "ifo_current_state (snd (update_with_order_update ou o')) = ou_new_state ou"
    and "ifo_current_state o' \<noteq> ou_new_state ou \<Longrightarrow> fst (update_with_order_update ou o')"
  using assms
  by (auto simp: update_with_order_update_def update_exchange_order_id_def Let_def)

text \<open>
  A terminal update of an active order, addressed by its client id: the order's object takes the
  new state, is moved to the cache, and one event is triggered.
\<close>

lemma terminal_update:
  assumes "cache_contract ops" "tracker_inv ops t" "fetch_tracked_order c t = Some r"
    and ou: "ou_client_order_id ou = Some c" "c \<noteq> []"
    and st: "ou_new_state ou = CANCELED \<or>
      (ou_new_state ou = FAILED \<and> (\<not> is_done (order_at t r) \<or> ifo_amount (order_at t r) = 0))"
  defines "o1 \<equiv> snd (update_with_order_update ou (order_at t r))"
  defines "t' \<equiv> fst (process_order_update ops ou t)"
  shows "tr_events t' = tr_events t @
           [if ou_new_state ou = CANCELED
            then OrderCancelledEvent (tr_now t) c (ifo_exchange_order_id o1)
            else OrderFailureEvent (tr_now t) c (ifo_order_type (order_at t r))]"
    and "order_at t' r = o1"
    and "fetch_tracked_order c t' = None"
    and "fetch_cached_order ops c t' = Some r"
proof -
  have parts: "refs_ok ops t" "active_open t" using assms(2) by (simp_all add: tracker_inv_def)
  have mem: "(c, r) \<in> set (tr_in_flight t)"
    using assms(3) by (simp add: fetch_tracked_order_def map_of_SomeD)
  have r: "r < length (tr_heap t)" and id: "ifo_client_order_id (order_at t r) = c"
    using refs_okD[OF parts(1), of c r] mem by auto
  have op: "is_open (order_at t r)" using active_openD[OF parts(2) mem] .
  have st1: "ifo_current_state o1 = ou_new_state ou" and "fst (update_with_order_update ou (order_at t r))"
    using update_by_client_id[of ou "order_at t r"] ou id op st
    by (auto simp: o1_def is_open_def)
  then have upd: "update_with_order_update ou (order_at t r) = (True, o1)"
    by (simp add: o1_def prod_eq_iff)
  have notopen: "\<not> is_open o1" using st st1 by (auto simp: is_open_def)
  have o1: "ifo_client_order_id o1 = c" "ifo_amount o1 = ifo_amount (order_at t r)"
    "ifo_executed_amount_base o1 = ifo_executed_amount_base (order_at t r)"
    "ifo_order_type o1 = ifo_order_type (order_at t r)"
    using id by (simp_all add: o1_def)
      (simp add: update_with_order_update_def update_exchange_order_id_def Let_def)
  have notfilled: "\<not> is_filled o1" if "ou_new_state ou = FAILED"
    using st that st1 o1 by (auto simp: is_filled_def is_done_def fully_executed_def)
  have lookup: "map_of (tr_in_flight (set_order r o1 t)) c = Some r"
    using assms(3) by (simp add: fetch_tracked_order_def)
  have run: "t' = fst (finish_order_update ops r ou t)"
    using fetch_order_active[OF assms(2,3)] ou st
    by (auto simp: t'_def process_order_update_def falsy_def)
  define e where "e = (if ou_new_state ou = CANCELED
            then OrderCancelledEvent (tr_now t) c (ifo_exchange_order_id o1)
            else OrderFailureEvent (tr_now t) c (ifo_order_type (order_at t r)))"
  have t': "t' = stop_tracking_order ops c (trigger_event e (set_order r o1 t))"
    using st st1 notopen notfilled r o1 id
    by (auto simp: run finish_order_update_def upd trigger_order_creation_def
        trigger_order_completion_def is_cancelled_def is_failure_def e_def Let_def
        trigger_cancelled_event_def trigger_failure_event_def)
  show "tr_events t' = tr_events t @ [if ou_new_state ou = CANCELED
            then OrderCancelledEvent (tr_now t) c (ifo_exchange_order_id o1)
            else OrderFailureEvent (tr_now t) c (ifo_order_type (order_at t r))]"
    by (simp add: t' e_def)
  show "order_at t' r = o1" using r by (simp add: t')
  show "fetch_tracked_order c t' = None"
    by (simp add: t' fetch_tracked_order_def stop_tracking_in_flight delete_conv)
  show "fetch_cached_order ops c t' = Some r"
    using lookup assms(1)
    by (simp add: t' fetch_cached_order_def stop_tracking_order_def cache_contract_def)
qed

subsection \<open>A concrete cache and a concrete run\<close>

text \<open>An association list without a size limit satisfies the contract of the cache.\<close>

definition list_cache :: "(string, nat) pydict cache_ops" where
  "list_cache = \<lparr>cache_put = AList.update, cache_items = AList.clearjunk\<rparr>"

lemma list_cache_contract: "cache_contract list_cache"
proof -
  have "set (AList.clearjunk (AList.update k r c)) \<subseteq> insert (k, r) (set (AList.clearjunk c))"
    for k r and c :: "(string, nat) pydict"
    using set_update_subset[of k r "AList.clearjunk c"] by (simp add: clearjunk_update)
  then show ?thesis
    by (simp add: cache_contract_def list_cache_def dict_ok_def distinct_clearjunk
        map_of_clearjunk update_conv')
qed

definition sample_tracker :: "(string, nat) pydict tracker" where
  "sample_tracker = process_trade_update list_cache (sample_trade ''T1'' 1)
     (start_tracking_order 0 ((init_tracker [] 100)\<lparr>tr_heap := [sample_order]\<rparr>))"

lemma sample_tracker_reachable: "tracker_reachable list_cache sample_tracker"
proof -
  let ?t = "init_tracker [] 100 :: (string, nat) pydict tracker"
  have "tracker_reachable list_cache ?t"
    by (rule reach_init) (simp add: list_cache_def)
  moreover have "tracker_step list_cache ?t
      (start_tracking_order (length (tr_heap ?t)) (?t\<lparr>tr_heap := tr_heap ?t @ [sample_order]\<rparr>))"
    by (rule step_track[OF sample_order_def, where b = "''BTC''" and q = "''USDT''"])
      (simp_all add: sample_order_def new_in_flight_order_def is_open_def init_tracker_def
        split_hb_trading_pair_def)
  ultimately have "tracker_reachable list_cache
      (start_tracking_order (length (tr_heap ?t)) (?t\<lparr>tr_heap := tr_heap ?t @ [sample_order]\<rparr>))"
    by (rule reach_step)
  moreover have "start_tracking_order (length (tr_heap ?t)) (?t\<lparr>tr_heap := tr_heap ?t @ [sample_order]\<rparr>)
      = start_tracking_order 0 (?t\<lparr>tr_heap := [sample_order]\<rparr>)"
    by (simp add: init_tracker_def)
  ultimately show ?thesis unfolding sample_tracker_def by (metis reach_step step_trade)
qed

definition sample_fill_event :: market_event where
  "sample_fill_event = OrderFilledEvent 100 ''B1'' ''BTC-USDT'' BUY LIMIT 10 1
     (tu_fee (sample_trade ''T1'' 1)) ''T1'' 1 NIL_POSITION"

lemma sample_tracker_eq:
  "sample_tracker = \<lparr>tr_heap = [sample_filled_order], tr_in_flight = [(''B1'', 0)], tr_cached = [],
     tr_not_found = (\<lambda>_. 0), tr_waiting = [], tr_events = [sample_fill_event], tr_now = 100\<rparr>"
  by (simp add: sample_tracker_def process_trade_update_def start_tracking_order_def fetch_order_def
      all_orders_def list_cache_def init_tracker_def order_at_def sample_order_def
      new_in_flight_order_def sample_trade_def update_with_trade_update_def set_order_def
      check_filled_condition_def check_filled_iff sample_filled_order_def sample_fill_event_def
      trigger_order_fills_def trigger_filled_event_def trigger_event_def)

subsection \<open>Properties\<close>

text \<open>
  C5: in every reachable tracker the actively tracked orders are open, are found under their own
  client order id, and processing an order update raises no exception.
\<close>

theorem active_orders_open:
  assumes "cache_contract ops" and "tracker_reachable ops t"
    and "fetch_tracked_order c t = Some r"
  shows "is_open (order_at t r) \<and> ifo_client_order_id (order_at t r) = c
    \<and> fetch_order ops (Some c) None t = Some r
    \<and> snd (process_order_update ops ou t) = None"
proof -
  have inv: "tracker_inv ops t" using reachable_inv[OF assms(2,1)] .
  have mem: "(c, r) \<in> set (tr_in_flight t)"
    using assms(3) by (simp add: fetch_tracked_order_def map_of_SomeD)
  show ?thesis
    using active_openD[of t c r] refs_okD(2)[OF tracker_inv_refs[OF inv], of c r] mem inv
      fetch_order_active[OF inv assms(3)] process_order_update_inv[OF assms(1) inv, of ou]
    by (simp add: tracker_inv_def)
qed

theorem active_orders_open_witness:
  "is_open (order_at sample_tracker 0) \<and> ifo_client_order_id (order_at sample_tracker 0) = ''B1''"
proof -
  have "fetch_tracked_order ''B1'' sample_tracker = Some 0"
    by (simp add: fetch_tracked_order_def sample_tracker_eq)
  from active_orders_open[OF list_cache_contract sample_tracker_reachable this] show ?thesis by simp
qed

text \<open>
  C2: the fill events triggered for an order are its fills of positive amount, in their order of
  arrival and each exactly once; when every fill is positive their amounts add up to the executed
  amount of the order.
\<close>

theorem fill_events_match_execution:
  assumes "cache_contract ops" and "tracker_reachable ops t" and "o' \<in> set (tr_heap t)"
  shows "fill_log (ifo_client_order_id o') (tr_events t) = reported_fills o'
    \<and> ((\<forall>f \<in> snd ` set (ifo_order_fills o'). 0 < tu_fill_base_amount f) \<longrightarrow>
        sum_list (map snd (fill_log (ifo_client_order_id o') (tr_events t)))
          = ifo_executed_amount_base o')"
proof -
  have inv: "tracker_inv ops t" using reachable_inv[OF assms(2,1)] .
  then have log: "fill_log (ifo_client_order_id o') (tr_events t) = reported_fills o'"
    and fills: "fills_inv o'"
    using fills_reportedD(1)[OF _ assms(3)] heap_okD(2)[OF _ assms(3)]
    by (simp_all add: tracker_inv_def)
  have "sum_list (map snd (reported_fills o')) = ifo_executed_amount_base o'"
    if "\<forall>f \<in> snd ` set (ifo_order_fills o'). 0 < tu_fill_base_amount f"
  proof -
    have "filter (\<lambda>f. 0 < tu_fill_base_amount f) (map snd (ifo_order_fills o'))
        = map snd (ifo_order_fills o')"
      using that by (intro filter_True) auto
    then show ?thesis using fills by (simp add: reported_fills_def fills_inv_def o_def)
  qed
  then show ?thesis using log by simp
qed

theorem fill_events_match_execution_witness:
  "fill_log ''B1'' (tr_events sample_tracker) = [(''T1'', 1)]"
proof -
  have "sample_filled_order \<in> set (tr_heap sample_tracker)" by (simp add: sample_tracker_eq)
  from fill_events_match_execution[OF list_cache_contract sample_tracker_reachable this] show ?thesis
    by (simp add: sample_filled_order_def sample_order_def new_in_flight_order_def reported_fills_def)
qed

text \<open>
  Cancelling or failing an active order through an update triggers exactly one event, stores the
  updated order in the cache and stops tracking it.
\<close>

theorem terminal_update_stops_tracking:
  assumes "cache_contract ops" and "tracker_reachable ops t"
    and "fetch_tracked_order c t = Some r" and "ou_client_order_id ou = Some c" and "c \<noteq> []"
    and "ou_new_state ou = CANCELED \<or> (ou_new_state ou = FAILED \<and> \<not> is_done (order_at t r))"
  shows "let t' = fst (process_order_update ops ou t);
             o1 = snd (update_with_order_update ou (order_at t r)) in
    tr_events t' = tr_events t @
      [if ou_new_state ou = CANCELED
       then OrderCancelledEvent (tr_now t) c (ifo_exchange_order_id o1)
       else OrderFailureEvent (tr_now t) c (ifo_order_type (order_at t r))]
    \<and> order_at t' r = o1 \<and> fetch_tracked_order c t' = None \<and> fetch_cached_order ops c t' = Some r"
  using terminal_update[OF assms(1) reachable_inv[OF assms(2,1)] assms(3-5)] assms(6) by (auto simp: Let_def)

theorem terminal_update_stops_tracking_witness:
  "tr_events (fst (process_order_update list_cache
      \<lparr>ou_trading_pair = ''BTC-USDT'', ou_update_timestamp = 102, ou_new_state = CANCELED,
       ou_client_order_id = Some ''B1'', ou_exchange_order_id = Some ''X1''\<rparr> sample_tracker))
   = [sample_fill_event, OrderCancelledEvent 100 ''B1'' (Some ''X1'')]"
proof -
  let ?ou = "\<lparr>ou_trading_pair = ''BTC-USDT'', ou_update_timestamp = 102, ou_new_state = CANCELED,
       ou_client_order_id = Some ''B1'', ou_exchange_order_id = Some ''X1''\<rparr>"
  have "fetch_tracked_order ''B1'' sample_tracker = Some 0"
    by (simp add: fetch_tracked_order_def sample_tracker_eq)
  from terminal_update_stops_tracking[OF list_cache_contract sample_tracker_reachable this, of ?ou]
  show ?thesis
    by (simp add: Let_def sample_tracker_eq order_at_def sample_filled_order_def sample_order_def
        new_in_flight_order_def update_with_order_update_def update_exchange_order_id_def)
qed

text \<open>
  Reports that the exchange does not know an active order are only counted up to the limit of
  ten; the next one fails the order, unless it is done, with one failure event, and stops tracking it.
\<close>

theorem order_not_found_limit:
  assumes "cache_contract ops" and "tracker_reachable ops t"
    and "fetch_tracked_order c t = Some r" and "c \<noteq> []" and "\<not> is_done (order_at t r)"
  shows "let t' = fst (process_order_not_found ops c t) in
    if tr_not_found t c < 10
    then t' = t\<lparr>tr_not_found := (tr_not_found t)(c := tr_not_found t c + 1)\<rparr>
    else tr_events t' = tr_events t @
           [OrderFailureEvent (tr_now t) c (ifo_order_type (order_at t r))]
         \<and> ifo_current_state (order_at t' r) = FAILED
         \<and> fetch_tracked_order c t' = None \<and> fetch_cached_order ops c t' = Some r"
proof -
  have inv: "tracker_inv ops t" using reachable_inv[OF assms(2,1)] .
  let ?t = "t\<lparr>tr_not_found := (tr_not_found t)(c := tr_not_found t c + 1)\<rparr>"
  have inv': "tracker_inv ops ?t"
    by (rule tracker_inv_frame[OF inv]) (use refs_ok_waitingD[OF tracker_inv_refs[OF inv]] in auto)
  have id: "ifo_client_order_id (order_at t r) = c"
    using refs_okD(2)[OF tracker_inv_refs[OF inv], of c r] assms(3)
    by (simp add: fetch_tracked_order_def map_of_SomeD)
  show ?thesis
  proof (cases "tr_not_found t c < 10")
    case True
    then show ?thesis
      using assms(3) by (simp add: process_order_not_found_def ORDER_NOT_FOUND_COUNT_LIMIT_def Let_def)
  next
    case False
    let ?ou = "failed_update c r ?t"
    have run: "process_order_not_found ops c t = process_order_update ops ?ou ?t"
      using False assms(3,5)
      by (simp add: process_order_not_found_def ORDER_NOT_FOUND_COUNT_LIMIT_def Let_def)
    have "fetch_tracked_order c ?t = Some r" using assms(3) by (simp add: fetch_tracked_order_def)
    note upd = terminal_update[OF assms(1) inv' this, of ?ou]
    show ?thesis
      using False upd assms(4,5) update_by_client_id(1)[of ?ou "order_at t r"] id
      by (simp add: run failed_update_def Let_def)
  qed
qed

theorem order_not_found_limit_witness:
  "tr_not_found (fst (process_order_not_found list_cache ''B1'' sample_tracker)) ''B1'' = 1"
proof -
  have "fetch_tracked_order ''B1'' sample_tracker = Some 0"
    by (simp add: fetch_tracked_order_def sample_tracker_eq)
  moreover have "\<not> is_done (order_at sample_tracker 0)"
    by (simp add: sample_tracker_eq order_at_def is_done_def fully_executed_def isclose_def
        sample_filled_order_def sample_order_def new_in_flight_order_def)
  ultimately show ?thesis
    using order_not_found_limit[OF list_cache_contract sample_tracker_reachable, of "''B1''" 0]
    by (simp add: Let_def sample_tracker_eq)
qed

end
