(* ===== verification/Order_Candidate.thy ===== *)
theory Order_Candidate
  imports Trade_Fee
begin

text \<open>
  \<^verbatim>\<open>core/data_type/order_candidate.py\<close>: an order the strategy intends to place, with the
  collateral it needs and the return it promises, for spot orders (\<^verbatim>\<open>OrderCandidate\<close>) and perpetual
  orders (\<^verbatim>\<open>PerpetualOrderCandidate\<close>, a candidate whose \<open>oc_perpetual\<close> is set), and the two fee impact
  methods of \<^verbatim>\<open>core/data_type/trade_fee.py\<close> that read a candidate.

  The connector is the record \<open>exchange_env\<close>: what a candidate and the budget checker ask it for.
  The field \<^verbatim>\<open>fixed_fee_collaterals\<close> is declared with \<^verbatim>\<open>field(default=list)\<close>, so before it is populated
  it holds the class \<^verbatim>\<open>list\<close>, which cannot be iterated: that is \<open>None\<close> here.
\<close>

record exchange_env =
  ex_fee_schema :: trade_fee_schema
  ex_get_price :: "string \<Rightarrow> bool \<Rightarrow> decimal"
  ex_available_balance :: "string \<Rightarrow> decimal"
  ex_balance :: "string \<Rightarrow> decimal"
  ex_quantize_order_amount :: "string \<Rightarrow> decimal \<Rightarrow> decimal"
  ex_buy_collateral_token :: "string \<Rightarrow> string"
  ex_sell_collateral_token :: "string \<Rightarrow> string"

record perpetual_terms =
  pt_leverage :: decimal
  pt_position_close :: bool

record order_candidate =
  oc_trading_pair :: string
  oc_is_maker :: bool
  oc_order_type :: order_type
  oc_order_side :: trade_type
  oc_amount :: decimal
  oc_price :: decimal
  oc_order_collateral :: "token_amount option"
  oc_percent_fee_collateral :: "token_amount option"
  oc_percent_fee_value :: "token_amount option"
  oc_fixed_fee_collaterals :: "token_amount list option"
  oc_potential_returns :: "token_amount option"
  oc_resized :: bool
  oc_from_total_balances :: bool
  oc_perpetual :: "perpetual_terms option"

definition new_order_candidate ::
  "string \<Rightarrow> bool \<Rightarrow> order_type \<Rightarrow> trade_type \<Rightarrow> decimal \<Rightarrow> decimal \<Rightarrow> bool \<Rightarrow>
   perpetual_terms option \<Rightarrow> order_candidate" where
  "new_order_candidate tp maker ot side amount price from_total perp =
     \<lparr>oc_trading_pair = tp, oc_is_maker = maker, oc_order_type = ot, oc_order_side = side,
      oc_amount = amount, oc_price = price, oc_order_collateral = None,
      oc_percent_fee_collateral = None, oc_percent_fee_value = None,
      oc_fixed_fee_collaterals = None, oc_potential_returns = None, oc_resized = False,
      oc_from_total_balances = from_total, oc_perpetual = perp\<rparr>"

text \<open>\<^verbatim>\<open>collateral_dict\<close>: a default dictionary, so the amount of a token that does not occur is zero.\<close>

definition token_part :: "string \<Rightarrow> token_amount option \<Rightarrow> decimal" where
  "token_part t ta = (case ta of None \<Rightarrow> 0 | Some x \<Rightarrow> if ta_token x = t then ta_amount x else 0)"

definition fixed_part :: "string \<Rightarrow> token_amount list \<Rightarrow> decimal" where
  "fixed_part t fs = (\<Sum>x \<leftarrow> fs. if ta_token x = t then ta_amount x else 0)"

definition collateral_dict :: "order_candidate \<Rightarrow> py_error + (string \<Rightarrow> decimal)" where
  "collateral_dict c =
     (case oc_fixed_fee_collaterals c of
        None \<Rightarrow> Inl TypeError
      | Some fs \<Rightarrow> Inr (\<lambda>t. token_part t (oc_order_collateral c)
                          + token_part t (oc_percent_fee_collateral c) + fixed_part t fs))"

definition is_zero_order :: "order_candidate \<Rightarrow> bool" where
  "is_zero_order c \<longleftrightarrow> oc_amount c = 0"

definition get_size_token_and_order_size :: "order_candidate \<Rightarrow> py_error + (string \<times> decimal)" where
  "get_size_token_and_order_size c =
     bind_err (split_hb_trading_pair (oc_trading_pair c)) (\<lambda>(base, quote).
       if oc_order_side c = BUY then Inr (quote, oc_amount c * oc_price c)
       else Inr (base, oc_amount c))"

subsection \<open>Fee impact\<close>

text \<open>\<^verbatim>\<open>self.percent_token or order_candidate.order_collateral.token\<close>\<close>

definition impact_fee_token :: "trade_fee \<Rightarrow> order_candidate \<Rightarrow> py_error + string" where
  "impact_fee_token fee c =
     (case (tf_percent_token fee, oc_order_collateral c) of
        (Some (x # xs), _) \<Rightarrow> Inr (x # xs)
      | (_, Some oc) \<Rightarrow> Inr (ta_token oc)
      | (_, None) \<Rightarrow> Inl AttributeError)"

text \<open>The fee on the order size, when it is not charged in the collateral token.\<close>

definition size_fee_amount :: "exchange_env \<Rightarrow> trade_fee \<Rightarrow> string \<Rightarrow> order_candidate \<Rightarrow> py_error + decimal" where
  "size_fee_amount ex fee fee_token c =
     bind_err (get_size_token_and_order_size c) (\<lambda>(token, size).
       let exchange_rate = (if fee_token = token then 1
             else ex_get_price ex (combine_to_hb_trading_pair token fee_token) True)
       in Inr (size * exchange_rate * tf_percent fee))"

definition get_fee_impact_on_order_cost ::
  "exchange_env \<Rightarrow> trade_fee \<Rightarrow> order_candidate \<Rightarrow> py_error + token_amount option" where
  "get_fee_impact_on_order_cost ex fee c =
     (case tf_class fee of
        DeductedFromReturns \<Rightarrow> Inr None
      | AddedToCost \<Rightarrow>
          if tf_percent fee = 0 then Inr None
          else bind_err (impact_fee_token fee c) (\<lambda>fee_token.
               bind_err
                 (case oc_order_collateral c of
                    None \<Rightarrow> size_fee_amount ex fee fee_token c
                  | Some oc \<Rightarrow> if fee_token \<noteq> ta_token oc then size_fee_amount ex fee fee_token c
                               else Inr (ta_amount oc * tf_percent fee))
                 (\<lambda>fee_amount. Inr (Some \<lparr>ta_token = fee_token, ta_amount = fee_amount\<rparr>))))"

definition get_fee_impact_on_order_returns ::
  "trade_fee \<Rightarrow> order_candidate \<Rightarrow> py_error + decimal option" where
  "get_fee_impact_on_order_returns fee c =
     (case tf_class fee of
        AddedToCost \<Rightarrow> Inr None
      | DeductedFromReturns \<Rightarrow>
          (case oc_potential_returns c of
             None \<Rightarrow> Inl AttributeError
           | Some r \<Rightarrow> Inr (Some (ta_amount r * tf_percent fee))))"

subsection \<open>Populating the collateral entries\<close>

text \<open>
  Methods \<^verbatim>\<open>PerpetualOrderCandidate\<close> overrides come in a \<open>spot_\<close> and a \<open>perpetual_\<close> version; the
  definition without a prefix is the dynamic dispatch on the candidate's class.
\<close>

definition spot_get_fee :: "exchange_env \<Rightarrow> order_candidate \<Rightarrow> py_error + trade_fee" where
  "spot_get_fee ex c =
     bind_err (split_hb_trading_pair (oc_trading_pair c)) (\<lambda>_.
       Inr (build_trade_fee (ex_fee_schema ex) (oc_is_maker c) (oc_order_side c) []))"

definition perpetual_get_fee ::
  "exchange_env \<Rightarrow> perpetual_terms \<Rightarrow> order_candidate \<Rightarrow> py_error + trade_fee" where
  "perpetual_get_fee ex pt c =
     bind_err (split_hb_trading_pair (oc_trading_pair c)) (\<lambda>_.
       Inr (build_perpetual_trade_fee (ex_fee_schema ex) (oc_is_maker c)
              (if pt_position_close pt then CLOSE_POSITION else OPEN_POSITION)))"

definition get_fee :: "exchange_env \<Rightarrow> order_candidate \<Rightarrow> py_error + trade_fee" where
  "get_fee ex c = (case oc_perpetual c of
     None \<Rightarrow> spot_get_fee ex c | Some pt \<Rightarrow> perpetual_get_fee ex pt c)"

definition flip_order_side :: "order_candidate \<Rightarrow> order_candidate" where
  "flip_order_side c = c\<lparr>oc_order_side := (if oc_order_side c = SELL then BUY else SELL)\<rparr>"

definition get_collateral_token :: "exchange_env \<Rightarrow> order_candidate \<Rightarrow> string" where
  "get_collateral_token ex c =
     (if oc_order_side c = BUY then ex_buy_collateral_token ex (oc_trading_pair c)
      else ex_sell_collateral_token ex (oc_trading_pair c))"

definition get_size_collateral_price ::
  "exchange_env \<Rightarrow> order_candidate \<Rightarrow> string \<Rightarrow> py_error + decimal" where
  "get_size_collateral_price ex c collateral_token =
     bind_err (get_size_token_and_order_size c) (\<lambda>(size_token, _).
     bind_err (split_hb_trading_pair (oc_trading_pair c)) (\<lambda>(base, quote).
       if collateral_token = size_token then Inr 1
       else if collateral_token = base then dec_div 1 (oc_price c)
       else if collateral_token = quote then Inr (oc_price c)
       else Inr (ex_get_price ex (combine_to_hb_trading_pair size_token collateral_token) True)))"

text \<open>
  \<^verbatim>\<open>_get_collateral_amount\<close> flips the side of a closing order around the computation of its size
  only; the collateral price is that of the order's own side.
\<close>

definition get_collateral_amount ::
  "exchange_env \<Rightarrow> perpetual_terms \<Rightarrow> order_candidate \<Rightarrow> py_error + decimal" where
  "get_collateral_amount ex pt c =
     bind_err (get_size_token_and_order_size (if pt_position_close pt then flip_order_side c else c))
       (\<lambda>(_, order_size).
     bind_err (get_size_collateral_price ex c (get_collateral_token ex c)) (\<lambda>price.
       dec_div (order_size * price) (pt_leverage pt)))"

definition spot_order_collateral_token :: "order_candidate \<Rightarrow> py_error + string option" where
  "spot_order_collateral_token c =
     bind_err (split_hb_trading_pair (oc_trading_pair c)) (\<lambda>(base, quote).
       Inr (Some (if oc_order_side c = BUY then quote else base)))"

definition perpetual_order_collateral_token ::
  "exchange_env \<Rightarrow> perpetual_terms \<Rightarrow> order_candidate \<Rightarrow> py_error + string option" where
  "perpetual_order_collateral_token ex pt c =
     Inr (if pt_position_close pt then None else Some (get_collateral_token ex c))"

definition get_order_collateral_token ::
  "exchange_env \<Rightarrow> order_candidate \<Rightarrow> py_error + string option" where
  "get_order_collateral_token ex c = (case oc_perpetual c of
     None \<Rightarrow> spot_order_collateral_token c | Some pt \<Rightarrow> perpetual_order_collateral_token ex pt c)"

definition spot_order_collateral_amount ::
  "exchange_env \<Rightarrow> order_candidate \<Rightarrow> string \<Rightarrow> py_error + decimal" where
  "spot_order_collateral_amount ex c collateral_token =
     bind_err (get_size_token_and_order_size c) (\<lambda>(_, order_size).
     bind_err (get_size_collateral_price ex c collateral_token) (\<lambda>price.
       Inr (order_size * price)))"

definition perpetual_order_collateral_amount ::
  "exchange_env \<Rightarrow> perpetual_terms \<Rightarrow> order_candidate \<Rightarrow> py_error + decimal" where
  "perpetual_order_collateral_amount ex pt c =
     (if pt_position_close pt then Inr 0 else get_collateral_amount ex pt c)"

definition get_order_collateral_amount ::
  "exchange_env \<Rightarrow> order_candidate \<Rightarrow> string \<Rightarrow> py_error + decimal" where
  "get_order_collateral_amount ex c collateral_token = (case oc_perpetual c of
     None \<Rightarrow> spot_order_collateral_amount ex c collateral_token
   | Some pt \<Rightarrow> perpetual_order_collateral_amount ex pt c)"

definition populate_order_collateral_entry ::
  "exchange_env \<Rightarrow> order_candidate \<Rightarrow> py_error + order_candidate" where
  "populate_order_collateral_entry ex c =
     bind_err (get_order_collateral_token ex c) (\<lambda>tok. case tok of
         None \<Rightarrow> Inr c
       | Some t \<Rightarrow> bind_err (get_order_collateral_amount ex c t) (\<lambda>a.
           Inr (c\<lparr>oc_order_collateral := Some \<lparr>ta_token = t, ta_amount = a\<rparr>\<rparr>)))"

text \<open>The leverage is applied to a fee that is charged in the collateral token.\<close>

definition apply_leverage ::
  "perpetual_terms \<Rightarrow> order_candidate \<Rightarrow> token_amount option \<Rightarrow> py_error + token_amount option" where
  "apply_leverage pt c entry =
     (case entry of
        None \<Rightarrow> Inr None
      | Some e \<Rightarrow>
          (case oc_order_collateral c of
             None \<Rightarrow> Inl AttributeError
           | Some oc \<Rightarrow> Inr (Some (if ta_token e = ta_token oc
                                   then e\<lparr>ta_amount := ta_amount e * pt_leverage pt\<rparr> else e))))"

definition spot_populate_percent_fee_collateral_entry ::
  "exchange_env \<Rightarrow> trade_fee \<Rightarrow> order_candidate \<Rightarrow> py_error + order_candidate" where
  "spot_populate_percent_fee_collateral_entry ex fee c =
     bind_err (get_fee_impact_on_order_cost ex fee c) (\<lambda>impact. case impact of
         None \<Rightarrow> Inr c
       | Some ta \<Rightarrow> Inr (c\<lparr>oc_percent_fee_collateral := Some ta\<rparr>))"

definition perpetual_populate_percent_fee_collateral_entry ::
  "exchange_env \<Rightarrow> trade_fee \<Rightarrow> perpetual_terms \<Rightarrow> order_candidate \<Rightarrow> py_error + order_candidate" where
  "perpetual_populate_percent_fee_collateral_entry ex fee pt c =
     (if pt_position_close pt then Inr c
      else bind_err (spot_populate_percent_fee_collateral_entry ex fee c) (\<lambda>c1.
           bind_err (apply_leverage pt c1 (oc_percent_fee_collateral c1)) (\<lambda>e.
             Inr (c1\<lparr>oc_percent_fee_collateral := e\<rparr>))))"

definition populate_percent_fee_collateral_entry ::
  "exchange_env \<Rightarrow> trade_fee \<Rightarrow> order_candidate \<Rightarrow> py_error + order_candidate" where
  "populate_percent_fee_collateral_entry ex fee c = (case oc_perpetual c of
     None \<Rightarrow> spot_populate_percent_fee_collateral_entry ex fee c
   | Some pt \<Rightarrow> perpetual_populate_percent_fee_collateral_entry ex fee pt c)"

definition populate_fixed_fee_collateral_entries ::
  "trade_fee \<Rightarrow> order_candidate \<Rightarrow> order_candidate" where
  "populate_fixed_fee_collateral_entries fee c =
     c\<lparr>oc_fixed_fee_collaterals := Some (tf_flat_fees fee)\<rparr>"

definition spot_returns_token :: "order_candidate \<Rightarrow> py_error + string option" where
  "spot_returns_token c =
     bind_err (split_hb_trading_pair (oc_trading_pair c)) (\<lambda>(base, quote).
       Inr (Some (if oc_order_side c = BUY then base else quote)))"

definition perpetual_returns_token ::
  "exchange_env \<Rightarrow> perpetual_terms \<Rightarrow> order_candidate \<Rightarrow> py_error + string option" where
  "perpetual_returns_token ex pt c =
     Inr (if pt_position_close pt then Some (get_collateral_token ex c) else None)"

definition get_returns_token ::
  "exchange_env \<Rightarrow> order_candidate \<Rightarrow> py_error + string option" where
  "get_returns_token ex c = (case oc_perpetual c of
     None \<Rightarrow> spot_returns_token c | Some pt \<Rightarrow> perpetual_returns_token ex pt c)"

definition spot_returns_amount :: "order_candidate \<Rightarrow> decimal" where
  "spot_returns_amount c =
     (if oc_order_side c = BUY then oc_amount c else oc_amount c * oc_price c)"

definition perpetual_returns_amount ::
  "exchange_env \<Rightarrow> perpetual_terms \<Rightarrow> order_candidate \<Rightarrow> py_error + decimal" where
  "perpetual_returns_amount ex pt c =
     (if pt_position_close pt then get_collateral_amount ex pt c else Inr 0)"

definition get_returns_amount :: "exchange_env \<Rightarrow> order_candidate \<Rightarrow> py_error + decimal" where
  "get_returns_amount ex c = (case oc_perpetual c of
     None \<Rightarrow> Inr (spot_returns_amount c) | Some pt \<Rightarrow> perpetual_returns_amount ex pt c)"

definition populate_potential_returns_entry ::
  "exchange_env \<Rightarrow> order_candidate \<Rightarrow> py_error + order_candidate" where
  "populate_potential_returns_entry ex c =
     bind_err (get_returns_token ex c) (\<lambda>tok. case tok of
         None \<Rightarrow> Inr c
       | Some t \<Rightarrow> bind_err (get_returns_amount ex c) (\<lambda>a.
           Inr (c\<lparr>oc_potential_returns := Some \<lparr>ta_token = t, ta_amount = a\<rparr>\<rparr>)))"

definition spot_populate_percent_fee_value ::
  "exchange_env \<Rightarrow> trade_fee \<Rightarrow> order_candidate \<Rightarrow> py_error + order_candidate" where
  "spot_populate_percent_fee_value ex fee c =
     bind_err (get_fee_impact_on_order_cost ex fee c) (\<lambda>cost_impact. case cost_impact of
         Some ta \<Rightarrow> Inr (c\<lparr>oc_percent_fee_value := Some ta\<rparr>)
       | None \<Rightarrow> bind_err (get_fee_impact_on_order_returns fee c) (\<lambda>returns_impact.
           case (returns_impact, oc_potential_returns c) of
             (None, _) \<Rightarrow> Inr c
           | (Some a, None) \<Rightarrow> Inl AttributeError
           | (Some a, Some r) \<Rightarrow>
               Inr (c\<lparr>oc_percent_fee_value := Some \<lparr>ta_token = ta_token r, ta_amount = a\<rparr>\<rparr>)))"

definition perpetual_populate_percent_fee_value ::
  "exchange_env \<Rightarrow> trade_fee \<Rightarrow> perpetual_terms \<Rightarrow> order_candidate \<Rightarrow> py_error + order_candidate" where
  "perpetual_populate_percent_fee_value ex fee pt c =
     (if pt_position_close pt then Inr c
      else bind_err (spot_populate_percent_fee_value ex fee c) (\<lambda>c1.
           bind_err (apply_leverage pt c1 (oc_percent_fee_value c1)) (\<lambda>e.
             Inr (c1\<lparr>oc_percent_fee_value := e\<rparr>))))"

definition populate_percent_fee_value ::
  "exchange_env \<Rightarrow> trade_fee \<Rightarrow> order_candidate \<Rightarrow> py_error + order_candidate" where
  "populate_percent_fee_value ex fee c = (case oc_perpetual c of
     None \<Rightarrow> spot_populate_percent_fee_value ex fee c
   | Some pt \<Rightarrow> perpetual_populate_percent_fee_value ex fee pt c)"

definition apply_fee_impact_on_potential_returns ::
  "trade_fee \<Rightarrow> order_candidate \<Rightarrow> py_error + order_candidate" where
  "apply_fee_impact_on_potential_returns fee c =
     (case oc_potential_returns c of
        None \<Rightarrow> Inr c
      | Some r \<Rightarrow> bind_err (get_fee_impact_on_order_returns fee c) (\<lambda>impact. case impact of
            None \<Rightarrow> Inr c
          | Some a \<Rightarrow> Inr (c\<lparr>oc_potential_returns := Some (r\<lparr>ta_amount := ta_amount r - a\<rparr>)\<rparr>)))"

definition populate_collateral_entries ::
  "exchange_env \<Rightarrow> order_candidate \<Rightarrow> py_error + order_candidate" where
  "populate_collateral_entries ex c =
     bind_err (populate_order_collateral_entry ex c) (\<lambda>c1.
     bind_err (get_fee ex c1) (\<lambda>fee.
     bind_err (populate_percent_fee_collateral_entry ex fee c1) (\<lambda>c2.
     bind_err (populate_potential_returns_entry ex (populate_fixed_fee_collateral_entries fee c2)) (\<lambda>c3.
     bind_err (populate_percent_fee_value ex fee c3) (\<lambda>c4.
       apply_fee_impact_on_potential_returns fee c4)))))"

subsection \<open>Scaling and adjusting\<close>

definition scale_entry :: "decimal \<Rightarrow> token_amount option \<Rightarrow> token_amount option" where
  "scale_entry s = map_option (\<lambda>ta. ta\<lparr>ta_amount := ta_amount ta * s\<rparr>)"

definition scale_order :: "decimal \<Rightarrow> order_candidate \<Rightarrow> order_candidate" where
  "scale_order s c =
     (let c1 = c\<lparr>oc_amount := oc_amount c * s,
                 oc_order_collateral := scale_entry s (oc_order_collateral c),
                 oc_percent_fee_collateral := scale_entry s (oc_percent_fee_collateral c),
                 oc_percent_fee_value := scale_entry s (oc_percent_fee_value c),
                 oc_potential_returns := scale_entry s (oc_potential_returns c)\<rparr>;
          c2 = (if is_zero_order c1
                then c1\<lparr>oc_order_collateral := None, oc_percent_fee_collateral := None,
                         oc_percent_fee_value := None, oc_fixed_fee_collaterals := Some [],
                         oc_potential_returns := None\<rparr>
                else c1)
      in c2\<lparr>oc_resized := True\<rparr>)"

definition set_to_zero :: "order_candidate \<Rightarrow> order_candidate" where
  "set_to_zero c = scale_order 0 c"

text \<open>The available balances are a plain dictionary: a missing token raises \<^verbatim>\<open>KeyError\<close>.\<close>

definition balance_of :: "(string \<rightharpoonup> decimal) \<Rightarrow> string \<Rightarrow> py_error + decimal" where
  "balance_of avail t = (case avail t of None \<Rightarrow> Inl KeyError | Some b \<Rightarrow> Inr b)"

definition adjust_for_order_collateral ::
  "(string \<rightharpoonup> decimal) \<Rightarrow> order_candidate \<Rightarrow> py_error + order_candidate" where
  "adjust_for_order_collateral avail c =
     (case oc_order_collateral c of
        None \<Rightarrow> Inr c
      | Some oc \<Rightarrow> bind_err (balance_of avail (ta_token oc)) (\<lambda>b.
          if b < ta_amount oc
          then bind_err (dec_div b (ta_amount oc)) (\<lambda>s. Inr (scale_order s c)) else Inr c))"

definition adjust_for_percent_fee_collateral ::
  "(string \<rightharpoonup> decimal) \<Rightarrow> order_candidate \<Rightarrow> py_error + order_candidate" where
  "adjust_for_percent_fee_collateral avail c =
     (case oc_percent_fee_collateral c of
        None \<Rightarrow> Inr c
      | Some pfc \<Rightarrow>
          (case oc_order_collateral c of
             None \<Rightarrow> Inl AttributeError
           | Some oc \<Rightarrow>
               let amount = (if ta_token pfc = ta_token oc then ta_amount pfc + ta_amount oc
                             else ta_amount pfc) in
               bind_err (balance_of avail (ta_token pfc)) (\<lambda>b.
                 if b < amount
                 then bind_err (dec_div b amount) (\<lambda>s. Inr (scale_order s c)) else Inr c)))"

definition order_and_pf_collateral_amounts :: "order_candidate \<Rightarrow> decimal \<times> decimal" where
  "order_and_pf_collateral_amounts c =
     (let oc_amount = (case oc_order_collateral c of None \<Rightarrow> 0 | Some oc \<Rightarrow> ta_amount oc) in
      case oc_percent_fee_collateral c of
        None \<Rightarrow> (oc_amount, 0)
      | Some pfc \<Rightarrow>
          if (\<exists>oc \<in> set_option (oc_order_collateral c). ta_token pfc = ta_token oc)
          then (oc_amount + ta_amount pfc, 0) else (oc_amount, ta_amount pfc))"

text \<open>One conditional rescaling inside the loop over the fixed fees.\<close>

definition fixed_fee_rescale ::
  "string option \<Rightarrow> string \<Rightarrow> decimal \<Rightarrow> decimal \<Rightarrow> decimal \<Rightarrow> order_candidate \<Rightarrow>
   py_error + order_candidate" where
  "fixed_fee_rescale tok ffc_token available ffc_amount amount c =
     (if tok = Some ffc_token \<and> available < ffc_amount + amount
      then bind_err (dec_div (available - ffc_amount) amount) (\<lambda>s. Inr (scale_order s c))
      else Inr c)"

fun adjust_fixed_fee_loop ::
  "(string \<rightharpoonup> decimal) \<Rightarrow> string option \<Rightarrow> string option \<Rightarrow> token_amount list \<Rightarrow> order_candidate \<Rightarrow>
   py_error + order_candidate" where
  "adjust_fixed_fee_loop avail oc_token pfc_token [] c = Inr c"
| "adjust_fixed_fee_loop avail oc_token pfc_token (e # es) c =
     bind_err (balance_of avail (ta_token e)) (\<lambda>b.
       if b < ta_amount e then Inr (scale_order 0 c)
       else
         bind_err (fixed_fee_rescale oc_token (ta_token e) b (ta_amount e)
                     (fst (order_and_pf_collateral_amounts c)) c) (\<lambda>c1.
         bind_err (fixed_fee_rescale pfc_token (ta_token e) b (ta_amount e)
                     (snd (order_and_pf_collateral_amounts c1)) c1) (\<lambda>c2.
           if is_zero_order c2 then Inr c2
           else adjust_fixed_fee_loop avail oc_token pfc_token es c2)))"

definition adjust_for_fixed_fee_collaterals ::
  "(string \<rightharpoonup> decimal) \<Rightarrow> order_candidate \<Rightarrow> py_error + order_candidate" where
  "adjust_for_fixed_fee_collaterals avail c =
     (case oc_fixed_fee_collaterals c of
        None \<Rightarrow> Inl TypeError
      | Some fs \<Rightarrow> adjust_fixed_fee_loop avail (map_option ta_token (oc_order_collateral c))
                    (map_option ta_token (oc_percent_fee_collateral c)) fs c)"

definition unless_zero ::
  "(order_candidate \<Rightarrow> py_error + order_candidate) \<Rightarrow> order_candidate \<Rightarrow> py_error + order_candidate" where
  "unless_zero f c = (if is_zero_order c then Inr c else f c)"

definition adjust_from_balances ::
  "(string \<rightharpoonup> decimal) \<Rightarrow> order_candidate \<Rightarrow> py_error + order_candidate" where
  "adjust_from_balances avail c =
     bind_err (unless_zero (adjust_for_order_collateral avail) c) (\<lambda>c1.
     bind_err (unless_zero (adjust_for_percent_fee_collateral avail) c1) (\<lambda>c2.
       unless_zero (adjust_for_fixed_fee_collaterals avail) c2))"

subsection \<open>Collateral totals\<close>

text \<open>The order and percent fee collateral of a token, the part of the collateral that is scaled.\<close>

definition scaled_collateral :: "order_candidate \<Rightarrow> string \<Rightarrow> decimal" where
  "scaled_collateral c t =
     token_part t (oc_order_collateral c) + token_part t (oc_percent_fee_collateral c)"

definition fixed_fees :: "order_candidate \<Rightarrow> token_amount list" where
  "fixed_fees c = (case oc_fixed_fee_collaterals c of None \<Rightarrow> [] | Some fs \<Rightarrow> fs)"

definition total_collateral :: "order_candidate \<Rightarrow> string \<Rightarrow> decimal" where
  "total_collateral c t = scaled_collateral c t + fixed_part t (fixed_fees c)"

definition entries_nonneg :: "order_candidate \<Rightarrow> bool" where
  "entries_nonneg c \<longleftrightarrow>
     (\<forall>ta \<in> set_option (oc_order_collateral c) \<union> set_option (oc_percent_fee_collateral c)
             \<union> set (fixed_fees c). 0 \<le> ta_amount ta)"

text \<open>A candidate with nothing left holds no collateral.\<close>

definition zero_clear :: "order_candidate \<Rightarrow> bool" where
  "zero_clear c \<longleftrightarrow> (is_zero_order c \<longrightarrow>
     oc_order_collateral c = None \<and> oc_percent_fee_collateral c = None \<and> fixed_fees c = [])"

lemma token_part_scale [simp]: "token_part t (scale_entry s ta) = token_part t ta * s"
  by (cases ta) (auto simp: token_part_def scale_entry_def)

lemma token_part_nonneg:
  "(\<And>x. ta = Some x \<Longrightarrow> 0 \<le> ta_amount x) \<Longrightarrow> 0 \<le> token_part t ta"
  by (cases ta) (auto simp: token_part_def)

lemma scale_order_zero:
  assumes "oc_amount c * s = 0"
  shows "oc_order_collateral (scale_order s c) = None"
    and "oc_percent_fee_collateral (scale_order s c) = None"
    and "oc_fixed_fee_collaterals (scale_order s c) = Some []"
    and "is_zero_order (scale_order s c)"
  using assms by (simp_all add: scale_order_def is_zero_order_def Let_def)

lemma scale_order_nonzero:
  assumes "oc_amount c * s \<noteq> 0"
  shows "oc_order_collateral (scale_order s c) = scale_entry s (oc_order_collateral c)"
    and "oc_percent_fee_collateral (scale_order s c) = scale_entry s (oc_percent_fee_collateral c)"
    and "oc_fixed_fee_collaterals (scale_order s c) = oc_fixed_fee_collaterals c"
    and "\<not> is_zero_order (scale_order s c)"
  using assms by (simp_all add: scale_order_def is_zero_order_def Let_def)

lemma scale_order_terms [simp]:
  "oc_trading_pair (scale_order s c) = oc_trading_pair c"
  "oc_is_maker (scale_order s c) = oc_is_maker c"
  "oc_order_side (scale_order s c) = oc_order_side c"
  "oc_price (scale_order s c) = oc_price c"
  "oc_perpetual (scale_order s c) = oc_perpetual c"
  "oc_from_total_balances (scale_order s c) = oc_from_total_balances c"
  "oc_amount (scale_order s c) = oc_amount c * s"
  "oc_resized (scale_order s c)"
  by (simp_all add: scale_order_def Let_def)

lemma entries_nonnegD:
  assumes "entries_nonneg c"
  shows "oc_order_collateral c = Some x \<Longrightarrow> 0 \<le> ta_amount x"
    and "oc_percent_fee_collateral c = Some x \<Longrightarrow> 0 \<le> ta_amount x"
    and "x \<in> set (fixed_fees c) \<Longrightarrow> 0 \<le> ta_amount x"
  using assms by (auto simp: entries_nonneg_def)

lemma scaled_collateral_nonneg: "entries_nonneg c \<Longrightarrow> 0 \<le> scaled_collateral c t"
  unfolding scaled_collateral_def
  by (intro add_nonneg_nonneg token_part_nonneg) (auto dest: entries_nonnegD)

lemma scale_order_fixed:
  "fixed_fees (scale_order s c) = (if oc_amount c * s = 0 then [] else fixed_fees c)"
  using scale_order_zero(3)[of c s] scale_order_nonzero(3)[of c s] by (simp add: fixed_fees_def)

lemma scale_order_nonneg:
  assumes "entries_nonneg c" "0 \<le> s"
  shows "entries_nonneg (scale_order s c)"
proof (cases "oc_amount c * s = 0")
  case True
  then show ?thesis
    using scale_order_zero[OF True] by (simp add: entries_nonneg_def scale_order_fixed)
next
  case False
  then show ?thesis
    using assms scale_order_nonzero[OF False]
    by (auto simp: entries_nonneg_def scale_order_fixed scale_entry_def)
qed

lemma scale_order_clear: "zero_clear (scale_order s c)"
  using scale_order_zero[of c s] scale_order_nonzero(4)[of c s]
  by (cases "oc_amount c * s = 0") (auto simp: zero_clear_def scale_order_fixed)

lemma scaled_collateral_scale:
  "scaled_collateral (scale_order s c) t =
     (if oc_amount c * s = 0 then 0 else scaled_collateral c t * s)"
  using scale_order_zero[of c s] scale_order_nonzero[of c s]
  by (auto simp: scaled_collateral_def token_part_def[of _ None] algebra_simps)

lemma scaled_collateral_shrinks:
  assumes "entries_nonneg c" "0 \<le> s" "s \<le> 1"
  shows "scaled_collateral (scale_order s c) t \<le> scaled_collateral c t"
  using scaled_collateral_nonneg[OF assms(1), of t] assms
  by (simp add: scaled_collateral_scale scale_le)

lemma scale_entry_None [simp]: "scale_entry s None = None"
  by (simp add: scale_entry_def)

lemma scale_entry_twice [simp]: "scale_entry s (scale_entry r ta) = scale_entry (r * s) ta"
  by (cases ta) (auto simp: scale_entry_def)

lemma scale_order_twice: "scale_order s (scale_order r c) = scale_order (r * s) c"
  by (cases c) (auto simp: scale_order_def is_zero_order_def Let_def)

subsection \<open>Adjusting to the balances\<close>

definition feasible :: "(string \<rightharpoonup> decimal) \<Rightarrow> order_candidate \<Rightarrow> bool" where
  "feasible avail c \<longleftrightarrow> (\<forall>t b. avail t = Some b \<longrightarrow> total_collateral c t \<le> b)"

definition balances_nonneg :: "(string \<rightharpoonup> decimal) \<Rightarrow> bool" where
  "balances_nonneg avail \<longleftrightarrow> (\<forall>t b. avail t = Some b \<longrightarrow> 0 \<le> b)"

text \<open>
  \<open>cut_to avail c s c'\<close>: \<open>c'\<close> is the candidate \<open>c\<close> scaled by \<open>s\<close>, and no larger scale fits the
  balances.
\<close>

definition cut_to :: "(string \<rightharpoonup> decimal) \<Rightarrow> order_candidate \<Rightarrow> decimal \<Rightarrow> order_candidate \<Rightarrow> bool" where
  "cut_to avail c s c' \<longleftrightarrow> 0 \<le> s \<and> s \<le> 1 \<and> (c' = c \<and> s = 1 \<or> c' = scale_order s c) \<and>
     (\<forall>x. s < x \<and> x \<le> 1 \<longrightarrow> \<not> feasible avail (scale_order x c))"

lemma fixed_part_nonneg: "(\<And>x. x \<in> set fs \<Longrightarrow> 0 \<le> ta_amount x) \<Longrightarrow> 0 \<le> fixed_part t fs"
  by (induction fs) (auto simp: fixed_part_def)

lemma fixed_part_ge:
  "e \<in> set fs \<Longrightarrow> (\<And>x. x \<in> set fs \<Longrightarrow> 0 \<le> ta_amount x) \<Longrightarrow> ta_amount e \<le> fixed_part (ta_token e) fs"
proof (induction fs)
  case (Cons f fs)
  have "0 \<le> fixed_part (ta_token e) fs" by (rule fixed_part_nonneg) (use Cons.prems in auto)
  then show ?case using Cons by (fastforce simp: fixed_part_def)
qed simp

lemma cut_to_nonzero:
  assumes "cut_to avail c s c'" "oc_amount c \<noteq> 0" "\<not> is_zero_order c'"
  shows "0 < s" "scaled_collateral c' t = scaled_collateral c t * s" "fixed_fees c' = fixed_fees c"
proof -
  show "0 < s"
    using assms scale_order_zero(4)[of c s] by (cases "s = 0") (auto simp: cut_to_def)
  then show "scaled_collateral c' t = scaled_collateral c t * s" "fixed_fees c' = fixed_fees c"
    using assms by (auto simp: cut_to_def scaled_collateral_scale scale_order_fixed)
qed

lemma cut_to_self: "cut_to avail c 1 c"
  by (auto simp: cut_to_def)

lemma cut_to_nonneg: "cut_to avail c s c' \<Longrightarrow> entries_nonneg c \<Longrightarrow> entries_nonneg c'"
  by (auto simp: cut_to_def scale_order_nonneg)

lemma cut_to_clear: "cut_to avail c s c' \<Longrightarrow> oc_amount c \<noteq> 0 \<Longrightarrow> zero_clear c'"
  using scale_order_clear[of s c] by (auto simp: cut_to_def zero_clear_def is_zero_order_def)

text \<open>One rescaling makes the collateral of one token meet its balance exactly.\<close>

lemma cut_step:
  assumes cut: "cut_to avail c s c'" and c: "oc_amount c \<noteq> 0" "entries_nonneg c"
    and nz: "\<not> is_zero_order c'"
    and k: "k \<le> scaled_collateral c' t" and f: "f \<le> fixed_part t (fixed_fees c)"
    and b: "avail t = Some b" "f \<le> b" "b < f + k"
  shows "cut_to avail c (s * ((b - f) / k)) (scale_order ((b - f) / k) c')"
    and "0 \<le> (b - f) / k" and "(b - f) / k < 1" and "k * ((b - f) / k) = b - f"
proof -
  let ?r = "(b - f) / k"
  note nzs = cut_to_nonzero[OF cut c(1) nz]
  have kpos: "0 < k" using b by linarith
  show r0: "0 \<le> ?r" using b(2) kpos by simp
  show r1: "?r < 1" using b(3) kpos by (simp add: divide_less_eq)
  show kr: "k * ?r = b - f" using kpos by simp
  have sr: "s * ?r \<le> s" using mult_left_mono[of ?r 1 s] nzs(1) r1 by simp
  have infeasible: "\<not> feasible avail (scale_order x c)" if x: "s * ?r < x" "x \<le> 1" for x
  proof (cases "s < x")
    case True
    then show ?thesis using cut x(2) by (simp add: cut_to_def)
  next
    case False
    have x0: "0 < x" using x(1) r0 nzs(1) by (meson le_less_trans less_imp_le mult_nonneg_nonneg)
    have "k * (s * ?r) < k * x" by (rule mult_strict_left_mono[OF x(1) kpos])
    then have "(b - f) * s < k * x" using kr by (metis mult.assoc mult.commute)
    also have "k * x \<le> scaled_collateral c t * s * x" using k x0 by (simp add: nzs(2))
    finally have "b - f < scaled_collateral c t * x"
      using nzs(1) by (metis mult.assoc mult.commute mult_less_cancel_right_pos)
    then have "b < total_collateral (scale_order x c) t"
      using c(1) x0 f by (simp add: total_collateral_def scaled_collateral_scale scale_order_fixed)
    then show ?thesis using b(1) by (auto simp: feasible_def not_le)
  qed
  have "scale_order ?r c' = scale_order (s * ?r) c"
    using cut by (auto simp: cut_to_def scale_order_twice)
  moreover have "s * ?r \<le> 1" using sr cut by (simp add: cut_to_def)
  moreover have "0 \<le> s * ?r" by (rule mult_nonneg_nonneg[OF less_imp_le[OF nzs(1)] r0])
  ultimately show "cut_to avail c (s * ?r) (scale_order ?r c')"
    using infeasible unfolding cut_to_def by blast
qed

text \<open>A fixed fee above the balance of its token leaves no feasible order.\<close>

lemma cut_zero:
  assumes cut: "cut_to avail c s c'" and c: "oc_amount c \<noteq> 0" "entries_nonneg c"
    and e: "e \<in> set (fixed_fees c)" "avail (ta_token e) = Some b" "b < ta_amount e"
  shows "cut_to avail c 0 (scale_order 0 c')"
proof -
  have "\<not> feasible avail (scale_order x c)" if "0 < x" for x
  proof -
    have "ta_amount e \<le> fixed_part (ta_token e) (fixed_fees c)"
      using fixed_part_ge[OF e(1)] entries_nonnegD(3)[OF c(2)] by simp
    moreover have "0 \<le> scaled_collateral c (ta_token e) * x"
      using scaled_collateral_nonneg[OF c(2)] that by simp
    ultimately have "b < total_collateral (scale_order x c) (ta_token e)"
      using e(3) c(1) that by (simp add: total_collateral_def scaled_collateral_scale scale_order_fixed)
    then show ?thesis using e(2) by (auto simp: feasible_def not_le)
  qed
  moreover have "scale_order 0 c' = scale_order 0 c"
    using cut by (auto simp: cut_to_def scale_order_twice)
  ultimately show ?thesis by (simp add: cut_to_def)
qed

text \<open>The first two steps: the scaled collateral of every token fits its balance.\<close>

definition scaled_fits :: "(string \<rightharpoonup> decimal) \<Rightarrow> order_candidate \<Rightarrow> bool" where
  "scaled_fits avail c \<longleftrightarrow> (\<forall>t b. avail t = Some b \<longrightarrow> scaled_collateral c t \<le> b)"

lemma scaled_fits_zero: "balances_nonneg avail \<Longrightarrow> zero_clear c \<Longrightarrow> is_zero_order c \<Longrightarrow> scaled_fits avail c"
  by (auto simp: scaled_fits_def zero_clear_def scaled_collateral_def token_part_def balances_nonneg_def)

lemma order_collateral_step:
  assumes bal: "balances_nonneg avail" and c: "oc_amount c \<noteq> 0" "entries_nonneg c"
    and run: "adjust_for_order_collateral avail c = Inr c'"
  shows "\<exists>s. cut_to avail c s c'"
    and "\<And>oc b. oc_order_collateral c' = Some oc \<Longrightarrow> avail (ta_token oc) = Some b \<Longrightarrow> ta_amount oc \<le> b"
proof -
  have self: "cut_to avail c 1 c" by (rule cut_to_self)
  show cut: "\<exists>s. cut_to avail c s c'"
  proof (cases "oc_order_collateral c")
    case None
    then show ?thesis using run self by (auto simp: adjust_for_order_collateral_def)
  next
    case (Some oc)
    have "0 \<le> token_part (ta_token oc) (oc_percent_fee_collateral c)"
      by (rule token_part_nonneg) (use entries_nonnegD(2)[OF c(2)] in auto)
    then have k: "ta_amount oc \<le> scaled_collateral c (ta_token oc)"
      by (simp add: scaled_collateral_def token_part_def Some)
    have f: "0 \<le> fixed_part (ta_token oc) (fixed_fees c)"
      by (rule fixed_part_nonneg) (use entries_nonnegD(3)[OF c(2)] in auto)
    obtain b where b: "avail (ta_token oc) = Some b"
      using run Some by (auto simp: adjust_for_order_collateral_def balance_of_def split: option.splits)
    have "0 \<le> b" using bal b by (auto simp: balances_nonneg_def)
    show ?thesis
    proof (cases "b < ta_amount oc")
      case True
      then have "c' = scale_order (b / ta_amount oc) c"
        using run Some b \<open>0 \<le> b\<close>
        by (auto simp: adjust_for_order_collateral_def balance_of_def)
      then show ?thesis
        using cut_step(1)[OF self c _ k f b] True \<open>0 \<le> b\<close> c(1) by (auto simp: is_zero_order_def)
    next
      case False
      then show ?thesis
        using run Some b self by (auto simp: adjust_for_order_collateral_def balance_of_def)
    qed
  qed
  fix oc' b
  assume oc': "oc_order_collateral c' = Some oc'" and b: "avail (ta_token oc') = Some b"
  show "ta_amount oc' \<le> b"
  proof (cases "oc_order_collateral c")
    case None
    then show ?thesis using run oc' by (auto simp: adjust_for_order_collateral_def)
  next
    case (Some oc)
    then obtain b0 where b0: "avail (ta_token oc) = Some b0"
      using run by (auto simp: adjust_for_order_collateral_def balance_of_def split: option.splits)
    show ?thesis
    proof (cases "b0 < ta_amount oc")
      case True
      have "0 \<le> b0" using bal b0 by (auto simp: balances_nonneg_def)
      then have nz: "ta_amount oc \<noteq> 0" using True by simp
      have c': "c' = scale_order (b0 / ta_amount oc) c"
        using run Some b0 True nz by (simp add: adjust_for_order_collateral_def balance_of_def dec_div_def)
      then have "oc_amount c * (b0 / ta_amount oc) \<noteq> 0"
        using oc' scale_order_zero(1) by fastforce
      then have "oc' = oc\<lparr>ta_amount := ta_amount oc * (b0 / ta_amount oc)\<rparr>"
        using scale_order_nonzero(1)[of c "b0 / ta_amount oc"] oc' Some c' by (simp add: scale_entry_def)
      then show ?thesis using nz b b0 by simp
    next
      case False
      then show ?thesis
        using run Some b0 oc' b by (simp add: adjust_for_order_collateral_def balance_of_def)
    qed
  qed
qed

lemma percent_fee_step:
  assumes bal: "balances_nonneg avail" and c: "oc_amount c \<noteq> 0" "entries_nonneg c"
    and cut: "cut_to avail c s c1" and nz: "\<not> is_zero_order c1"
    and oc: "\<And>oc b. oc_order_collateral c1 = Some oc \<Longrightarrow> avail (ta_token oc) = Some b \<Longrightarrow> ta_amount oc \<le> b"
    and run: "adjust_for_percent_fee_collateral avail c1 = Inr c'"
  shows "(\<exists>s. cut_to avail c s c') \<and> scaled_fits avail c'"
proof (cases "oc_percent_fee_collateral c1")
  case None
  then have "c' = c1" using run by (simp add: adjust_for_percent_fee_collateral_def)
  moreover have "scaled_fits avail c1"
    using oc None bal
    by (auto simp: scaled_fits_def scaled_collateral_def token_part_def balances_nonneg_def split: option.split)
  ultimately show ?thesis using cut by blast
next
  case (Some pfc)
  obtain o' where o': "oc_order_collateral c1 = Some o'"
    using run Some by (auto simp: adjust_for_percent_fee_collateral_def split: option.splits)
  let ?t = "ta_token pfc"
  let ?k = "scaled_collateral c1 ?t"
  have k: "?k = (if ?t = ta_token o' then ta_amount pfc + ta_amount o' else ta_amount pfc)"
    by (simp add: scaled_collateral_def token_part_def o' Some)
  obtain b where b: "avail ?t = Some b"
    using run Some o' by (auto simp: adjust_for_percent_fee_collateral_def balance_of_def Let_def
        split: option.splits)
  have b0: "0 \<le> b" using bal b by (auto simp: balances_nonneg_def)
  have other: "scaled_collateral c1 t \<le> b'" if "avail t = Some b'" "t \<noteq> ?t" for t b'
    using oc[OF o'] bal that
    by (auto simp: scaled_collateral_def token_part_def o' Some balances_nonneg_def)
  have c1: "entries_nonneg c1" by (rule cut_to_nonneg[OF cut c(2)])
  show ?thesis
  proof (cases "b < ?k")
    case True
    have c': "c' = scale_order (b / ?k) c1"
      using run Some o' b True b0 by (auto simp: adjust_for_percent_fee_collateral_def balance_of_def k Let_def)
    have f: "0 \<le> fixed_part ?t (fixed_fees c)"
      by (rule fixed_part_nonneg) (use entries_nonnegD(3)[OF c(2)] in auto)
    note step = cut_step[OF cut c nz order_refl f b b0, simplified, OF True]
    have "scaled_collateral c' t \<le> b'" if "avail t = Some b'" for t b'
    proof (cases "t = ?t")
      case True
      then show ?thesis using step(4) that b b0 by (simp add: c' scaled_collateral_scale)
    next
      case False
      then show ?thesis
        using other[OF that False] scaled_collateral_shrinks[OF c1 step(2), of t] step(3)
        by (simp add: c')
    qed
    then show ?thesis using step(1) by (auto simp: scaled_fits_def c')
  next
    case False
    then have "c' = c1"
      using run Some o' b by (auto simp: adjust_for_percent_fee_collateral_def balance_of_def k Let_def
          split: if_splits)
    moreover have "scaled_collateral c1 t \<le> b'" if "avail t = Some b'" for t b'
      using False b other[OF that] that by (cases "t = ?t") auto
    ultimately show ?thesis using cut by (auto simp: scaled_fits_def)
  qed
qed

text \<open>
  The two rescalings for one fixed fee amount to a single one that makes the scaled collateral of
  its token and the fee meet the balance.
\<close>

lemma amounts_order_token:
  assumes "oc_order_collateral c = Some oc"
  shows "fst (order_and_pf_collateral_amounts c) = scaled_collateral c (ta_token oc)"
  using assms
  by (auto simp: order_and_pf_collateral_amounts_def scaled_collateral_def token_part_def Let_def
      split: option.split)

lemma amounts_pf_token:
  assumes "oc_percent_fee_collateral c = Some pfc"
  shows "snd (order_and_pf_collateral_amounts c) =
           (if map_option ta_token (oc_order_collateral c) = Some (ta_token pfc) then 0
            else scaled_collateral c (ta_token pfc))"
  using assms
  by (auto simp: order_and_pf_collateral_amounts_def scaled_collateral_def token_part_def Let_def
      split: option.split)

lemma amounts_zero:
  "oc_order_collateral c = None \<Longrightarrow> oc_percent_fee_collateral c = None \<Longrightarrow>
   order_and_pf_collateral_amounts c = (0, 0)"
  by (simp add: order_and_pf_collateral_amounts_def Let_def)

lemma scaled_tokens:
  assumes "\<not> is_zero_order (scale_order s c)"
  shows "map_option ta_token (oc_order_collateral (scale_order s c)) =
           map_option ta_token (oc_order_collateral c)"
    and "map_option ta_token (oc_percent_fee_collateral (scale_order s c)) =
           map_option ta_token (oc_percent_fee_collateral c)"
proof -
  have "oc_amount c * s \<noteq> 0" using assms by (simp add: is_zero_order_def)
  from scale_order_nonzero(1,2)[OF this]
  show "map_option ta_token (oc_order_collateral (scale_order s c)) =
          map_option ta_token (oc_order_collateral c)"
    and "map_option ta_token (oc_percent_fee_collateral (scale_order s c)) =
          map_option ta_token (oc_percent_fee_collateral c)"
    by (simp_all add: scale_entry_def option.map_comp comp_def)
qed

lemma combined_pf_amount:
  assumes "map_option ta_token (oc_order_collateral c) = Some t"
    and "map_option ta_token (oc_percent_fee_collateral c) = Some t"
  shows "snd (order_and_pf_collateral_amounts (scale_order s c)) = 0"
proof (cases "is_zero_order (scale_order s c)")
  case True
  then have "oc_amount c * s = 0" by (simp add: is_zero_order_def)
  then show ?thesis by (simp add: amounts_zero scale_order_zero)
next
  case False
  then obtain pfc where "oc_percent_fee_collateral (scale_order s c) = Some pfc" "ta_token pfc = t"
    using scaled_tokens(2)[OF False] assms(2) by auto
  then show ?thesis using amounts_pf_token scaled_tokens(1)[OF False] assms(1) by simp
qed


lemma fixed_fee_step:
  assumes nn: "entries_nonneg c" and f: "0 \<le> f" "f \<le> b"
    and otok: "otok = map_option ta_token (oc_order_collateral c)"
    and ptok: "ptok = map_option ta_token (oc_percent_fee_collateral c)"
  shows "bind_err (fixed_fee_rescale otok t b f (fst (order_and_pf_collateral_amounts c)) c) (\<lambda>c1.
           fixed_fee_rescale ptok t b f (snd (order_and_pf_collateral_amounts c1)) c1) =
         Inr (if b < f + scaled_collateral c t
              then scale_order ((b - f) / scaled_collateral c t) c else c)"
proof (cases "otok = Some t")
  case True
  then obtain oc where oc: "oc_order_collateral c = Some oc" "ta_token oc = t" using otok by auto
  have fst: "fst (order_and_pf_collateral_amounts c) = scaled_collateral c t"
    using amounts_order_token[OF oc(1)] oc(2) by simp
  have second: "fixed_fee_rescale ptok t b f (snd (order_and_pf_collateral_amounts c1)) c1 = Inr c1"
    if c1: "c1 = c \<or> c1 = scale_order s c" for c1 s
  proof (cases "ptok = Some t")
    case pt: True
    have "snd (order_and_pf_collateral_amounts c) = 0"
      using amounts_pf_token[of c] pt True otok ptok by auto
    moreover have "snd (order_and_pf_collateral_amounts (scale_order s c)) = 0"
      by (rule combined_pf_amount) (use pt True otok ptok in auto)
    ultimately have "snd (order_and_pf_collateral_amounts c1) = 0" using c1 by auto
    then show ?thesis using f by (simp add: fixed_fee_rescale_def)
  qed (simp add: fixed_fee_rescale_def)
  show ?thesis
  proof (cases "b < f + scaled_collateral c t")
    case lt: True
    then have "scaled_collateral c t \<noteq> 0" using f by auto
    then have "fixed_fee_rescale otok t b f (scaled_collateral c t) c =
                 Inr (scale_order ((b - f) / scaled_collateral c t) c)"
      using lt True by (simp add: fixed_fee_rescale_def dec_div_def)
    then show ?thesis using lt by (simp add: fst second[OF disjI2[OF refl]])
  next
    case False
    then have "fixed_fee_rescale otok t b f (scaled_collateral c t) c = Inr c"
      by (simp add: fixed_fee_rescale_def)
    then show ?thesis using False by (simp add: fst second[OF disjI1[OF refl]])
  qed
next
  case False
  then have first: "fixed_fee_rescale otok t b f a c = Inr c" for a by (simp add: fixed_fee_rescale_def)
  show ?thesis
  proof (cases "ptok = Some t")
    case True
    then obtain pfc where pfc: "oc_percent_fee_collateral c = Some pfc" "ta_token pfc = t"
      using ptok by auto
    have snd: "snd (order_and_pf_collateral_amounts c) = scaled_collateral c t"
      using amounts_pf_token[OF pfc(1)] pfc(2) False otok by auto
    show ?thesis
    proof (cases "b < f + scaled_collateral c t")
      case lt: True
      then have "scaled_collateral c t \<noteq> 0" using f by auto
      then show ?thesis
        using lt True by (simp add: first snd) (simp add: fixed_fee_rescale_def dec_div_def)
    next
      case False
      then show ?thesis using True by (simp add: first snd) (simp add: fixed_fee_rescale_def)
    qed
  next
    case pt: False
    have "scaled_collateral c t = 0"
      using False pt otok ptok by (auto simp: scaled_collateral_def token_part_def split: option.split)
    then show ?thesis using f pt by (simp add: first fixed_fee_rescale_def[of ptok])
  qed
qed


definition fee_fits :: "(string \<rightharpoonup> decimal) \<Rightarrow> order_candidate \<Rightarrow> token_amount \<Rightarrow> bool" where
  "fee_fits avail c e \<longleftrightarrow>
     (\<forall>b. avail (ta_token e) = Some b \<longrightarrow> scaled_collateral c (ta_token e) + ta_amount e \<le> b)"

lemma fee_fits_shrinks:
  "fee_fits avail c e \<Longrightarrow> scaled_collateral c' (ta_token e) \<le> scaled_collateral c (ta_token e) \<Longrightarrow>
   fee_fits avail c' e"
  by (force simp: fee_fits_def)

lemma scaled_fits_shrinks:
  "scaled_fits avail c \<Longrightarrow> (\<And>t. scaled_collateral c' t \<le> scaled_collateral c t) \<Longrightarrow> scaled_fits avail c'"
  unfolding scaled_fits_def using order_trans by blast

lemma fixed_fee_loop:
  assumes c: "oc_amount c \<noteq> 0" "entries_nonneg c"
  shows "adjust_fixed_fee_loop avail otok ptok es c1 = Inr c' \<Longrightarrow> cut_to avail c s c1 \<Longrightarrow>
         \<not> is_zero_order c1 \<Longrightarrow> set es \<subseteq> set (fixed_fees c) \<Longrightarrow>
         otok = map_option ta_token (oc_order_collateral c1) \<Longrightarrow>
         ptok = map_option ta_token (oc_percent_fee_collateral c1) \<Longrightarrow>
         scaled_fits avail c1 \<Longrightarrow> (\<forall>e \<in> set (fixed_fees c) - set es. fee_fits avail c1 e) \<Longrightarrow>
         (\<exists>s'. cut_to avail c s' c') \<and>
         (is_zero_order c' \<or> scaled_fits avail c' \<and> (\<forall>e \<in> set (fixed_fees c). fee_fits avail c' e))"
proof (induction es arbitrary: c1 s)
  case Nil
  then show ?case by auto
next
  case (Cons e es)
  let ?t = "ta_token e" and ?f = "ta_amount e"
  have e: "e \<in> set (fixed_fees c)" using Cons.prems(4) by simp
  obtain b where b: "avail ?t = Some b"
    using Cons.prems(1) by (auto simp: balance_of_def split: option.splits)
  note cut = Cons.prems(2) and nz = Cons.prems(3)
  have nn: "entries_nonneg c1" by (rule cut_to_nonneg[OF cut c(2)])
  have f0: "0 \<le> ?f" by (rule entries_nonnegD(3)[OF c(2) e])
  show ?case
  proof (cases "b < ?f")
    case True
    then have "c' = scale_order 0 c1" using Cons.prems(1) b by (simp add: balance_of_def)
    then show ?thesis using cut_zero[OF cut c e b True] by (auto simp: is_zero_order_def)
  next
    case False
    define c3 where "c3 = (if b < ?f + scaled_collateral c1 ?t
                           then scale_order ((b - ?f) / scaled_collateral c1 ?t) c1 else c1)"
    have run: "(if is_zero_order c3 then Inr c3 else adjust_fixed_fee_loop avail otok ptok es c3) = Inr c'"
    proof -
      let ?k = "\<lambda>c2. if is_zero_order c2 then Inr c2 else adjust_fixed_fee_loop avail otok ptok es c2"
      have "bind_err (bind_err (fixed_fee_rescale otok ?t b ?f (fst (order_and_pf_collateral_amounts c1)) c1)
              (\<lambda>c1. fixed_fee_rescale ptok ?t b ?f (snd (order_and_pf_collateral_amounts c1)) c1)) ?k = Inr c'"
        using Cons.prems(1) b False by (simp add: balance_of_def bind_err_assoc)
      moreover have "bind_err (fixed_fee_rescale otok ?t b ?f (fst (order_and_pf_collateral_amounts c1)) c1)
              (\<lambda>c1. fixed_fee_rescale ptok ?t b ?f (snd (order_and_pf_collateral_amounts c1)) c1) = Inr c3"
        unfolding c3_def by (rule fixed_fee_step[OF nn f0 _ Cons.prems(5,6)]) (use False in simp)
      ultimately show ?thesis by simp
    qed
    have step: "(\<exists>s'. cut_to avail c s' c3) \<and> (\<forall>t. scaled_collateral c3 t \<le> scaled_collateral c1 t) \<and>
                (\<not> is_zero_order c3 \<longrightarrow> fee_fits avail c3 e)"
    proof (cases "b < ?f + scaled_collateral c1 ?t")
      case lt: True
      have f: "?f \<le> fixed_part ?t (fixed_fees c)"
        by (rule fixed_part_ge[OF e]) (rule entries_nonnegD(3)[OF c(2)])
      note cs = cut_step[OF cut c nz order_refl f b _ lt] 
      have fb: "?f \<le> b" using False by simp
      have c3: "c3 = scale_order ((b - ?f) / scaled_collateral c1 ?t) c1" using lt by (simp add: c3_def)
      have "fee_fits avail c3 e" if "\<not> is_zero_order c3"
        using that cs(4)[OF fb] b by (auto simp: fee_fits_def c3 scaled_collateral_scale is_zero_order_def)
      then show ?thesis
        using cs(1)[OF fb] scaled_collateral_shrinks[OF nn cs(2)[OF fb] less_imp_le[OF cs(3)[OF fb]]]
        by (auto simp: c3)
    next
      case ge: False
      then show ?thesis using cut b by (auto simp: c3_def fee_fits_def)
    qed
    show ?thesis
    proof (cases "is_zero_order c3")
      case True
      then show ?thesis using run step by auto
    next
      case nz3: False
      obtain s' where cut3: "cut_to avail c s' c3" using step by blast
      have toks: "otok = map_option ta_token (oc_order_collateral c3)"
                 "ptok = map_option ta_token (oc_percent_fee_collateral c3)"
        using Cons.prems(5,6) nz3 scaled_tokens[of _ c1] by (auto simp: c3_def split: if_splits)
      have "\<forall>e' \<in> set (fixed_fees c) - set es. fee_fits avail c3 e'"
        using Cons.prems(8) step nz3 fee_fits_shrinks[of avail c1 _ c3] by (metis Diff_iff set_ConsD)
      then show ?thesis
        using Cons.IH[OF _ cut3 nz3 _ toks] run nz3 Cons.prems(4,7) step
          scaled_fits_shrinks[of avail c1 c3] by auto
    qed
  qed
qed


lemma fixed_fee_loop_total:
  assumes "entries_nonneg c" "fst ` (\<lambda>e. (ta_token e, ta_amount e)) ` set es \<subseteq> dom avail"
    and "\<And>e. e \<in> set es \<Longrightarrow> 0 \<le> ta_amount e"
    and "otok = map_option ta_token (oc_order_collateral c)"
    and "ptok = map_option ta_token (oc_percent_fee_collateral c)"
  shows "\<exists>c'. adjust_fixed_fee_loop avail otok ptok es c = Inr c'"
  using assms
proof (induction es arbitrary: c)
  case (Cons e es)
  then obtain b where b: "avail (ta_token e) = Some b" by auto
  show ?case
  proof (cases "b < ta_amount e")
    case True
    then show ?thesis using b by (simp add: balance_of_def)
  next
    case False
    let ?k = "\<lambda>c2. if is_zero_order c2 then Inr c2 else adjust_fixed_fee_loop avail otok ptok es c2"
    let ?sc = "scaled_collateral c (ta_token e)"
    define c3 where "c3 = (if b < ta_amount e + ?sc then scale_order ((b - ta_amount e) / ?sc) c else c)"
    have f0: "0 \<le> ta_amount e" using Cons.prems(3) by simp
    have "adjust_fixed_fee_loop avail otok ptok (e # es) c =
          bind_err (bind_err (fixed_fee_rescale otok (ta_token e) b (ta_amount e)
                                (fst (order_and_pf_collateral_amounts c)) c)
            (\<lambda>c1. fixed_fee_rescale ptok (ta_token e) b (ta_amount e)
                    (snd (order_and_pf_collateral_amounts c1)) c1)) ?k"
      using b False by (simp add: balance_of_def bind_err_assoc)
    also have "\<dots> = ?k c3"
      using fixed_fee_step[OF Cons.prems(1) f0 _ Cons.prems(4,5), of b "ta_token e"] False
      by (simp add: c3_def)
    finally have run: "adjust_fixed_fee_loop avail otok ptok (e # es) c = ?k c3" .
    show ?thesis
    proof (cases "is_zero_order c3")
      case True
      then show ?thesis unfolding run by simp
    next
      case nz: False
      have nn: "entries_nonneg c3"
        using Cons.prems(1) False scaled_collateral_nonneg[OF Cons.prems(1), of "ta_token e"]
        by (auto simp: c3_def intro!: scale_order_nonneg)
      have toks: "otok = map_option ta_token (oc_order_collateral c3)"
                 "ptok = map_option ta_token (oc_percent_fee_collateral c3)"
        using Cons.prems(4,5) nz scaled_tokens[of _ c] by (auto simp: c3_def split: if_splits)
      have "\<exists>c'. adjust_fixed_fee_loop avail otok ptok es c3 = Inr c'"
        by (rule Cons.IH[OF nn _ _ toks]) (use Cons.prems(2,3) in auto)
      then show ?thesis using nz by (simp only: run if_False)
    qed
  qed
qed simp

text \<open>The balances name every token the candidate has a collateral in.\<close>

definition collateral_tokens :: "order_candidate \<Rightarrow> string set" where
  "collateral_tokens c = ta_token ` (set_option (oc_order_collateral c)
     \<union> set_option (oc_percent_fee_collateral c) \<union> set (fixed_fees c))"

text \<open>The shape \<^verbatim>\<open>populate_collateral_entries\<close> leaves: fixed fees set, a percent fee next to an order collateral.\<close>

definition populated :: "order_candidate \<Rightarrow> bool" where
  "populated c \<longleftrightarrow> oc_fixed_fee_collaterals c \<noteq> None \<and>
     (oc_percent_fee_collateral c \<noteq> None \<longrightarrow> oc_order_collateral c \<noteq> None)"

lemma fixed_part_distinct:
  "distinct (map ta_token fs) \<Longrightarrow> e \<in> set fs \<Longrightarrow> fixed_part (ta_token e) fs = ta_amount e"
  unfolding fixed_part_def by (rule sum_key_distinct)

lemma fixed_part_other: "t \<notin> ta_token ` set fs \<Longrightarrow> fixed_part t fs = 0"
  unfolding fixed_part_def by (rule sum_key_none)

lemma feasibleI:
  assumes "distinct (map ta_token (fixed_fees c))" "scaled_fits avail c"
    and "\<forall>e \<in> set (fixed_fees c). fee_fits avail c e"
  shows "feasible avail c"
  unfolding feasible_def
proof (intro allI impI)
  fix t b assume b: "avail t = Some b"
  show "total_collateral c t \<le> b"
  proof (cases "t \<in> ta_token ` set (fixed_fees c)")
    case True
    then show ?thesis
      using assms(1,3) b by (auto simp: total_collateral_def fixed_part_distinct fee_fits_def)
  next
    case False
    then show ?thesis
      using assms(2) b by (simp add: total_collateral_def fixed_part_other scaled_fits_def)
  qed
qed

lemma feasible_zero: "balances_nonneg avail \<Longrightarrow> zero_clear c \<Longrightarrow> is_zero_order c \<Longrightarrow> feasible avail c"
  by (auto simp: feasible_def total_collateral_def zero_clear_def scaled_collateral_def token_part_def
      fixed_part_def balances_nonneg_def)


lemma order_collateral_total:
  assumes "balances_nonneg avail" "collateral_tokens c \<subseteq> dom avail"
  shows "\<exists>c'. adjust_for_order_collateral avail c = Inr c'"
proof (cases "oc_order_collateral c")
  case (Some oc)
  then obtain b where b: "avail (ta_token oc) = Some b" using assms(2) by (auto simp: collateral_tokens_def)
  then have "0 \<le> b" using assms(1) by (auto simp: balances_nonneg_def)
  then show ?thesis
    using Some b by (cases "ta_amount oc = 0") (auto simp: adjust_for_order_collateral_def balance_of_def dec_div_def)
qed (simp add: adjust_for_order_collateral_def)

lemma percent_fee_total:
  assumes "balances_nonneg avail" "collateral_tokens c \<subseteq> dom avail"
    and "oc_percent_fee_collateral c \<noteq> None \<Longrightarrow> oc_order_collateral c \<noteq> None"
  shows "\<exists>c'. adjust_for_percent_fee_collateral avail c = Inr c'"
proof (cases "oc_percent_fee_collateral c")
  case (Some pfc)
  then obtain oc b where oc: "oc_order_collateral c = Some oc" and b: "avail (ta_token pfc) = Some b"
    using assms(2,3) by (auto simp: collateral_tokens_def)
  let ?a = "if ta_token pfc = ta_token oc then ta_amount pfc + ta_amount oc else ta_amount pfc"
  have "0 \<le> b" using assms(1) b by (auto simp: balances_nonneg_def)
  then have "?a = 0 \<Longrightarrow> \<not> b < ?a" by simp
  then show ?thesis
    using Some oc b by (cases "?a = 0") (auto simp: adjust_for_percent_fee_collateral_def balance_of_def
        dec_div_def Let_def)
qed (simp add: adjust_for_percent_fee_collateral_def)

text \<open>Scaling loses no entry the totality of the later steps needs.\<close>

lemma cut_shape:
  assumes "cut_to avail c s c'" "populated c" "collateral_tokens c \<subseteq> dom avail"
  shows "populated c'" "collateral_tokens c' \<subseteq> dom avail"
proof -
  have "populated (scale_order s c) \<and> collateral_tokens (scale_order s c) \<subseteq> dom avail"
  proof (cases "oc_amount c * s = 0")
    case True
    then show ?thesis
      by (simp add: populated_def collateral_tokens_def scale_order_zero scale_order_fixed)
  next
    case False
    then show ?thesis
      using assms(2,3) scale_order_nonzero(1-3)[OF False]
      by (auto simp: populated_def collateral_tokens_def scale_order_fixed scale_entry_def)
  qed
  then show "populated c'" "collateral_tokens c' \<subseteq> dom avail" using assms by (auto simp: cut_to_def)
qed

text \<open>The three steps one after another.\<close>

lemma percent_fee_unless_zero:
  assumes bal: "balances_nonneg avail" and c: "oc_amount c \<noteq> 0" "entries_nonneg c" "populated c"
    "collateral_tokens c \<subseteq> dom avail" and cut: "cut_to avail c s c1"
    and oc: "\<And>oc b. oc_order_collateral c1 = Some oc \<Longrightarrow> avail (ta_token oc) = Some b \<Longrightarrow> ta_amount oc \<le> b"
  shows "\<exists>s2 c2. unless_zero (adjust_for_percent_fee_collateral avail) c1 = Inr c2 \<and>
                 cut_to avail c s2 c2 \<and> scaled_fits avail c2"
proof (cases "is_zero_order c1")
  case True
  then show ?thesis
    using cut scaled_fits_zero[OF bal cut_to_clear[OF cut c(1)]] by (auto simp: unless_zero_def)
next
  case False
  note shape = cut_shape[OF cut c(3,4)]
  obtain c2 where c2: "adjust_for_percent_fee_collateral avail c1 = Inr c2"
    using percent_fee_total[OF bal shape(2)] shape(1) by (auto simp: populated_def)
  show ?thesis
    using percent_fee_step[OF bal c(1,2) cut False oc c2] c2 False by (auto simp: unless_zero_def)
qed

lemma fixed_fees_unless_zero:
  assumes bal: "balances_nonneg avail" and c: "oc_amount c \<noteq> 0" "entries_nonneg c" "populated c"
    "collateral_tokens c \<subseteq> dom avail" "distinct (map ta_token (fixed_fees c))"
    and cut: "cut_to avail c s c2" and fits: "scaled_fits avail c2"
  shows "\<exists>s3 c3. unless_zero (adjust_for_fixed_fee_collaterals avail) c2 = Inr c3 \<and>
                 cut_to avail c s3 c3 \<and> feasible avail c3"
proof (cases "is_zero_order c2")
  case True
  then show ?thesis
    using cut feasible_zero[OF bal cut_to_clear[OF cut c(1)]] by (auto simp: unless_zero_def)
next
  case False
  note shape = cut_shape[OF cut c(3,4)]
  have fs: "fixed_fees c2 = fixed_fees c" by (rule cut_to_nonzero(3)[OF cut c(1) False])
  let ?loop = "adjust_fixed_fee_loop avail (map_option ta_token (oc_order_collateral c2))
                 (map_option ta_token (oc_percent_fee_collateral c2)) (fixed_fees c) c2"
  have run: "unless_zero (adjust_for_fixed_fee_collaterals avail) c2 = ?loop"
    using False shape(1) fs
    by (auto simp: unless_zero_def adjust_for_fixed_fee_collaterals_def populated_def fixed_fees_def)
  have "\<exists>c3. ?loop = Inr c3"
    by (rule fixed_fee_loop_total[OF cut_to_nonneg[OF cut c(2)] _ _ refl refl])
      (use c(4) entries_nonnegD(3)[OF c(2)] in \<open>auto simp: collateral_tokens_def\<close>)
  then obtain c3 where c3: "?loop = Inr c3" by blast
  from fixed_fee_loop[OF c(1,2) c3 cut False order_refl refl refl fits] obtain s3 where
    s3: "cut_to avail c s3 c3" and
    out: "is_zero_order c3 \<or> scaled_fits avail c3 \<and> (\<forall>e \<in> set (fixed_fees c). fee_fits avail c3 e)"
    by auto
  have "feasible avail c3"
  proof (cases "is_zero_order c3")
    case True
    then show ?thesis by (rule feasible_zero[OF bal cut_to_clear[OF s3 c(1)]])
  next
    case False
    then show ?thesis
      using out c(5) cut_to_nonzero(3)[OF s3 c(1) False] by (auto intro: feasibleI)
  qed
  then show ?thesis using s3 c3 run by auto
qed

lemma adjust_cuts:
  assumes "balances_nonneg avail" "oc_amount c \<noteq> 0" "entries_nonneg c" "populated c"
    "collateral_tokens c \<subseteq> dom avail" "distinct (map ta_token (fixed_fees c))"
  shows "\<exists>s c'. adjust_from_balances avail c = Inr c' \<and> cut_to avail c s c' \<and> feasible avail c'"
proof -
  obtain c1 where c1: "adjust_for_order_collateral avail c = Inr c1"
    using order_collateral_total[OF assms(1,5)] by blast
  note first = order_collateral_step[OF assms(1-3) c1]
  obtain s1 where s1: "cut_to avail c s1 c1" using first(1) by blast
  obtain s2 c2 where c2: "unless_zero (adjust_for_percent_fee_collateral avail) c1 = Inr c2"
    "cut_to avail c s2 c2" "scaled_fits avail c2"
    using percent_fee_unless_zero[OF assms(1-5) s1 first(2)] by blast
  then show ?thesis
    using fixed_fees_unless_zero[OF assms c2(2,3)] c1 assms(2)
    by (auto simp: adjust_from_balances_def unless_zero_def[of "adjust_for_order_collateral avail"]
        is_zero_order_def[of c])
qed

text \<open>
  C14: adjusting a populated candidate to balances that name all its collateral tokens (balances,
  order collateral and fees not negative, at most one flat fee per token) never fails, its result is
  the candidate scaled by a factor between 0 and 1 whose order collateral, percent fee and flat fees
  together fit the balance of every token, and no larger factor up to 1 gives an order that fits.
\<close>

theorem adjust_from_balances_greatest:
  assumes "balances_nonneg avail" "oc_amount c \<noteq> 0" "entries_nonneg c" "populated c"
    "collateral_tokens c \<subseteq> dom avail" "distinct (map ta_token (fixed_fees c))"
  shows "\<exists>s c'. adjust_from_balances avail c = Inr c' \<and> 0 \<le> s \<and> s \<le> 1 \<and>
           (c' = c \<and> s = 1 \<or> c' = scale_order s c) \<and> feasible avail c' \<and>
           (\<forall>x. s < x \<longrightarrow> x \<le> 1 \<longrightarrow> \<not> feasible avail (scale_order x c))"
proof -
  from adjust_cuts[OF assms] obtain s c' where
    "adjust_from_balances avail c = Inr c'" "cut_to avail c s c'" "feasible avail c'" by blast
  then show ?thesis unfolding cut_to_def by metis
qed

definition sample_candidate :: order_candidate where
  "sample_candidate = (new_order_candidate ''ETH-USDT'' True LIMIT BUY 10 20 False None)
     \<lparr>oc_order_collateral := Some \<lparr>ta_token = ''USDT'', ta_amount = 200\<rparr>,
      oc_percent_fee_collateral := Some \<lparr>ta_token = ''USDT'', ta_amount = 2\<rparr>,
      oc_fixed_fee_collaterals := Some [\<lparr>ta_token = ''USDT'', ta_amount = 1\<rparr>]\<rparr>"

definition sample_balances :: "string \<rightharpoonup> decimal" where
  "sample_balances = [''USDT'' \<mapsto> 102]"

lemma sample_candidate_ok:
  "balances_nonneg sample_balances" "oc_amount sample_candidate \<noteq> 0" "entries_nonneg sample_candidate"
  "populated sample_candidate" "collateral_tokens sample_candidate \<subseteq> dom sample_balances"
  "distinct (map ta_token (fixed_fees sample_candidate))"
  by (auto simp: balances_nonneg_def sample_balances_def sample_candidate_def new_order_candidate_def
      entries_nonneg_def populated_def collateral_tokens_def fixed_fees_def)

lemma adjust_from_balances_greatest_witness:
  "\<exists>s c'. adjust_from_balances sample_balances sample_candidate = Inr c' \<and> 0 \<le> s \<and> s \<le> 1 \<and>
           (c' = sample_candidate \<and> s = 1 \<or> c' = scale_order s sample_candidate) \<and>
           feasible sample_balances c' \<and>
           (\<forall>x. s < x \<longrightarrow> x \<le> 1 \<longrightarrow> \<not> feasible sample_balances (scale_order x sample_candidate))"
  by (rule adjust_from_balances_greatest) (fact sample_candidate_ok)+

end
