(* ===== verification/Budget_Checker.thy ===== *)
theory Budget_Checker
  imports Order_Candidate
begin

text \<open>
  \<^verbatim>\<open>connector/budget_checker.py\<close> and \<^verbatim>\<open>connector/derivative/perpetual_budget_checker.py\<close>: sizing the
  orders a strategy proposes so that together they stay within the account's balances.

  The state of a checker is its exchange and the collateral it has locked so far, a default
  dictionary (a total function with default zero).  \<^verbatim>\<open>populate_collateral_entries\<close> works on a copy of the
  candidate, so the candidates given are values here.  The locale \<open>collateral_adjuster\<close> is the contract
  between sizing one candidate and locking the collateral of many; it is interpreted on the spot and
  on the perpetual checker.
\<close>

record budget_checker =
  bc_exchange :: exchange_env
  bc_locked :: "string \<Rightarrow> decimal"

definition new_budget_checker :: "exchange_env \<Rightarrow> budget_checker" where
  "new_budget_checker ex = \<lparr>bc_exchange = ex, bc_locked = (\<lambda>_. 0)\<rparr>"

text \<open>\<open>is_perpetual_trading\<close>: whether the exchange implements the \<^verbatim>\<open>PerpetualTrading\<close> interface.\<close>

definition validate_perpetual_connector :: "bool \<Rightarrow> py_error + unit" where
  "validate_perpetual_connector is_perpetual_trading =
     (if \<not> is_perpetual_trading then Inl TypeError else Inr ())"

definition new_perpetual_budget_checker :: "bool \<Rightarrow> exchange_env \<Rightarrow> py_error + budget_checker" where
  "new_perpetual_budget_checker is_perpetual_trading ex =
     bind_err (validate_perpetual_connector is_perpetual_trading) (\<lambda>_. Inr (new_budget_checker ex))"

definition reset_locked_collateral :: "budget_checker \<Rightarrow> budget_checker" where
  "reset_locked_collateral bc = bc\<lparr>bc_locked := (\<lambda>_. 0)\<rparr>"

definition balance_fn :: "exchange_env \<Rightarrow> order_candidate \<Rightarrow> string \<Rightarrow> decimal" where
  "balance_fn ex c =
     (if \<not> oc_from_total_balances c then ex_available_balance ex else ex_balance ex)"

definition note_balance ::
  "budget_checker \<Rightarrow> order_candidate \<Rightarrow> token_amount \<Rightarrow> (string \<rightharpoonup> decimal) \<Rightarrow> (string \<rightharpoonup> decimal)" where
  "note_balance bc c ta m =
     m(ta_token ta \<mapsto> balance_fn (bc_exchange bc) c (ta_token ta) - bc_locked bc (ta_token ta))"

definition get_available_balances ::
  "budget_checker \<Rightarrow> order_candidate \<Rightarrow> py_error + (string \<rightharpoonup> decimal)" where
  "get_available_balances bc c =
     (let m1 = (case oc_order_collateral c of None \<Rightarrow> Map.empty | Some ta \<Rightarrow> note_balance bc c ta Map.empty);
          m2 = (case oc_percent_fee_collateral c of None \<Rightarrow> m1 | Some ta \<Rightarrow> note_balance bc c ta m1)
      in case oc_fixed_fee_collaterals c of
           None \<Rightarrow> Inl TypeError
         | Some fs \<Rightarrow> Inr (fold (note_balance bc c) fs m2))"

definition quantize_adjusted_order ::
  "budget_checker \<Rightarrow> order_candidate \<Rightarrow> py_error + order_candidate" where
  "quantize_adjusted_order bc c =
     (let quantized_amount = ex_quantize_order_amount (bc_exchange bc) (oc_trading_pair c) (oc_amount c)
      in if oc_amount c \<noteq> quantized_amount
         then populate_collateral_entries (bc_exchange bc) (c\<lparr>oc_amount := quantized_amount\<rparr>)
         else Inr c)"

definition adjust_candidate ::
  "budget_checker \<Rightarrow> bool \<Rightarrow> order_candidate \<Rightarrow> py_error + order_candidate" where
  "adjust_candidate bc all_or_none c =
     bind_err (populate_collateral_entries (bc_exchange bc) c) (\<lambda>c1.
     bind_err (get_available_balances bc c1) (\<lambda>avail.
     bind_err (adjust_from_balances avail c1) (\<lambda>c2.
       if oc_resized c2
       then (if all_or_none then Inr (set_to_zero c2) else quantize_adjusted_order bc c2)
       else Inr c2)))"

text \<open>The two versions of \<^verbatim>\<open>_lock_available_collateral\<close>.\<close>

definition lock_available_collateral ::
  "order_candidate \<Rightarrow> budget_checker \<Rightarrow> py_error + budget_checker" where
  "lock_available_collateral c bc =
     bind_err (collateral_dict c) (\<lambda>cd. Inr (bc\<lparr>bc_locked := (\<lambda>t. bc_locked bc t + cd t)\<rparr>))"

definition perpetual_lock_available_collateral ::
  "order_candidate \<Rightarrow> budget_checker \<Rightarrow> py_error + budget_checker" where
  "perpetual_lock_available_collateral c bc =
     (case oc_perpetual c of
        None \<Rightarrow> Inl AttributeError
      | Some pt \<Rightarrow> if \<not> pt_position_close pt then lock_available_collateral c bc else Inr bc)"

text \<open>
  The operations that lock take the version of \<^verbatim>\<open>_lock_available_collateral\<close> of the checker's class.
\<close>

definition adjust_candidate_and_lock_available_collateral ::
  "(order_candidate \<Rightarrow> budget_checker \<Rightarrow> py_error + budget_checker) \<Rightarrow> bool \<Rightarrow> order_candidate \<Rightarrow>
   budget_checker \<Rightarrow> py_error + (order_candidate \<times> budget_checker)" where
  "adjust_candidate_and_lock_available_collateral lock all_or_none c bc =
     bind_err (adjust_candidate bc all_or_none c) (\<lambda>c'.
     bind_err (lock c' bc) (\<lambda>bc'. Inr (c', bc')))"

fun adjust_candidates_loop ::
  "(order_candidate \<Rightarrow> budget_checker \<Rightarrow> py_error + budget_checker) \<Rightarrow> bool \<Rightarrow> order_candidate list \<Rightarrow>
   budget_checker \<Rightarrow> py_error + (order_candidate list \<times> budget_checker)" where
  "adjust_candidates_loop lock all_or_none [] bc = Inr ([], bc)"
| "adjust_candidates_loop lock all_or_none (c # cs) bc =
     bind_err (adjust_candidate_and_lock_available_collateral lock all_or_none c bc) (\<lambda>(c', bc1).
     bind_err (adjust_candidates_loop lock all_or_none cs bc1) (\<lambda>(cs', bc2). Inr (c' # cs', bc2)))"

definition adjust_candidates ::
  "(order_candidate \<Rightarrow> budget_checker \<Rightarrow> py_error + budget_checker) \<Rightarrow> bool \<Rightarrow> order_candidate list \<Rightarrow>
   budget_checker \<Rightarrow> py_error + (order_candidate list \<times> budget_checker)" where
  "adjust_candidates lock all_or_none cs bc =
     bind_err (adjust_candidates_loop lock all_or_none cs (reset_locked_collateral bc)) (\<lambda>(cs', bc').
       Inr (cs', reset_locked_collateral bc'))"

subsection \<open>The collateral is linear in the amount\<close>

text \<open>The candidate has not been through a checker before.\<close>

definition fresh_candidate :: "order_candidate \<Rightarrow> bool" where
  "fresh_candidate c \<longleftrightarrow> oc_order_collateral c = None \<and> oc_percent_fee_collateral c = None \<and>
     oc_percent_fee_value c = None \<and> oc_fixed_fee_collaterals c = None \<and>
     oc_potential_returns c = None \<and> \<not> oc_resized c"

definition same_terms :: "order_candidate \<Rightarrow> order_candidate \<Rightarrow> bool" where
  "same_terms c d \<longleftrightarrow> oc_trading_pair d = oc_trading_pair c \<and> oc_is_maker d = oc_is_maker c \<and>
     oc_order_side d = oc_order_side c \<and> oc_price d = oc_price c \<and> oc_perpetual d = oc_perpetual c"

text \<open>\<open>d\<close> is \<open>c\<close> at \<open>r\<close> times the amount, with collateral in proportion.\<close>

definition scaled_copy :: "decimal \<Rightarrow> order_candidate \<Rightarrow> order_candidate \<Rightarrow> bool" where
  "scaled_copy r c d \<longleftrightarrow> same_terms c d \<and> oc_amount d = oc_amount c * r \<and>
     oc_order_collateral d = scale_entry r (oc_order_collateral c) \<and>
     oc_percent_fee_collateral d = scale_entry r (oc_percent_fee_collateral c)"

lemmas candidate_flow = populate_order_collateral_entry_def get_order_collateral_token_def
  get_order_collateral_amount_def spot_order_collateral_token_def spot_order_collateral_amount_def
  perpetual_order_collateral_token_def perpetual_order_collateral_amount_def

lemma flip_order_side_simps [simp]:
  "oc_trading_pair (flip_order_side c) = oc_trading_pair c"
  "oc_amount (flip_order_side c) = oc_amount c" "oc_price (flip_order_side c) = oc_price c"
  "oc_order_side (flip_order_side c) = (if oc_order_side c = SELL then BUY else SELL)"
  by (simp_all add: flip_order_side_def)

lemma size_scaled:
  assumes "same_terms c d" "oc_amount d = oc_amount c * r"
    and "get_size_token_and_order_size c = Inr (tok, sz)"
  shows "get_size_token_and_order_size d = Inr (tok, sz * r)"
  using assms by (auto simp: same_terms_def get_size_token_and_order_size_def bind_err_eq_Inr split: if_splits)

lemma collateral_token_same: "same_terms c d \<Longrightarrow> get_collateral_token ex d = get_collateral_token ex c"
  by (simp add: same_terms_def get_collateral_token_def)

lemma price_same:
  assumes "same_terms c d" "get_size_collateral_price ex c t = Inr p"
  shows "get_size_collateral_price ex d t = Inr p"
  using assms
  by (auto simp: same_terms_def get_size_collateral_price_def get_size_token_and_order_size_def
      bind_err_eq_Inr split: if_splits)


lemma collateral_amount_scaled:
  assumes st: "same_terms c d" "oc_amount d = oc_amount c * r"
    and a: "get_collateral_amount ex pt c = Inr a"
  shows "get_collateral_amount ex pt d = Inr (a * r)"
proof -
  let ?f = "\<lambda>c. if pt_position_close pt then flip_order_side c else c"
  obtain tok sz p where sz: "get_size_token_and_order_size (?f c) = Inr (tok, sz)"
    and p: "get_size_collateral_price ex c (get_collateral_token ex c) = Inr p"
    and a': "dec_div (sz * p) (pt_leverage pt) = Inr a"
    using a by (auto simp: get_collateral_amount_def bind_err_eq_Inr)
  have "same_terms (?f c) (?f d)" using st(1) by (simp add: same_terms_def flip_order_side_def)
  from size_scaled[OF this _ sz] have "get_size_token_and_order_size (?f d) = Inr (tok, sz * r)"
    using st(2) by simp
  moreover have "dec_div (sz * r * p) (pt_leverage pt) = Inr (a * r)"
    using a' by (auto simp: dec_div_def split: if_splits)
  ultimately show ?thesis
    using price_same[OF st(1) p] by (simp add: get_collateral_amount_def collateral_token_same[OF st(1)])
qed

lemma order_amount_scaled:
  assumes st: "same_terms c d" "oc_amount d = oc_amount c * r"
    and a: "get_order_collateral_amount ex c t = Inr a"
  shows "get_order_collateral_amount ex d t = Inr (a * r)"
proof (cases "oc_perpetual c")
  case None
  then obtain tok sz p where sz: "get_size_token_and_order_size c = Inr (tok, sz)"
    and p: "get_size_collateral_price ex c t = Inr p" and a': "a = sz * p"
    using a by (auto simp: get_order_collateral_amount_def spot_order_collateral_amount_def bind_err_eq_Inr)
  show ?thesis
    using size_scaled[OF st sz] price_same[OF st(1) p] None a' st(1)
    by (simp add: get_order_collateral_amount_def spot_order_collateral_amount_def same_terms_def)
next
  case (Some pt)
  then show ?thesis
    using a collateral_amount_scaled[OF st] st(1)
    by (auto simp: get_order_collateral_amount_def perpetual_order_collateral_amount_def same_terms_def
        split: if_splits)
qed

lemma order_token_same: "same_terms c d \<Longrightarrow> get_order_collateral_token ex d = get_order_collateral_token ex c"
  using collateral_token_same[of c d ex]
  by (auto simp: get_order_collateral_token_def spot_order_collateral_token_def
      perpetual_order_collateral_token_def same_terms_def split: option.split)

lemma order_entry_scaled:
  assumes st: "same_terms c d" "oc_amount d = oc_amount c * r"
    and run: "populate_order_collateral_entry ex c = Inr c1"
  shows "(c1 = c \<and> populate_order_collateral_entry ex d = Inr d \<and> get_order_collateral_token ex c = Inr None) \<or>
         (\<exists>ta. c1 = c\<lparr>oc_order_collateral := Some ta\<rparr> \<and>
               populate_order_collateral_entry ex d = Inr (d\<lparr>oc_order_collateral := scale_entry r (Some ta)\<rparr>))"
proof -
  obtain tok where tok: "get_order_collateral_token ex c = Inr tok"
    using run by (auto simp: populate_order_collateral_entry_def bind_err_eq_Inr)
  show ?thesis
  proof (cases tok)
    case None
    then show ?thesis
      using run tok order_token_same[OF st(1), of ex] by (auto simp: populate_order_collateral_entry_def)
  next
    case (Some t)
    then obtain a where a: "get_order_collateral_amount ex c t = Inr a"
      and c1: "c1 = c\<lparr>oc_order_collateral := Some \<lparr>ta_token = t, ta_amount = a\<rparr>\<rparr>"
      using run tok by (auto simp: populate_order_collateral_entry_def bind_err_eq_Inr)
    show ?thesis
      using order_amount_scaled[OF st a] tok Some order_token_same[OF st(1), of ex]
      by (auto simp: populate_order_collateral_entry_def c1 scale_entry_def)
  qed
qed

text \<open>The cost impact of a fee and, with it, the percent fee entry.\<close>

lemma size_fee_scaled:
  assumes st: "same_terms c d" "oc_amount d = oc_amount c * r"
    and a: "size_fee_amount ex fee t c = Inr a"
  shows "size_fee_amount ex fee t d = Inr (a * r)"
proof -
  obtain tok sz where sz: "get_size_token_and_order_size c = Inr (tok, sz)"
    using a by (auto simp: size_fee_amount_def bind_err_eq_Inr)
  show ?thesis using a sz size_scaled[OF st sz] by (auto simp: size_fee_amount_def Let_def)
qed

lemma fee_token_scaled:
  "oc_order_collateral d = scale_entry r (oc_order_collateral c) \<Longrightarrow> impact_fee_token fee d = impact_fee_token fee c"
  by (auto simp: impact_fee_token_def scale_entry_def split: option.split list.split)

lemma impact_scaled:
  assumes st: "same_terms c d" "oc_amount d = oc_amount c * r"
    and oc: "oc_order_collateral d = scale_entry r (oc_order_collateral c)"
    and x: "get_fee_impact_on_order_cost ex fee c = Inr x"
  shows "get_fee_impact_on_order_cost ex fee d = Inr (scale_entry r x)"
proof (cases "tf_class fee = DeductedFromReturns \<or> tf_percent fee = 0")
  case True
  then show ?thesis using x by (auto simp: get_fee_impact_on_order_cost_def split: fee_class.splits)
next
  case False
  then have cls: "tf_class fee = AddedToCost" "tf_percent fee \<noteq> 0" by (cases "tf_class fee"; simp)+
  let ?amount = "\<lambda>c t. case oc_order_collateral c of None \<Rightarrow> size_fee_amount ex fee t c
     | Some oc \<Rightarrow> if t \<noteq> ta_token oc then size_fee_amount ex fee t c else Inr (ta_amount oc * tf_percent fee)"
  obtain t a where t: "impact_fee_token fee c = Inr t" and a: "?amount c t = Inr a"
    and x': "x = Some \<lparr>ta_token = t, ta_amount = a\<rparr>"
    using x cls by (auto simp: get_fee_impact_on_order_cost_def bind_err_eq_Inr)
  have "?amount d t = Inr (a * r)"
    using a oc size_fee_scaled[OF st]
    by (cases "oc_order_collateral c") (auto simp: scale_entry_def split: if_splits)
  then show ?thesis
    using cls t fee_token_scaled[OF oc] by (simp add: get_fee_impact_on_order_cost_def x' scale_entry_def)
qed

lemma fee_same: "same_terms c d \<Longrightarrow> get_fee ex d = get_fee ex c"
  by (simp add: get_fee_def spot_get_fee_def perpetual_get_fee_def same_terms_def split: option.split)


lemma percent_entry_scaled:
  assumes st: "same_terms c d" "oc_amount d = oc_amount c * r"
    and oc: "oc_order_collateral d = scale_entry r (oc_order_collateral c)"
    and fresh: "oc_percent_fee_collateral c = None"
    and run: "populate_percent_fee_collateral_entry ex fee c = Inr c1"
    and run': "populate_percent_fee_collateral_entry ex fee d = Inr d1"
    and none: "oc_percent_fee_collateral c1 = None \<Longrightarrow> oc_percent_fee_collateral d = None"
  shows "scaled_copy r c1 d1"
proof -
  have perp: "oc_perpetual d = oc_perpetual c" using st(1) by (simp add: same_terms_def)
  have self: "scaled_copy r c d" if "oc_percent_fee_collateral d = None"
    using st oc fresh that by (simp add: scaled_copy_def)
  have super: "spot_populate_percent_fee_collateral_entry ex fee d =
      Inr (case x of None \<Rightarrow> d | Some ta \<Rightarrow> d\<lparr>oc_percent_fee_collateral := scale_entry r (Some ta)\<rparr>) \<and>
      spot_populate_percent_fee_collateral_entry ex fee c =
      Inr (case x of None \<Rightarrow> c | Some ta \<Rightarrow> c\<lparr>oc_percent_fee_collateral := Some ta\<rparr>)"
    if "get_fee_impact_on_order_cost ex fee c = Inr x" for x
    using that impact_scaled[OF st oc that]
    by (auto simp: spot_populate_percent_fee_collateral_entry_def scale_entry_def split: option.split)
  show ?thesis
  proof (cases "oc_perpetual c")
    case None
    then obtain x where x: "get_fee_impact_on_order_cost ex fee c = Inr x"
      using run by (auto simp: populate_percent_fee_collateral_entry_def
          spot_populate_percent_fee_collateral_entry_def bind_err_eq_Inr)
    show ?thesis
      using run run' none None perp super[OF x] st oc fresh
      by (cases x) (auto simp: populate_percent_fee_collateral_entry_def scaled_copy_def same_terms_def)
  next
    case (Some pt)
    show ?thesis
    proof (cases "pt_position_close pt")
      case True
      then have "c1 = c" "d1 = d"
        using run run' Some perp by (auto simp: populate_percent_fee_collateral_entry_def
            perpetual_populate_percent_fee_collateral_entry_def)
      then show ?thesis using none fresh self by simp
    next
      case False
      then obtain x where x: "get_fee_impact_on_order_cost ex fee c = Inr x"
        using run Some by (auto simp: populate_percent_fee_collateral_entry_def
            perpetual_populate_percent_fee_collateral_entry_def
            spot_populate_percent_fee_collateral_entry_def bind_err_eq_Inr)
      show ?thesis
        using run run' none Some False perp super[OF x] st oc fresh
        by (cases x) (auto simp: populate_percent_fee_collateral_entry_def apply_leverage_def
            perpetual_populate_percent_fee_collateral_entry_def scaled_copy_def same_terms_def
            scale_entry_def bind_err_eq_Inr split: option.splits)
    qed
  qed
qed

text \<open>The entries the later steps of populating leave alone.\<close>

definition collateral_core where
  "collateral_core c = (oc_trading_pair c, oc_is_maker c, oc_order_side c, oc_amount c, oc_price c,
     oc_perpetual c, oc_order_collateral c, oc_percent_fee_collateral c, oc_fixed_fee_collaterals c,
     oc_resized c, oc_from_total_balances c)"

lemma returns_entry_core: "populate_potential_returns_entry ex c = Inr c' \<Longrightarrow> collateral_core c' = collateral_core c"
  by (auto simp: populate_potential_returns_entry_def bind_err_eq_Inr collateral_core_def split: option.splits)

lemma spot_fee_value_core:
  assumes "spot_populate_percent_fee_value ex fee c = Inr c'"
  shows "collateral_core c' = collateral_core c"
proof -
  obtain cost where cost: "get_fee_impact_on_order_cost ex fee c = Inr cost"
    using assms by (auto simp: spot_populate_percent_fee_value_def bind_err_eq_Inr)
  show ?thesis
  proof (cases cost)
    case None
    then obtain ret where "get_fee_impact_on_order_returns fee c = Inr ret"
      using assms cost by (auto simp: spot_populate_percent_fee_value_def bind_err_eq_Inr)
    then show ?thesis
      using assms cost None
      by (cases ret; cases "oc_potential_returns c")
        (auto simp: spot_populate_percent_fee_value_def collateral_core_def)
  next
    case (Some ta)
    then show ?thesis
      using assms cost by (auto simp: spot_populate_percent_fee_value_def collateral_core_def)
  qed
qed

lemma fee_value_core:
  assumes "populate_percent_fee_value ex fee c = Inr c'"
  shows "collateral_core c' = collateral_core c"
proof (cases "oc_perpetual c")
  case None
  then show ?thesis using assms spot_fee_value_core by (simp add: populate_percent_fee_value_def)
next
  case (Some pt)
  then have run: "perpetual_populate_percent_fee_value ex fee pt c = Inr c'"
    using assms by (simp add: populate_percent_fee_value_def)
  show ?thesis
  proof (cases "pt_position_close pt")
    case False
    then obtain c1 e where "spot_populate_percent_fee_value ex fee c = Inr c1"
      "c' = c1\<lparr>oc_percent_fee_value := e\<rparr>"
      using run by (auto simp: perpetual_populate_percent_fee_value_def bind_err_eq_Inr)
    then show ?thesis using spot_fee_value_core[of ex fee c c1] by (simp add: collateral_core_def)
  qed (use run in \<open>simp add: perpetual_populate_percent_fee_value_def\<close>)
qed

lemma fee_impact_core: "apply_fee_impact_on_potential_returns fee c = Inr c' \<Longrightarrow> collateral_core c' = collateral_core c"
  by (auto simp: apply_fee_impact_on_potential_returns_def bind_err_eq_Inr collateral_core_def
      split: option.splits)

lemma populate_steps:
  assumes "populate_collateral_entries ex c = Inr c'"
  obtains c1 fee c2 where "populate_order_collateral_entry ex c = Inr c1" "get_fee ex c1 = Inr fee"
    "populate_percent_fee_collateral_entry ex fee c1 = Inr c2"
    "collateral_core c' = collateral_core (populate_fixed_fee_collateral_entries fee c2)"
proof -
  obtain c1 fee c2 c3 c4 where
    "populate_order_collateral_entry ex c = Inr c1" "get_fee ex c1 = Inr fee"
    "populate_percent_fee_collateral_entry ex fee c1 = Inr c2"
    "populate_potential_returns_entry ex (populate_fixed_fee_collateral_entries fee c2) = Inr c3"
    "populate_percent_fee_value ex fee c3 = Inr c4" "apply_fee_impact_on_potential_returns fee c4 = Inr c'"
    using assms by (auto simp: populate_collateral_entries_def bind_err_eq_Inr)
  then show thesis
    using that returns_entry_core fee_value_core fee_impact_core by metis
qed

text \<open>Populating again at another amount gives the collateral in proportion.\<close>

lemma populate_scaled:
  assumes c: "fresh_candidate c" "populate_collateral_entries ex c = Inr c'"
    and d: "same_terms c d" "oc_amount d = oc_amount c * r" "populate_collateral_entries ex d = Inr d'"
    and none: "oc_order_collateral c' = None \<Longrightarrow> oc_order_collateral d = None"
      "oc_percent_fee_collateral c' = None \<Longrightarrow> oc_percent_fee_collateral d = None"
  shows "scaled_copy r c' d' \<and> fixed_fees d' = fixed_fees c'"
proof -
  obtain c1 fee c2 where c1: "populate_order_collateral_entry ex c = Inr c1" "get_fee ex c1 = Inr fee"
    "populate_percent_fee_collateral_entry ex fee c1 = Inr c2"
    "collateral_core c' = collateral_core (populate_fixed_fee_collateral_entries fee c2)"
    using populate_steps[OF c(2)] .
  obtain d1 fee' d2 where d1: "populate_order_collateral_entry ex d = Inr d1" "get_fee ex d1 = Inr fee'"
    "populate_percent_fee_collateral_entry ex fee' d1 = Inr d2"
    "collateral_core d' = collateral_core (populate_fixed_fee_collateral_entries fee' d2)"
    using populate_steps[OF d(3)] .
  have pfc: "oc_percent_fee_collateral c1 = None" "oc_percent_fee_collateral d1 = oc_percent_fee_collateral d"
    using c(1) c1(1) d1(1) by (auto simp: fresh_candidate_def populate_order_collateral_entry_def
        bind_err_eq_Inr split: option.splits)
  have oc2: "oc_order_collateral c2 = oc_order_collateral c1"
    using c1(3) by (auto simp: populate_percent_fee_collateral_entry_def
        perpetual_populate_percent_fee_collateral_entry_def spot_populate_percent_fee_collateral_entry_def
        bind_err_eq_Inr split: option.splits if_splits)
  have "same_terms c1 d1 \<and> oc_amount d1 = oc_amount c1 * r \<and>
        oc_order_collateral d1 = scale_entry r (oc_order_collateral c1)"
    using order_entry_scaled[OF d(1,2) c1(1)] d1(1) d(1,2) none(1) c(1) c1(4) oc2
    by (auto simp: same_terms_def fresh_candidate_def collateral_core_def
        populate_fixed_fee_collateral_entries_def)
  then have st: "same_terms c1 d1" "oc_amount d1 = oc_amount c1 * r"
    "oc_order_collateral d1 = scale_entry r (oc_order_collateral c1)" by blast+
  have fee: "fee' = fee" using fee_same[OF st(1), of ex] c1(2) d1(2) by simp
  have "scaled_copy r c2 d2"
    by (rule percent_entry_scaled[OF st pfc(1) c1(3) d1(3)[unfolded fee]])
      (use c1(4) none(2) pfc(2) in \<open>auto simp: collateral_core_def populate_fixed_fee_collateral_entries_def\<close>)
  then show ?thesis
    using c1(4) d1(4) fee
    by (auto simp: scaled_copy_def same_terms_def collateral_core_def fixed_fees_def
        populate_fixed_fee_collateral_entries_def)
qed


subsection \<open>Populated candidates\<close>

text \<open>What a checker may rely on: fees and prices are not negative, rounding an amount does not raise it.\<close>

definition schema_ok :: "trade_fee_schema \<Rightarrow> bool" where
  "schema_ok s \<longleftrightarrow> 0 \<le> fs_maker_percent_fee_decimal s \<and> 0 \<le> fs_taker_percent_fee_decimal s \<and>
     (\<forall>ta \<in> set (fs_maker_fixed_fees s) \<union> set (fs_taker_fixed_fees s). 0 \<le> ta_amount ta) \<and>
     distinct (map ta_token (fs_maker_fixed_fees s)) \<and> distinct (map ta_token (fs_taker_fixed_fees s))"

definition exchange_ok :: "exchange_env \<Rightarrow> bool" where
  "exchange_ok ex \<longleftrightarrow> schema_ok (ex_fee_schema ex) \<and> (\<forall>p b. 0 \<le> ex_get_price ex p b) \<and>
     (\<forall>tp a. 0 \<le> a \<longrightarrow> 0 \<le> ex_quantize_order_amount ex tp a \<and> ex_quantize_order_amount ex tp a \<le> a)"

definition terms_ok :: "order_candidate \<Rightarrow> bool" where
  "terms_ok c \<longleftrightarrow> 0 \<le> oc_amount c \<and> 0 < oc_price c \<and>
     (\<forall>pt \<in> set_option (oc_perpetual c). 0 < pt_leverage pt)"

definition candidate_ok :: "order_candidate \<Rightarrow> bool" where
  "candidate_ok c \<longleftrightarrow> fresh_candidate c \<and> terms_ok c \<and> 0 < oc_amount c"

lemma dec_div_nonneg: "dec_div a b = Inr q \<Longrightarrow> 0 \<le> a \<Longrightarrow> 0 < b \<Longrightarrow> 0 \<le> q"
  by (auto simp: dec_div_def split: if_splits)

lemma size_nonneg:
  "terms_ok c \<Longrightarrow> get_size_token_and_order_size c = Inr (tok, sz) \<Longrightarrow> 0 \<le> sz"
  by (auto simp: terms_ok_def get_size_token_and_order_size_def bind_err_eq_Inr split: if_splits)

lemma collateral_price_nonneg:
  assumes "exchange_ok ex" "terms_ok c" "get_size_collateral_price ex c t = Inr p"
  shows "0 \<le> p"
  using assms dec_div_nonneg[of 1 "oc_price c" p]
  by (auto simp: terms_ok_def get_size_collateral_price_def exchange_ok_def bind_err_eq_Inr split: if_splits)

lemma collateral_amount_nonneg:
  assumes ok: "exchange_ok ex" "terms_ok c" and pt: "0 < pt_leverage pt"
    and run: "get_collateral_amount ex pt c = Inr a"
  shows "0 \<le> a"
proof -
  let ?c = "if pt_position_close pt then flip_order_side c else c"
  obtain tok sz p where sz: "get_size_token_and_order_size ?c = Inr (tok, sz)"
    and p: "get_size_collateral_price ex c (get_collateral_token ex c) = Inr p"
    and a: "dec_div (sz * p) (pt_leverage pt) = Inr a"
    using run by (auto simp: get_collateral_amount_def bind_err_eq_Inr)
  have "terms_ok ?c" using ok(2) by (simp add: terms_ok_def flip_order_side_def)
  from size_nonneg[OF this sz] collateral_price_nonneg[OF ok p] show ?thesis
    using dec_div_nonneg[OF a _ pt] by simp
qed

lemma order_amount_nonneg:
  assumes ok: "exchange_ok ex" "terms_ok c" and run: "get_order_collateral_amount ex c t = Inr a"
  shows "0 \<le> a"
proof (cases "oc_perpetual c")
  case None
  then obtain tok sz p where sz: "get_size_token_and_order_size c = Inr (tok, sz)"
    and p: "get_size_collateral_price ex c t = Inr p" and a: "a = sz * p"
    using run by (auto simp: get_order_collateral_amount_def spot_order_collateral_amount_def bind_err_eq_Inr)
  show ?thesis using size_nonneg[OF ok(2) sz] collateral_price_nonneg[OF ok p] by (simp add: a)
next
  case (Some pt)
  then show ?thesis
    using run ok collateral_amount_nonneg[OF ok, of pt a]
    by (auto simp: get_order_collateral_amount_def perpetual_order_collateral_amount_def terms_ok_def
        split: if_splits)
qed

lemma get_fee_ok:
  assumes "exchange_ok ex" "get_fee ex c = Inr fee"
  shows "0 \<le> tf_percent fee" "\<forall>ta \<in> set (tf_flat_fees fee). 0 \<le> ta_amount ta"
    "distinct (map ta_token (tf_flat_fees fee))"
  using assms
  by (auto simp: exchange_ok_def schema_ok_def get_fee_def spot_get_fee_def perpetual_get_fee_def
      build_trade_fee_def build_perpetual_trade_fee_def new_spot_fee_def new_perpetual_fee_def
      bind_err_eq_Inr split: option.splits if_splits)

lemma size_fee_nonneg:
  assumes "exchange_ok ex" "terms_ok c" "0 \<le> tf_percent fee" "size_fee_amount ex fee t c = Inr a"
  shows "0 \<le> a"
  using assms size_nonneg[OF assms(2)]
  by (auto simp: size_fee_amount_def exchange_ok_def Let_def bind_err_eq_Inr)

lemma impact_nonneg:
  assumes ok: "exchange_ok ex" "terms_ok c" "0 \<le> tf_percent fee"
    and oc: "\<And>oc. oc_order_collateral c = Some oc \<Longrightarrow> 0 \<le> ta_amount oc"
    and run: "get_fee_impact_on_order_cost ex fee c = Inr (Some ta)"
  shows "0 \<le> ta_amount ta"
proof -
  let ?amount = "\<lambda>c t. case oc_order_collateral c of None \<Rightarrow> size_fee_amount ex fee t c
     | Some oc \<Rightarrow> if t \<noteq> ta_token oc then size_fee_amount ex fee t c else Inr (ta_amount oc * tf_percent fee)"
  obtain t a where a: "?amount c t = Inr a" and ta: "ta = \<lparr>ta_token = t, ta_amount = a\<rparr>"
    using run by (auto simp: get_fee_impact_on_order_cost_def bind_err_eq_Inr split: fee_class.splits if_splits)
  have "0 \<le> a"
    using a oc size_fee_nonneg[OF ok, of t a] ok(3)
    by (cases "oc_order_collateral c") (auto split: if_splits)
  then show ?thesis by (simp add: ta)
qed

lemma order_entry_ok:
  assumes ok: "exchange_ok ex" "terms_ok c" "oc_order_collateral c = None"
    and run: "populate_order_collateral_entry ex c = Inr c1"
  shows "\<exists>e. c1 = c\<lparr>oc_order_collateral := e\<rparr> \<and> (\<forall>ta \<in> set_option e. 0 \<le> ta_amount ta) \<and>
             (e = None \<longrightarrow> (\<exists>pt. oc_perpetual c = Some pt \<and> pt_position_close pt))"
proof -
  obtain tok where tok: "get_order_collateral_token ex c = Inr tok"
    using run by (auto simp: populate_order_collateral_entry_def bind_err_eq_Inr)
  show ?thesis
  proof (cases tok)
    case None
    then have "\<exists>pt. oc_perpetual c = Some pt \<and> pt_position_close pt"
      using tok by (auto simp: get_order_collateral_token_def spot_order_collateral_token_def
          perpetual_order_collateral_token_def bind_err_eq_Inr split: option.splits if_splits)
    then show ?thesis
      using run tok None ok(3) by (auto simp: populate_order_collateral_entry_def intro!: exI[of _ None])
  next
    case (Some t)
    then obtain a where a: "get_order_collateral_amount ex c t = Inr a"
      and c1: "c1 = c\<lparr>oc_order_collateral := Some \<lparr>ta_token = t, ta_amount = a\<rparr>\<rparr>"
      using run tok by (auto simp: populate_order_collateral_entry_def bind_err_eq_Inr)
    then show ?thesis
      using order_amount_nonneg[OF ok(1,2) a] by (intro exI[of _ "Some \<lparr>ta_token = t, ta_amount = a\<rparr>"]) simp
  qed
qed

lemma spot_percent_entry_ok:
  assumes ok: "exchange_ok ex" "terms_ok c" "0 \<le> tf_percent fee" "oc_percent_fee_collateral c = None"
    and oc: "\<And>oc. oc_order_collateral c = Some oc \<Longrightarrow> 0 \<le> ta_amount oc"
    and run: "spot_populate_percent_fee_collateral_entry ex fee c = Inr c1"
  shows "\<exists>e. c1 = c\<lparr>oc_percent_fee_collateral := e\<rparr> \<and> (\<forall>ta \<in> set_option e. 0 \<le> ta_amount ta)"
proof -
  obtain x where x: "get_fee_impact_on_order_cost ex fee c = Inr x"
    using run by (auto simp: spot_populate_percent_fee_collateral_entry_def bind_err_eq_Inr)
  then have "c1 = c\<lparr>oc_percent_fee_collateral := x\<rparr>"
    using run ok(4) by (cases x) (auto simp: spot_populate_percent_fee_collateral_entry_def)
  then show ?thesis using impact_nonneg[OF ok(1-3) oc] x by (intro exI[of _ x]) auto
qed

lemma percent_entry_ok:
  assumes ok: "exchange_ok ex" "terms_ok c" "0 \<le> tf_percent fee" "oc_percent_fee_collateral c = None"
    and oc: "\<And>oc. oc_order_collateral c = Some oc \<Longrightarrow> 0 \<le> ta_amount oc"
    and oc': "oc_order_collateral c = None \<Longrightarrow> \<exists>pt. oc_perpetual c = Some pt \<and> pt_position_close pt"
    and run: "populate_percent_fee_collateral_entry ex fee c = Inr c1"
  shows "\<exists>e. c1 = c\<lparr>oc_percent_fee_collateral := e\<rparr> \<and> (\<forall>ta \<in> set_option e. 0 \<le> ta_amount ta) \<and>
             (e \<noteq> None \<longrightarrow> oc_order_collateral c \<noteq> None)"
proof (cases "oc_perpetual c")
  case None
  then show ?thesis
    using run spot_percent_entry_ok[OF ok oc] oc' by (auto simp: populate_percent_fee_collateral_entry_def)
next
  case (Some pt)
  then have run': "perpetual_populate_percent_fee_collateral_entry ex fee pt c = Inr c1"
    using run by (simp add: populate_percent_fee_collateral_entry_def)
  show ?thesis
  proof (cases "pt_position_close pt")
    case True
    then show ?thesis
      using run' ok(4) by (intro exI[of _ None]) (simp add: perpetual_populate_percent_fee_collateral_entry_def)
  next
    case False
    then obtain c2 e where c2: "spot_populate_percent_fee_collateral_entry ex fee c = Inr c2"
      and e: "apply_leverage pt c2 (oc_percent_fee_collateral c2) = Inr e"
      and c1: "c1 = c2\<lparr>oc_percent_fee_collateral := e\<rparr>"
      using run' by (auto simp: perpetual_populate_percent_fee_collateral_entry_def bind_err_eq_Inr)
    obtain e2 where e2: "c2 = c\<lparr>oc_percent_fee_collateral := e2\<rparr>" "\<forall>ta \<in> set_option e2. 0 \<le> ta_amount ta"
      using spot_percent_entry_ok[OF ok oc c2] by blast
    have "0 \<le> pt_leverage pt" using ok(2) Some by (simp add: terms_ok_def)
    then have "\<forall>ta \<in> set_option e. 0 \<le> ta_amount ta"
      using e e2 by (auto simp: apply_leverage_def split: option.splits if_splits)
    then show ?thesis using c1 e2(1) oc' Some False by (intro exI[of _ e]) auto
  qed
qed

lemma populate_ok:
  assumes ok: "exchange_ok ex" "terms_ok c" "oc_order_collateral c = None" "oc_percent_fee_collateral c = None"
    and run: "populate_collateral_entries ex c = Inr c'"
  shows "entries_nonneg c' \<and> populated c' \<and> distinct (map ta_token (fixed_fees c')) \<and>
         same_terms c c' \<and> oc_amount c' = oc_amount c \<and> oc_resized c' = oc_resized c \<and>
         oc_from_total_balances c' = oc_from_total_balances c"
proof -
  obtain c1 fee c2 where c1: "populate_order_collateral_entry ex c = Inr c1" "get_fee ex c1 = Inr fee"
    "populate_percent_fee_collateral_entry ex fee c1 = Inr c2"
    "collateral_core c' = collateral_core (populate_fixed_fee_collateral_entries fee c2)"
    using populate_steps[OF run] .
  obtain e where e: "c1 = c\<lparr>oc_order_collateral := e\<rparr>" "\<forall>ta \<in> set_option e. 0 \<le> ta_amount ta"
    "e = None \<longrightarrow> (\<exists>pt. oc_perpetual c = Some pt \<and> pt_position_close pt)"
    using order_entry_ok[OF ok(1-3) c1(1)] by blast
  note fee = get_fee_ok[OF ok(1) c1(2)]
  have "\<exists>p. c2 = c1\<lparr>oc_percent_fee_collateral := p\<rparr> \<and> (\<forall>ta \<in> set_option p. 0 \<le> ta_amount ta) \<and>
             (p \<noteq> None \<longrightarrow> oc_order_collateral c1 \<noteq> None)"
    by (rule percent_entry_ok[OF ok(1) _ fee(1) _ _ _ c1(3)]) (use e ok in \<open>auto simp: terms_ok_def\<close>)
  then obtain p where p: "c2 = c1\<lparr>oc_percent_fee_collateral := p\<rparr>" "\<forall>ta \<in> set_option p. 0 \<le> ta_amount ta"
    "p \<noteq> None \<longrightarrow> e \<noteq> None" using e(1) by auto
  show ?thesis
    using c1(4) e p fee(2,3)
    by (auto simp: collateral_core_def populate_fixed_fee_collateral_entries_def entries_nonneg_def
        populated_def fixed_fees_def same_terms_def)
qed


subsection \<open>Adjusting one candidate\<close>

lemma fold_note_balance:
  "fold (note_balance bc c) fs m =
     (\<lambda>t. if t \<in> ta_token ` set fs then Some (balance_fn (bc_exchange bc) c t - bc_locked bc t) else m t)"
  by (induction fs arbitrary: m) (auto simp: note_balance_def)

lemma available_balances:
  assumes "get_available_balances bc c = Inr avail"
  shows "avail = (\<lambda>t. if t \<in> collateral_tokens c
                     then Some (balance_fn (bc_exchange bc) c t - bc_locked bc t) else None)"
  using assms
  by (auto simp: get_available_balances_def fold_note_balance note_balance_def collateral_tokens_def
      fixed_fees_def Let_def split: option.splits)

lemma total_outside: "t \<notin> collateral_tokens c \<Longrightarrow> total_collateral c t = 0"
  by (auto simp: total_collateral_def scaled_collateral_def token_part_def collateral_tokens_def
      fixed_part_other split: option.split)

lemma total_nonneg: "entries_nonneg c \<Longrightarrow> 0 \<le> total_collateral c t"
  unfolding total_collateral_def
  by (intro add_nonneg_nonneg scaled_collateral_nonneg fixed_part_nonneg) (auto dest: entries_nonnegD)

lemma scaled_copy_total:
  assumes "scaled_copy r c d" "fixed_fees d = fixed_fees c"
  shows "total_collateral d t = scaled_collateral c t * r + fixed_part t (fixed_fees c)"
  using assms by (simp add: total_collateral_def scaled_collateral_def scaled_copy_def algebra_simps)

text \<open>What a checker guarantees of one adjusted candidate, given the room left for each token.\<close>

definition fits_room :: "(string \<Rightarrow> decimal) \<Rightarrow> order_candidate \<Rightarrow> order_candidate \<Rightarrow> bool" where
  "fits_room room c c' \<longleftrightarrow>
     (\<forall>t. 0 \<le> total_collateral c' t \<and> total_collateral c' t \<le> room t) \<and> populated c' \<and>
     0 \<le> oc_amount c' \<and> oc_amount c' \<le> oc_amount c \<and> same_terms c c'"

lemma quantized_fits:
  assumes ex: "exchange_ok (bc_exchange bc)" and c: "candidate_ok c"
    and c1: "populate_collateral_entries (bc_exchange bc) c = Inr c1"
    and s: "0 \<le> s" "s \<le> 1" and room: "\<And>t. total_collateral (scale_order s c1) t \<le> room t"
    and run: "quantize_adjusted_order bc (scale_order s c1) = Inr c'"
    and self: "fits_room room c (scale_order s c1)"
  shows "fits_room room c c'"
proof -
  let ?q = "ex_quantize_order_amount (bc_exchange bc) (oc_trading_pair c1) (oc_amount c1 * s)"
  have cc: "fresh_candidate c" "0 < oc_amount c" "terms_ok c" using c by (simp_all add: candidate_ok_def)
  have ok1: "entries_nonneg c1 \<and> populated c1 \<and> distinct (map ta_token (fixed_fees c1)) \<and>
         same_terms c c1 \<and> oc_amount c1 = oc_amount c \<and> oc_resized c1 = oc_resized c \<and>
         oc_from_total_balances c1 = oc_from_total_balances c"
    by (rule populate_ok[OF ex cc(3) _ _ c1]) (use cc(1) in \<open>auto simp: fresh_candidate_def\<close>)
  have a0: "0 \<le> oc_amount c1 * s" using ok1 cc(2) s by simp
  then have q: "0 \<le> ?q" "?q \<le> oc_amount c1 * s" using ex by (auto simp: exchange_ok_def)
  show ?thesis
  proof (cases "oc_amount c1 * s = ?q")
    case True
    then have "c' = scale_order s c1" using run by (simp add: quantize_adjusted_order_def)
    then show ?thesis using self by simp
  next
    case False
    let ?d = "(scale_order s c1)\<lparr>oc_amount := ?q\<rparr>"
    define r where "r = ?q / oc_amount c"
    have rs: "0 \<le> r" "r \<le> s" using q cc(2) ok1 by (simp_all add: r_def divide_le_eq mult.commute)
    have nz: "oc_amount c1 * s \<noteq> 0" using False q by auto
    have run': "populate_collateral_entries (bc_exchange bc) ?d = Inr c'"
      using run False by (simp add: quantize_adjusted_order_def)
    have st: "same_terms c ?d" "oc_amount ?d = oc_amount c * r"
      using ok1 cc(2) by (auto simp: same_terms_def r_def)
    have sc: "scaled_copy r c1 c' \<and> fixed_fees c' = fixed_fees c1"
      by (rule populate_scaled[OF cc(1) c1 st run']) (simp_all add: scale_order_nonzero[OF nz])
    have le: "total_collateral c' t \<le> total_collateral (scale_order s c1) t" for t
    proof -
      have "scaled_collateral c1 t * r \<le> scaled_collateral c1 t * s"
        by (rule mult_left_mono[OF rs(2)]) (simp add: scaled_collateral_nonneg ok1)
      then show ?thesis
        using scaled_copy_total[OF conjunct1[OF sc] conjunct2[OF sc], of t] nz
        by (simp add: total_collateral_def scaled_collateral_scale scale_order_fixed)
    qed
    have nonneg: "0 \<le> total_collateral c' t" for t
      using scaled_copy_total[OF conjunct1[OF sc] conjunct2[OF sc], of t]
        scaled_collateral_nonneg[of c1 t] ok1 rs(1) entries_nonnegD(3)[of c1]
      by (simp add: fixed_part_nonneg)
    have "oc_fixed_fee_collaterals c' \<noteq> None"
      using populate_steps[OF run'] by (auto simp: collateral_core_def populate_fixed_fee_collateral_entries_def)
    moreover have "oc_percent_fee_collateral c' \<noteq> None \<longrightarrow> oc_order_collateral c' \<noteq> None"
      using sc ok1 by (auto simp: scaled_copy_def scale_entry_def populated_def)
    moreover have "oc_amount c' = ?q" "same_terms c c'"
      using sc ok1 cc(2) by (auto simp: scaled_copy_def same_terms_def r_def)
    moreover have "oc_amount c1 * s \<le> oc_amount c"
      using mult_left_mono[OF s(2), of "oc_amount c"] cc(2) ok1 by simp
    ultimately show ?thesis
      unfolding fits_room_def populated_def using nonneg order_trans[OF le room] q by auto
  qed
qed

lemma adjust_candidate_fits:
  assumes ex: "exchange_ok (bc_exchange bc)" and c: "candidate_ok c"
    and locked: "\<And>t. bc_locked bc t \<le> balance_fn (bc_exchange bc) c t"
    and run: "adjust_candidate bc all_or_none c = Inr c'"
  shows "fits_room (\<lambda>t. balance_fn (bc_exchange bc) c t - bc_locked bc t) c c' \<and>
         (all_or_none \<longrightarrow> oc_amount c' = oc_amount c \<or> oc_amount c' = 0)"
proof -
  let ?room = "\<lambda>t. balance_fn (bc_exchange bc) c t - bc_locked bc t"
  have cc: "fresh_candidate c" "0 < oc_amount c" "terms_ok c" using c by (simp_all add: candidate_ok_def)
  obtain c1 avail c2 where c1: "populate_collateral_entries (bc_exchange bc) c = Inr c1"
    and avail: "get_available_balances bc c1 = Inr avail" and c2: "adjust_from_balances avail c1 = Inr c2"
    and last: "(if oc_resized c2
                then if all_or_none then Inr (set_to_zero c2) else quantize_adjusted_order bc c2
                else Inr c2) = Inr c'"
    using run by (auto simp: adjust_candidate_def bind_err_eq_Inr)
  have ok1: "entries_nonneg c1 \<and> populated c1 \<and> distinct (map ta_token (fixed_fees c1)) \<and>
         same_terms c c1 \<and> oc_amount c1 = oc_amount c \<and> oc_resized c1 = oc_resized c \<and>
         oc_from_total_balances c1 = oc_from_total_balances c"
    by (rule populate_ok[OF ex cc(3) _ _ c1]) (use cc(1) in \<open>auto simp: fresh_candidate_def\<close>)
  have room: "avail = (\<lambda>t. if t \<in> collateral_tokens c1 then Some (?room t) else None)"
  proof -
    have same: "balance_fn (bc_exchange bc) c1 = balance_fn (bc_exchange bc) c"
      using ok1 by (simp add: balance_fn_def)
    show ?thesis using available_balances[OF avail] unfolding same .
  qed
  have bal: "balances_nonneg avail" using locked by (simp add: room balances_nonneg_def)
  have tokens: "collateral_tokens c1 \<subseteq> dom avail" by (auto simp: room)
  have nz: "oc_amount c1 \<noteq> 0" using ok1 cc(2) by simp
  obtain s where s: "cut_to avail c1 s c2" "feasible avail c2"
    using adjust_cuts[OF bal nz _ _ tokens] ok1 c2 by force
  have s01: "0 \<le> s" "s \<le> 1" using s(1) by (auto simp: cut_to_def)
  have fits2: "total_collateral c2 t \<le> ?room t" for t
  proof (cases "t \<in> collateral_tokens c1")
    case True
    then show ?thesis using s(2) by (simp add: feasible_def room)
  next
    case False
    then have "t \<notin> collateral_tokens c2"
      using cut_shape(2)[OF s(1) _ tokens] ok1 by (auto simp: room split: if_splits)
    then show ?thesis using locked by (simp add: total_outside)
  qed
  have amount2: "oc_amount c2 = oc_amount c * s" using s(1) ok1 by (auto simp: cut_to_def)
  then have amount2': "0 \<le> oc_amount c2" "oc_amount c2 \<le> oc_amount c"
    using s01 cc(2) mult_left_mono[OF s01(2), of "oc_amount c"] by auto
  have room2: "fits_room ?room c c2"
    unfolding fits_room_def
    using fits2 total_nonneg[OF cut_to_nonneg[OF s(1)]] cut_shape(1)[OF s(1) _ tokens] ok1 amount2' s(1)
    by (auto simp: cut_to_def same_terms_def)
  show ?thesis
  proof (cases "oc_resized c2")
    case False
    then have "c' = c2" "c2 = c1" using last s(1) by (auto simp: cut_to_def)
    then show ?thesis using room2 ok1 by simp
  next
    case resized: True
    have c2s: "c2 = scale_order s c1"
      using s(1) resized ok1 cc(1) by (auto simp: cut_to_def fresh_candidate_def)
    show ?thesis
    proof (cases all_or_none)
      case True
      then have c': "c' = scale_order 0 c2" using last resized by (simp add: set_to_zero_def)
      have "total_collateral c' t = 0" for t
        by (simp add: c' total_collateral_def scaled_collateral_scale scale_order_fixed fixed_part_def)
      moreover have "populated c'" by (simp add: c' populated_def scale_order_zero)
      ultimately show ?thesis
        using locked cc(2) ok1 by (auto simp: fits_room_def c' c2s same_terms_def)
    next
      case False
      then have q: "quantize_adjusted_order bc (scale_order s c1) = Inr c'"
        using last resized c2s by simp
      show ?thesis
        using quantized_fits[OF ex c c1 s01 _ q, of ?room] fits2 room2 False by (simp add: c2s)
    qed
  qed
qed


subsection \<open>Locking the collateral of many\<close>

text \<open>
  The contract between sizing a candidate and locking: given a budget and what is locked of it, the
  candidate sized holds at most what is left.
\<close>

fun sized_one_by_one ::
  "((string \<Rightarrow> decimal) \<Rightarrow> 'c \<Rightarrow> py_error + 'c) \<Rightarrow> ('c \<Rightarrow> string \<Rightarrow> decimal) \<Rightarrow> (string \<Rightarrow> decimal) \<Rightarrow>
   'c list \<Rightarrow> py_error + ('c list \<times> (string \<Rightarrow> decimal))" where
  "sized_one_by_one adjust held locked [] = Inr ([], locked)"
| "sized_one_by_one adjust held locked (c # cs) =
     bind_err (adjust locked c) (\<lambda>c'.
     bind_err (sized_one_by_one adjust held (\<lambda>t. locked t + held c' t) cs) (\<lambda>(cs', locked').
       Inr (c' # cs', locked')))"

definition held_by_all :: "('c \<Rightarrow> string \<Rightarrow> decimal) \<Rightarrow> 'c list \<Rightarrow> string \<Rightarrow> decimal" where
  "held_by_all held cs t = (\<Sum>c \<leftarrow> cs. held c t)"

locale collateral_adjuster =
  fixes adjust :: "(string \<Rightarrow> decimal) \<Rightarrow> 'c \<Rightarrow> py_error + 'c"
    and held :: "'c \<Rightarrow> string \<Rightarrow> decimal"
    and budget :: "string \<Rightarrow> decimal"
    and ok :: "'c \<Rightarrow> bool"
  assumes held_fits:
    "\<lbrakk>ok c; \<And>t. locked t \<le> budget t; adjust locked c = Inr c'\<rbrakk> \<Longrightarrow> held c' t \<le> budget t - locked t"
begin

lemma locked_within_budget:
  "\<lbrakk>\<forall>c \<in> set cs. ok c; \<And>t. locked t \<le> budget t;
    sized_one_by_one adjust held locked cs = Inr (cs', locked')\<rbrakk> \<Longrightarrow>
   (\<forall>t. locked' t = locked t + held_by_all held cs' t \<and> locked' t \<le> budget t) \<and> length cs' = length cs"
proof (induction cs arbitrary: locked cs')
  case Nil
  then show ?case by (auto simp: held_by_all_def)
next
  case (Cons c cs)
  then obtain c' cs1 where c': "adjust locked c = Inr c'" and cs1: "cs' = c' # cs1"
    and rest: "sized_one_by_one adjust held (\<lambda>t. locked t + held c' t) cs = Inr (cs1, locked')"
    by (auto simp: bind_err_eq_Inr)
  have "held c' t \<le> budget t - locked t" for t
    by (rule held_fits[OF _ Cons.prems(2) c']) (use Cons.prems(1) in simp)
  then have "locked t + held c' t \<le> budget t" for t by (simp add: le_diff_eq add.commute)
  then have IH: "(\<forall>t. locked' t = locked t + held c' t + held_by_all held cs1 t \<and> locked' t \<le> budget t) \<and>
                length cs1 = length cs"
    by (rule Cons.IH[OF _ _ rest, rotated]) (use Cons.prems(1) in simp)
  have "locked' t = locked t + held_by_all held cs' t \<and> locked' t \<le> budget t" for t
    using conjunct1[OF IH, rule_format, of t] by (simp add: held_by_all_def cs1)
  then show ?case using IH by (simp add: cs1)
qed

lemma held_within_budget:
  assumes "\<forall>c \<in> set cs. ok c" "\<And>t. locked t \<le> budget t"
    "sized_one_by_one adjust held locked cs = Inr (cs', locked')"
  shows "locked t + held_by_all held cs' t \<le> budget t" "length cs' = length cs"
proof -
  note all = locked_within_budget[OF assms]
  show "locked t + held_by_all held cs' t \<le> budget t" using conjunct1[OF all, rule_format, of t] by simp
  show "length cs' = length cs" using all by simp
qed

end

text \<open>
  The checker as an instance: adjusting with \<open>locked\<close> is \<open>adjust_candidate\<close> of a checker that has it
  locked; all the candidates of a batch draw on the same balances.
\<close>

definition checker_with :: "exchange_env \<Rightarrow> (string \<Rightarrow> decimal) \<Rightarrow> budget_checker" where
  "checker_with ex locked = \<lparr>bc_exchange = ex, bc_locked = locked\<rparr>"

definition batch_budget :: "exchange_env \<Rightarrow> bool \<Rightarrow> string \<Rightarrow> decimal" where
  "batch_budget ex from_total t = (if \<not> from_total then ex_available_balance ex t else ex_balance ex t)"

definition batch_member :: "exchange_env \<Rightarrow> bool \<Rightarrow> order_candidate \<Rightarrow> bool" where
  "batch_member ex from_total c \<longleftrightarrow>
     exchange_ok ex \<and> candidate_ok c \<and> oc_from_total_balances c = from_total"

definition perpetual_held :: "order_candidate \<Rightarrow> string \<Rightarrow> decimal" where
  "perpetual_held c t =
     (case oc_perpetual c of
        None \<Rightarrow> 0
      | Some pt \<Rightarrow> if pt_position_close pt then 0 else total_collateral c t)"

lemma checker_with_simps [simp]:
  "bc_exchange (checker_with ex locked) = ex" "bc_locked (checker_with ex locked) = locked"
  "checker_with (bc_exchange bc) (bc_locked bc) = bc"
  by (simp_all add: checker_with_def)

lemma batch_fits:
  assumes "batch_member ex from_total c" "\<And>t. locked t \<le> batch_budget ex from_total t"
    and "adjust_candidate (checker_with ex locked) all_or_none c = Inr c'"
  shows "fits_room (\<lambda>t. batch_budget ex from_total t - locked t) c c'"
proof -
  have "balance_fn ex c = batch_budget ex from_total"
    using assms(1) by (auto simp: batch_member_def balance_fn_def batch_budget_def)
  then show ?thesis
    using adjust_candidate_fits[of "checker_with ex locked" c all_or_none c'] assms
    by (simp add: batch_member_def)
qed

interpretation spot_budget: collateral_adjuster
  "\<lambda>locked. adjust_candidate (checker_with ex locked) all_or_none"
  total_collateral "batch_budget ex from_total" "batch_member ex from_total"
  for ex all_or_none from_total
proof unfold_locales
  fix c c' locked t
  assume "batch_member ex from_total c" "\<And>t. locked t \<le> batch_budget ex from_total t"
    "adjust_candidate (checker_with ex locked) all_or_none c = Inr c'"
  from batch_fits[OF this] show "total_collateral c' t \<le> batch_budget ex from_total t - locked t"
    by (simp add: fits_room_def)
qed

interpretation perpetual_budget: collateral_adjuster
  "\<lambda>locked. adjust_candidate (checker_with ex locked) all_or_none"
  perpetual_held "batch_budget ex from_total" "batch_member ex from_total"
  for ex all_or_none from_total
proof unfold_locales
  fix c c' locked t
  assume locked: "\<And>t. locked t \<le> batch_budget ex from_total t"
    and a: "batch_member ex from_total c" "adjust_candidate (checker_with ex locked) all_or_none c = Inr c'"
  have "0 \<le> batch_budget ex from_total t - locked t" using locked by simp
  then show "perpetual_held c' t \<le> batch_budget ex from_total t - locked t"
    using batch_fits[OF a(1) locked a(2)]
    by (auto simp: fits_room_def perpetual_held_def split: option.split)
qed


text \<open>The loop of either checker is an instance of sizing one by one.\<close>

lemma adjust_loop_sized:
  assumes lock: "\<And>c' bc bc1. lock c' bc = Inr bc1 \<Longrightarrow>
      bc1 = checker_with (bc_exchange bc) (\<lambda>t. bc_locked bc t + held c' t)"
  shows "adjust_candidates_loop lock all_or_none cs bc = Inr (cs', bc') \<Longrightarrow>
         sized_one_by_one (\<lambda>locked. adjust_candidate (checker_with (bc_exchange bc) locked) all_or_none)
           held (bc_locked bc) cs = Inr (cs', bc_locked bc') \<and> bc_exchange bc' = bc_exchange bc"
proof (induction cs arbitrary: bc cs')
  case (Cons c cs)
  obtain c' bc1 cs1 where c': "adjust_candidate bc all_or_none c = Inr c'"
    and bc1: "lock c' bc = Inr bc1"
    and rest: "adjust_candidates_loop lock all_or_none cs bc1 = Inr (cs1, bc')"
    and cs': "cs' = c' # cs1"
    using Cons.prems
    by (auto simp: adjust_candidate_and_lock_available_collateral_def bind_err_eq_Inr)
  show ?case using Cons.IH[OF rest] c' lock[OF bc1] by (simp add: cs')
qed simp

lemma spot_lock:
  "lock_available_collateral c' bc = Inr bc1 \<Longrightarrow>
   bc1 = checker_with (bc_exchange bc) (\<lambda>t. bc_locked bc t + total_collateral c' t)"
  by (auto simp: lock_available_collateral_def collateral_dict_def total_collateral_def
      scaled_collateral_def fixed_fees_def checker_with_def add.assoc split: option.splits)

lemma perpetual_lock:
  "perpetual_lock_available_collateral c' bc = Inr bc1 \<Longrightarrow>
   bc1 = checker_with (bc_exchange bc) (\<lambda>t. bc_locked bc t + perpetual_held c' t)"
  by (auto simp: perpetual_lock_available_collateral_def perpetual_held_def
      dest!: spot_lock split: option.splits if_splits)


lemma reset_locked [simp]:
  "bc_exchange (reset_locked_collateral bc) = bc_exchange bc"
  "bc_locked (reset_locked_collateral bc) = (\<lambda>_. 0)"
  by (simp_all add: reset_locked_collateral_def)

lemma adjust_candidates_loop_run:
  assumes "adjust_candidates lock all_or_none cs bc = Inr (cs', bc')"
  obtains bc1 where
    "adjust_candidates_loop lock all_or_none cs (reset_locked_collateral bc) = Inr (cs', bc1)"
    "bc' = reset_locked_collateral bc1"
  using assms by (auto simp: adjust_candidates_def bind_err_eq_Inr)

subsection \<open>Candidates let through whole\<close>

lemma scale_order_resized [simp]: "oc_resized (scale_order s c)"
  by (simp add: scale_order_def Let_def)

text \<open>An adjustment leaves the candidate as it is or marks it as resized.\<close>

lemma rescale_marks: "fixed_fee_rescale tok t b a x c = Inr c' \<Longrightarrow> c' = c \<or> oc_resized c'"
  by (auto simp: fixed_fee_rescale_def bind_err_eq_Inr split: if_splits option.splits)

lemma fixed_loop_marks: "adjust_fixed_fee_loop avail ot pt es c = Inr c' \<Longrightarrow> c' = c \<or> oc_resized c'"
proof (induction avail ot pt es c rule: adjust_fixed_fee_loop.induct)
  case (2 avail ot pt e es c)
  obtain b where b: "balance_of avail (ta_token e) = Inr b" using "2.prems" by (auto simp: bind_err_eq_Inr)
  show ?case
  proof (cases "b < ta_amount e")
    case True
    then show ?thesis using "2.prems" b by auto
  next
    case False
    obtain c1 c2 where c1: "fixed_fee_rescale ot (ta_token e) b (ta_amount e) (fst (order_and_pf_collateral_amounts c)) c = Inr c1"
      and c2: "fixed_fee_rescale pt (ta_token e) b (ta_amount e) (snd (order_and_pf_collateral_amounts c1)) c1 = Inr c2"
      and rest: "(if is_zero_order c2 then Inr c2 else adjust_fixed_fee_loop avail ot pt es c2) = Inr c'"
      using "2.prems" b False by (auto simp: bind_err_eq_Inr)
    have "c2 = c \<or> oc_resized c2" using rescale_marks[OF c1] rescale_marks[OF c2] by auto
    moreover have "c' = c2 \<or> oc_resized c'"
      using rest "2.IH"[OF False _ ] by (auto split: if_splits)
    ultimately show ?thesis by blast
  qed
qed simp

lemma adjust_marks:
  assumes "adjust_from_balances avail c = Inr c'"
  shows "c' = c \<or> oc_resized c'"
proof -
  obtain c1 c2 where steps: "unless_zero (adjust_for_order_collateral avail) c = Inr c1"
    "unless_zero (adjust_for_percent_fee_collateral avail) c1 = Inr c2"
    "unless_zero (adjust_for_fixed_fee_collaterals avail) c2 = Inr c'"
    using assms by (auto simp: adjust_from_balances_def bind_err_eq_Inr)
  have "c1 = c \<or> oc_resized c1"
    using steps(1) by (auto simp: unless_zero_def adjust_for_order_collateral_def bind_err_eq_Inr
        split: if_splits option.splits)
  moreover have "c2 = c1 \<or> oc_resized c2"
    using steps(2) by (auto simp: unless_zero_def adjust_for_percent_fee_collateral_def bind_err_eq_Inr Let_def
        split: if_splits option.splits)
  moreover have "c' = c2 \<or> oc_resized c'"
    using steps(3) by (auto simp: unless_zero_def adjust_for_fixed_fee_collaterals_def
        split: if_splits option.splits dest: fixed_loop_marks)
  ultimately show ?thesis by auto
qed

lemma kept_whole:
  assumes "adjust_candidate bc True c = Inr c'" "oc_amount c' \<noteq> 0"
  shows "populate_collateral_entries (bc_exchange bc) c = Inr c'"
proof -
  obtain c1 avail c2 where c1: "populate_collateral_entries (bc_exchange bc) c = Inr c1"
    and c2: "adjust_from_balances avail c1 = Inr c2"
    and c': "c' = (if oc_resized c2 then set_to_zero c2 else c2)"
    using assms(1) by (auto simp: adjust_candidate_def bind_err_eq_Inr split: if_splits)
  have "\<not> oc_resized c2" using c' assms(2) by (auto simp: set_to_zero_def scale_order_def Let_def split: if_splits)
  then show ?thesis using adjust_marks[OF c2] c1 c' by simp
qed

text \<open>An opening order holds at least its margin: its value over the leverage, in a quote-margined market.\<close>

definition quote_margined :: "exchange_env \<Rightarrow> string \<Rightarrow> bool" where
  "quote_margined ex tp \<longleftrightarrow> (\<exists>base quote. split_hb_trading_pair tp = Inr (base, quote) \<and> base \<noteq> quote \<and>
     ex_buy_collateral_token ex tp = quote \<and> ex_sell_collateral_token ex tp = quote)"

lemma margin_held:
  assumes ex: "exchange_ok ex" and c: "candidate_ok c"
    and pt: "oc_perpetual c = Some pt" "\<not> pt_position_close pt"
    and tp: "split_hb_trading_pair (oc_trading_pair c) = Inr (base, quote)" "base \<noteq> quote"
      "ex_buy_collateral_token ex (oc_trading_pair c) = quote" "ex_sell_collateral_token ex (oc_trading_pair c) = quote"
    and run: "populate_collateral_entries ex c = Inr c'"
  shows "oc_amount c * oc_price c / pt_leverage pt \<le> perpetual_held c' quote"
proof -
  have cc: "fresh_candidate c" "0 < oc_amount c" "terms_ok c" using c by (simp_all add: candidate_ok_def)
  have ok': "entries_nonneg c' \<and> populated c' \<and> distinct (map ta_token (fixed_fees c')) \<and>
         same_terms c c' \<and> oc_amount c' = oc_amount c \<and> oc_resized c' = oc_resized c \<and>
         oc_from_total_balances c' = oc_from_total_balances c"
    by (rule populate_ok[OF ex cc(3) _ _ run]) (use cc(1) in \<open>auto simp: fresh_candidate_def\<close>)
  obtain c1 fee c2 where c1: "populate_order_collateral_entry ex c = Inr c1"
    "populate_percent_fee_collateral_entry ex fee c1 = Inr c2"
    "collateral_core c' = collateral_core (populate_fixed_fee_collateral_entries fee c2)"
    using populate_steps[OF run] by metis
  have "oc_order_collateral c1 = Some \<lparr>ta_token = quote, ta_amount = oc_amount c * oc_price c / pt_leverage pt\<rparr>"
    using c1(1) pt tp cc(3)
    by (auto simp: candidate_flow get_collateral_token_def get_collateral_amount_def
        get_size_collateral_price_def get_size_token_and_order_size_def bind_err_eq_Inr dec_div_def
        split: if_splits)
  moreover have "oc_order_collateral c2 = oc_order_collateral c1"
    using c1(2) by (auto simp: populate_percent_fee_collateral_entry_def
        perpetual_populate_percent_fee_collateral_entry_def spot_populate_percent_fee_collateral_entry_def
        bind_err_eq_Inr split: option.splits if_splits)
  ultimately have oc: "oc_order_collateral c' =
      Some \<lparr>ta_token = quote, ta_amount = oc_amount c * oc_price c / pt_leverage pt\<rparr>"
    using c1(3) by (simp add: collateral_core_def populate_fixed_fee_collateral_entries_def)
  have "0 \<le> token_part quote (oc_percent_fee_collateral c')"
    using ok' by (cases "oc_percent_fee_collateral c'") (auto simp: entries_nonneg_def token_part_def)
  moreover have "0 \<le> fixed_part quote (fixed_fees c')"
    unfolding fixed_part_def using ok' by (intro sum_list_nonneg) (auto simp: entries_nonneg_def)
  ultimately show ?thesis
    using pt ok' oc by (simp add: perpetual_held_def total_collateral_def scaled_collateral_def
        token_part_def same_terms_def)
qed


lemma dropped_holds_nothing:
  assumes ex: "exchange_ok (bc_exchange bc)" and c: "candidate_ok c"
    and run: "adjust_candidate bc True c = Inr c'" "oc_amount c' = 0"
  shows "total_collateral c' t = 0"
proof -
  have cc: "fresh_candidate c" "0 < oc_amount c" "terms_ok c" using c by (simp_all add: candidate_ok_def)
  obtain c1 avail c2 where c1: "populate_collateral_entries (bc_exchange bc) c = Inr c1"
    and c2: "adjust_from_balances avail c1 = Inr c2"
    and c': "c' = (if oc_resized c2 then set_to_zero c2 else c2)"
    using run(1) by (auto simp: adjust_candidate_def bind_err_eq_Inr split: if_splits)
  have "oc_amount c1 = oc_amount c"
    using populate_ok[OF ex cc(3) _ _ c1] cc(1) by (simp add: fresh_candidate_def)
  then have "oc_resized c2" using adjust_marks[OF c2] c' run(2) cc(2) by (auto split: if_splits)
  then show ?thesis
    using c' by (simp add: set_to_zero_def total_collateral_def scaled_collateral_scale scale_order_fixed fixed_part_def)
qed

text \<open>The opening candidates of one batch, each let through whole or not at all.\<close>

definition opening_candidate :: "string \<Rightarrow> decimal \<Rightarrow> order_candidate \<Rightarrow> bool" where
  "opening_candidate tp leverage c \<longleftrightarrow> candidate_ok c \<and> \<not> oc_from_total_balances c \<and> oc_trading_pair c = tp \<and>
     oc_perpetual c = Some \<lparr>pt_leverage = leverage, pt_position_close = False\<rparr>"

definition kept_margin :: "decimal \<Rightarrow> order_candidate \<Rightarrow> order_candidate \<Rightarrow> decimal" where
  "kept_margin leverage c c' = (if oc_amount c' = 0 then 0 else oc_amount c * oc_price c / leverage)"

lemma kept_margin_held:
  assumes "exchange_ok (bc_exchange bc)" "opening_candidate tp leverage c"
    and "split_hb_trading_pair tp = Inr (base, quote)" "base \<noteq> quote"
      "ex_buy_collateral_token (bc_exchange bc) tp = quote" "ex_sell_collateral_token (bc_exchange bc) tp = quote"
    and run: "adjust_candidate bc True c = Inr c'"
  shows "kept_margin leverage c c' \<le> perpetual_held c' quote"
proof (cases "oc_amount c' = 0")
  case True
  then show ?thesis
    using dropped_holds_nothing[OF assms(1) _ run True] assms(2)
    by (simp add: kept_margin_def opening_candidate_def perpetual_held_def split: option.split)
next
  case False
  then show ?thesis
    using margin_held[OF assms(1) _ _ _ _ assms(4) _ _ kept_whole[OF run False]] assms
    by (simp add: kept_margin_def opening_candidate_def)
qed

lemma sized_each:
  "sized_one_by_one adjust held locked cs = Inr (cs', locked') \<Longrightarrow>
   list_all2 (\<lambda>c c'. \<exists>locked. adjust locked c = Inr c') cs cs'"
  by (induction cs arbitrary: locked cs') (auto simp: bind_err_eq_Inr)

lemma perpetual_batch_held:
  assumes "\<forall>c \<in> set cs. batch_member (bc_exchange bc) from_total c"
    and "\<forall>t. 0 \<le> batch_budget (bc_exchange bc) from_total t"
    and "adjust_candidates perpetual_lock_available_collateral all_or_none cs bc = Inr (cs', bc')"
  shows "length cs' = length cs \<and>
         (\<forall>t. held_by_all perpetual_held cs' t \<le> batch_budget (bc_exchange bc) from_total t) \<and>
         bc' = reset_locked_collateral bc \<and>
         list_all2 (\<lambda>c c'. \<exists>locked. adjust_candidate (checker_with (bc_exchange bc) locked) all_or_none c = Inr c') cs cs'"
proof -
  obtain bc1 where
    loop: "adjust_candidates_loop perpetual_lock_available_collateral all_or_none cs (reset_locked_collateral bc) = Inr (cs', bc1)"
    and bc': "bc' = reset_locked_collateral bc1"
    using adjust_candidates_loop_run[OF assms(3)] .
  note sized = adjust_loop_sized[where held = perpetual_held, OF perpetual_lock loop, simplified]
  note within = perpetual_budget.held_within_budget[OF assms(1) _ conjunct1[OF sized]]
  have "0 + held_by_all perpetual_held cs' t \<le> batch_budget (bc_exchange bc) from_total t" for t
    by (rule within(1)) (simp add: assms(2))
  moreover have "length cs' = length cs" by (rule within(2)) (simp add: assms(2))
  ultimately show ?thesis
    using sized bc' sized_each[OF conjunct1[OF sized]] by (simp add: reset_locked_collateral_def)
qed

lemma batch_margins:
  assumes ex: "exchange_ok (bc_exchange bc)" and cs: "\<forall>c \<in> set cs. opening_candidate tp leverage c"
    and tp: "split_hb_trading_pair tp = Inr (base, quote)" "base \<noteq> quote"
      "ex_buy_collateral_token (bc_exchange bc) tp = quote" "ex_sell_collateral_token (bc_exchange bc) tp = quote"
    and bal: "\<forall>t. 0 \<le> ex_available_balance (bc_exchange bc) t"
    and run: "adjust_candidates perpetual_lock_available_collateral True cs bc = Inr (cs', bc')"
  shows "length cs' = length cs"
    and "(\<Sum>(c, c') \<leftarrow> zip cs cs'. kept_margin leverage c c') \<le> ex_available_balance (bc_exchange bc) quote"
proof -
  have members: "\<forall>c \<in> set cs. batch_member (bc_exchange bc) False c"
    using cs ex by (auto simp: batch_member_def opening_candidate_def)
  have "\<forall>t. 0 \<le> batch_budget (bc_exchange bc) False t" using bal by (simp add: batch_budget_def)
  note held = perpetual_batch_held[OF members this run]
  show "length cs' = length cs" using held by simp
  have "list_all2 (\<lambda>c c'. \<exists>locked. adjust_candidate (checker_with (bc_exchange bc) locked) True c = Inr c') cs cs'"
    using held by blast
  then have "(\<Sum>(c, c') \<leftarrow> zip cs cs'. kept_margin leverage c c') \<le> held_by_all perpetual_held cs' quote"
    using cs
  proof (induction rule: list_all2_induct)
    case (Cons c cs c' cs')
    then obtain locked where "adjust_candidate (checker_with (bc_exchange bc) locked) True c = Inr c'" by blast
    then have "kept_margin leverage c c' \<le> perpetual_held c' quote"
      using kept_margin_held[of "checker_with (bc_exchange bc) locked" tp leverage c base quote c'] ex tp Cons.prems
      by simp
    then show ?case using Cons by (simp add: held_by_all_def)
  qed (simp add: held_by_all_def)
  also have "\<dots> \<le> ex_available_balance (bc_exchange bc) quote"
    using held by (simp add: batch_budget_def)
  finally show "(\<Sum>(c, c') \<leftarrow> zip cs cs'. kept_margin leverage c c') \<le> ex_available_balance (bc_exchange bc) quote" .
qed

subsection \<open>What a batch holds\<close>

text \<open>
  C1: the orders a spot budget checker lets through in one batch (each candidate new, with a positive
  amount and price, all drawing on the same balances, none of them negative) hold together, in
  order collateral, percent fees and flat fees, at most the balance of every token, and the checker
  has nothing locked afterwards.
\<close>

theorem adjust_candidates_within_balances:
  assumes "\<forall>c \<in> set cs. batch_member (bc_exchange bc) from_total c"
    and "\<forall>t. 0 \<le> batch_budget (bc_exchange bc) from_total t"
    and "adjust_candidates lock_available_collateral all_or_none cs bc = Inr (cs', bc')"
  shows "length cs' = length cs \<and>
         (\<forall>t. held_by_all total_collateral cs' t \<le> batch_budget (bc_exchange bc) from_total t) \<and>
         bc' = reset_locked_collateral bc"
proof -
  obtain bc1 where
    loop: "adjust_candidates_loop lock_available_collateral all_or_none cs (reset_locked_collateral bc) = Inr (cs', bc1)"
    and bc': "bc' = reset_locked_collateral bc1"
    using adjust_candidates_loop_run[OF assms(3)] .
  note sized = adjust_loop_sized[where held = total_collateral, OF spot_lock loop, simplified]
  note within = spot_budget.held_within_budget[OF assms(1) _ conjunct1[OF sized]]
  have "0 + held_by_all total_collateral cs' t \<le> batch_budget (bc_exchange bc) from_total t" for t
    by (rule within(1)) (simp add: assms(2))
  moreover have "length cs' = length cs" by (rule within(2)) (simp add: assms(2))
  ultimately show ?thesis using sized bc' by (simp add: reset_locked_collateral_def)
qed

text \<open>
  The same for a perpetual budget checker, which locks nothing for the orders that close a
  position: the opening orders of a batch hold together at most the balance of every token.
\<close>

theorem perpetual_candidates_within_balances:
  assumes "\<forall>c \<in> set cs. batch_member (bc_exchange bc) from_total c"
    and "\<forall>t. 0 \<le> batch_budget (bc_exchange bc) from_total t"
    and "adjust_candidates perpetual_lock_available_collateral all_or_none cs bc = Inr (cs', bc')"
  shows "length cs' = length cs \<and>
         (\<forall>t. held_by_all perpetual_held cs' t \<le> batch_budget (bc_exchange bc) from_total t) \<and>
         bc' = reset_locked_collateral bc"
  using perpetual_batch_held[OF assms] by blast

subsection \<open>A concrete exchange\<close>

definition sample_exchange :: exchange_env where
  "sample_exchange =
     \<lparr>ex_fee_schema =
        \<lparr>fs_percent_fee_token = None, fs_maker_percent_fee_decimal = 1 / 100,
         fs_taker_percent_fee_decimal = 1 / 50, fs_buy_percent_fee_deducted_from_returns = False,
         fs_maker_fixed_fees = [\<lparr>ta_token = ''USDT'', ta_amount = 1\<rparr>], fs_taker_fixed_fees = []\<rparr>,
      ex_get_price = (\<lambda>_ _. 20),
      ex_available_balance = (\<lambda>t. if t = ''USDT'' then 305 else 0),
      ex_balance = (\<lambda>t. if t = ''USDT'' then 400 else 0),
      ex_quantize_order_amount = (\<lambda>_ a. of_int \<lfloor>a\<rfloor>),
      ex_buy_collateral_token = (\<lambda>_. ''USDT''), ex_sell_collateral_token = (\<lambda>_. ''USDT'')\<rparr>"

definition sample_buy :: "decimal \<Rightarrow> order_candidate" where
  "sample_buy amount = new_order_candidate ''ETH-USDT'' True LIMIT BUY amount 20 False None"

definition sample_perpetual :: "bool \<Rightarrow> decimal \<Rightarrow> order_candidate" where
  "sample_perpetual close amount = new_order_candidate ''ETH-USDT'' True LIMIT BUY amount 20 False
     (Some \<lparr>pt_leverage = 2, pt_position_close = close\<rparr>)"


definition sample_checker :: budget_checker where
  "sample_checker = new_budget_checker sample_exchange"

definition sample_batch :: "order_candidate list" where
  "sample_batch = [sample_buy 10, sample_buy 10]"

definition sample_perpetual_batch :: "order_candidate list" where
  "sample_perpetual_batch = [sample_perpetual True 10, sample_perpetual False 10, sample_perpetual False 25]"

lemma sample_exchange_ok: "exchange_ok sample_exchange"
  by (simp add: exchange_ok_def schema_ok_def sample_exchange_def)

lemma sample_members:
  "\<forall>c \<in> set sample_batch. batch_member (bc_exchange sample_checker) False c"
  "\<forall>c \<in> set sample_perpetual_batch. batch_member (bc_exchange sample_checker) False c"
  by (simp_all add: sample_checker_def new_budget_checker_def sample_batch_def sample_perpetual_batch_def
      batch_member_def sample_exchange_ok sample_buy_def sample_perpetual_def candidate_ok_def
      fresh_candidate_def terms_ok_def new_order_candidate_def)

lemma sample_budget: "\<forall>t. 0 \<le> batch_budget (bc_exchange sample_checker) False t"
  by (simp add: sample_checker_def new_budget_checker_def batch_budget_def sample_exchange_def)

lemma sample_runs:
  "\<not> isl (adjust_candidates lock_available_collateral False sample_batch sample_checker)"
  "\<not> isl (adjust_candidates perpetual_lock_available_collateral False sample_perpetual_batch sample_checker)"
  by code_simp+

lemma adjust_candidates_within_balances_witness:
  "\<exists>cs' bc'. adjust_candidates lock_available_collateral False sample_batch sample_checker = Inr (cs', bc') \<and>
     length cs' = length sample_batch \<and>
     (\<forall>t. held_by_all total_collateral cs' t \<le> batch_budget (bc_exchange sample_checker) False t) \<and>
     bc' = reset_locked_collateral sample_checker"
proof -
  obtain cs' bc' where run:
    "adjust_candidates lock_available_collateral False sample_batch sample_checker = Inr (cs', bc')"
    using sample_runs(1) by (cases "adjust_candidates lock_available_collateral False sample_batch sample_checker") auto
  show ?thesis
    using adjust_candidates_within_balances[OF sample_members(1) sample_budget run] run by blast
qed

lemma perpetual_candidates_within_balances_witness:
  "\<exists>cs' bc'. adjust_candidates perpetual_lock_available_collateral False sample_perpetual_batch sample_checker =
       Inr (cs', bc') \<and> length cs' = length sample_perpetual_batch \<and>
     (\<forall>t. held_by_all perpetual_held cs' t \<le> batch_budget (bc_exchange sample_checker) False t) \<and>
     bc' = reset_locked_collateral sample_checker"
proof -
  obtain cs' bc' where run:
    "adjust_candidates perpetual_lock_available_collateral False sample_perpetual_batch sample_checker = Inr (cs', bc')"
    using sample_runs(2)
    by (cases "adjust_candidates perpetual_lock_available_collateral False sample_perpetual_batch sample_checker") auto
  show ?thesis
    using perpetual_candidates_within_balances[OF sample_members(2) sample_budget run] run by blast
qed

end
