(* ===== verification/Throttler.thy ===== *)
theory Throttler
  imports Prelude
begin

text \<open>
  \<^verbatim>\<open>core/api_throttler\<close>: delaying the requests to an exchange so that its rate limits are kept.

  A throttler is shared by the coroutines that issue requests.  Its lock is only held across code that
  does not suspend, so one pass of the loop in \<^verbatim>\<open>acquire\<close> (flush, check and, on success, log) runs without
  interleaving: it is one step, with the three readings of \<^verbatim>\<open>time.time()\<close> it makes as arguments; the sleep
  between two passes is where other coroutines step.  The class variable
  \<^verbatim>\<open>_last_max_cap_warning_ts\<close> is a field of the state, and the warnings go to \<open>th_notices\<close>.
\<close>

record linked_limit_weight_pair =
  ll_limit_id :: string
  ll_weight :: int

record rate_limit =
  rl_limit_id :: string
  rl_limit :: int
  rl_time_interval :: seconds
  rl_weight :: int
  rl_linked_limits :: "linked_limit_weight_pair list"

definition new_rate_limit ::
  "string \<Rightarrow> int \<Rightarrow> seconds \<Rightarrow> int \<Rightarrow> linked_limit_weight_pair list option \<Rightarrow> rate_limit" where
  "new_rate_limit limit_id limit time_interval weight linked_limits =
     \<lparr>rl_limit_id = limit_id, rl_limit = limit, rl_time_interval = time_interval, rl_weight = weight,
      rl_linked_limits = (case linked_limits of None \<Rightarrow> [] | Some xs \<Rightarrow> xs)\<rparr>"

record task_log =
  tl_timestamp :: seconds
  tl_rate_limit :: rate_limit
  tl_weight :: int

record throttler =
  th_id_to_limit_map :: "(string, rate_limit) pydict"
  th_task_logs :: "task_log list"
  th_retry_interval :: seconds
  th_safety_margin_pct :: rat
  th_last_max_cap_warning_ts :: seconds
  th_notices :: "(string \<times> int) list"

definition scale_limit :: "decimal \<Rightarrow> rate_limit \<Rightarrow> rate_limit" where
  "scale_limit limits_pct l = l\<lparr>rl_limit := max 1 \<lfloor>of_int (rl_limit l) * limits_pct\<rfloor>\<rparr>"

text \<open>\<open>share_pct\<close> is the client configuration's \<^verbatim>\<open>rate_limits_share_pct\<close>.\<close>

definition new_throttler :: "rate_limit list \<Rightarrow> seconds \<Rightarrow> rat \<Rightarrow> decimal \<Rightarrow> throttler" where
  "new_throttler rate_limits retry_interval safety_margin_pct share_pct =
     \<lparr>th_id_to_limit_map =
        fold (\<lambda>l. AList.update (rl_limit_id l) l) (map (scale_limit (share_pct / 100)) rate_limits) [],
      th_task_logs = [], th_retry_interval = retry_interval, th_safety_margin_pct = safety_margin_pct,
      th_last_max_cap_warning_ts = 0, th_notices = []\<rparr>"

definition linked_known ::
  "(string, rate_limit) pydict \<Rightarrow> linked_limit_weight_pair list \<Rightarrow> (rate_limit \<times> int) list" where
  "linked_known m pairs =
     List.map_filter (\<lambda>p. map_option (\<lambda>l. (l, ll_weight p)) (map_of m (ll_limit_id p))) pairs"

definition get_related_limits ::
  "throttler \<Rightarrow> string \<Rightarrow> rate_limit option \<times> (rate_limit \<times> int) list" where
  "get_related_limits th limit_id =
     (let rate_limit = map_of (th_id_to_limit_map th) limit_id;
          linked_limits = (case rate_limit of None \<Rightarrow> [] | Some l \<Rightarrow> rl_linked_limits l);
          related_limits = linked_known (th_id_to_limit_map th) linked_limits
      in (rate_limit,
          case rate_limit of None \<Rightarrow> related_limits | Some l \<Rightarrow> related_limits @ [(l, rl_weight l)]))"

text \<open>The context \<^verbatim>\<open>execute_task\<close> returns; the shared fields are those of the throttler.\<close>

record request_context =
  rc_rate_limit :: "rate_limit option"
  rc_related_limits :: "(rate_limit \<times> int) list"

definition execute_task :: "throttler \<Rightarrow> string \<Rightarrow> request_context" where
  "execute_task th limit_id =
     (let (l, related) = get_related_limits th limit_id
      in \<lparr>rc_rate_limit = l, rc_related_limits = related\<rparr>)"

subsection \<open>One pass of \<^verbatim>\<open>acquire\<close>\<close>

definition expired :: "rat \<Rightarrow> seconds \<Rightarrow> task_log \<Rightarrow> bool" where
  "expired margin now task \<longleftrightarrow>
     rl_time_interval (tl_rate_limit task) + rl_time_interval (tl_rate_limit task) * margin
       < now - tl_timestamp task"

text \<open>
  \<^verbatim>\<open>flush\<close> removes entries from the list it iterates over: the iterator is an index, and a removal
  shifts the entries behind it, so the entry after a removed one is skipped.
\<close>

function flush_from :: "rat \<Rightarrow> seconds \<Rightarrow> nat \<Rightarrow> task_log list \<Rightarrow> task_log list" where
  "flush_from margin now i logs =
     (if i < length logs
      then flush_from margin now (i + 1)
             (if expired margin now (logs ! i) then remove1 (logs ! i) logs else logs)
      else logs)"
  by auto
termination
  by (relation "measure (\<lambda>(_, _, i, logs). length logs - i)") (auto simp: length_remove1)

declare flush_from.simps [simp del]

definition flush :: "seconds \<Rightarrow> throttler \<Rightarrow> throttler" where
  "flush now th = th\<lparr>th_task_logs := flush_from (th_safety_margin_pct th) now 0 (th_task_logs th)\<rparr>"

definition MAX_CAPACITY_REACHED_WARNING_INTERVAL :: seconds where
  "MAX_CAPACITY_REACHED_WARNING_INTERVAL = 30"

definition counts_for :: "rat \<Rightarrow> seconds \<Rightarrow> rate_limit \<Rightarrow> task_log \<Rightarrow> bool" where
  "counts_for margin now l task \<longleftrightarrow>
     rl_limit_id l = rl_limit_id (tl_rate_limit task) \<and>
     now - tl_timestamp task - rl_time_interval (tl_rate_limit task) * margin
       \<le> rl_time_interval (tl_rate_limit task)"

definition capacity_used :: "rat \<Rightarrow> seconds \<Rightarrow> task_log list \<Rightarrow> rate_limit \<Rightarrow> int" where
  "capacity_used margin now logs l = (\<Sum>task \<leftarrow> logs. if counts_for margin now l task then tl_weight task else 0)"

definition warn_capacity :: "seconds \<Rightarrow> rate_limit \<Rightarrow> int \<Rightarrow> throttler \<Rightarrow> throttler" where
  "warn_capacity now l used th =
     (if th_last_max_cap_warning_ts th < now - MAX_CAPACITY_REACHED_WARNING_INTERVAL
      then th\<lparr>th_notices := th_notices th @ [(rl_limit_id l, used)], th_last_max_cap_warning_ts := now\<rparr>
      else th)"

fun within_capacity :: "(rate_limit \<times> int) list \<Rightarrow> seconds \<Rightarrow> throttler \<Rightarrow> bool \<times> throttler" where
  "within_capacity [] now th = (True, th)"
| "within_capacity ((l, weight) # related) now th =
     (let used = capacity_used (th_safety_margin_pct th) now (th_task_logs th) l
      in if rl_limit l < used + weight then (False, warn_capacity now l used th)
         else within_capacity related now th)"

definition tasks_of :: "rate_limit \<Rightarrow> (rate_limit \<times> int) list \<Rightarrow> seconds \<Rightarrow> task_log list" where
  "tasks_of l related now =
     \<lparr>tl_timestamp = now, tl_rate_limit = l, tl_weight = rl_weight l\<rparr> #
     map (\<lambda>(limit, weight). \<lparr>tl_timestamp = now, tl_rate_limit = limit, tl_weight = weight\<rparr>) related"

definition log_request :: "request_context \<Rightarrow> seconds \<Rightarrow> throttler \<Rightarrow> py_error + throttler" where
  "log_request ctx now th =
     (case rc_rate_limit ctx of
        None \<Rightarrow> Inl AttributeError
      | Some l \<Rightarrow> Inr (th\<lparr>th_task_logs := th_task_logs th @ tasks_of l (rc_related_limits ctx) now\<rparr>))"

text \<open>The passes at the given times, until one succeeds.\<close>

fun acquire ::
  "request_context \<Rightarrow> (seconds \<times> seconds \<times> seconds) list \<Rightarrow> throttler \<Rightarrow> py_error + (bool \<times> throttler)" where
  "acquire ctx [] th = Inr (False, th)"
| "acquire ctx ((t1, t2, t3) # passes) th =
     (let (free, th1) = within_capacity (rc_related_limits ctx) t2 (flush t1 th)
      in if free then bind_err (log_request ctx t3 th1) (\<lambda>th2. Inr (True, th2))
         else acquire ctx passes th1)"


subsection \<open>Requests over time\<close>

text \<open>
  The state of a throttler with the time of its last step and the requests it has let through, each
  with the time it was logged at.
\<close>

type_synonym throttled = "throttler \<times> seconds \<times> (seconds \<times> string) list"

inductive throttler_step :: "throttled \<Rightarrow> throttled \<Rightarrow> bool" where
  wait: "\<lbrakk>clock \<le> t1; t1 \<le> t2;
    within_capacity (rc_related_limits (execute_task th limit_id)) t2 (flush t1 th) = (False, th1)\<rbrakk> \<Longrightarrow>
   throttler_step (th, clock, hist) (th1, t2, hist)"
| proceed: "\<lbrakk>clock \<le> t1; t1 \<le> t2; t2 \<le> t3;
    within_capacity (rc_related_limits (execute_task th limit_id)) t2 (flush t1 th) = (True, th1);
    log_request (execute_task th limit_id) t3 th1 = Inr th2\<rbrakk> \<Longrightarrow>
   throttler_step (th, clock, hist) (th2, t3, hist @ [(t3, limit_id)])"

inductive throttler_reachable :: "throttler \<Rightarrow> throttled \<Rightarrow> bool" for th0 where
  start: "throttler_reachable th0 (th0, clock, [])"
| step: "throttler_reachable th0 s \<Longrightarrow> throttler_step s s' \<Longrightarrow> throttler_reachable th0 s'"

inductive_cases throttler_stepE: "throttler_step (th, clock, hist) s'"

text \<open>The length of the window a limit applies to, safety margin included.\<close>

definition window :: "rat \<Rightarrow> rate_limit \<Rightarrow> seconds" where
  "window margin l = rl_time_interval l + rl_time_interval l * margin"

text \<open>The weight a request has for a limit.\<close>

definition request_weight :: "throttler \<Rightarrow> string \<Rightarrow> string \<Rightarrow> int" where
  "request_weight th lid limit_id =
     (\<Sum>(l, w) \<leftarrow> snd (get_related_limits th limit_id). if rl_limit_id l = lid then w else 0)"

definition weight_between ::
  "throttler \<Rightarrow> string \<Rightarrow> seconds \<Rightarrow> seconds \<Rightarrow> (seconds \<times> string) list \<Rightarrow> int" where
  "weight_between th lid from until hist =
     (\<Sum>(ts, limit_id) \<leftarrow> hist. if from \<le> ts \<and> ts \<le> until then request_weight th lid limit_id else 0)"

text \<open>A sensible configuration: no negative weight or interval, no limit linked to another twice or to itself.\<close>

definition limits_ok :: "throttler \<Rightarrow> bool" where
  "limits_ok th \<longleftrightarrow> 0 \<le> th_safety_margin_pct th \<and>
     (\<forall>(k, l) \<in> set (th_id_to_limit_map th).
        rl_limit_id l = k \<and> 0 \<le> rl_limit l \<and> 0 \<le> rl_time_interval l \<and> 0 \<le> rl_weight l \<and>
        (\<forall>p \<in> set (rl_linked_limits l). 0 \<le> ll_weight p) \<and>
        distinct (map ll_limit_id (rl_linked_limits l)) \<and>
        k \<notin> ll_limit_id ` set (rl_linked_limits l))"

lemma limits_okD:
  assumes "limits_ok th" "map_of (th_id_to_limit_map th) k = Some l"
  shows "rl_limit_id l = k" "0 \<le> rl_time_interval l" "0 \<le> rl_weight l"
    "p \<in> set (rl_linked_limits l) \<Longrightarrow> 0 \<le> ll_weight p"
    "distinct (map ll_limit_id (rl_linked_limits l))" "k \<notin> ll_limit_id ` set (rl_linked_limits l)"
    "0 \<le> rl_limit l"
  using assms(1) map_of_SomeD[OF assms(2)] by (auto simp: limits_ok_def)

text \<open>What is logged for a limit since a time, and what a list of requests logs.\<close>

definition logged_since :: "string \<Rightarrow> seconds \<Rightarrow> task_log list \<Rightarrow> int" where
  "logged_since lid c logs =
     (\<Sum>task \<leftarrow> logs. if rl_limit_id (tl_rate_limit task) = lid \<and> c \<le> tl_timestamp task
                      then tl_weight task else 0)"

definition request_tasks :: "throttler \<Rightarrow> seconds \<times> string \<Rightarrow> task_log list" where
  "request_tasks th r =
     (case get_related_limits th (snd r) of
        (None, _) \<Rightarrow> []
      | (Some l, related) \<Rightarrow> tasks_of l related (fst r))"

definition all_tasks :: "throttler \<Rightarrow> (seconds \<times> string) list \<Rightarrow> task_log list" where
  "all_tasks th hist = concat (map (request_tasks th) hist)"

lemma sum_remove1: "f y = (0::int) \<Longrightarrow> (\<Sum>x \<leftarrow> remove1 y xs. f x) = (\<Sum>x \<leftarrow> xs. f x)"
  by (induction xs) auto

lemma flush_from_sum:
  assumes "\<And>x. expired margin now x \<Longrightarrow> f x = (0::int)"
  shows "(\<Sum>x \<leftarrow> flush_from margin now i logs. f x) = (\<Sum>x \<leftarrow> logs. f x)"
  using assms
proof (induction margin now i logs rule: flush_from.induct)
  case (1 margin now i logs)
  then show ?case
    by (subst flush_from.simps) (auto simp: sum_remove1)
qed

lemma flush_from_subset: "set (flush_from margin now i logs) \<subseteq> set logs"
proof (induction margin now i logs rule: flush_from.induct)
  case (1 margin now i logs)
  then show ?case
    by (subst flush_from.simps) (auto split: if_splits dest!: subsetD dest: set_remove1_subset[THEN subsetD])
qed

lemma within_capacity_keeps:
  "within_capacity related now th = (b, th') \<Longrightarrow>
   th_id_to_limit_map th' = th_id_to_limit_map th \<and> th_task_logs th' = th_task_logs th \<and>
   th_safety_margin_pct th' = th_safety_margin_pct th"
  by (induction related now th rule: within_capacity.induct) (auto simp: Let_def warn_capacity_def split: if_splits)

lemma within_capacity_True:
  "within_capacity related now th = (True, th') \<Longrightarrow> (l, w) \<in> set related \<Longrightarrow>
   capacity_used (th_safety_margin_pct th) now (th_task_logs th) l + w \<le> rl_limit l"
  by (induction related now th rule: within_capacity.induct) (auto simp: Let_def split: if_splits)

text \<open>The requests depend on the limits only.\<close>

lemma related_cong:
  "th_id_to_limit_map th' = th_id_to_limit_map th \<Longrightarrow> get_related_limits th' = get_related_limits th"
  by (simp add: get_related_limits_def fun_eq_iff)

lemma throttler_step_keeps:
  assumes "throttler_step (th, clock, hist) (th', clock', hist')"
  shows "th_id_to_limit_map th' = th_id_to_limit_map th" "th_safety_margin_pct th' = th_safety_margin_pct th"
    "clock \<le> clock'"
  using assms
  by (auto elim!: throttler_stepE simp: flush_def log_request_def dest!: within_capacity_keeps split: option.splits)

lemma reachable_keeps:
  assumes "throttler_reachable th0 s"
  shows "th_id_to_limit_map (fst s) = th_id_to_limit_map th0 \<and>
         th_safety_margin_pct (fst s) = th_safety_margin_pct th0"
  using assms
proof induction
  case (step s s')
  then show ?case using throttler_step_keeps by (cases s; cases s') (metis fst_conv)
qed simp

text \<open>The limits related to a request are those of the configuration, each once.\<close>

lemma linked_known_set:
  "(l, w) \<in> set (linked_known m pairs) \<longleftrightarrow> (\<exists>p \<in> set pairs. map_of m (ll_limit_id p) = Some l \<and> w = ll_weight p)"
  by (induction pairs) (auto simp: linked_known_def map_filter_simps split: option.splits)

lemma linked_known_id_subset:
  assumes "limits_ok th"
  shows "(\<lambda>(l, w). rl_limit_id l) ` set (linked_known (th_id_to_limit_map th) pairs) \<subseteq> ll_limit_id ` set pairs"
proof safe
  fix l w assume "(l, w) \<in> set (linked_known (th_id_to_limit_map th) pairs)"
  then obtain p where "p \<in> set pairs" "map_of (th_id_to_limit_map th) (ll_limit_id p) = Some l"
    by (auto simp: linked_known_set)
  then show "rl_limit_id l \<in> ll_limit_id ` set pairs" using limits_okD(1)[OF assms] by blast
qed

lemma linked_known_ids:
  assumes "limits_ok th"
  shows "distinct (map ll_limit_id pairs) \<Longrightarrow>
         distinct (map (\<lambda>(l, w). rl_limit_id l) (linked_known (th_id_to_limit_map th) pairs))"
proof (induction pairs)
  case (Cons p pairs)
  show ?case
  proof (cases "map_of (th_id_to_limit_map th) (ll_limit_id p)")
    case None
    then show ?thesis using Cons by (simp add: linked_known_def map_filter_simps)
  next
    case (Some l)
    have "rl_limit_id l \<notin> (\<lambda>(l, w). rl_limit_id l) ` set (linked_known (th_id_to_limit_map th) pairs)"
      using Cons.prems limits_okD(1)[OF assms Some] linked_known_id_subset[OF assms, of pairs] by auto
    then show ?thesis using Cons Some by (simp add: linked_known_def map_filter_simps)
  qed
qed (simp add: linked_known_def map_filter_simps)

lemma related_props:
  assumes ok: "limits_ok th" and rel: "get_related_limits th k = (Some own, related)"
  shows "map_of (th_id_to_limit_map th) k = Some own"
    "distinct (map (\<lambda>(l, w). rl_limit_id l) related)"
    "(l, w) \<in> set related \<Longrightarrow> 0 \<le> w \<and> map_of (th_id_to_limit_map th) (rl_limit_id l) = Some l"
proof -
  show own: "map_of (th_id_to_limit_map th) k = Some own"
    using rel by (auto simp: get_related_limits_def Let_def split: option.splits)
  have related: "related = linked_known (th_id_to_limit_map th) (rl_linked_limits own) @ [(own, rl_weight own)]"
    using rel own by (auto simp: get_related_limits_def Let_def)
  note own_ok = limits_okD[OF ok own]
  have "k \<notin> (\<lambda>(l, w). rl_limit_id l) ` set (linked_known (th_id_to_limit_map th) (rl_linked_limits own))"
    using own_ok(6) linked_known_id_subset[OF ok, of "rl_linked_limits own"] by blast
  then show "distinct (map (\<lambda>(l, w). rl_limit_id l) related)"
    using linked_known_ids[OF ok own_ok(5)] own_ok(1) by (simp add: related)
  show "0 \<le> w \<and> map_of (th_id_to_limit_map th) (rl_limit_id l) = Some l" if "(l, w) \<in> set related"
    using that own_ok(1,3,4) own limits_okD(1)[OF ok] by (auto simp: related linked_known_set)
qed


text \<open>What a request logs for a limit: its weight, and its own weight once more.\<close>

definition request_load :: "throttler \<Rightarrow> string \<Rightarrow> string \<Rightarrow> int" where
  "request_load th lid limit_id =
     (\<Sum>task \<leftarrow> request_tasks th (0, limit_id).
        if rl_limit_id (tl_rate_limit task) = lid then tl_weight task else 0)"

definition load_between ::
  "throttler \<Rightarrow> string \<Rightarrow> seconds \<Rightarrow> seconds \<Rightarrow> (seconds \<times> string) list \<Rightarrow> int" where
  "load_between th lid from until hist =
     (\<Sum>(ts, limit_id) \<leftarrow> hist. if from \<le> ts \<and> ts \<le> until then request_load th lid limit_id else 0)"

lemma related_None:
  "get_related_limits th k = (None, related) \<Longrightarrow> related = []"
  by (auto simp: get_related_limits_def Let_def linked_known_def map_filter_simps split: option.splits)

lemma tasks_of_sum:
  "(\<Sum>task \<leftarrow> tasks_of l related now. if rl_limit_id (tl_rate_limit task) = lid then tl_weight task else (0::int)) =
     (if rl_limit_id l = lid then rl_weight l else 0) +
     (\<Sum>(l, w) \<leftarrow> related. if rl_limit_id l = lid then w else 0)"
proof -
  have "(\<Sum>task \<leftarrow> map (\<lambda>(limit, weight). \<lparr>tl_timestamp = now, tl_rate_limit = limit, tl_weight = weight\<rparr>) related.
          if rl_limit_id (tl_rate_limit task) = lid then tl_weight task else (0::int)) =
        (\<Sum>(l, w) \<leftarrow> related. if rl_limit_id l = lid then w else 0)"
    by (induction related) auto
  then show ?thesis by (simp add: tasks_of_def)
qed

lemma request_load:
  assumes "get_related_limits th limit_id = (Some l, related)"
  shows "request_load th lid limit_id =
           (if rl_limit_id l = lid then rl_weight l else 0) + request_weight th lid limit_id"
  using assms by (simp add: request_load_def request_tasks_def request_weight_def tasks_of_sum)

lemma request_logged:
  "logged_since lid c (request_tasks th (ts, limit_id)) = (if c \<le> ts then request_load th lid limit_id else 0)"
proof (cases "get_related_limits th limit_id")
  case (Pair own related)
  show ?thesis
  proof (cases own)
    case None
    then show ?thesis using Pair by (simp add: logged_since_def request_load_def request_tasks_def)
  next
    case (Some l)
    have tasks: "\<forall>task \<in> set (tasks_of l related ts). tl_timestamp task = ts" by (auto simp: tasks_of_def)
    have "logged_since lid c (tasks_of l related ts) =
          (\<Sum>task \<leftarrow> tasks_of l related ts.
             if c \<le> ts then (if rl_limit_id (tl_rate_limit task) = lid then tl_weight task else 0) else 0)"
      unfolding logged_since_def by (rule arg_cong[where f = sum_list]) (use tasks in auto)
    also have "\<dots> = (if c \<le> ts then request_load th lid limit_id else 0)"
      using Pair Some request_load[of th limit_id l related lid]
      by (simp add: tasks_of_sum request_weight_def)
    finally show ?thesis using Pair Some by (simp add: request_tasks_def)
  qed
qed

lemma logged_since_append [simp]:
  "logged_since lid c (xs @ ys) = logged_since lid c xs + logged_since lid c ys"
  by (simp add: logged_since_def)

lemma all_tasks_logged:
  "logged_since lid c (all_tasks th hist) =
     (\<Sum>(ts, limit_id) \<leftarrow> hist. if c \<le> ts then request_load th lid limit_id else 0)"
  by (induction hist) (auto simp: all_tasks_def request_logged logged_since_def[of _ _ "[]"])

lemma request_weight_nonneg:
  assumes "limits_ok th"
  shows "0 \<le> request_weight th lid limit_id"
proof (cases "get_related_limits th limit_id")
  case (Pair own related)
  show ?thesis
  proof (cases own)
    case None
    then show ?thesis using related_None Pair by (force simp: request_weight_def)
  next
    case (Some l)
    then show ?thesis
      using related_props(3)[OF assms] Pair
      by (auto simp: request_weight_def intro!: sum_list_nonneg)
  qed
qed

lemma request_load_bounds:
  assumes "limits_ok th"
  shows "request_weight th lid limit_id \<le> request_load th lid limit_id" "0 \<le> request_load th lid limit_id"
proof -
  show le: "request_weight th lid limit_id \<le> request_load th lid limit_id"
  proof (cases "get_related_limits th limit_id")
    case (Pair own related)
    show ?thesis
    proof (cases own)
      case None
      then show ?thesis
        using related_None[of th limit_id related] Pair
        by (simp add: request_weight_def request_load_def request_tasks_def)
    next
      case (Some l)
      have "map_of (th_id_to_limit_map th) limit_id = Some l"
        using related_props(1)[OF assms] Pair Some by simp
      then show ?thesis using request_load[of th limit_id l related lid] Pair Some limits_okD(3)[OF assms] by simp
    qed
  qed
  show "0 \<le> request_load th lid limit_id" using le request_weight_nonneg[OF assms, of lid limit_id] by linarith
qed

lemma load_between_mono:
  assumes "limits_ok th" "c \<le> from"
  shows "load_between th lid from until hist \<le> logged_since lid c (all_tasks th hist)"
  unfolding load_between_def all_tasks_logged
  by (rule sum_list_mono) (use assms request_load_bounds(2)[OF assms(1)] in \<open>auto split: prod.splits\<close>)

lemma weight_between_le_load:
  assumes "limits_ok th"
  shows "weight_between th lid from until hist \<le> load_between th lid from until hist"
  unfolding load_between_def weight_between_def
  by (rule sum_list_mono) (use request_load_bounds(1)[OF assms] in \<open>auto split: prod.splits\<close>)


subsection \<open>The invariant\<close>

definition logs_ok :: "throttler \<Rightarrow> bool" where
  "logs_ok th \<longleftrightarrow> (\<forall>task \<in> set (th_task_logs th).
     map_of (th_id_to_limit_map th) (rl_limit_id (tl_rate_limit task)) = Some (tl_rate_limit task) \<and>
     0 \<le> tl_weight task)"

definition log_complete :: "throttled \<Rightarrow> bool" where
  "log_complete s \<longleftrightarrow> (case s of (th, clock, hist) \<Rightarrow>
     \<forall>lid l c. map_of (th_id_to_limit_map th) lid = Some l \<longrightarrow> clock - window (th_safety_margin_pct th) l \<le> c \<longrightarrow>
       logged_since lid c (th_task_logs th) = logged_since lid c (all_tasks th hist))"

definition within_limits :: "throttled \<Rightarrow> bool" where
  "within_limits s \<longleftrightarrow> (case s of (th, clock, hist) \<Rightarrow>
     \<forall>lid l T. map_of (th_id_to_limit_map th) lid = Some l \<longrightarrow>
       weight_between th lid (T - window (th_safety_margin_pct th) l) T hist \<le> rl_limit l \<and>
       load_between th lid (T - window (th_safety_margin_pct th) l) T hist \<le> rl_limit l + rl_weight l)"

definition throttler_inv :: "throttled \<Rightarrow> bool" where
  "throttler_inv s \<longleftrightarrow> limits_ok (fst s) \<and> logs_ok (fst s) \<and> log_complete s \<and> within_limits s"

lemma logs_okD:
  "logs_ok th \<Longrightarrow> task \<in> set (th_task_logs th) \<Longrightarrow>
   map_of (th_id_to_limit_map th) (rl_limit_id (tl_rate_limit task)) = Some l \<Longrightarrow> tl_rate_limit task = l"
  by (simp add: logs_ok_def)

lemma capacity_used_logged:
  assumes "logs_ok th" "map_of (th_id_to_limit_map th) lid = Some l" "rl_limit_id l = lid"
  shows "capacity_used (th_safety_margin_pct th) now (th_task_logs th) l =
         logged_since lid (now - window (th_safety_margin_pct th) l) (th_task_logs th)"
proof -
  have "counts_for (th_safety_margin_pct th) now l task \<longleftrightarrow>
        rl_limit_id (tl_rate_limit task) = lid \<and> now - window (th_safety_margin_pct th) l \<le> tl_timestamp task"
    if "task \<in> set (th_task_logs th)" for task
  proof (cases "rl_limit_id (tl_rate_limit task) = lid")
    case True
    then have "tl_rate_limit task = l" using logs_okD[OF assms(1) that] assms(2) by simp
    then show ?thesis using assms(3) by (auto simp: counts_for_def window_def)
  qed (simp add: counts_for_def assms(3))
  then show ?thesis
    unfolding capacity_used_def logged_since_def
    by (intro arg_cong[where f = sum_list] map_cong[OF refl]) simp
qed

lemma flush_simps [simp]:
  "th_id_to_limit_map (flush now th) = th_id_to_limit_map th"
  "th_safety_margin_pct (flush now th) = th_safety_margin_pct th"
  by (simp_all add: flush_def)

lemma flush_logs_ok: "logs_ok th \<Longrightarrow> logs_ok (flush now th)"
  using flush_from_subset[of "th_safety_margin_pct th" now 0 "th_task_logs th"]
  by (auto simp: logs_ok_def flush_def)

lemma flush_logged:
  assumes "logs_ok th" "map_of (th_id_to_limit_map th) lid = Some l"
    and c: "now - window (th_safety_margin_pct th) l \<le> c"
  shows "logged_since lid c (th_task_logs (flush now th)) = logged_since lid c (th_task_logs th)"
proof -
  let ?f = "\<lambda>task. if rl_limit_id (tl_rate_limit task) = lid \<and> tl_rate_limit task = l \<and> c \<le> tl_timestamp task
                   then tl_weight task else 0"
  have eq: "logged_since lid c logs = (\<Sum>task \<leftarrow> logs. ?f task)" if "set logs \<subseteq> set (th_task_logs th)" for logs
  proof -
    have "tl_rate_limit task = l" if "task \<in> set logs" "rl_limit_id (tl_rate_limit task) = lid" for task
      by (rule logs_okD[OF assms(1)]) (use that \<open>set logs \<subseteq> _\<close> assms(2) in auto)
    then have "(if rl_limit_id (tl_rate_limit task) = lid \<and> c \<le> tl_timestamp task then tl_weight task else 0) = ?f task"
      if "task \<in> set logs" for task using that by metis
    then show ?thesis
      unfolding logged_since_def by (intro arg_cong[where f = sum_list] map_cong[OF refl])
  qed
  have zero: "?f task = 0" if "expired (th_safety_margin_pct th) now task" for task
    using that c by (auto simp: expired_def window_def)
  have "logged_since lid c (th_task_logs (flush now th)) = (\<Sum>task \<leftarrow> th_task_logs (flush now th). ?f task)"
    by (rule eq) (simp add: flush_def flush_from_subset)
  also have "\<dots> = (\<Sum>task \<leftarrow> th_task_logs th. ?f task)"
    unfolding flush_def by (simp add: flush_from_sum[of "th_safety_margin_pct th" now ?f, OF zero])
  also have "\<dots> = logged_since lid c (th_task_logs th)" by (rule eq[symmetric]) simp
  finally show ?thesis .
qed

lemma request_fits:
  assumes inv: "throttler_inv (th, clock, hist)" and t: "clock \<le> t1" "t1 \<le> t2" "t2 \<le> t3"
    and rel: "get_related_limits th limit_id = (Some own, related)"
    and free: "within_capacity related t2 (flush t1 th) = (True, th1)"
    and l: "map_of (th_id_to_limit_map th) lid = Some l" and T: "t3 \<le> T"
    and nz: "request_load th lid limit_id \<noteq> 0"
  shows "load_between th lid (T - window (th_safety_margin_pct th) l) T hist + request_weight th lid limit_id \<le> rl_limit l"
proof -
  let ?W = "window (th_safety_margin_pct th) l"
  have ok: "limits_ok th" "logs_ok th" "log_complete (th, clock, hist)" using inv by (simp_all add: throttler_inv_def)
  note rp = related_props[OF ok(1) rel]
  have lid: "rl_limit_id l = lid" by (rule limits_okD(1)[OF ok(1) l])
  have own: "rl_limit_id own = limit_id" by (rule limits_okD(1)[OF ok(1) rp(1)])
  have "\<exists>w. (l, w) \<in> set related"
  proof (cases "limit_id = lid")
    case True
    then show ?thesis using rel l by (auto simp: get_related_limits_def Let_def split: option.splits)
  next
    case False
    then have "request_weight th lid limit_id \<noteq> 0" using nz request_load[OF rel, of lid] own by simp
    moreover have "request_weight th lid limit_id = (\<Sum>x \<leftarrow> related. if rl_limit_id (fst x) = lid then snd x else 0)"
      using rel by (simp add: request_weight_def case_prod_beta')
    ultimately have "lid \<in> (\<lambda>x. rl_limit_id (fst x)) ` set related"
      using sum_key_none[of lid "\<lambda>x. rl_limit_id (fst x)" related snd] by auto
    then have "\<exists>x \<in> set related. rl_limit_id (fst x) = lid" by auto
    then show ?thesis using rp(3) l by fastforce
  qed
  then obtain w where w: "(l, w) \<in> set related" by blast
  have "request_weight th lid limit_id = w"
    using sum_key_distinct[of "\<lambda>x. rl_limit_id (fst x)" related "(l, w)" snd] rp(2) w rel lid
    by (simp add: request_weight_def case_prod_beta' comp_def)
  moreover have "capacity_used (th_safety_margin_pct th) t2 (th_task_logs (flush t1 th)) l + w \<le> rl_limit l"
    using within_capacity_True[OF free w] by simp
  moreover have "capacity_used (th_safety_margin_pct th) t2 (th_task_logs (flush t1 th)) l =
      logged_since lid (t2 - ?W) (th_task_logs (flush t1 th))"
    using capacity_used_logged[OF flush_logs_ok[OF ok(2)], of t1 lid l t2] l lid by simp
  moreover have "logged_since lid (t2 - ?W) (th_task_logs (flush t1 th)) = logged_since lid (t2 - ?W) (th_task_logs th)"
    by (rule flush_logged[OF ok(2) l]) (use t in simp)
  moreover have "logged_since lid (t2 - ?W) (th_task_logs th) = logged_since lid (t2 - ?W) (all_tasks th hist)"
  proof -
    have "clock - ?W \<le> t2 - ?W" using t by simp
    then show ?thesis using ok(3) l by (simp add: log_complete_def)
  qed
  moreover have "load_between th lid (T - ?W) T hist \<le> logged_since lid (t2 - ?W) (all_tasks th hist)"
    by (rule load_between_mono[OF ok(1)]) (use t T in simp)
  ultimately show ?thesis by linarith
qed


text \<open>Weights and logs depend on the configured limits only.\<close>

lemma config_cong:
  assumes "th_id_to_limit_map th' = th_id_to_limit_map th"
  shows "request_weight th' = request_weight th" "request_load th' = request_load th"
    "all_tasks th' = all_tasks th" "weight_between th' = weight_between th" "load_between th' = load_between th"
proof -
  note rel = related_cong[OF assms]
  show w: "request_weight th' = request_weight th" by (simp add: request_weight_def rel fun_eq_iff)
  have tasks: "request_tasks th' = request_tasks th" by (simp add: request_tasks_def rel fun_eq_iff)
  show l: "request_load th' = request_load th" by (simp add: request_load_def tasks fun_eq_iff)
  show "all_tasks th' = all_tasks th" by (simp add: all_tasks_def tasks fun_eq_iff)
  show "weight_between th' = weight_between th" unfolding weight_between_def w ..
  show "load_between th' = load_between th" unfolding load_between_def l ..
qed

lemma inv_wait:
  assumes inv: "throttler_inv (th, clock, hist)" and t: "clock \<le> t1" "t1 \<le> t2"
    and th1: "th_id_to_limit_map th1 = th_id_to_limit_map th" "th_safety_margin_pct th1 = th_safety_margin_pct th"
      "th_task_logs th1 = th_task_logs (flush t1 th)"
  shows "throttler_inv (th1, t2, hist)"
proof -
  have ok: "limits_ok th" "logs_ok th" "log_complete (th, clock, hist)" "within_limits (th, clock, hist)"
    using inv by (simp_all add: throttler_inv_def)
  have "limits_ok th1" using ok(1) th1 by (simp add: limits_ok_def)
  moreover have "logs_ok th1" using flush_logs_ok[OF ok(2), of t1] th1 by (simp add: logs_ok_def)
  moreover have "log_complete (th1, t2, hist)"
    unfolding log_complete_def prod.case
  proof (intro allI impI)
    fix lid l c
    assume l: "map_of (th_id_to_limit_map th1) lid = Some l" and c: "t2 - window (th_safety_margin_pct th1) l \<le> c"
    have "logged_since lid c (th_task_logs th1) = logged_since lid c (th_task_logs th)"
      using flush_logged[OF ok(2), of lid l t1 c] l c t th1 by simp
    also have "\<dots> = logged_since lid c (all_tasks th hist)"
      using ok(3) l c t th1 by (simp add: log_complete_def)
    finally show "logged_since lid c (th_task_logs th1) = logged_since lid c (all_tasks th1 hist)"
      by (simp add: config_cong(3)[OF th1(1)])
  qed
  moreover have "within_limits (th1, t2, hist)"
    using ok(4) th1 by (simp add: within_limits_def config_cong[OF th1(1)])
  ultimately show ?thesis by (simp add: throttler_inv_def)
qed

lemma weight_snoc:
  "weight_between th lid from until (hist @ [(ts, k)]) =
     weight_between th lid from until hist + (if from \<le> ts \<and> ts \<le> until then request_weight th lid k else 0)"
  "load_between th lid from until (hist @ [(ts, k)]) =
     load_between th lid from until hist + (if from \<le> ts \<and> ts \<le> until then request_load th lid k else 0)"
  by (simp_all add: weight_between_def load_between_def)

lemma request_within_limits:
  assumes inv: "throttler_inv (th, clock, hist)" and t: "clock \<le> t1" "t1 \<le> t2" "t2 \<le> t3"
    and rel: "get_related_limits th limit_id = (Some own, related)"
    and free: "within_capacity related t2 (flush t1 th) = (True, th1)"
  shows "within_limits (th, t3, hist @ [(t3, limit_id)])"
  unfolding within_limits_def prod.case
proof (intro allI impI)
  fix lid l T
  assume l: "map_of (th_id_to_limit_map th) lid = Some l"
  let ?from = "T - window (th_safety_margin_pct th) l"
  have ok: "limits_ok th" using inv by (simp add: throttler_inv_def)
  have old: "weight_between th lid ?from T hist \<le> rl_limit l" "load_between th lid ?from T hist \<le> rl_limit l + rl_weight l"
    using inv l by (simp_all add: throttler_inv_def within_limits_def)
  note bounds = request_load_bounds[OF ok, of lid limit_id] request_weight_nonneg[OF ok, of lid limit_id]
  show "weight_between th lid ?from T (hist @ [(t3, limit_id)]) \<le> rl_limit l \<and>
        load_between th lid ?from T (hist @ [(t3, limit_id)]) \<le> rl_limit l + rl_weight l"
  proof (cases "?from \<le> t3 \<and> t3 \<le> T \<and> request_load th lid limit_id \<noteq> 0")
    case True
    have fits: "load_between th lid ?from T hist + request_weight th lid limit_id \<le> rl_limit l"
      by (rule request_fits[OF inv t rel free l]) (use True in auto)
    have own_map: "map_of (th_id_to_limit_map th) limit_id = Some own" by (rule related_props(1)[OF ok rel])
    have "request_load th lid limit_id \<le> rl_weight l + request_weight th lid limit_id"
      using request_load[OF rel, of lid] limits_okD(1)[OF ok own_map] own_map l limits_okD(3)[OF ok l]
      by (cases "limit_id = lid") auto
    then show ?thesis
      using fits True weight_between_le_load[OF ok, of lid ?from T hist] by (simp add: weight_snoc)
  next
    case False
    then have "(if ?from \<le> t3 \<and> t3 \<le> T then request_load th lid limit_id else 0) = 0"
      "(if ?from \<le> t3 \<and> t3 \<le> T then request_weight th lid limit_id else 0) = 0"
      using bounds by auto
    then show ?thesis using old by (simp only: weight_snoc) simp
  qed
qed

lemma inv_step:
  assumes inv: "throttler_inv s" and step: "throttler_step s s'"
  shows "throttler_inv s'"
  using step inv
proof cases
  case (wait clock t1 t2 th limit_id th1 hist)
  show ?thesis
    unfolding wait(2)
    by (rule inv_wait[of th clock hist t1]) (use wait inv within_capacity_keeps[OF wait(5)] in auto)
next
  case (proceed clock t1 t2 t3 th limit_id th1 th2 hist)
  let ?ctx = "execute_task th limit_id"
  have inv': "throttler_inv (th, clock, hist)" using inv proceed(1) by simp
  have kept: "th_id_to_limit_map th1 = th_id_to_limit_map th" "th_task_logs th1 = th_task_logs (flush t1 th)"
    "th_safety_margin_pct th1 = th_safety_margin_pct th"
    using within_capacity_keeps[OF proceed(6)] by auto
  obtain own where own: "rc_rate_limit ?ctx = Some own"
    and th2: "th2 = th1\<lparr>th_task_logs := th_task_logs th1 @ tasks_of own (rc_related_limits ?ctx) t3\<rparr>"
    using proceed(7) by (auto simp: log_request_def split: option.splits)
  have rel: "get_related_limits th limit_id = (Some own, rc_related_limits ?ctx)"
    using own by (auto simp: execute_task_def split: prod.splits)
  have tasks: "tasks_of own (rc_related_limits ?ctx) t3 = request_tasks th (t3, limit_id)"
    using rel by (simp add: request_tasks_def)
  have m2: "th_id_to_limit_map th2 = th_id_to_limit_map th" "th_safety_margin_pct th2 = th_safety_margin_pct th"
    using th2 kept by simp_all
  have inv1: "throttler_inv (th1, t3, hist)"
    by (rule inv_wait[OF inv' proceed(3)]) (use proceed kept in auto)
  have ok: "limits_ok th" using inv' by (simp add: throttler_inv_def)
  have "limits_ok th2" using ok m2 by (simp add: limits_ok_def)
  moreover have "logs_ok th2"
    using inv1 kept related_props(1,3)[OF ok rel] limits_okD(1,3)[OF ok] m2
    by (auto simp: throttler_inv_def logs_ok_def th2 tasks_of_def)
  moreover have "log_complete (th2, t3, hist @ [(t3, limit_id)])"
  proof -
    have split: "all_tasks th2 (hist @ [(t3, limit_id)]) = all_tasks th hist @ request_tasks th (t3, limit_id)"
      unfolding config_cong(3)[OF m2(1)] by (simp add: all_tasks_def)
    have logs: "th_task_logs th2 = th_task_logs th1 @ request_tasks th (t3, limit_id)" by (simp add: th2 tasks)
    have "log_complete (th1, t3, hist)" using inv1 by (simp add: throttler_inv_def)
    then show ?thesis
      unfolding log_complete_def prod.case split logs logged_since_append m2 kept(1,3) config_cong(3)[OF kept(1)]
      by simp
  qed
  moreover have "within_limits (th2, t3, hist @ [(t3, limit_id)])"
    using request_within_limits[OF inv' proceed(3-5) rel proceed(6)] m2
    by (simp add: within_limits_def config_cong[OF m2(1)])
  ultimately show ?thesis by (simp add: throttler_inv_def proceed(2))
qed


lemma throttler_reachable_inv:
  assumes "throttler_reachable th0 s" "limits_ok th0" "th_task_logs th0 = []"
  shows "throttler_inv s"
  using assms(1)
proof induction
  case (start clock)
  have "weight_between th0 lid a b [] = 0" "load_between th0 lid a b [] = 0" for lid a b
    by (simp_all add: weight_between_def load_between_def)
  then show ?case
    using assms(2,3) limits_okD(3,7)[OF assms(2)]
    by (auto simp: throttler_inv_def logs_ok_def log_complete_def within_limits_def all_tasks_def)
next
  case (step s s')
  then show ?case using inv_step by blast
qed

text \<open>
  C6: in every run of a throttler (from a sensible configuration, with a clock that does not go back),
  whatever the interleaving of the requests, the weight of the requests let through in any window of
  a limit's length (its interval plus the safety margin) is at most the limit.
\<close>

theorem rate_limits_respected:
  assumes "throttler_reachable (new_throttler limits retry margin pct) (th, clock, hist)"
    and "limits_ok (new_throttler limits retry margin pct)"
    and "map_of (th_id_to_limit_map th) lid = Some l"
  shows "weight_between th lid (T - window margin l) T hist \<le> rl_limit l"
proof -
  have inv: "throttler_inv (th, clock, hist)"
    by (rule throttler_reachable_inv[OF assms(1,2)]) (simp add: new_throttler_def)
  have "th_safety_margin_pct th = margin" using reachable_keeps[OF assms(1)] by (simp add: new_throttler_def)
  then show ?thesis using inv assms(3) by (auto simp: throttler_inv_def within_limits_def)
qed

text \<open>
  \<^verbatim>\<open>acquire\<close> logs a request for its own limit twice, once directly and once as a related limit, so of
  a limit no other limit is linked to, only half the configured calls go through: twice the weight
  let through in a window is at most the limit plus the weight of one call.
\<close>

theorem own_requests_halved:
  assumes "throttler_reachable (new_throttler limits retry margin pct) (th, clock, hist)"
    and "limits_ok (new_throttler limits retry margin pct)"
    and "map_of (th_id_to_limit_map th) lid = Some l"
    and "\<forall>r \<in> set hist. snd r \<noteq> lid \<longrightarrow> request_weight th lid (snd r) = 0"
  shows "2 * weight_between th lid (T - window margin l) T hist \<le> rl_limit l + rl_weight l"
proof -
  have inv: "throttler_inv (th, clock, hist)"
    by (rule throttler_reachable_inv[OF assms(1,2)]) (simp add: new_throttler_def)
  have margin: "th_safety_margin_pct th = margin" using reachable_keeps[OF assms(1)] by (simp add: new_throttler_def)
  have ok: "limits_ok th" using inv by (simp add: throttler_inv_def)
  obtain related where rel: "get_related_limits th lid = (Some l, related)"
    using assms(3) by (auto simp: get_related_limits_def Let_def)
  have weight: "request_weight th lid lid = rl_weight l"
  proof -
    have "lid \<notin> (\<lambda>x. rl_limit_id (fst x)) ` set (linked_known (th_id_to_limit_map th) (rl_linked_limits l))"
      using linked_known_id_subset[OF ok, of "rl_linked_limits l"] limits_okD(6)[OF ok assms(3)] by force
    from sum_key_none[OF this, of snd] show ?thesis
      using assms(3) limits_okD(1)[OF ok assms(3)]
      by (simp add: request_weight_def get_related_limits_def Let_def case_prod_beta')
  qed
  have load: "request_load th lid k = 2 * request_weight th lid k" if "(ts, k) \<in> set hist" for ts k
  proof (cases "k = lid")
    case True
    then show ?thesis using request_load[OF rel, of lid] limits_okD(1)[OF ok assms(3)] weight by simp
  next
    case False
    then have zero: "request_weight th lid k = 0" using assms(4) that by force
    show ?thesis
    proof (cases "map_of (th_id_to_limit_map th) k")
      case None
      then show ?thesis using zero by (simp add: request_load_def request_tasks_def get_related_limits_def Let_def)
    next
      case (Some own)
      then obtain related' where "get_related_limits th k = (Some own, related')"
        by (auto simp: get_related_limits_def Let_def)
      from request_load[OF this, of lid] show ?thesis using limits_okD(1)[OF ok Some] False zero by simp
    qed
  qed
  have "load_between th lid a b hist' = 2 * weight_between th lid a b hist'"
    if "set hist' \<subseteq> set hist" for a b hist'
    using that by (induction hist') (auto simp: load_between_def weight_between_def load)
  from this[OF subset_refl] have eq:
    "load_between th lid (T - window margin l) T hist = 2 * weight_between th lid (T - window margin l) T hist" .
  have "load_between th lid (T - window margin l) T hist \<le> rl_limit l + rl_weight l"
    using inv assms(3) unfolding throttler_inv_def within_limits_def prod.case margin by blast
  then show ?thesis by (simp add: eq)
qed


subsection \<open>Progress\<close>

text \<open>A time by which every logged task has expired.\<close>

definition all_expired_by :: "rat \<Rightarrow> task_log list \<Rightarrow> seconds" where
  "all_expired_by margin logs =
     1 + (\<Sum>task \<leftarrow> logs. \<bar>tl_timestamp task\<bar> + \<bar>window margin (tl_rate_limit task)\<bar>)"

lemma all_expired_by_covers:
  assumes "task \<in> set logs" "all_expired_by margin logs \<le> now"
  shows "\<not> counts_for margin now l task"
proof -
  have "\<bar>tl_timestamp task\<bar> + \<bar>window margin (tl_rate_limit task)\<bar> \<le>
        (\<Sum>task \<leftarrow> logs. \<bar>tl_timestamp task\<bar> + \<bar>window margin (tl_rate_limit task)\<bar>)"
    using assms(1) by (intro member_le_sum_list) auto
  then have "tl_timestamp task + window margin (tl_rate_limit task) < now"
    using assms(2) by (simp add: all_expired_by_def)
  then show ?thesis by (auto simp: counts_for_def window_def)
qed

lemma within_capacity_idle:
  assumes "\<forall>task \<in> set (th_task_logs th). \<forall>l. \<not> counts_for (th_safety_margin_pct th) now l task"
  shows "\<forall>(l, w) \<in> set related. w \<le> rl_limit l \<Longrightarrow> within_capacity related now th = (True, th)"
proof (induction related)
  case (Cons r related)
  have "capacity_used (th_safety_margin_pct th) now (th_task_logs th) l = 0" for l
    using assms by (simp add: capacity_used_def cong: map_cong)
  then show ?case using Cons by (cases r) auto
qed simp


lemma capacity_used_nonneg: "logs_ok th \<Longrightarrow> 0 \<le> capacity_used margin now (th_task_logs th) l"
  unfolding capacity_used_def by (intro sum_list_nonneg) (auto simp: logs_ok_def)

text \<open>
  C27: a request (of a reachable throttler, with a known limit) is let through by every pass that comes
  late enough if and only if its weight for each related limit is at most that limit; a request
  heavier than a limit, for example after the limit was scaled down to the configured share, waits
  forever.
\<close>

theorem acquire_progress:
  assumes "throttler_reachable (new_throttler limits retry margin pct) (th, clock, hist)"
    and "limits_ok (new_throttler limits retry margin pct)"
    and "get_related_limits th limit_id = (Some own, related)"
  shows "(\<exists>t. \<forall>t1 t2 t3. t \<le> t1 \<longrightarrow> t1 \<le> t2 \<longrightarrow>
            (\<exists>th'. acquire (execute_task th limit_id) [(t1, t2, t3)] th = Inr (True, th'))) \<longleftrightarrow>
         (\<forall>(l, w) \<in> set related. w \<le> rl_limit l)"
proof
  have inv: "throttler_inv (th, clock, hist)"
    by (rule throttler_reachable_inv[OF assms(1,2)]) (simp add: new_throttler_def)
  have ctx: "rc_related_limits (execute_task th limit_id) = related"
    "rc_rate_limit (execute_task th limit_id) = Some own"
    using assms(3) by (simp_all add: execute_task_def)
  { assume "\<exists>t. \<forall>t1 t2 t3. t \<le> t1 \<longrightarrow> t1 \<le> t2 \<longrightarrow>
            (\<exists>th'. acquire (execute_task th limit_id) [(t1, t2, t3)] th = Inr (True, th'))"
    then obtain t th' where run: "acquire (execute_task th limit_id) [(t, t, t)] th = Inr (True, th')" by blast
    then obtain th1 where free: "within_capacity related t (flush t th) = (True, th1)"
      by (auto simp: ctx Let_def split: prod.splits if_splits)
    have logs: "logs_ok (flush t th)" using inv flush_logs_ok by (simp add: throttler_inv_def)
    have "w \<le> rl_limit l" if "(l, w) \<in> set related" for l w
      using within_capacity_True[OF free that]
        capacity_used_nonneg[OF logs, of "th_safety_margin_pct (flush t th)" t l] by linarith
    then show "\<forall>(l, w) \<in> set related. w \<le> rl_limit l" by blast }
  { assume small: "\<forall>(l, w) \<in> set related. w \<le> rl_limit l"
    let ?t = "all_expired_by (th_safety_margin_pct th) (th_task_logs th)"
    have "\<exists>th'. acquire (execute_task th limit_id) [(t1, t2, t3)] th = Inr (True, th')"
      if t: "?t \<le> t1" "t1 \<le> t2" for t1 t2 t3
    proof -
      have "within_capacity related t2 (flush t1 th) = (True, flush t1 th)"
      proof (rule within_capacity_idle[OF _ small], intro ballI allI)
        fix task l assume "task \<in> set (th_task_logs (flush t1 th))"
        then have "task \<in> set (th_task_logs th)"
          using flush_from_subset by (fastforce simp: flush_def)
        then show "\<not> counts_for (th_safety_margin_pct (flush t1 th)) t2 l task"
          using all_expired_by_covers[of task "th_task_logs th" "th_safety_margin_pct th" t2 l] t by simp
      qed
      then show ?thesis by (simp add: ctx log_request_def)
    qed
    then show "\<exists>t. \<forall>t1 t2 t3. t \<le> t1 \<longrightarrow> t1 \<le> t2 \<longrightarrow>
            (\<exists>th'. acquire (execute_task th limit_id) [(t1, t2, t3)] th = Inr (True, th'))" by blast }
qed

text \<open>An identifier without a limit fails when the request is logged.\<close>

lemma unknown_limit_raises:
  "map_of (th_id_to_limit_map th) limit_id = None \<Longrightarrow>
   acquire (execute_task th limit_id) ((t1, t2, t3) # passes) th = Inl AttributeError"
  by (simp add: execute_task_def get_related_limits_def linked_known_def map_filter_simps log_request_def)

lemma acquire_step:
  assumes "acquire (execute_task th limit_id) [(t1, t2, t3)] th = Inr (True, th')"
    and "clock \<le> t1" "t1 \<le> t2" "t2 \<le> t3"
  shows "throttler_step (th, clock, hist) (th', t3, hist @ [(t3, limit_id)])"
  using assms
  by (auto simp: Let_def bind_err_eq_Inr intro: throttler_step.proceed split: prod.splits if_splits)

subsection \<open>A concrete throttler\<close>

definition sample_limits :: "rate_limit list" where
  "sample_limits =
     [new_rate_limit ''all'' 20 1 1 None,
      new_rate_limit ''/order'' 4 1 1 (Some [\<lparr>ll_limit_id = ''all'', ll_weight = 2\<rparr>])]"

definition sample_throttler :: throttler where
  "sample_throttler = new_throttler sample_limits (1/10) (1/20) 100"

definition sample_after :: throttler where
  "sample_after = snd (projr (acquire (execute_task sample_throttler ''/order'') [(1, 1, 1)] sample_throttler))"

definition sample_order_limit :: rate_limit where
  "sample_order_limit = new_rate_limit ''/order'' 4 1 1 (Some [\<lparr>ll_limit_id = ''all'', ll_weight = 2\<rparr>])"

lemma sample_first: "acquire (execute_task sample_throttler ''/order'') [(1, 1, 1)] sample_throttler = Inr (True, sample_after)"
  by code_simp

lemma sample_reachable:
  "throttler_reachable (new_throttler sample_limits (1/10) (1/20) 100) (sample_after, 1, [(1, ''/order'')])"
proof -
  have "throttler_reachable sample_throttler (sample_throttler, 1, [])" by (rule throttler_reachable.start)
  from throttler_reachable.step[OF this acquire_step[OF sample_first, of 1]]
  show ?thesis by (simp add: sample_throttler_def)
qed

lemma sample_limits_ok: "limits_ok (new_throttler sample_limits (1/10) (1/20) 100)"
  by code_simp

lemma sample_limit: "map_of (th_id_to_limit_map sample_after) ''/order'' = Some sample_order_limit"
  by code_simp

lemma sample_related:
  "get_related_limits sample_after ''/order'' =
     (Some sample_order_limit, [(new_rate_limit ''all'' 20 1 1 None, 2), (sample_order_limit, 1)])"
  by code_simp

lemma sample_history: "\<forall>r \<in> set [(1::seconds, ''/order'')].
    snd r \<noteq> ''/order'' \<longrightarrow> request_weight sample_after ''/order'' (snd r) = 0"
  by simp

lemma rate_limits_respected_witness:
  "weight_between sample_after ''/order'' (2 - window (1/20) sample_order_limit) 2 [(1, ''/order'')] \<le> 4"
  using rate_limits_respected[OF sample_reachable sample_limits_ok sample_limit, of 2]
  by (simp add: sample_order_limit_def new_rate_limit_def)

lemma own_requests_halved_witness:
  "2 * weight_between sample_after ''/order'' (2 - window (1/20) sample_order_limit) 2 [(1, ''/order'')] \<le> 5"
  using own_requests_halved[OF sample_reachable sample_limits_ok sample_limit sample_history, of 2]
  by (simp add: sample_order_limit_def new_rate_limit_def)

lemma acquire_progress_witness:
  "\<exists>t. \<forall>t1 t2 t3. t \<le> t1 \<longrightarrow> t1 \<le> t2 \<longrightarrow>
     (\<exists>th'. acquire (execute_task sample_after ''/order'') [(t1, t2, t3)] sample_after = Inr (True, th'))"
  by (rule acquire_progress[OF sample_reachable sample_limits_ok sample_related, THEN iffD2])
    (simp add: sample_order_limit_def new_rate_limit_def)

end
