(* ===== verification/Spot_Perp_Arb.thy ===== *)
theory Spot_Perp_Arb
  imports Budget_Checker
begin

text \<open>
  \<^verbatim>\<open>strategy/spot_perpetual_arbitrage\<close>: the strategy that buys on a spot market what it sells on a
  perpetual market (or the reverse) when the prices differ enough, and unwinds the position when they
  differ enough the other way.

  The parameters of the strategy are \<open>spa_params\<close>, its attributes \<open>spa_state\<close>.  What a step reads of the
  two connectors and the clock is \<open>spa_env\<close>; the calls a step makes on them are appended to \<open>sp_calls\<close>.
  The coroutine \<^verbatim>\<open>main\<close> runs as a task: it is scheduled by \<open>tick\<close>, runs up to the price queries
  (\<open>main_start\<close>), and continues with their results (\<open>main_resume\<close>); events and ticks step in between.
  The two market infos belong to different connectors.  A price is \<open>None\<close> when its query raised, as
  \<^verbatim>\<open>safe_gather\<close> returns the exception in place of the price.
\<close>

datatype strategy_state = Closed | Opening | Opened | Closing

record arb_proposal_side =
  aps_is_spot :: bool
  aps_is_buy :: bool
  aps_order_price :: "decimal option"

record arb_proposal =
  ap_spot_side :: arb_proposal_side
  ap_perp_side :: arb_proposal_side
  ap_order_amount :: decimal

definition new_arb_proposal ::
  "arb_proposal_side \<Rightarrow> arb_proposal_side \<Rightarrow> decimal \<Rightarrow> py_error + arb_proposal" where
  "new_arb_proposal spot perp amount =
     (if aps_is_buy spot = aps_is_buy perp then Inl RaisedException
      else Inr \<lparr>ap_spot_side = spot, ap_perp_side = perp, ap_order_amount = amount\<rparr>)"

definition profit_pct :: "arb_proposal \<Rightarrow> py_error + decimal" where
  "profit_pct p =
     (let buy_price = (if aps_is_buy (ap_spot_side p) then aps_order_price (ap_spot_side p)
                       else aps_order_price (ap_perp_side p));
          sell_price = (if \<not> aps_is_buy (ap_spot_side p) then aps_order_price (ap_spot_side p)
                        else aps_order_price (ap_perp_side p))
      in case (sell_price, buy_price) of
           (Some s, Some b) \<Rightarrow> dec_div (s - b) b
         | _ \<Rightarrow> Inl TypeError)"

record perp_position =
  pp_trading_pair :: string
  pp_amount :: decimal

record spa_params =
  sa_spot_pair :: string
  sa_perp_pair :: string
  sa_order_amount :: decimal
  sa_perp_leverage :: decimal
  sa_min_opening_arbitrage_pct :: decimal
  sa_min_closing_arbitrage_pct :: decimal
  sa_spot_market_slippage_buffer :: decimal
  sa_perp_market_slippage_buffer :: decimal
  sa_next_arbitrage_opening_delay :: seconds

record spa_env =
  se_spot :: exchange_env
  se_perp :: exchange_env
  se_spot_quantize_price :: "string \<Rightarrow> decimal \<Rightarrow> decimal"
  se_perp_quantize_price :: "string \<Rightarrow> decimal \<Rightarrow> decimal"
  se_markets_ready :: bool
  se_account_positions :: "perp_position list"
  se_position_mode :: position_mode
  se_current_timestamp :: seconds

text \<open>The calls on the connectors: settings, and the two kinds of orders.\<close>

datatype spa_call =
    SetLeverage string decimal
  | SetPositionMode position_mode
  | SpotOrder bool decimal decimal
  | PerpOrder bool decimal decimal position_action

datatype main_task = NoTask | Scheduled | AwaitingPrices

record spa_state =
  sp_all_markets_ready :: bool
  sp_position_mode_ready :: bool
  sp_position_mode_not_ready_counter :: int
  sp_trading_started :: bool
  sp_ready_to_start :: bool
  sp_strategy_state :: strategy_state
  sp_next_arbitrage_opening_ts :: seconds
  sp_last_arb_op_reported_ts :: seconds
  sp_completed_opening_order_ids :: "string list"
  sp_completed_closing_order_ids :: "string list"
  sp_main_task :: main_task
  sp_calls :: "spa_call list"

definition init_params :: spa_state where
  "init_params =
     \<lparr>sp_all_markets_ready = False, sp_position_mode_ready = False, sp_position_mode_not_ready_counter = 0,
      sp_trading_started = False, sp_ready_to_start = False, sp_strategy_state = Closed,
      sp_next_arbitrage_opening_ts = 0, sp_last_arb_op_reported_ts = 0,
      sp_completed_opening_order_ids = [], sp_completed_closing_order_ids = [],
      sp_main_task = NoTask, sp_calls = []\<rparr>"

definition call :: "spa_call \<Rightarrow> spa_state \<Rightarrow> spa_state" where
  "call c st = st\<lparr>sp_calls := sp_calls st @ [c]\<rparr>"

definition perp_positions :: "spa_params \<Rightarrow> spa_env \<Rightarrow> perp_position list" where
  "perp_positions sa env =
     [s \<leftarrow> se_account_positions env. pp_trading_pair s = sa_perp_pair sa \<and> pp_amount s \<noteq> 0]"

definition apply_initial_settings :: "spa_params \<Rightarrow> spa_state \<Rightarrow> spa_state" where
  "apply_initial_settings sa st =
     call (SetPositionMode ONEWAY) (call (SetLeverage (sa_perp_pair sa) (sa_perp_leverage sa)) st)"

subsection \<open>Budget checks\<close>

definition check_budget_available :: "spa_params \<Rightarrow> spa_env \<Rightarrow> py_error + bool" where
  "check_budget_available sa env =
     bind_err (split_hb_trading_pair (sa_spot_pair sa)) (\<lambda>(spot_base, spot_quote).
     bind_err (split_hb_trading_pair (sa_perp_pair sa)) (\<lambda>(perp_base, perp_quote).
       if ex_available_balance (se_spot env) spot_base = 0 \<and> ex_available_balance (se_spot env) spot_quote = 0
       then Inr False
       else if ex_available_balance (se_perp env) perp_quote = 0 then Inr False
       else Inr True))"

definition side_price :: "arb_proposal_side \<Rightarrow> py_error + decimal" where
  "side_price s = (case aps_order_price s of None \<Rightarrow> Inl TypeError | Some p \<Rightarrow> Inr p)"

definition spot_candidate :: "spa_params \<Rightarrow> arb_proposal \<Rightarrow> decimal \<Rightarrow> order_candidate" where
  "spot_candidate sa p price =
     new_order_candidate (sa_spot_pair sa) False LIMIT
       (if aps_is_buy (ap_spot_side p) then BUY else SELL) (ap_order_amount p) price False None"

definition check_spot_budget_constraint :: "spa_params \<Rightarrow> spa_env \<Rightarrow> arb_proposal \<Rightarrow> py_error + bool" where
  "check_spot_budget_constraint sa env p =
     bind_err (side_price (ap_spot_side p)) (\<lambda>price.
     bind_err (adjust_candidate (new_budget_checker (se_spot env)) True (spot_candidate sa p price))
       (\<lambda>adjusted. Inr (\<not> oc_amount adjusted < ap_order_amount p)))"

text \<open>
  The code compares the proposal side (an object) with a boolean, \<^verbatim>\<open>perp_side != cur_perp_pos_is_buy\<close>,
  which always differ: any order of the size of the current position counts as closing it.
\<close>

definition position_close :: "spa_params \<Rightarrow> spa_env \<Rightarrow> arb_proposal \<Rightarrow> bool" where
  "position_close sa env p =
     (case perp_positions sa env of
        [] \<Rightarrow> False
      | pos # _ \<Rightarrow> \<bar>pp_amount pos\<bar> = ap_order_amount p)"

definition perp_candidate :: "spa_params \<Rightarrow> spa_env \<Rightarrow> arb_proposal \<Rightarrow> decimal \<Rightarrow> order_candidate" where
  "perp_candidate sa env p price =
     new_order_candidate (sa_perp_pair sa) False LIMIT
       (if aps_is_buy (ap_perp_side p) then BUY else SELL) (ap_order_amount p) price False
       (Some \<lparr>pt_leverage = sa_perp_leverage sa, pt_position_close = position_close sa env p\<rparr>)"

definition check_perpetual_budget_constraint ::
  "spa_params \<Rightarrow> spa_env \<Rightarrow> arb_proposal \<Rightarrow> py_error + bool" where
  "check_perpetual_budget_constraint sa env p =
     bind_err (side_price (ap_perp_side p)) (\<lambda>price.
     bind_err (adjust_candidate (new_budget_checker (se_perp env)) True (perp_candidate sa env p price))
       (\<lambda>adjusted. Inr (\<not> oc_amount adjusted < ap_order_amount p)))"

definition check_budget_constraint :: "spa_params \<Rightarrow> spa_env \<Rightarrow> arb_proposal \<Rightarrow> py_error + bool" where
  "check_budget_constraint sa env p =
     bind_err (check_spot_budget_constraint sa env p) (\<lambda>ok.
       if ok then check_perpetual_budget_constraint sa env p else Inr False)"

subsection \<open>The start-up and the tick\<close>

text \<open>
  The block \<open>tick\<close> runs until the strategy has started; its first result says whether the tick goes
  on after it (\<^verbatim>\<open>return\<close> ends the tick).
\<close>

definition start_trading :: "spa_params \<Rightarrow> spa_env \<Rightarrow> spa_state \<Rightarrow> py_error + (bool \<times> spa_state)" where
  "start_trading sa env st =
     bind_err (check_budget_available sa env) (\<lambda>available.
       if \<not> available then Inr (False, st)
       else if se_position_mode env \<noteq> ONEWAY \<or> 1 < length (perp_positions sa env)
       then Inr (False, call (SetPositionMode ONEWAY) st)
       else
         (case perp_positions sa env of
            [pos] \<Rightarrow>
              (if \<bar>pp_amount pos\<bar> =
                    ex_quantize_order_amount (se_perp env) (sa_perp_pair sa) (sa_order_amount sa)
               then Inr (True, st\<lparr>sp_strategy_state := Opened, sp_ready_to_start := True\<rparr>)
               else Inr (False, st))
          | _ \<Rightarrow> Inr (True, st\<lparr>sp_ready_to_start := True\<rparr>)))"

definition start_up :: "spa_params \<Rightarrow> spa_env \<Rightarrow> spa_state \<Rightarrow> py_error + (bool \<times> spa_state)" where
  "start_up sa env st =
     (let st1 = st\<lparr>sp_all_markets_ready := se_markets_ready env\<rparr> in
      if \<not> sp_all_markets_ready st1 then Inr (False, st1)
      else if \<not> sp_position_mode_ready st1 then
        (let st2 = st1\<lparr>sp_position_mode_not_ready_counter := sp_position_mode_not_ready_counter st1 + 1\<rparr> in
         if sp_position_mode_not_ready_counter st2 = 10
         then Inr (False, (call (SetPositionMode ONEWAY) st2)\<lparr>sp_position_mode_not_ready_counter := 0\<rparr>)
         else Inr (False, st2))
      else start_trading sa env
             (st1\<lparr>sp_position_mode_not_ready_counter := 0, sp_trading_started := True\<rparr>))"

definition tick :: "spa_params \<Rightarrow> spa_env \<Rightarrow> spa_state \<Rightarrow> py_error + spa_state" where
  "tick sa env st =
     bind_err (if \<not> sp_all_markets_ready st \<or> \<not> sp_position_mode_ready st \<or> \<not> sp_trading_started st
               then start_up sa env st else Inr (True, st))
       (\<lambda>(go_on, st1).
         if go_on \<and> sp_ready_to_start st1 \<and> sp_main_task st1 = NoTask
         then Inr (st1\<lparr>sp_main_task := Scheduled\<rparr>) else Inr st1)"


subsection \<open>The main procedure\<close>

definition update_strategy_state :: "spa_params \<Rightarrow> spa_env \<Rightarrow> spa_state \<Rightarrow> spa_state" where
  "update_strategy_state sa env st =
     (if sp_strategy_state st = Opening \<and> length (sp_completed_opening_order_ids st) = 2 \<and>
         perp_positions sa env \<noteq> []
      then st\<lparr>sp_strategy_state := Opened, sp_completed_opening_order_ids := []\<rparr>
      else if sp_strategy_state st = Closing \<and> length (sp_completed_closing_order_ids st) = 2 \<and>
              length (perp_positions sa env) = 0
      then st\<lparr>sp_strategy_state := Closed, sp_completed_closing_order_ids := [],
              sp_next_arbitrage_opening_ts := se_current_timestamp env + sa_next_arbitrage_opening_delay sa\<rparr>
      else st)"

definition main_start :: "spa_params \<Rightarrow> spa_env \<Rightarrow> spa_state \<Rightarrow> spa_state" where
  "main_start sa env st =
     (let st1 = update_strategy_state sa env st in
      if sp_strategy_state st1 \<in> {Opening, Closing} then st1\<lparr>sp_main_task := NoTask\<rparr>
      else if sp_strategy_state st1 = Closed \<and> se_current_timestamp env < sp_next_arbitrage_opening_ts st1
      then st1\<lparr>sp_main_task := NoTask\<rparr>
      else st1\<lparr>sp_main_task := AwaitingPrices\<rparr>)"

text \<open>The prices to buy and sell at on the spot and the perpetual market, as \<^verbatim>\<open>safe_gather\<close> returns them.\<close>

record price_quotes =
  pq_spot_buy :: "decimal option"
  pq_spot_sell :: "decimal option"
  pq_perp_buy :: "decimal option"
  pq_perp_sell :: "decimal option"

definition create_base_proposals :: "spa_params \<Rightarrow> price_quotes \<Rightarrow> py_error + arb_proposal list" where
  "create_base_proposals sa q =
     bind_err (new_arb_proposal
       \<lparr>aps_is_spot = True, aps_is_buy = True, aps_order_price = pq_spot_buy q\<rparr>
       \<lparr>aps_is_spot = False, aps_is_buy = False, aps_order_price = pq_perp_sell q\<rparr> (sa_order_amount sa)) (\<lambda>p1.
     bind_err (new_arb_proposal
       \<lparr>aps_is_spot = True, aps_is_buy = False, aps_order_price = pq_spot_sell q\<rparr>
       \<lparr>aps_is_spot = False, aps_is_buy = True, aps_order_price = pq_perp_buy q\<rparr> (sa_order_amount sa)) (\<lambda>p2.
     Inr [p1, p2]))"

fun filter_err :: "('a \<Rightarrow> 'e + bool) \<Rightarrow> 'a list \<Rightarrow> 'e + 'a list" where
  "filter_err P [] = Inr []"
| "filter_err P (x # xs) =
     bind_err (P x) (\<lambda>b. bind_err (filter_err P xs) (\<lambda>ys. Inr (if b then x # ys else ys)))"

definition filter_proposals ::
  "spa_params \<Rightarrow> spa_env \<Rightarrow> strategy_state \<Rightarrow> arb_proposal list \<Rightarrow> py_error + arb_proposal list" where
  "filter_proposals sa env state proposals =
     (if state = Opened then
        (case perp_positions sa env of
           [] \<Rightarrow> Inl IndexError
         | pos # _ \<Rightarrow>
             let perp_is_buy = \<not> 0 < pp_amount pos in
             filter_err (\<lambda>p. if aps_is_buy (ap_perp_side p) = perp_is_buy
                             then bind_err (profit_pct p) (\<lambda>x. Inr (sa_min_closing_arbitrage_pct sa \<le> x))
                             else Inr False) proposals)
      else filter_err (\<lambda>p. bind_err (profit_pct p) (\<lambda>x. Inr (sa_min_opening_arbitrage_pct sa \<le> x))) proposals)"

definition buffer_side :: "spa_params \<Rightarrow> spa_env \<Rightarrow> arb_proposal_side \<Rightarrow> py_error + arb_proposal_side" where
  "buffer_side sa env s =
     (let s_buffer = (if aps_is_spot s then sa_spot_market_slippage_buffer sa
                      else sa_perp_market_slippage_buffer sa);
          signed = (if \<not> aps_is_buy s then s_buffer * (- 1) else s_buffer);
          quantize = (if aps_is_spot s then se_spot_quantize_price env (sa_spot_pair sa)
                      else se_perp_quantize_price env (sa_perp_pair sa))
      in bind_err (side_price s) (\<lambda>price.
           Inr (s\<lparr>aps_order_price := Some (quantize (price * (1 + signed)))\<rparr>)))"

definition apply_slippage_buffers :: "spa_params \<Rightarrow> spa_env \<Rightarrow> arb_proposal \<Rightarrow> py_error + arb_proposal" where
  "apply_slippage_buffers sa env p =
     bind_err (buffer_side sa env (ap_spot_side p)) (\<lambda>spot.
     bind_err (buffer_side sa env (ap_perp_side p)) (\<lambda>perp.
       Inr (p\<lparr>ap_spot_side := spot, ap_perp_side := perp\<rparr>)))"

definition execute_arb_proposal :: "arb_proposal \<Rightarrow> spa_state \<Rightarrow> py_error + spa_state" where
  "execute_arb_proposal p st =
     (if ap_order_amount p = 0 then Inr st
      else
        bind_err (side_price (ap_spot_side p)) (\<lambda>spot_price.
        bind_err (side_price (ap_perp_side p)) (\<lambda>perp_price.
          let action = (if sp_strategy_state st = Opened then CLOSE_POSITION else OPEN_POSITION);
              st1 = call (SpotOrder (aps_is_buy (ap_spot_side p)) (ap_order_amount p) spot_price) st;
              st2 = call (PerpOrder (aps_is_buy (ap_perp_side p)) (ap_order_amount p) perp_price action) st1
          in if sp_strategy_state st2 = Opened
             then Inr (st2\<lparr>sp_strategy_state := Closing, sp_completed_closing_order_ids := []\<rparr>)
             else Inr (st2\<lparr>sp_strategy_state := Opening, sp_completed_opening_order_ids := []\<rparr>))))"

text \<open>
  The part of \<^verbatim>\<open>main\<close> after the price queries.  An exception ends the task; only the report time may
  have changed by then.
\<close>

definition chosen_proposal ::
  "spa_params \<Rightarrow> spa_env \<Rightarrow> price_quotes \<Rightarrow> strategy_state \<Rightarrow> py_error + arb_proposal option" where
  "chosen_proposal sa env q state =
     bind_err (create_base_proposals sa q) (\<lambda>base.
     bind_err (filter_proposals sa env state base) (\<lambda>proposals.
       Inr (case proposals of [] \<Rightarrow> None | p # _ \<Rightarrow> Some p)))"

definition report_opportunity :: "spa_env \<Rightarrow> spa_state \<Rightarrow> spa_state" where
  "report_opportunity env st =
     (if sp_last_arb_op_reported_ts st + 60 < se_current_timestamp env
      then st\<lparr>sp_last_arb_op_reported_ts := se_current_timestamp env\<rparr> else st)"

definition submit_proposal :: "spa_params \<Rightarrow> spa_env \<Rightarrow> arb_proposal \<Rightarrow> spa_state \<Rightarrow> py_error + spa_state" where
  "submit_proposal sa env p st =
     bind_err (apply_slippage_buffers sa env p) (\<lambda>p'.
     bind_err (check_budget_constraint sa env p') (\<lambda>ok.
       if ok then execute_arb_proposal p' st else Inr st))"

definition main_resume ::
  "spa_params \<Rightarrow> spa_env \<Rightarrow> price_quotes \<Rightarrow> spa_state \<Rightarrow> py_error option \<times> spa_state" where
  "main_resume sa env q st0 =
     (let st = st0\<lparr>sp_main_task := NoTask\<rparr> in
      case chosen_proposal sa env q (sp_strategy_state st) of
        Inl e \<Rightarrow> (Some e, st)
      | Inr None \<Rightarrow> (None, st)
      | Inr (Some p) \<Rightarrow>
          (let st1 = report_opportunity env st in
           case submit_proposal sa env p st1 of Inl e \<Rightarrow> (Some e, st1) | Inr st2 \<Rightarrow> (None, st2)))"

subsection \<open>Events\<close>

definition update_complete_order_id_lists :: "string \<Rightarrow> spa_state \<Rightarrow> spa_state" where
  "update_complete_order_id_lists order_id st =
     (if sp_strategy_state st = Opening
      then st\<lparr>sp_completed_opening_order_ids := sp_completed_opening_order_ids st @ [order_id]\<rparr>
      else if sp_strategy_state st = Closing
      then st\<lparr>sp_completed_closing_order_ids := sp_completed_closing_order_ids st @ [order_id]\<rparr>
      else st)"

definition did_change_position_mode_succeed :: "position_mode \<Rightarrow> spa_state \<Rightarrow> spa_state" where
  "did_change_position_mode_succeed mode st = st\<lparr>sp_position_mode_ready := (mode = ONEWAY)\<rparr>"

definition did_change_position_mode_fail :: "spa_state \<Rightarrow> spa_state" where
  "did_change_position_mode_fail st = st\<lparr>sp_position_mode_ready := False\<rparr>"

definition start_strategy :: "spa_params \<Rightarrow> spa_state \<Rightarrow> spa_state" where
  "start_strategy sa st = apply_initial_settings sa (st\<lparr>sp_ready_to_start := False\<rparr>)"

definition stop_strategy :: "spa_state \<Rightarrow> spa_state" where
  "stop_strategy st = st\<lparr>sp_main_task := NoTask, sp_ready_to_start := False\<rparr>"

subsection \<open>Runs\<close>

inductive spa_step :: "spa_params \<Rightarrow> spa_state \<Rightarrow> spa_state \<Rightarrow> bool" for sa where
  tick: "tick sa env st = Inr st' \<Longrightarrow> spa_step sa st st'"
| main_start: "sp_main_task st = Scheduled \<Longrightarrow> spa_step sa st (main_start sa env st)"
| main_resume: "sp_main_task st = AwaitingPrices \<Longrightarrow> spa_step sa st (snd (main_resume sa env q st))"
| order_completed: "spa_step sa st (update_complete_order_id_lists order_id st)"
| mode_changed: "spa_step sa st (did_change_position_mode_succeed mode st)"
| mode_failed: "spa_step sa st (did_change_position_mode_fail st)"
| start: "spa_step sa st (start_strategy sa st)"
| stop: "spa_step sa st (stop_strategy st)"

inductive spa_reachable :: "spa_params \<Rightarrow> spa_state \<Rightarrow> bool" for sa where
  init: "spa_reachable sa init_params"
| step: "spa_reachable sa st \<Longrightarrow> spa_step sa st st' \<Longrightarrow> spa_reachable sa st'"


subsection \<open>What the main procedure submits\<close>

lemma filter_err_first:
  assumes "filter_err P xs = Inr (y # ys)"
  shows "y \<in> set xs \<and> P y = Inr True"
  using assms by (induction xs arbitrary: y ys) (auto simp: bind_err_eq_Inr split: if_splits)

lemma base_proposals:
  "create_base_proposals sa q = Inr
     [\<lparr>ap_spot_side = \<lparr>aps_is_spot = True, aps_is_buy = True, aps_order_price = pq_spot_buy q\<rparr>,
       ap_perp_side = \<lparr>aps_is_spot = False, aps_is_buy = False, aps_order_price = pq_perp_sell q\<rparr>,
       ap_order_amount = sa_order_amount sa\<rparr>,
      \<lparr>ap_spot_side = \<lparr>aps_is_spot = True, aps_is_buy = False, aps_order_price = pq_spot_sell q\<rparr>,
       ap_perp_side = \<lparr>aps_is_spot = False, aps_is_buy = True, aps_order_price = pq_perp_buy q\<rparr>,
       ap_order_amount = sa_order_amount sa\<rparr>]"
  by (simp add: create_base_proposals_def new_arb_proposal_def)

text \<open>A proposal trades the order amount against opposite sides, each at the quote for its side.\<close>

definition quoted_proposal :: "spa_params \<Rightarrow> price_quotes \<Rightarrow> arb_proposal \<Rightarrow> bool" where
  "quoted_proposal sa q p \<longleftrightarrow> ap_order_amount p = sa_order_amount sa \<and>
     aps_is_spot (ap_spot_side p) \<and> \<not> aps_is_spot (ap_perp_side p) \<and>
     aps_is_buy (ap_perp_side p) = (\<not> aps_is_buy (ap_spot_side p)) \<and>
     aps_order_price (ap_spot_side p) = (if aps_is_buy (ap_spot_side p) then pq_spot_buy q else pq_spot_sell q) \<and>
     aps_order_price (ap_perp_side p) = (if aps_is_buy (ap_spot_side p) then pq_perp_sell q else pq_perp_buy q)"

definition required_pct :: "spa_params \<Rightarrow> strategy_state \<Rightarrow> decimal" where
  "required_pct sa state =
     (if state = Opened then sa_min_closing_arbitrage_pct sa else sa_min_opening_arbitrage_pct sa)"

text \<open>In state \<open>Opened\<close> the perpetual order is against the current position.\<close>

definition against_position :: "spa_params \<Rightarrow> spa_env \<Rightarrow> strategy_state \<Rightarrow> bool \<Rightarrow> bool" where
  "against_position sa env state perp_is_buy \<longleftrightarrow>
     (state = Opened \<longrightarrow> (\<exists>pos rest. perp_positions sa env = pos # rest \<and> perp_is_buy = (\<not> 0 < pp_amount pos)))"

lemma chosen_proposal_ok:
  assumes "chosen_proposal sa env q state = Inr (Some p)"
  shows "quoted_proposal sa q p \<and> (\<exists>x. profit_pct p = Inr x \<and> required_pct sa state \<le> x) \<and>
         against_position sa env state (aps_is_buy (ap_perp_side p))"
proof -
  obtain base xs where base: "create_base_proposals sa q = Inr base"
    and xs: "filter_proposals sa env state base = Inr xs"
    and first: "(case xs of [] \<Rightarrow> None | p # _ \<Rightarrow> Some p) = Some p"
    using assms unfolding chosen_proposal_def bind_err_eq_Inr by blast
  obtain ps where ps: "filter_proposals sa env state base = Inr (p # ps)"
    using xs first by (cases xs) auto
  have quoted: "\<forall>p \<in> set base. quoted_proposal sa q p"
    using base by (auto simp: base_proposals quoted_proposal_def)
  show ?thesis
  proof (cases "state = Opened")
    case True
    then obtain pos rest where pos: "perp_positions sa env = pos # rest"
      using ps by (auto simp: filter_proposals_def split: list.splits)
    then show ?thesis
      using ps True filter_err_first[of _ base p ps] quoted
      by (auto simp: filter_proposals_def Let_def bind_err_eq_Inr required_pct_def against_position_def
          dest!: filter_err_first split: if_splits)
  next
    case False
    then show ?thesis
      using ps quoted
      by (auto simp: filter_proposals_def bind_err_eq_Inr required_pct_def against_position_def
          dest!: filter_err_first)
  qed
qed

lemma call_simps [simp]:
  "sp_calls (call c st) = sp_calls st @ [c]" "sp_strategy_state (call c st) = sp_strategy_state st"
  "sp_main_task (call c st) = sp_main_task st" "sp_ready_to_start (call c st) = sp_ready_to_start st"
  "sp_completed_opening_order_ids (call c st) = sp_completed_opening_order_ids st"
  "sp_completed_closing_order_ids (call c st) = sp_completed_closing_order_ids st"
  "sp_trading_started (call c st) = sp_trading_started st"
  "sp_all_markets_ready (call c st) = sp_all_markets_ready st"
  "sp_position_mode_ready (call c st) = sp_position_mode_ready st"
  by (simp_all add: call_def)

text \<open>The order price: the quote moved by the buffer against the trader, rounded by the connector.\<close>

definition spot_order_price :: "spa_params \<Rightarrow> spa_env \<Rightarrow> bool \<Rightarrow> decimal \<Rightarrow> decimal" where
  "spot_order_price sa env is_buy price = se_spot_quantize_price env (sa_spot_pair sa)
     (price * (1 + (if is_buy then sa_spot_market_slippage_buffer sa else - sa_spot_market_slippage_buffer sa)))"

definition perp_order_price :: "spa_params \<Rightarrow> spa_env \<Rightarrow> bool \<Rightarrow> decimal \<Rightarrow> decimal" where
  "perp_order_price sa env is_buy price = se_perp_quantize_price env (sa_perp_pair sa)
     (price * (1 + (if is_buy then sa_perp_market_slippage_buffer sa else - sa_perp_market_slippage_buffer sa)))"

definition next_state :: "strategy_state \<Rightarrow> strategy_state" where
  "next_state state = (if state = Opened then Closing else Opening)"

lemma submit_proposal_cases:
  assumes run: "submit_proposal sa env p st = Inr st'" and q: "quoted_proposal sa q p"
  shows "st' = st \<or>
     (\<exists>b s r. b = aps_is_buy (ap_spot_side p) \<and> aps_order_price (ap_spot_side p) = Some s \<and>
        aps_order_price (ap_perp_side p) = Some r \<and> sa_order_amount sa \<noteq> 0 \<and>
        sp_calls st' = sp_calls st @
          [SpotOrder b (sa_order_amount sa) (spot_order_price sa env b s),
           PerpOrder (\<not> b) (sa_order_amount sa) (perp_order_price sa env (\<not> b) r)
             (if sp_strategy_state st = Opened then CLOSE_POSITION else OPEN_POSITION)] \<and>
        sp_strategy_state st' = next_state (sp_strategy_state st))"
proof -
  obtain p' where p': "apply_slippage_buffers sa env p = Inr p'"
    using run by (auto simp: submit_proposal_def bind_err_eq_Inr)
  then obtain s r where s: "aps_order_price (ap_spot_side p) = Some s" "aps_order_price (ap_perp_side p) = Some r"
    by (auto simp: apply_slippage_buffers_def buffer_side_def side_price_def Let_def bind_err_eq_Inr split: option.splits)
  let ?b = "aps_is_buy (ap_spot_side p)"
  have buffered: "p' = p\<lparr>ap_spot_side := (ap_spot_side p)\<lparr>aps_order_price := Some (spot_order_price sa env ?b s)\<rparr>,
                   ap_perp_side := (ap_perp_side p)\<lparr>aps_order_price := Some (perp_order_price sa env (\<not> ?b) r)\<rparr>\<rparr>"
    using p' s q
    by (auto simp: apply_slippage_buffers_def buffer_side_def side_price_def Let_def quoted_proposal_def
        spot_order_price_def perp_order_price_def)
  obtain ok where "(if ok then execute_arb_proposal p' st else Inr st) = Inr st'"
    using run p' by (auto simp: submit_proposal_def bind_err_eq_Inr)
  then consider "st' = st" | "sa_order_amount sa \<noteq> 0" "execute_arb_proposal p' st = Inr st'"
    using q by (cases "ok \<and> sa_order_amount sa \<noteq> 0")
      (auto simp: execute_arb_proposal_def buffered quoted_proposal_def split: if_splits)
  then show ?thesis
  proof cases
    case 2
    have amount: "ap_order_amount p = sa_order_amount sa" "aps_is_buy (ap_perp_side p) = (\<not> ?b)"
      using q by (auto simp: quoted_proposal_def)
    show ?thesis
      by (intro disjI2 exI[of _ ?b] exI[of _ s] exI[of _ r])
        (use 2 amount s in \<open>auto simp: execute_arb_proposal_def buffered side_price_def Let_def next_state_def
           split: if_splits\<close>)
  qed simp
qed


text \<open>The two orders of an arbitrage: on opposite sides, profitable at the quoted prices.\<close>

definition arbitrage_orders ::
  "spa_params \<Rightarrow> spa_env \<Rightarrow> price_quotes \<Rightarrow> strategy_state \<Rightarrow> spa_call list \<Rightarrow> bool" where
  "arbitrage_orders sa env q state calls \<longleftrightarrow>
     (\<exists>b s r. calls =
        [SpotOrder b (sa_order_amount sa) (spot_order_price sa env b s),
         PerpOrder (\<not> b) (sa_order_amount sa) (perp_order_price sa env (\<not> b) r)
           (if state = Opened then CLOSE_POSITION else OPEN_POSITION)] \<and>
        Some s = (if b then pq_spot_buy q else pq_spot_sell q) \<and>
        Some r = (if b then pq_perp_sell q else pq_perp_buy q) \<and>
        (if b then s \<noteq> 0 \<and> required_pct sa state \<le> (r - s) / s
         else r \<noteq> 0 \<and> required_pct sa state \<le> (s - r) / r) \<and>
        against_position sa env state (\<not> b) \<and> sa_order_amount sa \<noteq> 0)"

text \<open>
  When the main procedure continues with the prices, it either submits nothing and keeps the
  strategy state, or submits exactly one spot and one perpetual order of the order amount on opposite
  sides, whose quoted prices give at least the minimum profit for opening (for closing, when a
  position is open, and then against that position), with the position action that belongs to the
  state, and moves to \<open>Opening\<close> (\<open>Closing\<close>).
\<close>

theorem submitted_orders:
  "let st' = snd (main_resume sa env q st) in
   sp_calls st' = sp_calls st \<and> sp_strategy_state st' = sp_strategy_state st \<or>
   (\<exists>calls. sp_calls st' = sp_calls st @ calls \<and> arbitrage_orders sa env q (sp_strategy_state st) calls \<and>
            sp_strategy_state st' = next_state (sp_strategy_state st))"
proof -
  let ?st = "st\<lparr>sp_main_task := NoTask\<rparr>"
  let ?st1 = "report_opportunity env ?st"
  have kept: "sp_calls ?st1 = sp_calls st" "sp_strategy_state ?st1 = sp_strategy_state st"
    by (simp_all add: report_opportunity_def)
  consider (fail) e where "chosen_proposal sa env q (sp_strategy_state st) = Inl e"
    | (none) "chosen_proposal sa env q (sp_strategy_state st) = Inr None"
    | (some) p where "chosen_proposal sa env q (sp_strategy_state st) = Inr (Some p)"
    by (metis option.exhaust sum.exhaust)
  then show ?thesis
  proof cases
    case (some p)
    note ok = chosen_proposal_ok[OF some]
    show ?thesis
    proof (cases "submit_proposal sa env p ?st1")
      case (Inl e)
      then show ?thesis using some kept by (simp add: main_resume_def)
    next
      case (Inr st')
      then have run: "snd (main_resume sa env q st) = st'" using some by (simp add: main_resume_def)
      from submit_proposal_cases[OF Inr conjunct1[OF ok]] show ?thesis
      proof (elim disjE exE conjE)
        assume "st' = ?st1"
        then show ?thesis using kept run by simp
      next
        fix b s r
        assume b: "b = aps_is_buy (ap_spot_side p)" "aps_order_price (ap_spot_side p) = Some s"
          "aps_order_price (ap_perp_side p) = Some r" "sa_order_amount sa \<noteq> 0"
          and calls: "sp_calls st' = sp_calls ?st1 @
          [SpotOrder b (sa_order_amount sa) (spot_order_price sa env b s),
           PerpOrder (\<not> b) (sa_order_amount sa) (perp_order_price sa env (\<not> b) r)
             (if sp_strategy_state ?st1 = Opened then CLOSE_POSITION else OPEN_POSITION)]"
          and state: "sp_strategy_state st' = next_state (sp_strategy_state ?st1)"
        have quotes: "Some s = (if b then pq_spot_buy q else pq_spot_sell q)"
          "Some r = (if b then pq_perp_sell q else pq_perp_buy q)" "aps_is_buy (ap_perp_side p) = (\<not> b)"
          using ok b by (auto simp: quoted_proposal_def)
        have profit: "if b then s \<noteq> 0 \<and> required_pct sa (sp_strategy_state st) \<le> (r - s) / s
            else r \<noteq> 0 \<and> required_pct sa (sp_strategy_state st) \<le> (s - r) / r"
          using ok b quotes(3) by (auto simp: profit_pct_def Let_def dec_div_Inr)
        have "arbitrage_orders sa env q (sp_strategy_state st)
          [SpotOrder b (sa_order_amount sa) (spot_order_price sa env b s),
           PerpOrder (\<not> b) (sa_order_amount sa) (perp_order_price sa env (\<not> b) r)
             (if sp_strategy_state st = Opened then CLOSE_POSITION else OPEN_POSITION)]"
          unfolding arbitrage_orders_def
          by (intro exI[of _ b] exI[of _ s] exI[of _ r] conjI refl quotes(1,2) profit)
            (use ok b quotes(3) in auto)
        then show ?thesis using calls state kept run by (auto simp: Let_def)
      qed
    qed
  qed (simp_all add: main_resume_def)
qed

subsection \<open>Openings and closings over a run\<close>

definition perp_actions :: "spa_call list \<Rightarrow> position_action list" where
  "perp_actions calls = List.map_filter (\<lambda>c. case c of PerpOrder _ _ _ a \<Rightarrow> Some a | _ \<Rightarrow> None) calls"

fun never_opens_twice :: "position_action list \<Rightarrow> bool" where
  "never_opens_twice (a # b # as) \<longleftrightarrow> \<not> (a = OPEN_POSITION \<and> b = OPEN_POSITION) \<and> never_opens_twice (b # as)"
| "never_opens_twice [a] \<longleftrightarrow> True"
| "never_opens_twice [] \<longleftrightarrow> True"

lemma perp_actions_simps [simp]:
  "perp_actions [] = []"
  "perp_actions (xs @ ys) = perp_actions xs @ perp_actions ys"
  "perp_actions [SetPositionMode m] = []" "perp_actions [SetLeverage t l, SetPositionMode m] = []"
  "perp_actions [SpotOrder b a p, PerpOrder b' a' p' act] = [act]"
  by (simp_all add: perp_actions_def map_filter_def)

lemma never_opens_twice_snoc:
  "never_opens_twice (as @ [a]) \<longleftrightarrow>
     never_opens_twice as \<and> (as \<noteq> [] \<longrightarrow> last as = OPEN_POSITION \<longrightarrow> a \<noteq> OPEN_POSITION)"
  by (induction as rule: never_opens_twice.induct) auto

definition spa_inv :: "spa_state \<Rightarrow> bool" where
  "spa_inv st \<longleftrightarrow> never_opens_twice (perp_actions (sp_calls st)) \<and>
     (perp_actions (sp_calls st) \<noteq> [] \<longrightarrow> last (perp_actions (sp_calls st)) = OPEN_POSITION \<longrightarrow>
        sp_strategy_state st \<in> {Opening, Opened}) \<and>
     (sp_main_task st = AwaitingPrices \<longrightarrow> sp_strategy_state st \<in> {Closed, Opened})"

text \<open>A tick trades nothing; at most it takes over an existing position.\<close>

definition tick_changes :: "spa_state \<Rightarrow> spa_state \<Rightarrow> bool" where
  "tick_changes st st' \<longleftrightarrow> perp_actions (sp_calls st') = perp_actions (sp_calls st) \<and>
     sp_strategy_state st' \<in> {sp_strategy_state st, Opened} \<and>
     (sp_main_task st' = AwaitingPrices \<longrightarrow> sp_main_task st = AwaitingPrices)"

lemma start_trading_effect:
  assumes "start_trading sa env st = Inr (b, st')"
  shows "tick_changes st st'"
proof -
  obtain available where available: "check_budget_available sa env = Inr available"
    using assms by (auto simp: start_trading_def bind_err_eq_Inr)
  consider "st' = st" | "st' = call (SetPositionMode ONEWAY) st" | "st' = st\<lparr>sp_ready_to_start := True\<rparr>"
    | "st' = st\<lparr>sp_strategy_state := Opened, sp_ready_to_start := True\<rparr>"
    using assms available
    by (cases "perp_positions sa env" rule: remdups_adj.cases)
      (simp_all add: start_trading_def split: if_splits)
  then show ?thesis by cases (simp_all add: tick_changes_def)
qed

lemma start_up_effect:
  assumes "start_up sa env st = Inr (b, st')"
  shows "tick_changes st st'"
proof (cases "se_markets_ready env \<and> sp_position_mode_ready st")
  case True
  then show ?thesis
    using assms start_trading_effect by (fastforce simp: start_up_def Let_def tick_changes_def)
next
  case False
  then show ?thesis
    using assms by (auto simp: start_up_def Let_def tick_changes_def split: if_splits)
qed

lemma tick_effect:
  assumes "tick sa env st = Inr st'"
  shows "tick_changes st st'"
proof -
  obtain go_on st1 where st1: "(if \<not> sp_all_markets_ready st \<or> \<not> sp_position_mode_ready st \<or> \<not> sp_trading_started st
      then start_up sa env st else Inr (True, st)) = Inr (go_on, st1)"
    and st': "st' = st1 \<or> st' = st1\<lparr>sp_main_task := Scheduled\<rparr>"
    using assms by (auto simp: tick_def bind_err_eq_Inr split: if_splits)
  have "tick_changes st st1"
    using st1 start_up_effect by (auto simp: tick_changes_def split: if_splits)
  then show ?thesis using st' by (auto simp: tick_changes_def)
qed

lemma update_strategy_state_effect:
  "sp_calls (update_strategy_state sa env st) = sp_calls st \<and>
   (sp_strategy_state (update_strategy_state sa env st) = sp_strategy_state st \<or>
    sp_strategy_state st = Opening \<and> sp_strategy_state (update_strategy_state sa env st) = Opened \<or>
    sp_strategy_state st = Closing \<and> sp_strategy_state (update_strategy_state sa env st) = Closed)"
  by (simp add: update_strategy_state_def)


lemma main_start_inv:
  assumes "spa_inv st"
  shows "spa_inv (main_start sa env st)"
proof -
  let ?st1 = "update_strategy_state sa env st" and ?st2 = "main_start sa env st"
  have calls: "sp_calls ?st2 = sp_calls st"
    using update_strategy_state_effect[of sa env st] by (simp add: main_start_def Let_def)
  have state: "sp_strategy_state ?st2 = sp_strategy_state ?st1" by (simp add: main_start_def Let_def)
  have task: "sp_main_task ?st2 = AwaitingPrices \<Longrightarrow> sp_strategy_state ?st1 \<in> {Closed, Opened}"
    by (cases "sp_strategy_state ?st1") (auto simp: main_start_def Let_def)
  have "sp_strategy_state ?st1 = sp_strategy_state st \<or>
    sp_strategy_state st = Opening \<and> sp_strategy_state ?st1 = Opened \<or>
    sp_strategy_state st = Closing \<and> sp_strategy_state ?st1 = Closed"
    using update_strategy_state_effect[of sa env st] by blast
  then show ?thesis using assms task unfolding spa_inv_def calls state by (elim disjE) auto
qed

lemma main_resume_task: "sp_main_task (snd (main_resume sa env q st)) = NoTask"
proof -
  have "sp_main_task (report_opportunity env (st\<lparr>sp_main_task := NoTask\<rparr>)) = NoTask"
    by (simp add: report_opportunity_def)
  moreover have "sp_main_task st2 = sp_main_task st1" if "submit_proposal sa env p st1 = Inr st2" for p st1 st2
    using that by (auto simp: submit_proposal_def execute_arb_proposal_def bind_err_eq_Inr Let_def split: if_splits)
  ultimately show ?thesis by (simp add: main_resume_def Let_def split: sum.split option.split)
qed

lemma main_resume_inv:
  assumes inv: "spa_inv st" and task: "sp_main_task st = AwaitingPrices"
  shows "spa_inv (snd (main_resume sa env q st))"
proof -
  let ?st' = "snd (main_resume sa env q st)"
  have state: "sp_strategy_state st \<in> {Closed, Opened}" using inv task by (simp add: spa_inv_def)
  from submitted_orders[of sa env q st, unfolded Let_def] show ?thesis
  proof (elim disjE exE conjE)
    assume "sp_calls ?st' = sp_calls st" "sp_strategy_state ?st' = sp_strategy_state st"
    then show ?thesis using inv main_resume_task[of sa env q st] by (simp add: spa_inv_def)
  next
    fix calls
    assume calls: "sp_calls ?st' = sp_calls st @ calls" "arbitrage_orders sa env q (sp_strategy_state st) calls"
      and next_st: "sp_strategy_state ?st' = next_state (sp_strategy_state st)"
    let ?act = "if sp_strategy_state st = Opened then CLOSE_POSITION else OPEN_POSITION"
    have "perp_actions (sp_calls ?st') = perp_actions (sp_calls st) @ [?act]"
      using calls by (auto simp: arbitrage_orders_def)
    then show ?thesis
      using inv state next_st main_resume_task[of sa env q st]
      by (auto simp: spa_inv_def never_opens_twice_snoc next_state_def)
  qed
qed

lemma tick_changes_inv: "tick_changes st st' \<Longrightarrow> spa_inv st \<Longrightarrow> spa_inv st'"
  by (auto simp: spa_inv_def tick_changes_def)

lemma event_changes:
  "tick_changes st (update_complete_order_id_lists order_id st)"
  "tick_changes st (did_change_position_mode_succeed mode st)"
  "tick_changes st (did_change_position_mode_fail st)"
  "tick_changes st (start_strategy sa st)" "tick_changes st (stop_strategy st)"
  by (simp_all add: tick_changes_def update_complete_order_id_lists_def did_change_position_mode_succeed_def
      did_change_position_mode_fail_def start_strategy_def apply_initial_settings_def stop_strategy_def)

lemma spa_step_inv: "spa_step sa st st' \<Longrightarrow> spa_inv st \<Longrightarrow> spa_inv st'"
  by (induction rule: spa_step.induct)
    (blast intro: tick_effect tick_changes_inv event_changes main_start_inv main_resume_inv)+

lemma spa_reachable_inv: "spa_reachable sa st \<Longrightarrow> spa_inv st"
proof (induction rule: spa_reachable.induct)
  case init
  then show ?case by (simp add: spa_inv_def init_params_def)
next
  case (step st st')
  then show ?case using spa_step_inv by blast
qed

text \<open>
  C24: in every run of the strategy, whatever the order of ticks, price answers, order completions and
  position mode events, it never opens a position twice without a closing order in between, and
  after an opening order it stays in state \<open>Opening\<close> or \<open>Opened\<close> until the closing order.
\<close>

theorem opens_alternate_with_closings:
  assumes "spa_reachable sa st"
  shows "never_opens_twice (perp_actions (sp_calls st)) \<and>
         (perp_actions (sp_calls st) \<noteq> [] \<longrightarrow> last (perp_actions (sp_calls st)) = OPEN_POSITION \<longrightarrow>
            sp_strategy_state st \<in> {Opening, Opened})"
  using spa_reachable_inv[OF assms] by (simp add: spa_inv_def)

text \<open>
  A start-up that stops after trading was marked as started (no balance, the position mode not yet
  \<^verbatim>\<open>ONEWAY\<close> although the connector was just asked to switch, or a position of another size) is never
  repeated: from then on every tick leaves the strategy as it is, whatever the markets report.
\<close>

theorem failed_start_is_final:
  assumes "tick sa env st = Inr st'" and "\<not> sp_trading_started st" "sp_trading_started st'"
    and "\<not> sp_ready_to_start st'"
  shows "tick sa env' st' = Inr st'"
proof -
  obtain go_on st1 where st1: "(if \<not> sp_all_markets_ready st \<or> \<not> sp_position_mode_ready st \<or> \<not> sp_trading_started st
      then start_up sa env st else Inr (True, st)) = Inr (go_on, st1)"
    and st': "st' = st1 \<or> st' = st1\<lparr>sp_main_task := Scheduled\<rparr>"
    using assms(1) by (auto simp: tick_def bind_err_eq_Inr split: if_splits)
  let ?st = "st\<lparr>sp_all_markets_ready := se_markets_ready env, sp_position_mode_not_ready_counter := 0,
                sp_trading_started := True\<rparr>"
  have up: "start_up sa env st = Inr (go_on, st1)" using st1 assms(2) by simp
  have ready: "se_markets_ready env" "sp_position_mode_ready st"
    using up st' assms(2,3) by (auto simp: start_up_def Let_def split: if_splits)
  then have trading: "start_trading sa env ?st = Inr (go_on, st1)"
    using up by (simp add: start_up_def Let_def)
  obtain available where available: "check_budget_available sa env = Inr available"
    using trading by (auto simp: start_trading_def bind_err_eq_Inr)
  have "sp_all_markets_ready st1 \<and> sp_position_mode_ready st1 \<and> sp_trading_started st1"
    using trading available ready
    by (cases "perp_positions sa env" rule: remdups_adj.cases)
      (auto simp: start_trading_def split: if_splits)
  then have "sp_all_markets_ready st' \<and> sp_position_mode_ready st' \<and> sp_trading_started st'" using st' by auto
  then show ?thesis using assms(4) by (simp add: tick_def)
qed


subsection \<open>The budget check\<close>

definition solvent :: "exchange_env \<Rightarrow> bool" where
  "solvent ex \<longleftrightarrow> exchange_ok ex \<and> (\<forall>t. 0 \<le> ex_available_balance ex t)"

lemma fresh_check_fits:
  assumes ex: "solvent ex" and c: "candidate_ok c" "\<not> oc_from_total_balances c"
    and run: "adjust_candidate (new_budget_checker ex) True c = Inr c'" and amount: "\<not> oc_amount c' < oc_amount c"
  shows "oc_amount c' = oc_amount c \<and> (\<forall>t. total_collateral c' t \<le> ex_available_balance ex t)"
proof -
  have "fits_room (\<lambda>t. balance_fn (bc_exchange (new_budget_checker ex)) c t - bc_locked (new_budget_checker ex) t) c c' \<and>
    (True \<longrightarrow> oc_amount c' = oc_amount c \<or> oc_amount c' = 0)"
    by (rule adjust_candidate_fits[OF _ c(1) _ run])
      (use ex c(2) in \<open>auto simp: new_budget_checker_def solvent_def balance_fn_def\<close>)
  then show ?thesis
    using amount c by (auto simp: fits_room_def new_budget_checker_def balance_fn_def candidate_ok_def)
qed

lemma candidates_ok:
  assumes "0 < ap_order_amount p" "0 < price" "0 < sa_perp_leverage sa"
  shows "candidate_ok (spot_candidate sa p price)" "candidate_ok (perp_candidate sa env p price)"
    "\<not> oc_from_total_balances (spot_candidate sa p price)"
    "\<not> oc_from_total_balances (perp_candidate sa env p price)"
    "oc_amount (spot_candidate sa p price) = ap_order_amount p"
    "oc_amount (perp_candidate sa env p price) = ap_order_amount p"
  using assms
  by (auto simp: candidate_ok_def fresh_candidate_def terms_ok_def spot_candidate_def perp_candidate_def
      new_order_candidate_def)

text \<open>
  A proposal that passes the budget check can be afforded: the collateral and the fees of its
  spot order fit the available balances of the spot connector, those of its perpetual order the
  balances of the perpetual connector, both at the full order amount.
\<close>

theorem budget_check_sound:
  assumes "solvent (se_spot env)" "solvent (se_perp env)"
    and "0 < ap_order_amount p" "0 < sa_perp_leverage sa"
    and "aps_order_price (ap_spot_side p) = Some s" "0 < s"
    and "aps_order_price (ap_perp_side p) = Some r" "0 < r"
    and "check_budget_constraint sa env p = Inr True"
  shows "\<exists>c d. adjust_candidate (new_budget_checker (se_spot env)) True (spot_candidate sa p s) = Inr c \<and>
           adjust_candidate (new_budget_checker (se_perp env)) True (perp_candidate sa env p r) = Inr d \<and>
           oc_amount c = ap_order_amount p \<and> oc_amount d = ap_order_amount p \<and>
           (\<forall>t. total_collateral c t \<le> ex_available_balance (se_spot env) t) \<and>
           (\<forall>t. total_collateral d t \<le> ex_available_balance (se_perp env) t)"
proof -
  obtain c d where c: "adjust_candidate (new_budget_checker (se_spot env)) True (spot_candidate sa p s) = Inr c"
      "\<not> oc_amount c < ap_order_amount p"
    and d: "adjust_candidate (new_budget_checker (se_perp env)) True (perp_candidate sa env p r) = Inr d"
      "\<not> oc_amount d < ap_order_amount p"
    using assms(5,7,9)
    by (auto simp: check_budget_constraint_def check_spot_budget_constraint_def
        check_perpetual_budget_constraint_def side_price_def bind_err_eq_Inr split: if_splits)
  note spot = candidates_ok[OF assms(3,6,4)] and perp = candidates_ok[OF assms(3,8,4)]
  have "oc_amount c = ap_order_amount p \<and> (\<forall>t. total_collateral c t \<le> ex_available_balance (se_spot env) t)"
    using fresh_check_fits[OF assms(1) spot(1,3) c(1)] c(2) spot(5) by simp
  moreover have "oc_amount d = ap_order_amount p \<and> (\<forall>t. total_collateral d t \<le> ex_available_balance (se_perp env) t)"
    using fresh_check_fits[OF assms(2) perp(2,4) d(1)] d(2) perp(6) by simp
  ultimately show ?thesis using c(1) d(1) by blast
qed

subsection \<open>A concrete market\<close>

definition sample_params :: spa_params where
  "sample_params =
     \<lparr>sa_spot_pair = ''ETH-USDT'', sa_perp_pair = ''ETH-USDT'', sa_order_amount = 10, sa_perp_leverage = 2,
      sa_min_opening_arbitrage_pct = 1/100, sa_min_closing_arbitrage_pct = 1/200,
      sa_spot_market_slippage_buffer = 1/1000, sa_perp_market_slippage_buffer = 1/1000,
      sa_next_arbitrage_opening_delay = 120\<rparr>"

definition sample_env :: "perp_position list \<Rightarrow> spa_env" where
  "sample_env positions =
     \<lparr>se_spot = sample_exchange, se_perp = sample_exchange, se_spot_quantize_price = (\<lambda>_ p. p),
      se_perp_quantize_price = (\<lambda>_ p. p), se_markets_ready = True, se_account_positions = positions,
      se_position_mode = ONEWAY, se_current_timestamp = 1000\<rparr>"

definition sample_broke_env :: spa_env where
  "sample_broke_env = (sample_env [\<lparr>pp_trading_pair = ''ETH-USDT'', pp_amount = 10\<rparr>])
     \<lparr>se_perp := sample_exchange\<lparr>ex_available_balance := (\<lambda>_. 0)\<rparr>\<rparr>"

definition sample_proposal :: "bool \<Rightarrow> arb_proposal" where
  "sample_proposal spot_is_buy =
     \<lparr>ap_spot_side = \<lparr>aps_is_spot = True, aps_is_buy = spot_is_buy, aps_order_price = Some 20\<rparr>,
      ap_perp_side = \<lparr>aps_is_spot = False, aps_is_buy = \<not> spot_is_buy, aps_order_price = Some 21\<rparr>,
      ap_order_amount = 10\<rparr>"


text \<open>
  Because any order of the size of the current position counts as closing it, a buy order that
  doubles a long position passes the perpetual budget check of an account with nothing available.
\<close>

lemma same_side_order_passes:
  "check_perpetual_budget_constraint sample_params sample_broke_env (sample_proposal False) = Inr True \<and>
   aps_is_buy (ap_perp_side (sample_proposal False)) \<and>
   (\<exists>pos \<in> set (perp_positions sample_params sample_broke_env). 0 < pp_amount pos) \<and>
   ex_available_balance (se_perp sample_broke_env) = (\<lambda>_. 0)"
proof (intro conjI)
  show "check_perpetual_budget_constraint sample_params sample_broke_env (sample_proposal False) = Inr True"
    by code_simp
qed (simp_all add: sample_proposal_def sample_broke_env_def perp_positions_def sample_env_def sample_params_def)

lemma sample_solvent: "solvent sample_exchange"
  using sample_exchange_ok by (simp add: solvent_def sample_exchange_def)

lemma sample_check: "check_budget_constraint sample_params (sample_env []) (sample_proposal True) = Inr True"
  by code_simp

lemma budget_check_sound_witness:
  "\<exists>c d. adjust_candidate (new_budget_checker sample_exchange) True (spot_candidate sample_params (sample_proposal True) 20) = Inr c \<and>
     adjust_candidate (new_budget_checker sample_exchange) True
       (perp_candidate sample_params (sample_env []) (sample_proposal True) 21) = Inr d \<and>
     oc_amount c = 10 \<and> oc_amount d = 10 \<and>
     (\<forall>t. total_collateral c t \<le> ex_available_balance sample_exchange t) \<and>
     (\<forall>t. total_collateral d t \<le> ex_available_balance sample_exchange t)"
  using budget_check_sound[of "sample_env []" "sample_proposal True" sample_params 20 21] sample_check sample_solvent
  by (simp add: sample_env_def sample_proposal_def sample_params_def)

definition sample_quotes :: price_quotes where
  "sample_quotes = \<lparr>pq_spot_buy = Some 20, pq_spot_sell = Some 19, pq_perp_buy = Some 22, pq_perp_sell = Some 21\<rparr>"

definition sample_ticked :: spa_state where
  "sample_ticked = projr (tick sample_params (sample_env []) (did_change_position_mode_succeed ONEWAY init_params))"

definition sample_opened :: spa_state where
  "sample_opened = snd (main_resume sample_params (sample_env []) sample_quotes
     (main_start sample_params (sample_env []) sample_ticked))"

lemma sample_ticks:
  "tick sample_params (sample_env []) (did_change_position_mode_succeed ONEWAY init_params) = Inr sample_ticked"
  "sp_main_task sample_ticked = Scheduled"
  "sp_main_task (main_start sample_params (sample_env []) sample_ticked) = AwaitingPrices"
  by code_simp+

lemma sample_opened_reachable: "spa_reachable sample_params sample_opened"
  unfolding sample_opened_def
  by (rule spa_reachable.step[OF spa_reachable.step[OF spa_reachable.step[OF spa_reachable.step[OF
          spa_reachable.init spa_step.mode_changed] spa_step.tick[OF sample_ticks(1)]]
        spa_step.main_start[OF sample_ticks(2)]] spa_step.main_resume[OF sample_ticks(3)]])

lemma opens_alternate_with_closings_witness:
  "perp_actions (sp_calls sample_opened) = [OPEN_POSITION] \<and>
   sp_strategy_state sample_opened \<in> {Opening, Opened}"
proof
  show actions: "perp_actions (sp_calls sample_opened) = [OPEN_POSITION]" by code_simp
  show "sp_strategy_state sample_opened \<in> {Opening, Opened}"
    using opens_alternate_with_closings[OF sample_opened_reachable] actions by simp
qed

definition sample_poor_env :: spa_env where
  "sample_poor_env = (sample_env [])\<lparr>se_perp := sample_exchange\<lparr>ex_available_balance := (\<lambda>_. 0)\<rparr>\<rparr>"

definition sample_failed :: spa_state where
  "sample_failed = projr (tick sample_params sample_poor_env (did_change_position_mode_succeed ONEWAY init_params))"

lemma failed_start_is_final_witness: "tick sample_params (sample_env []) sample_failed = Inr sample_failed"
proof (rule failed_start_is_final)
  show "tick sample_params sample_poor_env (did_change_position_mode_succeed ONEWAY init_params) = Inr sample_failed"
    by code_simp
  show "\<not> sp_trading_started (did_change_position_mode_succeed ONEWAY init_params)" by code_simp
  show "sp_trading_started sample_failed" by code_simp
  show "\<not> sp_ready_to_start sample_failed" by code_simp
qed

end
