(* ===== verification/Perpetual_Market_Making.thy ===== *)
theory Perpetual_Market_Making
  imports Budget_Checker
begin

text \<open>
  \<^verbatim>\<open>strategy/perpetual_market_making/perpetual_market_making.py\<close>: quoting both sides of a perpetual
  market, and taking profit or stopping loss on the positions the fills open.

  The parameters are \<open>pmm_params\<close>, the attributes \<open>pmm_state\<close>.  \<open>pmm_env\<close> is what a tick reads of the
  connector, the asset price delegate and the clock.  The strategy's own limit orders
  (\<^verbatim>\<open>active_orders\<close>) are part of the state: placing an order adds it, and it leaves when the connector
  reports it done; a cancel request (\<^verbatim>\<open>cancel_order\<close>) is a call and removes nothing by itself.
  A price the order book cannot give is NaN, here \<open>None\<close>: comparing it raises \<^verbatim>\<open>InvalidOperation\<close>.
  The mid price and the prices asked for a volume are taken to exist.  Log messages are left out.
\<close>

definition get_price_type :: "string \<Rightarrow> py_error + price_type" where
  "get_price_type s =
     (if s = ''mid_price'' then Inr MidPrice
      else if s = ''best_bid'' then Inr BestBid
      else if s = ''best_ask'' then Inr BestAsk
      else if s = ''last_price'' then Inr LastTrade
      else if s = ''last_own_trade_price'' then Inr LastOwnTrade
      else if s = ''custom'' then Inr Custom
      else Inl ValueError)"

record price_size =
  ps_price :: decimal
  ps_size :: decimal

record proposal =
  pr_buys :: "price_size list"
  pr_sells :: "price_size list"

record limit_order =
  lo_client_order_id :: string
  lo_is_buy :: bool
  lo_price :: decimal
  lo_quantity :: decimal

record position =
  po_trading_pair :: string
  po_entry_price :: decimal
  po_amount :: decimal

datatype order_override_entry = OrderOverride string decimal decimal

record pmm_params =
  mm_trading_pair :: string
  mm_leverage :: decimal
  mm_position_mode :: position_mode
  mm_bid_spread :: decimal
  mm_ask_spread :: decimal
  mm_minimum_spread :: decimal
  mm_order_amount :: decimal
  mm_long_profit_taking_spread :: decimal
  mm_short_profit_taking_spread :: decimal
  mm_stop_loss_spread :: decimal
  mm_time_between_stop_loss_orders :: seconds
  mm_stop_loss_slippage_buffer :: decimal
  mm_order_levels :: nat
  mm_buy_levels :: nat
  mm_sell_levels :: nat
  mm_order_level_spread :: decimal
  mm_order_level_amount :: decimal
  mm_order_refresh_time :: seconds
  mm_order_refresh_tolerance_pct :: decimal
  mm_filled_order_delay :: seconds
  mm_order_optimization_enabled :: bool
  mm_ask_order_optimization_depth :: decimal
  mm_bid_order_optimization_depth :: decimal
  mm_has_asset_price_delegate :: bool
  mm_price_type :: price_type
  mm_price_ceiling :: decimal
  mm_price_floor :: decimal
  mm_order_override :: "order_override_entry list option"
  mm_order_id :: "nat \<Rightarrow> string"

record pmm_env =
  me_exchange :: exchange_env
  me_get_price :: "bool \<Rightarrow> decimal option"
  me_price_by_type :: "price_type \<Rightarrow> decimal option"
  me_mid_price :: decimal
  me_quantize_order_price :: "decimal \<Rightarrow> decimal"
  me_price_for_volume :: "bool \<Rightarrow> decimal \<Rightarrow> decimal"
  me_order_price_quantum :: "decimal \<Rightarrow> decimal"
  me_account_positions :: "position list"
  me_markets_ready :: bool
  me_delegate_ready :: bool
  me_current_timestamp :: seconds

datatype pmm_call =
    SetLeverage string decimal
  | SetPositionMode position_mode
  | CancelOrder string
  | PlaceOrder limit_order position_action

record pmm_state =
  mp_cancel_timestamp :: seconds
  mp_create_timestamp :: seconds
  mp_all_markets_ready :: bool
  mp_last_timestamp :: seconds
  mp_last_own_trade_price :: "decimal option"
  mp_ts_peak_bid_price :: "decimal option"
  mp_ts_peak_ask_price :: "decimal option"
  mp_exit_orders :: "(string, seconds) pydict"
  mp_next_buy_exit_order_timestamp :: seconds
  mp_next_sell_exit_order_timestamp :: seconds
  mp_position_mode_ready :: bool
  mp_position_mode_not_ready_counter :: int
  mp_active_orders :: "limit_order list"
  mp_order_count :: nat
  mp_calls :: "pmm_call list"

definition pmm_init_params :: "decimal \<Rightarrow> decimal \<Rightarrow> py_error + pmm_state" where
  "pmm_init_params price_ceiling price_floor =
     (if price_ceiling \<noteq> - 1 \<and> price_ceiling < price_floor then Inl ValueError
      else Inr \<lparr>mp_cancel_timestamp = 0, mp_create_timestamp = 0, mp_all_markets_ready = False,
        mp_last_timestamp = 0, mp_last_own_trade_price = None, mp_ts_peak_bid_price = Some 0,
        mp_ts_peak_ask_price = Some 0, mp_exit_orders = [], mp_next_buy_exit_order_timestamp = 0,
        mp_next_sell_exit_order_timestamp = 0, mp_position_mode_ready = False,
        mp_position_mode_not_ready_counter = 0, mp_active_orders = [], mp_order_count = 0, mp_calls = []\<rparr>)"

text \<open>
  A stateful operation that may raise returns, on the left, the error together with the state it left:
  cancel requests and orders made before the exception stay.
\<close>

type_synonym 'a pmm_result = "(py_error \<times> pmm_state) + 'a"

definition at_state :: "pmm_state \<Rightarrow> py_error + 'a \<Rightarrow> 'a pmm_result" where
  "at_state st m = (case m of Inl e \<Rightarrow> Inl (e, st) | Inr x \<Rightarrow> Inr x)"

definition log_call :: "pmm_call \<Rightarrow> pmm_state \<Rightarrow> pmm_state" where
  "log_call c st = st\<lparr>mp_calls := mp_calls st @ [c]\<rparr>"

definition cancel_orders :: "limit_order list \<Rightarrow> pmm_state \<Rightarrow> pmm_state" where
  "cancel_orders orders st = fold (\<lambda>x. log_call (CancelOrder (lo_client_order_id x))) orders st"

definition get_price :: "pmm_params \<Rightarrow> pmm_env \<Rightarrow> pmm_state \<Rightarrow> decimal" where
  "get_price mm env st =
     (let price = (if mm_price_type mm = LastOwnTrade then mp_last_own_trade_price st
                   else me_price_by_type env (mm_price_type mm))
      in case price of None \<Rightarrow> me_mid_price env | Some p \<Rightarrow> p)"

definition pmm_apply_initial_settings :: "pmm_params \<Rightarrow> pmm_state \<Rightarrow> pmm_state" where
  "pmm_apply_initial_settings mm st =
     log_call (SetPositionMode (mm_position_mode mm)) (log_call (SetLeverage (mm_trading_pair mm) (mm_leverage mm)) st)"

definition pmm_start :: "pmm_params \<Rightarrow> seconds \<Rightarrow> pmm_state \<Rightarrow> pmm_state" where
  "pmm_start mm timestamp st = pmm_apply_initial_settings mm (st\<lparr>mp_last_timestamp := timestamp\<rparr>)"

subsection \<open>The base proposal\<close>

fun override_side :: "pmm_params \<Rightarrow> pmm_env \<Rightarrow> pmm_state \<Rightarrow> order_override_entry \<Rightarrow> proposal \<Rightarrow> proposal" where
  "override_side mm env st (OrderOverride side spread sz) p =
     (let size' = ex_quantize_order_amount (me_exchange env) (mm_trading_pair mm) sz in
      if side = ''buy'' then
        (let price = me_quantize_order_price env (get_price mm env st * (1 - spread / 100)) in
         if 0 < size' \<and> 0 < price
         then p\<lparr>pr_buys := pr_buys p @ [\<lparr>ps_price = price, ps_size = size'\<rparr>]\<rparr> else p)
      else if side = ''sell'' then
        (let price = me_quantize_order_price env (get_price mm env st * (1 + spread / 100)) in
         if 0 < size' \<and> 0 < price
         then p\<lparr>pr_sells := pr_sells p @ [\<lparr>ps_price = price, ps_size = size'\<rparr>]\<rparr> else p)
      else p)"

definition level_size :: "pmm_params \<Rightarrow> pmm_env \<Rightarrow> nat \<Rightarrow> decimal" where
  "level_size mm env level =
     ex_quantize_order_amount (me_exchange env) (mm_trading_pair mm)
       (mm_order_amount mm + mm_order_level_amount mm * of_nat level)"

definition buy_level :: "pmm_params \<Rightarrow> pmm_env \<Rightarrow> pmm_state \<Rightarrow> nat \<Rightarrow> price_size" where
  "buy_level mm env st level =
     \<lparr>ps_price = me_quantize_order_price env
        (get_price mm env st * (1 - mm_bid_spread mm - of_nat level * mm_order_level_spread mm)),
      ps_size = level_size mm env level\<rparr>"

definition sell_level :: "pmm_params \<Rightarrow> pmm_env \<Rightarrow> pmm_state \<Rightarrow> nat \<Rightarrow> price_size" where
  "sell_level mm env st level =
     \<lparr>ps_price = me_quantize_order_price env
        (get_price mm env st * (1 + mm_ask_spread mm + of_nat level * mm_order_level_spread mm)),
      ps_size = level_size mm env level\<rparr>"

definition create_base_proposal :: "pmm_params \<Rightarrow> pmm_env \<Rightarrow> pmm_state \<Rightarrow> proposal" where
  "create_base_proposal mm env st =
     (case mm_order_override mm of
        Some (e # es) \<Rightarrow> fold (override_side mm env st) (e # es) \<lparr>pr_buys = [], pr_sells = []\<rparr>
      | _ \<Rightarrow>
          \<lparr>pr_buys = [x \<leftarrow> map (buy_level mm env st) [0..<mm_buy_levels mm]. 0 < ps_size x],
           pr_sells = [x \<leftarrow> map (sell_level mm env st) [0..<mm_sell_levels mm]. 0 < ps_size x]\<rparr>)"

definition apply_price_band :: "pmm_params \<Rightarrow> pmm_env \<Rightarrow> pmm_state \<Rightarrow> proposal \<Rightarrow> proposal" where
  "apply_price_band mm env st p =
     (let p1 = (if 0 < mm_price_ceiling mm \<and> mm_price_ceiling mm \<le> get_price mm env st
                then p\<lparr>pr_buys := []\<rparr> else p)
      in if 0 < mm_price_floor mm \<and> get_price mm env st \<le> mm_price_floor mm
         then p1\<lparr>pr_sells := []\<rparr> else p1)"

subsection \<open>Order optimization\<close>

definition own_size :: "bool \<Rightarrow> limit_order list \<Rightarrow> decimal" where
  "own_size is_buy orders =
     fold (\<lambda>x acc. if lo_is_buy x = is_buy then lo_quantity x else acc) orders 0"

definition optimize_buy :: "pmm_params \<Rightarrow> pmm_env \<Rightarrow> pmm_state \<Rightarrow> proposal \<Rightarrow> py_error + proposal" where
  "optimize_buy mm env st p =
     (case pr_buys p of
        [buy] \<Rightarrow>
          (let top_bid_price = me_price_for_volume env False
                 (mm_bid_order_optimization_depth mm + own_size True (mp_active_orders st));
               price_quantum = me_order_price_quantum env top_bid_price
           in bind_err (dec_div top_bid_price price_quantum) (\<lambda>q.
                let price_above_bid = (of_int \<lceil>q\<rceil> + 1) * price_quantum;
                    lower_buy_price = min (ps_price buy) price_above_bid
                in Inr (p\<lparr>pr_buys := [buy\<lparr>ps_price := me_quantize_order_price env lower_buy_price\<rparr>]\<rparr>)))
      | _ \<Rightarrow> Inr p)"

definition optimize_sell :: "pmm_params \<Rightarrow> pmm_env \<Rightarrow> pmm_state \<Rightarrow> proposal \<Rightarrow> py_error + proposal" where
  "optimize_sell mm env st p =
     (case pr_sells p of
        [sell] \<Rightarrow>
          (let top_ask_price = me_price_for_volume env True
                 (mm_ask_order_optimization_depth mm + own_size False (mp_active_orders st));
               price_quantum = me_order_price_quantum env top_ask_price
           in bind_err (dec_div top_ask_price price_quantum) (\<lambda>q.
                let price_below_ask = (of_int \<lfloor>q\<rfloor> - 1) * price_quantum;
                    higher_sell_price = max (ps_price sell) price_below_ask
                in Inr (p\<lparr>pr_sells := [sell\<lparr>ps_price := me_quantize_order_price env higher_sell_price\<rparr>]\<rparr>)))
      | _ \<Rightarrow> Inr p)"

definition apply_order_optimization ::
  "pmm_params \<Rightarrow> pmm_env \<Rightarrow> pmm_state \<Rightarrow> proposal \<Rightarrow> py_error + proposal" where
  "apply_order_optimization mm env st p =
     (if 1 < mm_order_levels mm then Inr p
      else bind_err (optimize_buy mm env st p) (optimize_sell mm env st))"

definition apply_order_price_modifiers ::
  "pmm_params \<Rightarrow> pmm_env \<Rightarrow> pmm_state \<Rightarrow> proposal \<Rightarrow> py_error + proposal" where
  "apply_order_price_modifiers mm env st p =
     (if mm_order_optimization_enabled mm then apply_order_optimization mm env st p else Inr p)"


subsection \<open>Budget and taker filters\<close>

definition candidate_for :: "pmm_params \<Rightarrow> trade_type \<Rightarrow> price_size \<Rightarrow> order_candidate" where
  "candidate_for mm side x =
     new_order_candidate (mm_trading_pair mm) True LIMIT side (ps_size x) (ps_price x) False
       (Some \<lparr>pt_leverage = mm_leverage mm, pt_position_close = False\<rparr>)"

definition create_order_candidates_for_budget_check :: "pmm_params \<Rightarrow> proposal \<Rightarrow> order_candidate list" where
  "create_order_candidates_for_budget_check mm p =
     map (candidate_for mm BUY) (pr_buys p) @ map (candidate_for mm SELL) (pr_sells p)"

text \<open>
  The adjusted candidates are taken from the front, one per order; an order whose candidate was set to
  zero is dropped.
\<close>

fun drop_unfunded :: "order_candidate list \<Rightarrow> price_size list \<Rightarrow> py_error + (price_size list \<times> order_candidate list)" where
  "drop_unfunded cs [] = Inr ([], cs)"
| "drop_unfunded [] (x # xs) = Inl IndexError"
| "drop_unfunded (c # cs) (x # xs) =
     bind_err (drop_unfunded cs xs) (\<lambda>(ys, rest).
       let x' = (if oc_amount c = 0 then x\<lparr>ps_size := 0\<rparr> else x)
       in Inr (if 0 < ps_size x' then x' # ys else ys, rest))"

definition apply_adjusted_order_candidates_to_proposal ::
  "order_candidate list \<Rightarrow> proposal \<Rightarrow> py_error + proposal" where
  "apply_adjusted_order_candidates_to_proposal cs p =
     bind_err (drop_unfunded cs (pr_buys p)) (\<lambda>(buys, cs').
     bind_err (drop_unfunded cs' (pr_sells p)) (\<lambda>(sells, _).
       Inr \<lparr>pr_buys = buys, pr_sells = sells\<rparr>))"

text \<open>A fresh checker stands for the connector's: \<^verbatim>\<open>adjust_candidates\<close> resets it before and after.\<close>

definition apply_budget_constraint :: "pmm_params \<Rightarrow> pmm_env \<Rightarrow> proposal \<Rightarrow> py_error + proposal" where
  "apply_budget_constraint mm env p =
     bind_err (adjust_candidates perpetual_lock_available_collateral True
                (create_order_candidates_for_budget_check mm p) (new_budget_checker (me_exchange env)))
       (\<lambda>(adjusted, _). apply_adjusted_order_candidates_to_proposal adjusted p)"

definition filter_out_takers :: "pmm_env \<Rightarrow> proposal \<Rightarrow> proposal" where
  "filter_out_takers env p =
     (let p1 = (case me_get_price env True of
                  None \<Rightarrow> p
                | Some top_ask \<Rightarrow> p\<lparr>pr_buys := [x \<leftarrow> pr_buys p. ps_price x < top_ask]\<rparr>)
      in case me_get_price env False of
           None \<Rightarrow> p1
         | Some top_bid \<Rightarrow> p1\<lparr>pr_sells := [x \<leftarrow> pr_sells p1. top_bid < ps_price x]\<rparr>)"

definition opening_proposal :: "pmm_params \<Rightarrow> pmm_env \<Rightarrow> pmm_state \<Rightarrow> py_error + proposal" where
  "opening_proposal mm env st =
     bind_err (apply_order_price_modifiers mm env st
                 (apply_price_band mm env st (create_base_proposal mm env st))) (\<lambda>p1.
     bind_err (apply_budget_constraint mm env p1) (\<lambda>p2.
       Inr (filter_out_takers env p2)))"

subsection \<open>Cancelling and creating orders\<close>

definition set_timers :: "pmm_params \<Rightarrow> pmm_env \<Rightarrow> pmm_state \<Rightarrow> pmm_state" where
  "set_timers mm env st =
     (let next_cycle = me_current_timestamp env + mm_order_refresh_time mm;
          st1 = (if mp_create_timestamp st \<le> me_current_timestamp env
                 then st\<lparr>mp_create_timestamp := next_cycle\<rparr> else st)
      in if mp_cancel_timestamp st1 \<le> me_current_timestamp env
         then st1\<lparr>mp_cancel_timestamp := min (mp_create_timestamp st1) next_cycle\<rparr> else st1)"

fun tolerance_loop :: "decimal \<Rightarrow> (decimal \<times> decimal) list \<Rightarrow> py_error + bool" where
  "tolerance_loop tolerance [] = Inr True"
| "tolerance_loop tolerance ((current, proposed) # rest) =
     bind_err (dec_div \<bar>proposed - current\<bar> current) (\<lambda>d.
       if tolerance < d then Inr False else tolerance_loop tolerance rest)"

definition is_within_tolerance :: "pmm_params \<Rightarrow> decimal list \<Rightarrow> decimal list \<Rightarrow> py_error + bool" where
  "is_within_tolerance mm current_prices proposal_prices =
     (if length current_prices \<noteq> length proposal_prices then Inr False
      else tolerance_loop (mm_order_refresh_tolerance_pct mm) (zip (sort current_prices) (sort proposal_prices)))"

definition defer_canceling :: "pmm_params \<Rightarrow> pmm_state \<Rightarrow> proposal option \<Rightarrow> py_error + bool" where
  "defer_canceling mm st pr =
     (case pr of
        None \<Rightarrow> Inr False
      | Some p \<Rightarrow>
          if mm_order_refresh_tolerance_pct mm < 0 then Inr False
          else bind_err (is_within_tolerance mm
                   (map lo_price (filter lo_is_buy (mp_active_orders st))) (map ps_price (pr_buys p))) (\<lambda>buys_ok.
               if buys_ok then is_within_tolerance mm
                   (map lo_price (filter (\<lambda>x. \<not> lo_is_buy x) (mp_active_orders st))) (map ps_price (pr_sells p))
               else Inr False))"

definition cancel_active_orders ::
  "pmm_params \<Rightarrow> pmm_env \<Rightarrow> proposal option \<Rightarrow> pmm_state \<Rightarrow> pmm_state pmm_result" where
  "cancel_active_orders mm env pr st =
     (if me_current_timestamp env < mp_cancel_timestamp st then Inr st
      else if length (mp_active_orders st) = 0 then Inr st
      else bind_err (at_state st (defer_canceling mm st pr)) (\<lambda>defer.
        if \<not> defer then Inr (cancel_orders (mp_active_orders st) st)
        else Inr (set_timers mm env st)))"

fun below_min_spread :: "decimal \<Rightarrow> decimal \<Rightarrow> limit_order list \<Rightarrow> py_error + limit_order list" where
  "below_min_spread min_spread price [] = Inr []"
| "below_min_spread min_spread price (x # xs) =
     bind_err (dec_div ((if lo_is_buy x then - 1 else 1) * (lo_price x - price)) price) (\<lambda>spread.
     bind_err (below_min_spread min_spread price xs) (\<lambda>ys.
       Inr (if spread < min_spread then x # ys else ys)))"

definition cancel_orders_below_min_spread ::
  "pmm_params \<Rightarrow> pmm_env \<Rightarrow> pmm_state \<Rightarrow> pmm_state pmm_result" where
  "cancel_orders_below_min_spread mm env st =
     bind_err (at_state st (below_min_spread (mm_minimum_spread mm) (get_price mm env st) (mp_active_orders st)))
       (\<lambda>orders.
       Inr (cancel_orders orders st))"

definition to_create_orders :: "pmm_env \<Rightarrow> proposal option \<Rightarrow> pmm_state \<Rightarrow> bool" where
  "to_create_orders env pr st \<longleftrightarrow>
     mp_create_timestamp st < me_current_timestamp env \<and> pr \<noteq> None \<and> length (mp_active_orders st) = 0"

text \<open>Placing one order: the connector names it, the tracker lists it, an exit order is noted.\<close>

definition place_order ::
  "pmm_params \<Rightarrow> pmm_env \<Rightarrow> position_action \<Rightarrow> bool \<Rightarrow> price_size \<Rightarrow> pmm_state \<Rightarrow> pmm_state" where
  "place_order mm env action is_buy x st =
     (let order_id = mm_order_id mm (mp_order_count st);
          order = \<lparr>lo_client_order_id = order_id, lo_is_buy = is_buy, lo_price = ps_price x,
                   lo_quantity = ps_size x\<rparr>;
          st1 = log_call (PlaceOrder order action)
                  (st\<lparr>mp_order_count := mp_order_count st + 1, mp_active_orders := mp_active_orders st @ [order]\<rparr>)
      in if action = CLOSE_POSITION
         then st1\<lparr>mp_exit_orders := AList.update order_id (me_current_timestamp env) (mp_exit_orders st1)\<rparr>
         else st1)"

text \<open>
  \<^verbatim>\<open>execute_orders_proposal\<close>: an exit order within the delay of the previous exit order of its side
  makes the whole operation return (\<open>True\<close>), before the sells when it is a buy.
\<close>

definition exit_blocked :: "pmm_env \<Rightarrow> bool \<Rightarrow> pmm_state \<Rightarrow> bool" where
  "exit_blocked env is_buy st \<longleftrightarrow> me_current_timestamp env <
     (if is_buy then mp_next_buy_exit_order_timestamp st else mp_next_sell_exit_order_timestamp st)"

definition note_exit :: "pmm_params \<Rightarrow> pmm_env \<Rightarrow> bool \<Rightarrow> pmm_state \<Rightarrow> pmm_state" where
  "note_exit mm env is_buy st =
     (let next_ts = me_current_timestamp env + mm_filled_order_delay mm
      in if is_buy then st\<lparr>mp_next_buy_exit_order_timestamp := next_ts\<rparr>
         else st\<lparr>mp_next_sell_exit_order_timestamp := next_ts\<rparr>)"

definition execute_side ::
  "pmm_params \<Rightarrow> pmm_env \<Rightarrow> position_action \<Rightarrow> bool \<Rightarrow> price_size list \<Rightarrow> pmm_state \<Rightarrow> bool \<times> pmm_state" where
  "execute_side mm env action is_buy xs st =
     (if xs = [] then (False, st)
      else if action = CLOSE_POSITION \<and> exit_blocked env is_buy st then (True, st)
      else (False, fold (place_order mm env action is_buy) xs
                     (if action = CLOSE_POSITION then note_exit mm env is_buy st else st)))"

definition execute_orders_proposal ::
  "pmm_params \<Rightarrow> pmm_env \<Rightarrow> position_action \<Rightarrow> proposal \<Rightarrow> pmm_state \<Rightarrow> pmm_state" where
  "execute_orders_proposal mm env action p st =
     (let (stop, st1) = execute_side mm env action True (pr_buys p) st in
      if stop then st1
      else
        let (stop, st2) = execute_side mm env action False (pr_sells p) st1 in
        if stop then st2
        else if pr_buys p \<noteq> [] \<or> pr_sells p \<noteq> [] then set_timers mm env st2 else st2)"

subsection \<open>Managing positions\<close>

definition is_exit_order :: "pmm_state \<Rightarrow> limit_order \<Rightarrow> bool" where
  "is_exit_order st x \<longleftrightarrow> map_of (mp_exit_orders st) (lo_client_order_id x) \<noteq> None"

text \<open>An order on the side that reduces the position.\<close>

definition closes :: "position \<Rightarrow> limit_order \<Rightarrow> bool" where
  "closes pos x \<longleftrightarrow> (po_amount pos < 0 \<and> lo_is_buy x) \<or> (0 < po_amount pos \<and> \<not> lo_is_buy x)"

definition add_exit :: "position \<Rightarrow> price_size \<Rightarrow> proposal \<Rightarrow> proposal" where
  "add_exit pos x p =
     (if 0 < ps_size x \<and> 0 < ps_price x
      then (if po_amount pos < 0 then p\<lparr>pr_buys := pr_buys p @ [x]\<rparr> else p\<lparr>pr_sells := pr_sells p @ [x]\<rparr>)
      else p)"

definition position_size :: "pmm_params \<Rightarrow> pmm_env \<Rightarrow> position \<Rightarrow> decimal" where
  "position_size mm env pos =
     ex_quantize_order_amount (me_exchange env) (mm_trading_pair mm) \<bar>po_amount pos\<bar>"

definition price_test :: "(decimal \<Rightarrow> bool) \<Rightarrow> decimal option \<Rightarrow> py_error + bool" where
  "price_test P price = (case price of None \<Rightarrow> Inl InvalidOperation | Some x \<Rightarrow> Inr (P x))"

definition in_profit :: "decimal option \<Rightarrow> decimal option \<Rightarrow> position \<Rightarrow> py_error + bool" where
  "in_profit ask bid pos =
     bind_err (price_test (\<lambda>a. po_entry_price pos < a) ask) (\<lambda>above.
       if above \<and> 0 < po_amount pos then Inr True
       else bind_err (price_test (\<lambda>b. b < po_entry_price pos) bid) (\<lambda>below.
         Inr (below \<and> po_amount pos < 0)))"

definition take_profit_price :: "pmm_params \<Rightarrow> pmm_env \<Rightarrow> position \<Rightarrow> decimal" where
  "take_profit_price mm env pos =
     me_quantize_order_price env
       (if 0 < po_amount pos then po_entry_price pos * (1 + mm_long_profit_taking_spread mm)
        else po_entry_price pos * (1 - mm_short_profit_taking_spread mm))"

definition take_profit_step ::
  "pmm_params \<Rightarrow> pmm_env \<Rightarrow> position \<Rightarrow> proposal \<times> pmm_state \<Rightarrow> (proposal \<times> pmm_state) pmm_result" where
  "take_profit_step mm env pos acc =
     (let (p, st) = acc in
      bind_err (at_state st (in_profit (me_get_price env True) (me_get_price env False) pos)) (\<lambda>profit.
        if \<not> profit then Inr (p, st)
        else
          let price = take_profit_price mm env pos;
              sz = position_size mm env pos;
              old_exit_orders = [x \<leftarrow> mp_active_orders st. (lo_price x \<noteq> price \<or> lo_quantity x \<noteq> sz) \<and>
                                    is_exit_order st x \<and> closes pos x];
              st1 = cancel_orders old_exit_orders st;
              exit_order_exists = [x \<leftarrow> mp_active_orders st1. lo_price x = price]
          in Inr (if exit_order_exists = [] then add_exit pos \<lparr>ps_price = price, ps_size = sz\<rparr> p else p, st1)))"

text \<open>In one-way mode the orders that are no exit orders and would close the position are cancelled.\<close>

definition cancel_unwanted :: "pmm_params \<Rightarrow> position list \<Rightarrow> pmm_state \<Rightarrow> pmm_state" where
  "cancel_unwanted mm positions st =
     (case (mm_position_mode mm, positions) of
        (ONEWAY, [pos]) \<Rightarrow>
          cancel_orders [x \<leftarrow> mp_active_orders st. \<not> is_exit_order st x \<and> closes pos x] st
      | _ \<Rightarrow> st)"

definition no_orders :: proposal where
  "no_orders = \<lparr>pr_buys = [], pr_sells = []\<rparr>"

definition profit_taking_proposal ::
  "pmm_params \<Rightarrow> pmm_env \<Rightarrow> position list \<Rightarrow> pmm_state \<Rightarrow> (proposal \<times> pmm_state) pmm_result" where
  "profit_taking_proposal mm env positions st =
     fold_err (take_profit_step mm env) positions (no_orders, cancel_unwanted mm positions st)"

definition should_renew_stop_loss :: "pmm_params \<Rightarrow> pmm_env \<Rightarrow> pmm_state \<Rightarrow> limit_order \<Rightarrow> py_error + bool" where
  "should_renew_stop_loss mm env st x =
     (case map_of (mp_exit_orders st) (lo_client_order_id x) of
        None \<Rightarrow> Inl TypeError
      | Some created \<Rightarrow> Inr (mm_time_between_stop_loss_orders mm \<le> me_current_timestamp env - created))"

definition stop_loss_price :: "pmm_params \<Rightarrow> position \<Rightarrow> decimal" where
  "stop_loss_price mm pos =
     (if po_amount pos < 0 then po_entry_price pos * (1 + mm_stop_loss_spread mm)
      else po_entry_price pos * (1 - mm_stop_loss_spread mm))"

text \<open>\<^verbatim>\<open>previous_stop_loss_price or stop_loss_price\<close>, the price of the last existing exit order.\<close>

definition new_stop_price :: "pmm_params \<Rightarrow> position \<Rightarrow> limit_order list \<Rightarrow> decimal" where
  "new_stop_price mm pos existing =
     (if existing = [] \<or> lo_price (last existing) = 0 then stop_loss_price mm pos
      else lo_price (last existing))"

definition exit_at ::
  "pmm_params \<Rightarrow> pmm_env \<Rightarrow> position \<Rightarrow> (limit_order \<Rightarrow> bool) \<Rightarrow> decimal \<Rightarrow> proposal \<times> pmm_state \<Rightarrow>
   proposal \<times> pmm_state" where
  "exit_at mm env pos replaced price acc =
     (let (p, st) = acc in
      (add_exit pos \<lparr>ps_price = price, ps_size = position_size mm env pos\<rparr> p,
       cancel_orders [x \<leftarrow> mp_active_orders st. replaced x \<and> is_exit_order st x] st))"

text \<open>The code's \<open>top_ask\<close> is the price to sell at and its \<open>top_bid\<close> the price to buy at.\<close>

definition stop_loss_step ::
  "pmm_params \<Rightarrow> pmm_env \<Rightarrow> position \<Rightarrow> proposal \<times> pmm_state \<Rightarrow> (proposal \<times> pmm_state) pmm_result" where
  "stop_loss_step mm env pos acc =
     (let (p, st) = acc;
          existing = [x \<leftarrow> mp_active_orders st. is_exit_order st x \<and> closes pos x]
      in bind_err (if existing = [] then Inr True else at_state st (should_renew_stop_loss mm env st (hd existing)))
        (\<lambda>renew.
          if \<not> renew then Inr (p, st)
          else
            let st1 = cancel_orders existing st;
                new_price = new_stop_price mm pos existing;
                sell_price = me_quantize_order_price env (new_price * (1 - mm_stop_loss_slippage_buffer mm));
                buy_price = me_quantize_order_price env (new_price * (1 + mm_stop_loss_slippage_buffer mm))
            in bind_err (at_state st1 (price_test (\<lambda>a. a \<le> stop_loss_price mm pos) (me_get_price env False))) (\<lambda>fallen.
              if fallen \<and> 0 < po_amount pos
              then Inr (exit_at mm env pos (\<lambda>x. \<not> lo_is_buy x \<and> sell_price < lo_price x) sell_price (p, st1))
              else
                bind_err (at_state st1 (price_test (\<lambda>b. stop_loss_price mm pos \<le> b) (me_get_price env True))) (\<lambda>risen.
                  if risen \<and> po_amount pos < 0
                  then Inr (exit_at mm env pos (\<lambda>x. lo_is_buy x \<and> lo_price x < buy_price) buy_price (p, st1))
                  else Inr (p, st1)))))"

definition stop_loss_proposal ::
  "pmm_params \<Rightarrow> pmm_env \<Rightarrow> position list \<Rightarrow> pmm_state \<Rightarrow> (proposal \<times> pmm_state) pmm_result" where
  "stop_loss_proposal mm env positions st = fold_err (stop_loss_step mm env) positions (no_orders, st)"

definition manage_positions ::
  "pmm_params \<Rightarrow> pmm_env \<Rightarrow> position list \<Rightarrow> pmm_state \<Rightarrow> pmm_state pmm_result" where
  "manage_positions mm env positions st =
     bind_err (profit_taking_proposal mm env positions st) (\<lambda>(p, st1).
       let st2 = execute_orders_proposal mm env CLOSE_POSITION p st1 in
       bind_err (stop_loss_proposal mm env positions st2) (\<lambda>(p', st3).
         Inr (execute_orders_proposal mm env CLOSE_POSITION p' st3)))"

subsection \<open>The tick and the events\<close>

definition session_positions :: "pmm_params \<Rightarrow> pmm_env \<Rightarrow> position list" where
  "session_positions mm env = [s \<leftarrow> me_account_positions env. po_trading_pair s = mm_trading_pair mm]"

definition quote_market :: "pmm_params \<Rightarrow> pmm_env \<Rightarrow> pmm_state \<Rightarrow> pmm_state pmm_result" where
  "quote_market mm env st =
     (let st1 = st\<lparr>mp_exit_orders := []\<rparr> in
      bind_err (if mp_create_timestamp st1 \<le> me_current_timestamp env
                then bind_err (at_state st1 (opening_proposal mm env st1)) (\<lambda>p. Inr (Some p)) else Inr None) (\<lambda>pr.
      bind_err (cancel_active_orders mm env pr st1) (\<lambda>st2.
      bind_err (cancel_orders_below_min_spread mm env st2) (\<lambda>st3.
        let st4 = (case pr of
                     Some p \<Rightarrow> if to_create_orders env pr st3
                               then execute_orders_proposal mm env OPEN_POSITION p st3 else st3
                   | None \<Rightarrow> st3)
        in Inr (st4\<lparr>mp_ts_peak_ask_price := me_get_price env False,
                    mp_ts_peak_bid_price := me_get_price env True\<rparr>)))))"

definition tick_body :: "pmm_params \<Rightarrow> pmm_env \<Rightarrow> pmm_state \<Rightarrow> pmm_state pmm_result" where
  "tick_body mm env st =
     (let st1 = (if \<not> mp_all_markets_ready st
                 then st\<lparr>mp_all_markets_ready := me_markets_ready env \<and>
                          (mm_has_asset_price_delegate mm \<longrightarrow> me_delegate_ready env)\<rparr> else st)
      in if \<not> mp_all_markets_ready st1 then Inr st1
         else if length (session_positions mm env) = 0 then quote_market mm env st1
         else manage_positions mm env (session_positions mm env) st1)"

text \<open>The time is noted whether the body raises or not (\<^verbatim>\<open>finally\<close>).\<close>

definition pmm_tick :: "pmm_params \<Rightarrow> pmm_env \<Rightarrow> pmm_state \<Rightarrow> py_error option \<times> pmm_state" where
  "pmm_tick mm env st =
     (if \<not> mp_position_mode_ready st then
        (let st1 = st\<lparr>mp_position_mode_not_ready_counter := mp_position_mode_not_ready_counter st + 1\<rparr> in
         (None, if mp_position_mode_not_ready_counter st1 = 10
                then (log_call (SetPositionMode (mm_position_mode mm)) st1)\<lparr>mp_position_mode_not_ready_counter := 0\<rparr>
                else st1))
      else
        (case tick_body mm env (st\<lparr>mp_position_mode_not_ready_counter := 0\<rparr>) of
           Inl (e, st1) \<Rightarrow> (Some e, st1\<lparr>mp_last_timestamp := me_current_timestamp env\<rparr>)
         | Inr st1 \<Rightarrow> (None, st1\<lparr>mp_last_timestamp := me_current_timestamp env\<rparr>)))"

text \<open>
  The completion of an own order, and its removal from the tracker.  \<^verbatim>\<open>did_complete_buy_order\<close> and
  \<^verbatim>\<open>did_complete_sell_order\<close> change the state in the same way.
\<close>

definition did_complete_order :: "pmm_params \<Rightarrow> pmm_env \<Rightarrow> string \<Rightarrow> pmm_state \<Rightarrow> pmm_state" where
  "did_complete_order mm env order_id st =
     (case find (\<lambda>x. lo_client_order_id x = order_id) (mp_active_orders st) of
        None \<Rightarrow> st
      | Some x \<Rightarrow>
          (let create = me_current_timestamp env + mm_filled_order_delay mm in
           st\<lparr>mp_create_timestamp := create, mp_cancel_timestamp := min (mp_cancel_timestamp st) create,
              mp_last_own_trade_price := Some (lo_price x)\<rparr>))"

definition pmm_position_mode_succeed :: "pmm_params \<Rightarrow> position_mode \<Rightarrow> pmm_state \<Rightarrow> pmm_state" where
  "pmm_position_mode_succeed mm mode st = st\<lparr>mp_position_mode_ready := (mm_position_mode mm = mode)\<rparr>"

definition pmm_position_mode_fail :: "pmm_state \<Rightarrow> pmm_state" where
  "pmm_position_mode_fail st = st\<lparr>mp_position_mode_ready := False\<rparr>"


subsection \<open>Orders placed\<close>

text \<open>The orders among the calls: side, price, amount and position action.\<close>

type_synonym placed = "bool \<times> decimal \<times> decimal \<times> position_action"

definition orders_placed :: "pmm_call list \<Rightarrow> placed list" where
  "orders_placed calls = List.map_filter
     (\<lambda>c. case c of PlaceOrder x a \<Rightarrow> Some (lo_is_buy x, lo_price x, lo_quantity x, a) | _ \<Rightarrow> None) calls"

definition as_placed :: "position_action \<Rightarrow> bool \<Rightarrow> price_size \<Rightarrow> placed" where
  "as_placed a is_buy x = (is_buy, ps_price x, ps_size x, a)"

definition result_state :: "pmm_state pmm_result \<Rightarrow> pmm_state" where
  "result_state r = (case r of Inl (e, st) \<Rightarrow> st | Inr st \<Rightarrow> st)"

lemma result_state_simps [simp]: "result_state (Inl (e, st)) = st" "result_state (Inr st) = st"
  by (simp_all add: result_state_def)

lemma at_state_simps [simp]: "at_state st (Inr x) = Inr x" "at_state st (Inl e) = Inl (e, st)"
  by (simp_all add: at_state_def)

lemma at_state_Inr [simp]: "at_state st m = Inr x \<longleftrightarrow> m = Inr x"
  by (cases m) simp_all

lemma at_state_Inl [simp]: "at_state st m = Inl y \<longleftrightarrow> (\<exists>e. m = Inl e \<and> y = (e, st))"
  by (cases m) auto

lemma orders_placed_simps [simp]:
  "orders_placed [] = []" "orders_placed (xs @ ys) = orders_placed xs @ orders_placed ys"
  "orders_placed [CancelOrder i] = []" "orders_placed [SetPositionMode m] = []" "orders_placed [SetLeverage t l] = []"
  "orders_placed [PlaceOrder x a] = [(lo_is_buy x, lo_price x, lo_quantity x, a)]"
  "orders_placed (map (\<lambda>x. CancelOrder (f x)) os) = []"
  by (simp_all add: orders_placed_def map_filter_def)

lemma cancel_orders_eq:
  "cancel_orders xs st = st\<lparr>mp_calls := mp_calls st @ map (\<lambda>x. CancelOrder (lo_client_order_id x)) xs\<rparr>"
  unfolding cancel_orders_def by (induction xs arbitrary: st) (simp_all add: log_call_def)

lemma place_order_calls: "mp_calls (place_order mm env a b x st) =
    mp_calls st @ [PlaceOrder \<lparr>lo_client_order_id = mm_order_id mm (mp_order_count st), lo_is_buy = b,
                               lo_price = ps_price x, lo_quantity = ps_size x\<rparr> a]"
  by (simp add: place_order_def log_call_def Let_def)

lemma place_orders_placed:
  "orders_placed (mp_calls (fold (place_order mm env a b) xs st)) =
     orders_placed (mp_calls st) @ map (as_placed a b) xs"
  by (induction xs arbitrary: st) (simp_all add: place_order_calls as_placed_def)

lemma place_orders_timers:
  "mp_create_timestamp (fold (place_order mm env a b) xs st) = mp_create_timestamp st \<and>
   mp_cancel_timestamp (fold (place_order mm env a b) xs st) = mp_cancel_timestamp st \<and>
   mp_next_buy_exit_order_timestamp (fold (place_order mm env a b) xs st) = mp_next_buy_exit_order_timestamp st \<and>
   mp_next_sell_exit_order_timestamp (fold (place_order mm env a b) xs st) = mp_next_sell_exit_order_timestamp st"
  by (induction xs arbitrary: st) (simp_all add: place_order_def log_call_def Let_def)

lemma set_timers_calls [simp]: "mp_calls (set_timers mm env st) = mp_calls st"
  by (simp add: set_timers_def Let_def)

text \<open>What executing a proposal places: the buys, the sells, both or neither; all of it when opening.\<close>

lemma note_exit_simps [simp]:
  "mp_calls (note_exit mm env b st) = mp_calls st"
  "mp_create_timestamp (note_exit mm env b st) = mp_create_timestamp st"
  "mp_cancel_timestamp (note_exit mm env b st) = mp_cancel_timestamp st"
  by (simp_all add: note_exit_def Let_def)

lemma execute_side_placed:
  assumes "execute_side mm env a b xs st = (stop, st')"
  shows "orders_placed (mp_calls st') = orders_placed (mp_calls st) @ (if stop then [] else map (as_placed a b) xs) \<and>
         mp_create_timestamp st' = mp_create_timestamp st \<and> (stop \<longrightarrow> a = CLOSE_POSITION)"
  using assms
  by (auto simp: execute_side_def place_orders_placed place_orders_timers split: if_splits)

lemma execute_placed:
  "\<exists>bs ss. orders_placed (mp_calls (execute_orders_proposal mm env a p st)) = orders_placed (mp_calls st) @ bs @ ss \<and>
     (bs = [] \<or> bs = map (as_placed a True) (pr_buys p)) \<and> (ss = [] \<or> ss = map (as_placed a False) (pr_sells p))"
proof -
  obtain stop1 st1 where st1: "execute_side mm env a True (pr_buys p) st = (stop1, st1)" by fastforce
  obtain stop2 st2 where st2: "execute_side mm env a False (pr_sells p) st1 = (stop2, st2)" by fastforce
  note placed = execute_side_placed[OF st1] execute_side_placed[OF st2]
  show ?thesis
  proof (cases stop1)
    case True
    then show ?thesis using st1 placed by (simp add: execute_orders_proposal_def)
  next
    case False
    then have "orders_placed (mp_calls (execute_orders_proposal mm env a p st)) = orders_placed (mp_calls st2)"
      using st1 st2 by (simp add: execute_orders_proposal_def Let_def)
    then show ?thesis
      using placed False
      by (intro exI[of _ "map (as_placed a True) (pr_buys p)"]
          exI[of _ "if stop2 then [] else map (as_placed a False) (pr_sells p)"]) auto
  qed
qed

lemma open_placed:
  "orders_placed (mp_calls (execute_orders_proposal mm env OPEN_POSITION p st)) =
     orders_placed (mp_calls st) @ map (as_placed OPEN_POSITION True) (pr_buys p) @
     map (as_placed OPEN_POSITION False) (pr_sells p)"
proof -
  obtain stop1 st1 where st1: "execute_side mm env OPEN_POSITION True (pr_buys p) st = (stop1, st1)" by fastforce
  obtain stop2 st2 where st2: "execute_side mm env OPEN_POSITION False (pr_sells p) st1 = (stop2, st2)" by fastforce
  show ?thesis
    using st1 st2 execute_side_placed[OF st1] execute_side_placed[OF st2]
    by (auto simp: execute_orders_proposal_def Let_def)
qed

subsection \<open>Exit orders\<close>

text \<open>Every order of a proposal reduces one of the positions by its (rounded) size.\<close>

definition exits_only :: "pmm_params \<Rightarrow> pmm_env \<Rightarrow> position list \<Rightarrow> placed \<Rightarrow> bool" where
  "exits_only mm env positions order \<longleftrightarrow>
     (case order of (is_buy, price, sz, action) \<Rightarrow> action = CLOSE_POSITION \<and> 0 < price \<and> 0 < sz \<and>
        (\<exists>pos \<in> set positions. sz = position_size mm env pos \<and>
           (if is_buy then po_amount pos < 0 else 0 < po_amount pos)))"

definition exit_proposal :: "pmm_params \<Rightarrow> pmm_env \<Rightarrow> position list \<Rightarrow> proposal \<Rightarrow> bool" where
  "exit_proposal mm env positions p \<longleftrightarrow>
     (\<forall>x \<in> set (pr_buys p). exits_only mm env positions (as_placed CLOSE_POSITION True x)) \<and>
     (\<forall>x \<in> set (pr_sells p). exits_only mm env positions (as_placed CLOSE_POSITION False x))"

lemma add_exit_ok:
  assumes "exit_proposal mm env positions p" "pos \<in> set positions" "po_amount pos \<noteq> 0"
  shows "exit_proposal mm env positions (add_exit pos \<lparr>ps_price = price, ps_size = position_size mm env pos\<rparr> p)"
  using assms by (auto simp: add_exit_def exit_proposal_def exits_only_def as_placed_def)

lemma in_profit_nonzero: "in_profit ask bid pos = Inr True \<Longrightarrow> po_amount pos \<noteq> 0"
  by (auto simp: in_profit_def bind_err_eq_Inr split: if_splits)

lemma execute_exits:
  assumes "exit_proposal mm env positions p"
  shows "\<exists>new. orders_placed (mp_calls (execute_orders_proposal mm env CLOSE_POSITION p st)) =
           orders_placed (mp_calls st) @ new \<and> (\<forall>x \<in> set new. exits_only mm env positions x)"
proof -
  obtain bs ss where placed: "orders_placed (mp_calls (execute_orders_proposal mm env CLOSE_POSITION p st)) =
      orders_placed (mp_calls st) @ bs @ ss"
    and bs: "bs = [] \<or> bs = map (as_placed CLOSE_POSITION True) (pr_buys p)"
    and ss: "ss = [] \<or> ss = map (as_placed CLOSE_POSITION False) (pr_sells p)"
    using execute_placed by meson
  have "\<forall>x \<in> set (bs @ ss). exits_only mm env positions x"
    using assms bs ss by (auto simp: exit_proposal_def)
  then show ?thesis using placed by blast
qed


text \<open>Building an exit proposal places nothing, also when it raises.\<close>

definition builds_exits ::
  "pmm_params \<Rightarrow> pmm_env \<Rightarrow> position list \<Rightarrow> pmm_state \<Rightarrow> (proposal \<times> pmm_state) pmm_result \<Rightarrow> bool" where
  "builds_exits mm env positions st r =
     (case r of
        Inl (e, st') \<Rightarrow> orders_placed (mp_calls st') = orders_placed (mp_calls st)
      | Inr (p, st') \<Rightarrow> exit_proposal mm env positions p \<and>
                        orders_placed (mp_calls st') = orders_placed (mp_calls st))"

lemma take_profit_step_builds:
  assumes "exit_proposal mm env positions p" "pos \<in> set positions"
  shows "builds_exits mm env positions st (take_profit_step mm env pos (p, st))"
proof (cases "in_profit (me_get_price env True) (me_get_price env False) pos")
  case (Inl e)
  then show ?thesis by (simp add: take_profit_step_def builds_exits_def)
next
  case (Inr profit)
  show ?thesis
  proof (cases profit)
    case True
    then have "po_amount pos \<noteq> 0" using Inr in_profit_nonzero by simp
    then show ?thesis
      using Inr True assms add_exit_ok[OF assms]
      by (simp add: take_profit_step_def builds_exits_def Let_def cancel_orders_eq)
  qed (use Inr assms in \<open>simp add: take_profit_step_def builds_exits_def\<close>)
qed

lemma exit_at_builds:
  assumes "exit_proposal mm env positions p" "pos \<in> set positions" "po_amount pos \<noteq> 0"
    and "orders_placed (mp_calls st1) = orders_placed (mp_calls st)"
  shows "builds_exits mm env positions st (Inr (exit_at mm env pos replaced price (p, st1)))"
  using add_exit_ok[OF assms(1-3)] assms(4)
  by (simp add: builds_exits_def exit_at_def cancel_orders_eq)

lemma stop_loss_step_builds:
  assumes "exit_proposal mm env positions p" "pos \<in> set positions"
  shows "builds_exits mm env positions st (stop_loss_step mm env pos (p, st))"
proof -
  let ?existing = "[x \<leftarrow> mp_active_orders st. is_exit_order st x \<and> closes pos x]"
  let ?st1 = "cancel_orders ?existing st"
  have st1: "orders_placed (mp_calls ?st1) = orders_placed (mp_calls st)" by (simp add: cancel_orders_eq)
  note exit = exit_at_builds[OF assms _ st1]
  obtain r where r: "(if ?existing = [] then Inr True
      else at_state st (should_renew_stop_loss mm env st (hd ?existing))) = r" by blast
  show ?thesis
  proof (cases r)
    case (Inl e)
    then obtain err where "e = (err, st)" using r by (auto split: if_splits)
    then show ?thesis using r Inl by (simp add: stop_loss_step_def builds_exits_def Let_def)
  next
    case (Inr renew)
    show ?thesis
    proof (cases renew)
      case False
      then show ?thesis using r Inr assms by (simp add: stop_loss_step_def builds_exits_def Let_def)
    next
      case True
      show ?thesis
        using r Inr True exit st1 assms(1)
        by (cases "me_get_price env False"; cases "me_get_price env True")
          (auto simp: stop_loss_step_def Let_def price_test_def builds_exits_def split: prod.splits)
    qed
  qed
qed


lemma fold_builds:
  assumes "exit_proposal mm env positions p"
    and step: "\<And>pos p st. pos \<in> set positions \<Longrightarrow> exit_proposal mm env positions p \<Longrightarrow>
                 builds_exits mm env positions st (f pos (p, st))"
  shows "builds_exits mm env positions st (fold_err f positions (p, st))"
proof -
  let ?P = "\<lambda>(p, st'). exit_proposal mm env positions p \<and> orders_placed (mp_calls st') = orders_placed (mp_calls st)"
  let ?Q = "\<lambda>(e, st'). orders_placed (mp_calls st') = orders_placed (mp_calls st)"
  have "case fold_err f positions (p, st) of Inl e \<Rightarrow> ?Q e | Inr t \<Rightarrow> ?P t"
  proof (rule fold_err_result)
    show "?P (p, st)" using assms(1) by simp
    fix pos acc t assume "pos \<in> set positions" "?P acc" "f pos acc = Inr t"
    then show "?P t" using step[of pos "fst acc" "snd acc"] by (auto simp: builds_exits_def split: prod.splits)
  next
    fix pos acc e assume "pos \<in> set positions" "?P acc" "f pos acc = Inl e"
    then show "?Q e" using step[of pos "fst acc" "snd acc"] by (auto simp: builds_exits_def split: prod.splits)
  qed
  then show ?thesis by (auto simp: builds_exits_def split: sum.splits)
qed

lemma no_orders_exits: "exit_proposal mm env positions no_orders"
  by (simp add: exit_proposal_def no_orders_def)

lemma cancel_unwanted_placed:
  "orders_placed (mp_calls (cancel_unwanted mm positions st)) = orders_placed (mp_calls st)"
  by (auto simp: cancel_unwanted_def cancel_orders_eq split: position_mode.split list.split)

lemma profit_taking_builds:
  "builds_exits mm env positions st (profit_taking_proposal mm env positions st)"
proof -
  let ?st = "cancel_unwanted mm positions st"
  have "builds_exits mm env positions ?st (fold_err (take_profit_step mm env) positions (no_orders, ?st))"
    by (rule fold_builds[OF no_orders_exits take_profit_step_builds])
  then show ?thesis unfolding profit_taking_proposal_def builds_exits_def cancel_unwanted_placed .
qed

lemma stop_loss_builds: "builds_exits mm env positions st (stop_loss_proposal mm env positions st)"
  unfolding stop_loss_proposal_def by (rule fold_builds[OF no_orders_exits stop_loss_step_builds])

text \<open>
  Whatever the state and the market, managing the open positions (taking profit and stopping loss,
  also when it ends with an exception) only places orders that close: each with action \<^verbatim>\<open>CLOSE\<close>, a
  positive price and amount, against one of the session's positions and of that position's rounded
  size; it never opens or increases a position.
\<close>

theorem manage_positions_only_exits:
  "\<exists>new. orders_placed (mp_calls (result_state (manage_positions mm env positions st))) =
           orders_placed (mp_calls st) @ new \<and> (\<forall>x \<in> set new. exits_only mm env positions x)"
proof (cases "profit_taking_proposal mm env positions st")
  case (Inl e)
  then show ?thesis
    using profit_taking_builds[of mm env positions st]
    by (cases e) (simp add: manage_positions_def builds_exits_def)
next
  case (Inr r)
  obtain p st1 where r: "r = (p, st1)" by (cases r)
  have p: "exit_proposal mm env positions p" "orders_placed (mp_calls st1) = orders_placed (mp_calls st)"
    using profit_taking_builds[of mm env positions st] Inr r by (simp_all add: builds_exits_def)
  let ?st2 = "execute_orders_proposal mm env CLOSE_POSITION p st1"
  obtain new where new: "orders_placed (mp_calls ?st2) = orders_placed (mp_calls st) @ new"
    "\<forall>x \<in> set new. exits_only mm env positions x"
    using execute_exits[OF p(1), of st1] p(2) by auto
  show ?thesis
  proof (cases "stop_loss_proposal mm env positions ?st2")
    case (Inl e)
    then show ?thesis
      using stop_loss_builds[of mm env positions ?st2] Inr r new
      by (cases e) (auto simp: manage_positions_def builds_exits_def Let_def)
  next
    case Inr': (Inr r')
    obtain p' st3 where r': "r' = (p', st3)" by (cases r')
    have p': "exit_proposal mm env positions p'" "orders_placed (mp_calls st3) = orders_placed (mp_calls ?st2)"
      using stop_loss_builds[of mm env positions ?st2] Inr' r' by (simp_all add: builds_exits_def)
    obtain new' where new': "orders_placed (mp_calls (execute_orders_proposal mm env CLOSE_POSITION p' st3)) =
        orders_placed (mp_calls ?st2) @ new'" "\<forall>x \<in> set new'. exits_only mm env positions x"
      using execute_exits[OF p'(1), of st3] p'(2) by auto
    have "result_state (manage_positions mm env positions st) = execute_orders_proposal mm env CLOSE_POSITION p' st3"
      using Inr r Inr' r' by (simp add: manage_positions_def Let_def)
    then show ?thesis using new new' by (intro exI[of _ "new @ new'"]) auto
  qed
qed

subsection \<open>Opening orders\<close>

lemma drop_unfunded_sub:
  assumes "drop_unfunded cs xs = Inr (ys, rest)"
  shows "\<exists>used. cs = used @ rest \<and> length used = length xs \<and>
           ys = map fst (filter (\<lambda>(x, c). oc_amount c \<noteq> 0 \<and> 0 < ps_size x) (zip xs used))"
  using assms
proof (induction cs xs arbitrary: ys rest rule: drop_unfunded.induct)
  case (3 c cs x xs)
  then obtain ys' where run: "drop_unfunded cs xs = Inr (ys', rest)"
    and ys: "ys = (if oc_amount c \<noteq> 0 \<and> 0 < ps_size x then x # ys' else ys')"
    by (auto simp: bind_err_eq_Inr Let_def split: if_splits)
  from "3.IH"[OF run] obtain used where
    "cs = used @ rest" "length used = length xs"
    "ys' = map fst (filter (\<lambda>(x, c). oc_amount c \<noteq> 0 \<and> 0 < ps_size x) (zip xs used))" by blast
  then show ?case using ys by (intro exI[of _ "c # used"]) simp
qed simp_all

text \<open>The orders a proposal keeps are those whose candidate the budget checker left at a positive amount.\<close>

definition funded :: "price_size list \<Rightarrow> order_candidate list \<Rightarrow> price_size list" where
  "funded xs cs = map fst (filter (\<lambda>(x, c). oc_amount c \<noteq> 0 \<and> 0 < ps_size x) (zip xs cs))"

lemma budget_constraint_funded:
  assumes "apply_budget_constraint mm env p = Inr p'"
  shows "\<exists>bs ss rest bc. adjust_candidates perpetual_lock_available_collateral True
             (create_order_candidates_for_budget_check mm p) (new_budget_checker (me_exchange env)) =
             Inr (bs @ ss @ rest, bc) \<and> length bs = length (pr_buys p) \<and> length ss = length (pr_sells p) \<and>
           pr_buys p' = funded (pr_buys p) bs \<and> pr_sells p' = funded (pr_sells p) ss"
proof -
  obtain adjusted bc buys cs' sells rest where
    "adjust_candidates perpetual_lock_available_collateral True
       (create_order_candidates_for_budget_check mm p) (new_budget_checker (me_exchange env)) = Inr (adjusted, bc)"
    and buys: "drop_unfunded adjusted (pr_buys p) = Inr (buys, cs')"
    and sells: "drop_unfunded cs' (pr_sells p) = Inr (sells, rest)"
    and p': "p' = \<lparr>pr_buys = buys, pr_sells = sells\<rparr>"
    using assms
    by (auto simp: apply_budget_constraint_def apply_adjusted_order_candidates_to_proposal_def bind_err_eq_Inr)
  then show ?thesis
    using drop_unfunded_sub[OF buys] drop_unfunded_sub[OF sells] unfolding funded_def by fastforce
qed

lemma optimize_keeps_empty:
  "optimize_buy mm env st p = Inr p' \<Longrightarrow> (pr_buys p = [] \<longrightarrow> pr_buys p' = []) \<and> pr_sells p' = pr_sells p"
  "optimize_sell mm env st p = Inr p' \<Longrightarrow> (pr_sells p = [] \<longrightarrow> pr_sells p' = []) \<and> pr_buys p' = pr_buys p"
  by (auto simp: optimize_buy_def optimize_sell_def bind_err_eq_Inr Let_def split: list.splits)

lemma modifiers_keep_empty:
  assumes "apply_order_price_modifiers mm env st p = Inr p'"
  shows "(pr_buys p = [] \<longrightarrow> pr_buys p' = []) \<and> (pr_sells p = [] \<longrightarrow> pr_sells p' = [])"
  using assms
  by (auto simp: apply_order_price_modifiers_def apply_order_optimization_def bind_err_eq_Inr
      split: if_splits dest!: optimize_keeps_empty)

lemma price_band_empty:
  "0 < mm_price_ceiling mm \<Longrightarrow> mm_price_ceiling mm \<le> get_price mm env st \<Longrightarrow>
   pr_buys (apply_price_band mm env st p) = []"
  "0 < mm_price_floor mm \<Longrightarrow> get_price mm env st \<le> mm_price_floor mm \<Longrightarrow>
   pr_sells (apply_price_band mm env st p) = []"
  by (simp_all add: apply_price_band_def Let_def)

definition passive_quote :: "pmm_params \<Rightarrow> pmm_env \<Rightarrow> pmm_state \<Rightarrow> placed \<Rightarrow> bool" where
  "passive_quote mm env st order \<longleftrightarrow>
     (case order of (is_buy, price, sz, action) \<Rightarrow> action = OPEN_POSITION \<and> 0 < sz \<and>
        (if is_buy
         then (\<forall>ask \<in> set_option (me_get_price env True). price < ask) \<and>
              \<not> (0 < mm_price_ceiling mm \<and> mm_price_ceiling mm \<le> get_price mm env st)
         else (\<forall>bid \<in> set_option (me_get_price env False). bid < price) \<and>
              \<not> (0 < mm_price_floor mm \<and> get_price mm env st \<le> mm_price_floor mm)))"

lemma funded_positive: "x \<in> set (funded xs cs) \<Longrightarrow> 0 < ps_size x \<and> xs \<noteq> []"
  by (auto simp: funded_def dest: set_zip_leftD)

lemma filtered_takers:
  "x \<in> set (pr_buys (filter_out_takers env p)) \<Longrightarrow>
     x \<in> set (pr_buys p) \<and> (\<forall>ask \<in> set_option (me_get_price env True). ps_price x < ask)"
  "x \<in> set (pr_sells (filter_out_takers env p)) \<Longrightarrow>
     x \<in> set (pr_sells p) \<and> (\<forall>bid \<in> set_option (me_get_price env False). bid < ps_price x)"
  by (auto simp: filter_out_takers_def Let_def split: option.splits)

lemma opening_proposal_passive:
  assumes "opening_proposal mm env st = Inr p"
  shows "\<forall>x \<in> set (map (as_placed OPEN_POSITION True) (pr_buys p) @ map (as_placed OPEN_POSITION False) (pr_sells p)).
           passive_quote mm env st x"
proof -
  let ?band = "apply_price_band mm env st (create_base_proposal mm env st)"
  obtain p1 p2 where p1: "apply_order_price_modifiers mm env st ?band = Inr p1"
    and p2: "apply_budget_constraint mm env p1 = Inr p2" and p: "p = filter_out_takers env p2"
    using assms by (auto simp: opening_proposal_def bind_err_eq_Inr)
  note keep = modifiers_keep_empty[OF p1] price_band_empty
  obtain bs ss where "pr_buys p2 = funded (pr_buys p1) bs" "pr_sells p2 = funded (pr_sells p1) ss"
    using budget_constraint_funded[OF p2] by blast
  then show ?thesis
    using keep
    by (fastforce simp: p passive_quote_def as_placed_def dest!: filtered_takers funded_positive)
qed

lemma set_timers_create:
  "mp_create_timestamp (set_timers mm env st) =
     (if mp_create_timestamp st \<le> me_current_timestamp env
      then me_current_timestamp env + mm_order_refresh_time mm else mp_create_timestamp st)"
  by (simp add: set_timers_def Let_def)

text \<open>What cancelling leaves alone; an error stops the quoting before any order.\<close>

lemma cancel_active_keeps:
  assumes "cancel_active_orders mm env pr st = Inr st'"
  shows "orders_placed (mp_calls st') = orders_placed (mp_calls st)" "mp_active_orders st' = mp_active_orders st"
    "mp_active_orders st = [] \<Longrightarrow> mp_create_timestamp st' = mp_create_timestamp st"
    "mp_create_timestamp st' = mp_create_timestamp st \<or> mp_create_timestamp st' = me_current_timestamp env + mm_order_refresh_time mm"
    "mp_create_timestamp st' < me_current_timestamp env \<Longrightarrow> mp_create_timestamp st < me_current_timestamp env \<or> mm_order_refresh_time mm < 0"
  using assms
  by (auto simp: cancel_active_orders_def cancel_orders_eq bind_err_eq_Inr set_timers_create split: if_splits)
    (auto simp: set_timers_def Let_def)

lemma min_spread_keeps:
  assumes "cancel_orders_below_min_spread mm env st = Inr st'"
  shows "orders_placed (mp_calls st') = orders_placed (mp_calls st)" "mp_active_orders st' = mp_active_orders st"
    "mp_create_timestamp st' = mp_create_timestamp st"
  using assms by (auto simp: cancel_orders_below_min_spread_def cancel_orders_eq bind_err_eq_Inr)

lemma cancel_fails:
  "cancel_active_orders mm env pr st = Inl (e, st') \<Longrightarrow> orders_placed (mp_calls st') = orders_placed (mp_calls st)"
  "cancel_orders_below_min_spread mm env st = Inl (e, st') \<Longrightarrow> orders_placed (mp_calls st') = orders_placed (mp_calls st)"
  by (auto simp: cancel_active_orders_def cancel_orders_below_min_spread_def bind_err_eq_Inl split: if_splits)

lemma execute_open_create:
  "mp_create_timestamp (execute_orders_proposal mm env OPEN_POSITION p st) =
     (if (pr_buys p \<noteq> [] \<or> pr_sells p \<noteq> []) \<and> mp_create_timestamp st \<le> me_current_timestamp env
      then me_current_timestamp env + mm_order_refresh_time mm else mp_create_timestamp st)"
proof -
  obtain stop1 st1 where st1: "execute_side mm env OPEN_POSITION True (pr_buys p) st = (stop1, st1)" by fastforce
  obtain stop2 st2 where st2: "execute_side mm env OPEN_POSITION False (pr_sells p) st1 = (stop2, st2)" by fastforce
  show ?thesis
    using st1 st2 execute_side_placed[OF st1] execute_side_placed[OF st2]
    by (auto simp: execute_orders_proposal_def set_timers_create)
qed

text \<open>One round of quoting: nothing placed, or an opening proposal on an empty book of own orders.\<close>

definition proposal_orders :: "proposal \<Rightarrow> placed list" where
  "proposal_orders p = map (as_placed OPEN_POSITION True) (pr_buys p) @ map (as_placed OPEN_POSITION False) (pr_sells p)"

definition opened :: "pmm_params \<Rightarrow> pmm_env \<Rightarrow> pmm_state \<Rightarrow> pmm_state \<Rightarrow> proposal \<Rightarrow> bool" where
  "opened mm env st st' p \<longleftrightarrow> opening_proposal mm env (st\<lparr>mp_exit_orders := []\<rparr>) = Inr p \<and>
     mp_active_orders st = [] \<and> mp_create_timestamp st < me_current_timestamp env \<and>
     mp_create_timestamp st' = me_current_timestamp env + mm_order_refresh_time mm"

lemma quote_round:
  "\<exists>new. orders_placed (mp_calls (result_state (quote_market mm env st))) = orders_placed (mp_calls st) @ new \<and>
     (new \<noteq> [] \<longrightarrow> (\<exists>p. opened mm env st (result_state (quote_market mm env st)) p \<and> new = proposal_orders p))"
proof -
  let ?st1 = "st\<lparr>mp_exit_orders := []\<rparr>"
  let ?pr = "if mp_create_timestamp ?st1 \<le> me_current_timestamp env
     then bind_err (at_state ?st1 (opening_proposal mm env ?st1)) (\<lambda>p. Inr (Some p)) else Inr None"
  show ?thesis
  proof (cases ?pr)
    case (Inl e)
    then have "e = (fst e, ?st1)" by (auto simp: bind_err_eq_Inl split: if_splits)
    then show ?thesis
      using Inl by (cases e) (simp add: quote_market_def)
  next
    case proposed: (Inr pr)
    show ?thesis
    proof (cases "cancel_active_orders mm env pr ?st1")
      case (Inl e)
      then show ?thesis
        using proposed cancel_fails(1)[of mm env pr ?st1 "fst e" "snd e"] by (cases e) (simp add: quote_market_def)
    next
      case st2: (Inr st2)
      note keep2 = cancel_active_keeps[OF st2]
      show ?thesis
      proof (cases "cancel_orders_below_min_spread mm env st2")
        case (Inl e)
        then show ?thesis
          using proposed st2 keep2 cancel_fails(2)[of mm env st2 "fst e" "snd e"]
          by (cases e) (simp add: quote_market_def)
      next
        case st3: (Inr st3)
        note keep3 = min_spread_keeps[OF st3]
        let ?st4 = "case pr of Some p \<Rightarrow> if to_create_orders env pr st3
            then execute_orders_proposal mm env OPEN_POSITION p st3 else st3 | None \<Rightarrow> st3"
        have run: "quote_market mm env st = Inr (?st4\<lparr>mp_ts_peak_ask_price := me_get_price env False,
                    mp_ts_peak_bid_price := me_get_price env True\<rparr>)"
          using proposed st2 st3 by (simp add: quote_market_def)
        show ?thesis
        proof (cases "\<exists>p. pr = Some p \<and> to_create_orders env pr st3")
          case False
          then have "?st4 = st3" by (auto split: option.split)
          then show ?thesis using run keep2(1) keep3(1) by simp
        next
          case True
          then obtain p where p: "pr = Some p" and create: "to_create_orders env pr st3" by blast
          have op_eq: "opening_proposal mm env ?st1 = Inr p"
            using proposed p by (auto simp: bind_err_eq_Inr split: if_splits)
          have empty: "mp_active_orders st = []" "mp_create_timestamp st < me_current_timestamp env"
            "mp_create_timestamp st3 = mp_create_timestamp st"
            using create keep2(2,3) keep3(2,3) by (simp_all add: to_create_orders_def)
          have "opened mm env st (result_state (quote_market mm env st)) p" if "proposal_orders p \<noteq> []"
            using that op_eq empty p create run
            by (auto simp: opened_def proposal_orders_def execute_open_create)
          then show ?thesis
            using p create run keep2(1) keep3(1) open_placed[of mm env p st3]
            by (intro exI[of _ "proposal_orders p"]) (auto simp: proposal_orders_def)
        qed
      qed
    qed
  qed
qed


text \<open>
  C26: whatever the state and the market, a round of quoting only places orders that open positions, of
  positive amount, buys below the best ask and sells above the best bid (when the book has one), no
  buy at or above the price ceiling and no sell at or below the price floor; and it places any only
  when no own order is active and the create time has passed.
\<close>

theorem quotes_passive:
  "\<exists>new. orders_placed (mp_calls (result_state (quote_market mm env st))) = orders_placed (mp_calls st) @ new \<and>
     (\<forall>x \<in> set new. passive_quote mm env st x) \<and>
     (new \<noteq> [] \<longrightarrow> mp_active_orders st = [] \<and> mp_create_timestamp st < me_current_timestamp env)"
proof -
  obtain new where new: "orders_placed (mp_calls (result_state (quote_market mm env st))) = orders_placed (mp_calls st) @ new"
    "new \<noteq> [] \<longrightarrow> (\<exists>p. opened mm env st (result_state (quote_market mm env st)) p \<and> new = proposal_orders p)"
    using quote_round by blast
  have "get_price mm env (st\<lparr>mp_exit_orders := []\<rparr>) = get_price mm env st" by (simp add: get_price_def)
  then have same: "passive_quote mm env (st\<lparr>mp_exit_orders := []\<rparr>) x = passive_quote mm env st x" for x
    by (cases x) (simp add: passive_quote_def)
  have "\<forall>x \<in> set new. passive_quote mm env st x" if "new \<noteq> []"
    using new(2) that opening_proposal_passive[of mm env "st\<lparr>mp_exit_orders := []\<rparr>"]
    unfolding opened_def proposal_orders_def same by blast
  then show ?thesis using new by (cases "new = []") (auto simp: opened_def)
qed

text \<open>
  A round of quoting that placed orders places none again before the refresh time is over, if
  nothing else moves the create time (a fill does) and whatever became of the orders.
\<close>

theorem quotes_once_per_refresh:
  assumes "orders_placed (mp_calls (result_state (quote_market mm env st))) \<noteq> orders_placed (mp_calls st)"
    and "mp_create_timestamp st2 = mp_create_timestamp (result_state (quote_market mm env st))"
    and "me_current_timestamp env2 \<le> me_current_timestamp env + mm_order_refresh_time mm"
  shows "orders_placed (mp_calls (result_state (quote_market mm env2 st2))) = orders_placed (mp_calls st2)"
proof -
  have created: "mp_create_timestamp st2 = me_current_timestamp env + mm_order_refresh_time mm"
    using quote_round[of mm env st] assms(1,2) by (auto simp: opened_def)
  show ?thesis
    using quote_round[of mm env2 st2] assms(3) by (auto simp: opened_def created)
qed

subsection \<open>The opening orders are paid for\<close>

lemma funded_margin:
  assumes "length cs = length xs" "leverage > 0" "\<forall>x \<in> set xs. 0 < ps_price x \<and> 0 < ps_size x"
  shows "(\<Sum>x \<leftarrow> funded xs cs. ps_size x * ps_price x / leverage) =
         (\<Sum>(c, c') \<leftarrow> zip (map (candidate_for mm side) xs) cs. kept_margin leverage c c')"
  using assms
proof (induction cs xs rule: list_induct2)
  case (Cons c cs x xs)
  then show ?case
    by (simp add: funded_def kept_margin_def candidate_for_def new_order_candidate_def)
qed (simp add: funded_def)

lemma opening_candidates:
  assumes "0 < mm_leverage mm" "\<forall>x \<in> set xs. 0 < ps_price x \<and> 0 < ps_size x"
  shows "\<forall>c \<in> set (map (candidate_for mm side) xs). opening_candidate (mm_trading_pair mm) (mm_leverage mm) c"
  using assms
  by (auto simp: opening_candidate_def candidate_for_def candidate_ok_def fresh_candidate_def terms_ok_def
      new_order_candidate_def)

text \<open>
  C25: in a market margined in its quote token, the orders of a proposal that pass the budget constraint
  have together a margin (price times amount over the leverage) of at most the available balance.
\<close>

theorem opening_orders_funded:
  assumes "exchange_ok (me_exchange env)" and "\<forall>t. 0 \<le> ex_available_balance (me_exchange env) t"
    and "0 < mm_leverage mm" and "\<forall>x \<in> set (pr_buys p @ pr_sells p). 0 < ps_price x \<and> 0 < ps_size x"
    and "split_hb_trading_pair (mm_trading_pair mm) = Inr (base, quote)" and "base \<noteq> quote"
    and "ex_buy_collateral_token (me_exchange env) (mm_trading_pair mm) = quote"
    and "ex_sell_collateral_token (me_exchange env) (mm_trading_pair mm) = quote"
    and "apply_budget_constraint mm env p = Inr p'"
  shows "(\<Sum>x \<leftarrow> pr_buys p' @ pr_sells p'. ps_size x * ps_price x / mm_leverage mm) \<le>
         ex_available_balance (me_exchange env) quote"
proof -
  let ?buys = "map (candidate_for mm BUY) (pr_buys p)" and ?sells = "map (candidate_for mm SELL) (pr_sells p)"
  let ?bc = "new_budget_checker (me_exchange env)"
  obtain bs ss rest bc where run: "adjust_candidates perpetual_lock_available_collateral True (?buys @ ?sells) ?bc =
      Inr (bs @ ss @ rest, bc)"
    and len: "length bs = length (pr_buys p)" "length ss = length (pr_sells p)"
    and p': "pr_buys p' = funded (pr_buys p) bs" "pr_sells p' = funded (pr_sells p) ss"
    using budget_constraint_funded[OF assms(9)] unfolding create_order_candidates_for_budget_check_def by blast
  have ex: "bc_exchange ?bc = me_exchange env" by (simp add: new_budget_checker_def)
  have opening_all: "\<forall>c \<in> set (?buys @ ?sells). opening_candidate (mm_trading_pair mm) (mm_leverage mm) c"
    using opening_candidates[OF assms(3), of "pr_buys p" BUY] opening_candidates[OF assms(3), of "pr_sells p" SELL]
      assms(4) by auto
  note margins = batch_margins[OF _ opening_all assms(5,6) _ _ _ run, unfolded ex, OF assms(1,7,8,2)]
  have "rest = []" using margins(1) len by simp
  then show ?thesis
    using margins(2) len assms(3,4) p' funded_margin[OF len(1) assms(3), of mm BUY] funded_margin[OF len(2) assms(3), of mm SELL]
    by simp
qed


subsection \<open>A concrete market\<close>

definition sample_pmm :: pmm_params where
  "sample_pmm = \<lparr>mm_trading_pair = ''ETH-USDT'', mm_leverage = 2, mm_position_mode = HEDGE,
     mm_bid_spread = 1/100, mm_ask_spread = 1/100, mm_minimum_spread = - 1, mm_order_amount = 1,
     mm_long_profit_taking_spread = 3/100, mm_short_profit_taking_spread = 3/100,
     mm_stop_loss_spread = 5/100, mm_time_between_stop_loss_orders = 60, mm_stop_loss_slippage_buffer = 1/200,
     mm_order_levels = 1, mm_buy_levels = 1, mm_sell_levels = 1, mm_order_level_spread = 1/100,
     mm_order_level_amount = 0, mm_order_refresh_time = 30, mm_order_refresh_tolerance_pct = - 1,
     mm_filled_order_delay = 60, mm_order_optimization_enabled = False,
     mm_ask_order_optimization_depth = 0, mm_bid_order_optimization_depth = 0,
     mm_has_asset_price_delegate = False, mm_price_type = MidPrice, mm_price_ceiling = - 1,
     mm_price_floor = - 1, mm_order_override = None, mm_order_id = (\<lambda>n. replicate n (CHR ''x''))\<rparr>"

definition sample_pmm_env :: "position list \<Rightarrow> decimal \<Rightarrow> seconds \<Rightarrow> pmm_env" where
  "sample_pmm_env positions mid now = \<lparr>me_exchange = sample_exchange,
     me_get_price = (\<lambda>is_buy. Some (if is_buy then mid + 1/100 else mid - 1/100)),
     me_price_by_type = (\<lambda>_. Some mid), me_mid_price = mid, me_quantize_order_price = (\<lambda>p. p),
     me_price_for_volume = (\<lambda>_ _. mid), me_order_price_quantum = (\<lambda>_. 1/100),
     me_account_positions = positions, me_markets_ready = True, me_delegate_ready = True,
     me_current_timestamp = now\<rparr>"

definition sample_pmm_state :: pmm_state where
  "sample_pmm_state = \<lparr>mp_cancel_timestamp = 0, mp_create_timestamp = 0, mp_all_markets_ready = True,
     mp_last_timestamp = 0, mp_last_own_trade_price = None, mp_ts_peak_bid_price = Some 0,
     mp_ts_peak_ask_price = Some 0, mp_exit_orders = [], mp_next_buy_exit_order_timestamp = 0,
     mp_next_sell_exit_order_timestamp = 0, mp_position_mode_ready = True,
     mp_position_mode_not_ready_counter = 0, mp_active_orders = [], mp_order_count = 0, mp_calls = []\<rparr>"

definition long_position :: position where
  "long_position = \<lparr>po_trading_pair = ''ETH-USDT'', po_entry_price = 20, po_amount = 2\<rparr>"

definition short_position :: position where
  "short_position = \<lparr>po_trading_pair = ''ETH-USDT'', po_entry_price = 20, po_amount = - 3\<rparr>"

lemma sample_quotes:
  "orders_placed (mp_calls (result_state (quote_market sample_pmm (sample_pmm_env [] 20 10) sample_pmm_state))) =
     [(True, 99/5, 1, OPEN_POSITION), (False, 101/5, 1, OPEN_POSITION)]"
  by code_simp

lemma quotes_passive_witness:
  "passive_quote sample_pmm (sample_pmm_env [] 20 10) sample_pmm_state (True, 99/5, 1, OPEN_POSITION) \<and>
   passive_quote sample_pmm (sample_pmm_env [] 20 10) sample_pmm_state (False, 101/5, 1, OPEN_POSITION)"
  using quotes_passive[of sample_pmm "sample_pmm_env [] 20 10" sample_pmm_state]
  unfolding sample_quotes by (auto simp: sample_pmm_state_def)

lemma quotes_once_per_refresh_witness:
  "let st = result_state (quote_market sample_pmm (sample_pmm_env [] 20 10) sample_pmm_state);
       st2 = st\<lparr>mp_active_orders := []\<rparr>
   in orders_placed (mp_calls (result_state (quote_market sample_pmm (sample_pmm_env [] 20 40) st2))) =
      orders_placed (mp_calls st2)"
  unfolding Let_def
  by (rule quotes_once_per_refresh[where st = sample_pmm_state])
    (simp_all add: sample_quotes, simp_all add: sample_pmm_state_def sample_pmm_env_def sample_pmm_def)

lemma sample_exits:
  "orders_placed (mp_calls (result_state (manage_positions sample_pmm (sample_pmm_env [long_position] 22 10)
     [long_position] sample_pmm_state))) = [(False, 103/5, 2, CLOSE_POSITION)]"
  by code_simp

lemma manage_positions_only_exits_witness:
  "exits_only sample_pmm (sample_pmm_env [long_position] 22 10) [long_position] (False, 103/5, 2, CLOSE_POSITION)"
  using manage_positions_only_exits[of sample_pmm "sample_pmm_env [long_position] 22 10" "[long_position]" sample_pmm_state]
  unfolding sample_exits by (auto simp: sample_pmm_state_def)

definition sample_proposal :: proposal where
  "sample_proposal = \<lparr>pr_buys = [\<lparr>ps_price = 20, ps_size = 10\<rparr>, \<lparr>ps_price = 19, ps_size = 30\<rparr>],
     pr_sells = [\<lparr>ps_price = 21, ps_size = 5\<rparr>]\<rparr>"

lemma sample_constraint:
  "apply_budget_constraint sample_pmm (sample_pmm_env [] 20 10) sample_proposal =
     Inr \<lparr>pr_buys = [\<lparr>ps_price = 20, ps_size = 10\<rparr>], pr_sells = [\<lparr>ps_price = 21, ps_size = 5\<rparr>]\<rparr>"
  by code_simp

lemma opening_orders_funded_witness:
  "(\<Sum>x \<leftarrow> [\<lparr>ps_price = 20, ps_size = 10\<rparr>] @ [\<lparr>ps_price = 21, ps_size = 5\<rparr>]. ps_size x * ps_price x / mm_leverage sample_pmm)
   \<le> ex_available_balance sample_exchange ''USDT''"
  using opening_orders_funded[OF _ _ _ _ _ _ _ _ sample_constraint, of "''ETH''" "''USDT''"]
  by (simp add: sample_pmm_env_def sample_exchange_ok sample_pmm_def sample_proposal_def
      split_hb_trading_pair_def sample_exchange_def)

subsection \<open>What the exit orders do to each other\<close>

text \<open>
  A take-profit sell of a long position, older than the renewal time, when the market has fallen below
  the stop loss at 19: the new order's price is derived from the take-profit price, above the market.
\<close>

definition take_profit_resting :: pmm_state where
  "take_profit_resting = sample_pmm_state\<lparr>
     mp_active_orders := [\<lparr>lo_client_order_id = ''tp'', lo_is_buy = False, lo_price = 103/5, lo_quantity = 2\<rparr>],
     mp_exit_orders := [(''tp'', 10)]\<rparr>"

lemma stop_loss_reuses_exit_price:
  "mp_calls (result_state (manage_positions sample_pmm (sample_pmm_env [long_position] 18 100)
     [long_position] take_profit_resting)) =
   [CancelOrder ''tp'', CancelOrder ''tp'',
    PlaceOrder \<lparr>lo_client_order_id = [], lo_is_buy = False, lo_price = 20497/1000, lo_quantity = 2\<rparr> CLOSE_POSITION]"
  by code_simp

text \<open>
  With a long and a short position in profit and loss, a buy exit within the delay of the last one
  keeps the sell exit of the other position from being placed.
\<close>

lemma blocked_buy_exit_blocks_sells:
  "orders_placed (mp_calls (execute_orders_proposal sample_pmm (sample_pmm_env [] 20 10) CLOSE_POSITION
     \<lparr>pr_buys = [\<lparr>ps_price = 19, ps_size = 3\<rparr>], pr_sells = [\<lparr>ps_price = 18, ps_size = 2\<rparr>]\<rparr>
     (sample_pmm_state\<lparr>mp_next_buy_exit_order_timestamp := 11\<rparr>))) = []"
  by code_simp

end
