(* ===== verification/Order_Book.thy ===== *)
theory Order_Book
  imports Prelude
begin

text \<open>
  \<^verbatim>\<open>core/data_type/order_book.pyx\<close> with \<^verbatim>\<open>core/cpp/OrderBookEntry.cpp\<close>: one market's order book, the
  updates an exchange sends for it and the queries connectors and strategies make.

  Each side is a \<^verbatim>\<open>std::set\<close> of entries ordered by price; entries of one price are equal to it.  The model
  of such a set is the list of its entries in ascending order of price.  NaN is \<open>None\<close>.
\<close>

record order_book_row =
  br_price :: rat
  br_amount :: rat
  br_update_id :: int

record order_book =
  ob_bid_book :: "order_book_row list"
  ob_ask_book :: "order_book_row list"
  ob_snapshot_uid :: int
  ob_last_diff_uid :: int
  ob_best_bid :: "rat option"
  ob_best_ask :: "rat option"
  ob_last_trade_price :: "rat option"
  ob_last_applied_trade :: seconds
  ob_last_trade_price_rest_updated :: seconds
  ob_dex :: bool

definition new_order_book :: "bool \<Rightarrow> order_book" where
  "new_order_book dex =
     \<lparr>ob_bid_book = [], ob_ask_book = [], ob_snapshot_uid = 0, ob_last_diff_uid = 0, ob_best_bid = None,
      ob_best_ask = None, ob_last_trade_price = None, ob_last_applied_trade = - 1000,
      ob_last_trade_price_rest_updated = - 1000, ob_dex = dex\<rparr>"

subsection \<open>The sets of entries\<close>

text \<open>\<^verbatim>\<open>insert\<close> leaves the set as it is when it has an entry of that price; \<^verbatim>\<open>erase\<close> is by price.\<close>

fun book_insert :: "order_book_row \<Rightarrow> order_book_row list \<Rightarrow> order_book_row list" where
  "book_insert r [] = [r]"
| "book_insert r (x # xs) =
     (if br_price r < br_price x then r # x # xs
      else if br_price x < br_price r then x # book_insert r xs
      else x # xs)"

definition book_erase :: "order_book_row \<Rightarrow> order_book_row list \<Rightarrow> order_book_row list" where
  "book_erase r xs = [x \<leftarrow> xs. br_price x \<noteq> br_price r]"

subsection \<open>Updates\<close>

text \<open>A diff of amount zero deletes its price.\<close>

definition apply_diff_row :: "order_book_row \<Rightarrow> order_book_row list \<Rightarrow> order_book_row list" where
  "apply_diff_row r book =
     (let book' = book_erase r book in if 0 < br_amount r then book_insert r book' else book')"

text \<open>
  The two versions of \<^verbatim>\<open>truncateOverlapEntries\<close>, from the best prices inwards; the bids are given with
  the best first.  While the best prices overlap, one of the two entries is erased: of a decentralised
  exchange the one of less value, of a centralised exchange the ask when the bid is newer and the bid
  otherwise.
\<close>

definition erase_ask :: "bool \<Rightarrow> order_book_row \<Rightarrow> order_book_row \<Rightarrow> bool" where
  "erase_ask dex bid ask =
     (if dex then br_amount ask * br_price ask < br_amount bid * br_price bid
      else br_update_id ask < br_update_id bid)"

function truncate_overlap ::
  "bool \<Rightarrow> order_book_row list \<Rightarrow> order_book_row list \<Rightarrow> order_book_row list \<times> order_book_row list" where
  "truncate_overlap dex [] asks = ([], asks)"
| "truncate_overlap dex (b # bids) [] = (b # bids, [])"
| "truncate_overlap dex (b # bids) (a # asks) =
     (if br_price a \<le> br_price b
      then (if erase_ask dex b a then truncate_overlap dex (b # bids) asks
            else truncate_overlap dex bids (a # asks))
      else (b # bids, a # asks))"
  by pat_completeness auto
termination
  by (relation "measure (\<lambda>(_, bids, asks). length bids + length asks)") auto

definition truncate_overlap_entries :: "order_book \<Rightarrow> order_book" where
  "truncate_overlap_entries ob =
     (let (bids, asks) = truncate_overlap (ob_dex ob) (rev (ob_bid_book ob)) (ob_ask_book ob)
      in ob\<lparr>ob_bid_book := rev bids, ob_ask_book := asks\<rparr>)"

text \<open>The cached best prices; an empty side keeps the price it had.\<close>

definition record_best :: "order_book \<Rightarrow> order_book" where
  "record_best ob =
     ob\<lparr>ob_best_bid := (if ob_bid_book ob = [] then ob_best_bid ob else Some (br_price (last (ob_bid_book ob)))),
        ob_best_ask := (if ob_ask_book ob = [] then ob_best_ask ob else Some (br_price (hd (ob_ask_book ob))))\<rparr>"

definition apply_diffs :: "order_book_row list \<Rightarrow> order_book_row list \<Rightarrow> int \<Rightarrow> order_book \<Rightarrow> order_book" where
  "apply_diffs bids asks update_id ob =
     (let ob1 = ob\<lparr>ob_bid_book := fold apply_diff_row bids (ob_bid_book ob),
                   ob_ask_book := fold apply_diff_row asks (ob_ask_book ob)\<rparr>
      in (record_best (truncate_overlap_entries ob1))\<lparr>ob_last_diff_uid := update_id\<rparr>)"

text \<open>The best price of a snapshot is found among its rows, not among the entries inserted.\<close>

definition best_of :: "(rat \<Rightarrow> rat \<Rightarrow> bool) \<Rightarrow> order_book_row list \<Rightarrow> rat option" where
  "best_of better_eq rows =
     fold (\<lambda>r best. case best of None \<Rightarrow> Some (br_price r)
                    | Some p \<Rightarrow> if better_eq p (br_price r) then best else Some (br_price r)) rows None"

definition apply_snapshot :: "order_book_row list \<Rightarrow> order_book_row list \<Rightarrow> int \<Rightarrow> order_book \<Rightarrow> order_book" where
  "apply_snapshot bids asks update_id ob =
     (let ob1 = ob\<lparr>ob_bid_book := fold book_insert bids [], ob_ask_book := fold book_insert asks [],
                   ob_best_bid := best_of (\<ge>) bids, ob_best_ask := best_of (\<le>) asks\<rparr>;
          ob2 = (if ob_dex ob then record_best (truncate_overlap_entries ob1) else ob1)
      in ob2\<lparr>ob_snapshot_uid := update_id\<rparr>)"

definition apply_trade :: "rat \<Rightarrow> seconds \<Rightarrow> order_book \<Rightarrow> order_book" where
  "apply_trade price now ob = ob\<lparr>ob_last_trade_price := Some price, ob_last_applied_trade := now\<rparr>"

text \<open>The arrays of \<^verbatim>\<open>numpy\<close> rows carry no update id of their own; the largest of the rows is taken.\<close>

definition last_update_id :: "order_book_row list \<Rightarrow> order_book_row list \<Rightarrow> int" where
  "last_update_id bids asks =
     fold (\<lambda>r u. max u (br_update_id r)) asks (fold (\<lambda>r u. max u (br_update_id r)) bids 0)"

definition apply_numpy_diffs :: "order_book_row list \<Rightarrow> order_book_row list \<Rightarrow> order_book \<Rightarrow> order_book" where
  "apply_numpy_diffs bids asks ob = apply_diffs bids asks (last_update_id bids asks) ob"

definition apply_numpy_snapshot :: "order_book_row list \<Rightarrow> order_book_row list \<Rightarrow> order_book \<Rightarrow> order_book" where
  "apply_numpy_snapshot bids asks ob = apply_snapshot bids asks (last_update_id bids asks) ob"

subsection \<open>Queries\<close>

definition bid_entries :: "order_book \<Rightarrow> order_book_row list" where
  "bid_entries ob = rev (ob_bid_book ob)"

definition ask_entries :: "order_book \<Rightarrow> order_book_row list" where
  "ask_entries ob = ob_ask_book ob"

definition entries :: "order_book \<Rightarrow> bool \<Rightarrow> order_book_row list" where
  "entries ob is_buy = (if is_buy then ask_entries ob else bid_entries ob)"

text \<open>The rows taken by an order of an amount, best first; \<^verbatim>\<open>simulate_buy\<close> and \<^verbatim>\<open>simulate_sell\<close>.\<close>

fun simulate :: "rat \<Rightarrow> order_book_row list \<Rightarrow> order_book_row list" where
  "simulate amount_left [] = []"
| "simulate amount_left (r # rs) =
     (if br_amount r < amount_left then r # simulate (amount_left - br_amount r) rs
      else [r\<lparr>br_amount := amount_left\<rparr>])"

definition simulate_buy :: "order_book \<Rightarrow> rat \<Rightarrow> order_book_row list" where
  "simulate_buy ob amount = simulate amount (ask_entries ob)"

definition simulate_sell :: "order_book \<Rightarrow> rat \<Rightarrow> order_book_row list" where
  "simulate_sell ob amount = simulate amount (bid_entries ob)"

text \<open>\<^verbatim>\<open>EnvironmentError\<close> is an \<open>RaisedException\<close>.\<close>

definition book_price :: "order_book \<Rightarrow> bool \<Rightarrow> py_error + rat option" where
  "book_price ob is_buy =
     (if length (if is_buy then ob_ask_book ob else ob_bid_book ob) < 1 then Inl RaisedException
      else Inr (if is_buy then ob_best_ask ob else ob_best_bid ob))"

record query_result =
  qr_query_price :: "rat option"
  qr_query_volume :: "rat option"
  qr_result_price :: "rat option"
  qr_result_volume :: "rat option"

text \<open>The loop of the queries for a volume: \<open>row_volume\<close> is what a row adds to the cumulative volume.\<close>

fun sweep :: "(order_book_row \<Rightarrow> rat) \<Rightarrow> rat \<Rightarrow> rat \<Rightarrow> order_book_row list \<Rightarrow> rat option \<times> rat" where
  "sweep row_volume volume cumulative [] = (None, cumulative)"
| "sweep row_volume volume cumulative (r # rs) =
     (let cumulative' = cumulative + row_volume r
      in if volume \<le> cumulative' then (Some (br_price r), cumulative')
         else sweep row_volume volume cumulative' rs)"

definition price_for_volume :: "order_book \<Rightarrow> bool \<Rightarrow> rat \<Rightarrow> query_result" where
  "price_for_volume ob is_buy volume =
     (let (price, cumulative) = sweep br_amount volume 0 (entries ob is_buy)
      in \<lparr>qr_query_price = None, qr_query_volume = Some volume, qr_result_price = price,
          qr_result_volume = Some (min cumulative volume)\<rparr>)"

definition row_value :: "order_book_row \<Rightarrow> rat" where
  "row_value r = br_amount r * br_price r"

definition price_for_quote_volume :: "order_book \<Rightarrow> bool \<Rightarrow> rat \<Rightarrow> query_result" where
  "price_for_quote_volume ob is_buy quote_volume =
     (let (price, cumulative) = sweep row_value quote_volume 0 (entries ob is_buy)
      in \<lparr>qr_query_price = None, qr_query_volume = Some quote_volume, qr_result_price = price,
          qr_result_volume = Some (min cumulative quote_volume)\<rparr>)"

text \<open>A division of \<^verbatim>\<open>double\<close>s by zero raises \<^verbatim>\<open>ZeroDivisionError\<close>.\<close>

definition double_div :: "rat \<Rightarrow> rat \<Rightarrow> py_error + rat" where
  "double_div a b = (if b = 0 then Inl DivisionByZero else Inr (a / b))"

text \<open>The row that completes the volume is taken out again and put back in part.\<close>

fun vwap_sweep :: "rat \<Rightarrow> rat \<Rightarrow> rat \<Rightarrow> order_book_row list \<Rightarrow> py_error + (rat option \<times> rat)" where
  "vwap_sweep volume total_cost total_volume [] = Inr (None, total_volume)"
| "vwap_sweep volume total_cost total_volume (r # rs) =
     (let total_cost1 = total_cost + br_amount r * br_price r;
          total_volume1 = total_volume + br_amount r
      in if volume \<le> total_volume1 then
           (let total_cost2 = total_cost1 - br_amount r * br_price r;
                total_volume2 = total_volume1 - br_amount r;
                incremental_amount = volume - total_volume2;
                total_cost3 = total_cost2 + incremental_amount * br_price r;
                total_volume3 = total_volume2 + incremental_amount
            in bind_err (double_div total_cost3 total_volume3) (\<lambda>vwap. Inr (Some vwap, total_volume3)))
         else vwap_sweep volume total_cost1 total_volume1 rs)"

definition vwap_for_volume :: "order_book \<Rightarrow> bool \<Rightarrow> rat \<Rightarrow> py_error + query_result" where
  "vwap_for_volume ob is_buy volume =
     bind_err (vwap_sweep volume 0 0 (entries ob is_buy)) (\<lambda>(vwap, total_volume).
       Inr \<lparr>qr_query_price = None, qr_query_volume = Some volume, qr_result_price = vwap,
            qr_result_volume = Some (min total_volume volume)\<rparr>)"

fun quote_volume_sweep :: "rat \<Rightarrow> rat \<Rightarrow> rat \<Rightarrow> order_book_row list \<Rightarrow> rat" where
  "quote_volume_sweep base_amount cumulative_base cumulative_volume [] = cumulative_volume"
| "quote_volume_sweep base_amount cumulative_base cumulative_volume (r # rs) =
     (let row_amount = (if base_amount \<le> br_amount r + cumulative_base then base_amount - cumulative_base
                        else br_amount r);
          cumulative_base' = cumulative_base + row_amount;
          cumulative_volume' = cumulative_volume + row_amount * br_price r
      in if base_amount \<le> cumulative_base' then cumulative_volume'
         else quote_volume_sweep base_amount cumulative_base' cumulative_volume' rs)"

definition quote_volume_for_base_amount :: "order_book \<Rightarrow> bool \<Rightarrow> rat \<Rightarrow> query_result" where
  "quote_volume_for_base_amount ob is_buy base_amount =
     \<lparr>qr_query_price = None, qr_query_volume = Some base_amount, qr_result_price = None,
      qr_result_volume = Some (quote_volume_sweep base_amount 0 0 (entries ob is_buy))\<rparr>"

fun volume_sweep ::
  "(order_book_row \<Rightarrow> rat) \<Rightarrow> (rat \<Rightarrow> bool) \<Rightarrow> rat option \<Rightarrow> rat \<Rightarrow> order_book_row list \<Rightarrow> rat option \<times> rat" where
  "volume_sweep row_volume beyond result_price cumulative [] = (result_price, cumulative)"
| "volume_sweep row_volume beyond result_price cumulative (r # rs) =
     (if beyond (br_price r) then (result_price, cumulative)
      else volume_sweep row_volume beyond (Some (br_price r)) (cumulative + row_volume r) rs)"

definition beyond_price :: "bool \<Rightarrow> rat \<Rightarrow> rat \<Rightarrow> bool" where
  "beyond_price is_buy limit price = (if is_buy then limit < price else price < limit)"

definition volume_for_price :: "order_book \<Rightarrow> bool \<Rightarrow> rat \<Rightarrow> query_result" where
  "volume_for_price ob is_buy price =
     (let (result_price, cumulative) = volume_sweep br_amount (beyond_price is_buy price) None 0 (entries ob is_buy)
      in \<lparr>qr_query_price = Some price, qr_query_volume = None, qr_result_price = result_price,
          qr_result_volume = Some cumulative\<rparr>)"

definition quote_volume_for_price :: "order_book \<Rightarrow> bool \<Rightarrow> rat \<Rightarrow> query_result" where
  "quote_volume_for_price ob is_buy price =
     (let (result_price, cumulative) = volume_sweep row_value (beyond_price is_buy price) None 0 (entries ob is_buy)
      in \<lparr>qr_query_price = Some price, qr_query_volume = None, qr_result_price = result_price,
          qr_result_volume = Some cumulative\<rparr>)"

subsection \<open>Sorted sides\<close>

definition ascending :: "order_book_row list \<Rightarrow> bool" where
  "ascending xs \<longleftrightarrow> sorted_wrt (<) (map br_price xs)"

lemma ascending_simps [simp]:
  "ascending []"
  "ascending (x # xs) \<longleftrightarrow> (\<forall>y \<in> set xs. br_price x < br_price y) \<and> ascending xs"
  by (auto simp: ascending_def)

lemma insert_subset: "set (book_insert r xs) \<subseteq> insert r (set xs)"
  by (induction xs) auto

lemma insert_ascending: "ascending xs \<Longrightarrow> ascending (book_insert r xs)"
proof (induction xs)
  case (Cons x xs)
  then show ?case using insert_subset[of r xs] by fastforce
qed simp

lemma erase_ascending: "ascending xs \<Longrightarrow> ascending (book_erase r xs)"
  by (induction xs) (auto simp: book_erase_def)

lemma diff_ascending: "ascending xs \<Longrightarrow> ascending (apply_diff_row r xs)"
  by (simp add: apply_diff_row_def Let_def insert_ascending erase_ascending)

lemma diffs_ascending: "ascending xs \<Longrightarrow> ascending (fold apply_diff_row rs xs)"
  by (induction rs arbitrary: xs) (simp_all add: diff_ascending)

lemma inserts_ascending: "ascending xs \<Longrightarrow> ascending (fold book_insert rs xs)"
  by (induction rs arbitrary: xs) (simp_all add: insert_ascending)

text \<open>A side as a map from price to entry.\<close>

definition level :: "order_book_row list \<Rightarrow> rat \<Rightarrow> order_book_row option" where
  "level xs p = find (\<lambda>r. br_price r = p) xs"

definition diff_level :: "order_book_row \<Rightarrow> (rat \<Rightarrow> order_book_row option) \<Rightarrow> rat \<Rightarrow> order_book_row option" where
  "diff_level r m = m(br_price r := (if 0 < br_amount r then Some r else None))"

lemma level_none: "\<forall>y \<in> set xs. br_price y \<noteq> p \<Longrightarrow> level xs p = None"
  by (auto simp: level_def find_None_iff)

lemma level_insert: "ascending xs \<Longrightarrow> level xs (br_price r) = None \<Longrightarrow> level (book_insert r xs) = (level xs)(br_price r := Some r)"
proof (induction xs)
  case (Cons x xs)
  have "br_price x \<noteq> br_price r" using Cons.prems(2) by (auto simp: level_def split: if_splits)
  moreover have "level xs (br_price r) = None" using Cons.prems by (auto simp: level_def split: if_splits)
  ultimately show ?case
    using Cons by (auto simp: level_def fun_eq_iff split: if_splits)
qed (auto simp: level_def fun_eq_iff)

lemma level_erase: "level (book_erase r xs) = (level xs)(br_price r := None)"
  by (induction xs) (auto simp: level_def book_erase_def fun_eq_iff)

lemma level_diff: "ascending xs \<Longrightarrow> level (apply_diff_row r xs) = diff_level r (level xs)"
  by (auto simp: apply_diff_row_def Let_def diff_level_def level_insert erase_ascending level_erase fun_eq_iff)

lemma level_diffs: "ascending xs \<Longrightarrow> level (fold apply_diff_row rs xs) = fold diff_level rs (level xs)"
  by (induction rs arbitrary: xs) (simp_all add: level_diff diff_ascending)

subsection \<open>Truncating the overlap\<close>

definition uncrossed :: "order_book_row list \<Rightarrow> order_book_row list \<Rightarrow> bool" where
  "uncrossed bids asks \<longleftrightarrow> (\<forall>b \<in> set bids. \<forall>a \<in> set asks. br_price b < br_price a)"

text \<open>What is left of a side is a tail of it; what goes was crossed by an entry that beat it.\<close>

lemma truncate_split:
  assumes "truncate_overlap dex bids asks = (bids', asks')"
  shows "\<exists>bs as. bids = bs @ bids' \<and> asks = as @ asks' \<and>
           (\<forall>b \<in> set bs. \<exists>a \<in> set asks. br_price a \<le> br_price b \<and> \<not> erase_ask dex b a) \<and>
           (\<forall>a \<in> set as. \<exists>b \<in> set bids. br_price a \<le> br_price b \<and> erase_ask dex b a)"
  using assms
proof (induction dex bids asks rule: truncate_overlap.induct)
  case (3 dex b bids a asks)
  show ?case
  proof (cases "br_price a \<le> br_price b")
    case False
    then show ?thesis using "3.prems" by simp
  next
    case True
    show ?thesis
    proof (cases "erase_ask dex b a")
      case ask: True
      have "truncate_overlap dex (b # bids) asks = (bids', asks')" using "3.prems" True ask by simp
      from "3.IH"(1)[OF True ask this] obtain bs as where split: "b # bids = bs @ bids'" "asks = as @ asks'"
        "\<forall>b \<in> set bs. \<exists>a \<in> set asks. br_price a \<le> br_price b \<and> \<not> erase_ask dex b a"
        "\<forall>a \<in> set as. \<exists>b' \<in> set (b # bids). br_price a \<le> br_price b' \<and> erase_ask dex b' a"
        by (elim exE conjE) (rule that)
      have "a # asks = (a # as) @ asks'" using split(2) by simp
      moreover have "\<forall>b \<in> set bs. \<exists>x \<in> set (a # asks). br_price x \<le> br_price b \<and> \<not> erase_ask dex b x"
        using split(3) by auto
      moreover have "\<forall>x \<in> set (a # as). \<exists>b' \<in> set (b # bids). br_price x \<le> br_price b' \<and> erase_ask dex b' x"
        using split(4) True ask by auto
      ultimately show ?thesis using split(1) by blast
    next
      case bid: False
      have "truncate_overlap dex bids (a # asks) = (bids', asks')" using "3.prems" True bid by simp
      from "3.IH"(2)[OF True bid this] obtain bs as where split: "bids = bs @ bids'" "a # asks = as @ asks'"
        "\<forall>b \<in> set bs. \<exists>x \<in> set (a # asks). br_price x \<le> br_price b \<and> \<not> erase_ask dex b x"
        "\<forall>x \<in> set as. \<exists>b' \<in> set bids. br_price x \<le> br_price b' \<and> erase_ask dex b' x"
        by (elim exE conjE) (rule that)
      have "b # bids = (b # bs) @ bids'" using split(1) by simp
      moreover have "\<forall>y \<in> set (b # bs). \<exists>x \<in> set (a # asks). br_price x \<le> br_price y \<and> \<not> erase_ask dex y x"
        using split(3) True bid by auto
      moreover have "\<forall>x \<in> set as. \<exists>b' \<in> set (b # bids). br_price x \<le> br_price b' \<and> erase_ask dex b' x"
        using split(4) by auto
      ultimately show ?thesis using split(2) by blast
    qed
  qed
qed auto

lemma truncate_uncrossed:
  assumes "truncate_overlap dex bids asks = (bids', asks')" "ascending (rev bids)" "ascending asks"
  shows "uncrossed bids' asks'"
  using assms
proof (induction dex bids asks rule: truncate_overlap.induct)
  case (3 dex b bids a asks)
  have desc: "\<forall>y \<in> set bids. br_price y < br_price b" "ascending (rev bids)"
    using "3.prems"(2) by (auto simp: ascending_def sorted_wrt_append)
  show ?case
  proof (cases "br_price a \<le> br_price b")
    case True
    then show ?thesis using "3.IH" "3.prems" desc(2) by (cases "erase_ask dex b a") auto
  next
    case False
    have "br_price x < br_price y" if "x \<in> set (b # bids)" "y \<in> set (a # asks)" for x y
    proof -
      have "br_price x \<le> br_price b" "br_price a \<le> br_price y"
        using that desc(1) "3.prems"(3) by (auto intro: less_imp_le)
      then show ?thesis using False by linarith
    qed
    then show ?thesis using "3.prems"(1) False by (auto simp: uncrossed_def)
  qed
qed (auto simp: uncrossed_def)

lemma ascending_suffix: "ascending (xs @ ys) \<Longrightarrow> ascending xs \<and> ascending ys"
  by (simp add: ascending_def sorted_wrt_append)


subsection \<open>Reachable books\<close>

inductive book_reachable :: "bool \<Rightarrow> order_book \<Rightarrow> bool" for dex where
  new: "book_reachable dex (new_order_book dex)"
| diffs: "book_reachable dex ob \<Longrightarrow> book_reachable dex (apply_diffs bids asks update_id ob)"
| snapshot: "book_reachable dex ob \<Longrightarrow> book_reachable dex (apply_snapshot bids asks update_id ob)"
| trade: "book_reachable dex ob \<Longrightarrow> book_reachable dex (apply_trade price now ob)"

definition best_recorded :: "order_book \<Rightarrow> bool" where
  "best_recorded ob \<longleftrightarrow>
     (ob_bid_book ob \<noteq> [] \<longrightarrow> ob_best_bid ob = Some (br_price (last (ob_bid_book ob)))) \<and>
     (ob_ask_book ob \<noteq> [] \<longrightarrow> ob_best_ask ob = Some (br_price (hd (ob_ask_book ob))))"

definition book_ok :: "order_book \<Rightarrow> bool" where
  "book_ok ob \<longleftrightarrow> ascending (ob_bid_book ob) \<and> ascending (ob_ask_book ob) \<and> best_recorded ob"

lemma record_best_simps [simp]:
  "ob_bid_book (record_best ob) = ob_bid_book ob" "ob_ask_book (record_best ob) = ob_ask_book ob"
  "ob_dex (record_best ob) = ob_dex ob" "best_recorded (record_best ob)"
  by (simp_all add: record_best_def best_recorded_def)

lemma truncate_entries:
  assumes "ascending (ob_bid_book ob)" "ascending (ob_ask_book ob)"
  obtains bs as where
    "ob_bid_book ob = ob_bid_book (truncate_overlap_entries ob) @ bs"
    "ob_ask_book ob = as @ ob_ask_book (truncate_overlap_entries ob)"
    "\<forall>b \<in> set bs. \<exists>a \<in> set (ob_ask_book ob). br_price a \<le> br_price b \<and> \<not> erase_ask (ob_dex ob) b a"
    "\<forall>a \<in> set as. \<exists>b \<in> set (ob_bid_book ob). br_price a \<le> br_price b \<and> erase_ask (ob_dex ob) b a"
    "uncrossed (ob_bid_book (truncate_overlap_entries ob)) (ob_ask_book (truncate_overlap_entries ob))"
proof -
  obtain bids asks where run: "truncate_overlap (ob_dex ob) (rev (ob_bid_book ob)) (ob_ask_book ob) = (bids, asks)"
    by fastforce
  have eq: "ob_bid_book (truncate_overlap_entries ob) = rev bids" "ob_ask_book (truncate_overlap_entries ob) = asks"
    using run by (simp_all add: truncate_overlap_entries_def)
  have "uncrossed bids asks" by (rule truncate_uncrossed[OF run]) (simp_all add: assms)
  moreover obtain bs as where "rev (ob_bid_book ob) = bs @ bids" "ob_ask_book ob = as @ asks"
    "\<forall>b \<in> set bs. \<exists>a \<in> set (ob_ask_book ob). br_price a \<le> br_price b \<and> \<not> erase_ask (ob_dex ob) b a"
    "\<forall>a \<in> set as. \<exists>b \<in> set (rev (ob_bid_book ob)). br_price a \<le> br_price b \<and> erase_ask (ob_dex ob) b a"
    using truncate_split[OF run] by blast
  ultimately show thesis
    using that[of "rev bs" as] by (simp add: eq uncrossed_def rev_swap Un_commute)
qed

lemma truncate_keeps [simp]: "ob_dex (truncate_overlap_entries ob) = ob_dex ob"
  by (simp add: truncate_overlap_entries_def split: prod.split)

lemma truncate_ascending:
  assumes "ascending (ob_bid_book ob)" "ascending (ob_ask_book ob)"
  shows "ascending (ob_bid_book (truncate_overlap_entries ob))" "ascending (ob_ask_book (truncate_overlap_entries ob))"
  using truncate_entries[OF assms] assms ascending_suffix by metis+

lemma ascending_extremes:
  assumes "ascending xs" "xs \<noteq> []"
  shows "br_price (hd xs) = Min (br_price ` set xs)" "br_price (last xs) = Max (br_price ` set xs)"
proof -
  have "br_price (hd xs) \<le> br_price x" if "x \<in> set xs" for x
    using that assms by (cases xs) (auto intro: less_imp_le)
  then show "br_price (hd xs) = Min (br_price ` set xs)" using assms(2) by (intro Min_eqI[symmetric]) auto
  have "br_price x \<le> br_price (last xs)" if "x \<in> set xs" for x
  proof -
    have "xs = butlast xs @ [last xs]" using assms(2) by simp
    then have "sorted_wrt (<) (map br_price (butlast xs @ [last xs]))"
      using assms(1) unfolding ascending_def by metis
    moreover have "x \<in> set (butlast xs) \<or> x = last xs" using that \<open>xs = _\<close> by (metis in_set_conv_decomp_last set_append Un_iff list.set_cases set_ConsD empty_iff list.set(1) list.set(2) insert_iff)
    ultimately show ?thesis by (auto simp: sorted_wrt_append intro: less_imp_le)
  qed
  then show "br_price (last xs) = Max (br_price ` set xs)" using assms(2) by (intro Max_eqI[symmetric]) auto
qed

lemma insert_prices: "br_price ` set (book_insert r xs) = insert (br_price r) (br_price ` set xs)"
  by (induction xs) auto

lemma inserts_prices: "br_price ` set (fold book_insert rs xs) = br_price ` set rs \<union> br_price ` set xs"
  by (induction rs arbitrary: xs) (auto simp: insert_prices)

lemma best_of_extreme:
  "best_of (\<ge>) rows = (if rows = [] then None else Some (Max (br_price ` set rows)))"
  "best_of (\<le>) rows = (if rows = [] then None else Some (Min (br_price ` set rows)))"
proof -
  show "best_of (\<ge>) rows = (if rows = [] then None else Some (Max (br_price ` set rows)))"
  proof (induction rows rule: rev_induct)
    case (snoc r rows)
    then show ?case by (cases "rows = []") (auto simp: best_of_def max_def Max_insert not_le simp del: Max_le_iff Max_ge_iff Max_gr_iff Max_less_iff)
  qed (simp add: best_of_def)
  show "best_of (\<le>) rows = (if rows = [] then None else Some (Min (br_price ` set rows)))"
  proof (induction rows rule: rev_induct)
    case (snoc r rows)
    then show ?case by (cases "rows = []") (auto simp: best_of_def min_def Min_insert not_le simp del: Min_le_iff Min_ge_iff Min_gr_iff Min_less_iff)
  qed (simp add: best_of_def)
qed

lemma snapshot_best:
  assumes "bids' = fold book_insert bids []" "asks' = fold book_insert asks []"
  shows "bids' \<noteq> [] \<longrightarrow> best_of (\<ge>) bids = Some (br_price (last bids'))"
    "asks' \<noteq> [] \<longrightarrow> best_of (\<le>) asks = Some (br_price (hd asks'))"
proof -
  have prices: "br_price ` set bids' = br_price ` set bids" "br_price ` set asks' = br_price ` set asks"
    using assms by (simp_all add: inserts_prices)
  have asc: "ascending bids'" "ascending asks'" using assms by (simp_all add: inserts_ascending)
  show "bids' \<noteq> [] \<longrightarrow> best_of (\<ge>) bids = Some (br_price (last bids'))"
    using ascending_extremes(2)[OF asc(1)] prices(1) by (auto simp: best_of_extreme)
  show "asks' \<noteq> [] \<longrightarrow> best_of (\<le>) asks = Some (br_price (hd asks'))"
    using ascending_extremes(1)[OF asc(2)] prices(2) by (auto simp: best_of_extreme)
qed

lemma apply_diffs_ok:
  assumes "book_ok ob"
  shows "book_ok (apply_diffs bids asks update_id ob)"
proof -
  let ?ob1 = "ob\<lparr>ob_bid_book := fold apply_diff_row bids (ob_bid_book ob),
                 ob_ask_book := fold apply_diff_row asks (ob_ask_book ob)\<rparr>"
  have "ascending (ob_bid_book ?ob1)" "ascending (ob_ask_book ?ob1)"
    using assms by (simp_all add: book_ok_def diffs_ascending)
  from truncate_ascending[OF this] show ?thesis
    using record_best_simps(4)[of "truncate_overlap_entries ?ob1"]
    by (simp add: apply_diffs_def Let_def book_ok_def best_recorded_def)
qed

lemma apply_snapshot_ok: "book_ok (apply_snapshot bids asks update_id ob)"
proof -
  let ?ob1 = "ob\<lparr>ob_bid_book := fold book_insert bids [], ob_ask_book := fold book_insert asks [],
                 ob_best_bid := best_of (\<ge>) bids, ob_best_ask := best_of (\<le>) asks\<rparr>"
  have asc: "ascending (ob_bid_book ?ob1)" "ascending (ob_ask_book ?ob1)" by (simp_all add: inserts_ascending)
  show ?thesis
  proof (cases "ob_dex ob")
    case True
    then show ?thesis
      using truncate_ascending[OF asc] record_best_simps(4)[of "truncate_overlap_entries ?ob1"]
      by (simp add: apply_snapshot_def Let_def book_ok_def best_recorded_def)
  next
    case False
    then show ?thesis
      using asc snapshot_best(1)[OF refl refl, of bids] snapshot_best(2)[OF refl refl, of asks]
      by (simp add: apply_snapshot_def Let_def book_ok_def best_recorded_def)
  qed
qed

lemma reachable_book_ok: "book_reachable dex ob \<Longrightarrow> book_ok ob"
proof (induction rule: book_reachable.induct)
  case new
  then show ?case by (simp add: new_order_book_def book_ok_def best_recorded_def)
next
  case (trade ob price now)
  then show ?case by (simp add: apply_trade_def book_ok_def best_recorded_def)
qed (simp_all add: apply_diffs_ok apply_snapshot_ok)


lemma apply_diffs_uncrossed:
  assumes "book_reachable dex ob"
  shows "uncrossed (ob_bid_book (apply_diffs bids asks update_id ob)) (ob_ask_book (apply_diffs bids asks update_id ob))"
proof -
  let ?ob1 = "ob\<lparr>ob_bid_book := fold apply_diff_row bids (ob_bid_book ob),
                 ob_ask_book := fold apply_diff_row asks (ob_ask_book ob)\<rparr>"
  have asc: "ascending (ob_bid_book ?ob1)" "ascending (ob_ask_book ?ob1)"
    using reachable_book_ok[OF assms] by (simp_all add: book_ok_def diffs_ascending)
  show ?thesis
    by (rule truncate_entries[OF asc]) (simp add: apply_diffs_def Let_def)
qed

text \<open>
  C20: whatever updates a book has seen, after a diff every bid is below every ask.
\<close>

theorem diffs_uncross:
  assumes "book_reachable dex ob"
  shows "uncrossed (ob_bid_book (apply_diffs bids asks update_id ob)) (ob_ask_book (apply_diffs bids asks update_id ob))"
  by (rule apply_diffs_uncrossed[OF assms])

text \<open>
  C40: in every reachable book the price quoted for a side is the best of its entries (the lowest ask, the
  highest bid), and asking for it raises an error exactly when the side is empty; the cached best
  prices that \<^verbatim>\<open>c_get_price\<close> relies on are never stale.
\<close>

theorem quoted_price_is_best:
  assumes "book_reachable dex ob"
  shows "book_price ob is_buy =
    (if entries ob is_buy = [] then Inl RaisedException
     else Inr (Some (if is_buy then Min (br_price ` set (ob_ask_book ob)) else Max (br_price ` set (ob_bid_book ob)))))"
proof -
  have ok: "book_ok ob" by (rule reachable_book_ok[OF assms])
  then have "ob_ask_book ob \<noteq> [] \<longrightarrow> ob_best_ask ob = Some (Min (br_price ` set (ob_ask_book ob)))"
    "ob_bid_book ob \<noteq> [] \<longrightarrow> ob_best_bid ob = Some (Max (br_price ` set (ob_bid_book ob)))"
    using ascending_extremes by (auto simp: book_ok_def best_recorded_def)
  moreover have "length xs < 1 \<longleftrightarrow> xs = []" for xs :: "order_book_row list" by (cases xs) auto
  ultimately show ?thesis
    by (cases is_buy) (simp_all add: book_price_def entries_def ask_entries_def bid_entries_def)
qed

subsection \<open>A side after a diff\<close>

lemma level_set: "ascending xs \<Longrightarrow> x \<in> set xs \<Longrightarrow> level xs (br_price x) = Some x"
  by (induction xs) (auto simp: level_def)

lemma level_mem: "level xs p = Some x \<Longrightarrow> x \<in> set xs \<and> br_price x = p"
  by (auto simp: level_def find_Some_iff)

lemma level_sublist:
  assumes "ascending xs" "set ys \<subseteq> set xs" "ascending ys"
  shows "level ys p = (case level xs p of None \<Rightarrow> None | Some x \<Rightarrow> if x \<in> set ys then Some x else None)"
proof (cases "level ys p")
  case None
  then show ?thesis using assms(3) level_set[of ys] level_mem[of xs p] by (auto split: option.split)
next
  case (Some y)
  then show ?thesis using assms level_mem[of ys p y] level_set[of xs y] by (auto split: option.split)
qed

text \<open>
  The entries of a book after a diff refine the map from prices to entries that the diff describes:
  a price holds the entry of its last row (nothing when the amount is zero), the entry it had when it
  has no row, unless an entry of the other side crosses it and beats it, on a centralised exchange by
  being newer (or, against a bid, as new), on a decentralised one by its value (or, against a bid, an
  equal one).
\<close>

theorem diff_levels:
  assumes "book_reachable dex ob" and "ob' = apply_diffs bids asks update_id ob"
    and "bid_map = fold diff_level bids (level (ob_bid_book ob))"
    and "ask_map = fold diff_level asks (level (ob_ask_book ob))"
  shows "(level (ob_bid_book ob') p = bid_map p \<or>
          level (ob_bid_book ob') p = None \<and>
          (\<exists>b a q. bid_map p = Some b \<and> ask_map q = Some a \<and> q \<le> p \<and> \<not> erase_ask (ob_dex ob) b a)) \<and>
         (level (ob_ask_book ob') p = ask_map p \<or>
          level (ob_ask_book ob') p = None \<and>
          (\<exists>a b q. ask_map p = Some a \<and> bid_map q = Some b \<and> p \<le> q \<and> erase_ask (ob_dex ob) b a))"
proof -
  let ?ob1 = "ob\<lparr>ob_bid_book := fold apply_diff_row bids (ob_bid_book ob),
                 ob_ask_book := fold apply_diff_row asks (ob_ask_book ob)\<rparr>"
  let ?ob2 = "truncate_overlap_entries ?ob1"
  have ok: "ascending (ob_bid_book ob)" "ascending (ob_ask_book ob)"
    using reachable_book_ok[OF assms(1)] by (simp_all add: book_ok_def)
  then have asc: "ascending (ob_bid_book ?ob1)" "ascending (ob_ask_book ?ob1)" by (simp_all add: diffs_ascending)
  have maps: "level (ob_bid_book ?ob1) = bid_map" "level (ob_ask_book ?ob1) = ask_map"
    using ok by (simp_all add: assms(3,4) level_diffs)
  have ob': "ob_bid_book ob' = ob_bid_book ?ob2" "ob_ask_book ob' = ob_ask_book ?ob2"
    by (simp_all add: assms(2) apply_diffs_def Let_def)
  obtain bs as where bs: "ob_bid_book ?ob1 = ob_bid_book ?ob2 @ bs" and as: "ob_ask_book ?ob1 = as @ ob_ask_book ?ob2"
    and beaten: "\<forall>b \<in> set bs. \<exists>a \<in> set (ob_ask_book ?ob1). br_price a \<le> br_price b \<and> \<not> erase_ask (ob_dex ?ob1) b a"
      "\<forall>a \<in> set as. \<exists>b \<in> set (ob_bid_book ?ob1). br_price a \<le> br_price b \<and> erase_ask (ob_dex ?ob1) b a"
    by (rule truncate_entries[OF asc])
  note asc2 = truncate_ascending[OF asc]
  have "set (ob_bid_book ?ob2) \<subseteq> set (ob_bid_book ?ob1)" using bs by (metis Un_upper1 set_append)
  note bid = level_sublist[OF asc(1) this asc2(1), of p, unfolded maps]
  have "set (ob_ask_book ?ob2) \<subseteq> set (ob_ask_book ?ob1)" using as by (metis Un_upper2 set_append)
  note ask = level_sublist[OF asc(2) this asc2(2), of p, unfolded maps]
  have "\<exists>a q. ask_map q = Some a \<and> q \<le> p \<and> \<not> erase_ask (ob_dex ob) b a"
    if "bid_map p = Some b" "b \<notin> set (ob_bid_book ?ob2)" for b
  proof -
    have "b \<in> set (ob_bid_book ?ob1)" "br_price b = p" using level_mem[of "ob_bid_book ?ob1" p b] that(1) maps(1) by simp_all
    then have "b \<in> set bs" using that(2) bs by (metis Un_iff set_append)
    then obtain a where "a \<in> set (ob_ask_book ?ob1)" "br_price a \<le> br_price b" "\<not> erase_ask (ob_dex ob) b a"
      using beaten(1) by auto
    then show ?thesis using level_set[OF asc(2)] maps(2) \<open>br_price b = p\<close> by metis
  qed
  moreover have "\<exists>b q. bid_map q = Some b \<and> p \<le> q \<and> erase_ask (ob_dex ob) b a"
    if "ask_map p = Some a" "a \<notin> set (ob_ask_book ?ob2)" for a
  proof -
    have "a \<in> set (ob_ask_book ?ob1)" "br_price a = p" using level_mem[of "ob_ask_book ?ob1" p a] that(1) maps(2) by simp_all
    then have "a \<in> set as" using that(2) as by (metis Un_iff set_append)
    then obtain b where "b \<in> set (ob_bid_book ?ob1)" "br_price a \<le> br_price b" "erase_ask (ob_dex ob) b a"
      using beaten(2) by auto
    then show ?thesis using level_set[OF asc(1)] maps(1) \<open>br_price a = p\<close> by metis
  qed
  ultimately show ?thesis unfolding ob' bid ask by (auto split: option.split)
qed


subsection \<open>The queries and the simulated order\<close>

definition total_amount :: "order_book_row list \<Rightarrow> rat" where
  "total_amount rows = (\<Sum>r \<leftarrow> rows. br_amount r)"

definition total_value :: "order_book_row list \<Rightarrow> rat" where
  "total_value rows = (\<Sum>r \<leftarrow> rows. row_value r)"

lemma total_simps [simp]:
  "total_amount [] = 0" "total_amount (r # rs) = br_amount r + total_amount rs"
  "total_value [] = 0" "total_value (r # rs) = row_value r + total_value rs"
  by (simp_all add: total_amount_def total_value_def)

lemma simulate_short:
  "total_amount (simulate v rows) \<noteq> v \<Longrightarrow> simulate v rows = rows"
  by (induction v rows rule: simulate.induct) (auto split: if_splits)

text \<open>The sweeps stop at the row the simulated order ends in, if it is filled.\<close>

lemma sweep_simulate:
  assumes "0 < volume - cumulative"
  shows "sweep br_amount volume cumulative rows =
     (let rows' = simulate (volume - cumulative) rows in
      if total_amount rows' = volume - cumulative
      then (Some (br_price (last rows')), snd (sweep br_amount volume cumulative rows))
      else (None, cumulative + total_amount rows))"
  using assms
proof (induction rows arbitrary: cumulative)
  case (Cons r rs)
  show ?case
  proof (cases "br_amount r < volume - cumulative")
    case True
    let ?c = "cumulative + br_amount r"
    have IH: "sweep br_amount volume ?c rs =
     (let rows' = simulate (volume - ?c) rs in
      if total_amount rows' = volume - ?c then (Some (br_price (last rows')), snd (sweep br_amount volume ?c rs))
      else (None, ?c + total_amount rs))"
      by (rule Cons.IH) (use True in simp)
    have step: "sweep br_amount volume cumulative (r # rs) = sweep br_amount volume ?c rs"
      "simulate (volume - cumulative) (r # rs) = r # simulate (volume - ?c) rs"
      using True by (simp_all add: algebra_simps)
    have "simulate (volume - ?c) rs \<noteq> []" if "total_amount (simulate (volume - ?c) rs) = volume - ?c"
      using that True by auto
    then show ?thesis
      unfolding step using IH by (auto simp: Let_def algebra_simps split: if_splits)
  qed (simp add: algebra_simps)
qed simp

lemma vwap_sweep_simulate:
  assumes "0 < volume - tot"
  shows "bind_err (vwap_sweep volume cost tot rows) (\<lambda>(v, t). Inr (v, min t volume)) =
     (let rows' = simulate (volume - tot) rows;
          filled = tot + total_amount rows'
      in if volume \<noteq> 0 \<or> filled \<noteq> volume
         then Inr (if filled = volume then Some ((cost + total_value rows') / volume) else None, min filled volume)
         else Inl DivisionByZero)"
  using assms
proof (induction rows arbitrary: cost tot)
  case (Cons r rs)
  show ?case
  proof (cases "br_amount r < volume - tot")
    case True
    have "vwap_sweep volume cost tot (r # rs) =
        vwap_sweep volume (cost + br_amount r * br_price r) (tot + br_amount r) rs"
      using True by simp
    moreover have "0 < volume - (tot + br_amount r)" using True by simp
    moreover have "simulate (volume - tot) (r # rs) = r # simulate (volume - (tot + br_amount r)) rs"
      using True by (simp add: diff_diff_eq)
    ultimately show ?thesis
      using Cons.IH[of "tot + br_amount r" "cost + br_amount r * br_price r"]
      by (simp add: row_value_def Let_def add.assoc)
  next
    case False
    then have "volume \<le> tot + br_amount r" by simp
    then show ?thesis
      using False Cons.prems
      by (cases "volume = 0") (simp_all add: double_div_def row_value_def Let_def algebra_simps)
  qed
qed (simp add: Let_def)

text \<open>
  C21: the volume weighted average price of a volume is the value of the order \<^verbatim>\<open>simulate_buy\<close> (or
  \<^verbatim>\<open>simulate_sell\<close>) takes from the book, divided by the volume, when the book fills it, and NaN
  otherwise; the volume reported is what the simulated order fills.
\<close>

theorem vwap_is_simulated_average:
  assumes "0 < volume"
  shows "vwap_for_volume ob is_buy volume =
    (let rows = (if is_buy then simulate_buy ob volume else simulate_sell ob volume)
     in Inr \<lparr>qr_query_price = None, qr_query_volume = Some volume,
             qr_result_price = (if total_amount rows = volume then Some (total_value rows / volume) else None),
             qr_result_volume = Some (min (total_amount rows) volume)\<rparr>)"
proof -
  have rows: "(if is_buy then simulate_buy ob volume else simulate_sell ob volume) = simulate volume (entries ob is_buy)"
    by (simp add: simulate_buy_def simulate_sell_def entries_def)
  have "vwap_for_volume ob is_buy volume =
      bind_err (bind_err (vwap_sweep volume 0 0 (entries ob is_buy)) (\<lambda>(v, t). Inr (v, min t volume)))
        (\<lambda>(v, t). Inr \<lparr>qr_query_price = None, qr_query_volume = Some volume, qr_result_price = v,
           qr_result_volume = Some t\<rparr>)"
    by (simp add: vwap_for_volume_def bind_err_assoc case_prod_beta')
  then show ?thesis
    using assms vwap_sweep_simulate[of volume 0 0 "entries ob is_buy"] unfolding rows by (simp add: Let_def)
qed

lemma quote_sweep_simulate:
  "quote_volume_sweep base cumulative_base cumulative rows = cumulative + total_value (simulate (base - cumulative_base) rows)"
proof (induction rows arbitrary: cumulative_base cumulative)
  case (Cons r rs)
  show ?case
  proof (cases "br_amount r < base - cumulative_base")
    case True
    then have "quote_volume_sweep base cumulative_base cumulative (r # rs) =
        quote_volume_sweep base (cumulative_base + br_amount r) (cumulative + br_amount r * br_price r) rs"
      by (simp add: Let_def algebra_simps)
    then show ?thesis using True Cons.IH by (simp add: row_value_def diff_diff_eq)
  qed (simp add: Let_def row_value_def algebra_simps)
qed simp

text \<open>
  The quote volume for a base amount is the value of the simulated order of that amount, whatever the
  book holds.
\<close>

theorem quote_volume_is_simulated_value:
  "qr_result_volume (quote_volume_for_base_amount ob is_buy base_amount) =
     Some (total_value (if is_buy then simulate_buy ob base_amount else simulate_sell ob base_amount))"
  by (simp add: quote_volume_for_base_amount_def quote_sweep_simulate simulate_buy_def simulate_sell_def entries_def)

subsection \<open>Prices along a side\<close>

text \<open>Best first, prices get worse: they rise along the asks and fall along the bids.\<close>

locale price_ladder =
  fixes before :: "rat \<Rightarrow> rat \<Rightarrow> bool"
  assumes before_refl: "before p p"
    and before_trans: "before p q \<Longrightarrow> before q r \<Longrightarrow> before p r"
    and before_add: "before p q \<Longrightarrow> before p' q' \<Longrightarrow> before (p + p') (q + q')"
    and before_scale: "before p q \<Longrightarrow> 0 \<le> k \<Longrightarrow> before (p * k) (q * k)"
begin

lemma value_bounds:
  "\<forall>r \<in> set rows. 0 \<le> br_amount r \<and> before lo (br_price r) \<and> before (br_price r) hi \<Longrightarrow>
   before (lo * total_amount rows) (total_value rows) \<and> before (total_value rows) (hi * total_amount rows)"
proof (induction rows)
  case (Cons r rows)
  have "before (lo * br_amount r) (row_value r)" "before (row_value r) (hi * br_amount r)"
    using Cons.prems before_scale[of lo "br_price r" "br_amount r"] before_scale[of "br_price r" hi "br_amount r"]
    by (simp_all add: row_value_def mult.commute)
  then show ?case using Cons before_add by (simp add: ring_distribs)
qed (simp add: before_refl)

lemma average_between:
  assumes "sorted_wrt before (map br_price rows)" "\<forall>r \<in> set rows. 0 \<le> br_amount r" "total_amount rows = v" "0 < v"
  shows "before (br_price (hd rows)) (total_value rows / v) \<and> before (total_value rows / v) (br_price (last rows))"
proof -
  have "rows \<noteq> []" using assms(3,4) by auto
  have first: "before (br_price (hd rows)) (br_price r)" if "r \<in> set rows" for r
    using that assms(1) before_refl by (cases rows) auto
  have last: "before (br_price r) (br_price (last rows))" if "r \<in> set rows" for r
  proof (cases "r = last rows")
    case False
    have "rows = butlast rows @ [last rows]" using \<open>rows \<noteq> []\<close> by simp
    then have "sorted_wrt before (map br_price (butlast rows) @ [br_price (last rows)])" "r \<in> set (butlast rows)"
      using assms(1) that False by (metis map_append list.map)
        (metis \<open>rows = _\<close> that False in_set_conv_decomp Un_iff set_append set_ConsD empty_iff list.set(1) list.set_intros(1))
    then show ?thesis by (simp add: sorted_wrt_append)
  qed (simp add: before_refl)
  have "before (br_price (hd rows) * v) (total_value rows) \<and> before (total_value rows) (br_price (last rows) * v)"
    using value_bounds[of rows "br_price (hd rows)" "br_price (last rows)"] first last assms(2,3) by simp
  then show ?thesis
    using before_scale[of "br_price (hd rows) * v" "total_value rows" "1 / v"]
      before_scale[of "total_value rows" "br_price (last rows) * v" "1 / v"] assms(4) by simp
qed

lemma simulate_ladder:
  "sorted_wrt before (map br_price rows) \<Longrightarrow> \<forall>r \<in> set rows. 0 \<le> br_amount r \<Longrightarrow> 0 \<le> v \<Longrightarrow>
   sorted_wrt before (map br_price (simulate v rows)) \<and> (\<forall>r \<in> set (simulate v rows). 0 \<le> br_amount r) \<and>
   br_price ` set (simulate v rows) \<subseteq> br_price ` set rows"
proof (induction v rows rule: simulate.induct)
  case (2 v r rs)
  then show ?case by (cases "br_amount r < v") auto
qed simp

end

interpretation ask_ladder: price_ladder "(\<le>)"
  by unfold_locales (auto intro: mult_right_mono)

interpretation bid_ladder: price_ladder "(\<ge>)"
  by unfold_locales (auto intro: mult_right_mono)

lemma simulate_hd: "rows \<noteq> [] \<Longrightarrow> br_price (hd (simulate v rows)) = br_price (hd rows)"
  by (cases rows) auto


lemma entries_ladder:
  assumes "book_ok ob"
  shows "sorted_wrt (\<le>) (map br_price (ask_entries ob))" "sorted_wrt (\<ge>) (map br_price (bid_entries ob))"
proof -
  have "sorted_wrt (<) (map br_price (ob_ask_book ob))" "sorted_wrt (<) (map br_price (ob_bid_book ob))"
    using assms by (simp_all add: book_ok_def ascending_def)
  then show "sorted_wrt (\<le>) (map br_price (ask_entries ob))" "sorted_wrt (\<ge>) (map br_price (bid_entries ob))"
    unfolding ask_entries_def bid_entries_def
    by (auto simp: rev_map[symmetric] sorted_wrt_rev intro: sorted_wrt_mono_rel[rotated])
qed

lemma filled_price:
  assumes "0 < volume" "total_amount (simulate volume (entries ob is_buy)) = volume"
  shows "qr_result_price (price_for_volume ob is_buy volume) = Some (br_price (last (simulate volume (entries ob is_buy))))"
proof -
  have "fst (sweep br_amount volume 0 (entries ob is_buy)) = Some (br_price (last (simulate volume (entries ob is_buy))))"
    by (subst sweep_simulate) (simp_all add: assms Let_def)
  then show ?thesis by (simp add: price_for_volume_def case_prod_beta' Let_def)
qed

text \<open>
  In a reachable book without negative amounts the volume weighted average price of a positive volume,
  when there is one, lies between the best price of the side and the price quoted for the volume,
  which exists then too.
\<close>

theorem vwap_between_quotes:
  assumes "book_reachable dex ob" and "\<forall>r \<in> set (entries ob is_buy). 0 \<le> br_amount r" and "0 < volume"
    and "vwap_for_volume ob is_buy volume = Inr q" and "qr_result_price q = Some v"
  shows "\<exists>best marginal. book_price ob is_buy = Inr (Some best) \<and>
           qr_result_price (price_for_volume ob is_buy volume) = Some marginal \<and>
           (if is_buy then best \<le> v \<and> v \<le> marginal else marginal \<le> v \<and> v \<le> best)"
proof -
  let ?rows = "entries ob is_buy" and ?before = "if is_buy then (\<le>) else (\<ge>) :: rat \<Rightarrow> rat \<Rightarrow> bool"
  let ?sim = "simulate volume ?rows"
  have ok: "book_ok ob" by (rule reachable_book_ok[OF assms(1)])
  have rows: "(if is_buy then simulate_buy ob volume else simulate_sell ob volume) = ?sim"
    by (simp add: simulate_buy_def simulate_sell_def entries_def)
  have filled: "total_amount ?sim = volume" and v: "v = total_value ?sim / volume"
    using vwap_sweep_simulate[of volume 0 0 ?rows] assms(3-5)
    by (auto simp: vwap_for_volume_def bind_err_eq_Inr Let_def case_prod_beta' split: if_splits)
  have "?sim \<noteq> []" using filled assms(3) by auto
  then have ne: "?rows \<noteq> []" by auto
  have ladder: "price_ladder ?before"
    using ask_ladder.price_ladder_axioms bid_ladder.price_ladder_axioms by simp
  have sorted: "sorted_wrt ?before (map br_price ?rows)"
    using entries_ladder[OF ok] by (simp add: entries_def)
  note sim = price_ladder.simulate_ladder[OF ladder sorted assms(2) less_imp_le[OF assms(3)]]
  have between: "?before (br_price (hd ?rows)) v \<and> ?before v (br_price (last ?sim))"
    using price_ladder.average_between[OF ladder _ _ filled assms(3)] sim simulate_hd[OF ne, of volume] v by simp
  have "book_price ob is_buy = Inr (Some (br_price (hd ?rows)))"
    using ok ne by (cases is_buy) (auto simp: book_price_def book_ok_def best_recorded_def entries_def
        ask_entries_def bid_entries_def hd_rev Suc_le_eq)
  then show ?thesis using filled_price[OF assms(3) filled] between by (auto split: if_splits)
qed

subsection \<open>A concrete book\<close>

abbreviation book_row :: "rat \<Rightarrow> rat \<Rightarrow> int \<Rightarrow> order_book_row" where
  "book_row p a u \<equiv> \<lparr>br_price = p, br_amount = a, br_update_id = u\<rparr>"

definition sample_book :: order_book where
  "sample_book = apply_snapshot [book_row 99 2 7, book_row 98 5 7] [book_row 101 1 7, book_row 103 4 7] 7 (new_order_book False)"

definition sample_diffed :: order_book where
  "sample_diffed = apply_diffs [book_row 101 3 8, book_row 98 0 8] [book_row 103 2 8] 8 sample_book"

lemma sample_book_reachable: "book_reachable False sample_book" "book_reachable False sample_diffed"
  by (simp_all add: sample_book_def sample_diffed_def book_reachable.intros)

lemma diffs_uncross_witness: "uncrossed (ob_bid_book sample_diffed) (ob_ask_book sample_diffed)"
  unfolding sample_diffed_def by (rule diffs_uncross[OF sample_book_reachable(1)])

lemma quoted_price_is_best_witness: "book_price sample_diffed True = Inr (Some 103)"
proof -
  have "ob_ask_book sample_diffed = [book_row 103 2 8]" by code_simp
  then show ?thesis
    using quoted_price_is_best[OF sample_book_reachable(2), of True] by (simp add: entries_def ask_entries_def)
qed

lemma diff_levels_witness: "level (ob_bid_book sample_diffed) 98 = None"
proof -
  have "fold diff_level [book_row 101 3 8, book_row 98 0 8] (level (ob_bid_book sample_book)) 98 = None"
    by (simp add: diff_level_def)
  then show ?thesis
    using diff_levels[OF sample_book_reachable(1) sample_diffed_def refl refl, of 98] by auto
qed

lemma vwap_is_simulated_average_witness:
  "vwap_for_volume sample_book True 3 =
     Inr \<lparr>qr_query_price = None, qr_query_volume = Some 3, qr_result_price = Some (307/3), qr_result_volume = Some 3\<rparr>"
proof -
  have "simulate_buy sample_book 3 = [book_row 101 1 7, book_row 103 2 7]" by code_simp
  then show ?thesis using vwap_is_simulated_average[of 3 sample_book True] by (simp add: row_value_def)
qed

lemma vwap_between_quotes_witness:
  "\<exists>best marginal. book_price sample_book True = Inr (Some best) \<and>
     qr_result_price (price_for_volume sample_book True 3) = Some marginal \<and> best \<le> 307/3 \<and> 307/3 \<le> marginal"
proof -
  have run: "vwap_for_volume sample_book True 3 =
     Inr \<lparr>qr_query_price = None, qr_query_volume = Some 3, qr_result_price = Some (307/3), qr_result_volume = Some 3\<rparr>"
    by code_simp
  have "entries sample_book True = [book_row 101 1 7, book_row 103 4 7]" by code_simp
  then show ?thesis using vwap_between_quotes[OF sample_book_reachable(1) _ _ run, of "307/3"] by simp
qed

end
