(* ===== verification/Order_Book_Tracker.thy ===== *)
theory Order_Book_Tracker
  imports Order_Book
begin

text \<open>
  \<^verbatim>\<open>core/data_type/order_book_message.py\<close> and \<^verbatim>\<open>order_book_tracker.py\<close>: the messages of an exchange, the
  routers that queue them per market, and the task of each market that applies them to its book.

  The routers and the tasks are coroutines; each step below is what one of them does between two
  suspensions, with the message it took from its stream as argument.  A dictionary is a map, a default
  dictionary of deques a function.  The content of a message is taken to have the entries its type
  calls for.
\<close>

datatype message_type = SNAPSHOT | DIFF | TRADE

record order_book_message =
  om_type :: message_type
  om_trading_pair :: string
  om_content_update_id :: int
  om_content_first_update_id :: "int option"
  om_content_trade_id :: int
  om_content_bids :: "(rat \<times> rat) list"
  om_content_asks :: "(rat \<times> rat) list"
  om_timestamp :: seconds

definition update_id :: "order_book_message \<Rightarrow> int" where
  "update_id m = (if om_type m \<in> {DIFF, SNAPSHOT} then om_content_update_id m else - 1)"

definition first_update_id :: "order_book_message \<Rightarrow> int" where
  "first_update_id m =
     (if om_type m = DIFF
      then (case om_content_first_update_id m of None \<Rightarrow> update_id m | Some i \<Rightarrow> i) else - 1)"

definition trade_id :: "order_book_message \<Rightarrow> int" where
  "trade_id m = (if om_type m = TRADE then om_content_trade_id m else - 1)"

definition message_asks :: "order_book_message \<Rightarrow> order_book_row list" where
  "message_asks m = map (\<lambda>(price, amount). book_row price amount (update_id m)) (om_content_asks m)"

definition message_bids :: "order_book_message \<Rightarrow> order_book_row list" where
  "message_bids m = map (\<lambda>(price, amount). book_row price amount (update_id m)) (om_content_bids m)"

definition has_update_id :: "order_book_message \<Rightarrow> bool" where
  "has_update_id m \<longleftrightarrow> om_type m \<in> {DIFF, SNAPSHOT}"

definition has_trade_id :: "order_book_message \<Rightarrow> bool" where
  "has_trade_id m \<longleftrightarrow> om_type m = TRADE"

definition message_eq :: "order_book_message \<Rightarrow> order_book_message \<Rightarrow> bool" where
  "message_eq m m' \<longleftrightarrow> om_type m = om_type m' \<and>
     ((has_update_id m \<and> update_id m = update_id m') \<or> trade_id m = trade_id m')"

definition message_lt :: "order_book_message \<Rightarrow> order_book_message \<Rightarrow> bool" where
  "message_lt m m' \<longleftrightarrow>
     (has_update_id m \<and> has_update_id m' \<and> update_id m < update_id m') \<or>
     (has_trade_id m \<and> has_trade_id m' \<and> trade_id m < trade_id m') \<or>
     ((om_timestamp m \<noteq> om_timestamp m' \<and> om_timestamp m < om_timestamp m') \<or> has_update_id m)"

subsection \<open>Restoring from a snapshot\<close>

text \<open>\<^verbatim>\<open>bisect.bisect_right\<close> of the standard library, on a list and a \<open><\<close> of its elements.\<close>

function bisect_loop :: "('a \<Rightarrow> 'a \<Rightarrow> bool) \<Rightarrow> 'a list \<Rightarrow> 'a \<Rightarrow> nat \<Rightarrow> nat \<Rightarrow> nat" where
  "bisect_loop lt xs x lo hi =
     (if lo < hi then
        (let mid = (lo + hi) div 2 in
         if lt x (xs ! mid) then bisect_loop lt xs x lo mid else bisect_loop lt xs x (mid + 1) hi)
      else lo)"
  by auto
termination
  by (relation "measure (\<lambda>(_, _, _, lo, hi). hi - lo)") auto

declare bisect_loop.simps [simp del]

definition bisect_right :: "('a \<Rightarrow> 'a \<Rightarrow> bool) \<Rightarrow> 'a list \<Rightarrow> 'a \<Rightarrow> nat" where
  "bisect_right lt xs x = bisect_loop lt xs x 0 (length xs)"

definition apply_diff_message :: "order_book_message \<Rightarrow> order_book \<Rightarrow> order_book" where
  "apply_diff_message m = apply_diffs (message_bids m) (message_asks m) (update_id m)"

definition restore_from_snapshot_and_diffs ::
  "order_book_message \<Rightarrow> order_book_message list \<Rightarrow> order_book \<Rightarrow> order_book" where
  "restore_from_snapshot_and_diffs snapshot past_diffs ob =
     (let replay_position = bisect_right message_lt past_diffs snapshot;
          replay_diffs = drop replay_position past_diffs
      in fold apply_diff_message replay_diffs
           (apply_snapshot (message_bids snapshot) (message_asks snapshot) (update_id snapshot) ob))"

subsection \<open>The tracker\<close>

record order_book_tracker =
  tr_order_books :: "string \<rightharpoonup> order_book"
  tr_tracking_message_queues :: "string \<rightharpoonup> order_book_message list"
  tr_saved_message_queues :: "string \<Rightarrow> order_book_message list"
  tr_past_diffs_windows :: "string \<Rightarrow> order_book_message list"
  tr_order_books_initialized :: bool

definition new_order_book_tracker :: order_book_tracker where
  "new_order_book_tracker =
     \<lparr>tr_order_books = Map.empty, tr_tracking_message_queues = Map.empty, tr_saved_message_queues = (\<lambda>_. []),
      tr_past_diffs_windows = (\<lambda>_. []), tr_order_books_initialized = False\<rparr>"

definition PAST_DIFF_WINDOW_SIZE :: nat where
  "PAST_DIFF_WINDOW_SIZE = 32"

text \<open>Appending to a deque with \<^verbatim>\<open>maxlen\<close>: the oldest entries go.\<close>

definition deque_append :: "nat \<Rightarrow> 'a \<Rightarrow> 'a list \<Rightarrow> 'a list" where
  "deque_append maxlen x xs = drop (length xs + 1 - maxlen) (xs @ [x])"

text \<open>\<^verbatim>\<open>_init_order_books\<close>: one market, with the book the data source gave, and the end of the loop.\<close>

definition init_order_book :: "string \<Rightarrow> order_book \<Rightarrow> order_book_tracker \<Rightarrow> order_book_tracker" where
  "init_order_book tp ob tr =
     tr\<lparr>tr_order_books := (tr_order_books tr)(tp \<mapsto> ob),
        tr_tracking_message_queues := (tr_tracking_message_queues tr)(tp \<mapsto> [])\<rparr>"

definition init_done :: "order_book_tracker \<Rightarrow> order_book_tracker" where
  "init_done tr = tr\<lparr>tr_order_books_initialized := True\<rparr>"

definition put_message :: "order_book_message \<Rightarrow> order_book_message list \<Rightarrow> order_book_tracker \<Rightarrow> order_book_tracker" where
  "put_message m queue tr =
     tr\<lparr>tr_tracking_message_queues := (tr_tracking_message_queues tr)(om_trading_pair m \<mapsto> queue @ [m])\<rparr>"

definition order_book_diff_router :: "order_book_message \<Rightarrow> order_book_tracker \<Rightarrow> py_error + order_book_tracker" where
  "order_book_diff_router m tr =
     (let tp = om_trading_pair m in
      case tr_tracking_message_queues tr tp of
        None \<Rightarrow> Inr (tr\<lparr>tr_saved_message_queues :=
          (tr_saved_message_queues tr)(tp := deque_append 1000 m (tr_saved_message_queues tr tp))\<rparr>)
      | Some queue \<Rightarrow>
          (case tr_order_books tr tp of
             None \<Rightarrow> Inl KeyError
           | Some ob \<Rightarrow> if update_id m < ob_snapshot_uid ob then Inr tr else Inr (put_message m queue tr)))"

definition order_book_snapshot_router :: "order_book_message \<Rightarrow> order_book_tracker \<Rightarrow> order_book_tracker" where
  "order_book_snapshot_router m tr =
     (case tr_tracking_message_queues tr (om_trading_pair m) of
        None \<Rightarrow> tr
      | Some queue \<Rightarrow> put_message m queue tr)"

text \<open>What the task of a market does with a message: to the book and the window of past diffs.\<close>

definition process_message ::
  "order_book_message \<Rightarrow> order_book \<times> order_book_message list \<Rightarrow> order_book \<times> order_book_message list" where
  "process_message m s =
     (let (ob, window) = s in
      case om_type m of
        DIFF \<Rightarrow> (apply_diff_message m ob, deque_append PAST_DIFF_WINDOW_SIZE m window)
      | SNAPSHOT \<Rightarrow> (restore_from_snapshot_and_diffs m window ob, window)
      | TRADE \<Rightarrow> (ob, window))"

definition set_book :: "string \<Rightarrow> order_book \<times> order_book_message list \<Rightarrow> order_book_tracker \<Rightarrow> order_book_tracker" where
  "set_book tp s tr =
     tr\<lparr>tr_order_books := (tr_order_books tr)(tp \<mapsto> fst s),
        tr_past_diffs_windows := (tr_past_diffs_windows tr)(tp := snd s)\<rparr>"

text \<open>One round of the task: the message taken, saved messages first, or \<open>None\<close> when it waits.\<close>

definition track_single_book ::
  "string \<Rightarrow> order_book_tracker \<Rightarrow> (order_book_message \<times> order_book_tracker) option" where
  "track_single_book tp tr =
     (case (tr_order_books tr tp, tr_tracking_message_queues tr tp) of
        (Some ob, Some queue) \<Rightarrow>
          (let process = (\<lambda>m. set_book tp (process_message m (ob, tr_past_diffs_windows tr tp))) in
           case tr_saved_message_queues tr tp of
             m # saved \<Rightarrow>
               Some (m, process m (tr\<lparr>tr_saved_message_queues := (tr_saved_message_queues tr)(tp := saved)\<rparr>))
           | [] \<Rightarrow>
               (case queue of
                  m # queue' \<Rightarrow>
                    Some (m, process m (tr\<lparr>tr_tracking_message_queues := (tr_tracking_message_queues tr)(tp \<mapsto> queue')\<rparr>))
                | [] \<Rightarrow> None))
      | _ \<Rightarrow> None)"

text \<open>\<^verbatim>\<open>_emit_trade_event_loop\<close> and the write of \<^verbatim>\<open>_update_last_trade_prices_loop\<close>.\<close>

definition emit_trade_event :: "string \<Rightarrow> rat \<Rightarrow> seconds \<Rightarrow> order_book_tracker \<Rightarrow> order_book_tracker" where
  "emit_trade_event tp price now tr =
     (case tr_order_books tr tp of
        None \<Rightarrow> tr
      | Some ob \<Rightarrow> tr\<lparr>tr_order_books := (tr_order_books tr)(tp \<mapsto> apply_trade price now ob)\<rparr>)"

definition outdated :: "seconds \<Rightarrow> seconds \<Rightarrow> order_book \<Rightarrow> bool" where
  "outdated now now' ob \<longleftrightarrow> ob_last_applied_trade ob < now - 60 * 3 \<and> ob_last_trade_price_rest_updated ob < now' - 5"

definition set_last_price :: "rat \<Rightarrow> seconds \<Rightarrow> order_book \<Rightarrow> order_book" where
  "set_last_price price now ob = ob\<lparr>ob_last_trade_price := Some price, ob_last_trade_price_rest_updated := now\<rparr>"

definition update_last_trade_price ::
  "string \<Rightarrow> rat \<Rightarrow> seconds \<Rightarrow> order_book_tracker \<Rightarrow> py_error + order_book_tracker" where
  "update_last_trade_price tp price now tr =
     (case tr_order_books tr tp of
        None \<Rightarrow> Inl KeyError
      | Some ob \<Rightarrow> Inr (tr\<lparr>tr_order_books := (tr_order_books tr)(tp \<mapsto> set_last_price price now ob)\<rparr>))"

subsection \<open>Messages are not ordered by their ids\<close>

lemma bisect_loop_zero:
  "(\<And>i. i < length xs \<Longrightarrow> lt x (xs ! i)) \<Longrightarrow> hi \<le> length xs \<Longrightarrow> bisect_loop lt xs x 0 hi = 0"
proof (induction hi rule: less_induct)
  case (less hi)
  show ?case
  proof (cases "0 < hi")
    case True
    then have "lt x (xs ! (hi div 2))" using less.prems by simp
    moreover have "bisect_loop lt xs x 0 (hi div 2) = 0" using less True by auto
    ultimately show ?thesis using True by (subst bisect_loop.simps) (simp add: Let_def)
  qed (simp add: bisect_loop.simps)
qed

lemma message_lt_always: "has_update_id m \<Longrightarrow> message_lt m m'"
  by (simp add: message_lt_def)

text \<open>Two diffs are equal whatever their update ids: both have trade id \<open>- 1\<close>.\<close>

lemma diffs_always_equal: "om_type m = DIFF \<Longrightarrow> om_type m' = DIFF \<Longrightarrow> message_eq m m'"
  by (simp add: message_eq_def trade_id_def)

text \<open>
  Restoring a book from a snapshot replays every diff of the window on top of it, those the snapshot
  already contains too: the comparison of messages holds between any book message and any other, so
  \<^verbatim>\<open>bisect_right\<close> always returns position zero.
\<close>

theorem restore_replays_all_diffs:
  assumes "om_type snapshot = SNAPSHOT"
  shows "restore_from_snapshot_and_diffs snapshot past_diffs ob =
         fold apply_diff_message past_diffs
           (apply_snapshot (message_bids snapshot) (message_asks snapshot) (update_id snapshot) ob)"
proof -
  have "has_update_id snapshot" using assms by (simp add: has_update_id_def)
  then have "bisect_right message_lt past_diffs snapshot = 0"
    by (simp add: bisect_right_def bisect_loop_zero message_lt_always)
  then show ?thesis by (simp add: restore_from_snapshot_and_diffs_def)
qed

subsection \<open>Runs of the tracker\<close>

text \<open>What happens to one market's book: messages processed, trades and prices set.\<close>

datatype book_event =
    Processed order_book_message
  | TradeApplied rat seconds
  | PriceSet rat seconds

fun apply_event :: "book_event \<Rightarrow> order_book \<times> order_book_message list \<Rightarrow> order_book \<times> order_book_message list" where
  "apply_event (Processed m) s = process_message m s"
| "apply_event (TradeApplied price now) s = (apply_trade price now (fst s), snd s)"
| "apply_event (PriceSet price now) s = (set_last_price price now (fst s), snd s)"

definition processed :: "book_event list \<Rightarrow> order_book_message list" where
  "processed es = List.map_filter (\<lambda>e. case e of Processed m \<Rightarrow> Some m | _ \<Rightarrow> None) es"

text \<open>
  A run: the tracker with, per market, the first book, the messages the routers accepted and the events.
\<close>

record tracker_run =
  rn_tracker :: order_book_tracker
  rn_first :: "string \<rightharpoonup> order_book"
  rn_accepted :: "string \<Rightarrow> order_book_message list"
  rn_events :: "string \<Rightarrow> book_event list"

definition accepts_diff :: "order_book_message \<Rightarrow> order_book_tracker \<Rightarrow> bool" where
  "accepts_diff m tr \<longleftrightarrow>
     (case (tr_tracking_message_queues tr (om_trading_pair m), tr_order_books tr (om_trading_pair m)) of
        (Some _, Some ob) \<Rightarrow> ob_snapshot_uid ob \<le> update_id m
      | _ \<Rightarrow> True)"

definition accept :: "bool \<Rightarrow> order_book_message \<Rightarrow> (string \<Rightarrow> order_book_message list) \<Rightarrow> string \<Rightarrow> order_book_message list" where
  "accept ok m acc = (if ok then acc(om_trading_pair m := acc (om_trading_pair m) @ [m]) else acc)"

definition note_event :: "string \<Rightarrow> book_event \<Rightarrow> (string \<Rightarrow> book_event list) \<Rightarrow> string \<Rightarrow> book_event list" where
  "note_event tp e es = es(tp := es tp @ [e])"

inductive run_step :: "tracker_run \<Rightarrow> tracker_run \<Rightarrow> bool" where
  initialised: "tr_order_books (rn_tracker s) tp = None \<Longrightarrow>
    run_step s (s\<lparr>rn_tracker := init_order_book tp ob (rn_tracker s), rn_first := (rn_first s)(tp \<mapsto> ob)\<rparr>)"
| all_initialised: "run_step s (s\<lparr>rn_tracker := init_done (rn_tracker s)\<rparr>)"
| diff_routed: "order_book_diff_router m (rn_tracker s) = Inr tr' \<Longrightarrow>
    run_step s (s\<lparr>rn_tracker := tr', rn_accepted := accept (accepts_diff m (rn_tracker s)) m (rn_accepted s)\<rparr>)"
| snapshot_routed: "tr_order_books_initialized (rn_tracker s) \<Longrightarrow>
    run_step s (s\<lparr>rn_tracker := order_book_snapshot_router m (rn_tracker s),
      rn_accepted := accept (tr_tracking_message_queues (rn_tracker s) (om_trading_pair m) \<noteq> None) m (rn_accepted s)\<rparr>)"
| tracked: "track_single_book tp (rn_tracker s) = Some (m, tr') \<Longrightarrow>
    run_step s (s\<lparr>rn_tracker := tr', rn_events := note_event tp (Processed m) (rn_events s)\<rparr>)"
| traded: "tr_order_books (rn_tracker s) tp = Some ob \<Longrightarrow>
    run_step s (s\<lparr>rn_tracker := emit_trade_event tp price now (rn_tracker s),
      rn_events := note_event tp (TradeApplied price now) (rn_events s)\<rparr>)"
| price_set: "update_last_trade_price tp price now (rn_tracker s) = Inr tr' \<Longrightarrow>
    run_step s (s\<lparr>rn_tracker := tr', rn_events := note_event tp (PriceSet price now) (rn_events s)\<rparr>)"

definition first_run :: tracker_run where
  "first_run = \<lparr>rn_tracker = new_order_book_tracker, rn_first = Map.empty, rn_accepted = (\<lambda>_. []), rn_events = (\<lambda>_. [])\<rparr>"

inductive run_reachable :: "tracker_run \<Rightarrow> bool" where
  start: "run_reachable first_run"
| step: "run_reachable s \<Longrightarrow> run_step s s' \<Longrightarrow> run_reachable s'"

definition pending :: "order_book_tracker \<Rightarrow> string \<Rightarrow> order_book_message list" where
  "pending tr tp = tr_saved_message_queues tr tp @
     (case tr_tracking_message_queues tr tp of None \<Rightarrow> [] | Some queue \<Rightarrow> queue)"

text \<open>Per market: before its book exists messages are only saved, up to 1000; afterwards none is lost.\<close>

definition market_ok :: "tracker_run \<Rightarrow> string \<Rightarrow> bool" where
  "market_ok s tp \<longleftrightarrow>
     (let tr = rn_tracker s; acc = rn_accepted s tp in
      case tr_order_books tr tp of
        None \<Rightarrow> tr_tracking_message_queues tr tp = None \<and> tr_past_diffs_windows tr tp = [] \<and> rn_events s tp = [] \<and>
                rn_first s tp = None \<and> tr_saved_message_queues tr tp = drop (length acc - 1000) acc
      | Some ob \<Rightarrow> tr_tracking_message_queues tr tp \<noteq> None \<and>
          (\<exists>ob0. rn_first s tp = Some ob0 \<and> (ob, tr_past_diffs_windows tr tp) = fold apply_event (rn_events s tp) (ob0, [])) \<and>
          (\<exists>n. processed (rn_events s tp) @ pending tr tp = drop n acc \<and> (n = 0 \<or> n + 1000 \<le> length acc)))"

lemma processed_simps [simp]:
  "processed [] = []" "processed (es @ es') = processed es @ processed es'"
  "processed [Processed m] = [m]" "processed [TradeApplied p t] = []" "processed [PriceSet p t] = []"
  by (simp_all add: processed_def map_filter_def)

lemma deque_append_drop: "deque_append k x (drop (length xs - k) xs) = drop (length (xs @ [x]) - k) (xs @ [x])"
  by (cases "k \<le> length xs") (simp_all add: deque_append_def Suc_diff_le)

text \<open>Steps leave the markets they are not about alone.\<close>

lemma market_ok_cong:
  assumes "tr_order_books (rn_tracker s') tp = tr_order_books (rn_tracker s) tp"
    "tr_tracking_message_queues (rn_tracker s') tp = tr_tracking_message_queues (rn_tracker s) tp"
    "tr_saved_message_queues (rn_tracker s') tp = tr_saved_message_queues (rn_tracker s) tp"
    "tr_past_diffs_windows (rn_tracker s') tp = tr_past_diffs_windows (rn_tracker s) tp"
    "rn_first s' tp = rn_first s tp" "rn_accepted s' tp = rn_accepted s tp" "rn_events s' tp = rn_events s tp"
  shows "market_ok s' tp = market_ok s tp"
  unfolding market_ok_def pending_def Let_def assms ..

text \<open>A message put at the end of the queue of a market.\<close>

lemma market_ok_put:
  assumes ok: "market_ok s tp" and queue: "tr_tracking_message_queues (rn_tracker s) tp = Some queue"
    and tp: "om_trading_pair m = tp"
  shows "market_ok (s\<lparr>rn_tracker := put_message m queue (rn_tracker s), rn_accepted := accept True m (rn_accepted s)\<rparr>) tp"
proof -
  obtain ob where ob: "tr_order_books (rn_tracker s) tp = Some ob"
    using ok queue by (cases "tr_order_books (rn_tracker s) tp") (auto simp: market_ok_def)
  obtain n where n: "processed (rn_events s tp) @ pending (rn_tracker s) tp = drop n (rn_accepted s tp)"
    "n = 0 \<or> n + 1000 \<le> length (rn_accepted s tp)"
    using ok ob by (auto simp: market_ok_def Let_def)
  have "processed (rn_events s tp) @ pending (rn_tracker s) tp @ [m] = drop n (rn_accepted s tp @ [m])"
    using n by auto
  then show ?thesis
    using ok ob n(2) queue tp
    by (auto simp: market_ok_def Let_def put_message_def accept_def pending_def intro!: exI[of _ n])
qed


lemma market_ok_save:
  assumes ok: "market_ok s tp" and queue: "tr_tracking_message_queues (rn_tracker s) tp = None"
    and tp: "om_trading_pair m = tp"
  shows "market_ok (s\<lparr>rn_tracker := (rn_tracker s)\<lparr>tr_saved_message_queues :=
           (tr_saved_message_queues (rn_tracker s))(tp := deque_append 1000 m (tr_saved_message_queues (rn_tracker s) tp))\<rparr>,
           rn_accepted := accept True m (rn_accepted s)\<rparr>) tp"
proof -
  have "tr_order_books (rn_tracker s) tp = None"
    using ok queue by (cases "tr_order_books (rn_tracker s) tp") (auto simp: market_ok_def)
  then show ?thesis
    using ok tp deque_append_drop[of 1000 m "rn_accepted s tp"]
    by (simp add: market_ok_def Let_def accept_def)
qed

text \<open>An event of a market with a book.\<close>

lemma market_ok_event:
  assumes ok: "market_ok s tp" and ob: "tr_order_books (rn_tracker s) tp = Some ob"
    and tr': "tr_order_books tr' tp = Some (fst (apply_event e (ob, tr_past_diffs_windows (rn_tracker s) tp)))"
      "tr_past_diffs_windows tr' tp = snd (apply_event e (ob, tr_past_diffs_windows (rn_tracker s) tp))"
      "tr_tracking_message_queues tr' tp \<noteq> None"
      "pending (rn_tracker s) tp = processed [e] @ pending tr' tp"
  shows "market_ok (s\<lparr>rn_tracker := tr', rn_events := note_event tp e (rn_events s)\<rparr>) tp"
proof -
  obtain ob0 n where ob0: "rn_first s tp = Some ob0"
    "(ob, tr_past_diffs_windows (rn_tracker s) tp) = fold apply_event (rn_events s tp) (ob0, [])"
    and n: "processed (rn_events s tp) @ pending (rn_tracker s) tp = drop n (rn_accepted s tp)"
      "n = 0 \<or> n + 1000 \<le> length (rn_accepted s tp)"
    using ok ob by (auto simp: market_ok_def Let_def)
  have "fold apply_event (rn_events s tp @ [e]) (ob0, []) = (fst (apply_event e (ob, tr_past_diffs_windows (rn_tracker s) tp)),
      snd (apply_event e (ob, tr_past_diffs_windows (rn_tracker s) tp)))"
    using ob0(2) by simp
  moreover have "processed (rn_events s tp @ [e]) @ pending tr' tp = drop n (rn_accepted s tp)"
    using n(1) tr'(4) by simp
  ultimately show ?thesis
    using ob0(1) n(2) tr' by (simp add: market_ok_def Let_def note_event_def) blast
qed

lemma track_takes_pending:
  assumes "track_single_book tp tr = Some (m, tr')"
  obtains ob where "tr_order_books tr tp = Some ob"
    "tr_order_books tr' tp = Some (fst (process_message m (ob, tr_past_diffs_windows tr tp)))"
    "tr_past_diffs_windows tr' tp = snd (process_message m (ob, tr_past_diffs_windows tr tp))"
    "tr_tracking_message_queues tr' tp \<noteq> None" "pending tr tp = m # pending tr' tp"
    "\<And>tp'. tp' \<noteq> tp \<Longrightarrow> tr_order_books tr' tp' = tr_order_books tr tp' \<and>
       tr_tracking_message_queues tr' tp' = tr_tracking_message_queues tr tp' \<and>
       tr_saved_message_queues tr' tp' = tr_saved_message_queues tr tp' \<and>
       tr_past_diffs_windows tr' tp' = tr_past_diffs_windows tr tp'"
proof -
  obtain ob queue where ob: "tr_order_books tr tp = Some ob" and queue: "tr_tracking_message_queues tr tp = Some queue"
    using assms by (auto simp: track_single_book_def split: option.splits)
  show thesis
  proof (cases "tr_saved_message_queues tr tp")
    case (Cons m' saved)
    then show thesis
      using assms ob queue that[OF ob]
      by (auto simp: track_single_book_def set_book_def pending_def Let_def)
  next
    case Nil
    then obtain queue' where "queue = m # queue'"
      using assms ob queue by (cases queue) (auto simp: track_single_book_def Let_def)
    then show thesis
      using assms ob queue Nil that[OF ob]
      by (auto simp: track_single_book_def set_book_def pending_def Let_def)
  qed
qed

lemma initialised_ok:
  assumes ok: "\<And>tp. market_ok s tp"
    and none: "tr_order_books (rn_tracker s) tp = None"
  shows "market_ok (s\<lparr>rn_tracker := init_order_book tp ob (rn_tracker s), rn_first := (rn_first s)(tp \<mapsto> ob)\<rparr>) tp'"
proof -
  show ?thesis
  proof (cases "tp' = tp")
    case True
    have "length xs - 1000 = 0 \<or> length xs - 1000 + 1000 \<le> length xs" for xs :: "order_book_message list" by auto
    then show ?thesis
      using ok[of tp] none True by (auto simp: market_ok_def Let_def init_order_book_def pending_def)
  next
    case False
    then show ?thesis
      using ok[of tp'] by (subst market_ok_cong[of _ _ s]) (simp_all add: init_order_book_def)
  qed
qed

lemma diff_routed_ok:
  assumes ok: "\<And>tp. market_ok s tp"
    and routed: "order_book_diff_router m (rn_tracker s) = Inr tr'"
  shows "market_ok (s\<lparr>rn_tracker := tr', rn_accepted := accept (accepts_diff m (rn_tracker s)) m (rn_accepted s)\<rparr>) tp'"
proof -
  let ?tp = "om_trading_pair m"
  show ?thesis
  proof (cases "tr_tracking_message_queues (rn_tracker s) ?tp")
    case None
    then have tr': "tr' = (rn_tracker s)\<lparr>tr_saved_message_queues := (tr_saved_message_queues (rn_tracker s))
        (?tp := deque_append 1000 m (tr_saved_message_queues (rn_tracker s) ?tp))\<rparr>" "accepts_diff m (rn_tracker s)"
      using routed by (auto simp: order_book_diff_router_def Let_def accepts_diff_def)
    show ?thesis
    proof (cases "tp' = ?tp")
      case True
      then show ?thesis using market_ok_save[OF ok None refl] routed tr' by simp
    next
      case False
      then show ?thesis
        using ok[of tp'] routed tr' by (subst market_ok_cong[of _ _ s]) (simp_all add: accept_def)
    qed
  next
    case (Some queue)
    then obtain ob where ob: "tr_order_books (rn_tracker s) ?tp = Some ob"
      using routed by (auto simp: order_book_diff_router_def split: option.splits)
    show ?thesis
    proof (cases "update_id m < ob_snapshot_uid ob")
      case True
      then have "tr' = rn_tracker s" "\<not> accepts_diff m (rn_tracker s)"
        using routed Some ob by (auto simp: order_book_diff_router_def Let_def accepts_diff_def)
      then show ?thesis using ok[of tp'] routed by (simp add: accept_def)
    next
      case False
      then have tr': "tr' = put_message m queue (rn_tracker s)" "accepts_diff m (rn_tracker s)"
        using routed Some ob by (auto simp: order_book_diff_router_def Let_def accepts_diff_def)
      show ?thesis
      proof (cases "tp' = ?tp")
        case True
        then show ?thesis using market_ok_put[OF ok Some refl] routed tr' by simp
      next
        case False
        then show ?thesis
          using ok[of tp'] routed tr'
          by (subst market_ok_cong[of _ _ s]) (simp_all add: accept_def put_message_def)
      qed
    qed
  qed
qed

lemma snapshot_routed_ok:
  assumes ok: "\<And>tp. market_ok s tp"
  shows "market_ok (s\<lparr>rn_tracker := order_book_snapshot_router m (rn_tracker s),
      rn_accepted := accept (tr_tracking_message_queues (rn_tracker s) (om_trading_pair m) \<noteq> None) m (rn_accepted s)\<rparr>) tp'"
proof -
  let ?tp = "om_trading_pair m"
  show ?thesis
  proof (cases "tr_tracking_message_queues (rn_tracker s) ?tp")
    case None
    then show ?thesis
      using ok[of tp'] by (simp add: order_book_snapshot_router_def accept_def)
  next
    case (Some queue)
    show ?thesis
    proof (cases "tp' = ?tp")
      case True
      then show ?thesis
        using market_ok_put[OF ok Some refl] Some by (simp add: order_book_snapshot_router_def)
    next
      case False
      then show ?thesis
        using ok[of tp'] Some
        by (subst market_ok_cong[of _ _ s]) (simp_all add: accept_def put_message_def order_book_snapshot_router_def)
    qed
  qed
qed

lemma tracked_ok:
  assumes ok: "\<And>tp. market_ok s tp"
    and tracked: "track_single_book tp (rn_tracker s) = Some (m, tr')"
  shows "market_ok (s\<lparr>rn_tracker := tr', rn_events := note_event tp (Processed m) (rn_events s)\<rparr>) tp'"
proof -
  obtain ob where ob: "tr_order_books (rn_tracker s) tp = Some ob"
    "tr_order_books tr' tp = Some (fst (process_message m (ob, tr_past_diffs_windows (rn_tracker s) tp)))"
    "tr_past_diffs_windows tr' tp = snd (process_message m (ob, tr_past_diffs_windows (rn_tracker s) tp))"
    "tr_tracking_message_queues tr' tp \<noteq> None" "pending (rn_tracker s) tp = m # pending tr' tp"
    "\<And>tp'. tp' \<noteq> tp \<Longrightarrow> tr_order_books tr' tp' = tr_order_books (rn_tracker s) tp' \<and>
       tr_tracking_message_queues tr' tp' = tr_tracking_message_queues (rn_tracker s) tp' \<and>
       tr_saved_message_queues tr' tp' = tr_saved_message_queues (rn_tracker s) tp' \<and>
       tr_past_diffs_windows tr' tp' = tr_past_diffs_windows (rn_tracker s) tp'"
    using track_takes_pending[OF tracked] by metis
  show ?thesis
  proof (cases "tp' = tp")
    case True
    then show ?thesis
      using market_ok_event[OF ok ob(1), of tr' "Processed m"] ob(2-5) by simp
  next
    case False
    then show ?thesis
      using ok[of tp'] ob(6)[OF False]
      by (subst market_ok_cong[of _ _ s]) (simp_all add: note_event_def)
  qed
qed

lemma traded_ok:
  assumes ok: "\<And>tp. market_ok s tp"
    and traded: "tr_order_books (rn_tracker s) tp = Some ob"
  shows "market_ok (s\<lparr>rn_tracker := emit_trade_event tp price now (rn_tracker s),
      rn_events := note_event tp (TradeApplied price now) (rn_events s)\<rparr>) tp'"
proof -
  have queue: "tr_tracking_message_queues (rn_tracker s) tp \<noteq> None"
    using ok[of tp] traded by (simp add: market_ok_def Let_def)
  show ?thesis
  proof (cases "tp' = tp")
    case True
    then show ?thesis
      using market_ok_event[OF ok traded, of "emit_trade_event tp price now (rn_tracker s)" "TradeApplied price now"]
        queue traded by (simp add: emit_trade_event_def pending_def)
  next
    case False
    then show ?thesis
      using ok[of tp'] traded
      by (subst market_ok_cong[of _ _ s]) (simp_all add: note_event_def emit_trade_event_def)
  qed
qed

lemma price_set_ok:
  assumes ok: "\<And>tp. market_ok s tp"
    and price_set: "update_last_trade_price tp price now (rn_tracker s) = Inr tr'"
  shows "market_ok (s\<lparr>rn_tracker := tr', rn_events := note_event tp (PriceSet price now) (rn_events s)\<rparr>) tp'"
proof -
  obtain ob where ob: "tr_order_books (rn_tracker s) tp = Some ob"
    and tr': "tr' = (rn_tracker s)\<lparr>tr_order_books := (tr_order_books (rn_tracker s))(tp \<mapsto> set_last_price price now ob)\<rparr>"
    using price_set by (auto simp: update_last_trade_price_def split: option.splits)
  have queue: "tr_tracking_message_queues (rn_tracker s) tp \<noteq> None"
    using ok[of tp] ob by (simp add: market_ok_def Let_def)
  show ?thesis
  proof (cases "tp' = tp")
    case True
    then show ?thesis
      using market_ok_event[OF ok ob, of tr' "PriceSet price now"] queue tr'
      by (simp add: pending_def)
  next
    case False
    then show ?thesis
      using ok[of tp'] tr' by (subst market_ok_cong[of _ _ s]) (simp_all add: note_event_def)
  qed
qed

lemma run_step_ok:
  assumes "run_step s s'" "\<And>tp. market_ok s tp"
  shows "market_ok s' tp'"
  using assms(1)
proof cases
  case all_initialised
  then show ?thesis using assms(2)[of tp'] by (subst market_ok_cong[of _ _ s]) (simp_all add: init_done_def)
qed (simp_all add: assms(2) initialised_ok diff_routed_ok snapshot_routed_ok tracked_ok traded_ok price_set_ok del: not_None_eq)


lemma run_reachable_ok: "run_reachable s \<Longrightarrow> market_ok s tp"
proof (induction arbitrary: tp rule: run_reachable.induct)
  case start
  then show ?case by (simp add: first_run_def market_ok_def new_order_book_tracker_def)
next
  case (step s s')
  then show ?case by (metis run_step_ok)
qed

text \<open>
  C7: in every run, the book of a market is its first book with the messages processed and the trades and
  prices set so far applied one after the other, and the messages processed, followed by those
  saved and queued, are the messages its routers accepted, in their order, each once; only of the diffs
  saved before the book existed the oldest are missing, when there were more than a thousand.
\<close>

theorem book_replays_messages:
  assumes "run_reachable s" and "tr_order_books (rn_tracker s) tp = Some ob"
  shows "\<exists>ob0 n. rn_first s tp = Some ob0 \<and>
           (ob, tr_past_diffs_windows (rn_tracker s) tp) = fold apply_event (rn_events s tp) (ob0, []) \<and>
           processed (rn_events s tp) @ pending (rn_tracker s) tp = drop n (rn_accepted s tp) \<and>
           (n = 0 \<or> n + 1000 \<le> length (rn_accepted s tp))"
  using run_reachable_ok[OF assms(1), of tp] assms(2) by (simp add: market_ok_def Let_def)

subsection \<open>A concrete run\<close>

definition sample_message :: "message_type \<Rightarrow> int \<Rightarrow> (rat \<times> rat) list \<Rightarrow> order_book_message" where
  "sample_message t i bids =
     \<lparr>om_type = t, om_trading_pair = ''A-B'', om_content_update_id = i, om_content_first_update_id = None,
      om_content_trade_id = 0, om_content_bids = bids, om_content_asks = [], om_timestamp = 1\<rparr>"

definition snapshot_book :: order_book where
  "snapshot_book = apply_snapshot [book_row 99 1 7] [] 7 (new_order_book False)"

text \<open>A diff with id 5 arrives before the book is there, and the book with a snapshot of id 7.\<close>

definition sample_run :: tracker_run where
  "sample_run = first_run\<lparr>
     rn_tracker := snd (the (track_single_book ''A-B'' (init_order_book ''A-B'' snapshot_book
       (projr (order_book_diff_router (sample_message DIFF 5 [(99, 4)]) new_order_book_tracker))))),
     rn_first := [''A-B'' \<mapsto> snapshot_book],
     rn_accepted := (\<lambda>_. [])(''A-B'' := [sample_message DIFF 5 [(99, 4)]]),
     rn_events := (\<lambda>_. [])(''A-B'' := [Processed (sample_message DIFF 5 [(99, 4)])])\<rparr>"

lemma sample_run_reachable: "run_reachable sample_run"
proof -
  let ?m = "sample_message DIFF 5 [(99, 4)]"
  let ?tr1 = "projr (order_book_diff_router ?m new_order_book_tracker)"
  have 1: "order_book_diff_router ?m new_order_book_tracker = Inr ?tr1" "accepts_diff ?m new_order_book_tracker"
    "tr_order_books ?tr1 ''A-B'' = None"
    by (simp_all add: order_book_diff_router_def Let_def new_order_book_tracker_def accepts_diff_def)
  let ?s1 = "first_run\<lparr>rn_tracker := ?tr1, rn_accepted := accept True ?m (rn_accepted first_run)\<rparr>"
  have s1: "run_reachable ?s1"
    using run_reachable.step[OF run_reachable.start run_step.diff_routed[of ?m first_run ?tr1]] 1
    by (simp add: first_run_def)
  let ?s2 = "?s1\<lparr>rn_tracker := init_order_book ''A-B'' snapshot_book ?tr1, rn_first := [''A-B'' \<mapsto> snapshot_book]\<rparr>"
  have s2: "run_reachable ?s2"
    using run_reachable.step[OF s1 run_step.initialised[of ?s1 "''A-B''" snapshot_book]] 1 by (simp add: first_run_def)
  have "\<exists>tr'. track_single_book ''A-B'' (rn_tracker ?s2) = Some (?m, tr')"
    by (simp add: track_single_book_def init_order_book_def order_book_diff_router_def Let_def
        new_order_book_tracker_def deque_append_def sample_message_def)
  then obtain tr' where tr': "track_single_book ''A-B'' (rn_tracker ?s2) = Some (?m, tr')" by blast
  have "sample_run = ?s2\<lparr>rn_tracker := tr', rn_events := note_event ''A-B'' (Processed ?m) (rn_events ?s2)\<rparr>"
    using tr' by (simp add: sample_run_def first_run_def accept_def note_event_def sample_message_def fun_eq_iff)
  then show ?thesis using run_reachable.step[OF s2 run_step.tracked[OF tr']] by simp
qed

text \<open>The older diff replaced the entry of the snapshot.\<close>

lemma saved_diff_overrides_snapshot:
  "tr_order_books (rn_tracker sample_run) ''A-B'' =
     Some (apply_diffs [book_row 99 4 5] [] 5 snapshot_book)"
  "ob_bid_book (apply_diffs [book_row 99 4 5] [] 5 snapshot_book) = [book_row 99 4 5]"
  by (simp_all add: sample_run_def track_single_book_def init_order_book_def order_book_diff_router_def Let_def
      new_order_book_tracker_def deque_append_def sample_message_def set_book_def process_message_def
      apply_diff_message_def message_bids_def message_asks_def update_id_def) code_simp

lemma book_replays_messages_witness:
  "\<exists>ob0 n. rn_first sample_run ''A-B'' = Some ob0 \<and>
     (apply_diffs [book_row 99 4 5] [] 5 snapshot_book, tr_past_diffs_windows (rn_tracker sample_run) ''A-B'') =
       fold apply_event (rn_events sample_run ''A-B'') (ob0, []) \<and>
     processed (rn_events sample_run ''A-B'') @ pending (rn_tracker sample_run) ''A-B'' =
       drop n (rn_accepted sample_run ''A-B'') \<and>
     (n = 0 \<or> n + 1000 \<le> length (rn_accepted sample_run ''A-B''))"
  by (rule book_replays_messages[OF sample_run_reachable saved_diff_overrides_snapshot(1)])

text \<open>A snapshot of id 10 restored with a past diff of id 5.\<close>

lemma restore_replays_all_diffs_witness:
  "ob_bid_book (restore_from_snapshot_and_diffs (sample_message SNAPSHOT 10 [(99, 1)])
     [sample_message DIFF 5 [(99, 4)]] snapshot_book) = [book_row 99 4 5]"
proof -
  have "om_type (sample_message SNAPSHOT 10 [(99, 1)]) = SNAPSHOT" by (simp add: sample_message_def)
  from restore_replays_all_diffs[OF this] show ?thesis
    by (simp only:) code_simp
qed

end
