(* ===== verification/Connector_Base.thy ===== *)
theory Connector_Base
  imports In_Flight_Order
begin

text \<open>
  \<^verbatim>\<open>connector/connector_base.pyx\<close>: the balances a connector reports to the strategies.

  The available balance is the one the exchange reported, corrected by the orders placed and filled
  since (when the exchange does not push balances) and cut to the limit the user set for the token.
  The dictionaries from token to amount are only read with default zero and are functions.
  \<open>cn_fee_pct\<close> is the percentage \<^verbatim>\<open>estimate_fee\<close> gives for the connector's maker orders; of the event log
  only the order filled events are read.
\<close>

record order_filled_event =
  of_timestamp :: seconds
  of_trading_pair :: string
  of_trade_type :: trade_type
  of_price :: decimal
  of_amount :: decimal

record connector =
  cn_name :: string
  cn_account_balances :: "string \<rightharpoonup> decimal"
  cn_account_available_balances :: "string \<rightharpoonup> decimal"
  cn_real_time_balance_update :: bool
  cn_in_flight_orders :: "(string, in_flight_order) pydict"
  cn_in_flight_orders_snapshot :: "(string, in_flight_order) pydict option"
  cn_in_flight_orders_snapshot_timestamp :: seconds
  cn_event_logs :: "order_filled_event list"
  cn_balance_asset_limit :: "string \<rightharpoonup> (string \<rightharpoonup> decimal) option"
  cn_fee_pct :: decimal
  cn_current_trade_fills :: "(string \<times> string \<times> string) set"
  cn_exchange_order_ids :: "(string, string) pydict"

subsection \<open>Balances in orders\<close>

definition in_flight_active :: "in_flight_order \<Rightarrow> bool" where
  "in_flight_active x \<longleftrightarrow> \<not> (is_done x \<or> is_failure x \<or> is_cancelled x)"

definition add_balance :: "string \<Rightarrow> decimal \<Rightarrow> (string \<Rightarrow> decimal) \<Rightarrow> string \<Rightarrow> decimal" where
  "add_balance t a m = m(t := m t + a)"

text \<open>A market order has no price: multiplying by \<^verbatim>\<open>None\<close> raises.\<close>

definition add_order_balance ::
  "decimal \<Rightarrow> in_flight_order \<Rightarrow> (string \<Rightarrow> decimal) \<Rightarrow> py_error + (string \<Rightarrow> decimal)" where
  "add_order_balance fee x balances =
     (if ifo_trade_type x = BUY then
        (case ifo_price x of
           None \<Rightarrow> Inl TypeError
         | Some price \<Rightarrow>
             (let outstanding_value = (ifo_amount x * price - ifo_executed_amount_quote x) * (1 + fee)
              in bind_err (quote_asset x) (\<lambda>quote. Inr (add_balance quote outstanding_value balances))))
      else Inr (add_balance (base_asset x) (ifo_amount x - ifo_executed_amount_base x) balances))"

definition in_flight_asset_balances ::
  "decimal \<Rightarrow> (string, in_flight_order) pydict option \<Rightarrow> py_error + (string \<Rightarrow> decimal)" where
  "in_flight_asset_balances fee in_flight_orders =
     (case in_flight_orders of
        None \<Rightarrow> Inr (\<lambda>_. 0)
      | Some orders \<Rightarrow> fold_err (add_order_balance fee) (filter in_flight_active (map snd orders)) (\<lambda>_. 0))"

definition add_filled_balance ::
  "order_filled_event \<Rightarrow> (string \<Rightarrow> decimal) \<Rightarrow> py_error + (string \<Rightarrow> decimal)" where
  "add_filled_balance e balances =
     (case split_char (CHR ''-'') (of_trading_pair e) of
        base # quote # _ \<Rightarrow>
          (let (quote_value, base_value) =
             (if of_trade_type e = BUY then (- 1 * of_price e * of_amount e, of_amount e)
              else (of_price e * of_amount e, - 1 * of_amount e))
           in Inr (add_balance quote quote_value (add_balance base base_value balances)))
      | _ \<Rightarrow> Inl IndexError)"

definition order_filled_balances :: "seconds \<Rightarrow> order_filled_event list \<Rightarrow> py_error + (string \<Rightarrow> decimal)" where
  "order_filled_balances starting_timestamp events =
     fold_err add_filled_balance [e \<leftarrow> events. starting_timestamp < of_timestamp e] (\<lambda>_. 0)"

subsection \<open>The available balance\<close>

definition get_exchange_limit_config :: "connector \<Rightarrow> string \<Rightarrow> (string \<rightharpoonup> decimal)" where
  "get_exchange_limit_config cn market =
     (case cn_balance_asset_limit cn market of Some (Some limits) \<Rightarrow> limits | _ \<Rightarrow> Map.empty)"

definition get_all_balances :: "connector \<Rightarrow> (string \<rightharpoonup> decimal)" where
  "get_all_balances cn = cn_account_balances cn"

definition get_balance :: "connector \<Rightarrow> string \<Rightarrow> decimal" where
  "get_balance cn currency = (case cn_account_balances cn currency of None \<Rightarrow> 0 | Some b \<Rightarrow> b)"

definition apply_balance_limit :: "connector \<Rightarrow> string \<Rightarrow> decimal \<Rightarrow> decimal \<Rightarrow> py_error + decimal" where
  "apply_balance_limit cn currency available_balance limit =
     bind_err (in_flight_asset_balances (cn_fee_pct cn) (Some (cn_in_flight_orders cn))) (\<lambda>in_flight.
     bind_err (order_filled_balances 0 (cn_event_logs cn)) (\<lambda>filled.
       let limit1 = limit - in_flight currency;
           limit2 = limit1 + filled currency;
           limit3 = max limit2 0
       in Inr (min available_balance limit3)))"

definition apply_balance_update_since_snapshot :: "connector \<Rightarrow> string \<Rightarrow> decimal \<Rightarrow> py_error + decimal" where
  "apply_balance_update_since_snapshot cn currency available_balance =
     bind_err (in_flight_asset_balances (cn_fee_pct cn) (cn_in_flight_orders_snapshot cn)) (\<lambda>snapshot.
     bind_err (in_flight_asset_balances (cn_fee_pct cn) (Some (cn_in_flight_orders cn))) (\<lambda>in_flight.
     bind_err (order_filled_balances (cn_in_flight_orders_snapshot_timestamp cn) (cn_event_logs cn)) (\<lambda>filled.
       Inr (available_balance + snapshot currency - in_flight currency + filled currency))))"

definition get_available_balance :: "connector \<Rightarrow> string \<Rightarrow> py_error + decimal" where
  "get_available_balance cn currency =
     (let available = (case cn_account_available_balances cn currency of None \<Rightarrow> 0 | Some b \<Rightarrow> b) in
      bind_err (if \<not> cn_real_time_balance_update cn
                then apply_balance_update_since_snapshot cn currency available else Inr available) (\<lambda>available_balance.
        case get_exchange_limit_config cn (cn_name cn) currency of
          Some balance_limit \<Rightarrow> apply_balance_limit cn currency available_balance balance_limit
        | None \<Rightarrow> Inr available_balance))"

subsection \<open>Rounding and reconciliation\<close>

text \<open>\<^verbatim>\<open>//\<close> on \<^verbatim>\<open>Decimal\<close> rounds towards zero; by zero it raises.\<close>

definition truncate_rat :: "rat \<Rightarrow> int" where
  "truncate_rat x = (if 0 \<le> x then \<lfloor>x\<rfloor> else \<lceil>x\<rceil>)"

definition floor_div :: "decimal \<Rightarrow> decimal \<Rightarrow> py_error + decimal" where
  "floor_div a b = bind_err (dec_div a b) (\<lambda>q. Inr (of_int (truncate_rat q)))"

definition quantize_order_price ::
  "(string \<Rightarrow> decimal \<Rightarrow> py_error + decimal) \<Rightarrow> string \<Rightarrow> decimal option \<Rightarrow> py_error + decimal option" where
  "quantize_order_price price_quantum tp price =
     (case price of
        None \<Rightarrow> Inr None
      | Some p \<Rightarrow> bind_err (price_quantum tp p) (\<lambda>q. bind_err (floor_div p q) (\<lambda>n. Inr (Some (n * q)))))"

definition quantize_order_amount ::
  "(string \<Rightarrow> decimal \<Rightarrow> py_error + decimal) \<Rightarrow> string \<Rightarrow> decimal \<Rightarrow> py_error + decimal" where
  "quantize_order_amount size_quantum tp amount =
     bind_err (size_quantum tp amount) (\<lambda>q. bind_err (floor_div amount q) (\<lambda>n. Inr (n * q)))"

definition add_trade_fills_from_market_recorder :: "(string \<times> string \<times> string) set \<Rightarrow> connector \<Rightarrow> connector" where
  "add_trade_fills_from_market_recorder fills cn =
     cn\<lparr>cn_current_trade_fills := cn_current_trade_fills cn \<union> fills\<rparr>"

definition add_exchange_order_ids_from_market_recorder :: "(string, string) pydict \<Rightarrow> connector \<Rightarrow> connector" where
  "add_exchange_order_ids_from_market_recorder ids cn =
     cn\<lparr>cn_exchange_order_ids := fold (\<lambda>(k, v). AList.update k v) ids (cn_exchange_order_ids cn)\<rparr>"

definition is_confirmed_new_order_filled_event :: "connector \<Rightarrow> string \<Rightarrow> string \<Rightarrow> string \<Rightarrow> bool" where
  "is_confirmed_new_order_filled_event cn exchange_trade_id exchange_order_id tp \<longleftrightarrow>
     (cn_name cn, exchange_trade_id, tp) \<notin> cn_current_trade_fills cn \<and>
     exchange_order_id \<in> fst ` set (cn_exchange_order_ids cn)"

subsection \<open>Balances as sums\<close>

definition pair_base :: "string \<Rightarrow> string" where
  "pair_base tp = hd (split_char (CHR ''-'') tp)"

definition pair_quote :: "string \<Rightarrow> string" where
  "pair_quote tp = hd (tl (split_char (CHR ''-'') tp))"

definition pair_ok :: "string \<Rightarrow> bool" where
  "pair_ok tp \<longleftrightarrow> 2 \<le> length (split_char (CHR ''-'') tp)"

text \<open>What an order locks of a token, and what a fill adds to it.\<close>

definition locked_in :: "decimal \<Rightarrow> in_flight_order \<Rightarrow> string \<Rightarrow> decimal" where
  "locked_in fee x t =
     (if \<not> in_flight_active x then 0
      else if ifo_trade_type x = BUY
      then (if pair_quote (ifo_trading_pair x) = t
            then (ifo_amount x * the (ifo_price x) - ifo_executed_amount_quote x) * (1 + fee) else 0)
      else (if pair_base (ifo_trading_pair x) = t then ifo_amount x - ifo_executed_amount_base x else 0))"

definition filled_in :: "order_filled_event \<Rightarrow> string \<Rightarrow> decimal" where
  "filled_in e t =
     (let sign = (if of_trade_type e = BUY then 1 else - 1) in
      (if pair_base (of_trading_pair e) = t then sign * of_amount e else 0) -
      (if pair_quote (of_trading_pair e) = t then sign * (of_price e * of_amount e) else 0))"

definition order_valid :: "in_flight_order \<Rightarrow> bool" where
  "order_valid x \<longleftrightarrow> pair_ok (ifo_trading_pair x) \<and> (ifo_trade_type x = BUY \<longrightarrow> ifo_price x \<noteq> None)"

lemma pair_parts: "pair_ok tp \<Longrightarrow> \<exists>rest. split_char (CHR ''-'') tp = pair_base tp # pair_quote tp # rest"
  by (cases "split_char (CHR ''-'') tp"; cases "tl (split_char (CHR ''-'') tp)")
    (auto simp: pair_ok_def pair_base_def pair_quote_def)

lemma add_order_balance_eq:
  assumes "order_valid x" "in_flight_active x"
  shows "add_order_balance fee x m = Inr (\<lambda>t. m t + locked_in fee x t)"
proof -
  obtain rest where "split_char (CHR ''-'') (ifo_trading_pair x) =
      pair_base (ifo_trading_pair x) # pair_quote (ifo_trading_pair x) # rest"
    using assms(1) pair_parts by (auto simp: order_valid_def)
  then show ?thesis
    using assms
    by (auto simp: add_order_balance_def order_valid_def quote_asset_def base_asset_def locked_in_def
        add_balance_def Let_def fun_eq_iff)
qed

lemma in_flight_balances_eq:
  assumes "\<forall>x \<in> set (map snd orders). order_valid x"
  shows "in_flight_asset_balances fee (Some orders) = Inr (\<lambda>t. \<Sum>x \<leftarrow> map snd orders. locked_in fee x t)"
proof -
  have "fold_err (add_order_balance fee) (filter in_flight_active xs) m = Inr (\<lambda>t. m t + (\<Sum>x \<leftarrow> xs. locked_in fee x t))"
    if "\<forall>x \<in> set xs. order_valid x" for xs m
    using that
  proof (induction xs arbitrary: m)
    case (Cons x xs)
    show ?case
    proof (cases "in_flight_active x")
      case True
      then show ?thesis using Cons add_order_balance_eq[of x fee m] by (simp add: add.assoc)
    next
      case False
      then have "locked_in fee x t = 0" for t by (simp add: locked_in_def)
      then show ?thesis using Cons False by simp
    qed
  qed simp
  from this[OF assms, of "\<lambda>_. 0"] show ?thesis by (simp add: in_flight_asset_balances_def)
qed

lemma filled_balances_eq:
  assumes "\<forall>e \<in> set events. pair_ok (of_trading_pair e)"
  shows "order_filled_balances ts events =
     Inr (\<lambda>t. \<Sum>e \<leftarrow> events. if ts < of_timestamp e then filled_in e t else 0)"
proof -
  have "fold_err add_filled_balance [e \<leftarrow> es. ts < of_timestamp e] m =
      Inr (\<lambda>t. m t + (\<Sum>e \<leftarrow> es. if ts < of_timestamp e then filled_in e t else 0))"
    if "\<forall>e \<in> set es. pair_ok (of_trading_pair e)" for es m
    using that
  proof (induction es arbitrary: m)
    case (Cons e es)
    obtain rest where split: "split_char (CHR ''-'') (of_trading_pair e) =
        pair_base (of_trading_pair e) # pair_quote (of_trading_pair e) # rest"
      using Cons.prems pair_parts by auto
    have "add_filled_balance e m = Inr (\<lambda>t. m t + filled_in e t)"
      by (auto simp: add_filled_balance_def split add_balance_def filled_in_def Let_def fun_eq_iff)
    then show ?case using Cons by (simp add: add.assoc)
  qed simp
  from this[OF assms, of "\<lambda>_. 0"] show ?thesis by (simp add: order_filled_balances_def)
qed

text \<open>Replacing and removing an entry of a dictionary.\<close>

lemma sum_update:
  fixes f :: "'v \<Rightarrow> 'a::ab_group_add"
  assumes "map_of d k = Some v"
  shows "(\<Sum>x \<leftarrow> map snd (AList.update k v' d). f x) = (\<Sum>x \<leftarrow> map snd d. f x) - f v + f v'"
  using assms by (induction d) (auto split: if_splits simp: algebra_simps)

lemma sum_delete:
  fixes f :: "'v \<Rightarrow> 'a::ab_group_add"
  assumes "map_of d k = Some v" "dict_ok d"
  shows "(\<Sum>x \<leftarrow> map snd (AList.delete k d). f x) = (\<Sum>x \<leftarrow> map snd d. f x) - f v"
  using assms
proof (induction d)
  case (Cons e d)
  show ?case
  proof (cases "fst e = k")
    case True
    then have "k \<notin> fst ` set d" using Cons.prems(2) by (auto simp: dict_ok_def)
    then have "AList.delete k d = d" by simp
    then show ?thesis using True Cons.prems(1) by (cases e) (auto simp: AList.delete_eq)
  next
    case False
    then show ?thesis using Cons by (cases e) (auto simp: AList.delete_eq dict_ok_def algebra_simps)
  qed
qed simp

lemma update_values: "set (map snd (AList.update k v d)) \<subseteq> insert v (set (map snd d))"
  by (induction d) auto

lemma update_all: "\<forall>y \<in> set (map snd d). P y \<Longrightarrow> P v \<Longrightarrow> \<forall>y \<in> set (map snd (AList.update k v d)). P y"
  using update_values[of k v d] by (metis insertE subsetD)

lemma delete_values: "set (map snd (AList.delete k d)) \<subseteq> set (map snd d)"
  by (auto simp: AList.delete_eq)


lemma delete_all: "\<forall>y \<in> set (map snd d). P y \<Longrightarrow> \<forall>y \<in> set (map snd (AList.delete k d)). P y"
  using delete_values[of k d] by (metis subsetD)

subsection \<open>Trading within a balance limit\<close>

text \<open>
  What changes the orders and fills of a connector.  An order is placed when the strategy has checked it
  against the available balance; a fill changes the order and logs the event (\<^verbatim>\<open>process_trade_update\<close>);
  an order leaves the active ones by an update or by no longer being tracked; balance updates and
  snapshots replace the other fields.
\<close>

definition fill_event :: "in_flight_order \<Rightarrow> trade_update \<Rightarrow> seconds \<Rightarrow> order_filled_event" where
  "fill_event x tu now =
     \<lparr>of_timestamp = now, of_trading_pair = ifo_trading_pair x, of_trade_type = ifo_trade_type x,
      of_price = tu_fill_price tu, of_amount = tu_fill_base_amount tu\<rparr>"

definition fresh_order :: "in_flight_order \<Rightarrow> bool" where
  "fresh_order x \<longleftrightarrow> order_valid x \<and> ifo_executed_amount_base x = 0 \<and> ifo_executed_amount_quote x = 0 \<and>
     0 \<le> ifo_amount x \<and> (\<forall>p \<in> set_option (ifo_price x). 0 \<le> p)"

text \<open>A fill at the order's price or better, of at most what is left of the order.\<close>

definition proper_fill :: "in_flight_order \<Rightarrow> trade_update \<Rightarrow> bool" where
  "proper_fill x tu \<longleftrightarrow> in_flight_active x \<and> 0 \<le> tu_fill_base_amount tu \<and> 0 \<le> tu_fill_price tu \<and>
     ifo_executed_amount_base x + tu_fill_base_amount tu \<le> ifo_amount x \<and>
     tu_fill_quote_amount tu = tu_fill_base_amount tu * tu_fill_price tu \<and>
     (ifo_trade_type x = BUY \<longrightarrow> (\<forall>p \<in> set_option (ifo_price x). tu_fill_price tu \<le> p))"

text \<open>
  What happens to a connector in the hands of clients that ask for the available balance before they place an order: the
  premise of \<open>placed\<close> is theirs, no line of the connector checks it.
\<close>

inductive connector_step :: "connector \<Rightarrow> connector \<Rightarrow> bool" where
  placed: "\<lbrakk>map_of (cn_in_flight_orders cn) k = None; fresh_order x;
    \<forall>t. 0 < locked_in (cn_fee_pct cn) x t \<longrightarrow>
      (\<exists>available. get_available_balance cn t = Inr available \<and> locked_in (cn_fee_pct cn) x t \<le> available)\<rbrakk> \<Longrightarrow>
    connector_step cn (cn\<lparr>cn_in_flight_orders := AList.update k x (cn_in_flight_orders cn)\<rparr>)"
| filled: "\<lbrakk>map_of (cn_in_flight_orders cn) k = Some x; proper_fill x tu;
    update_with_trade_update tu x = (True, x'); 0 < now\<rbrakk> \<Longrightarrow>
    connector_step cn (cn\<lparr>cn_in_flight_orders := AList.update k x' (cn_in_flight_orders cn),
      cn_event_logs := cn_event_logs cn @ [fill_event x tu now]\<rparr>)"
| updated: "\<lbrakk>map_of (cn_in_flight_orders cn) k = Some x; update_with_order_update ou x = (b, x');
    in_flight_active x' \<longrightarrow> in_flight_active x\<rbrakk> \<Longrightarrow>
    connector_step cn (cn\<lparr>cn_in_flight_orders := AList.update k x' (cn_in_flight_orders cn)\<rparr>)"
| removed: "connector_step cn (cn\<lparr>cn_in_flight_orders := AList.delete k (cn_in_flight_orders cn)\<rparr>)"
| balances: "connector_step cn (cn\<lparr>cn_account_balances := b, cn_account_available_balances := a,
    cn_in_flight_orders_snapshot := sn, cn_in_flight_orders_snapshot_timestamp := ts\<rparr>)"

inductive connector_reachable :: "connector \<Rightarrow> connector \<Rightarrow> bool" for cn0 where
  start: "connector_reachable cn0 cn0"
| step: "connector_reachable cn0 cn \<Longrightarrow> connector_step cn cn' \<Longrightarrow> connector_reachable cn0 cn'"

definition in_flight_of :: "connector \<Rightarrow> string \<Rightarrow> decimal" where
  "in_flight_of cn t = (\<Sum>x \<leftarrow> map snd (cn_in_flight_orders cn). locked_in (cn_fee_pct cn) x t)"

definition filled_of :: "connector \<Rightarrow> string \<Rightarrow> decimal" where
  "filled_of cn t = (\<Sum>e \<leftarrow> cn_event_logs cn. if 0 < of_timestamp e then filled_in e t else 0)"

text \<open>An order under execution: no more filled than ordered, no more spent than the price allows.\<close>

definition order_sound :: "in_flight_order \<Rightarrow> bool" where
  "order_sound x \<longleftrightarrow> order_valid x \<and> 0 \<le> ifo_executed_amount_base x \<and> ifo_executed_amount_base x \<le> ifo_amount x \<and>
     (\<forall>p \<in> set_option (ifo_price x). 0 \<le> p) \<and>
     (ifo_trade_type x = BUY \<longrightarrow> ifo_executed_amount_quote x \<le> ifo_executed_amount_base x * the (ifo_price x))"

definition within_limit :: "connector \<Rightarrow> string \<Rightarrow> decimal \<Rightarrow> bool" where
  "within_limit cn t limit \<longleftrightarrow> in_flight_of cn t - filled_of cn t \<le> limit"

definition orders_sound :: "connector \<Rightarrow> bool" where
  "orders_sound cn \<longleftrightarrow> dict_ok (cn_in_flight_orders cn) \<and> 0 \<le> cn_fee_pct cn \<and>
     (\<forall>x \<in> set (map snd (cn_in_flight_orders cn)). order_sound x) \<and>
     (\<forall>e \<in> set (cn_event_logs cn). pair_ok (of_trading_pair e))"

lemma orders_sound_balances:
  assumes "orders_sound cn"
  shows "in_flight_asset_balances (cn_fee_pct cn) (Some (cn_in_flight_orders cn)) = Inr (in_flight_of cn)"
    "order_filled_balances 0 (cn_event_logs cn) = Inr (filled_of cn)"
  using assms in_flight_balances_eq[of "cn_in_flight_orders cn" "cn_fee_pct cn"] filled_balances_eq[of "cn_event_logs cn" 0]
  by (auto simp: orders_sound_def order_sound_def in_flight_of_def filled_of_def fun_eq_iff)

lemma sound_locked_nonneg:
  assumes "order_sound x" "0 \<le> fee"
  shows "0 \<le> locked_in fee x t"
proof (cases "ifo_trade_type x = BUY")
  case True
  then obtain p where p: "ifo_price x = Some p" "0 \<le> p"
    using assms(1) by (auto simp: order_sound_def order_valid_def)
  have "ifo_executed_amount_quote x \<le> ifo_executed_amount_base x * p" "ifo_executed_amount_base x * p \<le> ifo_amount x * p"
    using assms(1) True p by (auto simp: order_sound_def intro: mult_right_mono)
  then show ?thesis using True assms(2) p by (auto simp: locked_in_def intro!: mult_nonneg_nonneg)
next
  case False
  then show ?thesis using assms(1) by (auto simp: locked_in_def order_sound_def)
qed

text \<open>The limit leaves at most what is not yet committed.\<close>

lemma available_within_limit:
  assumes "orders_sound cn" "get_exchange_limit_config cn (cn_name cn) t = Some limit"
    "get_available_balance cn t = Inr available" "within_limit cn t limit"
  shows "available \<le> limit - in_flight_of cn t + filled_of cn t"
proof -
  obtain b where "apply_balance_limit cn t b limit = Inr available"
    using assms(2,3) by (auto simp: get_available_balance_def bind_err_eq_Inr Let_def)
  then show ?thesis
    using orders_sound_balances[OF assms(1)] assms(4)
    by (auto simp: apply_balance_limit_def within_limit_def max_def min_def Let_def split: if_splits)
qed

lemma trade_update_fields:
  assumes "update_with_trade_update tu x = (True, x')"
  shows "ifo_trading_pair x' = ifo_trading_pair x" "ifo_trade_type x' = ifo_trade_type x" "ifo_price x' = ifo_price x"
    "ifo_amount x' = ifo_amount x" "ifo_executed_amount_base x' = ifo_executed_amount_base x + tu_fill_base_amount tu"
    "ifo_executed_amount_quote x' = ifo_executed_amount_quote x + tu_fill_quote_amount tu"
  using assms by (auto simp: update_with_trade_update_def check_filled_condition_def split: if_splits)

lemma order_update_fields:
  assumes "update_with_order_update ou x = (b, x')"
  shows "ifo_trading_pair x' = ifo_trading_pair x \<and> ifo_trade_type x' = ifo_trade_type x \<and> ifo_price x' = ifo_price x \<and>
    ifo_amount x' = ifo_amount x \<and> ifo_executed_amount_base x' = ifo_executed_amount_base x \<and>
    ifo_executed_amount_quote x' = ifo_executed_amount_quote x"
  using assms by (auto simp: update_with_order_update_def update_exchange_order_id_def Let_def split: if_splits)

text \<open>A fill takes at least as much from what the order locks as it takes from the balance.\<close>

lemma fill_locks:
  assumes "order_sound x" "proper_fill x tu" "update_with_trade_update tu x = (True, x')" "0 \<le> fee"
  shows "order_sound x'" "locked_in fee x' t - locked_in fee x t \<le> filled_in (fill_event x tu now) t"
proof -
  let ?x = "tu_fill_base_amount tu" and ?p = "tu_fill_price tu"
  note fields = trade_update_fields[OF assms(3)]
  have fill: "0 \<le> ?x" "0 \<le> ?p" "tu_fill_quote_amount tu = ?x * ?p" "in_flight_active x"
    "ifo_executed_amount_base x + ?x \<le> ifo_amount x"
    using assms(2) by (auto simp: proper_fill_def)
  have worth: "?x * ?p \<le> ?x * the (ifo_price x)" if "ifo_trade_type x = BUY"
    using that assms(1,2) fill(1) by (auto simp: proper_fill_def order_sound_def order_valid_def intro!: mult_left_mono)
  show sound: "order_sound x'"
    using assms(1) fill fields worth by (auto simp: order_sound_def order_valid_def ring_distribs)
  have "0 \<le> ?x * ?p" "0 \<le> ?x * ?p * fee" using fill assms(4) by (auto intro!: mult_nonneg_nonneg)
  moreover have "locked_in fee x' t = 0 \<and> \<not> in_flight_active x' \<or>
      in_flight_active x' \<and> locked_in fee x' t = locked_in fee x t -
        (if ifo_trade_type x = BUY then (if pair_quote (ifo_trading_pair x) = t then ?x * ?p * (1 + fee) else 0)
         else (if pair_base (ifo_trading_pair x) = t then ?x else 0))"
    using fill(3,4) by (cases "in_flight_active x'") (simp_all add: locked_in_def fields ring_distribs)
  moreover have "0 \<le> locked_in fee x t - (if ifo_trade_type x = BUY
        then (if pair_quote (ifo_trading_pair x) = t then ?x * ?p * (1 + fee) else 0)
         else (if pair_base (ifo_trading_pair x) = t then ?x else 0))"
  proof (cases "ifo_trade_type x = BUY")
    case True
    have "ifo_executed_amount_base x * the (ifo_price x) + ?x * the (ifo_price x) \<le> ifo_amount x * the (ifo_price x)"
      using assms(1) fill(5) True
      by (auto simp: order_sound_def order_valid_def distrib_right[symmetric] intro!: mult_right_mono)
    then have "?x * ?p \<le> ifo_amount x * the (ifo_price x) - ifo_executed_amount_quote x"
      using assms(1) True worth by (auto simp: order_sound_def)
    then have "?x * ?p * (1 + fee) \<le> (ifo_amount x * the (ifo_price x) - ifo_executed_amount_quote x) * (1 + fee)"
      using assms(4) by (intro mult_right_mono) auto
    then show ?thesis using True fill(4) by (simp add: locked_in_def)
  next
    case False
    then show ?thesis using fill by (simp add: locked_in_def)
  qed
  ultimately show "locked_in fee x' t - locked_in fee x t \<le> filled_in (fill_event x tu now) t"
    using fill(1) by (cases "ifo_trade_type x = BUY")
      (auto simp: filled_in_def fill_event_def Let_def ring_distribs mult.commute split: if_splits)
qed


lemma order_update_locks:
  assumes "order_sound x" "update_with_order_update ou x = (b, x')" "in_flight_active x' \<longrightarrow> in_flight_active x" "0 \<le> fee"
  shows "order_sound x'" "locked_in fee x' t \<le> locked_in fee x t"
proof -
  note fields = order_update_fields[OF assms(2)]
  show "order_sound x'" using assms(1) fields by (simp add: order_sound_def order_valid_def)
  show "locked_in fee x' t \<le> locked_in fee x t"
    using sound_locked_nonneg[OF assms(1,4)] assms(3) fields by (cases "in_flight_active x'") (auto simp: locked_in_def)
qed

lemma connector_step_sound:
  assumes "connector_step cn cn'" "orders_sound cn"
  shows "orders_sound cn'"
  using assms
proof cases
  case (placed k x)
  then show ?thesis
    using assms(2) dict_values_update[of "cn_in_flight_orders cn" k x]
    by (auto simp: orders_sound_def fresh_order_def order_sound_def)
next
  case (filled k x tu x' now)
  have "order_sound x" using map_of_SomeD[OF filled(2)] assms(2) by (force simp: orders_sound_def)
  then have "order_sound x'" using fill_locks(1) filled assms(2) by (auto simp: orders_sound_def)
  then show ?thesis
    using assms(2) filled(1) update_all[of "cn_in_flight_orders cn" order_sound x' k] \<open>order_sound x\<close>
    by (simp add: orders_sound_def fill_event_def order_sound_def order_valid_def)
next
  case (updated k x ou b x')
  have "order_sound x" using map_of_SomeD[OF updated(2)] assms(2) by (force simp: orders_sound_def)
  then have "order_sound x'" using order_update_locks(1) updated assms(2) by (auto simp: orders_sound_def)
  moreover have "\<forall>y \<in> set (map snd (cn_in_flight_orders cn)). order_sound y"
    using assms(2) unfolding orders_sound_def by blast
  ultimately have "\<forall>y \<in> set (map snd (AList.update k x' (cn_in_flight_orders cn))). order_sound y"
    by (intro update_all)
  then show ?thesis using assms(2) unfolding updated(1) orders_sound_def by simp
next
  case (removed k)
  have "\<forall>y \<in> set (map snd (AList.delete k (cn_in_flight_orders cn))). order_sound y"
    by (rule delete_all) (use assms(2) in \<open>simp add: orders_sound_def\<close>)
  then show ?thesis using assms(2) unfolding removed(1) orders_sound_def by simp
next
  case (balances b a sn ts)
  then show ?thesis using assms(2) by (simp add: orders_sound_def)
qed

lemma connector_step_limit:
  assumes step: "connector_step cn cn'" and sound: "orders_sound cn"
    and limit: "get_exchange_limit_config cn (cn_name cn) t = Some limit" and within: "within_limit cn t limit"
  shows "within_limit cn' t limit"
proof -
  have fee: "0 \<le> cn_fee_pct cn" using sound by (simp add: orders_sound_def)
  show ?thesis
    using step
  proof cases
    case (placed k x)
    have "locked_in (cn_fee_pct cn) x t \<le> limit - in_flight_of cn t + filled_of cn t"
    proof (cases "0 < locked_in (cn_fee_pct cn) x t")
      case True
      then obtain available where "get_available_balance cn t = Inr available" "locked_in (cn_fee_pct cn) x t \<le> available"
        using placed(4) by blast
      then show ?thesis using available_within_limit[OF sound limit _ within] by fastforce
    next
      case False
      then show ?thesis using within by (simp add: within_limit_def)
    qed
    then show ?thesis
      using placed dict_values_update[of "cn_in_flight_orders cn" k x]
      by (simp add: within_limit_def in_flight_of_def filled_of_def)
  next
    case (filled k x tu x' now)
    have "order_sound x" using map_of_SomeD[OF filled(2)] sound by (force simp: orders_sound_def)
    from fill_locks(2)[OF this filled(3,4) fee, of t now] show ?thesis
      using filled(1,5) within sum_update[OF filled(2), of "\<lambda>x. locked_in (cn_fee_pct cn) x t" x']
      by (simp add: within_limit_def in_flight_of_def filled_of_def fill_event_def)
  next
    case (updated k x ou b x')
    have "order_sound x" using map_of_SomeD[OF updated(2)] sound by (force simp: orders_sound_def)
    from order_update_locks(2)[OF this updated(3,4) fee, of t] show ?thesis
      using updated(1) within sum_update[OF updated(2), of "\<lambda>x. locked_in (cn_fee_pct cn) x t" x']
      by (simp add: within_limit_def in_flight_of_def filled_of_def)
  next
    case (removed k)
    have "in_flight_of cn' t \<le> in_flight_of cn t"
    proof (cases "map_of (cn_in_flight_orders cn) k")
      case None
      then show ?thesis using removed by (simp add: in_flight_of_def map_of_eq_None_iff)
    next
      case (Some x)
      have "order_sound x" using map_of_SomeD[OF Some] sound by (force simp: orders_sound_def)
      from sound_locked_nonneg[OF this fee, of t] show ?thesis
        using removed sum_delete[OF Some, of "\<lambda>x. locked_in (cn_fee_pct cn) x t"] sound
        by (simp add: in_flight_of_def orders_sound_def)
    qed
    then show ?thesis using removed within by (simp add: within_limit_def filled_of_def)
  qed (use within in \<open>simp add: within_limit_def in_flight_of_def filled_of_def\<close>)
qed

lemma connector_step_config:
  assumes "connector_step cn cn'"
  shows "cn_name cn' = cn_name cn" "cn_balance_asset_limit cn' = cn_balance_asset_limit cn" "cn_fee_pct cn' = cn_fee_pct cn"
  using assms by (cases, auto)+

text \<open>
  C22: a connector with a limit on a token keeps it: what the active orders lock of the token (fees included) less what
  the fills have brought in, and what \<^verbatim>\<open>get_available_balance\<close> makes available on top of it, is at most the limit,
  whatever fills, updates and balance reports come in between.  The clients are assumed to place an order only when the
  balance available at that time covers it, which the connector does not check.
\<close>

theorem balance_limit_kept:
  assumes "connector_reachable cn0 cn" and "cn_in_flight_orders cn0 = []" and "cn_event_logs cn0 = []"
    and "0 \<le> cn_fee_pct cn0" and "get_exchange_limit_config cn0 (cn_name cn0) t = Some limit" and "0 \<le> limit"
    and "get_available_balance cn t = Inr available"
  shows "\<exists>in_flight filled.
           in_flight_asset_balances (cn_fee_pct cn) (Some (cn_in_flight_orders cn)) = Inr in_flight \<and>
           order_filled_balances 0 (cn_event_logs cn) = Inr filled \<and> in_flight t - filled t + max available 0 \<le> limit"
proof -
  have "orders_sound cn \<and> within_limit cn t limit \<and> get_exchange_limit_config cn (cn_name cn) t = Some limit"
    using assms(1)
  proof (induction rule: connector_reachable.induct)
    case start
    then show ?case using assms(2-6) by (simp add: orders_sound_def within_limit_def in_flight_of_def filled_of_def)
  next
    case (step cn cn')
    then show ?case
      using connector_step_sound[OF step(2)] connector_step_limit[OF step(2)] connector_step_config[OF step(2)]
      by (simp add: get_exchange_limit_config_def)
  qed
  then show ?thesis
    using orders_sound_balances[of cn] available_within_limit[OF _ _ assms(7)] by (fastforce simp: within_limit_def max_def)
qed


subsection \<open>The balance since the snapshot\<close>

text \<open>
  For a connector without balance pushes, a fill that leaves the order active changes the available
  balance by what it brings in: a sell by its quote value, while the base it was locked in stays
  as it is; a buy by its base amount, and of the quote by the estimated fee of the fill only, which
  the order had locked and the fill is not charged with.
\<close>

theorem fill_changes_available:
  assumes "orders_sound cn" and "map_of (cn_in_flight_orders cn) k = Some x" and "proper_fill x tu"
    and "update_with_trade_update tu x = (True, x')" and "in_flight_active x'"
    and "cn_in_flight_orders_snapshot_timestamp cn < now"
    and "apply_balance_update_since_snapshot cn t a = Inr v"
    and "cn' = cn\<lparr>cn_in_flight_orders := AList.update k x' (cn_in_flight_orders cn),
                   cn_event_logs := cn_event_logs cn @ [fill_event x tu now]\<rparr>"
  shows "apply_balance_update_since_snapshot cn' t a = Inr (v +
    (if ifo_trade_type x = BUY
     then (if pair_base (ifo_trading_pair x) = t then tu_fill_base_amount tu else 0) +
          (if pair_quote (ifo_trading_pair x) = t
           then tu_fill_base_amount tu * tu_fill_price tu * cn_fee_pct cn else 0)
     else (if pair_quote (ifo_trading_pair x) = t then tu_fill_base_amount tu * tu_fill_price tu else 0)))"
proof -
  let ?fee = "cn_fee_pct cn" and ?ts = "cn_in_flight_orders_snapshot_timestamp cn"
  have sound: "order_sound x" using map_of_SomeD[OF assms(2)] assms(1) by (force simp: orders_sound_def)
  have valid: "\<forall>y \<in> set (map snd (cn_in_flight_orders cn)). order_valid y"
    using assms(1) by (simp add: orders_sound_def order_sound_def)
  have fee: "0 \<le> ?fee" using assms(1) by (simp add: orders_sound_def)
  have "order_sound x'" by (rule fill_locks(1)[OF sound assms(3,4) fee])
  then have "order_valid x'" by (simp add: order_sound_def)
  then have valid': "\<forall>y \<in> set (map snd (cn_in_flight_orders cn')). order_valid y"
    using update_all[OF valid, of x' k] by (simp add: assms(8))
  have pairs: "\<forall>e \<in> set (cn_event_logs cn). pair_ok (of_trading_pair e)"
    "\<forall>e \<in> set (cn_event_logs cn'). pair_ok (of_trading_pair e)"
    using assms(1) sound by (auto simp: orders_sound_def assms(8) fill_event_def order_sound_def order_valid_def)
  obtain snapshot where snap: "in_flight_asset_balances ?fee (cn_in_flight_orders_snapshot cn) = Inr snapshot"
    using assms(7) by (auto simp: apply_balance_update_since_snapshot_def bind_err_eq_Inr)
  have v: "v = a + snapshot t - (\<Sum>y \<leftarrow> map snd (cn_in_flight_orders cn). locked_in ?fee y t) +
      (\<Sum>e \<leftarrow> cn_event_logs cn. if ?ts < of_timestamp e then filled_in e t else 0)"
    using assms(7) snap in_flight_balances_eq[OF valid] filled_balances_eq[OF pairs(1)]
    by (simp add: apply_balance_update_since_snapshot_def)
  have "apply_balance_update_since_snapshot cn' t a = Inr (a + snapshot t -
      (\<Sum>y \<leftarrow> map snd (cn_in_flight_orders cn'). locked_in ?fee y t) +
      (\<Sum>e \<leftarrow> cn_event_logs cn'. if ?ts < of_timestamp e then filled_in e t else 0))"
    using snap in_flight_balances_eq[OF valid'] filled_balances_eq[OF pairs(2)]
    by (simp add: apply_balance_update_since_snapshot_def assms(8))
  also have "\<dots> = Inr (v + (locked_in ?fee x t - locked_in ?fee x' t + filled_in (fill_event x tu now) t))"
    using sum_update[OF assms(2), of "\<lambda>y. locked_in ?fee y t" x'] assms(6)
    by (simp add: v assms(8) fill_event_def)
  also have "locked_in ?fee x t - locked_in ?fee x' t + filled_in (fill_event x tu now) t =
    (if ifo_trade_type x = BUY
     then (if pair_base (ifo_trading_pair x) = t then tu_fill_base_amount tu else 0) +
          (if pair_quote (ifo_trading_pair x) = t
           then tu_fill_base_amount tu * tu_fill_price tu * cn_fee_pct cn else 0)
     else (if pair_quote (ifo_trading_pair x) = t then tu_fill_base_amount tu * tu_fill_price tu else 0))"
    using assms(3,5) trade_update_fields[OF assms(4)]
    by (auto simp: locked_in_def filled_in_def fill_event_def proper_fill_def Let_def algebra_simps)
  finally show ?thesis .
qed

subsection \<open>Rounding to a quantum\<close>

lemma truncate_rat_bounds: "\<bar>of_int (truncate_rat x)\<bar> \<le> \<bar>x\<bar>" "\<bar>x - of_int (truncate_rat x)\<bar> < 1"
proof -
  have "\<bar>of_int (truncate_rat x)\<bar> \<le> \<bar>x\<bar> \<and> \<bar>x - of_int (truncate_rat x)\<bar> < 1"
  proof (cases "0 \<le> x")
    case True
    then have "0 \<le> \<lfloor>x\<rfloor>" by simp
    then show ?thesis using True by (simp add: truncate_rat_def) linarith
  next
    case False
    then have "\<lceil>x\<rceil> \<le> 0" by (simp add: ceiling_le_iff)
    then show ?thesis using False by (simp add: truncate_rat_def) linarith
  qed
  then show "\<bar>of_int (truncate_rat x)\<bar> \<le> \<bar>x\<bar>" "\<bar>x - of_int (truncate_rat x)\<bar> < 1" by simp_all
qed

lemma truncate_rat_mono: "x \<le> y \<Longrightarrow> truncate_rat x \<le> truncate_rat y"
proof -
  assume "x \<le> y"
  then show ?thesis
  proof (cases "0 \<le> x \<or> y < 0")
    case True
    then show ?thesis using \<open>x \<le> y\<close> floor_mono[of x y] ceiling_mono[of x y] by (auto simp: truncate_rat_def)
  next
    case False
    then have "\<lceil>x\<rceil> \<le> 0" "0 \<le> \<lfloor>y\<rfloor>" by (simp_all add: ceiling_le_iff del: ceiling_le_zero)
    then have "\<lceil>x\<rceil> \<le> \<lfloor>y\<rfloor>" by (rule order_trans)
    then show ?thesis using False \<open>x \<le> y\<close> by (simp add: truncate_rat_def)
  qed
qed

lemma floor_multiple:
  assumes "0 < q" "0 \<le> a"
  obtains n :: nat where "floor_div a q = Inr (of_nat n)" "of_nat n * q \<le> a" "a < (of_nat n + 1) * q"
proof
  have nonneg: "0 \<le> \<lfloor>a / q\<rfloor>" using assms by simp
  have floor: "of_int \<lfloor>a / q\<rfloor> \<le> a / q" "a / q < of_int \<lfloor>a / q\<rfloor> + 1" by linarith+
  show "floor_div a q = Inr (of_nat (nat \<lfloor>a / q\<rfloor>))"
    using assms nonneg by (simp add: floor_div_def truncate_rat_def)
  have "of_int \<lfloor>a / q\<rfloor> * q \<le> a / q * q" using floor(1) assms(1) by (intro mult_right_mono) auto
  then show "of_nat (nat \<lfloor>a / q\<rfloor>) * q \<le> a" using assms(1) nonneg by simp
  have "a / q * q < (of_int \<lfloor>a / q\<rfloor> + 1) * q" using floor(2) assms(1) by (intro mult_strict_right_mono) auto
  then show "a < (of_nat (nat \<lfloor>a / q\<rfloor>) + 1) * q" using assms(1) nonneg by simp
qed

subsection \<open>A concrete connector\<close>

definition sample_order :: in_flight_order where
  "sample_order = new_in_flight_order ''b1'' ''ETH-USDT'' LIMIT BUY 2 1 (Some 100) (Some ''x1'') OPEN 1 NIL_POSITION"

definition sample_connector :: connector where
  "sample_connector = \<lparr>cn_name = ''binance'', cn_account_balances = [''USDT'' \<mapsto> 1000],
     cn_account_available_balances = [''USDT'' \<mapsto> 1000], cn_real_time_balance_update = False,
     cn_in_flight_orders = [], cn_in_flight_orders_snapshot = None,
     cn_in_flight_orders_snapshot_timestamp = 5, cn_event_logs = [],
     cn_balance_asset_limit = [''binance'' \<mapsto> Some [''USDT'' \<mapsto> 250]], cn_fee_pct = 1/1000,
     cn_current_trade_fills = {}, cn_exchange_order_ids = []\<rparr>"

definition sample_fill :: trade_update where
  "sample_fill = \<lparr>tu_trade_id = ''t1'', tu_client_order_id = ''b1'', tu_exchange_order_id = ''x1'',
     tu_trading_pair = ''ETH-USDT'', tu_fill_timestamp = 9, tu_fill_price = 99, tu_fill_base_amount = 1,
     tu_fill_quote_amount = 99, tu_fee = \<lparr>tf_class = AddedToCost, tf_percent = 0, tf_percent_token = None,
     tf_flat_fees = []\<rparr>\<rparr>"


text \<open>The order of 200 USDT is placed within the limit of 250 and filled in half at a better price.\<close>

definition sample_placed :: connector where
  "sample_placed = sample_connector\<lparr>cn_in_flight_orders := AList.update ''b1'' sample_order []\<rparr>"

definition sample_order' :: in_flight_order where
  "sample_order' = snd (update_with_trade_update sample_fill sample_order)"

definition sample_filled :: connector where
  "sample_filled = sample_placed\<lparr>
     cn_in_flight_orders := AList.update ''b1'' sample_order' (cn_in_flight_orders sample_placed),
     cn_event_logs := cn_event_logs sample_placed @ [fill_event sample_order sample_fill 9]\<rparr>"

lemma sample_pair: "pair_base ''ETH-USDT'' = ''ETH''" "pair_quote ''ETH-USDT'' = ''USDT''" "pair_ok ''ETH-USDT''"
  by code_simp+

lemma sample_order_facts:
  "fresh_order sample_order" "in_flight_active sample_order" "in_flight_active sample_order'"
  "update_with_trade_update sample_fill sample_order = (True, sample_order')" "proper_fill sample_order sample_fill"
proof -
  show "in_flight_active sample_order" "in_flight_active sample_order'" by code_simp+
  show "update_with_trade_update sample_fill sample_order = (True, sample_order')"
    by (simp add: sample_order'_def update_with_trade_update_def sample_order_def new_in_flight_order_def sample_fill_def)
  then show "proper_fill sample_order sample_fill"
    using \<open>in_flight_active sample_order\<close>
    by (simp add: proper_fill_def sample_order_def new_in_flight_order_def sample_fill_def)
  show "fresh_order sample_order"
    using sample_pair by (simp add: fresh_order_def order_valid_def sample_order_def new_in_flight_order_def)
qed

lemma sample_locked: "locked_in (1/1000) sample_order t = (if t = ''USDT'' then 1001/5 else 0)"
  using sample_order_facts(2) sample_pair
  by (auto simp: locked_in_def sample_order_def new_in_flight_order_def)

lemma sample_filled_reachable: "connector_reachable sample_connector sample_filled"
proof -
  have "get_available_balance sample_connector ''USDT'' = Inr 250" by code_simp
  then have "connector_step sample_connector sample_placed"
    unfolding sample_placed_def
    using connector_step.placed[of sample_connector "''b1''" sample_order] sample_order_facts(1)
    by (simp add: sample_locked sample_connector_def)
  moreover have "connector_step sample_placed sample_filled"
    unfolding sample_filled_def
    by (rule connector_step.filled) (simp_all add: sample_order_facts sample_placed_def)
  ultimately show ?thesis using connector_reachable.intros by metis
qed

lemma balance_limit_kept_witness:
  "\<exists>in_flight filled.
     in_flight_asset_balances (cn_fee_pct sample_filled) (Some (cn_in_flight_orders sample_filled)) = Inr in_flight \<and>
     order_filled_balances 0 (cn_event_logs sample_filled) = Inr filled \<and>
     in_flight ''USDT'' - filled ''USDT'' + max (projr (get_available_balance sample_filled ''USDT'')) 0 \<le> 250"
proof -
  have "get_available_balance sample_filled ''USDT'' = Inr (projr (get_available_balance sample_filled ''USDT''))" by code_simp
  then show ?thesis
    by (rule balance_limit_kept[OF sample_filled_reachable, rotated -1])
      (simp_all add: sample_connector_def get_exchange_limit_config_def)
qed

lemma fill_changes_available_witness:
  "apply_balance_update_since_snapshot sample_filled ''USDT'' 1000 = Inr (1000 - 1001/5 + 99/1000)"
proof -
  have sound: "orders_sound sample_placed"
    using sample_order_facts(1)
    by (auto simp: orders_sound_def sample_placed_def sample_connector_def dict_ok_def fresh_order_def order_sound_def)
  have "apply_balance_update_since_snapshot sample_placed ''USDT'' 1000 = Inr (1000 - 1001/5)" by code_simp
  from fill_changes_available[OF sound _ sample_order_facts(5,4,3) _ this sample_filled_def]
  show ?thesis
    using sample_pair
    by (simp add: sample_placed_def sample_connector_def sample_order_def new_in_flight_order_def sample_fill_def)
qed

end
