(* ===== verification/Exchange_Base.thy ===== *)
theory Exchange_Base
  imports Connector_Base Order_Book
begin

text \<open>
  \<^verbatim>\<open>connector/exchange_base.pyx\<close> and \<^verbatim>\<open>connector/trading_rule.pyx\<close>: what an exchange connector answers
  about its markets, the queries of its order books rounded by the trading rules.

  The abstract methods of the class are the fields of \<open>exchange_api\<close>: the quanta of prices and amounts,
  the order book of a trading pair (or the error for an unknown one) and the supported order types.  NaN is \<open>None\<close>.
\<close>

subsection \<open>Trading rules\<close>

record trading_rule =
  rule_trading_pair :: string
  rule_min_order_size :: decimal
  rule_max_order_size :: decimal
  rule_min_price_increment :: decimal
  rule_min_base_amount_increment :: decimal
  rule_min_quote_amount_increment :: decimal
  rule_min_notional_size :: decimal
  rule_min_order_value :: decimal
  rule_max_price_significant_digits :: decimal
  rule_supports_limit_orders :: bool
  rule_supports_market_orders :: bool
  rule_buy_order_collateral_token :: string
  rule_sell_order_collateral_token :: string

definition s_decimal_max :: decimal where
  "s_decimal_max = 10 ^ 56"

definition s_decimal_min :: decimal where
  "s_decimal_min = 1 / s_decimal_max"

definition new_trading_rule ::
  "string \<Rightarrow> decimal \<Rightarrow> decimal \<Rightarrow> decimal \<Rightarrow> decimal \<Rightarrow> decimal \<Rightarrow> decimal \<Rightarrow> decimal \<Rightarrow> decimal \<Rightarrow> bool \<Rightarrow> bool \<Rightarrow>
   string option \<Rightarrow> string option \<Rightarrow> py_error + trading_rule" where
  "new_trading_rule tp min_order_size max_order_size min_price_increment min_base_amount_increment
     min_quote_amount_increment min_notional_size min_order_value max_price_significant_digits
     supports_limit_orders supports_market_orders buy_order_collateral_token sell_order_collateral_token =
     bind_err (split_hb_trading_pair tp) (\<lambda>(_, quote_token). Inr
       \<lparr>rule_trading_pair = tp, rule_min_order_size = min_order_size, rule_max_order_size = max_order_size,
        rule_min_price_increment = min_price_increment,
        rule_min_base_amount_increment = min_base_amount_increment,
        rule_min_quote_amount_increment = min_quote_amount_increment,
        rule_min_notional_size = min_notional_size, rule_min_order_value = min_order_value,
        rule_max_price_significant_digits = max_price_significant_digits,
        rule_supports_limit_orders = supports_limit_orders,
        rule_supports_market_orders = supports_market_orders,
        rule_buy_order_collateral_token = or_str buy_order_collateral_token quote_token,
        rule_sell_order_collateral_token = or_str sell_order_collateral_token quote_token\<rparr>)"

text \<open>A rule with the default arguments of the constructor.\<close>

definition default_trading_rule :: "string \<Rightarrow> py_error + trading_rule" where
  "default_trading_rule tp =
     new_trading_rule tp 0 s_decimal_max s_decimal_min s_decimal_min s_decimal_min 0 0 s_decimal_max True True None None"

subsection \<open>Quotes\<close>

record exchange_api =
  ea_price_quantum :: "string \<Rightarrow> decimal \<Rightarrow> py_error + decimal"
  ea_size_quantum :: "string \<Rightarrow> decimal \<Rightarrow> py_error + decimal"
  ea_order_book :: "string \<Rightarrow> py_error + order_book"
  ea_supported_order_types :: "order_type list"

definition quantized_price :: "exchange_api \<Rightarrow> string \<Rightarrow> decimal option \<Rightarrow> py_error + decimal option" where
  "quantized_price ea tp price = quantize_order_price (ea_price_quantum ea) tp price"

text \<open>An amount that is NaN stays NaN.\<close>

definition quantized_amount :: "exchange_api \<Rightarrow> string \<Rightarrow> decimal option \<Rightarrow> py_error + decimal option" where
  "quantized_amount ea tp amount =
     (case amount of
        None \<Rightarrow> Inr None
      | Some a \<Rightarrow> bind_err (quantize_order_amount (ea_size_quantum ea) tp a) (\<lambda>a'. Inr (Some a')))"

text \<open>The price of an empty side is NaN.\<close>

definition exchange_price :: "exchange_api \<Rightarrow> string \<Rightarrow> bool \<Rightarrow> py_error + decimal option" where
  "exchange_price ea tp is_buy =
     bind_err (ea_order_book ea tp) (\<lambda>ob.
       case book_price ob is_buy of
         Inl _ \<Rightarrow> Inr None
       | Inr top_price \<Rightarrow> quantized_price ea tp top_price)"

definition nan_add :: "decimal option \<Rightarrow> decimal option \<Rightarrow> decimal option" where
  "nan_add a b = (case (a, b) of (Some x, Some y) \<Rightarrow> Some (x + y) | _ \<Rightarrow> None)"

definition nan_mult :: "decimal option \<Rightarrow> decimal \<Rightarrow> decimal option" where
  "nan_mult x y = map_option (\<lambda>a. a * y) x"

definition nan_div :: "decimal option \<Rightarrow> decimal option \<Rightarrow> py_error + decimal option" where
  "nan_div x y = (case (x, y) of
       (Some a, Some b) \<Rightarrow> bind_err (dec_div a b) (\<lambda>q. Inr (Some q))
     | _ \<Rightarrow> Inr None)"

text \<open>\<^verbatim>\<open>min\<close>, \<^verbatim>\<open>max\<close> and comparisons of a NaN raise.\<close>

definition compare_decimals :: "(decimal \<Rightarrow> decimal \<Rightarrow> 'a) \<Rightarrow> decimal option \<Rightarrow> decimal option \<Rightarrow> py_error + 'a" where
  "compare_decimals f x y = (case (x, y) of (Some a, Some b) \<Rightarrow> Inr (f a b) | _ \<Rightarrow> Inl InvalidOperation)"

lemma compare_decimals_Inr [err_simps]:
  "compare_decimals f x y = Inr z \<longleftrightarrow> (\<exists>a b. x = Some a \<and> y = Some b \<and> z = f a b)"
  by (cases x; cases y) (auto simp: compare_decimals_def)

lemma nan_div_Inr_Some [err_simps]:
  "nan_div x y = Inr (Some c) \<longleftrightarrow> (\<exists>a b. x = Some a \<and> y = Some b \<and> b \<noteq> 0 \<and> c = a / b)"
  by (cases x; cases y) (auto simp: nan_div_def err_simps)

lemma nan_mult_Some [err_simps]: "nan_mult x y = Some c \<longleftrightarrow> (\<exists>a. x = Some a \<and> c = a * y)"
  by (auto simp: nan_mult_def)

definition mid_price :: "exchange_api \<Rightarrow> string \<Rightarrow> py_error + decimal option" where
  "mid_price ea tp =
     bind_err (exchange_price ea tp True) (\<lambda>ask.
     bind_err (exchange_price ea tp False) (\<lambda>bid. Inr (map_option (\<lambda>x. x / 2) (nan_add ask bid))))"

text \<open>The other price types are no answer of an exchange: the method returns \<^verbatim>\<open>None\<close>, the outer option.\<close>

definition get_price_by_type :: "exchange_api \<Rightarrow> string \<Rightarrow> price_type \<Rightarrow> py_error + decimal option option" where
  "get_price_by_type ea tp t =
     (case t of
        BestBid \<Rightarrow> bind_err (exchange_price ea tp False) (\<lambda>p. Inr (Some p))
      | BestAsk \<Rightarrow> bind_err (exchange_price ea tp True) (\<lambda>p. Inr (Some p))
      | MidPrice \<Rightarrow>
          bind_err (exchange_price ea tp True) (\<lambda>ask.
          bind_err (exchange_price ea tp False) (\<lambda>bid. Inr (Some (map_option (\<lambda>x. x / 2) (nan_add ask bid)))))
      | LastTrade \<Rightarrow> bind_err (ea_order_book ea tp) (\<lambda>ob. Inr (Some (ob_last_trade_price ob)))
      | _ \<Rightarrow> Inr None)"

definition exchange_vwap_for_volume :: "exchange_api \<Rightarrow> string \<Rightarrow> bool \<Rightarrow> decimal \<Rightarrow> py_error + query_result" where
  "exchange_vwap_for_volume ea tp is_buy volume =
     bind_err (ea_order_book ea tp) (\<lambda>ob.
     bind_err (vwap_for_volume ob is_buy volume) (\<lambda>result.
     bind_err (quantized_amount ea tp (qr_query_volume result)) (\<lambda>query_volume.
     bind_err (quantized_price ea tp (qr_result_price result)) (\<lambda>result_price.
     bind_err (quantized_amount ea tp (qr_result_volume result)) (\<lambda>result_volume.
       Inr \<lparr>qr_query_price = None, qr_query_volume = query_volume, qr_result_price = result_price,
            qr_result_volume = result_volume\<rparr>)))))"

definition exchange_price_for_quote_volume :: "exchange_api \<Rightarrow> string \<Rightarrow> bool \<Rightarrow> decimal \<Rightarrow> py_error + query_result" where
  "exchange_price_for_quote_volume ea tp is_buy volume =
     bind_err (ea_order_book ea tp) (\<lambda>ob.
     let result = price_for_quote_volume ob is_buy volume in
     bind_err (quantized_amount ea tp (qr_query_volume result)) (\<lambda>query_volume.
     bind_err (quantized_price ea tp (qr_result_price result)) (\<lambda>result_price.
     bind_err (quantized_amount ea tp (qr_result_volume result)) (\<lambda>result_volume.
       Inr \<lparr>qr_query_price = None, qr_query_volume = query_volume, qr_result_price = result_price,
            qr_result_volume = result_volume\<rparr>))))"

definition exchange_price_for_volume :: "exchange_api \<Rightarrow> string \<Rightarrow> bool \<Rightarrow> decimal \<Rightarrow> py_error + query_result" where
  "exchange_price_for_volume ea tp is_buy volume =
     bind_err (ea_order_book ea tp) (\<lambda>ob.
     let result = price_for_volume ob is_buy volume in
     bind_err (quantized_amount ea tp (qr_query_volume result)) (\<lambda>query_volume.
     bind_err (quantized_price ea tp (qr_result_price result)) (\<lambda>result_price.
     bind_err (quantized_amount ea tp (qr_result_volume result)) (\<lambda>result_volume.
       Inr \<lparr>qr_query_price = None, qr_query_volume = query_volume, qr_result_price = result_price,
            qr_result_volume = result_volume\<rparr>))))"

definition exchange_quote_volume_for_base_amount ::
  "exchange_api \<Rightarrow> string \<Rightarrow> bool \<Rightarrow> decimal \<Rightarrow> py_error + query_result" where
  "exchange_quote_volume_for_base_amount ea tp is_buy base_amount =
     bind_err (ea_order_book ea tp) (\<lambda>ob.
     let result = quote_volume_for_base_amount ob is_buy base_amount in
     bind_err (quantized_amount ea tp (qr_query_volume result)) (\<lambda>query_volume.
     bind_err (quantized_amount ea tp (qr_result_volume result)) (\<lambda>result_volume.
       Inr \<lparr>qr_query_price = None, qr_query_volume = query_volume, qr_result_price = None,
            qr_result_volume = result_volume\<rparr>)))"

definition exchange_volume_for_price :: "exchange_api \<Rightarrow> string \<Rightarrow> bool \<Rightarrow> decimal \<Rightarrow> py_error + query_result" where
  "exchange_volume_for_price ea tp is_buy price =
     bind_err (ea_order_book ea tp) (\<lambda>ob.
     let result = volume_for_price ob is_buy price in
     bind_err (quantized_price ea tp (qr_query_price result)) (\<lambda>query_price.
     bind_err (quantized_price ea tp (qr_result_price result)) (\<lambda>result_price.
     bind_err (quantized_amount ea tp (qr_result_volume result)) (\<lambda>result_volume.
       Inr \<lparr>qr_query_price = query_price, qr_query_volume = None, qr_result_price = result_price,
            qr_result_volume = result_volume\<rparr>))))"

text \<open>The code asks the book for the volume, not the quote volume.\<close>

definition exchange_quote_volume_for_price :: "exchange_api \<Rightarrow> string \<Rightarrow> bool \<Rightarrow> decimal \<Rightarrow> py_error + query_result" where
  "exchange_quote_volume_for_price ea tp is_buy price =
     bind_err (ea_order_book ea tp) (\<lambda>ob.
     let result = volume_for_price ob is_buy price in
     bind_err (quantized_price ea tp (qr_query_price result)) (\<lambda>query_price.
     bind_err (quantized_price ea tp (qr_result_price result)) (\<lambda>result_price.
     bind_err (quantized_amount ea tp (qr_result_volume result)) (\<lambda>result_volume.
       Inr \<lparr>qr_query_price = query_price, qr_query_volume = None, qr_result_price = result_price,
            qr_result_volume = result_volume\<rparr>))))"

text \<open>An entry's price is never NaN, so its rounding is not.\<close>

definition quantized_row :: "exchange_api \<Rightarrow> string \<Rightarrow> order_book_row \<Rightarrow> py_error + order_book_row" where
  "quantized_row ea tp entry =
     bind_err (quantized_price ea tp (Some (br_price entry))) (\<lambda>price.
     bind_err (quantize_order_amount (ea_size_quantum ea) tp (br_amount entry)) (\<lambda>amount.
       Inr \<lparr>br_price = the price, br_amount = amount, br_update_id = br_update_id entry\<rparr>))"

definition order_book_bid_entries :: "exchange_api \<Rightarrow> string \<Rightarrow> py_error + order_book_row list" where
  "order_book_bid_entries ea tp =
     bind_err (ea_order_book ea tp) (\<lambda>ob. map_err (quantized_row ea tp) (bid_entries ob))"

definition order_book_ask_entries :: "exchange_api \<Rightarrow> string \<Rightarrow> py_error + order_book_row list" where
  "order_book_ask_entries ea tp =
     bind_err (ea_order_book ea tp) (\<lambda>ob. map_err (quantized_row ea tp) (ask_entries ob))"

definition quote_price :: "exchange_api \<Rightarrow> string \<Rightarrow> bool \<Rightarrow> decimal \<Rightarrow> py_error + decimal option" where
  "quote_price ea tp is_buy amount =
     bind_err (exchange_vwap_for_volume ea tp is_buy amount) (\<lambda>result. Inr (qr_result_price result))"

definition order_price :: "exchange_api \<Rightarrow> string \<Rightarrow> bool \<Rightarrow> decimal \<Rightarrow> py_error + decimal option" where
  "order_price ea tp is_buy amount =
     bind_err (exchange_price_for_volume ea tp is_buy amount) (\<lambda>result. Inr (qr_result_price result))"

subsection \<open>Order types and symbols\<close>

definition get_maker_order_type :: "exchange_api \<Rightarrow> py_error + order_type" where
  "get_maker_order_type ea =
     (if LIMIT_MAKER \<in> set (ea_supported_order_types ea) then Inr LIMIT_MAKER
      else if LIMIT \<in> set (ea_supported_order_types ea) then Inr LIMIT
      else Inl RaisedException)"

definition get_taker_order_type :: "exchange_api \<Rightarrow> py_error + order_type" where
  "get_taker_order_type ea =
     (if MARKET \<in> set (ea_supported_order_types ea) then Inr MARKET
      else if LIMIT \<in> set (ea_supported_order_types ea) then Inr LIMIT
      else Inl RaisedException)"

text \<open>
  The map between the exchange's symbols and the trading pairs, a \<^verbatim>\<open>bidict\<close>; it is initialised on first
  use, \<open>initialized\<close> is what the initialisation leaves.
\<close>

definition trading_pair_symbol_map_ready :: "(string, string) pydict option \<Rightarrow> bool" where
  "trading_pair_symbol_map_ready m \<longleftrightarrow> (case m of None \<Rightarrow> False | Some d \<Rightarrow> 0 < length d)"

definition trading_pair_symbol_map ::
  "(string, string) pydict option \<Rightarrow> (string, string) pydict option \<Rightarrow> (string, string) pydict" where
  "trading_pair_symbol_map initialized m =
     (case (if trading_pair_symbol_map_ready m then m else initialized) of None \<Rightarrow> [] | Some d \<Rightarrow> d)"

definition all_trading_pairs :: "(string, string) pydict \<Rightarrow> string list" where
  "all_trading_pairs symbol_map = map snd symbol_map"

definition exchange_symbol_associated_to_pair :: "(string, string) pydict \<Rightarrow> string \<Rightarrow> py_error + string" where
  "exchange_symbol_associated_to_pair symbol_map tp =
     (case map_of (map (\<lambda>(k, v). (v, k)) symbol_map) tp of None \<Rightarrow> Inl KeyError | Some s \<Rightarrow> Inr s)"

definition trading_pair_associated_to_exchange_symbol :: "(string, string) pydict \<Rightarrow> string \<Rightarrow> py_error + string" where
  "trading_pair_associated_to_exchange_symbol symbol_map symbol =
     (case map_of symbol_map symbol of None \<Rightarrow> Inl KeyError | Some tp \<Rightarrow> Inr tp)"

definition last_traded_prices :: "(string \<Rightarrow> py_error + decimal) \<Rightarrow> string list \<Rightarrow> py_error + (string, decimal) pydict" where
  "last_traded_prices last_traded_price tps =
     bind_err (map_err last_traded_price tps) (\<lambda>results.
       Inr (fold (\<lambda>(tp, r). AList.update tp r) (zip tps results) []))"

subsection \<open>Prices between the quotes\<close>

lemma quantized_between:
  assumes "quantize_order_amount f tp x = Inr a" "\<And>y q. f tp y = Inr q \<Longrightarrow> 0 < q" "0 \<le> x"
  shows "0 \<le> a" "a \<le> x"
proof -
  obtain q where q: "f tp x = Inr q" "q \<noteq> 0" "a = of_int (truncate_rat (x / q)) * q"
    using assms(1) by (auto simp: quantize_order_amount_def floor_div_def err_simps)
  have "0 < q" using assms(2)[OF q(1)] .
  moreover have "truncate_rat (x / q) = \<lfloor>x / q\<rfloor>" using \<open>0 < q\<close> assms(3) by (simp add: truncate_rat_def)
  moreover have "of_int \<lfloor>x / q\<rfloor> * q \<le> x / q * q" using \<open>0 < q\<close> by (intro mult_right_mono) auto
  ultimately show "0 \<le> a" "a \<le> x" using q(3) assms(3) by simp_all
qed

lemma quantized_price_rounds:
  "ea_price_quantum ea tp p = Inr q \<Longrightarrow> 0 < q \<Longrightarrow> quantized_price ea tp (Some p) = Inr (Some (of_int (truncate_rat (p / q)) * q))"
  by (simp add: quantized_price_def quantize_order_price_def floor_div_def)

lemma truncated_multiple:
  assumes "0 < q"
  shows "\<bar>p - of_int (truncate_rat (p / q)) * q\<bar> < q" and "p \<le> p' \<Longrightarrow> of_int (truncate_rat (p / q)) * q \<le> of_int (truncate_rat (p' / q)) * q"
proof -
  have "p - of_int (truncate_rat (p / q)) * q = (p / q - of_int (truncate_rat (p / q))) * q"
    using assms by (simp add: left_diff_distrib)
  then have "\<bar>p - of_int (truncate_rat (p / q)) * q\<bar> = \<bar>p / q - of_int (truncate_rat (p / q))\<bar> * q"
    using assms by (simp add: abs_mult)
  then show "\<bar>p - of_int (truncate_rat (p / q)) * q\<bar> < q"
    using truncate_rat_bounds(2)[of "p / q"] assms mult_strict_right_mono[of "\<bar>p / q - of_int (truncate_rat (p / q))\<bar>" 1 q] by simp
  show "of_int (truncate_rat (p / q)) * q \<le> of_int (truncate_rat (p' / q)) * q" if "p \<le> p'"
    using assms that truncate_rat_mono[of "p / q" "p' / q"] by (simp add: divide_right_mono)
qed

text \<open>
  After a diff, a market with both sides has a mid price between its rounded bid and ask, and these are
  less than one price increment away from the best prices of the book; prices of an empty side are NaN.
\<close>

theorem mid_price_between:
  assumes "book_reachable dex ob" and "ea_order_book ea tp = Inr (apply_diffs bids asks update_id ob)"
    and "\<forall>p. ea_price_quantum ea tp p = Inr q" and "0 < q"
  shows "let bids' = bid_entries (apply_diffs bids asks update_id ob); asks' = ask_entries (apply_diffs bids asks update_id ob) in
    if bids' = [] \<or> asks' = [] then mid_price ea tp = Inr None
    else \<exists>bid ask mid. exchange_price ea tp False = Inr (Some bid) \<and> exchange_price ea tp True = Inr (Some ask) \<and>
      mid_price ea tp = Inr (Some mid) \<and> bid \<le> mid \<and> mid \<le> ask \<and>
      \<bar>br_price (hd bids') - bid\<bar> < q \<and> \<bar>br_price (hd asks') - ask\<bar> < q"
proof -
  let ?ob = "apply_diffs bids asks update_id ob"
  have ok: "book_ok ?ob" by (rule reachable_book_ok[OF book_reachable.diffs[OF assms(1)]])
  have unc: "uncrossed (ob_bid_book ?ob) (ob_ask_book ?ob)" by (rule apply_diffs_uncrossed[OF assms(1)])
  have price: "exchange_price ea tp b = (if entries ?ob b = [] then Inr None
      else Inr (Some (of_int (truncate_rat (br_price (hd (entries ?ob b)) / q)) * q)))" for b
    using ok quantized_price_rounds[OF spec[OF assms(3)] assms(4)]
    by (cases b) (auto simp: exchange_price_def assms(2) book_price_def entries_def ask_entries_def bid_entries_def
        book_ok_def best_recorded_def hd_rev Suc_le_eq)
  show ?thesis
  proof (cases "bid_entries ?ob = [] \<or> ask_entries ?ob = []")
    case True
    then show ?thesis
      using price[of True] price[of False]
      by (auto simp: mid_price_def entries_def nan_add_def split: if_splits)
  next
    case False
    then have "br_price (hd (bid_entries ?ob)) \<le> br_price (hd (ask_entries ?ob))"
      using unc by (auto simp: uncrossed_def bid_entries_def ask_entries_def hd_rev less_imp_le)
    note mono = truncated_multiple(2)[OF assms(4) this]
    let ?bid = "of_int (truncate_rat (br_price (hd (bid_entries ?ob)) / q)) * q"
    let ?ask = "of_int (truncate_rat (br_price (hd (ask_entries ?ob)) / q)) * q"
    have quotes: "exchange_price ea tp False = Inr (Some ?bid)" "exchange_price ea tp True = Inr (Some ?ask)"
      using price[of True] price[of False] False by (simp_all add: entries_def)
    then have "mid_price ea tp = Inr (Some ((?ask + ?bid) / 2))" by (simp add: mid_price_def nan_add_def)
    moreover have "a \<le> (b + a) / 2 \<and> (b + a) / 2 \<le> b" if "a \<le> b" for a b :: rat using that by simp
    note this[OF mono]
    ultimately have "\<exists>bid ask mid. exchange_price ea tp False = Inr (Some bid) \<and> exchange_price ea tp True = Inr (Some ask) \<and>
      mid_price ea tp = Inr (Some mid) \<and> bid \<le> mid \<and> mid \<le> ask \<and>
      \<bar>br_price (hd (bid_entries ?ob)) - bid\<bar> < q \<and> \<bar>br_price (hd (ask_entries ?ob)) - ask\<bar> < q"
      using quotes truncated_multiple(1)[OF assms(4)] by blast
    then show ?thesis using False by simp
  qed
qed

text \<open>The quote volume that a connector reports for a price is the base volume.\<close>

lemma quote_volume_query_is_volume_query:
  "exchange_quote_volume_for_price ea tp is_buy price = exchange_volume_for_price ea tp is_buy price"
  by (simp add: exchange_quote_volume_for_price_def exchange_volume_for_price_def)

definition sample_api :: exchange_api where
  "sample_api = \<lparr>ea_price_quantum = (\<lambda>_ _. Inr (1/100)), ea_size_quantum = (\<lambda>_ _. Inr (1/100)),
     ea_order_book = (\<lambda>_. Inr sample_diffed), ea_supported_order_types = [LIMIT]\<rparr>"

lemma mid_price_between_witness:
  "\<exists>mid. mid_price sample_api ''ETH-USDT'' = Inr (Some mid) \<and> 101 - 1/100 < mid \<and> mid < 103 + 1/100"
proof -
  have books: "bid_entries sample_diffed = [book_row 101 3 8, book_row 99 2 7]" by code_simp
  have asks: "ask_entries sample_diffed = [book_row 103 2 8]" by code_simp
  have "ea_order_book sample_api ''ETH-USDT'' = Inr (apply_diffs [book_row 101 3 8, book_row 98 0 8] [book_row 103 2 8] 8 sample_book)"
    by (simp add: sample_api_def sample_diffed_def)
  from mid_price_between[OF sample_book_reachable(1) this, of "1/100", folded sample_diffed_def]
  obtain bid ask mid where "mid_price sample_api ''ETH-USDT'' = Inr (Some mid)" "bid \<le> mid" "mid \<le> ask"
    "\<bar>101 - bid\<bar> < 1/100" "\<bar>103 - ask\<bar> < 1/100"
    by (auto simp: books asks sample_api_def)
  then have "101 - 1/100 < mid \<and> mid < 103 + 1/100" unfolding abs_less_iff by linarith
  then show ?thesis using \<open>mid_price sample_api _ = _\<close> by blast
qed

end
