(* ===== verification/Exchange_Py_Base.thy ===== *)
theory Exchange_Py_Base
  imports Exchange_Base Order_Tracker "HOL-Library.Multiset"
begin

text \<open>
  \<^verbatim>\<open>connector/exchange_py_base.py\<close>: the base class of the exchange connectors written in Python, how it
  places and cancels orders and keeps its order tracker.

  The exchange itself is the environment: \<^verbatim>\<open>_place_order\<close> and \<^verbatim>\<open>_place_cancel\<close> are requests whose answers
  are steps.  A coroutine that waits for an answer is an entry of \<open>px_placing\<close> or \<open>px_cancelling\<close>; the
  updates handed to \<^verbatim>\<open>process_order_update\<close> are tasks of the event loop, run in the order scheduled
  (\<open>px_tasks\<close>).  \<open>px_requests\<close> logs the orders sent.
\<close>

datatype requested_price = NoPrice | NanPrice | Price decimal

record order_request =
  rq_order_id :: string
  rq_trading_pair :: string
  rq_amount :: decimal
  rq_trade_type :: trade_type
  rq_order_type :: order_type
  rq_price :: requested_price

record 'c exchange_state =
  px_trading_rules :: "(string, trading_rule) pydict"
  px_order_books :: "(string, order_book) pydict"
  px_supported_order_types :: "order_type list"
  px_synchronous_cancel :: bool
  px_tracker :: "'c tracker"
  px_tasks :: "order_update list"
  px_placing :: "order_request list"
  px_cancelling :: "(string \<times> nat) list"
  px_requests :: "order_request list"
  px_last_timestamp :: seconds
  px_poll_notified :: bool

subsection \<open>Prices and amounts\<close>

definition trading_rule_of :: "'c exchange_state \<Rightarrow> string \<Rightarrow> py_error + trading_rule" where
  "trading_rule_of px tp = (case map_of (px_trading_rules px) tp of None \<Rightarrow> Inl KeyError | Some rule \<Rightarrow> Inr rule)"

definition get_order_price_quantum :: "'c exchange_state \<Rightarrow> string \<Rightarrow> decimal \<Rightarrow> py_error + decimal" where
  "get_order_price_quantum px tp price = bind_err (trading_rule_of px tp) (\<lambda>rule. Inr (rule_min_price_increment rule))"

definition get_order_size_quantum :: "'c exchange_state \<Rightarrow> string \<Rightarrow> decimal \<Rightarrow> py_error + decimal" where
  "get_order_size_quantum px tp order_size =
     bind_err (trading_rule_of px tp) (\<lambda>rule. Inr (rule_min_base_amount_increment rule))"

definition get_order_book :: "'c exchange_state \<Rightarrow> string \<Rightarrow> py_error + order_book" where
  "get_order_book px tp = (case map_of (px_order_books px) tp of None \<Rightarrow> Inl ValueError | Some ob \<Rightarrow> Inr ob)"

text \<open>The methods the base class calls.\<close>

definition exchange_api_of :: "'c exchange_state \<Rightarrow> exchange_api" where
  "exchange_api_of px =
     \<lparr>ea_price_quantum = get_order_price_quantum px, ea_size_quantum = get_order_size_quantum px,
      ea_order_book = get_order_book px, ea_supported_order_types = px_supported_order_types px\<rparr>"

text \<open>Comparing NaN raises \<^verbatim>\<open>InvalidOperation\<close>.\<close>

definition quantized_order_amount :: "'c exchange_state \<Rightarrow> string \<Rightarrow> decimal \<Rightarrow> decimal \<Rightarrow> py_error + decimal" where
  "quantized_order_amount px tp amount price =
     bind_err (trading_rule_of px tp) (\<lambda>rule.
     bind_err (quantize_order_amount (get_order_size_quantum px) tp amount) (\<lambda>quantized_amount.
       if quantized_amount < rule_min_order_size rule then Inr 0
       else
         bind_err (if price = 0
                   then bind_err (exchange_price (exchange_api_of px) tp False) (\<lambda>current_price.
                     case current_price of None \<Rightarrow> Inl InvalidOperation | Some p \<Rightarrow> Inr (p * quantized_amount))
                   else Inr (price * quantized_amount)) (\<lambda>notional_size.
           if notional_size < rule_min_notional_size rule * (101 / 100) then Inr 0 else Inr quantized_amount)))"

definition quantized_order_price :: "'c exchange_state \<Rightarrow> string \<Rightarrow> requested_price \<Rightarrow> py_error + requested_price" where
  "quantized_order_price px tp price =
     (case price of
        NoPrice \<Rightarrow> Inl AttributeError
      | NanPrice \<Rightarrow> Inr NanPrice
      | Price p \<Rightarrow>
          bind_err (quantize_order_price (get_order_price_quantum px) tp (Some p)) (\<lambda>p'.
            Inr (case p' of None \<Rightarrow> NanPrice | Some x \<Rightarrow> Price x)))"

subsection \<open>Placing orders\<close>

definition schedule :: "order_update \<Rightarrow> 'c exchange_state \<Rightarrow> 'c exchange_state" where
  "schedule ou px = px\<lparr>px_tasks := px_tasks px @ [ou]\<rparr>"

definition update_order_after_failure :: "string \<Rightarrow> string \<Rightarrow> 'c exchange_state \<Rightarrow> 'c exchange_state" where
  "update_order_after_failure coid tp px =
     schedule \<lparr>ou_trading_pair = tp, ou_update_timestamp = tr_now (px_tracker px), ou_new_state = FAILED,
               ou_client_order_id = Some coid, ou_exchange_order_id = None\<rparr> px"

text \<open>A NaN price of an order is kept as no price; the order only carries it to its events.\<close>

definition recorded_price :: "requested_price \<Rightarrow> decimal option" where
  "recorded_price price = (case price of Price p \<Rightarrow> Some p | _ \<Rightarrow> None)"

definition exchange_start_tracking ::
  "string \<Rightarrow> string option \<Rightarrow> string \<Rightarrow> trade_type \<Rightarrow> requested_price \<Rightarrow> decimal \<Rightarrow> order_type \<Rightarrow>
   'c exchange_state \<Rightarrow> 'c exchange_state" where
  "exchange_start_tracking coid exid tp side price amount ot px =
     (let t = px_tracker px;
          order = new_in_flight_order coid tp ot side amount (tr_now t) (recorded_price price) exid PENDING_CREATE 1 NIL_POSITION
      in px\<lparr>px_tracker := start_tracking_order (length (tr_heap t)) (t\<lparr>tr_heap := tr_heap t @ [order]\<rparr>)\<rparr>)"

definition exchange_stop_tracking :: "'c cache_ops \<Rightarrow> string \<Rightarrow> 'c exchange_state \<Rightarrow> 'c exchange_state" where
  "exchange_stop_tracking ops coid px = px\<lparr>px_tracker := stop_tracking_order ops coid (px_tracker px)\<rparr>"

text \<open>The price and amount an order is created with.\<close>

definition prepared_order ::
  "'c exchange_state \<Rightarrow> string \<Rightarrow> order_type \<Rightarrow> decimal \<Rightarrow> requested_price \<Rightarrow> py_error + (requested_price \<times> decimal)" where
  "prepared_order px tp ot amount price =
     (if ot \<in> {LIMIT, LIMIT_MAKER} then
        bind_err (quantized_order_price px tp price) (\<lambda>price'.
        bind_err (quantized_order_amount px tp amount (case price' of Price p \<Rightarrow> p | _ \<Rightarrow> 0)) (\<lambda>amount'.
          Inr (price', amount')))
      else bind_err (quantized_order_amount px tp amount 0) (\<lambda>amount'. Inr (price, amount')))"

definition notional_too_small :: "trading_rule \<Rightarrow> decimal \<Rightarrow> requested_price \<Rightarrow> py_error + bool" where
  "notional_too_small rule amount price =
     (case price of
        NoPrice \<Rightarrow> Inr False
      | NanPrice \<Rightarrow> Inl InvalidOperation
      | Price p \<Rightarrow> Inr (amount * p < rule_min_notional_size rule))"

text \<open>
  \<^verbatim>\<open>_create_order\<close> up to the request.  The second component is the exception raised, after the effects
  before it.  A notional that is too small schedules the failure of the order and goes on to send it.
\<close>

definition create_order ::
  "trade_type \<Rightarrow> string \<Rightarrow> string \<Rightarrow> decimal \<Rightarrow> order_type \<Rightarrow> requested_price \<Rightarrow>
   'c exchange_state \<Rightarrow> 'c exchange_state \<times> py_error option" where
  "create_order side coid tp amount ot price px =
     (case trading_rule_of px tp of
        Inl e \<Rightarrow> (px, Some e)
      | Inr rule \<Rightarrow>
          (case prepared_order px tp ot amount price of
             Inl e \<Rightarrow> (px, Some e)
           | Inr (price', amount') \<Rightarrow>
               let px1 = exchange_start_tracking coid None tp side price' amount' ot px in
               if ot \<notin> set (px_supported_order_types px) then (update_order_after_failure coid tp px1, None)
               else if amount' < rule_min_order_size rule then (update_order_after_failure coid tp px1, None)
               else
                 (case notional_too_small rule amount' price' of
                    Inl e \<Rightarrow> (px1, Some e)
                  | Inr too_small \<Rightarrow>
                      let px2 = (if too_small then update_order_after_failure coid tp px1 else px1);
                          request = \<lparr>rq_order_id = coid, rq_trading_pair = tp, rq_amount = amount', rq_trade_type = side,
                                     rq_order_type = ot, rq_price = price'\<rparr>
                      in (px2\<lparr>px_placing := px_placing px2 @ [request], px_requests := px_requests px2 @ [request]\<rparr>,
                          None))))"

definition buy :: "string \<Rightarrow> string \<Rightarrow> decimal \<Rightarrow> order_type \<Rightarrow> requested_price \<Rightarrow>
   'c exchange_state \<Rightarrow> 'c exchange_state \<times> py_error option" where
  "buy coid tp amount ot price px = create_order BUY coid tp amount ot price px"

definition sell :: "string \<Rightarrow> string \<Rightarrow> decimal \<Rightarrow> order_type \<Rightarrow> requested_price \<Rightarrow>
   'c exchange_state \<Rightarrow> 'c exchange_state \<times> py_error option" where
  "sell coid tp amount ot price px = create_order SELL coid tp amount ot price px"

text \<open>\<^verbatim>\<open>_create_order\<close> after the answer to its request: an exchange order id and a time, or an exception.\<close>

definition remove_at :: "nat \<Rightarrow> 'a list \<Rightarrow> 'a list" where
  "remove_at i xs = take i xs @ drop (Suc i) xs"

definition order_answered :: "nat \<Rightarrow> (string \<times> seconds) option \<Rightarrow> 'c exchange_state \<Rightarrow> 'c exchange_state" where
  "order_answered i answer px =
     (let request = px_placing px ! i;
          px1 = px\<lparr>px_placing := remove_at i (px_placing px)\<rparr>
      in case answer of
           Some (exid, update_timestamp) \<Rightarrow>
             schedule \<lparr>ou_trading_pair = rq_trading_pair request, ou_update_timestamp = update_timestamp,
                       ou_new_state = OPEN, ou_client_order_id = Some (rq_order_id request),
                       ou_exchange_order_id = Some exid\<rparr> px1
         | None \<Rightarrow> update_order_after_failure (rq_order_id request) (rq_trading_pair request) px1)"

definition run_task :: "'c cache_ops \<Rightarrow> 'c exchange_state \<Rightarrow> 'c exchange_state" where
  "run_task ops px =
     (case px_tasks px of
        [] \<Rightarrow> px
      | ou # tasks \<Rightarrow> px\<lparr>px_tasks := tasks, px_tracker := fst (process_order_update ops ou (px_tracker px))\<rparr>)"

subsection \<open>Cancelling orders\<close>

datatype cancel_answer = Cancelled bool | CancelTimeout | CancelError

definition execute_cancel :: "string \<Rightarrow> 'c exchange_state \<Rightarrow> 'c exchange_state" where
  "execute_cancel coid px =
     (case fetch_tracked_order coid (px_tracker px) of
        None \<Rightarrow> px
      | Some r \<Rightarrow> px\<lparr>px_cancelling := px_cancelling px @ [(coid, r)]\<rparr>)"

text \<open>The rest of \<^verbatim>\<open>_execute_cancel\<close>, with the value it returns.\<close>

definition cancel_answered ::
  "'c cache_ops \<Rightarrow> nat \<Rightarrow> cancel_answer \<Rightarrow> 'c exchange_state \<Rightarrow> 'c exchange_state \<times> string option" where
  "cancel_answered ops i answer px =
     (let (coid, r) = px_cancelling px ! i;
          px1 = px\<lparr>px_cancelling := remove_at i (px_cancelling px)\<rparr>
      in case answer of
           Cancelled cancelled \<Rightarrow>
             (if cancelled then
                (schedule \<lparr>ou_trading_pair = ifo_trading_pair (order_at (px_tracker px) r),
                           ou_update_timestamp = tr_now (px_tracker px),
                           ou_new_state = (if px_synchronous_cancel px then CANCELED else PENDING_CANCEL),
                           ou_client_order_id = Some coid, ou_exchange_order_id = None\<rparr> px1, Some coid)
              else (px1, None))
         | CancelTimeout \<Rightarrow>
             (px1\<lparr>px_tracker := fst (process_order_not_found ops coid (px_tracker px))\<rparr>, None)
         | CancelError \<Rightarrow> (px1, None))"

definition incomplete_orders :: "'c exchange_state \<Rightarrow> string list" where
  "incomplete_orders px =
     map fst [(coid, r) \<leftarrow> tr_in_flight (px_tracker px). \<not> is_done (order_at (px_tracker px) r)]"

text \<open>
  The results of \<^verbatim>\<open>cancel_all\<close>: \<open>None\<close> for the whole when the time is up or gathering raises, and of each
  order an exception (\<open>Inl\<close>) or what its cancellation returned.  The identifiers left are a set;
  removing one that is not there raises and ends the loop.
\<close>

fun collect_cancellations ::
  "(py_error + string option) list \<Rightarrow> string list \<Rightarrow> (string \<times> bool) list \<Rightarrow> string list \<times> (string \<times> bool) list" where
  "collect_cancellations [] order_id_set successful = (order_id_set, successful)"
| "collect_cancellations (Inl e # crs) order_id_set successful = collect_cancellations crs order_id_set successful"
| "collect_cancellations (Inr None # crs) order_id_set successful = collect_cancellations crs order_id_set successful"
| "collect_cancellations (Inr (Some coid) # crs) order_id_set successful =
     (if coid \<in> set order_id_set
      then collect_cancellations crs (removeAll coid order_id_set) (successful @ [(coid, True)])
      else (order_id_set, successful))"

definition cancel_all ::
  "(py_error + string option) list option \<Rightarrow> 'c exchange_state \<Rightarrow> (string \<times> bool) list" where
  "cancel_all results px =
     (let (order_id_set, successful) =
        (case results of
           None \<Rightarrow> (remdups (incomplete_orders px), [])
         | Some crs \<Rightarrow> collect_cancellations crs (remdups (incomplete_orders px)) [])
      in successful @ map (\<lambda>oid. (oid, False)) order_id_set)"

subsection \<open>Polling and upkeep\<close>

definition SHORT_POLL_INTERVAL :: seconds where "SHORT_POLL_INTERVAL = 5"
definition LONG_POLL_INTERVAL :: seconds where "LONG_POLL_INTERVAL = 120"
definition TICK_INTERVAL_LIMIT :: seconds where "TICK_INTERVAL_LIMIT = 60"

definition exchange_tick :: "seconds \<Rightarrow> seconds \<Rightarrow> 'c exchange_state \<Rightarrow> 'c exchange_state" where
  "exchange_tick user_stream_last_recv_time timestamp px =
     (let last_recv_diff = timestamp - user_stream_last_recv_time;
          poll_interval = (if TICK_INTERVAL_LIMIT < last_recv_diff then SHORT_POLL_INTERVAL else LONG_POLL_INTERVAL);
          last_tick = truncate_rat (px_last_timestamp px / poll_interval);
          current_tick = truncate_rat (timestamp / poll_interval)
      in px\<lparr>px_poll_notified := (px_poll_notified px \<or> last_tick < current_tick), px_last_timestamp := timestamp\<rparr>)"

definition stop_network :: "'c exchange_state \<Rightarrow> 'c exchange_state" where
  "stop_network px = px\<lparr>px_last_timestamp := 0, px_poll_notified := False\<rparr>"

text \<open>One round of the status polling loop that fetched its updates: it waits for the notifier and renews it.\<close>

definition status_polled :: "'c exchange_state \<Rightarrow> 'c exchange_state" where
  "status_polled px = px\<lparr>px_poll_notified := False\<rparr>"

definition update_trading_rules :: "trading_rule list \<Rightarrow> 'c exchange_state \<Rightarrow> 'c exchange_state" where
  "update_trading_rules rules px =
     px\<lparr>px_trading_rules := fold (\<lambda>rule. AList.update (rule_trading_pair rule) rule) rules []\<rparr>"

definition tracking_states :: "'c exchange_state \<Rightarrow> (string, json) pydict" where
  "tracking_states px =
     map (\<lambda>(key, r). (key, in_flight_order_to_json (order_at (px_tracker px) r)))
       [(key, r) \<leftarrow> tr_in_flight (px_tracker px). \<not> is_done (order_at (px_tracker px) r)]"

definition exchange_restore_tracking_states :: "(string, json) pydict \<Rightarrow> 'c exchange_state \<Rightarrow> py_error + 'c exchange_state" where
  "exchange_restore_tracking_states saved_states px =
     bind_err (restore_tracking_states (map snd saved_states) (px_tracker px)) (\<lambda>t. Inr (px\<lparr>px_tracker := t\<rparr>))"

definition exchange_ready :: "bool \<Rightarrow> bool \<Rightarrow> bool \<Rightarrow> nat \<Rightarrow> seconds \<Rightarrow> 'c exchange_state \<Rightarrow> bool" where
  "exchange_ready symbol_map_ready order_books_ready trading_required balances last_recv_time px \<longleftrightarrow>
     symbol_map_ready \<and> order_books_ready \<and> (\<not> trading_required \<or> 0 < balances) \<and>
     (if trading_required then 0 < length (px_trading_rules px) else True) \<and>
     (if trading_required then 0 < last_recv_time else True)"

text \<open>
  \<^verbatim>\<open>_update_all_balances\<close> of the connector's balances: \<open>fetched\<close> are the balances of the account and the
  available ones.
\<close>

definition update_all_balances ::
  "(string \<rightharpoonup> decimal) \<times> (string \<rightharpoonup> decimal) \<Rightarrow> seconds \<Rightarrow> connector \<Rightarrow> connector" where
  "update_all_balances fetched now cn =
     (let cn1 = cn\<lparr>cn_account_balances := fst fetched, cn_account_available_balances := snd fetched\<rparr>
      in if \<not> cn_real_time_balance_update cn1
         then cn1\<lparr>cn_in_flight_orders_snapshot := Some (cn_in_flight_orders cn1),
                  cn_in_flight_orders_snapshot_timestamp := now\<rparr>
         else cn1)"

subsection \<open>Steps and reachable connectors\<close>

text \<open>
  What happens to a connector: strategies create and cancel orders under new identifiers, the exchange
  answers, tasks run, updates of the user stream arrive, and rules, books and time change.
\<close>

inductive exchange_step :: "'c cache_ops \<Rightarrow> 'c exchange_state \<Rightarrow> 'c exchange_state \<Rightarrow> bool" for ops where
  create: "split_hb_trading_pair tp = Inr (b, q) \<Longrightarrow> coid \<notin> ifo_client_order_id ` set (tr_heap (px_tracker px)) \<Longrightarrow>
     exchange_step ops px (fst (create_order side coid tp amount ot price px))"
| answer: "i < length (px_placing px) \<Longrightarrow> exchange_step ops px (order_answered i a px)"
| task: "exchange_step ops px (run_task ops px)"
| cancel: "exchange_step ops px (execute_cancel coid px)"
| cancelled: "i < length (px_cancelling px) \<Longrightarrow> exchange_step ops px (fst (cancel_answered ops i ca px))"
| stop: "exchange_step ops px (exchange_stop_tracking ops coid px)"
| trade: "exchange_step ops px (px\<lparr>px_tracker := process_trade_update ops tu (px_tracker px)\<rparr>)"
| resume: "can_resume i (px_tracker px) \<Longrightarrow>
     exchange_step ops px (px\<lparr>px_tracker := fst (resume_order_update ops i (px_tracker px))\<rparr>)"
| update: "exchange_step ops px (schedule ou px)"
| expire: "set (cache_items ops c) \<subseteq> set (cache_items ops (tr_cached (px_tracker px))) \<Longrightarrow>
     exchange_step ops px (px\<lparr>px_tracker := (px_tracker px)\<lparr>tr_cached := c\<rparr>\<rparr>)"
| time: "tr_now (px_tracker px) \<le> now \<Longrightarrow>
     exchange_step ops px (exchange_tick recv now (px\<lparr>px_tracker := (px_tracker px)\<lparr>tr_now := now\<rparr>\<rparr>))"
| polled: "exchange_step ops px (status_polled px)"
| stopped: "exchange_step ops px (stop_network px)"
| rules: "exchange_step ops px (update_trading_rules rs px)"
| books: "exchange_step ops px (px\<lparr>px_order_books := obs\<rparr>)"

inductive exchange_reachable :: "'c cache_ops \<Rightarrow> 'c exchange_state \<Rightarrow> bool" for ops where
  init: "cache_items ops c = [] \<Longrightarrow> px_tracker px = init_tracker c now \<Longrightarrow> px_tasks px = [] \<Longrightarrow> px_placing px = [] \<Longrightarrow>
     px_cancelling px = [] \<Longrightarrow> px_requests px = [] \<Longrightarrow> exchange_reachable ops px"
| step: "exchange_reachable ops px \<Longrightarrow> exchange_step ops px px' \<Longrightarrow> exchange_reachable ops px'"

subsection \<open>What an operation does to the tracker\<close>

lemma schedule_sel [simp]:
  "px_tracker (schedule ou px) = px_tracker px" "px_placing (schedule ou px) = px_placing px"
  "px_requests (schedule ou px) = px_requests px" "px_cancelling (schedule ou px) = px_cancelling px"
  "px_tasks (schedule ou px) = px_tasks px @ [ou]"
  "px_tracker (update_order_after_failure coid tp px) = px_tracker px"
  "px_placing (update_order_after_failure coid tp px) = px_placing px"
  "px_requests (update_order_after_failure coid tp px) = px_requests px"
  by (simp_all add: schedule_def update_order_after_failure_def)

lemma start_tracking_sel [simp]:
  "px_requests (exchange_start_tracking coid exid tp side price amount ot px) = px_requests px"
  "px_placing (exchange_start_tracking coid exid tp side price amount ot px) = px_placing px"
  "px_tasks (exchange_start_tracking coid exid tp side price amount ot px) = px_tasks px"
  by (simp_all add: exchange_start_tracking_def Let_def)

text \<open>Creating an order leaves the tracker alone or tracks the new order, open and under its identifier.\<close>

lemma create_order_tracker:
  "px_tracker (fst (create_order side coid tp amount ot price px)) = px_tracker px \<or>
   (\<exists>price' amount'. px_tracker (fst (create_order side coid tp amount ot price px)) =
      px_tracker (exchange_start_tracking coid None tp side price' amount' ot px))"
  by (auto simp: create_order_def Let_def split: sum.splits prod.splits)

lemma start_tracking_step:
  assumes "split_hb_trading_pair tp = Inr (b, q)" "coid \<notin> ifo_client_order_id ` set (tr_heap (px_tracker px))"
  shows "tracker_step ops (px_tracker px) (px_tracker (exchange_start_tracking coid None tp side price amount ot px))"
  unfolding exchange_start_tracking_def Let_def
  by (simp, rule step_track[OF refl _ assms]) (simp add: new_in_flight_order_def is_open_def)

lemma tracker_step_process:
  "tracker_reachable ops t \<Longrightarrow> tracker_reachable ops (fst (process_order_update ops ou t))"
  "tracker_reachable ops t \<Longrightarrow> tracker_reachable ops (fst (process_order_not_found ops coid t))"
  "tracker_reachable ops t \<Longrightarrow> tracker_reachable ops (process_trade_update ops tu t)"
  "tracker_reachable ops t \<Longrightarrow> tracker_reachable ops (stop_tracking_order ops coid t)"
  by (blast intro: reach_step tracker_step.intros)+

lemma exchange_step_tracker:
  assumes "exchange_step ops px px'" "tracker_reachable ops (px_tracker px)"
  shows "tracker_reachable ops (px_tracker px')"
  using assms
proof (cases rule: exchange_step.cases)
  case (create tp b q coid side amount ot price)
  then show ?thesis
    using assms(2) create_order_tracker[of side coid tp amount ot price px]
      start_tracking_step[OF create(2,3)] by (metis reach_step)
next
  case (answer i a)
  then show ?thesis using assms(2)
    by (auto simp: order_answered_def Let_def split: option.split)
next
  case task
  then show ?thesis using assms(2) by (auto simp: run_task_def tracker_step_process split: list.split)
next
  case (cancel coid)
  then show ?thesis using assms(2) by (auto simp: execute_cancel_def split: option.split)
next
  case (cancelled i ca)
  then show ?thesis using assms(2)
    by (auto simp: cancel_answered_def Let_def tracker_step_process split: cancel_answer.split prod.split)
next
  case (resume i)
  then show ?thesis using assms(2) by (auto intro: reach_step step_resume)
next
  case (expire c)
  then show ?thesis using assms(2) by (auto intro: reach_step step_expire)
next
  case (time now recv)
  then show ?thesis using assms(2) by (auto simp: exchange_tick_def Let_def intro: reach_step step_time)
qed (simp_all add: exchange_stop_tracking_def status_polled_def stop_network_def update_trading_rules_def
    tracker_step_process)

lemma reachable_tracker: "exchange_reachable ops px \<Longrightarrow> tracker_reachable ops (px_tracker px)"
proof (induction rule: exchange_reachable.induct)
  case (init c px now)
  then show ?case by (simp add: reach_init)
next
  case (step px px')
  then show ?case by (blast intro: exchange_step_tracker)
qed

text \<open>
  Whatever the strategies, the exchange and the clock do, the order tracker inside a connector only ever
  takes the steps of a tracker: in every reachable connector it satisfies the tracker's invariant, and the
  orders it has in flight are open and found under their client order id.
\<close>

theorem exchange_tracker_reachable:
  assumes "cache_contract ops" and "exchange_reachable ops px"
  shows "tracker_reachable ops (px_tracker px) \<and> tracker_inv ops (px_tracker px)"
  using reachable_tracker[OF assms(2)] reachable_inv[OF _ assms(1)] by blast

subsection \<open>Placing orders\<close>

lemma quantized_amount_cases:
  assumes "quantized_order_amount px tp amount price = Inr amount'" "trading_rule_of px tp = Inr rule"
    and "0 < rule_min_base_amount_increment rule" "0 \<le> amount"
  shows "\<exists>n::nat. amount' = of_nat n * rule_min_base_amount_increment rule" "0 \<le> amount'" "amount' \<le> amount"
    and "amount' \<noteq> 0 \<Longrightarrow> rule_min_order_size rule \<le> amount'"
    and "amount' \<noteq> 0 \<Longrightarrow> price \<noteq> 0 \<Longrightarrow> rule_min_notional_size rule * (101 / 100) \<le> price * amount'"
proof -
  let ?q = "rule_min_base_amount_increment rule"
  obtain n :: nat where n: "floor_div amount ?q = Inr (of_nat n)" "of_nat n * ?q \<le> amount"
    using floor_multiple[OF assms(3,4)] by metis
  then have run: "quantize_order_amount (get_order_size_quantum px) tp amount = Inr (of_nat n * ?q)"
    by (simp add: quantize_order_amount_def get_order_size_quantum_def assms(2))
  have cases: "amount' = 0 \<or> (amount' = of_nat n * ?q \<and> rule_min_order_size rule \<le> amount' \<and>
      (price \<noteq> 0 \<longrightarrow> rule_min_notional_size rule * (101 / 100) \<le> price * amount'))"
    using assms(1) run by (auto simp: quantized_order_amount_def assms(2) err_simps split: if_splits)
  then show "\<exists>n::nat. amount' = of_nat n * ?q" by (auto intro: exI[of _ n] exI[of _ 0])
  have "0 \<le> of_nat n * ?q" using assms(3) by simp
  then show "0 \<le> amount'" "amount' \<le> amount" using cases n(2) assms(4) by auto
  show "amount' \<noteq> 0 \<Longrightarrow> rule_min_order_size rule \<le> amount'"
    "amount' \<noteq> 0 \<Longrightarrow> price \<noteq> 0 \<Longrightarrow> rule_min_notional_size rule * (101 / 100) \<le> price * amount'"
    using cases by auto
qed

lemma quantized_price_multiple:
  assumes "quantized_order_price px tp price = Inr (Price p)" "trading_rule_of px tp = Inr rule"
    and "0 < rule_min_price_increment rule"
  shows "\<exists>p0 (n::int). price = Price p0 \<and> p = of_int n * rule_min_price_increment rule \<and>
           \<bar>p\<bar> \<le> \<bar>p0\<bar> \<and> \<bar>p0 - p\<bar> < rule_min_price_increment rule"
proof -
  let ?q = "rule_min_price_increment rule"
  obtain p0 where p0: "price = Price p0" "p = of_int (truncate_rat (p0 / ?q)) * ?q"
    using assms by (auto simp: quantized_order_price_def quantize_order_price_def get_order_price_quantum_def
        floor_div_def err_simps split: requested_price.splits option.splits)
  let ?n = "truncate_rat (p0 / ?q)"
  have "\<bar>of_int ?n\<bar> * ?q \<le> \<bar>p0\<bar>"
    using truncate_rat_bounds(1)[of "p0 / ?q"] assms(3) by (simp add: abs_divide pos_le_divide_eq)
  then have "\<bar>p\<bar> \<le> \<bar>p0\<bar>" using assms(3) p0(2) by (simp add: abs_mult)
  then show ?thesis
    using p0 truncated_multiple(1)[OF assms(3), of p0] by (intro exI[of _ p0] exI[of _ ?n]) simp
qed

text \<open>
  C23: an order that a connector sends to the exchange is of a supported type; when the trading rule asks for a positive
  minimum size, its amount is a positive multiple of the increment, not below the minimum and not above the amount asked
  for.  The price of a limit order is a multiple of its increment, rounded towards zero by less than one increment, and,
  unless it is rounded to zero, the notional is at least the minimum and a safety margin of one percent.  Nothing is
  claimed of the notional of market orders, which may be sent below the minimum, nor of the maximum size of the rule,
  which no line checks.
\<close>

theorem submitted_order_respects_rules:
  assumes "create_order side coid tp amount ot price px = (px', err)"
    and "px_requests px' = px_requests px @ [r]"
    and "trading_rule_of px tp = Inr rule" and "0 < rule_min_base_amount_increment rule"
    and "0 < rule_min_price_increment rule" and "0 \<le> amount" and "0 < rule_min_order_size rule"
  shows "rq_order_id r = coid \<and> rq_trading_pair r = tp \<and> rq_trade_type r = side \<and> rq_order_type r = ot \<and>
    ot \<in> set (px_supported_order_types px) \<and>
    (\<exists>n::nat. 0 < n \<and> rq_amount r = of_nat n * rule_min_base_amount_increment rule) \<and>
    rule_min_order_size rule \<le> rq_amount r \<and> rq_amount r \<le> amount \<and>
    (ot \<noteq> MARKET \<longrightarrow> (\<exists>p0 p (n::int). price = Price p0 \<and> rq_price r = Price p \<and>
       p = of_int n * rule_min_price_increment rule \<and> \<bar>p\<bar> \<le> \<bar>p0\<bar> \<and> \<bar>p0 - p\<bar> < rule_min_price_increment rule \<and>
       (p \<noteq> 0 \<longrightarrow> rule_min_notional_size rule * (101 / 100) \<le> p * rq_amount r)))"
proof -
  obtain price' amount' where prep: "prepared_order px tp ot amount price = Inr (price', amount')"
    using assms(1-3) by (auto simp: create_order_def split: sum.splits)
  have r: "r = \<lparr>rq_order_id = coid, rq_trading_pair = tp, rq_amount = amount', rq_trade_type = side,
      rq_order_type = ot, rq_price = price'\<rparr>" "ot \<in> set (px_supported_order_types px)"
    "rule_min_order_size rule \<le> amount'" "price' \<noteq> NanPrice"
    using assms(1-3) prep by (auto simp: create_order_def Let_def notional_too_small_def split: if_splits requested_price.splits)
  obtain pr where amt: "quantized_order_amount px tp amount pr = Inr amount'"
    and pr: "ot \<noteq> MARKET \<Longrightarrow> pr = (case price' of Price p \<Rightarrow> p | _ \<Rightarrow> 0) \<and> quantized_order_price px tp price = Inr price'"
    using prep by (cases ot) (auto simp: prepared_order_def err_simps)
  note am = quantized_amount_cases[OF amt assms(3,4,6)]
  have pos: "0 < amount'" using r(3) assms(7) by simp
  obtain n :: nat where n: "amount' = of_nat n * rule_min_base_amount_increment rule" using am(1) by blast
  have "0 < n" using n pos by (cases n) simp_all
  have "\<exists>p0 p (n::int). price = Price p0 \<and> price' = Price p \<and>
       p = of_int n * rule_min_price_increment rule \<and> \<bar>p\<bar> \<le> \<bar>p0\<bar> \<and> \<bar>p0 - p\<bar> < rule_min_price_increment rule \<and>
       (p \<noteq> 0 \<longrightarrow> rule_min_notional_size rule * (101 / 100) \<le> p * amount')" if limit: "ot \<noteq> MARKET"
  proof -
    obtain p where p: "price' = Price p"
      using pr[OF limit] r(4) by (cases price) (auto simp: quantized_order_price_def err_simps split: option.splits)
    then show ?thesis
      using quantized_price_multiple[OF _ assms(3,5), of price p] pr[OF limit] am(5) pos by auto
  qed
  then show ?thesis using r am(3) n \<open>0 < n\<close> by auto
qed

subsection \<open>Orders that are rejected\<close>

lemma run_single_task:
  "px_tasks px = [ou] \<Longrightarrow> px_tracker (run_task ops px) = fst (process_order_update ops ou (px_tracker px))"
  "px_requests (run_task ops px) = px_requests px" "px_placing (run_task ops px) = px_placing px"
  by (simp_all add: run_task_def split: list.split)

lemma tracked_new_order:
  assumes "coid \<notin> ifo_client_order_id ` set (tr_heap (px_tracker px))"
    and "t' = px_tracker (exchange_start_tracking coid exid tp side price amount ot px)"
    and "r = length (tr_heap (px_tracker px))"
  shows "fetch_tracked_order coid t' = Some r" "ifo_amount (order_at t' r) = amount"
    "ifo_executed_amount_base (order_at t' r) = 0" "ifo_current_state (order_at t' r) = PENDING_CREATE"
    "ifo_order_type (order_at t' r) = ot" "tr_events t' = tr_events (px_tracker px)" "tr_now t' = tr_now (px_tracker px)"
  by (simp_all add: assms(2,3) exchange_start_tracking_def start_tracking_order_def fetch_tracked_order_def
      order_at_def update_conv new_in_flight_order_def Let_def)

text \<open>The failure of an order just tracked: one failure event, and the order is in the cache.\<close>

lemma new_order_fails:
  assumes "cache_contract ops" "tracker_reachable ops (px_tracker px)" "px_tasks px = []"
    and "split_hb_trading_pair tp = Inr (b, q)" "coid \<notin> ifo_client_order_id ` set (tr_heap (px_tracker px))"
    and "coid \<noteq> []" "0 \<le> amount"
    and "t' = px_tracker (run_task ops (update_order_after_failure coid tp
                    (exchange_start_tracking coid None tp side price amount ot px)))"
  shows "tr_events t' = tr_events (px_tracker px) @ [OrderFailureEvent (tr_now (px_tracker px)) coid ot]"
    and "fetch_tracked_order coid t' = None" "fetch_cached_order ops coid t' = Some (length (tr_heap (px_tracker px)))"
proof -
  let ?px = "exchange_start_tracking coid None tp side price amount ot px"
  let ?r = "length (tr_heap (px_tracker px))"
  let ?ou = "\<lparr>ou_trading_pair = tp, ou_update_timestamp = tr_now (px_tracker ?px), ou_new_state = FAILED,
               ou_client_order_id = Some coid, ou_exchange_order_id = None\<rparr>"
  note new = tracked_new_order[OF assms(5) refl refl, of None tp side price amount ot]
  have inv: "tracker_inv ops (px_tracker ?px)"
    by (rule reachable_inv[OF reach_step[OF assms(2) start_tracking_step[OF assms(4,5)]] assms(1)])
  have run: "t' = fst (process_order_update ops ?ou (px_tracker ?px))"
    unfolding assms(8) update_order_after_failure_def
    by (subst run_single_task(1)[of _ ?ou]) (simp_all add: assms(3))
  have pending: "\<not> is_done (order_at (px_tracker ?px) ?r) \<or> ifo_amount (order_at (px_tracker ?px) ?r) = 0"
    using new(2-4) assms(7) by (auto simp: is_done_def fully_executed_def isclose_def)
  note fin = terminal_update[OF assms(1) inv new(1), of ?ou]
  show "tr_events t' = tr_events (px_tracker px) @ [OrderFailureEvent (tr_now (px_tracker px)) coid ot]"
    "fetch_tracked_order coid t' = None" "fetch_cached_order ops coid t' = Some ?r"
    using fin(1,3,4) pending assms(6) new by (simp_all add: run)
qed

text \<open>
  C38: whatever check of \<^verbatim>\<open>_create_order\<close> rejects an order - its type is not supported, its amount is reduced below the
  minimum order size, its notional is below the minimum - one failure event is triggered for it and it is moved from the
  tracked orders to the cache, when its failure is the only update waiting.  In the first two cases nothing is sent; in
  the third the order is sent nevertheless, for want of a \<^verbatim>\<open>return\<close> after the check.
\<close>

theorem rejected_order_fails:
  assumes "cache_contract ops" and "exchange_reachable ops px" and "px_tasks px = []"
    and "split_hb_trading_pair tp = Inr (b, q)" and "coid \<notin> ifo_client_order_id ` set (tr_heap (px_tracker px))"
    and "coid \<noteq> []" and "0 \<le> amount" and "trading_rule_of px tp = Inr rule"
    and "0 < rule_min_base_amount_increment rule"
    and "prepared_order px tp ot amount price = Inr (price', amount')"
    and "unsendable \<longleftrightarrow> ot \<notin> set (px_supported_order_types px) \<or> amount' < rule_min_order_size rule"
    and "unsendable \<or> (\<exists>p. price' = Price p \<and> amount' * p < rule_min_notional_size rule)"
  shows "let px' = run_task ops (fst (create_order side coid tp amount ot price px));
      sent = (if unsendable then [] else [\<lparr>rq_order_id = coid, rq_trading_pair = tp, rq_amount = amount',
        rq_trade_type = side, rq_order_type = ot, rq_price = price'\<rparr>]) in
    px_requests px' = px_requests px @ sent \<and> px_placing px' = px_placing px @ sent \<and>
    tr_events (px_tracker px') = tr_events (px_tracker px) @ [OrderFailureEvent (tr_now (px_tracker px)) coid ot] \<and>
    fetch_tracked_order coid (px_tracker px') = None \<and>
    fetch_cached_order ops coid (px_tracker px') = Some (length (tr_heap (px_tracker px)))"
proof -
  let ?px1 = "update_order_after_failure coid tp (exchange_start_tracking coid None tp side price' amount' ot px)"
  let ?sent = "if unsendable then [] else [\<lparr>rq_order_id = coid, rq_trading_pair = tp, rq_amount = amount',
    rq_trade_type = side, rq_order_type = ot, rq_price = price'\<rparr>]"
  obtain pr where amt: "quantized_order_amount px tp amount pr = Inr amount'"
    using assms(10) by (auto simp: prepared_order_def err_simps split: if_splits)
  have amount': "0 \<le> amount'" by (rule quantized_amount_cases(2)[OF amt assms(8,9,7)])
  have px': "fst (create_order side coid tp amount ot price px) =
      ?px1\<lparr>px_placing := px_placing px @ ?sent, px_requests := px_requests px @ ?sent\<rparr>"
    using assms(8,10-12)
    by (auto simp: create_order_def notional_too_small_def Let_def update_order_after_failure_def schedule_def
        exchange_start_tracking_def)
  have "px_tracker (run_task ops (fst (create_order side coid tp amount ot price px))) = px_tracker (run_task ops ?px1)"
    unfolding px' by (simp add: run_task_def update_order_after_failure_def schedule_def split: list.split)
  then show ?thesis
    using new_order_fails[OF assms(1) reachable_tracker[OF assms(2)] assms(3-6) amount' refl, of side price' ot]
    by (simp add: run_single_task(2,3) px' Let_def)
qed

text \<open>An order that is not tracked is never tracked again by an update.\<close>

lemma completion_untracked:
  "fetch_tracked_order c t = None \<Longrightarrow> fetch_tracked_order c (fst (trigger_order_completion ops r t)) = None"
  by (auto simp: trigger_order_completion_def fetch_tracked_order_def stop_tracking_in_flight delete_conv
      trigger_cancelled_event_def trigger_failure_event_def trigger_completed_event_def err_simps Let_def split: sum.split)

lemma update_untracked:
  "fetch_tracked_order c t = None \<Longrightarrow> fetch_tracked_order c (fst (process_order_update ops ou t)) = None"
  by (auto simp: process_order_update_def finish_order_update_def Let_def trigger_order_creation_def
      trigger_created_event_def fetch_tracked_order_def[of c] split: option.split prod.split
      intro!: completion_untracked[unfolded fetch_tracked_order_def])

text \<open>
  An order whose notional is below the minimum is reported as failed and dropped from the tracked
  orders, and is sent to the exchange nevertheless, with an amount or a price of zero when it is a limit
  order; whatever the exchange answers, no update makes it a tracked order again.
\<close>

theorem small_notional_failed_and_sent:
  assumes "cache_contract ops" and "exchange_reachable ops px" and "px_tasks px = []"
    and "split_hb_trading_pair tp = Inr (b, q)" and "coid \<notin> ifo_client_order_id ` set (tr_heap (px_tracker px))"
    and "coid \<noteq> []" and "0 \<le> amount" and "trading_rule_of px tp = Inr rule"
    and "0 < rule_min_base_amount_increment rule" and "0 < rule_min_notional_size rule"
    and "prepared_order px tp ot amount price = Inr (Price p, amount')"
    and "ot \<in> set (px_supported_order_types px)" and "rule_min_order_size rule \<le> amount'"
    and "amount' * p < rule_min_notional_size rule"
  shows "let px' = run_task ops (fst (create_order side coid tp amount ot price px)) in
    px_requests px' = px_requests px @ [\<lparr>rq_order_id = coid, rq_trading_pair = tp, rq_amount = amount',
      rq_trade_type = side, rq_order_type = ot, rq_price = Price p\<rparr>] \<and>
    (ot = MARKET \<or> amount' = 0 \<or> p = 0) \<and>
    tr_events (px_tracker px') = tr_events (px_tracker px) @ [OrderFailureEvent (tr_now (px_tracker px)) coid ot] \<and>
    fetch_tracked_order coid (px_tracker px') = None \<and>
    (\<forall>ou. fetch_tracked_order coid (fst (process_order_update ops ou (px_tracker px'))) = None)"
proof -
  let ?px1 = "update_order_after_failure coid tp (exchange_start_tracking coid None tp side (Price p) amount' ot px)"
  let ?rq = "\<lparr>rq_order_id = coid, rq_trading_pair = tp, rq_amount = amount', rq_trade_type = side,
               rq_order_type = ot, rq_price = Price p\<rparr>"
  obtain pr where amt: "quantized_order_amount px tp amount pr = Inr amount'"
    and pr: "ot \<noteq> MARKET \<Longrightarrow> pr = p"
    using assms(11) by (cases ot) (auto simp: prepared_order_def err_simps)
  note am = quantized_amount_cases[OF amt assms(8,9,7)]
  have zero: "ot = MARKET \<or> amount' = 0 \<or> p = 0"
    using am(5) pr assms(10,14) by (fastforce simp: mult.commute)
  have px': "fst (create_order side coid tp amount ot price px) =
      ?px1\<lparr>px_placing := px_placing ?px1 @ [?rq], px_requests := px_requests ?px1 @ [?rq]\<rparr>"
    using assms(8,11-14) by (auto simp: create_order_def notional_too_small_def Let_def)
  have "px_tracker (run_task ops (fst (create_order side coid tp amount ot price px))) = px_tracker (run_task ops ?px1)"
    unfolding px' by (simp add: run_task_def update_order_after_failure_def schedule_def split: list.split)
  moreover note fin = new_order_fails[OF assms(1) reachable_tracker[OF assms(2)] assms(3-6) am(2) refl, of side "Price p" ot]
  ultimately show ?thesis
    using zero update_untracked[OF fin(2)] by (simp add: run_single_task(2) px' Let_def)
qed

text \<open>A market order without a price, the default of \<^verbatim>\<open>buy\<close> and \<^verbatim>\<open>sell\<close>, is tracked and then raises.\<close>

lemma nan_price_market_order:
  assumes "trading_rule_of px tp = Inr rule" "quantized_order_amount px tp amount 0 = Inr amount'"
    and "MARKET \<in> set (px_supported_order_types px)" "rule_min_order_size rule \<le> amount'"
  shows "create_order side coid tp amount MARKET NanPrice px =
    (exchange_start_tracking coid None tp side NanPrice amount' MARKET px, Some InvalidOperation)"
  using assms by (simp add: create_order_def prepared_order_def notional_too_small_def Let_def)

subsection \<open>Cancelling all orders\<close>

text \<open>Every cancellation returns the identifier it was asked for, nothing, or raises.\<close>

definition own_result :: "string \<Rightarrow> py_error + string option \<Rightarrow> bool" where
  "own_result coid cr \<longleftrightarrow> (case cr of Inr (Some c) \<Rightarrow> c = coid | _ \<Rightarrow> True)"

lemma own_result_later: "list_all2 own_result ids crs \<Longrightarrow> c \<notin> set ids \<Longrightarrow> Inr (Some c) \<notin> set crs"
  by (induction rule: list_all2_induct) (auto simp: own_result_def)

lemma collect_cancellations_split:
  assumes "list_all2 own_result ids crs"
  shows "distinct ids \<Longrightarrow> set ids \<subseteq> set left \<Longrightarrow>
    collect_cancellations crs left successful =
      ([c \<leftarrow> left. Inr (Some c) \<notin> set crs], successful @ map (\<lambda>c. (c, True)) [c \<leftarrow> ids. Inr (Some c) \<in> set crs])"
  using assms
proof (induction ids arbitrary: crs left successful)
  case (Cons coid ids)
  then obtain cr crs' where crs: "crs = cr # crs'" "own_result coid cr" "list_all2 own_result ids crs'"
    by (auto simp: list_all2_Cons1)
  have later: "Inr (Some coid) \<notin> set crs'" using own_result_later[OF crs(3)] Cons.prems(1) by simp
  show ?case
  proof (cases "cr = Inr (Some coid)")
    case True
    have "[c \<leftarrow> ids. c = coid \<or> Inr (Some c) \<in> set crs'] = [c \<leftarrow> ids. Inr (Some c) \<in> set crs']"
      using Cons.prems(1) by (intro filter_cong) auto
    then show ?thesis
      using Cons.IH[OF _ _ crs(3), of "removeAll coid left" "successful @ [(coid, True)]"] Cons.prems(1,2) True crs(1)
      by (auto simp: removeAll_filter_not_eq eq_commute conj_commute intro!: filter_cong)
  next
    case False
    then have "cr = Inr None \<or> (\<exists>e. cr = Inl e)"
      using crs(2) by (auto simp: own_result_def split: sum.splits option.splits)
    then show ?thesis using Cons.IH[OF _ _ crs(3), of left successful] Cons.prems(1,2) crs(1) later by auto
  qed
qed simp

text \<open>
  C39: cancelling all orders answers for every incomplete order exactly once: with success for the orders
  whose cancellation returned, and with failure for all others, also when the time is up.
\<close>

theorem cancel_all_complete:
  assumes "cache_contract ops" and "exchange_reachable ops px" and "list_all2 own_result (incomplete_orders px) crs"
  shows "mset (cancel_all (Some crs) px) = mset (map (\<lambda>c. (c, Inr (Some c) \<in> set crs)) (incomplete_orders px)) \<and>
    mset (cancel_all None px) = mset (map (\<lambda>c. (c, False)) (incomplete_orders px))"
proof -
  let ?ids = "incomplete_orders px"
  have "dict_ok (tr_in_flight (px_tracker px))"
    using reachable_inv[OF reachable_tracker[OF assms(2)] assms(1)] by (simp add: tracker_inv_def refs_ok_def)
  then have ids: "distinct ?ids" by (simp add: incomplete_orders_def dict_ok_def distinct_map_filter)
  have split: "mset (map (\<lambda>c. (c, True)) (filter P xs) @ map (\<lambda>c. (c, False)) [c \<leftarrow> xs. \<not> P c]) =
      mset (map (\<lambda>c. (c, P c)) xs)" for P and xs :: "string list"
    by (induction xs) auto
  have "cancel_all (Some crs) px = map (\<lambda>c. (c, True)) [c \<leftarrow> ?ids. Inr (Some c) \<in> set crs] @
      map (\<lambda>c. (c, False)) [c \<leftarrow> ?ids. Inr (Some c) \<notin> set crs]"
    using collect_cancellations_split[OF assms(3) ids] ids by (simp add: cancel_all_def distinct_remdups_id)
  then show ?thesis
    using split[of "\<lambda>c. Inr (Some c) \<in> set crs" ?ids] ids by (simp add: cancel_all_def distinct_remdups_id)
qed

subsection \<open>Polling\<close>

lemma truncate_scale:
  assumes "0 \<le> x" "0 \<le> y" "truncate_rat (x / LONG_POLL_INTERVAL) < truncate_rat (y / LONG_POLL_INTERVAL)"
  shows "truncate_rat (x / SHORT_POLL_INTERVAL) < truncate_rat (y / SHORT_POLL_INTERVAL)"
proof -
  let ?n = "\<lfloor>y / 120\<rfloor>"
  have n: "\<lfloor>x / 120\<rfloor> < ?n" using assms by (simp add: truncate_rat_def LONG_POLL_INTERVAL_def)
  then have "x / 120 < of_int ?n" by (simp add: floor_less_iff)
  then have "x / 5 < of_int (24 * ?n)" by simp
  moreover have "of_int ?n \<le> y / 120" by (rule of_int_floor_le)
  then have "of_int (24 * ?n) \<le> y / 5" by simp
  ultimately have "\<lfloor>x / 5\<rfloor> < 24 * ?n" "24 * ?n \<le> \<lfloor>y / 5\<rfloor>" by (simp_all add: floor_less_iff le_floor_iff)
  then show ?thesis using assms(1,2) by (simp add: truncate_rat_def SHORT_POLL_INTERVAL_def)
qed

text \<open>Ticks, each with the time of the last message of the user stream.\<close>

definition run_ticks :: "(seconds \<times> seconds) list \<Rightarrow> 'c exchange_state \<Rightarrow> 'c exchange_state" where
  "run_ticks ticks px = fold (\<lambda>(recv, timestamp). exchange_tick recv timestamp) ticks px"

lemma tick_notified:
  "px_poll_notified (exchange_tick recv t px) \<longleftrightarrow> px_poll_notified px \<or>
     (let p = (if TICK_INTERVAL_LIMIT < t - recv then SHORT_POLL_INTERVAL else LONG_POLL_INTERVAL)
      in truncate_rat (px_last_timestamp px / p) < truncate_rat (t / p))"
  "px_last_timestamp (exchange_tick recv t px) = t"
  by (simp_all add: exchange_tick_def Let_def)

lemma ticks_notified:
  assumes "0 \<le> px_last_timestamp px" "sorted (px_last_timestamp px # map snd ticks)"
    and "truncate_rat (px_last_timestamp px / LONG_POLL_INTERVAL) < truncate_rat (last (px_last_timestamp px # map snd ticks) / LONG_POLL_INTERVAL)
         \<or> px_poll_notified px"
  shows "px_poll_notified (run_ticks ticks px)"
  using assms
proof (induction ticks arbitrary: px)
  case (Cons tick ticks)
  obtain recv t where tick: "tick = (recv, t)" by (cases tick)
  let ?px = "exchange_tick recv t px"
  have le: "px_last_timestamp px \<le> t" using Cons.prems(2) by (simp add: tick)
  have "truncate_rat (t / LONG_POLL_INTERVAL) < truncate_rat (last (t # map snd ticks) / LONG_POLL_INTERVAL) \<or> px_poll_notified ?px"
  proof (cases "truncate_rat (px_last_timestamp px / LONG_POLL_INTERVAL) < truncate_rat (t / LONG_POLL_INTERVAL) \<or> px_poll_notified px")
    case True
    then show ?thesis
      using truncate_scale[of "px_last_timestamp px" t] Cons.prems(1) le by (auto simp: tick_notified Let_def)
  next
    case False
    then have "truncate_rat (t / LONG_POLL_INTERVAL) = truncate_rat (px_last_timestamp px / LONG_POLL_INTERVAL)"
      using truncate_rat_mono[of "px_last_timestamp px / LONG_POLL_INTERVAL" "t / LONG_POLL_INTERVAL"] le
      by (simp add: LONG_POLL_INTERVAL_def divide_right_mono)
    then show ?thesis using Cons.prems(3) False by (simp add: tick)
  qed
  then have "px_poll_notified (run_ticks ticks ?px)"
    using Cons.prems(1,2) le by (intro Cons.IH) (simp_all add: tick tick_notified(2))
  then show ?case by (simp add: run_ticks_def tick)
qed (simp add: run_ticks_def)

text \<open>
  However often the clock ticks and whether the user stream is silent or not, the status poll is
  requested at least once in every two minutes.
\<close>

theorem polled_every_long_interval:
  assumes "0 \<le> px_last_timestamp px" and "sorted (px_last_timestamp px # map snd ticks)" and "ticks \<noteq> []"
    and "px_last_timestamp px + LONG_POLL_INTERVAL \<le> snd (last ticks)"
  shows "px_poll_notified (run_ticks ticks px)"
proof -
  let ?x = "px_last_timestamp px / 120" and ?y = "snd (last ticks) / 120"
  have "?x + 1 \<le> ?y" using assms(4) by (simp add: LONG_POLL_INTERVAL_def field_simps)
  then have "\<lfloor>?x\<rfloor> < \<lfloor>?y\<rfloor>" by linarith
  moreover have "0 \<le> ?x" "0 \<le> ?y" using assms(1,4) by (auto simp: LONG_POLL_INTERVAL_def)
  ultimately have "truncate_rat (px_last_timestamp px / LONG_POLL_INTERVAL) < truncate_rat (snd (last ticks) / LONG_POLL_INTERVAL)"
    by (simp add: truncate_rat_def LONG_POLL_INTERVAL_def)
  then show ?thesis using assms(1-3) by (intro ticks_notified) (simp_all add: last_map)
qed

subsection \<open>Restarting\<close>

lemma restored_open: "is_open (restored_order x) = is_open x" "ifo_client_order_id (restored_order x) = ifo_client_order_id x"
  by (simp_all add: restored_order_def check_filled_condition_def is_open_def)

lemma restore_tracking_states_orders:
  assumes "\<forall>x \<in> set xs. ifo_price x \<noteq> None \<and> dict_ok (ifo_order_fills x) \<and> is_open x"
  shows "restore_tracking_states (map in_flight_order_to_json xs) t = Inr (t\<lparr>tr_heap := tr_heap t @ map restored_order xs,
    tr_in_flight := fold (\<lambda>(k, r). AList.update k r)
      (zip (map ifo_client_order_id xs) [length (tr_heap t)..<length (tr_heap t) + length xs]) (tr_in_flight t)\<rparr>)"
  using assms
proof (induction xs arbitrary: t)
  case (Cons x xs)
  obtain p where p: "ifo_price x = Some p" using Cons.prems by auto
  let ?n = "length (tr_heap t)"
  let ?t = "start_tracking_order ?n (t\<lparr>tr_heap := tr_heap t @ [restored_order x]\<rparr>)"
  have t: "?t = t\<lparr>tr_heap := tr_heap t @ [restored_order x],
      tr_in_flight := AList.update (ifo_client_order_id x) ?n (tr_in_flight t)\<rparr>"
    by (simp add: start_tracking_order_def order_at_def restored_open)
  have "restore_tracking_states (map in_flight_order_to_json (x # xs)) t = restore_tracking_states (map in_flight_order_to_json xs) ?t"
    using Cons.prems json_restored[of x] p by (simp add: Let_def restored_open)
  also have "\<dots> = Inr (?t\<lparr>tr_heap := tr_heap ?t @ map restored_order xs,
    tr_in_flight := fold (\<lambda>(k, r). AList.update k r)
      (zip (map ifo_client_order_id xs) [length (tr_heap ?t)..<length (tr_heap ?t) + length xs]) (tr_in_flight ?t)\<rparr>)"
    using Cons.prems by (intro Cons.IH) auto
  also have "[?n..<?n + length (x # xs)] = ?n # [Suc ?n..<Suc ?n + length xs]" by (simp add: upt_rec)
  ultimately show ?case by (simp add: t)
qed simp

lemma fold_update_distinct: "distinct (map fst kvs) \<Longrightarrow> map_of (fold (\<lambda>(k, v). AList.update k v) kvs []) = map_of kvs"
proof -
  assume "distinct (map fst kvs)"
  have "map_of (fold (\<lambda>(k, v). AList.update k v) kvs d) = map_of d ++ map_of (rev kvs)" for d
    by (induction kvs arbitrary: d) (auto simp: update_conv')
  from this[of "[]"] \<open>distinct _\<close> show ?thesis by (simp add: map_of_inject_set[of "rev kvs" kvs] rev_map[symmetric])
qed

lemma map_of_positions:
  assumes "distinct (map fst kvs)"
  shows "map_option (\<lambda>i. snd (kvs ! i)) (map_of (zip (map fst kvs) [0..<length kvs]) k) = map_of kvs k"
    and "map_of (zip (map fst kvs) [0..<length kvs]) k = Some i \<Longrightarrow> i < length kvs"
proof -
  have pos: "i < length kvs \<and> map_of kvs k = Some (snd (kvs ! i))"
    if "map_of (zip (map fst kvs) [0..<length kvs]) k = Some i" for i
    using map_of_SomeD[OF that] assms by (auto simp: in_set_zip map_of_eq_Some_iff)
  show "map_option (\<lambda>i. snd (kvs ! i)) (map_of (zip (map fst kvs) [0..<length kvs]) k) = map_of kvs k"
  proof (cases "map_of (zip (map fst kvs) [0..<length kvs]) k")
    case None
    then have "k \<notin> set (map fst kvs)" by (subst (asm) map_of_zip_is_None) simp_all
    then have "map_of kvs k = None" by (simp add: map_of_eq_None_iff)
    then show ?thesis using None by simp
  qed (use pos in simp)
  show "i < length kvs" if "map_of (zip (map fst kvs) [0..<length kvs]) k = Some i" using pos[OF that] by simp
qed

lemma map_of_filter_values:
  "distinct (map fst d) \<Longrightarrow> map_of [(k, r) \<leftarrow> d. P r] k =
   (case map_of d k of None \<Rightarrow> None | Some r \<Rightarrow> if P r then Some r else None)"
  by (induction d) (auto simp: map_of_eq_None_iff[of _ k] rev_image_eqI split: option.splits)

text \<open>Looking up in the positions of a dictionary is looking up in the dictionary.\<close>

lemma restored_lookup:
  assumes "distinct (map fst kvs)" "\<And>i. i < length kvs \<Longrightarrow> g i = f (snd (kvs ! i))"
  shows "map_option g (map_of (zip (map fst kvs) [0..<length kvs]) k) = map_option f (map_of kvs k)"
proof (cases "map_of (zip (map fst kvs) [0..<length kvs]) k")
  case None
  then show ?thesis unfolding map_of_positions(1)[OF assms(1), symmetric] by (simp only: option.map)
next
  case (Some i)
  then show ?thesis
    unfolding map_of_positions(1)[OF assms(1), symmetric] Some option.map using map_of_positions(2)[OF assms(1) Some] assms(2) by simp
qed

text \<open>
  C37: a connector that is restarted from its saved tracking states tracks exactly the orders it was waiting
  for, under the same identifiers, each as its encoding preserves it: every order with a price that is not done.
\<close>

theorem restart_restores_orders:
  assumes "cache_contract ops" and "exchange_reachable ops px"
    and "\<forall>(k, r) \<in> set (tr_in_flight (px_tracker px)). ifo_price (order_at (px_tracker px) r) \<noteq> None"
    and "px_tracker px0 = init_tracker c now"
  shows "\<exists>px1. exchange_restore_tracking_states (tracking_states px) px0 = Inr px1 \<and>
    (\<forall>coid. map_option (order_at (px_tracker px1)) (fetch_tracked_order coid (px_tracker px1)) =
      (case fetch_tracked_order coid (px_tracker px) of
         None \<Rightarrow> None
       | Some r \<Rightarrow> if is_done (order_at (px_tracker px) r) then None else Some (restored_order (order_at (px_tracker px) r))))"
proof -
  let ?t = "px_tracker px" and ?at = "order_at (px_tracker px)"
  define live where "live = [(k, r) \<leftarrow> tr_in_flight ?t. \<not> is_done (?at r)]"
  let ?xs = "map (\<lambda>(k, r). ?at r) live"
  have inv: "refs_ok ops ?t" "heap_ok ?t" "active_open ?t"
    using reachable_inv[OF reachable_tracker[OF assms(2)] assms(1)] by (simp_all add: tracker_inv_def)
  have dict: "distinct (map fst live)"
    using inv(1) by (simp add: live_def refs_ok_def dict_ok_def distinct_map_filter)
  have refs: "r < length (tr_heap ?t) \<and> ifo_client_order_id (?at r) = k" if "(k, r) \<in> set (tr_in_flight ?t)" for k r
    using refs_okD[OF inv(1)] that by blast
  have "\<forall>x \<in> set ?xs. ifo_price x \<noteq> None \<and> dict_ok (ifo_order_fills x) \<and> is_open x"
    using assms(3) refs active_openD[OF inv(3)] heap_okD[OF inv(2)] order_at_in_heap by (fastforce simp: fills_inv_def live_def)
  note run = restore_tracking_states_orders[OF this, of "px_tracker px0"]
  have keys: "map ifo_client_order_id ?xs = map fst live" using refs by (auto simp: live_def)
  have states: "map snd (tracking_states px) = map in_flight_order_to_json ?xs"
    by (simp add: tracking_states_def live_def case_prod_beta' comp_def)
  let ?kvs = "zip (map fst live) [0..<length live]"
  let ?px1 = "px0\<lparr>px_tracker := (px_tracker px0)\<lparr>tr_heap := map restored_order ?xs,
      tr_in_flight := fold (\<lambda>(k, r). AList.update k r) ?kvs []\<rparr>\<rparr>"
  have "exchange_restore_tracking_states (tracking_states px) px0 = Inr ?px1"
    unfolding exchange_restore_tracking_states_def states run keys by (simp add: assms(4) init_tracker_def)
  moreover have "map_option (order_at (px_tracker ?px1)) (fetch_tracked_order coid (px_tracker ?px1)) =
      map_option (\<lambda>r. restored_order (?at r)) (map_of live coid)" for coid
  proof -
    have "fetch_tracked_order coid (px_tracker ?px1) = map_of ?kvs coid"
      using dict by (simp add: fetch_tracked_order_def fold_update_distinct)
    then show ?thesis by (simp only:) (rule restored_lookup[OF dict], simp add: order_at_def case_prod_beta')
  qed
  moreover have "map_of live coid = (case map_of (tr_in_flight ?t) coid of None \<Rightarrow> None | Some r \<Rightarrow> if is_done (?at r) then None else Some r)" for coid
    unfolding live_def using map_of_filter_values[of "tr_in_flight ?t" "\<lambda>r. \<not> is_done (?at r)" coid] inv(1)
    by (auto simp: refs_ok_def dict_ok_def split: option.split)
  ultimately show ?thesis
    by (intro exI[of _ ?px1]) (auto simp: fetch_tracked_order_def split: option.split)
qed

subsection \<open>A concrete connector\<close>

definition rule_sample :: "decimal \<Rightarrow> trading_rule" where
  "rule_sample min_size =
     \<lparr>rule_trading_pair = ''ETH-USDT'', rule_min_order_size = min_size, rule_max_order_size = s_decimal_max,
      rule_min_price_increment = 1/100, rule_min_base_amount_increment = 1/100,
      rule_min_quote_amount_increment = s_decimal_min, rule_min_notional_size = 10, rule_min_order_value = 0,
      rule_max_price_significant_digits = s_decimal_max, rule_supports_limit_orders = True,
      rule_supports_market_orders = True, rule_buy_order_collateral_token = ''USDT'',
      rule_sell_order_collateral_token = ''USDT''\<rparr>"

definition px_sample :: "decimal \<Rightarrow> (string, nat) pydict exchange_state" where
  "px_sample min_size =
     \<lparr>px_trading_rules = [(''ETH-USDT'', rule_sample min_size)], px_order_books = [(''ETH-USDT'', sample_book)],
      px_supported_order_types = [LIMIT, MARKET], px_synchronous_cancel = False, px_tracker = init_tracker [] 100,
      px_tasks = [], px_placing = [], px_cancelling = [], px_requests = [], px_last_timestamp = 0,
      px_poll_notified = False\<rparr>"

definition px_created :: "(string, nat) pydict exchange_state" where
  "px_created = fst (create_order BUY ''b1'' ''ETH-USDT'' 2 LIMIT (Price 100) (px_sample (1/100)))"

lemma sample_fresh:
  "split_hb_trading_pair ''ETH-USDT'' = Inr (''ETH'', ''USDT'')"
  "coid \<notin> ifo_client_order_id ` set (tr_heap (px_tracker (px_sample m)))"
  "px_tasks (px_sample m) = []"
  "trading_rule_of (px_sample m) ''ETH-USDT'' = Inr (rule_sample m)"
  by (code_simp, simp_all add: px_sample_def init_tracker_def trading_rule_of_def)

lemma px_sample_reachable: "exchange_reachable list_cache (px_sample m)" "exchange_reachable list_cache px_created"
proof -
  show *: "exchange_reachable list_cache (px_sample m)" for m
    by (rule exchange_reachable.init[of _ "[]" _ 100]) (simp_all add: px_sample_def list_cache_def)
  show "exchange_reachable list_cache px_created"
    unfolding px_created_def by (rule exchange_reachable.step[OF *], rule exchange_step.create[OF sample_fresh(1,2)])
qed

lemma exchange_tracker_reachable_witness: "tracker_inv list_cache (px_tracker px_created)"
  using exchange_tracker_reachable[OF list_cache_contract px_sample_reachable(2)] by blast

definition sent_sample :: order_request where
  "sent_sample = \<lparr>rq_order_id = ''b1'', rq_trading_pair = ''ETH-USDT'', rq_amount = 2, rq_trade_type = BUY,
     rq_order_type = LIMIT, rq_price = Price 100\<rparr>"

lemma submitted_order_respects_rules_witness:
  "(\<exists>n::nat. 0 < n \<and> rq_amount sent_sample = of_nat n * (1/100)) \<and> 1/100 \<le> rq_amount sent_sample"
proof -
  have "snd (create_order BUY ''b1'' ''ETH-USDT'' 2 LIMIT (Price 100) (px_sample (1/100))) = None"
    "px_requests px_created = px_requests (px_sample (1/100)) @ [sent_sample]"
    by code_simp+
  then show ?thesis
    using submitted_order_respects_rules[OF _ _ sample_fresh(4), of BUY "''b1''" 2 LIMIT "Price 100" "1/100" px_created None sent_sample]
    by (simp add: px_created_def prod_eq_iff rule_sample_def)
qed

lemma rejected_order_fails_witness:
  "tr_events (px_tracker (run_task list_cache (fst (create_order SELL ''s1'' ''ETH-USDT'' (1/200) LIMIT (Price 100) (px_sample (1/100))))))
     = [OrderFailureEvent 100 ''s1'' LIMIT] \<and>
   px_requests (run_task list_cache (fst (create_order SELL ''s1'' ''ETH-USDT'' (1/200) LIMIT (Price 100) (px_sample (1/100))))) = []"
proof -
  have "prepared_order (px_sample (1/100)) ''ETH-USDT'' LIMIT (1/200) (Price 100) = Inr (Price 100, 0)"
    by code_simp
  from rejected_order_fails[OF list_cache_contract px_sample_reachable(1) sample_fresh(3,1,2) _ _ sample_fresh(4) _ this,
      of "''s1''" True SELL]
  show ?thesis by (simp add: rule_sample_def Let_def px_sample_def init_tracker_def)
qed

lemma small_notional_failed_and_sent_witness:
  "map rq_amount (px_requests (run_task list_cache (fst (create_order SELL ''s1'' ''ETH-USDT'' (1/20) LIMIT (Price 100) (px_sample 0)))))
     = [0]"
proof -
  have "prepared_order (px_sample 0) ''ETH-USDT'' LIMIT (1/20) (Price 100) = Inr (Price 100, 0)"
    by code_simp
  from small_notional_failed_and_sent[OF list_cache_contract px_sample_reachable(1) sample_fresh(3,1,2) _ _ sample_fresh(4) _ _ this,
      of "''s1''" SELL]
  show ?thesis by (simp add: rule_sample_def Let_def px_sample_def)
qed

lemma cancel_all_complete_witness: "mset (cancel_all (Some [Inr (Some ''b1'')]) px_created) = {#(''b1'', True)#}"
proof -
  have ids: "incomplete_orders px_created = [''b1'']" by code_simp
  then show ?thesis
    using cancel_all_complete[OF list_cache_contract px_sample_reachable(2), of "[Inr (Some ''b1'')]"]
    by (simp add: own_result_def)
qed

lemma polled_every_long_interval_witness: "px_poll_notified (run_ticks [(0, 50), (0, 130)] (px_sample 0))"
  by (rule polled_every_long_interval) (simp_all add: px_sample_def LONG_POLL_INTERVAL_def)

lemma restart_restores_orders_witness:
  "\<exists>px1. exchange_restore_tracking_states (tracking_states px_created) (px_sample 0) = Inr px1 \<and>
     map_option ifo_amount (map_option (order_at (px_tracker px1)) (fetch_tracked_order ''b1'' (px_tracker px1))) = Some 2"
proof -
  have *: "tr_in_flight (px_tracker px_created) = [(''b1'', 0)]"
    "ifo_price (order_at (px_tracker px_created) 0) = Some 100"
    "is_done (order_at (px_tracker px_created) 0) = False"
    "ifo_amount (restored_order (order_at (px_tracker px_created) 0)) = 2"
    by code_simp+
  have priced: "\<forall>(k, r) \<in> set (tr_in_flight (px_tracker px_created)). ifo_price (order_at (px_tracker px_created) r) \<noteq> None"
    using *(1,2) by simp
  have "px_tracker (px_sample 0) = init_tracker [] 100" by (simp add: px_sample_def)
  from restart_restores_orders[OF list_cache_contract px_sample_reachable(2) priced this]
  obtain px1 where px1: "exchange_restore_tracking_states (tracking_states px_created) (px_sample 0) = Inr px1"
    "\<forall>coid. map_option (order_at (px_tracker px1)) (fetch_tracked_order coid (px_tracker px1)) =
      (case fetch_tracked_order coid (px_tracker px_created) of None \<Rightarrow> None
       | Some r \<Rightarrow> if is_done (order_at (px_tracker px_created) r) then None
                   else Some (restored_order (order_at (px_tracker px_created) r)))"
    by blast
  have "fetch_tracked_order ''b1'' (px_tracker px_created) = Some 0" by (simp add: fetch_tracked_order_def *(1))
  then have "map_option (order_at (px_tracker px1)) (fetch_tracked_order ''b1'' (px_tracker px1)) =
       Some (restored_order (order_at (px_tracker px_created) 0))"
    using spec[OF px1(2), of "''b1''"] *(3) by simp
  then show ?thesis using px1(1) *(4) by (intro exI[of _ px1]) auto
qed

end
