(* ===== verification/Composite_Order_Book.thy ===== *)
theory Composite_Order_Book
  imports Order_Book
begin

text \<open>
  \<^verbatim>\<open>core/data_type/composite_order_book.pyx\<close>: the order book of the paper trading exchange, an order book
  from which the amounts already taken by simulated market orders are subtracted.

  The amounts taken are themselves an order book.  Its upkeep happens at the end of \<^verbatim>\<open>bid_entries\<close> and
  \<^verbatim>\<open>ask_entries\<close>: these are generators, so it happens only when the caller takes every entry.
\<close>

record composite_book =
  co_book :: order_book
  co_traded :: order_book

definition new_composite_book :: composite_book where
  "new_composite_book = \<lparr>co_book = new_order_book False, co_traded = new_order_book False\<rparr>"

definition clear_traded_order_book :: "composite_book \<Rightarrow> composite_book" where
  "clear_traded_order_book cob = cob\<lparr>co_traded := (co_traded cob)\<lparr>ob_bid_book := [], ob_ask_book := []\<rparr>\<rparr>"

subsection \<open>Recording fills\<close>

text \<open>The search for the price goes along the side, best first, and stops at the first worse price.\<close>

fun traded_amount :: "(rat \<Rightarrow> rat \<Rightarrow> bool) \<Rightarrow> rat \<Rightarrow> order_book_row list \<Rightarrow> rat" where
  "traded_amount better price [] = 0"
| "traded_amount better price (entry # rest) =
     (if br_price entry = price then br_amount entry
      else if better price (br_price entry) then 0
      else traded_amount better price rest)"

text \<open>The time of the fill is the update id of its entry, cut to an integer.\<close>

definition record_filled_order :: "bool \<Rightarrow> rat \<Rightarrow> rat \<Rightarrow> seconds \<Rightarrow> composite_book \<Rightarrow> composite_book" where
  "record_filled_order is_buy price amount timestamp cob =
     (let traded = co_traded cob;
          taken = (if is_buy then traded_amount (<) price (ob_ask_book traded)
                   else traded_amount (>) price (rev (ob_bid_book traded)));
          entry = \<lparr>br_price = price, br_amount = amount + taken, br_update_id = \<lfloor>timestamp\<rfloor>\<rparr>
      in cob\<lparr>co_traded := apply_diffs (if is_buy then [] else [entry]) (if is_buy then [entry] else []) \<lfloor>timestamp\<rfloor> traded\<rparr>)"

subsection \<open>The entries that are left\<close>

text \<open>
  One side of the book and of the amounts taken, both best first.  The second component are the
  changes of the amounts taken: what was taken at a better price than the book still has is dropped, what
  was taken of an entry that is used up is cut to the entry's amount.
\<close>

fun composite :: "(rat \<Rightarrow> rat \<Rightarrow> bool) \<Rightarrow> order_book_row list \<Rightarrow> order_book_row list \<Rightarrow>
    order_book_row list \<times> order_book_row list" where
  "composite better [] taken = ([], [])"
| "composite better (r # rs) [] = apfst ((#) r) (composite better rs [])"
| "composite better (r # rs) (t # ts) =
     (if br_price t = br_price r then
        (if 0 < br_amount r - br_amount t
         then apfst ((#) (r\<lparr>br_amount := br_amount r - br_amount t\<rparr>)) (composite better rs ts)
         else apsnd ((#) \<lparr>br_price = br_price r, br_amount = min (br_amount r) (br_amount t),
                          br_update_id = br_update_id t\<rparr>) (composite better rs ts))
      else if better (br_price t) (br_price r)
      then apsnd ((#) \<lparr>br_price = br_price t, br_amount = 0, br_update_id = br_update_id t\<rparr>) (composite better (r # rs) ts)
      else apfst ((#) r) (composite better rs (t # ts)))"

definition composite_bids :: "composite_book \<Rightarrow> order_book_row list \<times> order_book_row list" where
  "composite_bids cob = composite (>) (rev (ob_bid_book (co_book cob))) (rev (ob_bid_book (co_traded cob)))"

definition composite_asks :: "composite_book \<Rightarrow> order_book_row list \<times> order_book_row list" where
  "composite_asks cob = composite (<) (ob_ask_book (co_book cob)) (ob_ask_book (co_traded cob))"

definition composite_entries :: "bool \<Rightarrow> composite_book \<Rightarrow> order_book_row list" where
  "composite_entries is_buy cob = (if is_buy then fst (composite_asks cob) else fst (composite_bids cob))"

text \<open>The end of the generators.\<close>

definition entries_taken :: "bool \<Rightarrow> composite_book \<Rightarrow> composite_book" where
  "entries_taken is_buy cob =
     cob\<lparr>co_traded := apply_diffs (if is_buy then [] else snd (composite_bids cob)) (if is_buy then snd (composite_asks cob) else [])
           (ob_last_diff_uid (co_book cob)) (co_traded cob)\<rparr>"

subsection \<open>Simulated orders and prices\<close>

text \<open>A simulated order leaves its loop, and the generator, at the entry that completes it.\<close>

fun completes :: "rat \<Rightarrow> order_book_row list \<Rightarrow> bool" where
  "completes amount_left [] \<longleftrightarrow> False"
| "completes amount_left (r # rs) \<longleftrightarrow> (if br_amount r < amount_left then completes (amount_left - br_amount r) rs else True)"

definition composite_simulate :: "bool \<Rightarrow> rat \<Rightarrow> composite_book \<Rightarrow> order_book_row list \<times> composite_book" where
  "composite_simulate is_buy amount cob =
     (let rows = composite_entries is_buy cob
      in (simulate amount rows, if completes amount rows then cob else entries_taken is_buy cob))"

text \<open>
  The best price is the first entry left.  When the book has entries but none is left \<^verbatim>\<open>next\<close> raises
  \<^verbatim>\<open>StopIteration\<close>, which is not the \<^verbatim>\<open>EnvironmentError\<close> of an empty book; the outer error is that one.
\<close>

definition composite_price :: "bool \<Rightarrow> composite_book \<Rightarrow> py_error + rat option" where
  "composite_price is_buy cob =
     (if (if is_buy then ob_ask_book (co_book cob) else ob_bid_book (co_book cob)) = [] then Inr None
      else case composite_entries is_buy cob of [] \<Rightarrow> Inl RaisedException | r # _ \<Rightarrow> Inr (Some (br_price r)))"

subsection \<open>The entries left are the entries less the amounts taken\<close>

text \<open>The strict order in which prices get worse along a side.\<close>

locale price_side =
  fixes better :: "rat \<Rightarrow> rat \<Rightarrow> bool"
  assumes better_irrefl: "\<not> better p p"
    and better_trans: "better p q \<Longrightarrow> better q r \<Longrightarrow> better p r"
    and better_total: "p \<noteq> q \<Longrightarrow> better p q \<or> better q p"
begin

definition best_first :: "order_book_row list \<Rightarrow> bool" where
  "best_first rows \<longleftrightarrow> sorted_wrt better (map br_price rows)"

lemma best_first_simps [simp]:
  "best_first []"
  "best_first (r # rs) \<longleftrightarrow> (\<forall>x \<in> set rs. better (br_price r) (br_price x)) \<and> best_first rs"
  by (simp_all add: best_first_def)

lemma level_beyond: "best_first ts \<Longrightarrow> \<forall>t \<in> set ts. better p (br_price t) \<Longrightarrow> level ts p = None"
  using better_irrefl by (intro level_none) force

lemma composite_levels:
  "best_first rs \<Longrightarrow> best_first ts \<Longrightarrow> fst (composite better rs ts) =
    concat (map (\<lambda>r. case level ts (br_price r) of None \<Rightarrow> [r]
      | Some t \<Rightarrow> if br_amount t < br_amount r then [r\<lparr>br_amount := br_amount r - br_amount t\<rparr>] else []) rs)"
proof (induction b \<equiv> better rs ts rule: composite.induct)
  case (1 taken)
  then show ?case by simp
next
  case (2 r rs)
  then show ?case by (simp add: level_def comp_def)
next
  case (3 r rs t ts)
  have skip: "level (t # ts) p = level ts p" if "br_price t \<noteq> p" for p
    using that by (simp add: level_def)
  have cong: "concat (map (\<lambda>r. case level ts (br_price r) of None \<Rightarrow> [r]
      | Some t \<Rightarrow> if br_amount t < br_amount r then [r\<lparr>br_amount := br_amount r - br_amount t\<rparr>] else []) xs) =
    concat (map (\<lambda>r. case level (t # ts) (br_price r) of None \<Rightarrow> [r]
      | Some t \<Rightarrow> if br_amount t < br_amount r then [r\<lparr>br_amount := br_amount r - br_amount t\<rparr>] else []) xs)"
    if "\<forall>x \<in> set xs. br_price t \<noteq> br_price x" for xs
    using that by (intro arg_cong[of _ _ concat] map_cong) (simp_all add: skip)
  consider (same) "br_price t = br_price r" | (ahead) "br_price t \<noteq> br_price r" "better (br_price t) (br_price r)"
    | (behind) "br_price t \<noteq> br_price r" "\<not> better (br_price t) (br_price r)" "better (br_price r) (br_price t)"
    using better_total by blast
  then show ?case
  proof cases
    case same
    have here: "level (t # ts) (br_price r) = Some t" using same by (simp add: level_def)
    have "\<forall>x \<in> set rs. br_price t \<noteq> br_price x" using 3(5) same better_irrefl by auto
    note later = cong[OF this]
    show ?thesis
    proof (cases "br_amount t < br_amount r")
      case True
      then show ?thesis using 3(1)[OF same] 3(5,6) same here later by simp
    next
      case False
      then show ?thesis using 3(2)[OF same] 3(5,6) same here later by simp
    qed
  next
    case ahead
    have "\<forall>x \<in> set (r # rs). br_price t \<noteq> br_price x"
      using 3(5) ahead better_trans better_irrefl by fastforce
    then show ?thesis using 3(3)[OF ahead] 3(5,6) ahead cong[of "r # rs"] by simp
  next
    case behind
    have "level (t # ts) (br_price r) = None"
      using 3(6) behind better_trans by (intro level_beyond) auto
    then show ?thesis using 3(4)[OF behind(1,2)] 3(5,6) behind by simp
  qed
qed

end


interpretation ask_side: price_side "(<)"
  by unfold_locales auto

interpretation bid_side: price_side "(>)"
  by unfold_locales auto

lemma level_rev: "ascending xs \<Longrightarrow> level (rev xs) p = level xs p"
proof (cases "level (rev xs) p")
  case None
  have "\<forall>x \<in> set xs. br_price x \<noteq> p" using None by (simp add: level_def find_None_iff)
  then show ?thesis using None level_none by simp
next
  case (Some x)
  assume "ascending xs"
  then show ?thesis using Some level_mem[OF Some] level_set[of xs x] by simp
qed

lemma side_best_first:
  "ascending xs \<Longrightarrow> ask_side.best_first xs" "ascending xs \<Longrightarrow> bid_side.best_first (rev xs)"
  by (simp_all add: ascending_def ask_side.best_first_def bid_side.best_first_def rev_map[symmetric] sorted_wrt_rev)

inductive composite_reachable :: "composite_book \<Rightarrow> bool" where
  new: "composite_reachable new_composite_book"
| diffs: "composite_reachable cob \<Longrightarrow> composite_reachable (cob\<lparr>co_book := apply_diffs bids asks update_id (co_book cob)\<rparr>)"
| snapshot: "composite_reachable cob \<Longrightarrow> composite_reachable (cob\<lparr>co_book := apply_snapshot bids asks update_id (co_book cob)\<rparr>)"
| fill: "composite_reachable cob \<Longrightarrow> composite_reachable (record_filled_order is_buy price amount timestamp cob)"
| taken: "composite_reachable cob \<Longrightarrow> composite_reachable (entries_taken is_buy cob)"
| clear: "composite_reachable cob \<Longrightarrow> composite_reachable (clear_traded_order_book cob)"

lemma composite_books_ok: "composite_reachable cob \<Longrightarrow> book_ok (co_book cob) \<and> book_ok (co_traded cob)"
proof (induction rule: composite_reachable.induct)
  case new
  then show ?case by (simp add: new_composite_book_def new_order_book_def book_ok_def best_recorded_def)
next
  case (clear cob)
  then show ?case by (simp add: clear_traded_order_book_def book_ok_def best_recorded_def)
qed (simp_all add: apply_diffs_ok apply_snapshot_ok record_filled_order_def entries_taken_def Let_def)

text \<open>
  C33: the entries that a composite book shows are the entries of the market's book, best first, each less the
  amount already taken at its price; an entry whose amount is used up is not shown, one at whose price
  nothing was taken is shown as it is.
\<close>

theorem composite_entries_left:
  assumes "composite_reachable cob"
  shows "composite_entries is_buy cob = concat (map (\<lambda>r.
      case level (if is_buy then ob_ask_book (co_traded cob) else ob_bid_book (co_traded cob)) (br_price r) of
        None \<Rightarrow> [r]
      | Some t \<Rightarrow> if br_amount t < br_amount r then [r\<lparr>br_amount := br_amount r - br_amount t\<rparr>] else [])
    (entries (co_book cob) is_buy))"
proof -
  have asc: "ascending (ob_bid_book (co_book cob))" "ascending (ob_ask_book (co_book cob))"
    "ascending (ob_bid_book (co_traded cob))" "ascending (ob_ask_book (co_traded cob))"
    using composite_books_ok[OF assms] by (simp_all add: book_ok_def)
  then show ?thesis
    using ask_side.composite_levels[of "ob_ask_book (co_book cob)" "ob_ask_book (co_traded cob)"]
      bid_side.composite_levels[of "rev (ob_bid_book (co_book cob))" "rev (ob_bid_book (co_traded cob))"]
    by (simp add: side_best_first composite_entries_def composite_asks_def composite_bids_def entries_def
        ask_entries_def bid_entries_def level_rev)
qed

subsection \<open>A concrete composite book\<close>

definition sample_composite :: composite_book where
  "sample_composite = record_filled_order True 101 (1/2) 9 (new_composite_book\<lparr>co_book :=
     apply_snapshot [book_row 99 2 7] [book_row 101 1 7, book_row 103 4 7] 7 (new_order_book False)\<rparr>)"

lemma sample_composite_reachable: "composite_reachable sample_composite"
proof -
  have "new_order_book False = co_book new_composite_book" by (simp add: new_composite_book_def)
  then show ?thesis
    unfolding sample_composite_def
    by (simp only:) (rule composite_reachable.fill[OF composite_reachable.snapshot[OF composite_reachable.new]])
qed

lemma composite_entries_left_witness:
  "composite_entries True sample_composite = [book_row 101 (1/2) 7, book_row 103 4 7]"
proof -
  have "entries (co_book sample_composite) True = [book_row 101 1 7, book_row 103 4 7]"
    "ob_ask_book (co_traded sample_composite) = [book_row 101 (1/2) 9]"
    by (code_simp, code_simp)
  then show ?thesis using composite_entries_left[OF sample_composite_reachable, of True] by (simp add: level_def)
qed

end
