(* ===== verification/Paper_Trade.thy ===== *)
theory Paper_Trade
  imports Composite_Order_Book Order_Candidate Exchange_Base
begin

text \<open>
  \<^verbatim>\<open>connector/exchange/paper_trade/paper_trade_exchange.pyx\<close>: the exchange that fills orders against
  the books of a real market without trading on it.

  The maps of limit orders are \<^verbatim>\<open>unordered_map\<close>s from trading pairs to \<^verbatim>\<open>std::set\<close>s of orders; the model's
  association list holds them in the order of the map's iterators, the set is the list of its
  orders in ascending order of price and, within a price, of identifier.  Order identifiers are random and
  are arguments.  \<open>pa_env\<close> is what an order candidate asks its connector for: the fee schema and the
  conversion prices of fees in other tokens.  Events are handled by the exchange's own listener only.
\<close>

record queued_order =
  qo_timestamp :: seconds
  qo_order_id :: string
  qo_is_buy :: bool
  qo_trading_pair :: string
  qo_amount :: decimal

record paper_order =
  po_id :: string
  po_trading_pair :: string
  po_is_buy :: bool
  po_base :: string
  po_quote :: string
  po_price :: decimal
  po_quantity :: decimal

record quantization_params =
  qp_price_precision :: int
  qp_price_decimals :: int
  qp_order_size_precision :: int
  qp_order_size_decimals :: int

datatype paper_event =
    PaperCreated bool order_type string decimal decimal string
  | PaperFilled string string bool order_type decimal decimal trade_fee
  | PaperCompleted bool string string string decimal decimal order_type
  | PaperCancelled string
  | PaperFailed string order_type

record paper_exchange =
  pa_trading_pairs :: "(string, string \<times> string) pydict"
  pa_to_exchange_pair :: "string \<Rightarrow> string"
  pa_balances :: "string \<rightharpoonup> decimal"
  pa_queued :: "queued_order list"
  pa_bids :: "(string, paper_order list) pydict"
  pa_asks :: "(string, paper_order list) pydict"
  pa_order_books :: "(string, composite_book) pydict"
  pa_quantization :: "string \<rightharpoonup> quantization_params"
  pa_env :: exchange_env
  pa_now :: seconds
  pa_events :: "paper_event list"

definition TRADE_EXECUTION_DELAY :: seconds where
  "TRADE_EXECUTION_DELAY = 5"

subsection \<open>Rounding\<close>

text \<open>The exponent of the leading decimal digit of a positive number.\<close>

function exponent10 :: "rat \<Rightarrow> int" where
  "exponent10 x = (if x \<le> 0 then 0 else if x < 1 then exponent10 (x * 10) - 1
                   else if 10 \<le> x then exponent10 (x / 10) + 1 else 0)"
  by auto
termination
proof (relation "measures [\<lambda>x. nat \<lceil>1 / x\<rceil>, \<lambda>x. nat \<lfloor>x\<rfloor>]")
  fix x :: rat
  assume x: "\<not> x \<le> 0" "x < 1"
  then have y: "1 < 1 / x" by simp
  have "\<lceil>1 / (x * 10)\<rceil> < \<lceil>1 / x\<rceil>"
  proof (cases "1 / x \<le> 10")
    case True
    then have "1 / (x * 10) \<le> 1" by (simp add: field_simps)
    then have "\<lceil>1 / (x * 10)\<rceil> \<le> 1" by (simp add: ceiling_le_iff)
    moreover have "1 < \<lceil>1 / x\<rceil>" using y by (simp add: less_ceiling_iff)
    ultimately show ?thesis by (rule le_less_trans)
  next
    case False
    then have "1 / (x * 10) \<le> 1 / x - 1" by (simp add: field_simps)
    then have "\<lceil>1 / (x * 10)\<rceil> \<le> \<lceil>1 / x - 1\<rceil>" by (rule ceiling_mono)
    then show ?thesis by linarith
  qed
  moreover have "0 < \<lceil>1 / x\<rceil>" using x by simp
  ultimately show "(x * 10, x) \<in> measures [\<lambda>x. nat \<lceil>1 / x\<rceil>, \<lambda>x. nat \<lfloor>x\<rfloor>]" by simp
next
  fix x :: rat
  assume x: "\<not> x \<le> 0" "\<not> x < 1" "10 \<le> x"
  then have "0 < 1 / x" "1 / x \<le> 1" "0 < 1 / (x / 10)" "1 / (x / 10) \<le> 1" by simp_all
  then have "\<lceil>1 / x\<rceil> = 1" "\<lceil>1 / (x / 10)\<rceil> = 1" by (simp_all add: ceiling_eq_iff)
  moreover have "x / 10 \<le> x - 1" using x by simp
  then have "\<lfloor>x / 10\<rfloor> \<le> \<lfloor>x - 1\<rfloor>" by (rule floor_mono)
  then have "\<lfloor>x / 10\<rfloor> < \<lfloor>x\<rfloor>" by linarith
  moreover have "0 < \<lfloor>x\<rfloor>" using x by simp
  ultimately show "(x / 10, x) \<in> measures [\<lambda>x. nat \<lceil>1 / x\<rceil>, \<lambda>x. nat \<lfloor>x\<rfloor>]" by simp
qed simp

declare exponent10.simps [simp del]

definition pow10 :: "int \<Rightarrow> rat" where
  "pow10 e = (if 0 \<le> e then 10 ^ nat e else 1 / 10 ^ nat (- e))"

text \<open>\<^verbatim>\<open>'%.7g' % x\<close>: seven significant digits.\<close>

definition round_7g :: "rat \<Rightarrow> rat" where
  "round_7g x = (if x = 0 then 0 else quantize_half_even (pow10 (exponent10 \<bar>x\<bar> - 6)) x)"

text \<open>\<^verbatim>\<open>math.ceil(math.log10(x))\<close> of a positive number.\<close>

definition ceil_log10 :: "rat \<Rightarrow> int" where
  "ceil_log10 x = (let e = exponent10 x in if x = pow10 e then e else e + 1)"

definition paper_quantum :: "int \<Rightarrow> int \<Rightarrow> rat \<Rightarrow> rat" where
  "paper_quantum precision decimals x =
     (let precision_quantum = (if 0 < x then pow10 (ceil_log10 x - precision) else 0)
      in max precision_quantum (pow10 (- decimals)))"

definition paper_price_quantum :: "paper_exchange \<Rightarrow> string \<Rightarrow> decimal \<Rightarrow> decimal" where
  "paper_price_quantum pa tp price =
     (case pa_quantization pa tp of
        Some q \<Rightarrow> paper_quantum (qp_price_precision q) (qp_price_decimals q) price
      | None \<Rightarrow> pow10 (- 10))"

definition paper_size_quantum :: "paper_exchange \<Rightarrow> string \<Rightarrow> decimal \<Rightarrow> decimal" where
  "paper_size_quantum pa tp order_size =
     (case pa_quantization pa tp of
        Some q \<Rightarrow> paper_quantum (qp_order_size_precision q) (qp_order_size_decimals q) order_size
      | None \<Rightarrow> pow10 (- 7))"

definition floor_to :: "decimal \<Rightarrow> decimal \<Rightarrow> decimal" where
  "floor_to quantum x = of_int (truncate_rat (x / quantum)) * quantum"

definition paper_quantize_price :: "paper_exchange \<Rightarrow> string \<Rightarrow> decimal \<Rightarrow> decimal" where
  "paper_quantize_price pa tp price = (let p = round_7g price in floor_to (paper_price_quantum pa tp p) p)"

definition paper_quantize_amount :: "paper_exchange \<Rightarrow> string \<Rightarrow> decimal \<Rightarrow> decimal" where
  "paper_quantize_amount pa tp amount =
     (let a = round_7g amount;
          a' = (if a \<le> 1 / 10 ^ 7 then 0 else a)
      in floor_to (paper_size_quantum pa tp a') a')"

subsection \<open>Balances\<close>

definition upper_char :: "char \<Rightarrow> char" where
  "upper_char c = (let n = (of_char c :: nat) in if 97 \<le> n \<and> n \<le> 122 then char_of (n - 32) else c)"

definition upper :: "string \<Rightarrow> string" where
  "upper s = map upper_char s"

definition set_balance :: "string \<Rightarrow> decimal \<Rightarrow> paper_exchange \<Rightarrow> paper_exchange" where
  "set_balance currency balance pa = pa\<lparr>pa_balances := (pa_balances pa)(upper currency \<mapsto> balance)\<rparr>"

definition paper_balance :: "paper_exchange \<Rightarrow> string \<Rightarrow> decimal" where
  "paper_balance pa currency = (case pa_balances pa (upper currency) of None \<Rightarrow> 0 | Some b \<Rightarrow> b)"

definition limit_orders :: "paper_exchange \<Rightarrow> paper_order list" where
  "limit_orders pa = concat (map (\<lambda>(tp, xs). rev xs) (pa_bids pa)) @ concat (map snd (pa_asks pa))"

definition on_hold_balance :: "paper_exchange \<Rightarrow> string \<Rightarrow> decimal" where
  "on_hold_balance pa currency =
     (\<Sum>x \<leftarrow> limit_orders pa.
        if po_is_buy x then (if po_quote x = currency then po_quantity x * po_price x else 0)
        else (if po_base x = currency then po_quantity x else 0))"

definition paper_available_balances :: "paper_exchange \<Rightarrow> string \<rightharpoonup> decimal" where
  "paper_available_balances pa currency =
     map_option (\<lambda>balance. balance - on_hold_balance pa currency) (pa_balances pa currency)"

definition paper_available_balance :: "paper_exchange \<Rightarrow> string \<Rightarrow> decimal" where
  "paper_available_balance pa currency =
     (case paper_available_balances pa (upper currency) of None \<Rightarrow> 0 | Some b \<Rightarrow> b)"

subsection \<open>Placing and cancelling orders\<close>

definition str_less :: "string \<Rightarrow> string \<Rightarrow> bool" where
  "str_less a b \<longleftrightarrow> ord_class.lexordp (map of_char a :: nat list) (map of_char b)"

definition order_before :: "paper_order \<Rightarrow> paper_order \<Rightarrow> bool" where
  "order_before a b =
     (if po_price a = po_price b then str_less (po_id a) (po_id b) else po_price a < po_price b)"

fun insert_order :: "paper_order \<Rightarrow> paper_order list \<Rightarrow> paper_order list" where
  "insert_order a [] = [a]"
| "insert_order a (b # bs) =
     (if order_before a b then a # b # bs else if order_before b a then b # insert_order a bs else b # bs)"

definition orders_of :: "string \<Rightarrow> (string, paper_order list) pydict \<Rightarrow> paper_order list" where
  "orders_of tp m = (case map_of m tp of None \<Rightarrow> [] | Some xs \<Rightarrow> xs)"

definition add_limit_order :: "paper_order \<Rightarrow> (string, paper_order list) pydict \<Rightarrow> (string, paper_order list) pydict" where
  "add_limit_order a m = AList.update (po_trading_pair a) (insert_order a (orders_of (po_trading_pair a) m)) m"

definition delete_limit_order :: "string \<Rightarrow> paper_order \<Rightarrow> (string, paper_order list) pydict \<Rightarrow> (string, paper_order list) pydict" where
  "delete_limit_order tp a m =
     (let xs = remove1 a (orders_of tp m) in if xs = [] then AList.delete tp m else AList.update tp xs m)"

definition side_orders :: "bool \<Rightarrow> paper_exchange \<Rightarrow> (string, paper_order list) pydict" where
  "side_orders is_buy pa = (if is_buy then pa_bids pa else pa_asks pa)"

definition set_side_orders :: "bool \<Rightarrow> (string, paper_order list) pydict \<Rightarrow> paper_exchange \<Rightarrow> paper_exchange" where
  "set_side_orders is_buy m pa = (if is_buy then pa\<lparr>pa_bids := m\<rparr> else pa\<lparr>pa_asks := m\<rparr>)"

definition delete_order :: "bool \<Rightarrow> paper_order \<Rightarrow> paper_exchange \<Rightarrow> paper_exchange" where
  "delete_order is_buy a pa =
     set_side_orders is_buy (delete_limit_order (po_trading_pair a) a (side_orders is_buy pa)) pa"

text \<open>An event reaches the exchange's listener, which records the fills of market orders in their book.\<close>

definition paper_trigger :: "paper_event \<Rightarrow> paper_exchange \<Rightarrow> paper_exchange" where
  "paper_trigger e pa =
     (let pa1 = pa\<lparr>pa_events := pa_events pa @ [e]\<rparr>
      in case e of
           PaperFilled coid tp is_buy ot price amount fee \<Rightarrow>
             (case map_of (pa_order_books pa) tp of
                Some cob \<Rightarrow>
                  if ot = MARKET
                  then pa1\<lparr>pa_order_books := AList.update tp (record_filled_order is_buy price amount (pa_now pa) cob) (pa_order_books pa)\<rparr>
                  else pa1
              | None \<Rightarrow> pa1)
         | _ \<Rightarrow> pa1)"

text \<open>\<^verbatim>\<open>c_buy\<close> and \<^verbatim>\<open>c_sell\<close>, which differ in the side only.\<close>

definition place_paper_order ::
  "bool \<Rightarrow> string \<Rightarrow> string \<Rightarrow> decimal \<Rightarrow> order_type \<Rightarrow> decimal \<Rightarrow> paper_exchange \<Rightarrow> py_error + paper_exchange" where
  "place_paper_order is_buy order_id tp amount ot price pa =
     (case map_of (pa_trading_pairs pa) tp of
        None \<Rightarrow> Inl ValueError
      | Some (base, quote) \<Rightarrow>
          let quantized_price = (if ot = LIMIT then paper_quantize_price pa tp price else 0);
              quantized_amount = paper_quantize_amount pa tp amount;
              pa1 = (case ot of
                MARKET \<Rightarrow> pa\<lparr>pa_queued := pa_queued pa @ [\<lparr>qo_timestamp = pa_now pa, qo_order_id = order_id,
                             qo_is_buy = is_buy, qo_trading_pair = tp, qo_amount = quantized_amount\<rparr>]\<rparr>
              | LIMIT \<Rightarrow> set_side_orders is_buy (add_limit_order \<lparr>po_id = order_id, po_trading_pair = tp, po_is_buy = is_buy,
                             po_base = base, po_quote = quote, po_price = quantized_price,
                             po_quantity = quantized_amount\<rparr> (side_orders is_buy pa)) pa
              | LIMIT_MAKER \<Rightarrow> pa)
          in Inr (paper_trigger (PaperCreated is_buy ot tp quantized_amount quantized_price order_id) pa1))"

definition paper_buy :: "string \<Rightarrow> string \<Rightarrow> decimal \<Rightarrow> order_type \<Rightarrow> decimal \<Rightarrow> paper_exchange \<Rightarrow> py_error + paper_exchange" where
  "paper_buy = place_paper_order True"

definition paper_sell :: "string \<Rightarrow> string \<Rightarrow> decimal \<Rightarrow> order_type \<Rightarrow> decimal \<Rightarrow> paper_exchange \<Rightarrow> py_error + paper_exchange" where
  "paper_sell = place_paper_order False"

definition cancel_order :: "bool \<Rightarrow> paper_order \<Rightarrow> paper_exchange \<Rightarrow> paper_exchange" where
  "cancel_order is_buy a pa = paper_trigger (PaperCancelled (po_id a)) (delete_order is_buy a pa)"

text \<open>The orders of a pair on one side that are cancelled, with their results.\<close>

definition cancel_order_from_orders_map ::
  "bool \<Rightarrow> string \<Rightarrow> (paper_order \<Rightarrow> bool) \<Rightarrow> paper_exchange \<Rightarrow> (string \<times> bool) list \<times> paper_exchange" where
  "cancel_order_from_orders_map is_buy tp chosen pa =
     (let xs = filter chosen (orders_of tp (side_orders is_buy pa))
      in (map (\<lambda>a. (po_id a, True)) xs, fold (cancel_order is_buy) xs pa))"

text \<open>\<^verbatim>\<open>client_order_id.split("://")[0]\<close>\<close>

fun before_separator :: "string \<Rightarrow> string" where
  "before_separator [] = []"
| "before_separator (c # cs) = (if take 3 (c # cs) = ''://'' then [] else c # before_separator cs)"

definition side_of_id :: "string \<Rightarrow> bool" where
  "side_of_id client_order_id \<longleftrightarrow> upper (before_separator client_order_id) = ''BUY''"

definition paper_cancel :: "string \<Rightarrow> string \<Rightarrow> paper_exchange \<Rightarrow> paper_exchange" where
  "paper_cancel tp client_order_id pa =
     snd (cancel_order_from_orders_map (side_of_id client_order_id) tp (\<lambda>a. po_id a = client_order_id) pa)"

definition cancel_side :: "bool \<Rightarrow> (string \<times> bool) list \<times> paper_exchange \<Rightarrow> (string \<times> bool) list \<times> paper_exchange" where
  "cancel_side is_buy s =
     fold (\<lambda>tp (results, pa). apfst ((@) results) (cancel_order_from_orders_map is_buy tp (\<lambda>_. True) pa))
       (map fst (pa_trading_pairs (snd s))) s"

definition paper_cancel_all :: "paper_exchange \<Rightarrow> (string \<times> bool) list \<times> paper_exchange" where
  "paper_cancel_all pa = cancel_side False (cancel_side True ([], pa))"

subsection \<open>Executing orders\<close>

text \<open>What an order pays and acquires according to its populated candidate.\<close>

definition settlement :: "paper_exchange \<Rightarrow> order_candidate \<Rightarrow> py_error + (decimal \<times> decimal)" where
  "settlement pa c =
     bind_err (populate_collateral_entries (pa_env pa) c) (\<lambda>c'.
       case (oc_order_collateral c', oc_potential_returns c') of
         (Some paid, Some acquired) \<Rightarrow> Inr (ta_amount paid, ta_amount acquired)
       | _ \<Rightarrow> Inl AttributeError)"

definition event_fee :: "paper_exchange \<Rightarrow> bool \<Rightarrow> trade_type \<Rightarrow> trade_fee" where
  "event_fee pa is_maker side = build_trade_fee (ex_fee_schema (pa_env pa)) is_maker side []"

text \<open>
  \<^verbatim>\<open>c_execute_buy\<close> and \<^verbatim>\<open>c_execute_sell\<close>.  The second component is the exception, which the caller logs; the
  book may have been changed by the simulation before it.
\<close>

definition set_order_book :: "string \<Rightarrow> composite_book \<Rightarrow> paper_exchange \<Rightarrow> paper_exchange" where
  "set_order_book tp cob pa = pa\<lparr>pa_order_books := AList.update tp cob (pa_order_books pa)\<rparr>"

definition fill_events :: "string \<Rightarrow> string \<Rightarrow> bool \<Rightarrow> trade_fee \<Rightarrow> order_book_row list \<Rightarrow> paper_event list" where
  "fill_events order_id tp is_buy fee rows =
     map (\<lambda>r. PaperFilled order_id tp is_buy MARKET (br_price r) (br_amount r) fee) rows"

definition execute_buy :: "string \<Rightarrow> string \<Rightarrow> decimal \<Rightarrow> paper_exchange \<Rightarrow> paper_exchange \<times> py_error option" where
  "execute_buy order_id tp amount pa =
     (case (map_of (pa_trading_pairs pa) tp, map_of (pa_order_books pa) tp) of
        (Some (base, quote), Some cob) \<Rightarrow>
          let quote_balance = paper_balance pa quote;
              base_balance = paper_balance pa base;
              (buy_entries, cob') = composite_simulate True amount cob;
              pa1 = set_order_book tp cob' pa
          in (case bind_err (dec_div (\<Sum>r \<leftarrow> buy_entries. br_price r * br_amount r) amount) (\<lambda>avg_price.
                     settlement pa1 (new_order_candidate tp False MARKET BUY amount avg_price True None)) of
                Inl e \<Rightarrow> (pa1, Some e)
              | Inr (paid_amount, acquired_amount) \<Rightarrow>
                  if quote_balance < paid_amount then (paper_trigger (PaperFailed order_id MARKET) pa1, None)
                  else
                    (let pa2 = set_balance base (base_balance + acquired_amount)
                                 (set_balance quote (quote_balance - paid_amount) pa1);
                         fills = fill_events order_id tp True (event_fee pa2 False BUY) buy_entries
                     in (paper_trigger (PaperCompleted True order_id base quote acquired_amount paid_amount MARKET)
                           (fold paper_trigger fills pa2), None)))
      | _ \<Rightarrow> (pa, Some KeyError))"

text \<open>The fee of the fill events of a sell is built for the side \<^verbatim>\<open>BUY\<close>.\<close>

definition execute_sell :: "string \<Rightarrow> string \<Rightarrow> decimal \<Rightarrow> paper_exchange \<Rightarrow> paper_exchange \<times> py_error option" where
  "execute_sell order_id tp amount pa =
     (case (map_of (pa_trading_pairs pa) tp, map_of (pa_order_books pa) tp) of
        (Some (base, quote), Some cob) \<Rightarrow>
          let quote_balance = paper_balance pa quote;
              base_balance = paper_balance pa base;
              (sell_entries, cob') = composite_simulate False amount cob;
              pa1 = set_order_book tp cob' pa
          in (case bind_err (dec_div (\<Sum>r \<leftarrow> sell_entries. br_price r * br_amount r) amount) (\<lambda>avg_price.
                     settlement pa1 (new_order_candidate tp False MARKET SELL amount avg_price True None)) of
                Inl e \<Rightarrow> (pa1, Some e)
              | Inr (sold_amount, acquired_amount) \<Rightarrow>
                  if base_balance < sold_amount then (paper_trigger (PaperFailed order_id MARKET) pa1, None)
                  else
                    (let pa2 = set_balance base (base_balance - sold_amount)
                                 (set_balance quote (quote_balance + acquired_amount) pa1);
                         fills = fill_events order_id tp False (event_fee pa2 False BUY) sell_entries
                     in (paper_trigger (PaperCompleted False order_id base quote sold_amount acquired_amount MARKET)
                           (fold paper_trigger fills pa2), None)))
      | _ \<Rightarrow> (pa, Some KeyError))"

text \<open>The queue is in the order of placement; orders that are due leave it, whatever becomes of them.\<close>

fun process_queue :: "queued_order list \<Rightarrow> paper_exchange \<Rightarrow> paper_exchange" where
  "process_queue [] pa = pa"
| "process_queue (front_order # rest) pa =
     (if qo_timestamp front_order \<le> pa_now pa - TRADE_EXECUTION_DELAY
      then process_queue rest
             (fst ((if qo_is_buy front_order then execute_buy else execute_sell)
                     (qo_order_id front_order) (qo_trading_pair front_order) (qo_amount front_order)
                     (pa\<lparr>pa_queued := rest\<rparr>)))
      else pa)"

definition process_market_orders :: "paper_exchange \<Rightarrow> paper_exchange" where
  "process_market_orders pa = process_queue (pa_queued pa) pa"

text \<open>Nothing has changed yet where these raise.\<close>

definition process_limit_bid_order :: "paper_order \<Rightarrow> paper_exchange \<Rightarrow> py_error + paper_exchange" where
  "process_limit_bid_order a pa =
     bind_err (settlement pa (new_order_candidate (po_trading_pair a) False LIMIT BUY (po_quantity a) (po_price a) True None))
       (\<lambda>(paid_amount, acquired_amount).
          let quote_balance = paper_balance pa (po_quote a); base_balance = paper_balance pa (po_base a) in
          if quote_balance < paid_amount
          then Inr (paper_trigger (PaperCancelled (po_id a)) (delete_order True a pa))
          else
            (let pa1 = set_balance (po_base a) (base_balance + acquired_amount)
                         (set_balance (po_quote a) (quote_balance - paid_amount) pa);
                 pa2 = paper_trigger (PaperFilled (po_id a) (po_trading_pair a) True LIMIT (po_price a) (po_quantity a)
                         (event_fee pa1 True BUY)) pa1;
                 pa3 = paper_trigger (PaperCompleted True (po_id a) (po_base a) (po_quote a) acquired_amount paid_amount LIMIT) pa2
             in Inr (delete_order True a pa3)))"

definition process_limit_ask_order :: "paper_order \<Rightarrow> paper_exchange \<Rightarrow> py_error + paper_exchange" where
  "process_limit_ask_order a pa =
     bind_err (settlement pa (new_order_candidate (po_trading_pair a) True LIMIT SELL (po_quantity a) (po_price a) True None))
       (\<lambda>(sold_amount, acquired_amount).
          let quote_balance = paper_balance pa (po_quote a); base_balance = paper_balance pa (po_base a) in
          if base_balance < sold_amount
          then Inr (paper_trigger (PaperCancelled (po_id a)) (delete_order False a pa))
          else
            (let pa1 = set_balance (po_base a) (base_balance - sold_amount)
                         (set_balance (po_quote a) (quote_balance + acquired_amount) pa);
                 pa2 = paper_trigger (PaperFilled (po_id a) (po_trading_pair a) False LIMIT (po_price a) (po_quantity a)
                         (event_fee pa1 True SELL)) pa1;
                 pa3 = paper_trigger (PaperCompleted False (po_id a) (po_base a) (po_quote a) sold_amount acquired_amount LIMIT) pa2
             in Inr (delete_order False a pa3)))"

definition process_limit_order :: "bool \<Rightarrow> paper_order \<Rightarrow> paper_exchange \<Rightarrow> paper_exchange" where
  "process_limit_order is_buy a pa =
     (case (if is_buy then process_limit_bid_order a pa else process_limit_ask_order a pa) of
        Inl e \<Rightarrow> pa | Inr pa' \<Rightarrow> pa')"

subsection \<open>Matching\<close>

definition paper_price :: "paper_exchange \<Rightarrow> string \<Rightarrow> bool \<Rightarrow> py_error + decimal option" where
  "paper_price pa tp is_buy =
     (if tp \<notin> fst ` set (pa_trading_pairs pa) then Inl ValueError
      else case map_of (pa_order_books pa) (pa_to_exchange_pair pa tp) of
        None \<Rightarrow> Inl KeyError
      | Some cob \<Rightarrow> bind_err (composite_price is_buy cob) (\<lambda>p. Inr (map_option (paper_quantize_price pa tp) p)))"

text \<open>The orders of a pair, best first, up to the first the condition does not hold for.\<close>

definition matched_orders :: "bool \<Rightarrow> (decimal \<Rightarrow> bool) \<Rightarrow> string \<Rightarrow> paper_exchange \<Rightarrow> paper_order list" where
  "matched_orders is_buy crossed tp pa =
     (let xs = orders_of tp (side_orders is_buy pa)
      in takeWhile (\<lambda>a. crossed (po_price a)) (if is_buy then rev xs else xs))"

definition process_crossed_for_trading_pair :: "bool \<Rightarrow> string \<Rightarrow> paper_exchange \<Rightarrow> paper_exchange \<times> py_error option" where
  "process_crossed_for_trading_pair is_buy tp pa =
     (case paper_price pa tp is_buy of
        Inl e \<Rightarrow> (pa, Some e)
      | Inr None \<Rightarrow> (pa, if orders_of tp (side_orders is_buy pa) = [] then None else Some InvalidOperation)
      | Inr (Some price) \<Rightarrow>
          (fold (process_limit_order is_buy)
             (matched_orders is_buy (\<lambda>p. if is_buy then \<not> p < price else \<not> price < p) tp pa) pa, None))"

text \<open>
  The loop over the pairs of one side: when the last order of a pair is deleted the iterator already is
  at the next pair, and the loop advances it once more.
\<close>

fun process_crossed_side :: "bool \<Rightarrow> string list \<Rightarrow> paper_exchange \<Rightarrow> paper_exchange \<times> py_error option" where
  "process_crossed_side is_buy [] pa = (pa, None)"
| "process_crossed_side is_buy (tp # tps) pa =
     (case process_crossed_for_trading_pair is_buy tp pa of
        (pa1, Some e) \<Rightarrow> (pa1, Some e)
      | (pa1, None) \<Rightarrow>
          if tp \<in> fst ` set (side_orders is_buy pa1) then process_crossed_side is_buy tps pa1
          else (case tps of [] \<Rightarrow> (pa1, None) | _ # tps' \<Rightarrow> process_crossed_side is_buy tps' pa1))"

definition process_crossed_limit_orders :: "paper_exchange \<Rightarrow> paper_exchange \<times> py_error option" where
  "process_crossed_limit_orders pa =
     (case process_crossed_side True (map fst (pa_bids pa)) pa of
        (pa1, Some e) \<Rightarrow> (pa1, Some e)
      | (pa1, None) \<Rightarrow> process_crossed_side False (map fst (pa_asks pa1)) pa1)"

definition paper_tick :: "seconds \<Rightarrow> paper_exchange \<Rightarrow> paper_exchange \<times> py_error option" where
  "paper_tick timestamp pa = process_crossed_limit_orders (process_market_orders (pa\<lparr>pa_now := timestamp\<rparr>))"

text \<open>A trade on the market fills the orders of the maker's side with a better price than the trade's.\<close>

definition match_trade_to_limit_orders :: "string \<Rightarrow> trade_type \<Rightarrow> decimal \<Rightarrow> paper_exchange \<Rightarrow> paper_exchange" where
  "match_trade_to_limit_orders tp side price pa =
     (let is_maker_buy = (side = SELL)
      in fold (process_limit_order is_maker_buy)
           (matched_orders is_maker_buy (\<lambda>p. if is_maker_buy then \<not> p \<le> price else \<not> price \<le> p) tp pa) pa)"

subsection \<open>The orders of a pair\<close>

lemma str_less_irrefl: "\<not> str_less a a"
  by (simp add: str_less_def lexordp_irreflexive')

lemma str_less_trans: "str_less a b \<Longrightarrow> str_less b c \<Longrightarrow> str_less a c"
  unfolding str_less_def by (rule lexordp_trans)

lemma order_before_irrefl [simp]: "\<not> order_before a a"
  by (simp add: order_before_def str_less_irrefl)

lemma order_before_trans: "order_before a b \<Longrightarrow> order_before b c \<Longrightarrow> order_before a c"
  by (auto simp: order_before_def split: if_splits intro: str_less_trans)

definition ranked :: "paper_order list \<Rightarrow> bool" where
  "ranked xs \<longleftrightarrow> sorted_wrt order_before xs"

lemma insert_order_set: "set (insert_order a xs) \<subseteq> insert a (set xs)"
  by (induction xs) auto

lemma insert_order_keeps: "set xs \<subseteq> set (insert_order a xs)"
  by (induction xs) auto

lemma insert_order_ranked: "ranked xs \<Longrightarrow> ranked (insert_order a xs)"
  unfolding ranked_def
proof (induction xs)
  case (Cons b xs)
  then show ?case using insert_order_set[of a xs] by (auto intro: order_before_trans)
qed simp

lemma ranked_distinct: "ranked xs \<Longrightarrow> distinct xs"
  by (induction xs) (auto simp: ranked_def)

lemma ranked_filter: "ranked xs \<Longrightarrow> ranked (filter p xs)"
  by (simp add: ranked_def sorted_wrt_filter)

lemma ranked_prices: "ranked xs \<Longrightarrow> sorted (map po_price xs)"
  by (induction xs) (auto simp: ranked_def order_before_def split: if_splits)

lemma remove1_filter: "distinct xs \<Longrightarrow> remove1 a xs = filter (\<lambda>x. a \<noteq> x) xs"
  by (simp add: distinct_remove1_removeAll removeAll_filter_not_eq)

definition open_orders :: "bool \<Rightarrow> string \<Rightarrow> paper_exchange \<Rightarrow> paper_order list" where
  "open_orders is_buy tp pa = orders_of tp (side_orders is_buy pa)"

lemma orders_of_update [simp]: "orders_of tp (AList.update k xs m) = (if tp = k then xs else orders_of tp m)"
  by (simp add: orders_of_def update_conv')

lemma orders_of_delete [simp]: "orders_of tp (AList.delete k m) = (if tp = k then [] else orders_of tp m)"
  by (simp add: orders_of_def delete_conv')

lemma orders_of_delete_limit_order:
  "orders_of tp (delete_limit_order k a m) = (if tp = k then remove1 a (orders_of k m) else orders_of tp m)"
  by (simp add: delete_limit_order_def Let_def)

lemma side_orders_set [simp]:
  "side_orders b (set_side_orders b' m pa) = (if b = b' then m else side_orders b pa)"
  by (cases b; cases b') (simp_all add: side_orders_def set_side_orders_def)

lemma set_side_orders_fields [simp]:
  "pa_balances (set_side_orders b m pa) = pa_balances pa" "pa_events (set_side_orders b m pa) = pa_events pa"
  "pa_queued (set_side_orders b m pa) = pa_queued pa" "pa_trading_pairs (set_side_orders b m pa) = pa_trading_pairs pa"
  "pa_order_books (set_side_orders b m pa) = pa_order_books pa" "pa_env (set_side_orders b m pa) = pa_env pa"
  "pa_now (set_side_orders b m pa) = pa_now pa"
  by (simp_all add: set_side_orders_def)

lemma paper_trigger_fields [simp]:
  "pa_balances (paper_trigger e pa) = pa_balances pa" "pa_events (paper_trigger e pa) = pa_events pa @ [e]"
  "pa_queued (paper_trigger e pa) = pa_queued pa" "pa_trading_pairs (paper_trigger e pa) = pa_trading_pairs pa"
  "pa_env (paper_trigger e pa) = pa_env pa" "pa_now (paper_trigger e pa) = pa_now pa"
  "pa_bids (paper_trigger e pa) = pa_bids pa" "pa_asks (paper_trigger e pa) = pa_asks pa"
  by (simp_all add: paper_trigger_def Let_def split: paper_event.splits option.splits)

lemma side_orders_fields [simp]:
  "side_orders b (paper_trigger e pa) = side_orders b pa" "side_orders b (set_balance c x pa) = side_orders b pa"
  "side_orders b (set_order_book tp cob pa) = side_orders b pa" "side_orders b (pa\<lparr>pa_queued := q\<rparr>) = side_orders b pa"
  "side_orders b (pa\<lparr>pa_now := t\<rparr>) = side_orders b pa" "side_orders b (pa\<lparr>pa_order_books := bs\<rparr>) = side_orders b pa"
  by (simp_all add: side_orders_def set_balance_def set_order_book_def)

lemma set_balance_fields [simp]:
  "pa_events (set_balance c x pa) = pa_events pa" "pa_queued (set_balance c x pa) = pa_queued pa"
  "pa_trading_pairs (set_balance c x pa) = pa_trading_pairs pa" "pa_env (set_balance c x pa) = pa_env pa"
  "pa_now (set_balance c x pa) = pa_now pa" "pa_order_books (set_balance c x pa) = pa_order_books pa"
  by (simp_all add: set_balance_def)

lemma set_order_book_fields [simp]:
  "pa_balances (set_order_book tp cob pa) = pa_balances pa" "pa_events (set_order_book tp cob pa) = pa_events pa"
  "pa_queued (set_order_book tp cob pa) = pa_queued pa" "pa_trading_pairs (set_order_book tp cob pa) = pa_trading_pairs pa"
  "pa_env (set_order_book tp cob pa) = pa_env pa" "pa_now (set_order_book tp cob pa) = pa_now pa"
  by (simp_all add: set_order_book_def)

lemma fold_trigger_fields [simp]:
  "pa_balances (fold paper_trigger es pa) = pa_balances pa" "pa_events (fold paper_trigger es pa) = pa_events pa @ es"
  "pa_queued (fold paper_trigger es pa) = pa_queued pa" "pa_trading_pairs (fold paper_trigger es pa) = pa_trading_pairs pa"
  "pa_env (fold paper_trigger es pa) = pa_env pa" "pa_now (fold paper_trigger es pa) = pa_now pa"
  "side_orders b (fold paper_trigger es pa) = side_orders b pa"
  by (induction es arbitrary: pa) simp_all

lemma open_orders_delete:
  "open_orders b tp (delete_order is_buy a pa) =
    (if b = is_buy \<and> tp = po_trading_pair a then remove1 a (open_orders b tp pa) else open_orders b tp pa)"
  by (auto simp: open_orders_def delete_order_def orders_of_delete_limit_order)

lemma delete_order_fields [simp]:
  "pa_balances (delete_order b a pa) = pa_balances pa" "pa_events (delete_order b a pa) = pa_events pa"
  "pa_queued (delete_order b a pa) = pa_queued pa" "pa_trading_pairs (delete_order b a pa) = pa_trading_pairs pa"
  "pa_order_books (delete_order b a pa) = pa_order_books pa" "pa_env (delete_order b a pa) = pa_env pa"
  "pa_now (delete_order b a pa) = pa_now pa"
  by (simp_all add: delete_order_def)

lemma paper_balance_set_balance: "paper_balance (set_balance c x pa) d = (if upper d = upper c then x else paper_balance pa d)"
  by (simp add: paper_balance_def set_balance_def)

subsection \<open>What an order pays and acquires\<close>

definition settled_candidate :: "bool \<Rightarrow> string \<Rightarrow> bool \<Rightarrow> order_type \<Rightarrow> decimal \<Rightarrow> decimal \<Rightarrow> order_candidate" where
  "settled_candidate is_buy tp is_maker ot amount price =
     new_order_candidate tp is_maker ot (if is_buy then BUY else SELL) amount price True None"

definition net_returns :: "trade_fee \<Rightarrow> decimal \<Rightarrow> decimal" where
  "net_returns fee r = (if tf_class fee = DeductedFromReturns then r - r * tf_percent fee else r)"

lemma settlement_spot:
  assumes "split_hb_trading_pair tp = Inr bq"
  shows "settlement pa (settled_candidate is_buy tp is_maker ot amount price) =
    Inr (if is_buy then amount * price else amount,
         net_returns (build_trade_fee (ex_fee_schema (pa_env pa)) is_maker (if is_buy then BUY else SELL) [])
           (if is_buy then amount else amount * price))"
proof (cases bq)
  case (Pair base quote)
  let ?fee = "build_trade_fee (ex_fee_schema (pa_env pa)) is_maker (if is_buy then BUY else SELL) []"
  show ?thesis
    using assms
    by (cases "tf_class ?fee"; cases is_buy; cases "tf_percent_token ?fee")
      (auto simp: Pair settlement_def settled_candidate_def new_order_candidate_def populate_collateral_entries_def
        populate_order_collateral_entry_def get_order_collateral_token_def spot_order_collateral_token_def
        get_order_collateral_amount_def spot_order_collateral_amount_def get_size_token_and_order_size_def
        get_size_collateral_price_def get_fee_def spot_get_fee_def populate_percent_fee_collateral_entry_def
        spot_populate_percent_fee_collateral_entry_def get_fee_impact_on_order_cost_def impact_fee_token_def
        size_fee_amount_def populate_fixed_fee_collateral_entries_def populate_potential_returns_entry_def
        get_returns_token_def spot_returns_token_def get_returns_amount_def spot_returns_amount_def
        populate_percent_fee_value_def spot_populate_percent_fee_value_def get_fee_impact_on_order_returns_def
        apply_fee_impact_on_potential_returns_def net_returns_def Let_def split: list.splits)
qed

lemma settlement_unsplit:
  "split_hb_trading_pair tp = Inl e \<Longrightarrow> settlement pa (settled_candidate is_buy tp is_maker ot amount price) = Inl e"
  by (simp add: settlement_def settled_candidate_def new_order_candidate_def populate_collateral_entries_def
      populate_order_collateral_entry_def get_order_collateral_token_def spot_order_collateral_token_def)

lemma settlement_Inr:
  assumes "settlement pa (settled_candidate is_buy tp is_maker ot amount price) = Inr (paid, acquired)"
  shows "paid = (if is_buy then amount * price else amount)"
    "acquired = net_returns (build_trade_fee (ex_fee_schema (pa_env pa)) is_maker (if is_buy then BUY else SELL) [])
           (if is_buy then amount else amount * price)"
proof -
  obtain bq where "split_hb_trading_pair tp = Inr bq"
    using assms settlement_unsplit[of tp] by (cases "split_hb_trading_pair tp") auto
  from settlement_spot[OF this] assms show "paid = (if is_buy then amount * price else amount)"
    "acquired = net_returns (build_trade_fee (ex_fee_schema (pa_env pa)) is_maker (if is_buy then BUY else SELL) [])
           (if is_buy then amount else amount * price)" by auto
qed

text \<open>The two accounts of an order that is filled.\<close>

definition settle :: "bool \<Rightarrow> string \<Rightarrow> string \<Rightarrow> decimal \<Rightarrow> decimal \<Rightarrow> paper_exchange \<Rightarrow> paper_exchange" where
  "settle is_buy base quote paid acquired pa =
     (if is_buy
      then set_balance base (paper_balance pa base + acquired) (set_balance quote (paper_balance pa quote - paid) pa)
      else set_balance base (paper_balance pa base - paid) (set_balance quote (paper_balance pa quote + acquired) pa))"

definition completed_event :: "bool \<Rightarrow> string \<Rightarrow> string \<Rightarrow> string \<Rightarrow> decimal \<Rightarrow> decimal \<Rightarrow> order_type \<Rightarrow> paper_event" where
  "completed_event is_buy order_id base quote paid acquired ot =
     PaperCompleted is_buy order_id base quote (if is_buy then acquired else paid) (if is_buy then paid else acquired) ot"

lemma settle_fields [simp]:
  "pa_events (settle b base quote paid acquired pa) = pa_events pa" "pa_queued (settle b base quote paid acquired pa) = pa_queued pa"
  "pa_trading_pairs (settle b base quote paid acquired pa) = pa_trading_pairs pa"
  "pa_env (settle b base quote paid acquired pa) = pa_env pa" "pa_now (settle b base quote paid acquired pa) = pa_now pa"
  "pa_order_books (settle b base quote paid acquired pa) = pa_order_books pa"
  "side_orders b' (settle b base quote paid acquired pa) = side_orders b' pa"
  by (simp_all add: settle_def)

lemma process_limit_order_eq:
  "process_limit_order is_buy a pa =
    (case settlement pa (settled_candidate is_buy (po_trading_pair a) (\<not> is_buy) LIMIT (po_quantity a) (po_price a)) of
       Inl e \<Rightarrow> pa
     | Inr (paid, acquired) \<Rightarrow>
         if paper_balance pa (if is_buy then po_quote a else po_base a) < paid
         then cancel_order is_buy a pa
         else delete_order is_buy a
           (paper_trigger (completed_event is_buy (po_id a) (po_base a) (po_quote a) paid acquired LIMIT)
             (paper_trigger (PaperFilled (po_id a) (po_trading_pair a) is_buy LIMIT (po_price a) (po_quantity a)
                (event_fee pa True (if is_buy then BUY else SELL)))
               (settle is_buy (po_base a) (po_quote a) paid acquired pa))))"
  by (cases is_buy)
    (auto simp: process_limit_order_def process_limit_bid_order_def process_limit_ask_order_def settled_candidate_def
      completed_event_def settle_def cancel_order_def event_fee_def Let_def split: sum.splits)

lemma process_limit_order_cases:
  obtains (kept) "process_limit_order is_buy a pa = pa"
      "\<exists>e. split_hb_trading_pair (po_trading_pair a) = Inl e"
  | (cancelled) "process_limit_order is_buy a pa = cancel_order is_buy a pa"
  | (filled) paid acquired where
      "settlement pa (settled_candidate is_buy (po_trading_pair a) (\<not> is_buy) LIMIT (po_quantity a) (po_price a)) = Inr (paid, acquired)"
      "paid \<le> paper_balance pa (if is_buy then po_quote a else po_base a)"
      "process_limit_order is_buy a pa = delete_order is_buy a
           (paper_trigger (completed_event is_buy (po_id a) (po_base a) (po_quote a) paid acquired LIMIT)
             (paper_trigger (PaperFilled (po_id a) (po_trading_pair a) is_buy LIMIT (po_price a) (po_quantity a)
                (event_fee pa True (if is_buy then BUY else SELL)))
               (settle is_buy (po_base a) (po_quote a) paid acquired pa)))"
proof (cases "split_hb_trading_pair (po_trading_pair a)")
  case (Inl e)
  then have "process_limit_order is_buy a pa = pa" by (simp add: process_limit_order_eq settlement_unsplit)
  then show thesis using Inl kept by blast
next
  case (Inr bq)
  note s = settlement_spot[OF Inr]
  obtain paid acquired where
    set: "settlement pa (settled_candidate is_buy (po_trading_pair a) (\<not> is_buy) LIMIT (po_quantity a) (po_price a)) = Inr (paid, acquired)"
    using s by simp
  show thesis
  proof (cases "paper_balance pa (if is_buy then po_quote a else po_base a) < paid")
    case True
    then show thesis by (intro cancelled) (simp only: process_limit_order_eq set sum.case prod.case if_True)
  next
    case False
    then show thesis by (intro filled[OF set]) (simp_all add: process_limit_order_eq set)
  qed
qed

definition execute_order :: "queued_order \<Rightarrow> paper_exchange \<Rightarrow> paper_exchange" where
  "execute_order q pa = fst ((if qo_is_buy q then execute_buy else execute_sell)
     (qo_order_id q) (qo_trading_pair q) (qo_amount q) pa)"

text \<open>The average price of the entries times the amount is their value.\<close>

lemma execute_order_cases:
  obtains (kept) "execute_order q pa = pa"
  | (simulated) cob where "execute_order q pa = set_order_book (qo_trading_pair q) cob pa"
      "\<exists>cob0. map_of (pa_order_books pa) (qo_trading_pair q) = Some cob0 \<and> co_book cob = co_book cob0"
  | (failed) cob where
      "execute_order q pa = paper_trigger (PaperFailed (qo_order_id q) MARKET) (set_order_book (qo_trading_pair q) cob pa)"
      "\<exists>cob0. map_of (pa_order_books pa) (qo_trading_pair q) = Some cob0 \<and> co_book cob = co_book cob0"
  | (filled) cob0 cob base quote fee acquired paid fills where
      "map_of (pa_order_books pa) (qo_trading_pair q) = Some cob0" "co_book cob = co_book cob0"
      "map_of (pa_trading_pairs pa) (qo_trading_pair q) = Some (base, quote)"
      "qo_amount q \<noteq> 0"
      "fee = build_trade_fee (ex_fee_schema (pa_env pa)) False (if qo_is_buy q then BUY else SELL) []"
      "paid = (if qo_is_buy q then total_value (simulate (qo_amount q) (composite_entries (qo_is_buy q) cob0)) else qo_amount q)"
      "acquired = net_returns fee
         (if qo_is_buy q then qo_amount q else total_value (simulate (qo_amount q) (composite_entries (qo_is_buy q) cob0)))"
      "paid \<le> paper_balance pa (if qo_is_buy q then quote else base)"
      "\<forall>e \<in> set fills. \<exists>price amount fee. e = PaperFilled (qo_order_id q) (qo_trading_pair q) (qo_is_buy q) MARKET price amount fee"
      "execute_order q pa = paper_trigger (completed_event (qo_is_buy q) (qo_order_id q) base quote paid acquired MARKET)
         (fold paper_trigger fills (settle (qo_is_buy q) base quote paid acquired (set_order_book (qo_trading_pair q) cob pa)))"
proof -
  let ?tp = "qo_trading_pair q" and ?b = "qo_is_buy q" and ?n = "qo_amount q"
  consider "map_of (pa_trading_pairs pa) ?tp = None \<or> map_of (pa_order_books pa) ?tp = None"
    | base quote cob0 where "map_of (pa_trading_pairs pa) ?tp = Some (base, quote)" "map_of (pa_order_books pa) ?tp = Some cob0"
    by (metis option.exhaust prod.exhaust)
  then show thesis
  proof cases
    case 1
    then show thesis
      by (intro kept) (auto simp: execute_order_def execute_buy_def execute_sell_def split: option.splits)
  next
    case 2
    define rows where "rows = simulate ?n (composite_entries ?b cob0)"
    obtain cob where sim: "composite_simulate ?b ?n cob0 = (rows, cob)" and book: "co_book cob = co_book cob0"
      by (auto simp: composite_simulate_def rows_def entries_taken_def Let_def)
    have bal: "paper_balance (set_order_book ?tp cob pa) = paper_balance pa" by (intro ext) (simp add: paper_balance_def)
    have val: "(\<Sum>r \<leftarrow> rows. br_price r * br_amount r) = total_value rows" by (simp add: total_value_def row_value_def mult.commute)
    show thesis
    proof (cases "?n = 0")
      case True
      then have "execute_order q pa = set_order_book ?tp cob pa"
        using 2 sim by (cases ?b) (simp_all add: execute_order_def execute_buy_def execute_sell_def dec_div_def)
      then show thesis using simulated 2 book by blast
    next
      case nz: False
      show thesis
      proof (cases "settlement (set_order_book ?tp cob pa) (settled_candidate ?b ?tp False MARKET ?n (total_value rows / ?n))")
        case (Inl e)
        then have "execute_order q pa = set_order_book ?tp cob pa"
          using 2 sim nz by (cases ?b) (simp_all add: execute_order_def execute_buy_def execute_sell_def val settled_candidate_def)
        then show thesis using simulated 2 book by blast
      next
        case (Inr pr)
        obtain paid acquired where pr: "pr = (paid, acquired)" by fastforce
        show thesis
        proof (cases "paper_balance pa (if ?b then quote else base) < paid")
          case True
          then have "execute_order q pa = paper_trigger (PaperFailed (qo_order_id q) MARKET) (set_order_book ?tp cob pa)"
            using 2 sim nz Inr pr by (cases ?b) (simp_all add: execute_order_def execute_buy_def execute_sell_def val settled_candidate_def)
          then show thesis using failed 2 book by blast
        next
          case False
          note amounts = settlement_Inr[OF Inr[unfolded pr]]
          show thesis
          proof (rule filled[OF 2(2) book 2(1) nz refl])
            show "paid = (if ?b then total_value (simulate ?n (composite_entries ?b cob0)) else ?n)"
              using amounts(1) nz by (simp add: rows_def)
            show "acquired = net_returns (build_trade_fee (ex_fee_schema (pa_env pa)) False (if ?b then BUY else SELL) [])
               (if ?b then ?n else total_value (simulate ?n (composite_entries ?b cob0)))"
              using amounts(2) nz by (simp add: rows_def)
            show "paid \<le> paper_balance pa (if ?b then quote else base)" using False by simp
            show "execute_order q pa = paper_trigger (completed_event ?b (qo_order_id q) base quote paid acquired MARKET)
               (fold paper_trigger (fill_events (qo_order_id q) ?tp ?b (event_fee pa False BUY) rows)
                 (settle ?b base quote paid acquired (set_order_book ?tp cob pa)))"
              using 2 sim nz Inr pr False
              by (cases ?b) (simp_all add: execute_order_def execute_buy_def execute_sell_def val settled_candidate_def settle_def
                  completed_event_def bal event_fee_def Let_def)
          qed (auto simp: fill_events_def)
        qed
      qed
    qed
  qed
qed

subsection \<open>What every operation keeps\<close>

definition orders_ok :: "paper_exchange \<Rightarrow> bool" where
  "orders_ok pa \<longleftrightarrow> (\<forall>b tp. ranked (open_orders b tp pa) \<and>
     (\<forall>a \<in> set (open_orders b tp pa). po_trading_pair a = tp \<and> po_is_buy a = b))"

definition created_ids :: "paper_exchange \<Rightarrow> string set" where
  "created_ids pa = {coid. \<exists>b ot tp amount price. PaperCreated b ot tp amount price coid \<in> set (pa_events pa)}"

definition books_nonneg :: "(string, composite_book) pydict \<Rightarrow> bool" where
  "books_nonneg books \<longleftrightarrow> (\<forall>(tp, cob) \<in> set books. \<forall>r \<in> set (ob_bid_book (co_book cob)) \<union> set (ob_ask_book (co_book cob)).
     0 \<le> br_price r \<and> 0 \<le> br_amount r)"

lemma remove1_others: "x \<in> set xs \<Longrightarrow> x \<noteq> a \<Longrightarrow> x \<in> set (remove1 a xs)"
  by (induction xs) auto

lemma open_orders_cancel:
  "set (open_orders b' tp (cancel_order b a pa)) \<supseteq> set (open_orders b' tp pa) - {a}"
proof -
  have "open_orders b' tp (cancel_order b a pa) = open_orders b' tp (delete_order b a pa)"
    by (simp add: cancel_order_def open_orders_def)
  then show ?thesis by (auto simp: open_orders_delete intro: remove1_others)
qed

lemma open_orders_process:
  "set (open_orders b' tp (process_limit_order b a pa)) \<supseteq> set (open_orders b' tp pa) - {a}"
proof (cases rule: process_limit_order_cases[of b a pa])
  case kept
  then show ?thesis by auto
next
  case cancelled
  then show ?thesis using open_orders_cancel[of b' tp pa a b] by simp
next
  case (filled paid acquired)
  show ?thesis unfolding filled(3) open_orders_delete by (auto simp: open_orders_def intro: remove1_others)
qed

text \<open>
  The states an exchange gets to from a state.  The identifiers of orders are new, and the books of the
  market change in any way that leaves prices and amounts non-negative.
\<close>

inductive paper_reachable :: "paper_exchange \<Rightarrow> paper_exchange \<Rightarrow> bool" for initial where
  start: "paper_reachable initial initial"
| placed: "paper_reachable initial pa \<Longrightarrow> order_id \<notin> created_ids pa \<Longrightarrow> 0 \<le> amount \<Longrightarrow> 0 \<le> price \<Longrightarrow>
    place_paper_order is_buy order_id tp amount ot price pa = Inr pa' \<Longrightarrow> paper_reachable initial pa'"
| cancelled: "paper_reachable initial pa \<Longrightarrow> paper_reachable initial (paper_cancel tp client_order_id pa)"
| cancelled_all: "paper_reachable initial pa \<Longrightarrow> paper_reachable initial (snd (paper_cancel_all pa))"
| ticked: "paper_reachable initial pa \<Longrightarrow> paper_reachable initial (fst (paper_tick timestamp pa))"
| traded: "paper_reachable initial pa \<Longrightarrow> paper_reachable initial (match_trade_to_limit_orders tp side price pa)"
| market: "paper_reachable initial pa \<Longrightarrow> books_nonneg books \<Longrightarrow> paper_reachable initial (pa\<lparr>pa_order_books := books\<rparr>)"

text \<open>
  What has to be shown of a property for it to hold in every state: that it is kept by what happens to a
  single order.
\<close>

locale paper_contract =
  fixes I :: "paper_exchange \<Rightarrow> bool"
  assumes orders: "I pa \<Longrightarrow> orders_ok pa"
    and place: "I pa \<Longrightarrow> order_id \<notin> created_ids pa \<Longrightarrow> 0 \<le> amount \<Longrightarrow> 0 \<le> price \<Longrightarrow>
      place_paper_order is_buy order_id tp amount ot price pa = Inr pa' \<Longrightarrow> I pa'"
    and execute: "I pa \<Longrightarrow> pa_queued pa = q # rest \<Longrightarrow> I (execute_order q (pa\<lparr>pa_queued := rest\<rparr>))"
    and process: "I pa \<Longrightarrow> a \<in> set (open_orders b tp pa) \<Longrightarrow> I (process_limit_order b a pa)"
    and cancel: "I pa \<Longrightarrow> a \<in> set (open_orders b tp pa) \<Longrightarrow> I (cancel_order b a pa)"
    and clock: "I pa \<Longrightarrow> I (pa\<lparr>pa_now := timestamp\<rparr>)"
    and books: "I pa \<Longrightarrow> books_nonneg bs \<Longrightarrow> I (pa\<lparr>pa_order_books := bs\<rparr>)"
begin

lemma fold_orders:
  assumes step: "\<And>pa a. I pa \<Longrightarrow> a \<in> set (open_orders b tp pa) \<Longrightarrow> I (f a pa)"
    and others: "\<And>pa a. set (open_orders b tp (f a pa)) \<supseteq> set (open_orders b tp pa) - {a}"
  shows "I pa \<Longrightarrow> distinct xs \<Longrightarrow> set xs \<subseteq> set (open_orders b tp pa) \<Longrightarrow> I (fold f xs pa)"
proof (induction xs arbitrary: pa)
  case (Cons a xs)
  have "set xs \<subseteq> set (open_orders b tp (f a pa))" using others[of pa a] Cons.prems by auto
  then show ?case using Cons.IH[of "f a pa"] Cons.prems step by simp
qed simp

lemma open_distinct: "I pa \<Longrightarrow> distinct (open_orders b tp pa)"
  using orders ranked_distinct by (simp add: orders_ok_def)

lemma fold_process: "I pa \<Longrightarrow> distinct xs \<Longrightarrow> set xs \<subseteq> set (open_orders b tp pa) \<Longrightarrow> I (fold (process_limit_order b) xs pa)"
  by (rule fold_orders[where b = b and tp = tp]) (auto intro: process open_orders_process[THEN subsetD])

lemma matched_subset: "I pa \<Longrightarrow> distinct (matched_orders b p tp pa)" "set (matched_orders b p tp pa) \<subseteq> set (open_orders b tp pa)"
  using open_distinct[of pa b tp]
  by (auto simp: matched_orders_def open_orders_def Let_def intro!: distinct_takeWhile dest: set_takeWhileD)

lemma process_matched: "I pa \<Longrightarrow> I (fold (process_limit_order b) (matched_orders b p tp pa) pa)"
  using fold_process matched_subset by blast

lemma crossed_for_pair: "I pa \<Longrightarrow> I (fst (process_crossed_for_trading_pair b tp pa))"
  by (auto simp: process_crossed_for_trading_pair_def process_matched split: sum.splits option.splits)

lemma crossed_side: "I pa \<Longrightarrow> I (fst (process_crossed_side b tps pa))"
proof (induction b tps pa rule: process_crossed_side.induct)
  case (2 b tp tps pa)
  obtain pa1 r where p: "process_crossed_for_trading_pair b tp pa = (pa1, r)" by fastforce
  have I1: "I pa1" using crossed_for_pair[OF 2(3), of b tp] p by simp
  then show ?case using 2(1)[OF p[symmetric]] 2(2)[OF p[symmetric]] p by (auto split: option.splits list.splits)
qed simp

lemma crossed: "I pa \<Longrightarrow> I (fst (process_crossed_limit_orders pa))"
proof -
  assume "I pa"
  obtain pa1 r where p: "process_crossed_side True (map fst (pa_bids pa)) pa = (pa1, r)" by fastforce
  have "I pa1" using crossed_side[OF \<open>I pa\<close>, of True "map fst (pa_bids pa)"] p by simp
  then show ?thesis by (auto simp: process_crossed_limit_orders_def p crossed_side split: option.splits)
qed

lemma execute_queued: "pa_queued (execute_order q pa) = pa_queued pa"
  by (cases rule: execute_order_cases[of q pa]) simp_all

lemma queue: "I pa \<Longrightarrow> pa_queued pa = qs \<Longrightarrow> I (process_queue qs pa)"
proof (induction qs arbitrary: pa)
  case (Cons q qs)
  let ?pa = "execute_order q (pa\<lparr>pa_queued := qs\<rparr>)"
  have "I ?pa" using execute[OF Cons.prems] .
  then show ?case using Cons.IH[of ?pa] Cons.prems by (simp add: execute_queued execute_order_def[symmetric])
qed simp

lemma tick: "I pa \<Longrightarrow> I (fst (paper_tick timestamp pa))"
  unfolding paper_tick_def process_market_orders_def by (intro crossed queue clock) simp_all

lemma cancel_map: "I pa \<Longrightarrow> I (snd (cancel_order_from_orders_map b tp p pa))"
proof -
  assume "I pa"
  let ?xs = "filter p (open_orders b tp pa)"
  have "I (fold (cancel_order b) ?xs pa)"
    using open_distinct[OF \<open>I pa\<close>, of b tp] \<open>I pa\<close>
    by (intro fold_orders[where b = b and tp = tp]) (auto intro: cancel open_orders_cancel[THEN subsetD])
  then show ?thesis by (simp add: cancel_order_from_orders_map_def open_orders_def Let_def)
qed

lemma cancel_sides: "I (snd s) \<Longrightarrow> I (snd (cancel_side b s))"
proof -
  have *: "I (snd s) \<Longrightarrow> I (snd (fold (\<lambda>tp (results, pa). apfst ((@) results) (cancel_order_from_orders_map b tp (\<lambda>_. True) pa)) tps s))"
    for tps
  proof (induction tps arbitrary: s)
    case (Cons tp tps)
    show ?case using Cons.IH[of "apfst ((@) (fst s)) (cancel_order_from_orders_map b tp (\<lambda>_. True) (snd s))"] Cons.prems
      by (simp add: cancel_map case_prod_beta)
  qed simp
  then show "I (snd s) \<Longrightarrow> I (snd (cancel_side b s))" unfolding cancel_side_def by blast
qed

theorem invariant: "paper_reachable initial pa \<Longrightarrow> I initial \<Longrightarrow> I pa"
proof (induction rule: paper_reachable.induct)
  case (placed pa order_id amount price is_buy tp ot pa')
  then show ?case using place by blast
next
  case (cancelled pa tp client_order_id)
  then show ?case by (simp add: paper_cancel_def cancel_map)
next
  case (cancelled_all pa)
  then show ?case by (simp add: paper_cancel_all_def cancel_sides)
next
  case (ticked pa timestamp)
  then show ?case using tick by blast
next
  case (traded pa tp side price)
  then show ?case by (simp add: match_trade_to_limit_orders_def Let_def process_matched)
next
  case (market pa books)
  then show ?case using books by blast
qed simp

end

definition open_set :: "paper_exchange \<Rightarrow> paper_order set" where
  "open_set pa = (\<Union>b. \<Union>tp. set (open_orders b tp pa))"

lemma ranked_remove1: "ranked xs \<Longrightarrow> ranked (remove1 a xs)"
  by (simp add: remove1_filter ranked_distinct ranked_filter)

lemma insert_order_mem: "a \<in> set (insert_order x xs) \<Longrightarrow> a = x \<or> a \<in> set xs"
  using insert_order_set[of x xs] by blast

lemma orders_okD:
  "orders_ok pa \<Longrightarrow> ranked (open_orders b tp pa)"
  "orders_ok pa \<Longrightarrow> a \<in> set (open_orders b tp pa) \<Longrightarrow> po_trading_pair a = tp"
  "orders_ok pa \<Longrightarrow> a \<in> set (open_orders b tp pa) \<Longrightarrow> po_is_buy a = b"
  by (auto simp: orders_ok_def)

lemma orders_okI:
  "(\<And>b tp. ranked (open_orders b tp pa)) \<Longrightarrow>
   (\<And>b tp a. a \<in> set (open_orders b tp pa) \<Longrightarrow> po_trading_pair a = tp \<and> po_is_buy a = b) \<Longrightarrow> orders_ok pa"
  by (auto simp: orders_ok_def)

lemma open_setI: "a \<in> set (open_orders b tp pa) \<Longrightarrow> a \<in> open_set pa"
  by (auto simp: open_set_def)

lemma open_orders_fields [simp]:
  "open_orders b tp (paper_trigger e pa) = open_orders b tp pa" "open_orders b tp (set_balance c x pa) = open_orders b tp pa"
  "open_orders b tp (set_order_book tp' cob pa) = open_orders b tp pa" "open_orders b tp (pa\<lparr>pa_queued := q\<rparr>) = open_orders b tp pa"
  "open_orders b tp (pa\<lparr>pa_now := t\<rparr>) = open_orders b tp pa" "open_orders b tp (pa\<lparr>pa_order_books := bs\<rparr>) = open_orders b tp pa"
  "open_orders b tp (settle b' base quote paid acquired pa) = open_orders b tp pa"
  "open_orders b tp (fold paper_trigger es pa) = open_orders b tp pa"
  by (simp_all add: open_orders_def)

lemma open_set_fields [simp]:
  "open_set (paper_trigger e pa) = open_set pa" "open_set (set_balance c x pa) = open_set pa"
  "open_set (set_order_book tp' cob pa) = open_set pa" "open_set (pa\<lparr>pa_queued := q\<rparr>) = open_set pa"
  "open_set (pa\<lparr>pa_now := t\<rparr>) = open_set pa" "open_set (pa\<lparr>pa_order_books := bs\<rparr>) = open_set pa"
  "open_set (settle b' base quote paid acquired pa) = open_set pa" "open_set (fold paper_trigger es pa) = open_set pa"
  by (simp_all add: open_set_def)

lemma orders_ok_fields [simp]:
  "orders_ok (paper_trigger e pa) = orders_ok pa" "orders_ok (set_balance c x pa) = orders_ok pa"
  "orders_ok (set_order_book tp' cob pa) = orders_ok pa" "orders_ok (pa\<lparr>pa_queued := q\<rparr>) = orders_ok pa"
  "orders_ok (pa\<lparr>pa_now := t\<rparr>) = orders_ok pa" "orders_ok (pa\<lparr>pa_order_books := bs\<rparr>) = orders_ok pa"
  "orders_ok (settle b' base quote paid acquired pa) = orders_ok pa" "orders_ok (fold paper_trigger es pa) = orders_ok pa"
  by (simp_all add: orders_ok_def)

lemma open_orders_execute [simp]:
  "open_orders b tp (execute_order q pa) = open_orders b tp pa" "open_set (execute_order q pa) = open_set pa"
  "orders_ok (execute_order q pa) = orders_ok pa"
  by (cases rule: execute_order_cases[of q pa]; simp)+

lemma orders_ok_delete: "orders_ok pa \<Longrightarrow> orders_ok (delete_order b a pa)"
  by (rule orders_okI)
    (auto simp: open_orders_delete ranked_remove1 orders_okD split: if_splits dest: set_remove1_subset[THEN subsetD])

lemma open_set_delete:
  assumes "orders_ok pa" "a \<in> set (open_orders b tp pa)"
  shows "open_set (delete_order b a pa) = open_set pa - {a}"
proof -
  have a: "po_trading_pair a = tp" "po_is_buy a = b" using assms by (auto simp: orders_ok_def)
  have "distinct (open_orders b tp pa)" using assms ranked_distinct by (simp add: orders_ok_def)
  moreover have "a \<notin> set (open_orders b' tp' pa)" if "b' \<noteq> b \<or> tp' \<noteq> tp" for b' tp'
    using that a orders_okD(2,3)[OF assms(1), of a b' tp'] by auto
  ultimately have "set (open_orders b' tp' (delete_order b a pa)) = set (open_orders b' tp' pa) - {a}" for b' tp'
    using a by (auto simp: open_orders_delete)
  then show ?thesis by (auto simp: open_set_def)
qed

lemma process_orders:
  assumes "orders_ok pa" "a \<in> set (open_orders b tp pa)"
  shows "orders_ok (process_limit_order b a pa)" "open_set (process_limit_order b a pa) \<subseteq> open_set pa"
    "orders_ok (cancel_order b a pa)" "open_set (cancel_order b a pa) = open_set pa - {a}"
proof -
  show c: "orders_ok (cancel_order b a pa)" "open_set (cancel_order b a pa) = open_set pa - {a}"
    using assms by (simp_all add: cancel_order_def orders_ok_delete open_set_delete)
  have "orders_ok (process_limit_order b a pa) \<and> open_set (process_limit_order b a pa) \<subseteq> open_set pa"
  proof (cases rule: process_limit_order_cases[of b a pa])
    case kept
    then show ?thesis using assms by simp
  next
    case cancelled
    then show ?thesis using c by auto
  next
    case (filled paid acquired)
    let ?pa = "paper_trigger (completed_event b (po_id a) (po_base a) (po_quote a) paid acquired LIMIT)
             (paper_trigger (PaperFilled (po_id a) (po_trading_pair a) b LIMIT (po_price a) (po_quantity a)
                (event_fee pa True (if b then BUY else SELL)))
               (settle b (po_base a) (po_quote a) paid acquired pa))"
    show ?thesis unfolding filled(3) using assms open_set_delete[of ?pa a b tp] orders_ok_delete[of ?pa b a] by auto
  qed
  then show "orders_ok (process_limit_order b a pa)" "open_set (process_limit_order b a pa) \<subseteq> open_set pa" by simp_all
qed

lemma place_cases:
  assumes "place_paper_order is_buy order_id tp amount ot price pa = Inr pa'"
  obtains base quote x where
    "map_of (pa_trading_pairs pa) tp = Some (base, quote)"
    "x = \<lparr>po_id = order_id, po_trading_pair = tp, po_is_buy = is_buy, po_base = base, po_quote = quote,
          po_price = paper_quantize_price pa tp price, po_quantity = paper_quantize_amount pa tp amount\<rparr>"
    "pa_balances pa' = pa_balances pa" "pa_order_books pa' = pa_order_books pa" "pa_env pa' = pa_env pa"
    "pa_trading_pairs pa' = pa_trading_pairs pa"
    "pa_events pa' = pa_events pa @ [PaperCreated is_buy ot tp (po_quantity x) (if ot = LIMIT then po_price x else 0) order_id]"
    "pa_queued pa' = pa_queued pa @ (if ot = MARKET then [\<lparr>qo_timestamp = pa_now pa, qo_order_id = order_id,
       qo_is_buy = is_buy, qo_trading_pair = tp, qo_amount = po_quantity x\<rparr>] else [])"
    "\<And>b' tp'. open_orders b' tp' pa' = (if ot = LIMIT \<and> b' = is_buy \<and> tp' = tp
       then insert_order x (open_orders b' tp' pa) else open_orders b' tp' pa)"
proof -
  obtain base quote where bq: "map_of (pa_trading_pairs pa) tp = Some (base, quote)"
    using assms by (auto simp: place_paper_order_def split: option.splits)
  have books: "pa_order_books (paper_trigger (PaperCreated b1 t1 p1 a1 r1 i1) pa1) = pa_order_books pa1" for b1 t1 p1 a1 r1 i1 pa1
    by (simp add: paper_trigger_def)
  show thesis
    by (rule that[OF bq refl]; cases ot;
      insert assms bq; auto simp: place_paper_order_def Let_def books add_limit_order_def open_orders_def)
qed

lemma place_orders:
  assumes "place_paper_order is_buy order_id tp amount ot price pa = Inr pa'" "orders_ok pa"
  shows "orders_ok pa'"
  using assms(1)
proof (cases rule: place_cases)
  case (1 base quote x)
  show ?thesis
    by (rule orders_okI) (auto simp: 1(2,9) insert_order_ranked orders_okD[OF assms(2)] split: if_splits dest!: insert_order_mem)
qed

interpretation ranked_book: paper_contract orders_ok
  by unfold_locales (auto intro: place_orders process_orders)

subsection \<open>Balances stay non-negative\<close>

lemma pow10_pos: "0 < pow10 e"
  by (simp add: pow10_def)

lemma paper_quantum_pos: "0 < paper_quantum precision decimals x"
  by (auto simp: paper_quantum_def Let_def pow10_pos less_max_iff_disj)

lemma round_half_even_nonneg: "0 \<le> x \<Longrightarrow> 0 \<le> round_half_even x"
  by (auto simp: round_half_even_def Let_def)

lemma round_7g_nonneg: "0 \<le> x \<Longrightarrow> 0 \<le> round_7g x"
  by (simp add: round_7g_def quantize_half_even_def round_half_even_nonneg pow10_pos less_imp_le)

lemma floor_to_nonneg: "0 < q \<Longrightarrow> 0 \<le> x \<Longrightarrow> 0 \<le> floor_to q x"
  by (simp add: floor_to_def truncate_rat_def)

lemma paper_quantize_nonneg:
  "0 \<le> x \<Longrightarrow> 0 \<le> paper_quantize_price pa tp x" "0 \<le> x \<Longrightarrow> 0 \<le> paper_quantize_amount pa tp x"
  by (auto simp: paper_quantize_price_def paper_quantize_amount_def paper_price_quantum_def paper_size_quantum_def Let_def
      intro!: floor_to_nonneg paper_quantum_pos pow10_pos round_7g_nonneg split: option.splits)

lemma net_returns_nonneg: "0 \<le> r \<Longrightarrow> tf_percent fee \<le> 1 \<Longrightarrow> 0 \<le> net_returns fee r"
  using mult_left_mono[of "tf_percent fee" 1 r] by (simp add: net_returns_def)

definition row_nonneg :: "order_book_row \<Rightarrow> bool" where
  "row_nonneg r \<longleftrightarrow> 0 \<le> br_price r \<and> 0 \<le> br_amount r"

lemma composite_nonneg: "list_all row_nonneg rs \<Longrightarrow> list_all row_nonneg (fst (composite better rs ts))"
  by (induction better rs ts rule: composite.induct) (simp_all add: row_nonneg_def)

lemma simulate_nonneg: "list_all row_nonneg rows \<Longrightarrow> 0 \<le> amount \<Longrightarrow> list_all row_nonneg (simulate amount rows)"
  by (induction amount rows rule: simulate.induct) (simp_all add: row_nonneg_def)

lemma total_value_nonneg: "list_all row_nonneg rows \<Longrightarrow> 0 \<le> total_value rows"
  by (induction rows) (simp_all add: row_value_def row_nonneg_def)

definition percents_ok :: "paper_exchange \<Rightarrow> bool" where
  "percents_ok pa \<longleftrightarrow> fs_maker_percent_fee_decimal (ex_fee_schema (pa_env pa)) \<le> 1 \<and>
     fs_taker_percent_fee_decimal (ex_fee_schema (pa_env pa)) \<le> 1"

lemma tf_percent_ok: "percents_ok pa \<Longrightarrow> tf_percent (build_trade_fee (ex_fee_schema (pa_env pa)) is_maker side fees) \<le> 1"
  by (simp add: percents_ok_def build_trade_fee_def new_spot_fee_def)

definition books_ok :: "paper_exchange \<Rightarrow> bool" where
  "books_ok pa \<longleftrightarrow> (\<forall>tp cob. map_of (pa_order_books pa) tp = Some cob \<longrightarrow>
     list_all row_nonneg (ob_bid_book (co_book cob)) \<and> list_all row_nonneg (ob_ask_book (co_book cob)))"

lemma books_okD:
  "books_ok pa \<Longrightarrow> map_of (pa_order_books pa) tp = Some cob \<Longrightarrow> list_all row_nonneg (composite_entries is_buy cob)"
  by (simp add: books_ok_def composite_entries_def composite_asks_def composite_bids_def composite_nonneg)

lemma books_ok_set:
  "books_ok pa \<Longrightarrow> map_of (pa_order_books pa) tp = Some cob0 \<Longrightarrow> co_book cob = co_book cob0 \<Longrightarrow> books_ok (set_order_book tp cob pa)"
  by (auto simp: books_ok_def set_order_book_def update_conv')

lemma books_ok_trigger: "books_ok pa \<Longrightarrow> books_ok (paper_trigger e pa)"
proof (cases e)
  case (PaperFilled coid tp is_buy ot price amount fee)
  then show "books_ok pa \<Longrightarrow> ?thesis"
    by (auto simp: books_ok_def paper_trigger_def Let_def update_conv' record_filled_order_def split: option.splits if_splits)
qed (simp_all add: books_ok_def paper_trigger_def)

lemma books_ok_fields [simp]:
  "books_ok (set_balance c x pa) = books_ok pa" "books_ok (settle b base quote paid acquired pa) = books_ok pa"
  "books_ok (delete_order b a pa) = books_ok pa" "books_ok (pa\<lparr>pa_queued := q\<rparr>) = books_ok pa"
  "books_ok (pa\<lparr>pa_now := t\<rparr>) = books_ok pa"
  by (simp_all add: books_ok_def)

lemma books_ok_triggers: "books_ok pa \<Longrightarrow> books_ok (fold paper_trigger es pa)"
  by (induction es arbitrary: pa) (simp_all add: books_ok_trigger)

lemma paper_balance_fields [simp]:
  "paper_balance (paper_trigger e pa) c = paper_balance pa c" "paper_balance (fold paper_trigger es pa) c = paper_balance pa c"
  "paper_balance (set_order_book tp cob pa) c = paper_balance pa c" "paper_balance (delete_order b a pa) c = paper_balance pa c"
  "paper_balance (pa\<lparr>pa_queued := q\<rparr>) c = paper_balance pa c" "paper_balance (pa\<lparr>pa_now := t\<rparr>) c = paper_balance pa c"
  "paper_balance (pa\<lparr>pa_order_books := bs\<rparr>) c = paper_balance pa c"
  by (simp_all add: paper_balance_def)

lemma settle_nonneg:
  assumes "\<forall>c. 0 \<le> paper_balance pa c" "0 \<le> acquired" "paid \<le> paper_balance pa (if is_buy then quote else base)"
  shows "0 \<le> paper_balance (settle is_buy base quote paid acquired pa) c"
  using assms(3) assms(1)[rule_format, of base] assms(1)[rule_format, of quote] assms(1)[rule_format, of c] assms(2)
  by (cases is_buy) (simp_all add: settle_def paper_balance_set_balance)

definition paper_solvent :: "paper_exchange \<Rightarrow> bool" where
  "paper_solvent pa \<longleftrightarrow> orders_ok pa \<and> percents_ok pa \<and> books_ok pa \<and> (\<forall>c. 0 \<le> paper_balance pa c) \<and>
     (\<forall>a \<in> open_set pa. 0 \<le> po_price a \<and> 0 \<le> po_quantity a) \<and> (\<forall>q \<in> set (pa_queued pa). 0 \<le> qo_amount q)"

lemma percents_ok_env: "pa_env pa' = pa_env pa \<Longrightarrow> percents_ok pa' = percents_ok pa"
  by (simp add: percents_ok_def)

lemma solvent_place:
  assumes s: "paper_solvent pa" and "0 \<le> amount" "0 \<le> price" and p: "place_paper_order is_buy order_id tp amount ot price pa = Inr pa'"
  shows "paper_solvent pa'"
proof -
  have ok: "orders_ok pa'" using place_orders[OF p] s by (simp add: paper_solvent_def)
  from p show ?thesis
  proof (cases rule: place_cases)
    case (1 base quote x)
    have x: "0 \<le> po_price x" "0 \<le> po_quantity x" using assms by (simp_all add: 1(2) paper_quantize_nonneg)
    have bal: "paper_balance pa' c = paper_balance pa c" for c by (simp add: paper_balance_def 1(3))
    have sub: "open_set pa' \<subseteq> insert x (open_set pa)"
      by (auto simp: open_set_def 1(9) split: if_splits dest!: insert_order_mem)
    have books: "books_ok pa'" using s by (simp add: paper_solvent_def books_ok_def 1(4))
    show ?thesis
      unfolding paper_solvent_def
      using ok s x books sub percents_ok_env[OF 1(5)] by (auto simp: paper_solvent_def bal 1(8))
  qed
qed

lemma solvent_execute:
  assumes s: "paper_solvent pa" and q: "pa_queued pa = q # rest"
  shows "paper_solvent (execute_order q (pa\<lparr>pa_queued := rest\<rparr>))"
proof -
  let ?pa = "pa\<lparr>pa_queued := rest\<rparr>"
  have s': "paper_solvent ?pa" using s q by (simp add: paper_solvent_def percents_ok_def)
  have n: "0 \<le> qo_amount q" using s q by (simp add: paper_solvent_def)
  show ?thesis
  proof (cases rule: execute_order_cases[of q ?pa])
    case kept
    then show ?thesis using s' by simp
  next
    case (simulated cob)
    then show ?thesis using s' books_ok_set[of ?pa] by (auto simp: paper_solvent_def percents_ok_def)
  next
    case (failed cob)
    then show ?thesis using s' books_ok_set[of ?pa] by (auto simp: paper_solvent_def percents_ok_def books_ok_trigger)
  next
    case (filled cob0 cob base quote fee acquired paid fills)
    have fee: "tf_percent fee \<le> 1" using tf_percent_ok[of ?pa] s' filled(5) by (simp add: paper_solvent_def)
    have "list_all row_nonneg (simulate (qo_amount q) (composite_entries (qo_is_buy q) cob0))"
      using simulate_nonneg[OF books_okD[OF _ filled(1)] n] s' by (simp add: paper_solvent_def)
    then have "0 \<le> acquired" using n fee filled(7) by (auto intro!: net_returns_nonneg total_value_nonneg)
    then have bal: "0 \<le> paper_balance (settle (qo_is_buy q) base quote paid acquired (set_order_book (qo_trading_pair q) cob ?pa)) c" for c
      using s' filled(8) by (intro settle_nonneg) (simp_all add: paper_solvent_def)
    have "books_ok (set_order_book (qo_trading_pair q) cob ?pa)" using books_ok_set[OF _ filled(1,2)] s' by (simp add: paper_solvent_def)
    then show ?thesis
      using s' bal unfolding filled(10) by (simp add: paper_solvent_def percents_ok_def books_ok_trigger books_ok_triggers)
  qed
qed

lemma solvent_process:
  assumes s: "paper_solvent pa" and a: "a \<in> set (open_orders b tp pa)"
  shows "paper_solvent (process_limit_order b a pa)" "paper_solvent (cancel_order b a pa)"
proof -
  have ok: "orders_ok pa" using s by (simp add: paper_solvent_def)
  note o = process_orders[OF ok a]
  have cancel: "paper_solvent (cancel_order b a pa)"
  proof -
    have "paper_balance (cancel_order b a pa) c = paper_balance pa c" "percents_ok (cancel_order b a pa) = percents_ok pa"
      "pa_queued (cancel_order b a pa) = pa_queued pa" for c
      by (simp_all add: cancel_order_def percents_ok_def)
    moreover have "books_ok (cancel_order b a pa)" using s by (simp add: cancel_order_def paper_solvent_def books_ok_trigger)
    ultimately show ?thesis using s o(3,4) by (simp add: paper_solvent_def)
  qed
  then show "paper_solvent (cancel_order b a pa)" .
  show "paper_solvent (process_limit_order b a pa)"
  proof (cases rule: process_limit_order_cases[of b a pa])
    case kept
    then show ?thesis using s by simp
  next
    case cancelled
    then show ?thesis using cancel by simp
  next
    case (filled paid acquired)
    have amounts: "0 \<le> po_price a" "0 \<le> po_quantity a" using s open_setI[OF a] by (simp_all add: paper_solvent_def)
    have "0 \<le> acquired"
      using settlement_Inr(2)[OF filled(1)] amounts s by (auto simp: paper_solvent_def intro!: net_returns_nonneg tf_percent_ok)
    then have bal: "0 \<le> paper_balance (process_limit_order b a pa) c" for c
      unfolding filled(3) using s filled(2) settle_nonneg[of pa acquired paid b "po_quote a" "po_base a" c] by (simp add: paper_solvent_def)
    have rest: "percents_ok (process_limit_order b a pa)" "pa_queued (process_limit_order b a pa) = pa_queued pa"
      "books_ok (process_limit_order b a pa)"
      unfolding filled(3) using s by (simp_all add: paper_solvent_def percents_ok_def books_ok_trigger)
    show ?thesis unfolding paper_solvent_def using o(1,2) bal rest s by (auto simp: paper_solvent_def)
  qed
qed

lemma solvent_books: "paper_solvent pa \<Longrightarrow> books_nonneg bs \<Longrightarrow> paper_solvent (pa\<lparr>pa_order_books := bs\<rparr>)"
  by (fastforce simp: paper_solvent_def percents_ok_def books_ok_def books_nonneg_def row_nonneg_def list_all_iff dest!: map_of_SomeD)

interpretation solvency: paper_contract paper_solvent
proof unfold_locales
  show "paper_solvent pa \<Longrightarrow> orders_ok pa" for pa by (simp add: paper_solvent_def)
  show "paper_solvent pa \<Longrightarrow> paper_solvent (pa\<lparr>pa_now := timestamp\<rparr>)" for pa timestamp
    by (simp add: paper_solvent_def percents_ok_def)
qed (use solvent_place solvent_execute solvent_process solvent_books in auto)

subsection \<open>The ledger\<close>

definition balance_change :: "string \<Rightarrow> paper_event \<Rightarrow> decimal" where
  "balance_change c e =
     (case e of
        PaperCompleted is_buy coid base quote base_amount quote_amount ot \<Rightarrow>
          (if upper c = upper base then (if is_buy then base_amount else - base_amount)
           else if upper c = upper quote then (if is_buy then - quote_amount else quote_amount) else 0)
      | _ \<Rightarrow> 0)"

definition ledger :: "string \<Rightarrow> paper_event list \<Rightarrow> decimal" where
  "ledger c es = (\<Sum>e \<leftarrow> es. balance_change c e)"

lemma ledger_simps [simp]: "ledger c [] = 0" "ledger c (es @ es') = ledger c es + ledger c es'" "ledger c (e # es) = balance_change c e + ledger c es"
  by (simp_all add: ledger_def)

lemma ledger_none: "(\<And>e. e \<in> set es \<Longrightarrow> balance_change c e = 0) \<Longrightarrow> ledger c es = 0"
  unfolding ledger_def by (induction es) auto

lemma balance_change_simps [simp]:
  "balance_change c (PaperCreated b ot tp x y i) = 0" "balance_change c (PaperFilled i tp b ot x y fee) = 0"
  "balance_change c (PaperCancelled i) = 0" "balance_change c (PaperFailed i ot) = 0"
  by (simp_all add: balance_change_def)

lemma balance_change_settle:
  assumes "upper base \<noteq> upper quote"
  shows "paper_balance (settle b base quote paid acquired pa) c =
    paper_balance pa c + balance_change c (completed_event b i base quote paid acquired ot)"
proof -
  have same: "paper_balance pa x = paper_balance pa y" if "upper x = upper y" for x y using that by (simp add: paper_balance_def)
  show ?thesis
    using assms same[of c base] same[of c quote]
    by (cases b) (simp_all add: settle_def paper_balance_set_balance completed_event_def balance_change_def)
qed

definition pairs_ok :: "paper_exchange \<Rightarrow> bool" where
  "pairs_ok pa \<longleftrightarrow> (\<forall>tp base quote. map_of (pa_trading_pairs pa) tp = Some (base, quote) \<longrightarrow> upper base \<noteq> upper quote)"

definition balanced :: "(string \<Rightarrow> decimal) \<Rightarrow> paper_exchange \<Rightarrow> bool" where
  "balanced opening_balance pa \<longleftrightarrow> orders_ok pa \<and> pairs_ok pa \<and>
     (\<forall>a \<in> open_set pa. upper (po_base a) \<noteq> upper (po_quote a)) \<and>
     (\<forall>c. paper_balance pa c = opening_balance c + ledger c (pa_events pa))"

lemma balanced_place:
  assumes s: "balanced b0 pa" and p: "place_paper_order is_buy order_id tp amount ot price pa = Inr pa'"
  shows "balanced b0 pa'"
proof -
  have ok: "orders_ok pa'" using place_orders[OF p] s by (simp add: balanced_def)
  from p show ?thesis
  proof (cases rule: place_cases)
    case (1 base quote x)
    have bal: "paper_balance pa' c = paper_balance pa c" for c by (simp add: paper_balance_def 1(3))
    have sub: "open_set pa' \<subseteq> insert x (open_set pa)"
      by (auto simp: open_set_def 1(9) split: if_splits dest!: insert_order_mem)
    have x: "upper (po_base x) \<noteq> upper (po_quote x)" using s 1(1,2) by (auto simp: balanced_def pairs_ok_def)
    show ?thesis
      unfolding balanced_def
      using ok s x sub by (auto simp: balanced_def pairs_ok_def bal 1(6,7))
  qed
qed

lemma balanced_execute:
  assumes s: "balanced b0 pa"
  shows "balanced b0 (execute_order q (pa\<lparr>pa_queued := rest\<rparr>))"
proof -
  let ?pa = "pa\<lparr>pa_queued := rest\<rparr>"
  have s': "balanced b0 ?pa" using s by (simp add: balanced_def pairs_ok_def)
  show ?thesis
  proof (cases rule: execute_order_cases[of q ?pa])
    case kept
    then show ?thesis using s' by simp
  next
    case (simulated cob)
    then show ?thesis using s' by (simp add: balanced_def pairs_ok_def)
  next
    case (failed cob)
    then show ?thesis using s' by (simp add: balanced_def pairs_ok_def)
  next
    case (filled cob0 cob base quote fee acquired paid fills)
    have bq: "upper base \<noteq> upper quote" using s' filled(3) by (auto simp: balanced_def pairs_ok_def)
    have fills: "ledger c fills = 0" for c using filled(9) by (intro ledger_none) auto
    show ?thesis
      using s' unfolding filled(10) balanced_def pairs_ok_def
      by (simp add: fills balance_change_settle[OF bq, of _ _ _ _ _ "qo_order_id q" MARKET])
  qed
qed

lemma balanced_process:
  assumes s: "balanced b0 pa" and a: "a \<in> set (open_orders b tp pa)"
  shows "balanced b0 (process_limit_order b a pa)" "balanced b0 (cancel_order b a pa)"
proof -
  have ok: "orders_ok pa" using s by (simp add: balanced_def)
  note o = process_orders[OF ok a]
  have cancel: "balanced b0 (cancel_order b a pa)"
    using s o(3,4) by (auto simp: balanced_def pairs_ok_def) (simp_all add: cancel_order_def)
  then show "balanced b0 (cancel_order b a pa)" .
  show "balanced b0 (process_limit_order b a pa)"
  proof (cases rule: process_limit_order_cases[of b a pa])
    case kept
    then show ?thesis using s by simp
  next
    case cancelled
    then show ?thesis using cancel by simp
  next
    case (filled paid acquired)
    have bq: "upper (po_base a) \<noteq> upper (po_quote a)" using s open_setI[OF a] by (simp add: balanced_def)
    have "pairs_ok (process_limit_order b a pa)"
      "paper_balance (process_limit_order b a pa) c = b0 c + ledger c (pa_events (process_limit_order b a pa))" for c
      using s unfolding filled(3)
      by (simp_all add: balanced_def pairs_ok_def balance_change_settle[OF bq, of _ _ _ _ _ "po_id a" LIMIT])
    then show ?thesis unfolding balanced_def using o(1,2) s by (auto simp: balanced_def)
  qed
qed

interpretation bookkeeping: paper_contract "balanced opening_balance" for opening_balance
proof unfold_locales
  show "balanced opening_balance pa \<Longrightarrow> orders_ok pa" for pa by (simp add: balanced_def)
  show "balanced opening_balance pa \<Longrightarrow> balanced opening_balance (pa\<lparr>pa_now := timestamp\<rparr>)" for pa timestamp
    by (simp add: balanced_def pairs_ok_def)
  show "balanced opening_balance pa \<Longrightarrow> balanced opening_balance (pa\<lparr>pa_order_books := bs\<rparr>)" for pa bs
    by (simp add: balanced_def pairs_ok_def)
qed (use balanced_place balanced_execute balanced_process in auto)

subsection \<open>Orders end once\<close>

fun terminal_id :: "paper_event \<Rightarrow> string list" where
  "terminal_id (PaperCompleted is_buy coid base quote base_amount quote_amount ot) = [coid]"
| "terminal_id (PaperCancelled coid) = [coid]"
| "terminal_id (PaperFailed coid ot) = [coid]"
| "terminal_id _ = []"

definition terminal_ids :: "paper_exchange \<Rightarrow> string list" where
  "terminal_ids pa = concat (map terminal_id (pa_events pa))"

definition queued_ids :: "paper_exchange \<Rightarrow> string list" where
  "queued_ids pa = map qo_order_id (pa_queued pa)"

definition ends_once :: "paper_exchange \<Rightarrow> bool" where
  "ends_once pa \<longleftrightarrow> orders_ok pa \<and> distinct (terminal_ids pa @ queued_ids pa) \<and> inj_on po_id (open_set pa) \<and>
     po_id ` open_set pa \<inter> (set (terminal_ids pa) \<union> set (queued_ids pa)) = {} \<and>
     set (terminal_ids pa) \<union> set (queued_ids pa) \<union> po_id ` open_set pa \<subseteq> created_ids pa"

lemma created_ids_event:
  "pa_events pa' = pa_events pa @ es \<Longrightarrow> created_ids pa \<subseteq> created_ids pa'"
  unfolding created_ids_def by (auto; blast)

lemma terminal_ids_event: "pa_events pa' = pa_events pa @ es \<Longrightarrow> terminal_ids pa' = terminal_ids pa @ concat (map terminal_id es)"
  by (simp add: terminal_ids_def)

lemma disjoint_grow:
  "A \<inter> (T \<union> Q) = {} \<Longrightarrow> i \<notin> T \<union> Q \<union> A \<Longrightarrow> A' \<subseteq> (if l then insert i A else A) \<Longrightarrow> \<not> (l \<and> m) \<Longrightarrow>
    A' \<inter> (T \<union> (if m then insert i Q else Q)) = {}"
  by (cases l; cases m) auto

lemma covered_grow:
  "T \<union> Q \<union> A \<subseteq> C \<Longrightarrow> C \<union> {i} \<subseteq> C' \<Longrightarrow> A' \<subseteq> (if l then insert i A else A) \<Longrightarrow>
    T \<union> (if m then insert i Q else Q) \<union> A' \<subseteq> C'"
  by (cases l; cases m) auto

lemma ends_once_place:
  assumes s: "ends_once pa" and new: "order_id \<notin> created_ids pa"
    and p: "place_paper_order is_buy order_id tp amount ot price pa = Inr pa'"
  shows "ends_once pa'"
proof -
  have ok: "orders_ok pa'" using place_orders[OF p] s by (simp add: ends_once_def)
  from p show ?thesis
  proof (cases rule: place_cases)
    case (1 base quote x)
    have sub: "open_set pa' \<subseteq> (if ot = LIMIT then insert x (open_set pa) else open_set pa)"
      by (auto simp: open_set_def 1(9) split: if_splits dest!: insert_order_mem)
    have id: "po_id x = order_id" by (simp add: 1(2))
    have ids: "po_id ` open_set pa' \<subseteq> (if ot = LIMIT then insert order_id (po_id ` open_set pa) else po_id ` open_set pa)"
      using image_mono[OF sub, of po_id] id by (simp split: if_splits)
    have t: "terminal_ids pa' = terminal_ids pa" using terminal_ids_event[OF 1(7)] by simp
    have q: "queued_ids pa' = queued_ids pa @ (if ot = MARKET then [order_id] else [])" by (simp add: queued_ids_def 1(8))
    have c: "created_ids pa \<union> {order_id} \<subseteq> created_ids pa'" 
    proof -
      have "order_id \<in> created_ids pa'" unfolding created_ids_def 1(7) by (simp; blast)
      then show ?thesis using created_ids_event[OF 1(7)] by simp
    qed
    have fresh: "order_id \<notin> set (terminal_ids pa) \<union> set (queued_ids pa) \<union> po_id ` open_set pa"
      using s new by (auto simp: ends_once_def)
    have inj: "inj_on po_id (insert x (open_set pa))" using s fresh id by (auto simp: ends_once_def)
    have inj': "inj_on po_id (open_set pa')" by (rule inj_on_subset[OF inj]) (use sub in \<open>auto split: if_splits\<close>)
    have old: "distinct (terminal_ids pa @ queued_ids pa)" "po_id ` open_set pa \<inter> (set (terminal_ids pa) \<union> set (queued_ids pa)) = {}"
      "set (terminal_ids pa) \<union> set (queued_ids pa) \<union> po_id ` open_set pa \<subseteq> created_ids pa"
      using s by (simp_all add: ends_once_def)
    have "distinct (terminal_ids pa' @ queued_ids pa')" using old(1) fresh by (auto simp: t q)
    moreover have "po_id ` open_set pa' \<inter> (set (terminal_ids pa') \<union> set (queued_ids pa')) = {}"
      using disjoint_grow[OF old(2) fresh ids, of "ot = MARKET"] by (simp add: t q split: if_splits)
    moreover have "set (terminal_ids pa') \<union> set (queued_ids pa') \<union> po_id ` open_set pa' \<subseteq> created_ids pa'"
      using covered_grow[OF old(3) c ids, of "ot = MARKET"] by (simp add: t q split: if_splits)
    ultimately show ?thesis unfolding ends_once_def using ok inj' by simp
  qed
qed

lemma ends_once_execute:
  assumes s: "ends_once pa" and q: "pa_queued pa = q # rest"
  shows "ends_once (execute_order q (pa\<lparr>pa_queued := rest\<rparr>))" (is "ends_once ?pa'")
proof -
  let ?pa = "pa\<lparr>pa_queued := rest\<rparr>"
  have ids: "queued_ids pa = qo_order_id q # queued_ids ?pa" by (simp add: queued_ids_def q)
  obtain es where es: "pa_events ?pa' = pa_events pa @ es" "concat (map terminal_id es) = [] \<or> concat (map terminal_id es) = [qo_order_id q]"
  proof (cases rule: execute_order_cases[of q ?pa])
    case kept
    then show ?thesis using that[of "[]"] by simp
  next
    case (simulated cob)
    then show ?thesis using that[of "[]"] by simp
  next
    case (failed cob)
    then show ?thesis using that[of "[PaperFailed (qo_order_id q) MARKET]"] by simp
  next
    case (filled cob0 cob base quote fee acquired paid fills)
    have "concat (map terminal_id fills) = []" using filled(9) by auto
    then show ?thesis using that[of "fills @ [completed_event (qo_is_buy q) (qo_order_id q) base quote paid acquired MARKET]"] filled(10)
      by (simp add: completed_event_def)
  qed
  have queued: "queued_ids ?pa' = queued_ids ?pa"
    using ranked_book.execute_queued[of q ?pa] by (simp add: queued_ids_def)
  have t: "terminal_ids ?pa' = terminal_ids pa @ concat (map terminal_id es)" using terminal_ids_event[OF es(1)] .
  from es(2) show ?thesis
  proof
    assume "concat (map terminal_id es) = []"
    then show ?thesis
      using s created_ids_event[OF es(1)] unfolding ends_once_def t queued ids by (auto simp del: concat_eq_Nil_conv)
  next
    assume "concat (map terminal_id es) = [qo_order_id q]"
    then show ?thesis
      using s created_ids_event[OF es(1)] unfolding ends_once_def t queued ids by auto
  qed
qed

lemma ends_once_remove:
  assumes s: "ends_once pa" and a: "a \<in> set (open_orders b tp pa)"
    and ok: "orders_ok pa'" and o: "open_set pa' = open_set pa - {a}"
    and e: "pa_events pa' = pa_events pa @ es" "concat (map terminal_id es) = [po_id a]" and q: "pa_queued pa' = pa_queued pa"
  shows "ends_once pa'"
proof -
  have t: "terminal_ids pa' = terminal_ids pa @ [po_id a]" using terminal_ids_event[OF e(1)] e(2) by simp
  have "po_id a \<notin> po_id ` (open_set pa - {a})"
    using s open_setI[OF a] by (auto simp: ends_once_def inj_on_def)
  moreover have "queued_ids pa' = queued_ids pa" by (simp add: queued_ids_def q)
  moreover have "inj_on po_id (open_set pa')" using s o inj_on_subset[of po_id "open_set pa" "open_set pa'"] by (auto simp: ends_once_def)
  ultimately show ?thesis
    using s ok created_ids_event[OF e(1)] open_setI[OF a] unfolding ends_once_def t o by auto
qed

lemma ends_once_process:
  assumes s: "ends_once pa" and a: "a \<in> set (open_orders b tp pa)"
  shows "ends_once (process_limit_order b a pa)" "ends_once (cancel_order b a pa)"
proof -
  have ok: "orders_ok pa" using s by (simp add: ends_once_def)
  note o = process_orders[OF ok a]
  show cancel: "ends_once (cancel_order b a pa)"
    by (rule ends_once_remove[OF s a o(3,4), of "[PaperCancelled (po_id a)]"]) (simp_all add: cancel_order_def)
  show "ends_once (process_limit_order b a pa)"
  proof (cases rule: process_limit_order_cases[of b a pa])
    case kept
    then show ?thesis using s by simp
  next
    case cancelled
    then show ?thesis using cancel by simp
  next
    case (filled paid acquired)
    let ?es = "[PaperFilled (po_id a) (po_trading_pair a) b LIMIT (po_price a) (po_quantity a)
       (event_fee pa True (if b then BUY else SELL)), completed_event b (po_id a) (po_base a) (po_quote a) paid acquired LIMIT]"
    have "open_set (process_limit_order b a pa) = open_set pa - {a}"
      unfolding filled(3) using ok a by (subst open_set_delete[where tp = tp]) simp_all
    then show ?thesis
      by (rule ends_once_remove[OF s a o(1), of ?es]) (simp_all add: filled(3) completed_event_def)
  qed
qed

interpretation endings: paper_contract ends_once
proof unfold_locales
  show "ends_once pa \<Longrightarrow> orders_ok pa" for pa by (simp add: ends_once_def)
  show "ends_once pa \<Longrightarrow> ends_once (pa\<lparr>pa_now := timestamp\<rparr>)" for pa timestamp
    by (simp add: ends_once_def terminal_ids_def queued_ids_def created_ids_def)
  show "ends_once pa \<Longrightarrow> ends_once (pa\<lparr>pa_order_books := bs\<rparr>)" for pa bs
    by (simp add: ends_once_def terminal_ids_def queued_ids_def created_ids_def)
qed (use ends_once_place ends_once_execute ends_once_process in auto)

subsection \<open>Trades on the market\<close>

lemma process_removes:
  assumes ok: "orders_ok pa" and a: "a \<in> set (open_orders b tp pa)" and split: "split_hb_trading_pair tp = Inr bq"
  shows "open_orders b tp (process_limit_order b a pa) = remove1 a (open_orders b tp pa)"
    "terminal_ids (process_limit_order b a pa) = terminal_ids pa @ [po_id a]"
proof -
  have tp: "po_trading_pair a = tp" using orders_okD(2)[OF ok a] .
  have "open_orders b tp (process_limit_order b a pa) = remove1 a (open_orders b tp pa) \<and>
    terminal_ids (process_limit_order b a pa) = terminal_ids pa @ [po_id a]"
  proof (cases rule: process_limit_order_cases[of b a pa])
    case kept
    then show ?thesis using split tp by simp
  next
    case cancelled
    then show ?thesis by (simp add: cancel_order_def open_orders_delete tp terminal_ids_def)
  next
    case (filled paid acquired)
    show ?thesis unfolding filled(3) by (simp add: open_orders_delete tp terminal_ids_def completed_event_def)
  qed
  then show "open_orders b tp (process_limit_order b a pa) = remove1 a (open_orders b tp pa)"
    "terminal_ids (process_limit_order b a pa) = terminal_ids pa @ [po_id a]" by simp_all
qed

lemma process_all:
  assumes split: "split_hb_trading_pair tp = Inr bq"
  shows "orders_ok pa \<Longrightarrow> distinct ys \<Longrightarrow> set ys \<subseteq> set (open_orders b tp pa) \<Longrightarrow>
    open_orders b tp (fold (process_limit_order b) ys pa) = filter (\<lambda>a. a \<notin> set ys) (open_orders b tp pa) \<and>
    terminal_ids (fold (process_limit_order b) ys pa) = terminal_ids pa @ map po_id ys"
proof (induction ys arbitrary: pa)
  case (Cons a ys)
  let ?pa = "process_limit_order b a pa"
  have a: "a \<in> set (open_orders b tp pa)" using Cons.prems by simp
  note r = process_removes[OF Cons.prems(1) a split]
  have d: "distinct (open_orders b tp pa)" using Cons.prems(1) ranked_distinct orders_okD(1) by blast
  have sub: "set ys \<subseteq> set (open_orders b tp ?pa)" using Cons.prems d by (auto simp: r)
  have "remove1 a (open_orders b tp pa) = filter (\<lambda>x. a \<noteq> x) (open_orders b tp pa)" by (rule remove1_filter[OF d])
  then show ?case
    using Cons.IH[OF process_orders(1)[OF Cons.prems(1) a] _ sub] Cons.prems r
    by (auto simp: filter_filter intro!: filter_cong)
qed simp

lemma matched_filter:
  assumes "ranked (open_orders b tp pa)"
    and "\<And>p q. p \<le> q \<Longrightarrow> crossed (if b then p else q) \<Longrightarrow> crossed (if b then q else p)"
  shows "matched_orders b crossed tp pa =
    filter (\<lambda>a. crossed (po_price a)) (if b then rev (open_orders b tp pa) else open_orders b tp pa)"
proof -
  define ys where "ys = (if b then rev (open_orders b tp pa) else open_orders b tp pa)"
  have "sorted (map po_price (open_orders b tp pa))" using ranked_prices[OF assms(1)] .
  then have "sorted_wrt (\<lambda>x y. if b then po_price y \<le> po_price x else po_price x \<le> po_price y) ys"
    by (cases b) (simp_all add: ys_def sorted_wrt_rev sorted_wrt_map)
  then have "takeWhile (\<lambda>a. crossed (po_price a)) ys = filter (\<lambda>a. crossed (po_price a)) ys"
  proof (induction ys)
    case (Cons y ys)
    have "crossed (po_price y)" if "z \<in> set ys" "crossed (po_price z)" for z
      using that Cons.prems assms(2)[of "po_price z" "po_price y"] assms(2)[of "po_price y" "po_price z"] by (cases b) auto
    then have "filter (\<lambda>a. crossed (po_price a)) ys = []" if "\<not> crossed (po_price y)"
      using that by (auto simp: filter_empty_conv)
    then show ?case using Cons by auto
  qed simp
  then show ?thesis by (cases b) (simp_all add: matched_orders_def open_orders_def ys_def Let_def)
qed

definition paper_start :: "paper_exchange \<Rightarrow> bool" where
  "paper_start pa \<longleftrightarrow> pa_bids pa = [] \<and> pa_asks pa = [] \<and> pa_queued pa = [] \<and> pa_events pa = []"

lemma paper_start_open: "paper_start pa \<Longrightarrow> open_orders b tp pa = []" "paper_start pa \<Longrightarrow> open_set pa = {}"
  by (simp_all add: paper_start_def open_orders_def orders_of_def side_orders_def open_set_def)

lemma paper_start_orders_ok: "paper_start pa \<Longrightarrow> orders_ok pa"
  by (rule orders_okI) (simp_all add: paper_start_open ranked_def)

text \<open>
  C13: whatever orders are placed and cancelled, however the market moves and trades, no balance of a paper
  exchange ever is negative: an order is filled only when the account it is paid from covers it.
\<close>

theorem paper_balances_nonneg:
  assumes "paper_start initial" "percents_ok initial" "books_nonneg (pa_order_books initial)"
    and "\<forall>c. 0 \<le> paper_balance initial c" "paper_reachable initial pa"
  shows "0 \<le> paper_balance pa c"
proof -
  have "books_ok initial"
    using assms(3) by (fastforce simp: books_ok_def books_nonneg_def row_nonneg_def list_all_iff dest!: map_of_SomeD)
  then have "paper_solvent initial"
    using assms by (simp add: paper_solvent_def paper_start_orders_ok paper_start_open) (simp add: paper_start_def)
  then show ?thesis using solvency.invariant[OF assms(5)] by (simp add: paper_solvent_def)
qed

text \<open>
  C12: the books of a paper exchange are balanced: the balance of every currency is its opening balance and
  what the completed orders have reported, bought amounts in, sold amounts out; orders that fail or are
  cancelled change nothing.
\<close>

theorem paper_ledger:
  assumes "paper_start initial" "pairs_ok initial" "paper_reachable initial pa"
  shows "paper_balance pa c = paper_balance initial c + ledger c (pa_events pa)"
proof -
  have "balanced (paper_balance initial) initial"
    using assms by (simp add: balanced_def paper_start_orders_ok paper_start_open) (simp add: paper_start_def)
  then show ?thesis using bookkeeping.invariant[OF assms(3)] by (simp add: balanced_def)
qed

text \<open>
  C34: an order ends at most once: among the completed, cancelled and failed events no identifier
  occurs twice, and an order that still waits or is open has not ended.
\<close>

theorem paper_orders_end_once:
  assumes "paper_start initial" "paper_reachable initial pa"
  shows "distinct (terminal_ids pa) \<and> po_id ` open_set pa \<inter> set (terminal_ids pa) = {} \<and>
    set (queued_ids pa) \<inter> set (terminal_ids pa) = {}"
proof -
  have "ends_once initial"
    using assms by (simp add: ends_once_def paper_start_orders_ok paper_start_open)
      (simp add: paper_start_def terminal_ids_def queued_ids_def)
  then show ?thesis using endings.invariant[OF assms(2)] by (auto simp: ends_once_def)
qed

text \<open>
  C35: a trade on the market at a price ends exactly the open orders of the maker's side with a better price,
  the best price first, and leaves the others as they are.
\<close>

theorem trade_ends_better_orders:
  assumes "paper_start initial" "paper_reachable initial pa" "split_hb_trading_pair tp = Inr bq"
  shows "terminal_ids (match_trade_to_limit_orders tp SELL price pa) =
      terminal_ids pa @ map po_id (rev (filter (\<lambda>a. price < po_price a) (open_orders True tp pa))) \<and>
    open_orders True tp (match_trade_to_limit_orders tp SELL price pa) =
      filter (\<lambda>a. po_price a \<le> price) (open_orders True tp pa) \<and>
    terminal_ids (match_trade_to_limit_orders tp BUY price pa) =
      terminal_ids pa @ map po_id (filter (\<lambda>a. po_price a < price) (open_orders False tp pa)) \<and>
    open_orders False tp (match_trade_to_limit_orders tp BUY price pa) =
      filter (\<lambda>a. price \<le> po_price a) (open_orders False tp pa)"
proof -
  have ok: "orders_ok pa" using ranked_book.invariant[OF assms(2)] assms(1) paper_start_orders_ok by blast
  have r: "ranked (open_orders b tp pa)" for b using orders_okD(1)[OF ok] .
  have m: "matched_orders True (\<lambda>p. \<not> p \<le> price) tp pa = rev (filter (\<lambda>a. price < po_price a) (open_orders True tp pa))"
    "matched_orders False (\<lambda>p. \<not> price \<le> p) tp pa = filter (\<lambda>a. po_price a < price) (open_orders False tp pa)"
    by (subst matched_filter[OF r]; auto simp: rev_filter not_le)+
  have d: "distinct (open_orders b tp pa)" for b using ranked_distinct r by blast
  note p = process_all[OF assms(3) ok]
  show ?thesis
    using p[of "rev (filter (\<lambda>a. price < po_price a) (open_orders True tp pa))" True]
      p[of "filter (\<lambda>a. po_price a < price) (open_orders False tp pa)" False] d
    by (auto simp: match_trade_to_limit_orders_def m not_less intro!: filter_cong)
qed

text \<open>
  A market order to buy that its account covers pays the value of the entries it is simulated against and
  acquires its whole amount less the fee, also when the entries of the book are fewer.
\<close>

theorem market_buy_settlement:
  assumes "map_of (pa_trading_pairs pa) tp = Some (base, quote)" "upper base \<noteq> upper quote"
    and "map_of (pa_order_books pa) tp = Some cob" "split_hb_trading_pair tp = Inr bq" "amount \<noteq> 0"
    and "paid = total_value (simulate amount (composite_entries True cob))" "paid \<le> paper_balance pa quote"
  shows "paper_balance (fst (execute_buy order_id tp amount pa)) quote = paper_balance pa quote - paid \<and>
    paper_balance (fst (execute_buy order_id tp amount pa)) base = paper_balance pa base +
      net_returns (build_trade_fee (ex_fee_schema (pa_env pa)) False BUY []) amount"
proof -
  define rows where "rows = simulate amount (composite_entries True cob)"
  obtain cob' where sim: "composite_simulate True amount cob = (rows, cob')"
    by (auto simp: composite_simulate_def rows_def Let_def)
  have val: "(\<Sum>r \<leftarrow> rows. br_price r * br_amount r) = paid" by (simp add: assms(6) rows_def total_value_def row_value_def mult.commute)
  have set: "settlement (set_order_book tp cob' pa) (new_order_candidate tp False MARKET BUY amount (paid / amount) True None) =
    Inr (paid, net_returns (build_trade_fee (ex_fee_schema (pa_env pa)) False BUY []) amount)"
    using settlement_spot[OF assms(4), of _ True False MARKET amount "paid / amount"] assms(5) by (simp add: settled_candidate_def)
  show ?thesis
    using assms sim set by (simp add: execute_buy_def val paper_balance_set_balance Let_def not_less[symmetric])
qed

subsection \<open>A concrete exchange\<close>

definition sample_paper_env :: exchange_env where
  "sample_paper_env = \<lparr>ex_fee_schema = \<lparr>fs_percent_fee_token = None, fs_maker_percent_fee_decimal = 1/100,
       fs_taker_percent_fee_decimal = 1/50, fs_buy_percent_fee_deducted_from_returns = True,
       fs_maker_fixed_fees = [], fs_taker_fixed_fees = []\<rparr>,
     ex_get_price = (\<lambda>tp b. 1), ex_available_balance = (\<lambda>t. 0), ex_balance = (\<lambda>t. 0),
     ex_quantize_order_amount = (\<lambda>tp a. a), ex_buy_collateral_token = (\<lambda>tp. ''USDT''),
     ex_sell_collateral_token = (\<lambda>tp. ''BTC'')\<rparr>"

definition sample_paper :: paper_exchange where
  "sample_paper = \<lparr>pa_trading_pairs = [(''BTC-USDT'', (''BTC'', ''USDT''))], pa_to_exchange_pair = (\<lambda>tp. tp),
     pa_balances = [''BTC'' \<mapsto> 1, ''USDT'' \<mapsto> 1000], pa_queued = [], pa_bids = [], pa_asks = [],
     pa_order_books = [(''BTC-USDT'', new_composite_book)], pa_quantization = Map.empty,
     pa_env = sample_paper_env, pa_now = 10, pa_events = []\<rparr>"

definition sample_bid :: paper_exchange where
  "sample_bid = (case place_paper_order True ''buy://a'' ''BTC-USDT'' 2 LIMIT 90 sample_paper of
     Inl e \<Rightarrow> sample_paper | Inr pa \<Rightarrow> pa)"

definition sample_bids :: paper_exchange where
  "sample_bids = (case place_paper_order True ''buy://b'' ''BTC-USDT'' 1 LIMIT 100 sample_bid of
     Inl e \<Rightarrow> sample_paper | Inr pa \<Rightarrow> pa)"

definition sample_traded :: paper_exchange where
  "sample_traded = match_trade_to_limit_orders ''BTC-USDT'' SELL 95 sample_bids"

lemma sample_start:
  "paper_start sample_paper" "percents_ok sample_paper" "books_nonneg (pa_order_books sample_paper)"
  "pairs_ok sample_paper" "0 \<le> paper_balance sample_paper c"
  by (auto simp: sample_paper_def paper_start_def percents_ok_def sample_paper_env_def books_nonneg_def
      new_composite_book_def new_order_book_def pairs_ok_def paper_balance_def upper_def upper_char_def)

lemma sample_bids_reachable: "paper_reachable sample_paper sample_bids"
proof -
  have pair: "map_of (pa_trading_pairs sample_paper) ''BTC-USDT'' = Some (''BTC'', ''USDT'')" by (simp add: sample_paper_def)
  then have p1: "place_paper_order True ''buy://a'' ''BTC-USDT'' 2 LIMIT 90 sample_paper = Inr sample_bid"
    by (simp add: sample_bid_def place_paper_order_def Let_def)
  have "pa_trading_pairs sample_bid = pa_trading_pairs sample_paper" using p1 by (rule place_cases)
  then have p2: "place_paper_order True ''buy://b'' ''BTC-USDT'' 1 LIMIT 100 sample_bid = Inr sample_bids"
    using pair by (simp add: sample_bids_def place_paper_order_def Let_def)
  have "pa_events sample_paper = []" "map (\<lambda>e. case e of PaperCreated b ot tp x y i \<Rightarrow> i | _ \<Rightarrow> []) (pa_events sample_bid) = [''buy://a'']"
    by (code_simp, code_simp)
  then have "''buy://a'' \<notin> created_ids sample_paper" "''buy://b'' \<notin> created_ids sample_bid"
    by (auto simp: created_ids_def map_eq_Cons_conv)
  then show ?thesis
    using paper_reachable.placed[OF paper_reachable.placed[OF paper_reachable.start _ _ _ p1] _ _ _ p2] by simp
qed

lemma sample_traded_reachable: "paper_reachable sample_paper sample_traded"
  unfolding sample_traded_def by (rule paper_reachable.traded[OF sample_bids_reachable])

lemma paper_balances_nonneg_witness: "0 \<le> paper_balance sample_traded ''USDT''"
  by (rule paper_balances_nonneg[OF sample_start(1-3) _ sample_traded_reachable]) (simp add: sample_start)

lemma paper_ledger_witness: "paper_balance sample_traded ''BTC'' = 99 / 50 \<and> paper_balance sample_traded ''USDT'' = 900"
proof -
  have "ledger ''BTC'' (pa_events sample_traded) = 49 / 50" "ledger ''USDT'' (pa_events sample_traded) = - 100"
    "paper_balance sample_paper ''BTC'' = 1" "paper_balance sample_paper ''USDT'' = 1000"
    by (code_simp, code_simp, code_simp, code_simp)
  then show ?thesis
    using paper_ledger[OF sample_start(1,4) sample_traded_reachable, of "''BTC''"]
      paper_ledger[OF sample_start(1,4) sample_traded_reachable, of "''USDT''"] by simp
qed

lemma paper_orders_end_once_witness:
  "distinct (terminal_ids sample_traded) \<and> po_id ` open_set sample_traded \<inter> set (terminal_ids sample_traded) = {} \<and>
    set (queued_ids sample_traded) \<inter> set (terminal_ids sample_traded) = {}"
  by (rule paper_orders_end_once[OF sample_start(1) sample_traded_reachable])

lemma trade_ends_better_orders_witness:
  "terminal_ids (match_trade_to_limit_orders ''BTC-USDT'' SELL 95 sample_bids) = [''buy://b'']"
proof -
  have "split_hb_trading_pair ''BTC-USDT'' = Inr (''BTC'', ''USDT'')" "terminal_ids sample_bids = []"
    "map po_id (rev (filter (\<lambda>a. 95 < po_price a) (open_orders True ''BTC-USDT'' sample_bids))) = [''buy://b'']"
    by (code_simp, code_simp, code_simp)
  then show ?thesis
    using trade_ends_better_orders[OF sample_start(1) sample_bids_reachable, of "''BTC-USDT''" "(''BTC'', ''USDT'')" 95] by simp
qed

lemma market_buy_settlement_witness:
  "paper_balance (fst (execute_buy ''buy://c'' ''BTC-USDT'' 1 sample_paper)) ''USDT'' = 1000 \<and>
   paper_balance (fst (execute_buy ''buy://c'' ''BTC-USDT'' 1 sample_paper)) ''BTC'' = 99 / 50"
proof -
  have pair: "map_of (pa_trading_pairs sample_paper) ''BTC-USDT'' = Some (''BTC'', ''USDT'')"
    and book: "map_of (pa_order_books sample_paper) ''BTC-USDT'' = Some new_composite_book"
    by (simp_all add: sample_paper_def)
  have "upper ''BTC'' \<noteq> upper ''USDT''" "split_hb_trading_pair ''BTC-USDT'' = Inr (''BTC'', ''USDT'')"
    "total_value (simulate 1 (composite_entries True new_composite_book)) = 0"
    "paper_balance sample_paper ''BTC'' = 1" "paper_balance sample_paper ''USDT'' = 1000"
    "net_returns (build_trade_fee (ex_fee_schema (pa_env sample_paper)) False BUY []) 1 = 49 / 50"
    by (code_simp, code_simp, code_simp, code_simp, code_simp, code_simp)
  then show ?thesis
    using market_buy_settlement[OF pair _ book, of "(''BTC'', ''USDT'')" 1 0 "''buy://c''"] by simp
qed

end
