(* ===== verification/Strategy_Orders.thy ===== *)
theory Strategy_Orders
  imports Trade_Fee
begin

text \<open>
  \<^verbatim>\<open>strategy/order_tracker.pyx\<close> and the parts of \<^verbatim>\<open>strategy/strategy_base.pyx\<close> that use it: the orders a
  strategy has placed, by market, with their shadow copies that outlive them, and the cancellations in flight.

  A market is identified by its name.  An expiration \<open>NaN\<close> is \<open>None\<close>; a missing entry of the in-flight
  cancels compares like the \<open>NaN\<close> of the code.  The request to the market is the second result of
  an operation; the identifier that the market answers is an argument.
\<close>

record market_pair =
  mp_market :: string
  mp_trading_pair :: string
  mp_base :: string
  mp_quote :: string

record tracked_limit =
  lo_id :: string
  lo_trading_pair :: string
  lo_is_buy :: bool
  lo_base :: string
  lo_quote :: string
  lo_price :: decimal
  lo_quantity :: decimal
  lo_creation_timestamp :: int

record tracked_market =
  mo_id :: string
  mo_trading_pair :: string
  mo_is_buy :: bool
  mo_base :: string
  mo_quote :: string
  mo_amount :: decimal
  mo_timestamp :: seconds

record strategy_orders =
  so_limit_orders :: "(market_pair, (string, tracked_limit) pydict) pydict"
  so_market_orders :: "(market_pair, (string, tracked_market) pydict) pydict"
  so_market_pair_of :: "string \<rightharpoonup> market_pair"
  so_shadow_orders :: "(market_pair, (string, tracked_limit) pydict) pydict"
  so_shadow_pair_of :: "string \<rightharpoonup> market_pair"
  so_gc_requests :: "(seconds \<times> market_pair \<times> string) list"
  so_pending_created :: "string list"
  so_in_flight_cancels :: "(string, seconds) pydict"
  so_now :: seconds

definition SHADOW_MAKER_ORDER_KEEP_ALIVE_DURATION :: seconds where
  "SHADOW_MAKER_ORDER_KEEP_ALIVE_DURATION = 180"

definition CANCEL_EXPIRY_DURATION :: seconds where
  "CANCEL_EXPIRY_DURATION = 60"

definition new_strategy_orders :: strategy_orders where
  "new_strategy_orders = \<lparr>so_limit_orders = [], so_market_orders = [], so_market_pair_of = Map.empty,
     so_shadow_orders = [], so_shadow_pair_of = Map.empty, so_gc_requests = [], so_pending_created = [],
     so_in_flight_cancels = [], so_now = 0\<rparr>"

subsection \<open>Dictionaries of dictionaries\<close>

definition inner :: "'k \<Rightarrow> ('k, ('i, 'v) pydict) pydict \<Rightarrow> ('i, 'v) pydict" where
  "inner k d = (case map_of d k of None \<Rightarrow> [] | Some e \<Rightarrow> e)"

definition put_inner :: "'k \<Rightarrow> 'i \<Rightarrow> 'v \<Rightarrow> ('k, ('i, 'v) pydict) pydict \<Rightarrow> ('k, ('i, 'v) pydict) pydict" where
  "put_inner k i v d = AList.update k (AList.update i v (inner k d)) d"

text \<open>An inner dictionary that gets empty is deleted.\<close>

definition drop_inner :: "'k \<Rightarrow> 'i \<Rightarrow> ('k, ('i, 'v) pydict) pydict \<Rightarrow> ('k, ('i, 'v) pydict) pydict" where
  "drop_inner k i d =
     (let e = AList.delete i (inner k d) in if e = [] then AList.delete k d else AList.update k e d)"

definition is_tracked :: "('k, ('i, 'v) pydict) pydict \<Rightarrow> 'k \<Rightarrow> 'i \<Rightarrow> bool" where
  "is_tracked d k i \<longleftrightarrow> i \<in> fst ` set (inner k d)"

subsection \<open>Queries\<close>

definition has_in_flight_cancel :: "strategy_orders \<Rightarrow> string \<Rightarrow> bool" where
  "has_in_flight_cancel so order_id \<longleftrightarrow>
     (case map_of (so_in_flight_cancels so) order_id of
        None \<Rightarrow> False | Some t \<Rightarrow> so_now so < t + CANCEL_EXPIRY_DURATION)"

definition not_cancelling :: "strategy_orders \<Rightarrow> (string, tracked_limit) pydict \<Rightarrow> tracked_limit list" where
  "not_cancelling so d = filter (\<lambda>x. \<not> has_in_flight_cancel so (lo_id x)) (map snd d)"

definition active_limit_orders :: "strategy_orders \<Rightarrow> (string \<times> tracked_limit) list" where
  "active_limit_orders so = concat (map (\<lambda>(mp, d). map (Pair (mp_market mp)) (not_cancelling so d)) (so_limit_orders so))"

definition shadow_limit_orders :: "strategy_orders \<Rightarrow> (string \<times> tracked_limit) list" where
  "shadow_limit_orders so = concat (map (\<lambda>(mp, d). map (Pair (mp_market mp)) (not_cancelling so d)) (so_shadow_orders so))"

definition market_pair_to_active_orders :: "strategy_orders \<Rightarrow> (market_pair, tracked_limit list) pydict" where
  "market_pair_to_active_orders so = map (\<lambda>(mp, d). (mp, not_cancelling so d)) (so_limit_orders so)"

definition active_bids :: "strategy_orders \<Rightarrow> (string \<times> tracked_limit) list" where
  "active_bids so = filter (\<lambda>(m, x). lo_is_buy x) (active_limit_orders so)"

definition active_asks :: "strategy_orders \<Rightarrow> (string \<times> tracked_limit) list" where
  "active_asks so = filter (\<lambda>(m, x). \<not> lo_is_buy x) (active_limit_orders so)"

definition tracked_limit_orders :: "strategy_orders \<Rightarrow> (string \<times> tracked_limit) list" where
  "tracked_limit_orders so = concat (map (\<lambda>(mp, d). map (\<lambda>(i, x). (mp_market mp, x)) d) (so_limit_orders so))"

definition tracked_market_orders :: "strategy_orders \<Rightarrow> (string \<times> tracked_market) list" where
  "tracked_market_orders so = concat (map (\<lambda>(mp, d). map (\<lambda>(i, x). (mp_market mp, x)) d) (so_market_orders so))"

definition get_limit_order :: "strategy_orders \<Rightarrow> market_pair \<Rightarrow> string \<Rightarrow> tracked_limit option" where
  "get_limit_order so mp order_id = map_of (inner mp (so_limit_orders so)) order_id"

definition get_market_order :: "strategy_orders \<Rightarrow> market_pair \<Rightarrow> string \<Rightarrow> tracked_market option" where
  "get_market_order so mp order_id = map_of (inner mp (so_market_orders so)) order_id"

definition get_shadow_limit_order :: "strategy_orders \<Rightarrow> string \<Rightarrow> tracked_limit option" where
  "get_shadow_limit_order so order_id =
     (case so_shadow_pair_of so order_id of
        None \<Rightarrow> None | Some mp \<Rightarrow> map_of (inner mp (so_shadow_orders so)) order_id)"

subsection \<open>Tracking\<close>

definition track_limit_order :: "market_pair \<Rightarrow> string \<Rightarrow> bool \<Rightarrow> decimal \<Rightarrow> decimal \<Rightarrow> strategy_orders \<Rightarrow> strategy_orders" where
  "track_limit_order mp order_id is_buy price quantity so =
     (let x = \<lparr>lo_id = order_id, lo_trading_pair = mp_trading_pair mp, lo_is_buy = is_buy, lo_base = mp_base mp,
               lo_quote = mp_quote mp, lo_price = price, lo_quantity = quantity,
               lo_creation_timestamp = (let t = so_now so * 10 ^ 6 in if 0 \<le> t then \<lfloor>t\<rfloor> else \<lceil>t\<rceil>)\<rparr>
      in so\<lparr>so_limit_orders := put_inner mp order_id x (so_limit_orders so),
            so_shadow_orders := put_inner mp order_id x (so_shadow_orders so),
            so_market_pair_of := (so_market_pair_of so)(order_id \<mapsto> mp),
            so_shadow_pair_of := (so_shadow_pair_of so)(order_id \<mapsto> mp)\<rparr>)"

text \<open>The market pair is that of the identifier, \<^verbatim>\<open>None\<close> for an unknown one.\<close>

definition untrack_limit_order :: "market_pair option \<Rightarrow> string \<Rightarrow> strategy_orders \<Rightarrow> strategy_orders" where
  "untrack_limit_order mpo order_id so =
     (let so1 = (case mpo of
            None \<Rightarrow> so
          | Some mp \<Rightarrow>
              if is_tracked (so_limit_orders so) mp order_id
              then so\<lparr>so_limit_orders := drop_inner mp order_id (so_limit_orders so),
                      so_gc_requests := so_gc_requests so @ [(so_now so + SHADOW_MAKER_ORDER_KEEP_ALIVE_DURATION, mp, order_id)]\<rparr>
              else so)
      in so1\<lparr>so_market_pair_of := (so_market_pair_of so1)(order_id := None),
             so_in_flight_cancels := AList.delete order_id (so_in_flight_cancels so1)\<rparr>)"

definition track_market_order :: "market_pair \<Rightarrow> string \<Rightarrow> bool \<Rightarrow> decimal \<Rightarrow> strategy_orders \<Rightarrow> strategy_orders" where
  "track_market_order mp order_id is_buy quantity so =
     so\<lparr>so_market_orders := put_inner mp order_id \<lparr>mo_id = order_id, mo_trading_pair = mp_trading_pair mp, mo_is_buy = is_buy,
             mo_base = mp_base mp, mo_quote = mp_quote mp, mo_amount = quantity, mo_timestamp = so_now so\<rparr> (so_market_orders so),
        so_market_pair_of := (so_market_pair_of so)(order_id \<mapsto> mp)\<rparr>"

definition untrack_market_order :: "market_pair option \<Rightarrow> string \<Rightarrow> strategy_orders \<Rightarrow> strategy_orders" where
  "untrack_market_order mpo order_id so =
     (let so1 = (case mpo of
            None \<Rightarrow> so
          | Some mp \<Rightarrow>
              if is_tracked (so_market_orders so) mp order_id
              then so\<lparr>so_market_orders := drop_inner mp order_id (so_market_orders so)\<rparr> else so)
      in so1\<lparr>so_market_pair_of := (so_market_pair_of so1)(order_id := None)\<rparr>)"

subsection \<open>Cancelling and cleaning up\<close>

definition check_and_track_cancel :: "string \<Rightarrow> strategy_orders \<Rightarrow> bool \<times> strategy_orders" where
  "check_and_track_cancel order_id so =
     (if order_id \<in> set (so_pending_created so) then (False, so)
      else
        let cancels = filter (\<lambda>(i, t). \<not> t < so_now so - CANCEL_EXPIRY_DURATION) (so_in_flight_cancels so);
            so1 = so\<lparr>so_in_flight_cancels := cancels\<rparr>
        in if order_id \<in> fst ` set cancels then (False, so1)
           else (True, so1\<lparr>so_in_flight_cancels := AList.update order_id (so_now so) cancels\<rparr>))"

definition collect_shadow :: "market_pair \<Rightarrow> string \<Rightarrow> strategy_orders \<Rightarrow> strategy_orders" where
  "collect_shadow mp order_id so =
     so\<lparr>so_shadow_orders := (if is_tracked (so_shadow_orders so) mp order_id
            then drop_inner mp order_id (so_shadow_orders so) else so_shadow_orders so),
        so_shadow_pair_of := (so_shadow_pair_of so)(order_id := None)\<rparr>"

fun cleanup_loop :: "(seconds \<times> market_pair \<times> string) list \<Rightarrow> strategy_orders \<Rightarrow> strategy_orders" where
  "cleanup_loop [] so = so\<lparr>so_gc_requests := []\<rparr>"
| "cleanup_loop ((t, mp, order_id) # rest) so =
     (if t < so_now so then cleanup_loop rest (collect_shadow mp order_id so)
      else so\<lparr>so_gc_requests := (t, mp, order_id) # rest\<rparr>)"

definition cleanup_shadow_records :: "strategy_orders \<Rightarrow> strategy_orders" where
  "cleanup_shadow_records so = cleanup_loop (so_gc_requests so) so"

definition orders_tick :: "seconds \<Rightarrow> strategy_orders \<Rightarrow> strategy_orders" where
  "orders_tick timestamp so = cleanup_shadow_records (so\<lparr>so_now := timestamp\<rparr>)"

definition add_create_order_pending :: "string \<Rightarrow> strategy_orders \<Rightarrow> strategy_orders" where
  "add_create_order_pending order_id so = so\<lparr>so_pending_created := List.insert order_id (so_pending_created so)\<rparr>"

definition remove_create_order_pending :: "string \<Rightarrow> strategy_orders \<Rightarrow> strategy_orders" where
  "remove_create_order_pending order_id so = so\<lparr>so_pending_created := removeAll order_id (so_pending_created so)\<rparr>"

subsection \<open>The strategy base\<close>

text \<open>The events that change what is is_tracked.\<close>

definition did_fail_order_tracker :: "string \<Rightarrow> order_type \<Rightarrow> strategy_orders \<Rightarrow> strategy_orders" where
  "did_fail_order_tracker order_id ot so =
     (let mpo = so_market_pair_of so order_id
      in if is_limit_type ot then untrack_limit_order mpo order_id so else untrack_market_order mpo order_id so)"

definition did_cancel_order_tracker :: "string \<Rightarrow> strategy_orders \<Rightarrow> strategy_orders" where
  "did_cancel_order_tracker order_id so = untrack_limit_order (so_market_pair_of so order_id) order_id so"

definition did_expire_order_tracker :: "string \<Rightarrow> strategy_orders \<Rightarrow> strategy_orders" where
  "did_expire_order_tracker = did_cancel_order_tracker"

definition did_complete_order_tracker :: "string \<Rightarrow> order_type \<Rightarrow> strategy_orders \<Rightarrow> strategy_orders" where
  "did_complete_order_tracker order_id ot so =
     (case so_market_pair_of so order_id of
        None \<Rightarrow> so
      | Some mp \<Rightarrow> if is_limit_type ot then untrack_limit_order (Some mp) order_id so
                   else untrack_market_order (Some mp) order_id so)"

record strategy =
  st_markets :: "string list"
  st_delegate_lock :: bool
  st_orders :: strategy_orders

datatype market_request =
    MarketOrderRequest bool market_pair decimal order_type "decimal option" "seconds option" position_action
  | MarketCancelRequest market_pair string

text \<open>\<^verbatim>\<open>c_buy_with_specific_market\<close> and \<^verbatim>\<open>c_sell_with_specific_market\<close>, which differ in the side only.\<close>

definition order_with_specific_market ::
  "bool \<Rightarrow> market_pair \<Rightarrow> decimal \<Rightarrow> order_type \<Rightarrow> decimal \<Rightarrow> seconds option \<Rightarrow> position_action \<Rightarrow> string \<Rightarrow> strategy \<Rightarrow>
   py_error + (strategy \<times> market_request)" where
  "order_with_specific_market is_buy mp amount ot price expiration_seconds action order_id st =
     (if st_delegate_lock st then Inl RuntimeError
      else if mp_market mp \<notin> set (st_markets st) then Inl ValueError
      else
        Inr (st\<lparr>st_orders :=
               (if is_limit_type ot then track_limit_order mp order_id is_buy price amount (st_orders st)
                else track_market_order mp order_id is_buy amount (st_orders st))\<rparr>,
             MarketOrderRequest is_buy mp amount ot (Some price)
               (map_option (\<lambda>s. so_now (st_orders st) + s) expiration_seconds) action))"

definition strategy_cancel :: "market_pair \<Rightarrow> string \<Rightarrow> strategy \<Rightarrow> strategy \<times> market_request list" where
  "strategy_cancel mp order_id st =
     (let (fresh, so) = check_and_track_cancel order_id (st_orders st)
      in (st\<lparr>st_orders := so\<rparr>, if fresh then [MarketCancelRequest mp order_id] else []))"

definition track_restored_orders :: "market_pair \<Rightarrow> tracked_limit list \<Rightarrow> strategy_orders \<Rightarrow> string list \<times> strategy_orders" where
  "track_restored_orders mp xs so =
     (map lo_id xs, fold (\<lambda>x. track_limit_order mp (lo_id x) (lo_is_buy x) (lo_price x) (lo_quantity x)) xs so)"

definition sum_flat_fees :: "string \<Rightarrow> token_amount list \<Rightarrow> py_error + decimal" where
  "sum_flat_fees quote flat_fees =
     (if \<forall>fee \<in> set flat_fees. ta_token fee = quote then Inr (\<Sum>fee \<leftarrow> flat_fees. ta_amount fee)
      else Inl RaisedException)"

subsection \<open>Runs\<close>

datatype orders_op =
    Tick seconds
  | PlaceLimit market_pair string bool decimal decimal
  | PlaceMarket market_pair string bool decimal
  | Failed string order_type
  | Cancelled string
  | Completed string order_type
  | RequestCancel string
  | CreatePending string
  | CreateAnswered string

fun orders_step :: "orders_op \<Rightarrow> strategy_orders \<Rightarrow> strategy_orders" where
  "orders_step (Tick t) so = orders_tick t so"
| "orders_step (PlaceLimit mp i b p q) so = track_limit_order mp i b p q so"
| "orders_step (PlaceMarket mp i b q) so = track_market_order mp i b q so"
| "orders_step (Failed i ot) so = did_fail_order_tracker i ot so"
| "orders_step (Cancelled i) so = did_cancel_order_tracker i so"
| "orders_step (Completed i ot) so = did_complete_order_tracker i ot so"
| "orders_step (RequestCancel i) so = snd (check_and_track_cancel i so)"
| "orders_step (CreatePending i) so = add_create_order_pending i so"
| "orders_step (CreateAnswered i) so = remove_create_order_pending i so"

text \<open>Time does not go back, and the identifiers of new orders are new.\<close>

fun op_ok :: "orders_op \<Rightarrow> strategy_orders \<Rightarrow> bool" where
  "op_ok (Tick t) so \<longleftrightarrow> so_now so \<le> t"
| "op_ok (PlaceLimit mp i b p q) so \<longleftrightarrow> so_shadow_pair_of so i = None"
| "op_ok (PlaceMarket mp i b q) so \<longleftrightarrow> so_shadow_pair_of so i = None"
| "op_ok _ so \<longleftrightarrow> True"

inductive orders_run :: "(orders_op \<Rightarrow> bool) \<Rightarrow> strategy_orders \<Rightarrow> strategy_orders \<Rightarrow> bool" for allowed where
  stop: "orders_run allowed so so"
| step: "orders_run allowed so so' \<Longrightarrow> allowed op \<Longrightarrow> op_ok op so' \<Longrightarrow> orders_run allowed so (orders_step op so')"

lemma inner_update [simp]:
  "inner k' (AList.update k e d) = (if k' = k then e else inner k' d)"
  "inner k' (AList.delete k d) = (if k' = k then [] else inner k' d)"
  by (simp_all add: inner_def update_conv' delete_conv')

lemma inner_put [simp]: "inner k' (put_inner k i v d) = (if k' = k then AList.update i v (inner k d) else inner k' d)"
  by (simp add: put_inner_def)

lemma inner_drop [simp]: "inner k' (drop_inner k i d) = (if k' = k then AList.delete i (inner k d) else inner k' d)"
  by (simp add: drop_inner_def Let_def)

lemma is_tracked_put [simp]: "is_tracked (put_inner k i v d) k' j \<longleftrightarrow> k' = k \<and> j = i \<or> is_tracked d k' j"
  by (auto simp: is_tracked_def dom_update simp flip: dom_map_of_conv_image_fst simp: update_conv')

lemma is_tracked_drop [simp]: "is_tracked (drop_inner k i d) k' j \<longleftrightarrow> is_tracked d k' j \<and> \<not> (k' = k \<and> j = i)"
  by (auto simp: is_tracked_def simp flip: dom_map_of_conv_image_fst simp: delete_conv')

lemma tracked_lookup: "is_tracked d k i \<longleftrightarrow> (\<exists>x. map_of (inner k d) i = Some x)"
  by (metis is_tracked_def map_of_eq_None_iff not_None_eq)

lemma is_tracked_Nil [simp]: "\<not> is_tracked [] k i"
  by (simp add: is_tracked_def inner_def)

subsection \<open>Shadow orders\<close>

definition gc_id :: "seconds \<times> market_pair \<times> string \<Rightarrow> string" where
  "gc_id r = snd (snd r)"

lemma gc_id_simp [simp]: "gc_id (t, mp, i) = i"
  by (simp add: gc_id_def)

definition gc_request_ok :: "strategy_orders \<Rightarrow> seconds \<times> market_pair \<times> string \<Rightarrow> bool" where
  "gc_request_ok so r \<longleftrightarrow> so_shadow_pair_of so (gc_id r) = Some (fst (snd r)) \<and>
     \<not> is_tracked (so_limit_orders so) (fst (snd r)) (gc_id r) \<and>
     fst r \<le> so_now so + SHADOW_MAKER_ORDER_KEEP_ALIVE_DURATION"

definition shadows_found :: "strategy_orders \<Rightarrow> bool" where
  "shadows_found so \<longleftrightarrow>
     (\<forall>mp i. is_tracked (so_shadow_orders so) mp i \<longleftrightarrow> so_shadow_pair_of so i = Some mp) \<and>
     (\<forall>mp i. is_tracked (so_limit_orders so) mp i \<longrightarrow> so_shadow_pair_of so i = Some mp) \<and>
     (\<forall>mp i x. map_of (inner mp (so_limit_orders so)) i = Some x \<longrightarrow> map_of (inner mp (so_shadow_orders so)) i = Some x)"

text \<open>What holds with the requests that are left, which may have expired.\<close>

definition shadow_inv :: "(seconds \<times> market_pair \<times> string) list \<Rightarrow> strategy_orders \<Rightarrow> bool" where
  "shadow_inv gc so \<longleftrightarrow> shadows_found so \<and>
     (\<forall>mp i. so_shadow_pair_of so i = Some mp \<longrightarrow> is_tracked (so_limit_orders so) mp i \<or> i \<in> gc_id ` set gc) \<and>
     (\<forall>r \<in> set gc. gc_request_ok so r) \<and> distinct (map gc_id gc) \<and> sorted (map fst gc)"

definition shadows_ok :: "strategy_orders \<Rightarrow> bool" where
  "shadows_ok so \<longleftrightarrow> shadow_inv (so_gc_requests so) so \<and> (\<forall>r \<in> set (so_gc_requests so). so_now so \<le> fst r)"

lemma shadows_new: "shadows_ok new_strategy_orders"
  by (simp add: shadows_ok_def shadow_inv_def shadows_found_def new_strategy_orders_def)

lemma shadow_inv_fields:
  "so_shadow_orders so' = so_shadow_orders so \<Longrightarrow> so_shadow_pair_of so' = so_shadow_pair_of so \<Longrightarrow>
   so_limit_orders so' = so_limit_orders so \<Longrightarrow> so_now so' = so_now so \<Longrightarrow> shadow_inv gc so' = shadow_inv gc so"
  by (simp only: shadow_inv_def shadows_found_def gc_request_ok_def)

lemma collect_shadow_fields [simp]:
  "so_limit_orders (collect_shadow mp i so) = so_limit_orders so" "so_now (collect_shadow mp i so) = so_now so"
  "so_shadow_pair_of (collect_shadow mp i so) = (so_shadow_pair_of so)(i := None)"
  by (simp_all add: collect_shadow_def)

lemma collect_shadow_inv:
  assumes inv: "shadow_inv ((t, mp, i) # gc) so"
  shows "shadow_inv gc (collect_shadow mp i so)"
proof -
  have found: "shadows_found so" and new: "i \<notin> gc_id ` set gc" and mp: "so_shadow_pair_of so i = Some mp"
    and out: "\<not> is_tracked (so_limit_orders so) mp i"
    using inv by (simp_all add: shadow_inv_def gc_request_ok_def)
  have sh: "is_tracked (so_shadow_orders so) mp i" using found mp by (simp add: shadows_found_def)
  have out': "\<not> is_tracked (so_limit_orders so) mp' i" for mp' using found out mp by (auto simp: shadows_found_def)
  have "shadows_found (collect_shadow mp i so)"
    using found sh out' mp out'[unfolded tracked_lookup] by (auto simp: shadows_found_def collect_shadow_def delete_conv')
  moreover have "gc_request_ok (collect_shadow mp i so) r" if "r \<in> set gc" for r
  proof -
    have "gc_id r \<noteq> i" using that new by blast
    then show ?thesis using that inv by (simp add: shadow_inv_def gc_request_ok_def)
  qed
  moreover have "is_tracked (so_limit_orders so) mp' j \<or> j \<in> gc_id ` set gc"
    if "so_shadow_pair_of (collect_shadow mp i so) j = Some mp'" for mp' j
    using that inv by (auto simp: shadow_inv_def split: if_splits)
  ultimately show ?thesis using inv by (simp add: shadow_inv_def)
qed

lemma cleanup_loop_ok: "shadow_inv gc so \<Longrightarrow> shadows_ok (cleanup_loop gc so)"
proof (induction gc so rule: cleanup_loop.induct)
  case (1 so)
  then show ?case using shadow_inv_fields[of "so\<lparr>so_gc_requests := []\<rparr>" so] by (simp add: shadows_ok_def)
next
  case (2 t mp i rest so)
  show ?case
  proof (cases "t < so_now so")
    case True
    then show ?thesis using 2 collect_shadow_inv by simp
  next
    case False
    then have "so_now so \<le> fst r" if "r \<in> set rest" for r
      using that 2(2) by (fastforce simp: shadow_inv_def)
    moreover have "shadow_inv ((t, mp, i) # rest) (so\<lparr>so_gc_requests := (t, mp, i) # rest\<rparr>)"
      using 2(2) shadow_inv_fields[of "so\<lparr>so_gc_requests := (t, mp, i) # rest\<rparr>" so] by simp
    ultimately show ?thesis using False by (simp add: shadows_ok_def)
  qed
qed

lemma cleanup_loop_now [simp]: "so_now (cleanup_loop gc so) = so_now so"
  "so_market_orders (cleanup_loop gc so) = so_market_orders so" "so_market_pair_of (cleanup_loop gc so) = so_market_pair_of so"
  "so_in_flight_cancels (cleanup_loop gc so) = so_in_flight_cancels so"
  by (induction gc so rule: cleanup_loop.induct) (simp_all add: collect_shadow_def)

text \<open>Neither time nor a request to cancel changes the tracked limit orders.\<close>

lemma limit_orders_kept:
  "so_limit_orders (orders_tick t so) = so_limit_orders so"
  "so_limit_orders (snd (check_and_track_cancel i so)) = so_limit_orders so"
proof -
  have "so_limit_orders (cleanup_loop gc so) = so_limit_orders so" for gc so
    by (induction gc so rule: cleanup_loop.induct) (simp_all add: collect_shadow_def)
  then show "so_limit_orders (orders_tick t so) = so_limit_orders so" by (simp add: orders_tick_def cleanup_shadow_records_def)
qed (simp add: check_and_track_cancel_def Let_def)

lemma cancel_limit_orders:
  "strategy_cancel mp i st = (st', rs) \<Longrightarrow> so_limit_orders (st_orders st') = so_limit_orders (st_orders st)"
  by (auto simp: strategy_cancel_def split: prod.splits) (metis limit_orders_kept(2) snd_conv)

lemma shadows_tick: "shadows_ok so \<Longrightarrow> so_now so \<le> t \<Longrightarrow> shadows_ok (orders_tick t so)"
proof -
  assume ok: "shadows_ok so" and t: "so_now so \<le> t"
  have "gc_request_ok (so\<lparr>so_now := t\<rparr>) r" if "r \<in> set (so_gc_requests so)" for r
    using ok t that by (auto simp: shadows_ok_def shadow_inv_def gc_request_ok_def)
  then have "shadow_inv (so_gc_requests so) (so\<lparr>so_now := t\<rparr>)"
    using ok by (simp add: shadows_ok_def shadow_inv_def shadows_found_def)
  then show ?thesis using cleanup_loop_ok[of "so_gc_requests so" "so\<lparr>so_now := t\<rparr>"]
    by (simp add: orders_tick_def cleanup_shadow_records_def)
qed

lemma shadows_track_limit:
  assumes ok: "shadows_ok so" and new: "so_shadow_pair_of so i = None"
  shows "shadows_ok (track_limit_order mp i b p q so)"
proof -
  have found: "shadows_found so" using ok by (simp add: shadows_ok_def shadow_inv_def)
  have "i \<notin> gc_id ` set (so_gc_requests so)" using ok new by (auto simp: shadows_ok_def shadow_inv_def gc_request_ok_def)
  moreover have "shadows_found (track_limit_order mp i b p q so)"
    using found new by (auto simp: shadows_found_def track_limit_order_def Let_def update_conv')
  ultimately show ?thesis
    using ok new by (auto simp: shadows_ok_def shadow_inv_def gc_request_ok_def track_limit_order_def Let_def)
qed

lemma shadows_untrack_limit:
  assumes ok: "shadows_ok so"
  shows "shadows_ok (untrack_limit_order mpo i so)"
proof (cases "\<exists>mp. mpo = Some mp \<and> is_tracked (so_limit_orders so) mp i")
  case True
  then obtain mp where mp: "mpo = Some mp" "is_tracked (so_limit_orders so) mp i" by blast
  let ?r = "(so_now so + SHADOW_MAKER_ORDER_KEEP_ALIVE_DURATION, mp, i)"
  let ?so = "untrack_limit_order mpo i so"
  have inv: "shadow_inv (so_gc_requests so) so" using ok by (simp add: shadows_ok_def)
  have sh: "so_shadow_pair_of so i = Some mp" using inv mp by (simp add: shadow_inv_def shadows_found_def)
  have new: "i \<notin> gc_id ` set (so_gc_requests so)" using inv sh mp by (auto simp: shadow_inv_def gc_request_ok_def)
  have f: "so_gc_requests ?so = so_gc_requests so @ [?r]" "so_shadow_pair_of ?so = so_shadow_pair_of so" "so_now ?so = so_now so"
    "so_shadow_orders ?so = so_shadow_orders so" "so_limit_orders ?so = drop_inner mp i (so_limit_orders so)"
    using mp by (simp_all add: untrack_limit_order_def)
  have "gc_request_ok ?so r" if "r \<in> set (so_gc_requests ?so)" for r
    using that inv sh new unfolding gc_request_ok_def f by (auto simp: shadow_inv_def gc_request_ok_def)
  moreover have "shadows_found ?so" using inv by (auto simp: shadow_inv_def shadows_found_def f delete_conv' split: if_splits)
  moreover have "is_tracked (so_limit_orders ?so) mp' j \<or> j \<in> gc_id ` set (so_gc_requests ?so)"
    if "so_shadow_pair_of ?so j = Some mp'" for mp' j
    using that inv sh by (auto simp: f shadow_inv_def)
  moreover have "sorted (map fst (so_gc_requests ?so))" "distinct (map gc_id (so_gc_requests ?so))"
    using inv new by (auto simp: f shadow_inv_def gc_request_ok_def sorted_append)
  moreover have "so_now ?so \<le> fst r" if "r \<in> set (so_gc_requests ?so)" for r
    using that ok by (auto simp: f shadows_ok_def SHADOW_MAKER_ORDER_KEEP_ALIVE_DURATION_def)
  ultimately show ?thesis by (simp add: shadows_ok_def shadow_inv_def)
next
  case False
  then show ?thesis
    using ok by (cases mpo) (auto simp: untrack_limit_order_def Let_def shadows_ok_def shadow_inv_def shadows_found_def gc_request_ok_def)
qed

lemma shadows_fields:
  "so_shadow_orders so' = so_shadow_orders so \<Longrightarrow> so_shadow_pair_of so' = so_shadow_pair_of so \<Longrightarrow>
   so_limit_orders so' = so_limit_orders so \<Longrightarrow> so_gc_requests so' = so_gc_requests so \<Longrightarrow> so_now so' = so_now so \<Longrightarrow>
   shadows_ok so' = shadows_ok so"
  by (simp add: shadows_ok_def shadow_inv_def shadows_found_def gc_request_ok_def)

lemma shadows_untrack_market: "shadows_ok so \<Longrightarrow> shadows_ok (untrack_market_order mpo i so)"
  by (subst shadows_fields[of _ so]) (auto simp: untrack_market_order_def Let_def split: option.splits)

lemma shadows_step: "shadows_ok so \<Longrightarrow> op_ok op so \<Longrightarrow> shadows_ok (orders_step op so)"
proof (cases op)
  case (PlaceMarket mp i b q)
  then show "shadows_ok so \<Longrightarrow> ?thesis" by (subst shadows_fields[of _ so]) (simp_all add: track_market_order_def)
next
  case (RequestCancel i)
  then show "shadows_ok so \<Longrightarrow> ?thesis" by (subst shadows_fields[of _ so]) (simp_all add: check_and_track_cancel_def Let_def)
next
  case (CreatePending i)
  then show "shadows_ok so \<Longrightarrow> ?thesis" by (subst shadows_fields[of _ so]) (simp_all add: add_create_order_pending_def)
next
  case (CreateAnswered i)
  then show "shadows_ok so \<Longrightarrow> ?thesis" by (subst shadows_fields[of _ so]) (simp_all add: remove_create_order_pending_def)
qed (auto simp: shadows_tick shadows_track_limit shadows_untrack_limit shadows_untrack_market did_fail_order_tracker_def
    did_cancel_order_tracker_def did_complete_order_tracker_def Let_def split: option.splits)

lemma shadows_run: "orders_run allowed so so' \<Longrightarrow> shadows_ok so \<Longrightarrow> shadows_ok so'"
  by (induction rule: orders_run.induct) (auto intro: shadows_step)

text \<open>The index of the shadow orders and their dictionary agree.\<close>

lemma shadow_lookup:
  assumes "shadows_found so"
  shows "(\<exists>x. get_shadow_limit_order so i = Some x) \<longleftrightarrow> (\<exists>mp. so_shadow_pair_of so i = Some mp)"
  using assms by (auto simp: shadows_found_def get_shadow_limit_order_def tracked_lookup split: option.splits)

lemma shadow_of_tracked:
  assumes "shadows_found so" "get_limit_order so mp i = Some x"
  shows "get_shadow_limit_order so i = Some x"
proof -
  have x: "map_of (inner mp (so_limit_orders so)) i = Some x" using assms(2) by (simp add: get_limit_order_def)
  then have "so_shadow_pair_of so i = Some mp" "map_of (inner mp (so_shadow_orders so)) i = Some x"
    using assms(1) unfolding shadows_found_def tracked_lookup by blast+
  then show ?thesis by (simp add: get_shadow_limit_order_def)
qed

lemma shadow_pair_kept:
  assumes "shadows_ok so"
  shows "so_shadow_pair_of so i = Some mp \<longleftrightarrow> is_tracked (so_limit_orders so) mp i \<or>
    (\<exists>t. (t, mp, i) \<in> set (so_gc_requests so) \<and> so_now so \<le> t \<and> t \<le> so_now so + 180)"
proof -
  have inv: "shadow_inv (so_gc_requests so) so" using assms by (simp add: shadows_ok_def)
  have r: "fst (snd r) = mp" if "so_shadow_pair_of so i = Some mp" "r \<in> set (so_gc_requests so)" "gc_id r = i" for r
    using that inv by (auto simp: shadow_inv_def gc_request_ok_def)
  have b: "so_now so \<le> t \<and> t \<le> so_now so + 180 \<and> so_shadow_pair_of so i = Some mp" if "(t, mp, i) \<in> set (so_gc_requests so)" for t
    using that assms by (auto simp: shadows_ok_def shadow_inv_def gc_request_ok_def SHADOW_MAKER_ORDER_KEEP_ALIVE_DURATION_def)
  show ?thesis
  proof
    assume *: "so_shadow_pair_of so i = Some mp"
    then have "is_tracked (so_limit_orders so) mp i \<or> i \<in> gc_id ` set (so_gc_requests so)"
      using inv by (simp add: shadow_inv_def)
    then consider "is_tracked (so_limit_orders so) mp i" | r where "r \<in> set (so_gc_requests so)" "gc_id r = i" by blast
    then show "is_tracked (so_limit_orders so) mp i \<or>
      (\<exists>t. (t, mp, i) \<in> set (so_gc_requests so) \<and> so_now so \<le> t \<and> t \<le> so_now so + 180)"
    proof cases
      case (2 r)
      then have "(fst r, mp, i) \<in> set (so_gc_requests so)" using r[OF * 2] by (cases r) (auto simp: gc_id_def)
      then show ?thesis using b by blast
    qed simp
  next
    assume "is_tracked (so_limit_orders so) mp i \<or>
      (\<exists>t. (t, mp, i) \<in> set (so_gc_requests so) \<and> so_now so \<le> t \<and> t \<le> so_now so + 180)"
    then show "so_shadow_pair_of so i = Some mp" using inv b by (auto simp: shadow_inv_def shadows_found_def)
  qed
qed

text \<open>
  C36: a strategy finds a limit order among the shadow orders exactly while it is tracked and for three
  minutes after: \<^verbatim>\<open>get_shadow_limit_order\<close> has an answer for the tracked orders and for those whose clean-up is due at
  a time that has not passed and is at most three minutes ahead, and for no others; for a tracked order the answer is
  the tracked order itself.
\<close>

theorem shadow_orders_kept:
  assumes "orders_run (\<lambda>_. True) new_strategy_orders so"
  shows "((\<exists>x. get_shadow_limit_order so i = Some x) \<longleftrightarrow>
      (\<exists>mp. is_tracked (so_limit_orders so) mp i \<or>
        (\<exists>t. (t, mp, i) \<in> set (so_gc_requests so) \<and> so_now so \<le> t \<and> t \<le> so_now so + 180))) \<and>
    (\<forall>mp x. get_limit_order so mp i = Some x \<longrightarrow> get_shadow_limit_order so i = Some x)"
proof -
  have ok: "shadows_ok so" using shadows_run[OF assms shadows_new] .
  then have "shadows_found so" by (simp add: shadows_ok_def shadow_inv_def)
  then show ?thesis using shadow_lookup shadow_of_tracked shadow_pair_kept[OF ok] by blast
qed

subsection \<open>Cancelling once\<close>

text \<open>The operations after which an order is not tracked any more.\<close>

fun ends_order :: "string \<Rightarrow> orders_op \<Rightarrow> bool" where
  "ends_order i (Failed j ot) \<longleftrightarrow> j = i"
| "ends_order i (Cancelled j) \<longleftrightarrow> j = i"
| "ends_order i (Completed j ot) \<longleftrightarrow> j = i"
| "ends_order i _ \<longleftrightarrow> False"

definition cancel_remembered :: "string \<Rightarrow> seconds \<Rightarrow> strategy_orders \<Rightarrow> bool" where
  "cancel_remembered i t so \<longleftrightarrow> (i, t) \<in> set (so_in_flight_cancels so) \<or> t + CANCEL_EXPIRY_DURATION < so_now so"

lemma update_other: "(i, v) \<in> set d \<Longrightarrow> k \<noteq> i \<Longrightarrow> (i, v) \<in> set (AList.update k w d)"
  by (induction d) auto

lemma delete_other: "(i, v) \<in> set d \<Longrightarrow> k \<noteq> i \<Longrightarrow> (i, v) \<in> set (AList.delete k d)"
  by (induction d) auto

lemma untrack_cancels:
  "so_in_flight_cancels (untrack_limit_order mpo i so) = AList.delete i (so_in_flight_cancels so)"
  "so_now (untrack_limit_order mpo i so) = so_now so"
  "so_in_flight_cancels (untrack_market_order mpo i so) = so_in_flight_cancels so"
  "so_now (untrack_market_order mpo i so) = so_now so"
  by (auto simp: untrack_limit_order_def untrack_market_order_def Let_def split: option.splits)

lemma cancel_remembered_request:
  assumes "cancel_remembered i t so"
  shows "cancel_remembered i t (snd (check_and_track_cancel j so))"
proof (cases "t + CANCEL_EXPIRY_DURATION < so_now so")
  case True
  then show ?thesis by (simp add: cancel_remembered_def check_and_track_cancel_def Let_def)
next
  case False
  let ?d = "filter (\<lambda>(i, t). \<not> t < so_now so - CANCEL_EXPIRY_DURATION) (so_in_flight_cancels so)"
  have "(i, t) \<in> set ?d" using assms False by (simp add: cancel_remembered_def)
  moreover from this have "i \<in> fst ` set ?d" "(i, t) \<in> set (so_in_flight_cancels so)" by (force, simp)
  ultimately show ?thesis
    by (cases "j = i") (auto simp: cancel_remembered_def check_and_track_cancel_def Let_def intro: update_other simp del: set_filter)
qed

lemma cancel_remembered_step:
  assumes "cancel_remembered i t so" "\<not> ends_order i op" "op_ok op so"
  shows "cancel_remembered i t (orders_step op so)"
proof (cases op)
  case (Tick u)
  then show ?thesis using assms by (auto simp: cancel_remembered_def orders_tick_def cleanup_shadow_records_def)
next
  case (RequestCancel j)
  then show ?thesis using assms cancel_remembered_request by simp
qed (use assms in \<open>auto simp: cancel_remembered_def track_limit_order_def track_market_order_def Let_def untrack_cancels
    did_fail_order_tracker_def did_cancel_order_tracker_def did_complete_order_tracker_def add_create_order_pending_def
    remove_create_order_pending_def delete_other split: option.splits\<close>)

lemma cancel_remembered_run:
  "orders_run (\<lambda>op. \<not> ends_order i op) so so' \<Longrightarrow> cancel_remembered i t so \<Longrightarrow> cancel_remembered i t so'"
  by (induction rule: orders_run.induct) (auto intro: cancel_remembered_step)

text \<open>
  While an order is tracked, a strategy does not send a second request to cancel it within a minute: of
  two requests that both pass the check, the second comes more than sixty seconds after the first.
\<close>

theorem cancel_once_per_minute:
  assumes "check_and_track_cancel i so = (True, so1)"
    and "orders_run (\<lambda>op. \<not> ends_order i op) so1 so2"
    and "check_and_track_cancel i so2 = (True, so3)"
  shows "so_now so + 60 < so_now so2"
proof -
  have "(i, so_now so) \<in> set (so_in_flight_cancels so1)"
    using assms(1) by (auto simp: check_and_track_cancel_def Let_def update_conv' dest!: map_of_SomeD split: if_splits
        intro!: map_of_SomeD[of _ i "so_now so"])
  then have "cancel_remembered i (so_now so) so1" by (simp add: cancel_remembered_def)
  then have *: "cancel_remembered i (so_now so) so2" by (rule cancel_remembered_run[OF assms(2)])
  have "(i, so_now so) \<notin> set (so_in_flight_cancels so2) \<or> so_now so < so_now so2 - CANCEL_EXPIRY_DURATION"
    using assms(3) by (force simp: check_and_track_cancel_def Let_def split: if_splits)
  then show ?thesis using * by (auto simp: cancel_remembered_def CANCEL_EXPIRY_DURATION_def)
qed

subsection \<open>Cancelled market orders\<close>

definition places_order :: "string \<Rightarrow> orders_op \<Rightarrow> bool" where
  "places_order i op \<longleftrightarrow> (\<exists>mp b p q. op = PlaceLimit mp i b p q) \<or> (\<exists>mp b q. op = PlaceMarket mp i b q)"

definition orphaned :: "market_pair \<Rightarrow> string \<Rightarrow> strategy_orders \<Rightarrow> bool" where
  "orphaned mp i so \<longleftrightarrow> is_tracked (so_market_orders so) mp i \<and> so_market_pair_of so i = None"

lemma orphaned_untrack:
  "orphaned mp i so \<Longrightarrow> orphaned mp i (untrack_limit_order (so_market_pair_of so j) j so)"
  "orphaned mp i so \<Longrightarrow> orphaned mp i (untrack_market_order (so_market_pair_of so j) j so)"
  by (auto simp: orphaned_def untrack_limit_order_def untrack_market_order_def Let_def split: option.splits)

lemma cleanup_loop_orphaned: "orphaned mp i so \<Longrightarrow> orphaned mp i (cleanup_loop gc so)"
  by (simp add: orphaned_def)

lemma orphaned_step:
  assumes "orphaned mp i so" "\<not> places_order i op"
  shows "orphaned mp i (orders_step op so)"
proof (cases op)
  case (Failed j ot)
  then show ?thesis using orphaned_untrack[OF assms(1), of j] by (simp add: did_fail_order_tracker_def Let_def)
next
  case (Completed j ot)
  then show ?thesis using assms orphaned_untrack[OF assms(1), of j]
    by (auto simp: did_complete_order_tracker_def split: option.splits)
qed (use assms orphaned_untrack in \<open>auto simp: orphaned_def places_order_def orders_tick_def cleanup_shadow_records_def
    track_limit_order_def track_market_order_def Let_def did_cancel_order_tracker_def check_and_track_cancel_def
    add_create_order_pending_def remove_create_order_pending_def\<close>)

text \<open>
  A market order that gets cancelled is never forgotten: the strategy drops its market from the index
  and nothing that happens to orders afterwards, unless the identifier is used again, ends its tracking.
\<close>

theorem cancelled_market_order_stays:
  assumes "is_tracked (so_market_orders so) mp i" "orders_run (\<lambda>op. \<not> places_order i op) (did_cancel_order_tracker i so) so'"
  shows "is_tracked (so_market_orders so') mp i"
proof -
  have "orphaned mp i (did_cancel_order_tracker i so)"
    using assms(1) by (auto simp: orphaned_def did_cancel_order_tracker_def untrack_limit_order_def Let_def split: option.splits)
  with assms(2) have "orphaned mp i so'"
    by (induction rule: orders_run.induct) (auto intro: orphaned_step)
  then show ?thesis by (simp add: orphaned_def)
qed

subsection \<open>A concrete run\<close>

definition tracked_pair :: market_pair where
  "tracked_pair = \<lparr>mp_market = ''binance'', mp_trading_pair = ''BTC-USDT'', mp_base = ''BTC'', mp_quote = ''USDT''\<rparr>"

definition sample_orders :: strategy_orders where
  "sample_orders = fold orders_step [Tick 10, PlaceLimit tracked_pair ''a'' True 100 1, PlaceMarket tracked_pair ''m'' True 1,
     Cancelled ''a''] new_strategy_orders"

lemma sample_orders_run: "orders_run (\<lambda>_. True) new_strategy_orders sample_orders"
proof -
  let ?s1 = "orders_step (Tick 10) new_strategy_orders"
  let ?s2 = "orders_step (PlaceLimit tracked_pair ''a'' True 100 1) ?s1"
  let ?s3 = "orders_step (PlaceMarket tracked_pair ''m'' True 1) ?s2"
  have ok: "op_ok (Tick 10) new_strategy_orders" "op_ok (PlaceLimit tracked_pair ''a'' True 100 1) ?s1"
    "op_ok (PlaceMarket tracked_pair ''m'' True 1) ?s2"
    by (code_simp, code_simp, code_simp)
  have "orders_run (\<lambda>_. True) new_strategy_orders ?s3"
    by (intro orders_run.step orders_run.stop ok) simp_all
  from orders_run.step[OF this, of "Cancelled ''a''"] show ?thesis by (simp add: sample_orders_def)
qed

lemma shadow_orders_kept_witness: "\<exists>x. get_shadow_limit_order sample_orders ''a'' = Some x"
proof -
  have "so_gc_requests sample_orders = [(190, tracked_pair, ''a'')]" "so_now sample_orders = 10" by (code_simp, code_simp)
  then show ?thesis using shadow_orders_kept[OF sample_orders_run, of "''a''"] by auto
qed

lemma cancel_once_per_minute_witness:
  "so_now sample_orders + 60 < so_now (orders_step (Tick 71) (snd (check_and_track_cancel ''m'' sample_orders)))"
proof -
  let ?so1 = "snd (check_and_track_cancel ''m'' sample_orders)"
  have first: "fst (check_and_track_cancel ''m'' sample_orders)" and "op_ok (Tick 71) ?so1"
    and second: "fst (check_and_track_cancel ''m'' (orders_step (Tick 71) ?so1))" by (code_simp, code_simp, code_simp)
  then have "orders_run (\<lambda>op. \<not> ends_order ''m'' op) ?so1 (orders_step (Tick 71) ?so1)"
    by (intro orders_run.step orders_run.stop) simp_all
  then show ?thesis
    by (rule cancel_once_per_minute[rotated]) (use first second in \<open>simp_all add: prod_eq_iff\<close>)
qed

lemma cancelled_market_order_stays_witness:
  "is_tracked (so_market_orders (orders_step (Completed ''m'' MARKET) (did_cancel_order_tracker ''m'' sample_orders))) tracked_pair ''m''"
proof -
  have "is_tracked (so_market_orders sample_orders) tracked_pair ''m''" by code_simp
  moreover have "orders_run (\<lambda>op. \<not> places_order ''m'' op) (did_cancel_order_tracker ''m'' sample_orders)
    (orders_step (Completed ''m'' MARKET) (did_cancel_order_tracker ''m'' sample_orders))"
    by (intro orders_run.step orders_run.stop) (simp_all add: places_order_def)
  ultimately show ?thesis by (rule cancelled_market_order_stays)
qed

end
