(* ===== verification/Arbitrage.thy ===== *)
theory Arbitrage
  imports Strategy_Orders Order_Book
begin

text \<open>
  \<^verbatim>\<open>strategy/arbitrage/arbitrage.pyx\<close>: buying on one market and selling on another what their order books
  allow at a profit.

  What the strategy reads of a market is the record \<open>arb_market\<close>: its book entries, quotes (\<open>None\<close> for the
  \<^verbatim>\<open>NaN\<close> of an empty side), balances, fees and rounding.  The rate oracle is a function, \<open>None\<close> for a rate it does
  not know.  Log lines and the status report are display; the flag that the cool-off was logged is kept.
\<close>

record arb_market =
  am_pair :: market_pair
  am_bids :: "order_book_row list"
  am_asks :: "order_book_row list"
  am_price :: "bool \<Rightarrow> decimal option"
  am_available :: "string \<Rightarrow> decimal"
  am_fee :: "trade_type \<Rightarrow> decimal \<Rightarrow> decimal \<Rightarrow> trade_fee"
  am_quantize_amount :: "decimal \<Rightarrow> decimal"
  am_taker_order_type :: order_type

record arb_params =
  ar_first :: market_pair
  ar_second :: market_pair
  ar_min_profitability :: decimal
  ar_next_trade_delay :: seconds
  ar_use_oracle :: bool
  ar_base_rate :: decimal
  ar_quote_rate :: decimal
  ar_oracle :: "string \<Rightarrow> decimal option"

record arb_state =
  as_strategy :: strategy
  as_last_trade :: "market_pair \<rightharpoonup> seconds"
  as_cool_off_logged :: bool
  as_all_markets_ready :: bool
  as_last_timestamp :: seconds
  as_profitability :: "(decimal option \<times> decimal option) option"

definition arb_init_params :: "string list \<Rightarrow> arb_state" where
  "arb_init_params markets =
     \<lparr>as_strategy = \<lparr>st_markets = markets, st_delegate_lock = False, st_orders = new_strategy_orders\<rparr>,
      as_last_trade = Map.empty, as_cool_off_logged = False, as_all_markets_ready = False, as_last_timestamp = 0,
      as_profitability = None\<rparr>"

subsection \<open>Conversion rates\<close>

definition second_to_first_rate :: "arb_params \<Rightarrow> string \<Rightarrow> string \<Rightarrow> decimal \<Rightarrow> decimal option" where
  "second_to_first_rate ar second first fixed =
     (if ar_use_oracle ar then (if second \<noteq> first then ar_oracle ar (second @ ''-'' @ first) else Some 1) else Some fixed)"

definition get_second_to_first_conversion_rate :: "arb_params \<Rightarrow> decimal option \<times> decimal option" where
  "get_second_to_first_conversion_rate ar =
     (second_to_first_rate ar (mp_quote (ar_second ar)) (mp_quote (ar_first ar)) (ar_quote_rate ar),
      second_to_first_rate ar (mp_base (ar_second ar)) (mp_base (ar_first ar)) (ar_base_rate ar))"

text \<open>A market of neither kind has the rate \<^verbatim>\<open>None\<close>, and multiplying with it raises.\<close>

definition market_conversion_rate :: "arb_params \<Rightarrow> market_pair \<Rightarrow> py_error + decimal option" where
  "market_conversion_rate ar mp =
     (if mp = ar_first ar then Inr (Some 1)
      else if mp = ar_second ar then
        (case get_second_to_first_conversion_rate ar of
           (Some quote_rate, Some base_rate) \<Rightarrow> bind_err (dec_div quote_rate base_rate) (\<lambda>r. Inr (Some r))
         | _ \<Rightarrow> Inl TypeError)
      else Inr None)"

definition crossing_profit :: "decimal option \<Rightarrow> decimal option \<Rightarrow> py_error + decimal option" where
  "crossing_profit bid ask =
     (case (bid, ask) of
        (Some b, Some a) \<Rightarrow> bind_err (dec_div b a) (\<lambda>r. Inr (Some (r - 1)))
      | _ \<Rightarrow> Inr None)"

definition calculate_arbitrage_top_order_profitability ::
  "arb_params \<Rightarrow> arb_market \<Rightarrow> arb_market \<Rightarrow> py_error + (decimal option \<times> decimal option)" where
  "calculate_arbitrage_top_order_profitability ar m1 m2 =
     bind_err (market_conversion_rate ar (am_pair m2)) (\<lambda>converted. case converted of None \<Rightarrow> Inl TypeError | Some rate \<Rightarrow>
       let bid2 = map_option ((*) rate) (am_price m2 False); ask2 = map_option ((*) rate) (am_price m2 True)
       in bind_err (crossing_profit (am_price m1 False) ask2) (\<lambda>buy_2_sell_1.
          bind_err (crossing_profit bid2 (am_price m1 True)) (\<lambda>buy_1_sell_2. Inr (buy_2_sell_1, buy_1_sell_2))))"

subsection \<open>Matching the books\<close>

text \<open>A step: the adjusted bid and ask prices, the bid and ask prices and the amount.\<close>

record arb_step =
  stp_bid_adjusted :: decimal
  stp_ask_adjusted :: decimal
  stp_bid :: decimal
  stp_ask :: decimal
  stp_amount :: decimal

text \<open>
  What the loop looks at next, with what is left of it: the current bid and ask, or the next ones when they are
  used up.  \<open>None\<close> is the end of an iterator, or a leftover that is negative.
\<close>

definition next_rows ::
  "order_book_row list \<Rightarrow> order_book_row list \<Rightarrow> order_book_row \<Rightarrow> order_book_row \<Rightarrow> decimal \<Rightarrow> decimal \<Rightarrow>
   (order_book_row list \<times> order_book_row list \<times> order_book_row \<times> order_book_row \<times> decimal \<times> decimal) option" where
  "next_rows bids asks bid ask bid_left ask_left =
     (if bid_left = 0 \<and> ask_left = 0 then
        (case (bids, asks) of (b # bs, a # as) \<Rightarrow> Some (bs, as, b, a, br_amount b, br_amount a) | _ \<Rightarrow> None)
      else if 0 < bid_left \<and> ask_left = 0 then
        (case asks of a # as \<Rightarrow> Some (bids, as, bid, a, bid_left, br_amount a) | [] \<Rightarrow> None)
      else if 0 < ask_left \<and> bid_left = 0 then
        (case bids of b # bs \<Rightarrow> Some (bs, asks, b, ask, br_amount b, ask_left) | [] \<Rightarrow> None)
      else if 0 < bid_left \<and> 0 < ask_left then Some (bids, asks, bid, ask, bid_left, ask_left)
      else None)"

definition below_negative_limit :: "decimal \<Rightarrow> decimal \<Rightarrow> decimal \<Rightarrow> py_error + bool" where
  "below_negative_limit min_profitability bid ask =
     (if min_profitability < 0 then bind_err (dec_div bid ask) (\<lambda>r. Inr (r < 1 + min_profitability)) else Inr False)"

function match_books ::
  "decimal \<Rightarrow> decimal \<Rightarrow> decimal \<Rightarrow> order_book_row list \<Rightarrow> order_book_row list \<Rightarrow> order_book_row \<Rightarrow> order_book_row \<Rightarrow>
   decimal \<Rightarrow> decimal \<Rightarrow> py_error + arb_step list" where
  "match_books min_profitability buy_rate sell_rate bids asks bid ask bid_left ask_left =
     (case next_rows bids asks bid ask bid_left ask_left of
        None \<Rightarrow> Inr []
      | Some (bids', asks', bid', ask', bid_left', ask_left') \<Rightarrow>
          let bid_adjusted = br_price bid' * sell_rate; ask_adjusted = br_price ask' * buy_rate;
              step_amount = min bid_left' ask_left'
          in if bid_adjusted < ask_adjusted then Inr []
             else
               (case below_negative_limit min_profitability bid_adjusted ask_adjusted of
                  Inl e \<Rightarrow> Inl e
                | Inr True \<Rightarrow> Inr []
                | Inr False \<Rightarrow>
                    if step_amount = 0
                    then match_books min_profitability buy_rate sell_rate bids' asks' bid' ask' bid_left' ask_left'
                    else
                      bind_err (match_books min_profitability buy_rate sell_rate bids' asks' bid' ask'
                          (bid_left' - step_amount) (ask_left' - step_amount))
                        (\<lambda>orders. Inr (\<lparr>stp_bid_adjusted = bid_adjusted, stp_ask_adjusted = ask_adjusted,
                           stp_bid = br_price bid', stp_ask = br_price ask', stp_amount = step_amount\<rparr> # orders))))"
  by pat_completeness auto
termination
proof (relation "measure (\<lambda>(m, b, s, bids, asks, bid, ask, bl, al). 2 * (length bids + length asks) + (if 0 < bl \<and> 0 < al then 1 else 0))")
qed (auto simp: next_rows_def min_def split: if_splits list.splits)

declare match_books.simps [simp del]

definition no_row :: order_book_row where
  "no_row = \<lparr>br_price = 0, br_amount = 0, br_update_id = 0\<rparr>"

definition find_profitable_arbitrage_orders ::
  "decimal \<Rightarrow> arb_market \<Rightarrow> arb_market \<Rightarrow> decimal \<Rightarrow> decimal \<Rightarrow> py_error + arb_step list" where
  "find_profitable_arbitrage_orders min_profitability buy_market sell_market buy_rate sell_rate =
     match_books min_profitability buy_rate sell_rate (am_bids sell_market) (am_asks buy_market) no_row no_row 0 0"

subsection \<open>The best amount\<close>

record best_search =
  bs_bid_value :: decimal
  bs_ask_value :: decimal
  bs_previous_amount :: decimal
  bs_amount :: decimal
  bs_profitability :: decimal
  bs_bid_price :: decimal
  bs_ask_price :: decimal

definition start_search :: best_search where
  "start_search = \<lparr>bs_bid_value = 0, bs_ask_value = 0, bs_previous_amount = 0, bs_amount = 0, bs_profitability = 0,
     bs_bid_price = 0, bs_ask_price = 0\<rparr>"

text \<open>
  One step of the loop: the state and whether the loop is left.  The bid and ask price of the result are
  the loop's variables, which hold the prices of the last step that was looked at.
\<close>

definition search_step ::
  "decimal \<Rightarrow> arb_market \<Rightarrow> arb_market \<Rightarrow> arb_step \<Rightarrow> best_search \<Rightarrow> py_error + (best_search \<times> bool)" where
  "search_step min_profitability buy_market sell_market order bs =
     (let amount = bs_previous_amount bs + stp_amount order;
          buy_fee = am_fee buy_market BUY amount (stp_ask order);
          sell_fee = am_fee sell_market SELL amount (stp_bid order);
          buy_quote = mp_quote (am_pair buy_market)
      in bind_err (sum_flat_fees buy_quote (tf_flat_fees buy_fee)) (\<lambda>total_buy_flat_fees.
         bind_err (sum_flat_fees (mp_quote (am_pair sell_market)) (tf_flat_fees sell_fee)) (\<lambda>total_sell_flat_fees.
           let bid_value = bs_bid_value bs + stp_bid_adjusted order * stp_amount order;
               ask_value = bs_ask_value bs + stp_ask_adjusted order * stp_amount order;
               net_sell_proceeds = bid_value * (1 - tf_percent sell_fee) - total_sell_flat_fees;
               net_buy_costs = ask_value * (1 + tf_percent buy_fee) + total_buy_flat_fees
           in bind_err (dec_div net_sell_proceeds net_buy_costs) (\<lambda>profitability.
             let bs1 = bs\<lparr>bs_bid_value := bid_value, bs_ask_value := ask_value,
                          bs_bid_price := stp_bid order, bs_ask_price := stp_ask order\<rparr>;
                 bs2 = (if 1 + min_profitability < profitability
                        then bs1\<lparr>bs_amount := amount, bs_profitability := profitability\<rparr> else bs1);
                 quote_balance = am_available buy_market buy_quote;
                 base_balance = am_available sell_market (mp_base (am_pair sell_market))
             in if quote_balance < net_buy_costs \<or> base_balance < amount
                then
                  (if profitability < 1 + min_profitability then Inr (bs2, True)
                   else
                     bind_err (dec_div quote_balance (stp_ask order)) (\<lambda>q.
                     bind_err (dec_div (q - total_buy_flat_fees) (1 + tf_percent buy_fee)) (\<lambda>adjusted_size.
                       Inr (bs2\<lparr>bs_amount := min base_balance adjusted_size, bs_profitability := profitability\<rparr>, True))))
                else Inr (bs2\<lparr>bs_previous_amount := amount\<rparr>, False)))))"

fun search_loop ::
  "decimal \<Rightarrow> arb_market \<Rightarrow> arb_market \<Rightarrow> arb_step list \<Rightarrow> best_search \<Rightarrow> py_error + best_search" where
  "search_loop min_profitability buy_market sell_market [] bs = Inr bs"
| "search_loop min_profitability buy_market sell_market (order # orders) bs =
     bind_err (search_step min_profitability buy_market sell_market order bs) (\<lambda>(bs', left).
       if left then Inr bs' else search_loop min_profitability buy_market sell_market orders bs')"

definition find_best_profitable_amount :: "arb_params \<Rightarrow> arb_market \<Rightarrow> arb_market \<Rightarrow> py_error + best_search" where
  "find_best_profitable_amount ar buy_market sell_market =
     bind_err (market_conversion_rate ar (am_pair buy_market)) (\<lambda>buy_converted.
     bind_err (market_conversion_rate ar (am_pair sell_market)) (\<lambda>sell_converted.
     bind_err
       (case (buy_converted, sell_converted) of
          (Some buy_rate, Some sell_rate) \<Rightarrow>
            find_profitable_arbitrage_orders (ar_min_profitability ar) buy_market sell_market buy_rate sell_rate
        | _ \<Rightarrow> if am_bids sell_market = [] \<or> am_asks buy_market = [] then Inr [] else Inl TypeError)
       (\<lambda>orders. search_loop (ar_min_profitability ar) buy_market sell_market orders start_search)))"

subsection \<open>Trading\<close>

text \<open>Where a market has both limit and market orders the latter replace the former.\<close>

definition tracked_taker_orders :: "strategy_orders \<Rightarrow> market_pair \<Rightarrow> string list" where
  "tracked_taker_orders so mp =
     (case map_of (so_market_orders so) mp of
        Some d \<Rightarrow> map fst d | None \<Rightarrow> map fst (inner mp (so_limit_orders so)))"

definition cooling_off :: "arb_params \<Rightarrow> market_pair \<Rightarrow> arb_state \<Rightarrow> bool" where
  "cooling_off ar mp as \<longleftrightarrow>
     (case as_last_trade as mp of
        None \<Rightarrow> False | Some t \<Rightarrow> so_now (st_orders (as_strategy as)) < t + ar_next_trade_delay ar)"

fun ready_for_new_orders :: "arb_params \<Rightarrow> market_pair list \<Rightarrow> arb_state \<Rightarrow> bool \<times> arb_state" where
  "ready_for_new_orders ar [] as = (True, as\<lparr>as_cool_off_logged := False\<rparr>)"
| "ready_for_new_orders ar (mp # mps) as =
     (if tracked_taker_orders (st_orders (as_strategy as)) mp \<noteq> [] then (False, as)
      else if cooling_off ar mp as then (False, as\<lparr>as_cool_off_logged := True\<rparr>)
      else ready_for_new_orders ar mps as)"

text \<open>
  The new state, the requests sent and the exception: a sell that raises comes after the buy was sent.  The
  identifiers are those the two markets answer.
\<close>

type_synonym arb_result = "arb_state \<times> market_request list \<times> py_error option"

definition process_market_pair_inner ::
  "arb_params \<Rightarrow> string \<Rightarrow> string \<Rightarrow> arb_market \<Rightarrow> arb_market \<Rightarrow> arb_state \<Rightarrow> arb_result" where
  "process_market_pair_inner ar buy_id sell_id buy_market sell_market as =
     (case find_best_profitable_amount ar buy_market sell_market of
        Inl e \<Rightarrow> (as, [], Some e)
      | Inr bs \<Rightarrow>
          let quantized_order_amount = min (am_quantize_amount buy_market (bs_amount bs)) (am_quantize_amount sell_market (bs_amount bs))
          in if quantized_order_amount = 0 then (as, [], None)
             else
               (case order_with_specific_market True (am_pair buy_market) quantized_order_amount (am_taker_order_type buy_market)
                       (bs_ask_price bs) (Some (ar_next_trade_delay ar)) OPEN_POSITION buy_id (as_strategy as) of
                  Inl e \<Rightarrow> (as, [], Some e)
                | Inr (st1, buy_request) \<Rightarrow>
                    (case order_with_specific_market False (am_pair sell_market) quantized_order_amount (am_taker_order_type sell_market)
                            (bs_bid_price bs) (Some (ar_next_trade_delay ar)) OPEN_POSITION sell_id st1 of
                       Inl e \<Rightarrow> (as\<lparr>as_strategy := st1\<rparr>, [buy_request], Some e)
                     | Inr (st2, sell_request) \<Rightarrow> (as\<lparr>as_strategy := st2\<rparr>, [buy_request, sell_request], None))))"

text \<open>Comparing a \<^verbatim>\<open>NaN\<close> raises.\<close>

definition process_market_pair ::
  "arb_params \<Rightarrow> string \<Rightarrow> string \<Rightarrow> arb_market \<Rightarrow> arb_market \<Rightarrow> arb_state \<Rightarrow> arb_result" where
  "process_market_pair ar buy_id sell_id m1 m2 as =
     (case ready_for_new_orders ar [am_pair m1, am_pair m2] as of
        (False, as1) \<Rightarrow> (as1, [], None)
      | (True, as1) \<Rightarrow>
          (case calculate_arbitrage_top_order_profitability ar m1 m2 of
             Inl e \<Rightarrow> (as1, [], Some e)
           | Inr (p0, p1) \<Rightarrow>
               let as2 = as1\<lparr>as_profitability := Some (p0, p1)\<rparr>
               in (case (p0, p1) of
                     (Some buy_2_sell_1, Some buy_1_sell_2) \<Rightarrow>
                       if buy_1_sell_2 < ar_min_profitability ar \<and> buy_2_sell_1 < ar_min_profitability ar then (as2, [], None)
                       else if buy_2_sell_1 < buy_1_sell_2 then process_market_pair_inner ar buy_id sell_id m1 m2 as2
                       else process_market_pair_inner ar buy_id sell_id m2 m1 as2
                   | _ \<Rightarrow> (as2, [], Some InvalidOperation))))"

text \<open>A market pair, what is seen of its markets, and the identifiers of its orders.\<close>

fun process_pairs ::
  "arb_params \<Rightarrow> (arb_market \<times> arb_market \<times> string \<times> string) list \<Rightarrow> arb_state \<Rightarrow> arb_result" where
  "process_pairs ar [] as = (as, [], None)"
| "process_pairs ar ((m1, m2, buy_id, sell_id) # pairs) as =
     (case process_market_pair ar buy_id sell_id m1 m2 as of
        (as1, requests, Some e) \<Rightarrow> (as1, requests, Some e)
      | (as1, requests, None) \<Rightarrow>
          (case process_pairs ar pairs as1 of (as2, requests', e) \<Rightarrow> (as2, requests @ requests', e)))"

definition arb_tick ::
  "arb_params \<Rightarrow> bool \<Rightarrow> bool \<Rightarrow> (arb_market \<times> arb_market \<times> string \<times> string) list \<Rightarrow> seconds \<Rightarrow> arb_state \<Rightarrow> arb_result" where
  "arb_tick ar markets_ready markets_connected pairs timestamp as =
     (let as1 = as\<lparr>as_strategy := (as_strategy as)\<lparr>st_orders := orders_tick timestamp (st_orders (as_strategy as))\<rparr>\<rparr>;
          as2 = as1\<lparr>as_all_markets_ready := as_all_markets_ready as1 \<or> markets_ready\<rparr>;
          (as3, requests, e) =
            (if \<not> as_all_markets_ready as2 \<or> \<not> markets_connected then (as2, [], None) else process_pairs ar pairs as2)
      in (as3\<lparr>as_last_timestamp := timestamp\<rparr>, requests, e))"

text \<open>The handlers of the strategy run before those of the strategy base.\<close>

definition arb_did_complete_order :: "string \<Rightarrow> order_type \<Rightarrow> arb_state \<Rightarrow> arb_state" where
  "arb_did_complete_order order_id ot as =
     (let so = st_orders (as_strategy as);
          as1 = (case so_market_pair_of so order_id of
                   None \<Rightarrow> as | Some mp \<Rightarrow> as\<lparr>as_last_trade := (as_last_trade as)(mp \<mapsto> so_now so)\<rparr>)
      in as1\<lparr>as_strategy := (as_strategy as1)\<lparr>st_orders := did_complete_order_tracker order_id ot so\<rparr>\<rparr>)"

definition arb_did_cancel_order :: "string \<Rightarrow> arb_state \<Rightarrow> arb_state" where
  "arb_did_cancel_order order_id as =
     as\<lparr>as_strategy := (as_strategy as)\<lparr>st_orders := did_cancel_order_tracker order_id (st_orders (as_strategy as))\<rparr>\<rparr>"

definition arb_did_fail_order :: "string \<Rightarrow> order_type \<Rightarrow> arb_state \<Rightarrow> arb_state" where
  "arb_did_fail_order order_id ot as =
     as\<lparr>as_strategy := (as_strategy as)\<lparr>st_orders := did_fail_order_tracker order_id ot (st_orders (as_strategy as))\<rparr>\<rparr>"

subsection \<open>The matched orders are the profitable volume\<close>

text \<open>The price at which the next bit of a volume is traded, and the value of a volume.\<close>

fun price_at :: "order_book_row list \<Rightarrow> decimal \<Rightarrow> decimal option" where
  "price_at [] v = None"
| "price_at (r # rs) v = (if v < br_amount r then Some (br_price r) else price_at rs (v - br_amount r))"

definition sim_value :: "order_book_row list \<Rightarrow> decimal \<Rightarrow> decimal" where
  "sim_value rows v = total_value (simulate v rows)"

lemma sim_value_simps [simp]:
  "sim_value [] v = 0"
  "sim_value (r # rs) v =
    (if br_amount r < v then br_amount r * br_price r + sim_value rs (v - br_amount r) else v * br_price r)"
  by (simp_all add: sim_value_def row_value_def)

definition left_rows :: "order_book_row \<Rightarrow> decimal \<Rightarrow> order_book_row list \<Rightarrow> order_book_row list" where
  "left_rows r l rows = (if l = 0 then rows else r\<lparr>br_amount := l\<rparr> # rows)"

definition amounts_ok :: "order_book_row list \<Rightarrow> bool" where
  "amounts_ok rows \<longleftrightarrow> (\<forall>r \<in> set rows. 0 \<le> br_amount r)"

lemma sim_value_zero: "amounts_ok rows \<Longrightarrow> sim_value rows 0 = 0"
  by (cases rows) (auto simp: amounts_ok_def)

lemma price_at_shift:
  "0 \<le> s \<Longrightarrow> s \<le> l \<Longrightarrow> s \<le> v \<Longrightarrow> price_at (r\<lparr>br_amount := l\<rparr> # rows) v = price_at (left_rows r (l - s) rows) (v - s)"
  by (simp add: left_rows_def)

lemma sim_value_shift:
  "0 \<le> s \<Longrightarrow> s \<le> l \<Longrightarrow> s \<le> v \<Longrightarrow> amounts_ok rows \<Longrightarrow>
    sim_value (r\<lparr>br_amount := l\<rparr> # rows) v = s * br_price r + sim_value (left_rows r (l - s) rows) (v - s)"
  by (auto simp: left_rows_def algebra_simps sim_value_zero)

definition falling :: "order_book_row list \<Rightarrow> bool" where
  "falling rows \<longleftrightarrow> sorted_wrt (\<lambda>x y. br_price y \<le> br_price x) rows"

definition rising :: "order_book_row list \<Rightarrow> bool" where
  "rising rows \<longleftrightarrow> sorted_wrt (\<lambda>x y. br_price x \<le> br_price y) rows"

lemma price_at_mem: "price_at rows v = Some p \<Longrightarrow> p \<in> br_price ` set rows"
  by (induction rows v rule: price_at.induct) (auto split: if_splits)

definition bid_rows :: "arb_step list \<Rightarrow> order_book_row list" where
  "bid_rows os = map (\<lambda>s. \<lparr>br_price = stp_bid s, br_amount = stp_amount s, br_update_id = 0\<rparr>) os"

definition ask_rows :: "arb_step list \<Rightarrow> order_book_row list" where
  "ask_rows os = map (\<lambda>s. \<lparr>br_price = stp_ask s, br_amount = stp_amount s, br_update_id = 0\<rparr>) os"

definition step_total :: "arb_step list \<Rightarrow> decimal" where
  "step_total os = (\<Sum>s \<leftarrow> os. stp_amount s)"

lemma step_rows_simps [simp]:
  "bid_rows [] = []" "ask_rows [] = []" "step_total [] = 0" "step_total (s # os) = stp_amount s + step_total os"
  "bid_rows (s # os) = \<lparr>br_price = stp_bid s, br_amount = stp_amount s, br_update_id = 0\<rparr> # bid_rows os"
  "ask_rows (s # os) = \<lparr>br_price = stp_ask s, br_amount = stp_amount s, br_update_id = 0\<rparr> # ask_rows os"
  by (simp_all add: bid_rows_def ask_rows_def step_total_def)

definition step_ok :: "decimal \<Rightarrow> decimal \<Rightarrow> arb_step \<Rightarrow> bool" where
  "step_ok buy_rate sell_rate s \<longleftrightarrow> 0 < stp_amount s \<and> stp_bid_adjusted s = stp_bid s * sell_rate \<and>
     stp_ask_adjusted s = stp_ask s * buy_rate \<and> stp_ask_adjusted s \<le> stp_bid_adjusted s"

text \<open>The steps follow both books to the volume at which they stop crossing.\<close>

definition follows :: "order_book_row list \<Rightarrow> order_book_row list \<Rightarrow> decimal \<Rightarrow> bool" where
  "follows rows steps T \<longleftrightarrow> (\<forall>v. 0 \<le> v \<longrightarrow> v < T \<longrightarrow> price_at rows v = price_at steps v) \<and>
     (\<forall>v. 0 \<le> v \<longrightarrow> v \<le> T \<longrightarrow> sim_value rows v = sim_value steps v)"

definition uncrossed_at :: "decimal \<Rightarrow> decimal \<Rightarrow> order_book_row list \<Rightarrow> order_book_row list \<Rightarrow> decimal \<Rightarrow> bool" where
  "uncrossed_at buy_rate sell_rate bids asks v \<longleftrightarrow>
     (\<forall>b a. price_at bids v = Some b \<longrightarrow> price_at asks v = Some a \<longrightarrow> b * sell_rate < a * buy_rate)"

lemma step_total_nonneg: "list_all (step_ok rb rs) os \<Longrightarrow> 0 \<le> step_total os"
  by (induction os) (simp_all add: step_ok_def)

lemma follows_shift:
  assumes f: "follows (left_rows r (l - s) rows) steps T" and s: "0 < s" "s \<le> l" and "amounts_ok rows" "amounts_ok steps" "0 \<le> T"
  shows "follows (r\<lparr>br_amount := l\<rparr> # rows) (\<lparr>br_price = br_price r, br_amount = s, br_update_id = 0\<rparr> # steps) (s + T)"
proof -
  have "price_at (r\<lparr>br_amount := l\<rparr> # rows) v = price_at (\<lparr>br_price = br_price r, br_amount = s, br_update_id = 0\<rparr> # steps) v"
    if "0 \<le> v" "v < s + T" for v
  proof (cases "v < s")
    case False
    then show ?thesis using that s f price_at_shift[of s l v r rows] by (simp add: follows_def)
  qed (use s in simp)
  moreover have "sim_value (r\<lparr>br_amount := l\<rparr> # rows) v = sim_value (\<lparr>br_price = br_price r, br_amount = s, br_update_id = 0\<rparr> # steps) v"
    if "0 \<le> v" "v \<le> s + T" for v
  proof (cases "v \<le> s")
    case False
    have "sim_value (left_rows r (l - s) rows) (v - s) = sim_value steps (v - s)" using f that False by (simp add: follows_def)
    then show ?thesis using False s sim_value_shift[of s l v rows r] assms by simp
  qed (use s in simp)
  ultimately show ?thesis by (simp add: follows_def)
qed

lemma next_rows_Some:
  assumes "next_rows bids asks bid ask bl al = Some (bs, as, b, a, bl', al')" "amounts_ok bids" "amounts_ok asks"
  shows "left_rows bid bl bids = b\<lparr>br_amount := bl'\<rparr> # bs" "left_rows ask al asks = a\<lparr>br_amount := al'\<rparr> # as"
    "0 \<le> bl'" "0 \<le> al'" "amounts_ok bs" "amounts_ok as"
  using assms by (auto simp: next_rows_def left_rows_def amounts_ok_def split: if_splits list.splits)

lemma next_rows_None:
  "next_rows bids asks bid ask bl al = None \<Longrightarrow> 0 \<le> bl \<Longrightarrow> 0 \<le> al \<Longrightarrow> left_rows bid bl bids = [] \<or> left_rows ask al asks = []"
  by (auto simp: next_rows_def left_rows_def split: if_splits list.splits)

lemma next_rows_less:
  "next_rows bids asks bid ask bl al = Some (bs, as, b, a, bl', al') \<Longrightarrow>
    2 * (length bs + length as) + (if 0 < bl' - min bl' al' \<and> 0 < al' - min bl' al' then 1 else 0)
    < 2 * (length bids + length asks) + (if 0 < bl \<and> 0 < al then 1 else (0::nat))"
  by (auto simp: next_rows_def min_def split: if_splits list.splits)

lemma match_books_step:
  assumes "next_rows bids asks bid ask bl al = Some (bs, as, b, a, bl', al')" "0 \<le> m" "br_price a * rb \<le> br_price b * rs"
  shows "match_books m rb rs bids asks bid ask bl al =
    bind_err (match_books m rb rs bs as b a (bl' - min bl' al') (al' - min bl' al')) (\<lambda>os.
      Inr (if min bl' al' = 0 then os else \<lparr>stp_bid_adjusted = br_price b * rs, stp_ask_adjusted = br_price a * rb,
        stp_bid = br_price b, stp_ask = br_price a, stp_amount = min bl' al'\<rparr> # os))"
  using assms by (subst match_books.simps) (auto simp: below_negative_limit_def Let_def bind_err_def split: sum.split)

lemma match_books_correct:
  assumes "0 \<le> m" "0 \<le> rb" "0 \<le> rs"
  shows "match_books m rb rs bids asks bid ask bl al = Inr os \<Longrightarrow> 0 \<le> bl \<Longrightarrow> 0 \<le> al \<Longrightarrow> amounts_ok bids \<Longrightarrow> amounts_ok asks \<Longrightarrow>
    falling (left_rows bid bl bids) \<Longrightarrow> rising (left_rows ask al asks) \<Longrightarrow>
    (\<forall>s \<in> set os. step_ok rb rs s) \<and> follows (left_rows bid bl bids) (bid_rows os) (step_total os) \<and>
    follows (left_rows ask al asks) (ask_rows os) (step_total os) \<and>
    uncrossed_at rb rs (left_rows bid bl bids) (left_rows ask al asks) (step_total os)"
proof (induction "2 * (length bids + length asks) + (if 0 < bl \<and> 0 < al then 1 else (0::nat))"
    arbitrary: bids asks bid ask bl al os rule: less_induct)
  case (less bids asks bl al bid ask os)
  let ?B = "left_rows bid bl bids" and ?A = "left_rows ask al asks"
  have ok: "amounts_ok ?B" "amounts_ok ?A" using less.prems by (auto simp: left_rows_def amounts_ok_def)
  have no_steps: "follows ?B [] 0" "follows ?A [] 0" using ok by (auto simp: follows_def sim_value_zero)
  show ?case
  proof (cases "next_rows bids asks bid ask bl al")
    case None
    then have "os = []" using less.prems(1) by (subst (asm) match_books.simps) simp
    moreover have "uncrossed_at rb rs ?B ?A 0"
      using next_rows_None[OF None less.prems(2,3)] by (auto simp: uncrossed_at_def)
    ultimately show ?thesis by (simp add: no_steps)
  next
    case (Some nx)
    obtain bs as b a bl' al' where nx: "next_rows bids asks bid ask bl al = Some (bs, as, b, a, bl', al')"
      using Some by (metis prod_cases6)
    note next' = next_rows_Some[OF nx less.prems(4,5)]
    show ?thesis
    proof (cases "br_price b * rs < br_price a * rb")
      case True
      then have "os = []" using less.prems(1) nx by (subst (asm) match_books.simps) (simp add: Let_def)
      moreover have "uncrossed_at rb rs ?B ?A 0"
        unfolding uncrossed_at_def
      proof (intro allI impI)
        fix p q assume "price_at ?B 0 = Some p" "price_at ?A 0 = Some q"
        then have "p \<in> br_price ` set ?B" "q \<in> br_price ` set ?A" using price_at_mem by blast+
        then have "p \<le> br_price b" "br_price a \<le> q"
          using less.prems(6,7) unfolding next'(1,2) by (auto simp: falling_def rising_def)
        then have "p * rs \<le> br_price b * rs" "br_price a * rb \<le> q * rb" using assms mult_right_mono by blast+
        then show "p * rs < q * rb" using True by linarith
      qed
      ultimately show ?thesis using no_steps by simp
    next
      case False
      let ?s = "min bl' al'"
      let ?B' = "left_rows b (bl' - ?s) bs" and ?A' = "left_rows a (al' - ?s) as"
      obtain os' where rec: "match_books m rb rs bs as b a (bl' - ?s) (al' - ?s) = Inr os'"
        and os: "os = (if ?s = 0 then os' else \<lparr>stp_bid_adjusted = br_price b * rs, stp_ask_adjusted = br_price a * rb,
          stp_bid = br_price b, stp_ask = br_price a, stp_amount = ?s\<rparr> # os')"
        using less.prems(1) match_books_step[OF nx assms(1)] False by (auto simp: err_simps not_less)
      have sorted: "falling ?B'" "rising ?A'"
        using less.prems(6,7) unfolding next'(1,2) by (auto simp: falling_def rising_def left_rows_def)
      have IH: "(\<forall>s \<in> set os'. step_ok rb rs s) \<and> follows ?B' (bid_rows os') (step_total os') \<and>
        follows ?A' (ask_rows os') (step_total os') \<and> uncrossed_at rb rs ?B' ?A' (step_total os')"
        by (rule less.hyps[OF next_rows_less[OF nx] rec _ _ next'(5,6) sorted]) simp_all
      have T: "0 \<le> step_total os'" using IH step_total_nonneg[of rb rs os'] by (simp add: list_all_iff)
      have s: "0 \<le> ?s" "?s \<le> bl'" "?s \<le> al'" using next'(3,4) by auto
      have rows: "amounts_ok (bid_rows os')" "amounts_ok (ask_rows os')"
        using IH by (auto simp: amounts_ok_def bid_rows_def ask_rows_def step_ok_def)
      have "uncrossed_at rb rs ?B ?A (?s + step_total os')"
        using IH price_at_shift[OF s(1,2), of "?s + step_total os'" b bs] price_at_shift[OF s(1,3), of "?s + step_total os'" a as] T
        by (simp add: next'(1,2) uncrossed_at_def)
      moreover have "follows ?B (bid_rows os) (step_total os) \<and> follows ?A (ask_rows os) (step_total os)"
      proof (cases "?s = 0")
        case True
        have "price_at ?B v = price_at ?B' v" "price_at ?A v = price_at ?A' v"
          "sim_value ?B v = sim_value ?B' v" "sim_value ?A v = sim_value ?A' v" if "0 \<le> v" for v
          using price_at_shift[of 0 bl' v b bs] price_at_shift[of 0 al' v a as] sim_value_shift[of 0 bl' v bs b]
            sim_value_shift[of 0 al' v as a] that next' True by simp_all
        then show ?thesis using IH True os by (simp add: follows_def)
      next
        case False
        then have pos: "0 < ?s" using s(1) by linarith
        have "follows (b\<lparr>br_amount := bl'\<rparr> # bs) (\<lparr>br_price = br_price b, br_amount = ?s, br_update_id = 0\<rparr> # bid_rows os') (?s + step_total os')"
          by (rule follows_shift[OF _ pos s(2) next'(5) rows(1) T]) (use IH in blast)
        moreover have "follows (a\<lparr>br_amount := al'\<rparr> # as) (\<lparr>br_price = br_price a, br_amount = ?s, br_update_id = 0\<rparr> # ask_rows os') (?s + step_total os')"
          by (rule follows_shift[OF _ pos s(3) next'(6) rows(2) T]) (use IH in blast)
        ultimately show ?thesis using os False by (simp add: next'(1,2))
      qed
      ultimately show ?thesis
        using IH os s False by (auto simp: step_ok_def)
    qed
  qed
qed

lemma price_at_falls:
  assumes "amounts_ok rows" "falling rows" "0 \<le> v" "v \<le> w" "price_at rows w = Some q"
  shows "\<exists>p. price_at rows v = Some p \<and> q \<le> p"
  using assms
proof (induction rows arbitrary: v w)
  case (Cons r rows)
  show ?case
  proof (cases "v < br_amount r")
    case True
    have "q \<in> br_price ` set (r # rows)" using price_at_mem Cons.prems(5) by blast
    then show ?thesis using True Cons.prems(2) by (auto simp: falling_def)
  next
    case False
    then show ?thesis using Cons.IH[of "v - br_amount r" "w - br_amount r"] Cons.prems by (auto simp: falling_def amounts_ok_def)
  qed
qed simp

lemma price_at_rises:
  assumes "amounts_ok rows" "rising rows" "0 \<le> v" "v \<le> w" "price_at rows w = Some q"
  shows "\<exists>p. price_at rows v = Some p \<and> p \<le> q"
  using assms
proof (induction rows arbitrary: v w)
  case (Cons r rows)
  show ?case
  proof (cases "v < br_amount r")
    case True
    have "q \<in> br_price ` set (r # rows)" using price_at_mem Cons.prems(5) by blast
    then show ?thesis using True Cons.prems(2) by (auto simp: rising_def)
  next
    case False
    then show ?thesis using Cons.IH[of "v - br_amount r" "w - br_amount r"] Cons.prems by (auto simp: rising_def amounts_ok_def)
  qed
qed simp

definition crossing_at :: "decimal \<Rightarrow> decimal \<Rightarrow> order_book_row list \<Rightarrow> order_book_row list \<Rightarrow> decimal \<Rightarrow> bool" where
  "crossing_at buy_rate sell_rate bids asks v \<longleftrightarrow>
     (\<exists>b a. price_at bids v = Some b \<and> price_at asks v = Some a \<and> a * buy_rate \<le> b * sell_rate)"

definition books_sorted :: "arb_market \<Rightarrow> arb_market \<Rightarrow> bool" where
  "books_sorted buy_market sell_market \<longleftrightarrow> amounts_ok (am_bids sell_market) \<and> falling (am_bids sell_market) \<and>
     amounts_ok (am_asks buy_market) \<and> rising (am_asks buy_market)"

lemma steps_price: "\<forall>s \<in> set os. step_ok rb rs s \<Longrightarrow> 0 \<le> v \<Longrightarrow> v < step_total os \<Longrightarrow>
    \<exists>s \<in> set os. price_at (bid_rows os) v = Some (stp_bid s) \<and> price_at (ask_rows os) v = Some (stp_ask s)"
proof (induction os arbitrary: v)
  case (Cons s os)
  show ?case
  proof (cases "v < stp_amount s")
    case False
    then obtain t where "t \<in> set os" "price_at (bid_rows os) (v - stp_amount s) = Some (stp_bid t)"
      "price_at (ask_rows os) (v - stp_amount s) = Some (stp_ask t)"
      using Cons.IH[of "v - stp_amount s"] Cons.prems by auto
    then show ?thesis using False by auto
  qed auto
qed simp

lemma found_orders:
  assumes "find_profitable_arbitrage_orders m buy_market sell_market rb rs = Inr os" "0 \<le> m" "0 \<le> rb" "0 \<le> rs"
    "books_sorted buy_market sell_market"
  shows "\<forall>s \<in> set os. step_ok rb rs s" "follows (am_bids sell_market) (bid_rows os) (step_total os)"
    "follows (am_asks buy_market) (ask_rows os) (step_total os)"
    "uncrossed_at rb rs (am_bids sell_market) (am_asks buy_market) (step_total os)"
  using match_books_correct[OF assms(2-4) assms(1)[unfolded find_profitable_arbitrage_orders_def]] assms(5)
  by (simp_all add: books_sorted_def left_rows_def)

text \<open>
  C8: matching the bids of one market with the asks of another finds exactly the volume that can be traded
  at a profit: the bit of the books at a volume crosses, in the common currency, if and only if the volume
  is below the sum of the matched orders.
\<close>

theorem matched_volume_exact:
  assumes "find_profitable_arbitrage_orders m buy_market sell_market buy_rate sell_rate = Inr os"
    and "0 \<le> m" "0 \<le> buy_rate" "0 \<le> sell_rate" "books_sorted buy_market sell_market" "0 \<le> v"
  shows "v < step_total os \<longleftrightarrow> crossing_at buy_rate sell_rate (am_bids sell_market) (am_asks buy_market) v"
proof -
  note f = found_orders[OF assms(1-5)]
  show ?thesis
  proof
    assume v: "v < step_total os"
    obtain s where "s \<in> set os" "price_at (bid_rows os) v = Some (stp_bid s)" "price_at (ask_rows os) v = Some (stp_ask s)"
      using steps_price[OF f(1) assms(6) v] by blast
    moreover have "price_at (am_bids sell_market) v = price_at (bid_rows os) v" "price_at (am_asks buy_market) v = price_at (ask_rows os) v"
      using f(2,3) v assms(6) by (simp_all add: follows_def)
    ultimately show "crossing_at buy_rate sell_rate (am_bids sell_market) (am_asks buy_market) v"
      using f(1) by (auto simp: crossing_at_def step_ok_def)
  next
    assume c: "crossing_at buy_rate sell_rate (am_bids sell_market) (am_asks buy_market) v"
    show "v < step_total os"
    proof (rule ccontr)
      assume "\<not> v < step_total os"
      then have le: "step_total os \<le> v" by simp
      have T: "0 \<le> step_total os" using step_total_nonneg[of buy_rate sell_rate os] f(1) by (simp add: list_all_iff)
      obtain b a where ba: "price_at (am_bids sell_market) v = Some b" "price_at (am_asks buy_market) v = Some a"
        "a * buy_rate \<le> b * sell_rate" using c by (auto simp: crossing_at_def)
      obtain b' where b': "price_at (am_bids sell_market) (step_total os) = Some b'" "b \<le> b'"
        using price_at_falls[OF _ _ T le ba(1)] assms(5) by (auto simp: books_sorted_def)
      obtain a' where a': "price_at (am_asks buy_market) (step_total os) = Some a'" "a' \<le> a"
        using price_at_rises[OF _ _ T le ba(2)] assms(5) by (auto simp: books_sorted_def)
      have "b' * sell_rate < a' * buy_rate" using f(4) b'(1) a'(1) by (simp add: uncrossed_at_def)
      moreover have "a' * buy_rate \<le> a * buy_rate" "b * sell_rate \<le> b' * sell_rate"
        using a'(2) b'(2) assms(3,4) by (simp_all add: mult_right_mono)
      ultimately show False using ba(3) by linarith
    qed
  qed
qed

subsection \<open>Values of volumes\<close>

lemma sim_value_rise:
  assumes "amounts_ok rows" "\<forall>r \<in> set rows. br_price r \<le> p" "0 \<le> p" "0 \<le> v" "v \<le> w"
  shows "sim_value rows w \<le> sim_value rows v + p * (w - v)"
  using assms
proof (induction rows arbitrary: v w)
  case (Cons r rows)
  have ok: "amounts_ok rows" "\<forall>r \<in> set rows. br_price r \<le> p" "0 \<le> br_amount r" "br_price r \<le> p"
    using Cons.prems by (auto simp: amounts_ok_def)
  show ?case
  proof (cases "br_amount r < v")
    case True
    then show ?thesis using Cons.IH[OF ok(1,2) Cons.prems(3), of "v - br_amount r" "w - br_amount r"] Cons.prems by simp
  next
    case False
    note v = False
    show ?thesis
    proof (cases "br_amount r < w")
      case True
      have "sim_value rows (w - br_amount r) \<le> p * (w - br_amount r)"
        using Cons.IH[OF ok(1,2) Cons.prems(3), of 0 "w - br_amount r"] True by (simp add: sim_value_zero[OF ok(1)])
      moreover have "(br_amount r - v) * br_price r \<le> (br_amount r - v) * p" using v ok(4) by (intro mult_left_mono) simp_all
      ultimately show ?thesis using True v by (simp add: algebra_simps)
    next
      case False
      have "(w - v) * br_price r \<le> (w - v) * p" using Cons.prems ok(4) by (intro mult_left_mono) simp_all
      then show ?thesis using False v by (simp add: algebra_simps)
    qed
  qed
qed simp

lemma sim_value_rise_least:
  assumes "amounts_ok rows" "\<forall>r \<in> set rows. p \<le> br_price r" "0 \<le> v" "v \<le> w" "w \<le> total_amount rows"
  shows "sim_value rows v + p * (w - v) \<le> sim_value rows w"
  using assms
proof (induction rows arbitrary: v w)
  case (Cons r rows)
  have ok: "amounts_ok rows" "\<forall>r \<in> set rows. p \<le> br_price r" "0 \<le> br_amount r" "p \<le> br_price r"
    using Cons.prems by (auto simp: amounts_ok_def)
  show ?case
  proof (cases "br_amount r < v")
    case True
    then show ?thesis using Cons.IH[OF ok(1,2), of "v - br_amount r" "w - br_amount r"] Cons.prems by simp
  next
    case False
    note v = False
    show ?thesis
    proof (cases "br_amount r < w")
      case True
      have "p * (w - br_amount r) \<le> sim_value rows (w - br_amount r)"
        using Cons.IH[OF ok(1,2), of 0 "w - br_amount r"] True Cons.prems by (simp add: sim_value_zero[OF ok(1)])
      moreover have "(br_amount r - v) * p \<le> (br_amount r - v) * br_price r" using v ok(4) by (intro mult_left_mono) simp_all
      ultimately show ?thesis using True v by (simp add: algebra_simps)
    next
      case False
      have "(w - v) * p \<le> (w - v) * br_price r" using Cons.prems ok(4) by (intro mult_left_mono) simp_all
      then show ?thesis using False v by (simp add: algebra_simps)
    qed
  qed
next
  case Nil
  then have "w = 0" "v = 0" by simp_all
  then show ?case by simp
qed

text \<open>The average price of a volume gets worse with the volume.\<close>

lemma average_falls:
  assumes "amounts_ok rows" "falling rows" "\<forall>r \<in> set rows. 0 \<le> br_price r" "0 \<le> v" "v \<le> w"
  shows "sim_value rows w * v \<le> sim_value rows v * w"
  using assms
proof (induction rows arbitrary: v w)
  case (Cons r rows)
  have ok: "amounts_ok rows" "falling rows" "\<forall>r \<in> set rows. 0 \<le> br_price r" "\<forall>x \<in> set rows. br_price x \<le> br_price r"
    "0 \<le> br_amount r" "0 \<le> br_price r"
    using Cons.prems by (auto simp: amounts_ok_def falling_def)
  show ?case
  proof (cases "br_amount r < w")
    case False
    then show ?thesis using Cons.prems by (simp add: algebra_simps)
  next
    case w: True
    show ?thesis
    proof (cases "br_amount r < v")
      case True
      have 1: "sim_value rows (w - br_amount r) * (v - br_amount r) \<le> sim_value rows (v - br_amount r) * (w - br_amount r)"
        using Cons.IH[OF ok(1-3), of "v - br_amount r" "w - br_amount r"] True Cons.prems by simp
      have "sim_value rows (w - br_amount r) \<le> sim_value rows (v - br_amount r) + br_price r * (w - v)"
        using sim_value_rise[OF ok(1,4,6), of "v - br_amount r" "w - br_amount r"] True Cons.prems by simp
      then have 2: "br_amount r * sim_value rows (w - br_amount r) \<le> br_amount r * (sim_value rows (v - br_amount r) + br_price r * (w - v))"
        using ok(5) by (rule mult_left_mono)
      show ?thesis using 1 2 w True by (simp add: algebra_simps)
    next
      case False
      have "sim_value rows (w - br_amount r) \<le> br_price r * (w - br_amount r)"
        using sim_value_rise[OF ok(1,4,6), of 0 "w - br_amount r"] w by (simp add: sim_value_zero[OF ok(1)])
      then have "br_amount r * br_price r + sim_value rows (w - br_amount r) \<le> br_price r * w" by (simp add: algebra_simps)
      then have "(br_amount r * br_price r + sim_value rows (w - br_amount r)) * v \<le> br_price r * w * v"
        using Cons.prems(4) by (rule mult_right_mono)
      then show ?thesis using w False by (simp add: algebra_simps)
    qed
  qed
qed simp

lemma average_rises:
  assumes "amounts_ok rows" "rising rows" "0 \<le> v" "v \<le> w" "w \<le> total_amount rows"
  shows "sim_value rows v * w \<le> sim_value rows w * v"
  using assms
proof (induction rows arbitrary: v w)
  case (Cons r rows)
  have ok: "amounts_ok rows" "rising rows" "\<forall>x \<in> set rows. br_price r \<le> br_price x" "0 \<le> br_amount r"
    using Cons.prems by (auto simp: amounts_ok_def rising_def)
  show ?case
  proof (cases "br_amount r < w")
    case False
    then show ?thesis using Cons.prems by (simp add: algebra_simps)
  next
    case w: True
    show ?thesis
    proof (cases "br_amount r < v")
      case True
      have 1: "sim_value rows (v - br_amount r) * (w - br_amount r) \<le> sim_value rows (w - br_amount r) * (v - br_amount r)"
        using Cons.IH[OF ok(1,2), of "v - br_amount r" "w - br_amount r"] True Cons.prems by simp
      have "sim_value rows (v - br_amount r) + br_price r * (w - v) \<le> sim_value rows (w - br_amount r)"
        using sim_value_rise_least[OF ok(1,3), of "v - br_amount r" "w - br_amount r"] True Cons.prems by simp
      then have 2: "br_amount r * (sim_value rows (v - br_amount r) + br_price r * (w - v)) \<le> br_amount r * sim_value rows (w - br_amount r)"
        using ok(4) by (rule mult_left_mono)
      show ?thesis using 1 2 w True by (simp add: algebra_simps)
    next
      case False
      have "br_price r * (w - br_amount r) \<le> sim_value rows (w - br_amount r)"
        using sim_value_rise_least[OF ok(1,3), of 0 "w - br_amount r"] w Cons.prems by (simp add: sim_value_zero[OF ok(1)])
      then have "br_price r * w \<le> br_amount r * br_price r + sim_value rows (w - br_amount r)" by (simp add: algebra_simps)
      then have "br_price r * w * v \<le> (br_amount r * br_price r + sim_value rows (w - br_amount r)) * v"
        using Cons.prems(3) by (rule mult_right_mono)
      then show ?thesis using w False by (simp add: algebra_simps)
    qed
  qed
qed simp

subsection \<open>The amount that is traded\<close>

definition ask_value :: "arb_step list \<Rightarrow> decimal" where
  "ask_value os = (\<Sum>s \<leftarrow> os. stp_ask s * stp_amount s)"

definition bid_value :: "arb_step list \<Rightarrow> decimal" where
  "bid_value os = (\<Sum>s \<leftarrow> os. stp_bid s * stp_amount s)"

lemma step_values_simps [simp]:
  "ask_value [] = 0" "ask_value (s # os) = stp_ask s * stp_amount s + ask_value os"
  "bid_value [] = 0" "bid_value (s # os) = stp_bid s * stp_amount s + bid_value os"
  "ask_value (os @ os') = ask_value os + ask_value os'" "bid_value (os @ os') = bid_value os + bid_value os'"
  "step_total (os @ os') = step_total os + step_total os'"
  by (simp_all add: ask_value_def bid_value_def step_total_def)

lemma amounts_ok_steps: "list_all (step_ok rb rs) os \<Longrightarrow> amounts_ok (ask_rows os)" "list_all (step_ok rb rs) os \<Longrightarrow> amounts_ok (bid_rows os)"
  by (auto simp: amounts_ok_def ask_rows_def bid_rows_def step_ok_def list_all_iff)

lemma step_total_pos: "list_all (step_ok rb rs) os \<Longrightarrow> os \<noteq> [] \<Longrightarrow> 0 < step_total os"
  by (cases os) (auto simp: step_ok_def intro!: add_pos_nonneg step_total_nonneg)

lemma sim_steps:
  assumes "list_all (step_ok rb rs) (P @ Q)"
  shows "sim_value (ask_rows (P @ Q)) (step_total P) = ask_value P \<and> sim_value (bid_rows (P @ Q)) (step_total P) = bid_value P"
  using assms
proof (induction P)
  case Nil
  then show ?case using amounts_ok_steps[of rb rs Q] by (simp add: sim_value_zero)
next
  case (Cons t P)
  then show ?case using step_total_pos[of rb rs P] by (cases P) auto
qed

lemma price_at_steps:
  assumes "list_all (step_ok rb rs) (P @ s # Q)"
  shows "price_at (ask_rows (P @ s # Q)) (step_total P) = Some (stp_ask s)"
  using assms
proof (induction P)
  case Nil
  then show ?case by (simp add: step_ok_def)
next
  case (Cons t P)
  then show ?case using step_total_nonneg[of rb rs P] by simp
qed

text \<open>The steps keep the order of the asks, so a volume costs at most its last price.\<close>

lemma steps_rise:
  assumes "list_all (step_ok rb rs) os" "follows asks (ask_rows os) (step_total os)" "amounts_ok asks" "rising asks"
    "os = P @ s # Q" "t \<in> set P"
  shows "stp_ask t \<le> stp_ask s"
proof -
  obtain P1 P2 where P: "P = P1 @ t # P2" using assms(6) by (meson split_list)
  have nn: "0 \<le> step_total P1" "0 \<le> step_total P2" "0 \<le> step_total Q" "0 < stp_amount t" "0 < stp_amount s"
    using assms(1) unfolding assms(5) P by (simp_all add: step_ok_def step_total_nonneg[of rb rs])
  have 1: "price_at (ask_rows os) (step_total P1) = Some (stp_ask t)"
    using price_at_steps[of rb rs P1 t "P2 @ s # Q"] assms(1) unfolding assms(5) P by simp
  have 2: "price_at (ask_rows os) (step_total P) = Some (stp_ask s)"
    using price_at_steps[of rb rs P s Q] assms(1) unfolding assms(5) by simp
  have "step_total P1 < step_total os" "step_total P < step_total os" "step_total P1 \<le> step_total P" "0 \<le> step_total P"
    using nn unfolding assms(5) P by simp_all
  then have 3: "price_at asks (step_total P1) = Some (stp_ask t)" "price_at asks (step_total P) = Some (stp_ask s)"
    using 1 2 assms(2) nn unfolding follows_def by simp_all
  show ?thesis
    using price_at_rises[OF assms(3,4) nn(1) \<open>step_total P1 \<le> step_total P\<close> 3(2)] 3(1) by simp
qed

lemma ask_value_le:
  "list_all (step_ok rb rs) P \<Longrightarrow> \<forall>t \<in> set P. stp_ask t \<le> p \<Longrightarrow> ask_value P \<le> p * step_total P"
proof (induction P)
  case (Cons t P)
  then have "stp_ask t * stp_amount t \<le> p * stp_amount t" by (intro mult_right_mono) (simp_all add: step_ok_def)
  then show ?case using Cons by (simp add: algebra_simps)
qed simp

lemma price_at_end: "amounts_ok rows \<Longrightarrow> price_at rows (total_amount rows) = None"
proof (induction rows)
  case (Cons r rows)
  then have "0 \<le> total_amount rows" by (auto simp: amounts_ok_def total_amount_def intro!: sum_list_nonneg)
  then show ?case using Cons by (simp add: amounts_ok_def)
qed simp

lemma follows_total:
  assumes "list_all (step_ok rb rs) os" "follows rows (ask_rows os) (step_total os)" "amounts_ok rows"
  shows "step_total os \<le> total_amount rows"
proof (rule ccontr)
  assume "\<not> step_total os \<le> total_amount rows"
  moreover have "0 \<le> total_amount rows" using assms(3) by (auto simp: amounts_ok_def total_amount_def intro!: sum_list_nonneg)
  ultimately have "price_at rows (total_amount rows) \<noteq> None"
    using steps_price[of os rb rs "total_amount rows"] assms(1,2) by (auto simp: follows_def list_all_iff)
  then show False using price_at_end[OF assms(3)] by simp
qed

text \<open>A market whose fee is a fixed share of the traded value.\<close>

definition percent_fees :: "arb_market \<Rightarrow> trade_type \<Rightarrow> decimal \<Rightarrow> bool" where
  "percent_fees m t p \<longleftrightarrow> (\<forall>amount price. tf_percent (am_fee m t amount price) = p \<and> tf_flat_fees (am_fee m t amount price) = [])"

text \<open>
  An amount the balances cover, with the profit over the costs, at the prices of the books and with both values
  converted into the currency of the first market.
\<close>

definition covered_profit :: "decimal \<Rightarrow> decimal \<Rightarrow> decimal \<Rightarrow> decimal \<Rightarrow> decimal \<Rightarrow> arb_market \<Rightarrow> arb_market \<Rightarrow> decimal \<Rightarrow> bool" where
  "covered_profit m buy_rate sell_rate buy_fee sell_fee buy_market sell_market amount \<longleftrightarrow>
     (let costs = sim_value (am_asks buy_market) amount * buy_rate * (1 + buy_fee);
          proceeds = sim_value (am_bids sell_market) amount * sell_rate * (1 - sell_fee)
      in 0 \<le> amount \<and> amount \<le> am_available sell_market (mp_base (am_pair sell_market)) \<and>
         costs \<le> am_available buy_market (mp_quote (am_pair buy_market)) \<and> (1 + m) * costs \<le> proceeds)"

definition within_balances :: "decimal \<Rightarrow> arb_market \<Rightarrow> arb_market \<Rightarrow> decimal \<Rightarrow> decimal \<Rightarrow> bool" where
  "within_balances buy_fee buy_market sell_market costs amount \<longleftrightarrow>
     costs * (1 + buy_fee) \<le> am_available buy_market (mp_quote (am_pair buy_market)) \<and>
     amount \<le> am_available sell_market (mp_base (am_pair sell_market))"

text \<open>What a step of the search does with such fees.\<close>

lemma search_step_cases:
  assumes "search_step m buy_market sell_market s bs = Inr (bs', left)"
    "percent_fees buy_market BUY pb" "percent_fees sell_market SELL ps"
  defines "w \<equiv> bs_previous_amount bs + stp_amount s"
    and "A \<equiv> bs_ask_value bs + stp_ask_adjusted s * stp_amount s"
    and "B \<equiv> bs_bid_value bs + stp_bid_adjusted s * stp_amount s"
    and "quote \<equiv> am_available buy_market (mp_quote (am_pair buy_market))"
    and "base \<equiv> am_available sell_market (mp_base (am_pair sell_market))"
  shows "A * (1 + pb) \<noteq> 0"
    "\<not> left \<Longrightarrow> within_balances pb buy_market sell_market A w \<and> bs_previous_amount bs' = w \<and> bs_ask_value bs' = A \<and>
      bs_bid_value bs' = B \<and> (bs_amount bs' = bs_amount bs \<or> bs_amount bs' = w \<and> 1 + m < B * (1 - ps) / (A * (1 + pb)))"
    "left \<Longrightarrow> bs_amount bs' = bs_amount bs \<or> \<not> within_balances pb buy_market sell_market A w \<and>
      1 + m \<le> B * (1 - ps) / (A * (1 + pb)) \<and> stp_ask s \<noteq> 0 \<and> bs_amount bs' = min base (quote / stp_ask s / (1 + pb))"
  using assms(1-3)
  by (auto simp: search_step_def percent_fees_def sum_flat_fees_def Let_def err_simps w_def A_def B_def quote_def base_def
      within_balances_def split: if_splits)

lemma sim_value_nonneg: "amounts_ok rows \<Longrightarrow> list_all (\<lambda>r. 0 < br_price r) rows \<Longrightarrow> 0 \<le> v \<Longrightarrow> 0 \<le> sim_value rows v"
  by (induction rows arbitrary: v) (simp_all add: amounts_ok_def less_imp_le)

lemma search_keeps:
  assumes fees: "percent_fees buy_market BUY pb" "percent_fees sell_market SELL ps"
    and steps: "list_all (step_ok rb rs) os"
    and ok: "\<And>P s Q. os = P @ s # Q \<Longrightarrow> within_balances pb buy_market sell_market (rb * ask_value (P @ [s])) (step_total (P @ [s])) \<Longrightarrow>
      1 + m < rs * bid_value (P @ [s]) * (1 - ps) / (rb * ask_value (P @ [s]) * (1 + pb)) \<Longrightarrow> good (step_total (P @ [s]))"
    and less: "\<And>P s Q. os = P @ s # Q \<Longrightarrow> \<not> within_balances pb buy_market sell_market (rb * ask_value (P @ [s])) (step_total (P @ [s])) \<Longrightarrow>
      1 + m \<le> rs * bid_value (P @ [s]) * (1 - ps) / (rb * ask_value (P @ [s]) * (1 + pb)) \<Longrightarrow> stp_ask s \<noteq> 0 \<Longrightarrow>
      good (min (am_available sell_market (mp_base (am_pair sell_market)))
        (am_available buy_market (mp_quote (am_pair buy_market)) / stp_ask s / (1 + pb)))"
  shows "search_loop m buy_market sell_market Q bs = Inr bs' \<Longrightarrow> os = P @ Q \<Longrightarrow> good (bs_amount bs) \<Longrightarrow>
    bs_previous_amount bs = step_total P \<Longrightarrow> bs_ask_value bs = rb * ask_value P \<Longrightarrow> bs_bid_value bs = rs * bid_value P \<Longrightarrow>
    good (bs_amount bs')"
proof (induction Q arbitrary: P bs)
  case (Cons s Q)
  obtain bs1 left where step: "search_step m buy_market sell_market s bs = Inr (bs1, left)"
    and rest: "if left then bs' = bs1 else search_loop m buy_market sell_market Q bs1 = Inr bs'"
    using Cons.prems(1) by (auto simp: err_simps split: if_splits)
  have s: "stp_ask_adjusted s = stp_ask s * rb" "stp_bid_adjusted s = stp_bid s * rs"
    using steps Cons.prems(2) by (simp_all add: step_ok_def)
  have sums: "bs_previous_amount bs + stp_amount s = step_total (P @ [s])"
    "bs_ask_value bs + stp_ask_adjusted s * stp_amount s = rb * ask_value (P @ [s])"
    "bs_bid_value bs + stp_bid_adjusted s * stp_amount s = rs * bid_value (P @ [s])"
    using Cons.prems(4-6) s by (simp_all add: algebra_simps)
  note step' = search_step_cases[OF step fees, unfolded sums]
  show ?case
  proof (cases left)
    case True
    then show ?thesis using step'(3) rest less[OF Cons.prems(2)] Cons.prems(3) by auto
  next
    case False
    have "good (bs_amount bs1)" using step'(2)[OF False] ok[OF Cons.prems(2)] Cons.prems(3) by auto
    then show ?thesis
      using Cons.IH[of bs1 "P @ [s]"] step'(2)[OF False] rest False Cons.prems(2) by simp
  qed
qed simp

lemma profit_transfers:
  fixes a b A B :: decimal
  assumes "a * w \<le> A * n" "B * n \<le> b * w" "0 < w" "0 \<le> n" "0 \<le> k" "0 \<le> l" "k * A \<le> l * B"
  shows "k * a \<le> l * b"
proof -
  have "k * (a * w) \<le> k * (A * n)" using assms(1,5) by (rule mult_left_mono)
  also have "\<dots> \<le> (l * B) * n" using mult_right_mono[OF assms(7,4)] by (simp add: algebra_simps)
  also have "\<dots> \<le> l * (b * w)" using mult_left_mono[OF assms(2,6)] by (simp add: algebra_simps)
  finally have "(k * a) * w \<le> (l * b) * w" by (simp add: algebra_simps)
  then show ?thesis using assms(3) by simp
qed

lemma steps_worth:
  assumes m: "0 \<le> m" and rates: "0 < rb" "0 \<le> rs" and fees: "0 \<le> pb" "0 \<le> ps" "ps \<le> 1"
    and found: "find_profitable_arbitrage_orders m buy_market sell_market rb rs = Inr os"
    and books: "books_sorted buy_market sell_market" "list_all (\<lambda>r. 0 < br_price r) (am_asks buy_market)"
      "list_all (\<lambda>r. 0 \<le> br_price r) (am_bids sell_market)"
    and os: "os = P @ s # Q"
    and worth: "1 + m \<le> rs * bid_value (P @ [s]) * (1 - ps) / (rb * ask_value (P @ [s]) * (1 + pb))"
    and n: "0 \<le> n" "n \<le> step_total (P @ [s])"
  shows "(1 + m) * (sim_value (am_asks buy_market) n * rb * (1 + pb)) \<le> sim_value (am_bids sell_market) n * rs * (1 - ps)"
    and "sim_value (am_asks buy_market) n \<le> stp_ask s * n" "0 < stp_ask s"
    and "sim_value (am_asks buy_market) (step_total (P @ [s])) = ask_value (P @ [s])"
proof -
  note f = found_orders[OF found m less_imp_le[OF rates(1)] rates(2) books(1)]
  let ?w = "step_total (P @ [s])" and ?asks = "am_asks buy_market" and ?bids = "am_bids sell_market"
  have all: "list_all (step_ok rb rs) os" using f(1) by (simp add: list_all_iff)
  have sorted: "amounts_ok ?asks" "rising ?asks" "amounts_ok ?bids" "falling ?bids" using books(1) by (simp_all add: books_sorted_def)
  have w: "0 < ?w" "?w \<le> step_total os"
    using step_total_pos[of rb rs "P @ [s]"] step_total_nonneg[of rb rs Q] all unfolding os by simp_all
  have vals: "sim_value ?asks ?w = ask_value (P @ [s])" "sim_value ?bids ?w = bid_value (P @ [s])"
    using sim_steps[of rb rs "P @ [s]" Q] all f(2,3) w unfolding os by (simp_all add: follows_def)
  have top: "\<forall>t \<in> set (P @ [s]). stp_ask t \<le> stp_ask s"
    using steps_rise[OF all f(3) sorted(1,2) os] by auto
  have le_total: "?w \<le> total_amount ?asks" using follows_total[OF all f(3) sorted(1)] w(2) by linarith
  have rise: "sim_value ?asks n * ?w \<le> ask_value (P @ [s]) * n"
    using average_rises[OF sorted(1,2) n(1,2) le_total] vals(1) by simp
  have fall: "bid_value (P @ [s]) * n \<le> sim_value ?bids n * ?w"
    using average_falls[OF sorted(3,4) _ n] books(3) vals(2) by (simp add: list_all_iff)
  have "ask_value (P @ [s]) \<le> stp_ask s * ?w"
    by (rule ask_value_le[of rb rs]) (use all top os in auto)
  then have "ask_value (P @ [s]) * n \<le> stp_ask s * ?w * n" using n(1) by (rule mult_right_mono)
  then have "sim_value ?asks n * ?w \<le> (stp_ask s * n) * ?w" using rise by (simp add: algebra_simps)
  then show "sim_value ?asks n \<le> stp_ask s * n" using w(1) by simp
  have price: "0 < stp_ask t" if "t \<in> set (P @ [s])" for t
  proof -
    obtain P1 P2 where split: "P @ [s] = P1 @ t # P2" using split_list[OF \<open>t \<in> set (P @ [s])\<close>] by blast
    have os': "os = P1 @ t # (P2 @ Q)" using split os by (metis append.assoc append_Cons append_Nil)
    have "0 \<le> step_total P1" "step_total P1 < step_total os"
      using all step_total_nonneg[of rb rs P1] step_total_pos[of rb rs "t # P2 @ Q"] unfolding os' by simp_all
    then have "price_at ?asks (step_total P1) = Some (stp_ask t)"
      using price_at_steps[of rb rs P1 t "P2 @ Q"] all f(3) unfolding os' follows_def by simp
    then show ?thesis using price_at_mem books(2) by (fastforce simp: list_all_iff)
  qed
  then show "0 < stp_ask s" by simp
  have "\<forall>t \<in> set R. 0 < stp_ask t \<and> 0 < stp_amount t \<Longrightarrow> 0 \<le> ask_value R" for R
    by (induction R) (simp_all add: less_imp_le)
  moreover have "\<forall>t \<in> set P. 0 < stp_ask t \<and> 0 < stp_amount t" "0 < stp_ask s" "0 < stp_amount s"
    using price all os by (auto simp: list_all_iff step_ok_def)
  ultimately have "0 < ask_value (P @ [s])" by (simp add: add_nonneg_pos)
  then have "(1 + m) * (rb * ask_value (P @ [s]) * (1 + pb)) \<le> rs * bid_value (P @ [s]) * (1 - ps)"
    using worth fees rates(1) by (simp add: pos_le_divide_eq)
  then have "((1 + m) * rb * (1 + pb)) * ask_value (P @ [s]) \<le> (rs * (1 - ps)) * bid_value (P @ [s])" by (simp add: algebra_simps)
  from profit_transfers[OF rise fall w(1) n(1) _ _ this]
  have "((1 + m) * rb * (1 + pb)) * sim_value ?asks n \<le> (rs * (1 - ps)) * sim_value ?bids n" using m rates fees by simp
  then show "(1 + m) * (sim_value ?asks n * rb * (1 + pb)) \<le> sim_value ?bids n * rs * (1 - ps)" by (simp add: algebra_simps)
  show "sim_value ?asks ?w = ask_value (P @ [s])" by (rule vals)
qed

text \<open>The amount a balance buys at a price with a fee: cheaper than a cost that exceeds the balance, and within the balance.\<close>

lemma amount_below_cost:
  fixes price :: rat
  assumes "balance < cost * (1 + fee)" "cost \<le> price * w" "0 < price" "0 \<le> fee"
  shows "balance / price / (1 + fee) < w"
proof -
  have "cost * (1 + fee) \<le> price * w * (1 + fee)" using assms(2,4) by (intro mult_right_mono) simp_all
  then have "balance < w * (price * (1 + fee))" using assms(1) by (simp add: ac_simps)
  moreover have "0 < price * (1 + fee)" using assms(3,4) by simp
  ultimately have "balance / (price * (1 + fee)) < w" using pos_divide_less_eq by blast
  then show ?thesis by simp
qed

lemma cost_of_amount:
  fixes price :: rat
  assumes "cost \<le> price * n" "n \<le> balance / price / (1 + fee)" "0 < price" "0 \<le> fee"
  shows "cost * (1 + fee) \<le> balance"
proof -
  have "cost * (1 + fee) \<le> price * n * (1 + fee)" using assms(1,4) by (intro mult_right_mono) simp_all
  also have "\<dots> \<le> price * (balance / price / (1 + fee)) * (1 + fee)" using assms(2-4) by (intro mult_right_mono mult_left_mono) simp_all
  finally show ?thesis using assms(3,4) by simp
qed

text \<open>
  C9: with fees that are percentages, sorted books, a minimum profitability that is not negative and a bought
  market whose prices are converted at a rate of at most one (exactly one for the first market of a pair): the
  amount the strategy finds is not negative, the base balance of the sold market covers it, the quote balance of the
  bought market covers its converted costs with the fee, and at the prices of the books and after the fees its
  converted proceeds exceed its converted costs by the minimum profitability.  At a rate of one the converted costs
  are what is paid; below one they are less, and the balance need not cover what is paid (see below).
\<close>

theorem best_amount_sound:
  assumes found: "find_best_profitable_amount ar buy_market sell_market = Inr bs"
    and rates: "market_conversion_rate ar (am_pair buy_market) = Inr (Some buy_rate)"
      "market_conversion_rate ar (am_pair sell_market) = Inr (Some sell_rate)"
      "0 < buy_rate" "buy_rate \<le> 1" "0 \<le> sell_rate"
    and m: "0 \<le> ar_min_profitability ar"
    and fees: "percent_fees buy_market BUY buy_fee" "percent_fees sell_market SELL sell_fee" "0 \<le> buy_fee" "0 \<le> sell_fee" "sell_fee \<le> 1"
    and books: "books_sorted buy_market sell_market" "list_all (\<lambda>r. 0 < br_price r) (am_asks buy_market)"
      "list_all (\<lambda>r. 0 \<le> br_price r) (am_bids sell_market)"
    and balances: "0 \<le> am_available buy_market (mp_quote (am_pair buy_market))"
      "0 \<le> am_available sell_market (mp_base (am_pair sell_market))"
  shows "covered_profit (ar_min_profitability ar) buy_rate sell_rate buy_fee sell_fee buy_market sell_market (bs_amount bs)"
proof -
  let ?m = "ar_min_profitability ar" and ?base = "am_available sell_market (mp_base (am_pair sell_market))"
    and ?quote = "am_available buy_market (mp_quote (am_pair buy_market))"
  obtain os where os: "find_profitable_arbitrage_orders ?m buy_market sell_market buy_rate sell_rate = Inr os"
    and loop: "search_loop ?m buy_market sell_market os start_search = Inr bs"
    using found rates by (auto simp: find_best_profitable_amount_def err_simps)
  have all: "list_all (step_ok buy_rate sell_rate) os"
    using found_orders(1)[OF os m less_imp_le[OF rates(3)] rates(5) books(1)] by (simp add: list_all_iff)
  note worth = steps_worth[OF m rates(3,5) fees(3-5) os books]
  let ?good = "covered_profit ?m buy_rate sell_rate buy_fee sell_fee buy_market sell_market"
  have w: "0 \<le> step_total (P @ [s])" if "os = P @ s # Q" for P s Q
    using that all step_total_nonneg[of buy_rate sell_rate "P @ [s]"] by simp
  have sim_nonneg: "0 \<le> sim_value (am_asks buy_market) n" if "0 \<le> n" for n
    using sim_value_nonneg[OF _ books(2) that] books(1) by (simp add: books_sorted_def)
  have costs: "0 \<le> ask_value (P @ [s])" if "os = P @ s # Q"
      "1 + ?m \<le> sell_rate * bid_value (P @ [s]) * (1 - sell_fee) / (buy_rate * ask_value (P @ [s]) * (1 + buy_fee))" for P s Q
    using worth(4)[OF that w[OF that(1)] order_refl] sim_nonneg[OF w[OF that(1)]] by simp
  show ?thesis
  proof (rule search_keeps[OF fees(1,2) all _ _ loop, of ?good "[]"])
    fix P s Q
    assume split: "os = P @ s # Q" and within: "within_balances buy_fee buy_market sell_market (buy_rate * ask_value (P @ [s])) (step_total (P @ [s]))"
      and profit: "1 + ?m < sell_rate * bid_value (P @ [s]) * (1 - sell_fee) / (buy_rate * ask_value (P @ [s]) * (1 + buy_fee))"
    show "?good (step_total (P @ [s]))"
      using worth(1,4)[OF split less_imp_le[OF profit] w[OF split] order_refl] within w[OF split]
      unfolding covered_profit_def Let_def within_balances_def by (simp add: mult.commute)
  next
    fix P s Q
    let ?w = "step_total (P @ [s])" and ?n = "min ?base (?quote / stp_ask s / (1 + buy_fee))"
    assume split: "os = P @ s # Q" and out: "\<not> within_balances buy_fee buy_market sell_market (buy_rate * ask_value (P @ [s])) ?w"
      and profit: "1 + ?m \<le> sell_rate * bid_value (P @ [s]) * (1 - sell_fee) / (buy_rate * ask_value (P @ [s]) * (1 + buy_fee))"
    have ask: "0 < stp_ask s" by (rule worth(3)[OF split profit w[OF split] order_refl])
    have n: "0 \<le> ?n" using balances ask fees(3) by simp
    have "?n \<le> ?w"
    proof (cases "?base < ?w")
      case False
      then have "?quote < buy_rate * ask_value (P @ [s]) * (1 + buy_fee)" using out by (simp add: within_balances_def)
      also have "\<dots> \<le> ask_value (P @ [s]) * (1 + buy_fee)"
        using rates(3,4) fees(3) costs[OF split profit] by (intro mult_right_mono mult_left_le_one_le) simp_all
      finally have "?quote / stp_ask s / (1 + buy_fee) < ?w"
        using worth(2,4)[OF split profit w[OF split] order_refl] ask fees(3) by (intro amount_below_cost) simp_all
      then show ?thesis by simp
    qed simp
    note n' = worth(1,2)[OF split profit n this]
    have "sim_value (am_asks buy_market) ?n * buy_rate \<le> sim_value (am_asks buy_market) ?n"
      using rates(3,4) sim_nonneg n by (intro mult_right_le_one_le) simp_all
    then have "sim_value (am_asks buy_market) ?n * buy_rate \<le> stp_ask s * ?n" using n'(2) by linarith
    then have "sim_value (am_asks buy_market) ?n * buy_rate * (1 + buy_fee) \<le> ?quote"
      using ask fees(3) by (intro cost_of_amount[where price = "stp_ask s" and n = ?n]) simp_all
    then show "?good ?n" using n'(1) n unfolding covered_profit_def Let_def by simp
  next
    have zero: "sim_value (am_asks buy_market) 0 = 0" "sim_value (am_bids sell_market) 0 = 0"
      using books(1) by (simp_all add: sim_value_zero books_sorted_def)
    show "?good (bs_amount start_search)" using balances by (simp add: zero covered_profit_def start_search_def)
  qed (simp_all add: start_search_def)
qed

subsection \<open>The orders\<close>

definition quiet :: "arb_params \<Rightarrow> arb_state \<Rightarrow> market_pair \<Rightarrow> bool" where
  "quiet ar as mp \<longleftrightarrow> tracked_taker_orders (st_orders (as_strategy as)) mp = [] \<and> \<not> cooling_off ar mp as"

fun bought_then_sold :: "market_pair \<Rightarrow> market_pair \<Rightarrow> market_request list \<Rightarrow> bool" where
  "bought_then_sold mb ms [MarketOrderRequest True p a t q e c, MarketOrderRequest False p' a' t' q' e' c'] \<longleftrightarrow>
     p = mb \<and> p' = ms \<and> a = a' \<and> a \<noteq> 0 \<and> e = e'"
| "bought_then_sold mb ms _ \<longleftrightarrow> False"

lemma ready_quiet: "fst (ready_for_new_orders ar mps as) \<longleftrightarrow> list_all (quiet ar as) mps"
  by (induction ar mps as rule: ready_for_new_orders.induct) (auto simp: quiet_def)

lemma inner_requests:
  "process_market_pair_inner ar bi si mb ms as = (as', requests, None) \<Longrightarrow>
    requests = [] \<or> bought_then_sold (am_pair mb) (am_pair ms) requests"
  by (auto simp: process_market_pair_inner_def Let_def order_with_specific_market_def track_limit_order_def
      track_market_order_def split: sum.splits if_splits)

text \<open>
  A market pair is traded only when neither of its markets has an order that is still tracked or traded
  within the delay, and then with a buy order on one market and a sell order of the same amount on the other.
\<close>

theorem arbitrage_orders_paired:
  assumes "process_market_pair ar buy_id sell_id m1 m2 as = (as', requests, None)" "requests \<noteq> []"
  shows "quiet ar as (am_pair m1) \<and> quiet ar as (am_pair m2) \<and>
    (bought_then_sold (am_pair m1) (am_pair m2) requests \<or> bought_then_sold (am_pair m2) (am_pair m1) requests)"
proof -
  obtain ready as1 where r: "ready_for_new_orders ar [am_pair m1, am_pair m2] as = (ready, as1)" by fastforce
  have "ready" using assms r by (cases ready) (auto simp: process_market_pair_def)
  then have q: "quiet ar as (am_pair m1) \<and> quiet ar as (am_pair m2)"
    using ready_quiet[of ar "[am_pair m1, am_pair m2]" as] r by simp
  moreover have "bought_then_sold (am_pair m1) (am_pair m2) requests \<or> bought_then_sold (am_pair m2) (am_pair m1) requests"
    using assms \<open>ready\<close> r inner_requests
    by (fastforce simp: process_market_pair_def Let_def split: sum.splits prod.splits option.splits if_splits)
  ultimately show ?thesis by blast
qed

subsection \<open>A pair of markets\<close>

definition book_level :: "decimal \<Rightarrow> decimal \<Rightarrow> order_book_row" where
  "book_level p a = \<lparr>br_price = p, br_amount = a, br_update_id = 0\<rparr>"

definition traded_pair :: "string \<Rightarrow> market_pair" where
  "traded_pair name = \<lparr>mp_market = name, mp_trading_pair = ''ETH-USDT'', mp_base = ''ETH'', mp_quote = ''USDT''\<rparr>"

definition traded_market :: "string \<Rightarrow> order_book_row list \<Rightarrow> order_book_row list \<Rightarrow> arb_market" where
  "traded_market name bids asks =
     \<lparr>am_pair = traded_pair name, am_bids = bids, am_asks = asks,
      am_price = (\<lambda>is_buy. Some (br_price (hd (if is_buy then asks else bids)))),
      am_available = (\<lambda>token. if token = ''ETH'' then 2 else 250),
      am_fee = (\<lambda>t amount price. \<lparr>tf_class = AddedToCost, tf_percent = 1 / 1000, tf_percent_token = None, tf_flat_fees = []\<rparr>),
      am_quantize_amount = id, am_taker_order_type = LIMIT\<rparr>"

definition first_market :: arb_market where
  "first_market = traded_market ''A'' [book_level 99 1] [book_level 100 1, book_level 101 (1 / 2), book_level 102 1, book_level 106 5]"

definition second_market :: arb_market where
  "second_market = traded_market ''B'' [book_level 105 1, book_level 104 3, book_level 90 1] [book_level 110 2]"

definition traded_params :: "decimal \<Rightarrow> arb_params" where
  "traded_params rate =
     \<lparr>ar_first = traded_pair ''A'', ar_second = traded_pair ''B'', ar_min_profitability = 1 / 100,
      ar_next_trade_delay = 15, ar_use_oracle = False, ar_base_rate = 1, ar_quote_rate = rate, ar_oracle = Map.empty\<rparr>"

lemmas traded_defs = first_market_def second_market_def traded_market_def traded_pair_def traded_params_def book_level_def

theorem matched_volume_exact_witness:
  "1 < step_total (projr (find_profitable_arbitrage_orders (1 / 100) first_market second_market 1 1)) \<longleftrightarrow>
    crossing_at 1 1 (am_bids second_market) (am_asks first_market) 1"
  by (rule matched_volume_exact[of "1 / 100"]) (code_simp, simp, simp, simp, code_simp, simp)

theorem best_amount_sound_witness:
  "covered_profit (1 / 100) 1 1 (1 / 1000) (1 / 1000) first_market second_market
    (bs_amount (projr (find_best_profitable_amount (traded_params 1) first_market second_market)))"
proof -
  have "find_best_profitable_amount (traded_params 1) first_market second_market =
    Inr (projr (find_best_profitable_amount (traded_params 1) first_market second_market))" by code_simp
  then have "covered_profit (ar_min_profitability (traded_params 1)) 1 1 (1 / 1000) (1 / 1000) first_market second_market
    (bs_amount (projr (find_best_profitable_amount (traded_params 1) first_market second_market)))"
    by (rule best_amount_sound) (code_simp, code_simp, simp, code_simp, simp_all add: percent_fees_def traded_defs
        books_sorted_def amounts_ok_def rising_def falling_def)
  then show ?thesis by (simp add: traded_params_def)
qed

definition traded_result :: arb_result where
  "traded_result = process_market_pair (traded_params 1) ''1'' ''2'' first_market second_market (arb_init_params [''A'', ''B''])"

theorem arbitrage_orders_paired_witness:
  "quiet (traded_params 1) (arb_init_params [''A'', ''B'']) (am_pair first_market) \<and>
    quiet (traded_params 1) (arb_init_params [''A'', ''B'']) (am_pair second_market) \<and>
    (bought_then_sold (am_pair first_market) (am_pair second_market) (fst (snd traded_result)) \<or>
     bought_then_sold (am_pair second_market) (am_pair first_market) (fst (snd traded_result)))"
proof -
  have e: "snd (snd traded_result) = None" by code_simp
  have "process_market_pair (traded_params 1) ''1'' ''2'' first_market second_market (arb_init_params [''A'', ''B'']) =
      (fst traded_result, fst (snd traded_result), None)"
    using e by (metis prod.collapse traded_result_def)
  moreover have "fst (snd traded_result) \<noteq> []" by code_simp
  ultimately show ?thesis by (rule arbitrage_orders_paired)
qed

text \<open>
  Bought on the second market of the pair, the amount can cost more than the balance: the costs are converted
  into the currency of the first market, the balance is not.
\<close>

lemma converted_costs_overspend:
  "(let ar = (traded_params (1 / 2)); buy = second_market\<lparr>am_asks := [book_level 180 2]\<rparr>; sell = first_market\<lparr>am_bids := [book_level 99 2]\<rparr>
    in case find_best_profitable_amount ar buy sell of
         Inr bs \<Rightarrow> am_available buy ''USDT'' < sim_value (am_asks buy) (bs_amount bs)
       | Inl e \<Rightarrow> False)"
  by code_simp

text \<open>The prices of the orders are those of the last step that was looked at, not of the step that was chosen.\<close>

lemma prices_of_last_step:
  "(let ar = (traded_params 1)\<lparr>ar_min_profitability := 4 / 100\<rparr>
    in case find_best_profitable_amount ar (first_market\<lparr>am_asks := [book_level 100 5], am_available := \<lambda>token. 1000\<rparr>)
        (second_market\<lparr>am_bids := [book_level 105 1, book_level (201 / 2) 1], am_available := \<lambda>token. 1000\<rparr>) of
      Inr bs \<Rightarrow> bs_amount bs = 1 \<and> bs_bid_price bs < (1 + ar_min_profitability ar) * bs_ask_price bs
    | Inl e \<Rightarrow> False)"
  by code_simp

end
