(* ===== verification/Hanging_Orders.thy ===== *)
theory Hanging_Orders
  imports Strategy_Orders
begin

text \<open>
  \<^verbatim>\<open>strategy/hanging_orders_tracker.py\<close>: the orders a market maker leaves in the book when the order on the other
  side was filled, with their renewal and their cancellation.

  Sets are lists without repetitions, in the order of insertion.  Hanging orders are equal when their market,
  side, price and amount are, as \<^verbatim>\<open>HangingOrder.__eq__\<close> says; limit orders are objects, so a set of them tells
  the objects of the strategy's tracker (\<open>True\<close>) from those of the market (\<open>False\<close>).  What the strategy is asked
  for is a record of its own: its orders, the identifiers the market answers, and the requests sent.
\<close>

subsection \<open>The strategy as the tracker sees it\<close>

record hanging_order =
  hg_id :: "string option"
  hg_trading_pair :: string
  hg_is_buy :: bool
  hg_price :: decimal
  hg_amount :: decimal
  hg_creation :: seconds

record created_pair =
  cp_buy :: "tracked_limit option"
  cp_sell :: "tracked_limit option"
  cp_filled_buy :: bool
  cp_filled_sell :: bool

record hanging_orders =
  ho_being_renewed :: "hanging_order list"
  ho_being_cancelled :: "string list"
  ho_pairs :: "created_pair list"
  ho_original :: "(bool \<times> tracked_limit) list"
  ho_current :: "hanging_order list"
  ho_completed :: "hanging_order list"

record hanging_env =
  he_market :: market_pair
  he_maker_type :: order_type
  he_refresh_time :: seconds
  he_max_order_age :: "seconds option"
  he_cancel_pct :: decimal
  he_order_id :: "nat \<Rightarrow> string"
  he_active :: "strategy_orders \<Rightarrow> tracked_limit list"

record maker_state =
  ms_strategy :: strategy
  ms_hanging :: hanging_orders
  ms_order_count :: nat
  ms_requests :: "market_request list"

definition new_hanging_orders :: hanging_orders where
  "new_hanging_orders = \<lparr>ho_being_renewed = [], ho_being_cancelled = [], ho_pairs = [], ho_original = [], ho_current = [],
     ho_completed = []\<rparr>"

definition hanging_cancel_pct :: "decimal option \<Rightarrow> decimal" where
  "hanging_cancel_pct pct = (case pct of None \<Rightarrow> 1 / 10 | Some p \<Rightarrow> if p = 0 then 1 / 10 else p)"

definition active_orders :: "hanging_env \<Rightarrow> 'a maker_state_scheme \<Rightarrow> tracked_limit list" where
  "active_orders he s = he_active he (st_orders (ms_strategy s))"

definition now_of :: "'a maker_state_scheme \<Rightarrow> seconds" where
  "now_of s = so_now (st_orders (ms_strategy s))"

text \<open>An order sent to the market, and a cancel.\<close>

definition send_order ::
  "hanging_env \<Rightarrow> bool \<Rightarrow> decimal \<Rightarrow> order_type \<Rightarrow> decimal \<Rightarrow> seconds option \<Rightarrow> 'a maker_state_scheme \<Rightarrow> ('a maker_state_scheme, string) outcome" where
  "send_order he is_buy amount ot price expiration s =
     (let i = he_order_id he (ms_order_count s)
      in case order_with_specific_market is_buy (he_market he) amount ot price expiration OPEN_POSITION i (ms_strategy s) of
           Inl e \<Rightarrow> (Inl e, s)
         | Inr (st, r) \<Rightarrow> (Inr i, s\<lparr>ms_strategy := st, ms_order_count := Suc (ms_order_count s), ms_requests := ms_requests s @ [r]\<rparr>))"

definition send_cancel :: "hanging_env \<Rightarrow> string \<Rightarrow> 'a maker_state_scheme \<Rightarrow> 'a maker_state_scheme" where
  "send_cancel he order_id s =
     (let (st, rs) = strategy_cancel (he_market he) order_id (ms_strategy s)
      in s\<lparr>ms_strategy := st, ms_requests := ms_requests s @ rs\<rparr>)"

definition upd_hanging :: "(hanging_orders \<Rightarrow> hanging_orders) \<Rightarrow> 'a maker_state_scheme \<Rightarrow> 'a maker_state_scheme" where
  "upd_hanging f s = s\<lparr>ms_hanging := f (ms_hanging s)\<rparr>"

subsection \<open>Sets of hanging orders\<close>

definition same_order :: "hanging_order \<Rightarrow> hanging_order \<Rightarrow> bool" where
  "same_order x y \<longleftrightarrow> hg_trading_pair x = hg_trading_pair y \<and> hg_is_buy x = hg_is_buy y \<and>
     hg_price x = hg_price y \<and> hg_amount x = hg_amount y"

definition hg_member :: "hanging_order \<Rightarrow> hanging_order list \<Rightarrow> bool" where
  "hg_member x xs \<longleftrightarrow> (\<exists>y \<in> set xs. same_order x y)"

definition hg_add :: "hanging_order \<Rightarrow> hanging_order list \<Rightarrow> hanging_order list" where
  "hg_add x xs = (if hg_member x xs then xs else xs @ [x])"

definition hg_union :: "hanging_order list \<Rightarrow> hanging_order list \<Rightarrow> hanging_order list" where
  "hg_union xs ys = fold hg_add ys xs"

definition hg_minus :: "hanging_order list \<Rightarrow> hanging_order list \<Rightarrow> hanging_order list" where
  "hg_minus xs ys = filter (\<lambda>x. \<not> hg_member x ys) xs"

text \<open>\<^verbatim>\<open>set.remove\<close>, which raises for what is not in the set.\<close>

definition hg_remove :: "hanging_order \<Rightarrow> hanging_order list \<Rightarrow> py_error + hanging_order list" where
  "hg_remove x xs = (if hg_member x xs then Inr (filter (\<lambda>y. \<not> same_order x y) xs) else Inl KeyError)"

definition with_id :: "string \<Rightarrow> hanging_order list \<Rightarrow> hanging_order option" where
  "with_id i xs = List.find (\<lambda>x. hg_id x = Some i) xs"

definition hanging_from_limit :: "tracked_limit \<Rightarrow> hanging_order" where
  "hanging_from_limit x = \<lparr>hg_id = Some (lo_id x), hg_trading_pair = lo_trading_pair x, hg_is_buy = lo_is_buy x,
     hg_price = lo_price x, hg_amount = lo_quantity x, hg_creation = of_int (lo_creation_timestamp x) / 10 ^ 6\<rparr>"

definition is_order_id_in_hanging_orders :: "hanging_orders \<Rightarrow> string \<Rightarrow> bool" where
  "is_order_id_in_hanging_orders h i \<longleftrightarrow> (\<exists>x \<in> set (ho_current h). hg_id x = Some i)"

definition is_order_id_in_completed_hanging_orders :: "hanging_orders \<Rightarrow> string \<Rightarrow> bool" where
  "is_order_id_in_completed_hanging_orders h i \<longleftrightarrow> (\<exists>x \<in> set (ho_completed h). hg_id x = Some i)"

definition is_potential_hanging_order :: "hanging_orders \<Rightarrow> tracked_limit \<Rightarrow> bool" where
  "is_potential_hanging_order h x \<longleftrightarrow> (True, x) \<in> set (ho_original h)"

definition add_original :: "bool \<times> tracked_limit \<Rightarrow> hanging_orders \<Rightarrow> hanging_orders" where
  "add_original x h = h\<lparr>ho_original := (if x \<in> set (ho_original h) then ho_original h else ho_original h @ [x])\<rparr>"

definition add_as_hanging_order :: "bool \<times> tracked_limit \<Rightarrow> hanging_orders \<Rightarrow> hanging_orders" where
  "add_as_hanging_order x h =
     add_original x (h\<lparr>ho_current := hg_add (hanging_from_limit (snd x)) (ho_current h)\<rparr>)"

definition remove_original :: "string \<Rightarrow> hanging_orders \<Rightarrow> hanging_orders" where
  "remove_original i h =
     (case List.find (\<lambda>x. lo_id (snd x) = i) (ho_original h) of
        None \<Rightarrow> h | Some x \<Rightarrow> h\<lparr>ho_original := removeAll x (ho_original h)\<rparr>)"

definition remove_all_orders :: "hanging_orders \<Rightarrow> hanging_orders" where
  "remove_all_orders h = h\<lparr>ho_original := []\<rparr>"

definition remove_all_buys :: "hanging_orders \<Rightarrow> hanging_orders" where
  "remove_all_buys h = h\<lparr>ho_original := filter (\<lambda>x. \<not> lo_is_buy (snd x)) (ho_original h)\<rparr>"

definition remove_all_sells :: "hanging_orders \<Rightarrow> hanging_orders" where
  "remove_all_sells h = h\<lparr>ho_original := filter (\<lambda>x. lo_is_buy (snd x)) (ho_original h)\<rparr>"

subsection \<open>Pairs of orders\<close>

definition contains_order :: "created_pair \<Rightarrow> string \<Rightarrow> bool" where
  "contains_order p i \<longleftrightarrow> map_option lo_id (cp_buy p) = Some i \<or> map_option lo_id (cp_sell p) = Some i"

definition partially_filled :: "created_pair \<Rightarrow> bool" where
  "partially_filled p \<longleftrightarrow> cp_filled_buy p \<noteq> cp_filled_sell p"

definition get_unfilled_order :: "created_pair \<Rightarrow> tracked_limit option" where
  "get_unfilled_order p =
     (if partially_filled p then if \<not> cp_filled_buy p then cp_buy p else cp_sell p else None)"

definition candidate_hanging_orders_from_pairs :: "hanging_env \<Rightarrow> 'a maker_state_scheme \<Rightarrow> tracked_limit list" where
  "candidate_hanging_orders_from_pairs he s =
     filter (\<lambda>x. x \<in> set (active_orders he s)) (List.map_filter get_unfilled_order (ho_pairs (ms_hanging s)))"

definition add_hanging_orders_based_on_partially_executed_pairs :: "hanging_env \<Rightarrow> 'a maker_state_scheme \<Rightarrow> 'a maker_state_scheme" where
  "add_hanging_orders_based_on_partially_executed_pairs he s =
     upd_hanging (\<lambda>h. (fold (\<lambda>x. add_original (True, x)) (candidate_hanging_orders_from_pairs he s) h)\<lparr>ho_pairs := []\<rparr>) s"

definition note_fill :: "string \<Rightarrow> bool \<Rightarrow> created_pair \<Rightarrow> created_pair" where
  "note_fill i is_buy p =
     (if contains_order p i
      then p\<lparr>cp_filled_buy := cp_filled_buy p \<or> is_buy, cp_filled_sell := cp_filled_sell p \<or> \<not> is_buy\<rparr> else p)"

subsection \<open>Orders in the strategy\<close>

definition cancel_in_strategy :: "hanging_env \<Rightarrow> string \<Rightarrow> 'a maker_state_scheme \<Rightarrow> 'a maker_state_scheme" where
  "cancel_in_strategy he i s =
     (if i \<in> lo_id ` set (active_orders he s)
      then upd_hanging (\<lambda>h. h\<lparr>ho_being_cancelled := List.insert i (ho_being_cancelled h)\<rparr>) (send_cancel he i s) else s)"

definition cancel_multiple_orders_in_strategy :: "hanging_env \<Rightarrow> string list \<Rightarrow> 'a maker_state_scheme \<Rightarrow> 'a maker_state_scheme" where
  "cancel_multiple_orders_in_strategy he ids s = fold (cancel_in_strategy he) ids s"

fun execute_orders_in_strategy ::
  "hanging_env \<Rightarrow> hanging_order list \<Rightarrow> 'a maker_state_scheme \<Rightarrow> ('a maker_state_scheme, hanging_order list) outcome" where
  "execute_orders_in_strategy he [] s = (Inr [], s)"
| "execute_orders_in_strategy he (x # xs) s =
     and_then
       (case hg_id x of
          Some i \<Rightarrow> (Inr [x], s)
        | None \<Rightarrow>
            if 0 < hg_amount x then
              and_then (send_order he (hg_is_buy x) (hg_amount x) (he_maker_type he) (hg_price x) (Some (he_refresh_time he)) s)
                (\<lambda>i s1. (Inr [x\<lparr>hg_id := Some i, hg_creation := now_of s1\<rparr>], s1))
            else (Inr [], s))
       (\<lambda>new s1. and_then (execute_orders_in_strategy he xs s1) (\<lambda>rest s2. (Inr (new @ rest), s2)))"

subsection \<open>Ticks\<close>

definition hanging_order_age :: "seconds \<Rightarrow> hanging_order \<Rightarrow> seconds" where
  "hanging_order_age now x = (if hg_creation x \<noteq> 0 then now - hg_creation x else - 1)"

definition past_max_age :: "hanging_env \<Rightarrow> 'a maker_state_scheme \<Rightarrow> hanging_order list" where
  "past_max_age he s =
     (case he_max_order_age he of
        Some age \<Rightarrow>
          if age = 0 then []
          else filter (\<lambda>x. age < hanging_order_age (now_of s) x \<and> \<not> hg_member x (ho_being_renewed (ms_hanging s)))
                 (ho_current (ms_hanging s))
      | None \<Rightarrow> [])"

definition renew_hanging_orders_past_max_order_age :: "hanging_env \<Rightarrow> 'a maker_state_scheme \<Rightarrow> 'a maker_state_scheme" where
  "renew_hanging_orders_past_max_order_age he s =
     (let old = hg_union [] (past_max_age he s)
      in upd_hanging (\<lambda>h. h\<lparr>ho_being_renewed := hg_union (ho_being_renewed h) old\<rparr>)
           (cancel_multiple_orders_in_strategy he (filter (\<lambda>i. i \<noteq> []) (List.map_filter hg_id old)) s))"

text \<open>A price \<^verbatim>\<open>NaN\<close> raises in the comparison, a price of zero in the division.\<close>

fun far_from_price :: "hanging_env \<Rightarrow> decimal option \<Rightarrow> string list \<Rightarrow> (bool \<times> tracked_limit) list \<Rightarrow> py_error + tracked_limit list" where
  "far_from_price he price cancelled [] = Inr []"
| "far_from_price he price cancelled ((own, x) # xs) =
     (if lo_id x \<in> set cancelled then far_from_price he price cancelled xs
      else
        (case price of
           None \<Rightarrow> Inl InvalidOperation
         | Some p \<Rightarrow>
             bind_err (dec_div \<bar>lo_price x - p\<bar> p) (\<lambda>distance.
             bind_err (far_from_price he price cancelled xs) (\<lambda>far.
               Inr (if he_cancel_pct he < distance then x # far else far)))))"

definition remove_orders_far_from_price :: "hanging_env \<Rightarrow> decimal option \<Rightarrow> 'a maker_state_scheme \<Rightarrow> ('a maker_state_scheme, unit) outcome" where
  "remove_orders_far_from_price he price s =
     (case far_from_price he price (ho_being_cancelled (ms_hanging s)) (ho_original (ms_hanging s)) of
        Inl e \<Rightarrow> (Inl e, s)
      | Inr far \<Rightarrow> (Inr (), cancel_multiple_orders_in_strategy he (map lo_id far) s))"

definition hanging_process_tick :: "hanging_env \<Rightarrow> decimal option \<Rightarrow> 'a maker_state_scheme \<Rightarrow> ('a maker_state_scheme, unit) outcome" where
  "hanging_process_tick he price s =
     and_then (remove_orders_far_from_price he price s) (\<lambda>u s1. (Inr (), renew_hanging_orders_past_max_order_age he s1))"

definition equivalent_orders :: "hanging_orders \<Rightarrow> hanging_order list" where
  "equivalent_orders h = hg_union [] (map (\<lambda>x. hanging_from_limit (snd x)) (ho_original h))"

definition update_strategy_orders_with_equivalent_orders ::
  "hanging_env \<Rightarrow> 'a maker_state_scheme \<Rightarrow> ('a maker_state_scheme, unit) outcome" where
  "update_strategy_orders_with_equivalent_orders he s =
     (let s1 = add_hanging_orders_based_on_partially_executed_pairs he s;
          equivalent = equivalent_orders (ms_hanging s1);
          orders_to_create = hg_minus equivalent (ho_current (ms_hanging s1));
          orders_to_cancel = hg_minus (ho_current (ms_hanging s1)) equivalent;
          s2 = cancel_multiple_orders_in_strategy he (List.map_filter hg_id orders_to_cancel) s1
      in and_then (execute_orders_in_strategy he orders_to_create s2) (\<lambda>executed s3.
           (Inr (), upd_hanging (\<lambda>h. h\<lparr>ho_current := hg_union (ho_current h) executed\<rparr>) s3)))"

subsection \<open>Events\<close>

definition process_cancel_as_part_of_renew :: "hanging_env \<Rightarrow> string \<Rightarrow> 'a maker_state_scheme \<Rightarrow> ('a maker_state_scheme, unit) outcome" where
  "process_cancel_as_part_of_renew he i s =
     (case with_id i (ho_being_renewed (ms_hanging s)) of
        None \<Rightarrow> (Inr (), s)
      | Some x \<Rightarrow>
          (case hg_remove x (ho_current (ms_hanging s)) of
             Inl e \<Rightarrow> (Inl e, s)
           | Inr current \<Rightarrow>
               let s1 = upd_hanging (\<lambda>h. h\<lparr>ho_current := current,
                          ho_being_renewed := filter (\<lambda>y. \<not> same_order x y) (ho_being_renewed h)\<rparr>) s
               in and_then (execute_orders_in_strategy he [x\<lparr>hg_id := None, hg_creation := now_of s\<rparr>] s1) (\<lambda>executed s2.
                    let s3 = upd_hanging (\<lambda>h. h\<lparr>ho_current := hg_union (ho_current h) executed\<rparr>) s2;
                        found = List.map_filter (\<lambda>y. List.find (\<lambda>z. Some (lo_id z) = hg_id y) (active_orders he s3)) executed
                    in (Inr (), upd_hanging (fold (\<lambda>z. add_original (True, z)) found) s3))))"

definition hanging_did_cancel_order :: "hanging_env \<Rightarrow> string \<Rightarrow> 'a maker_state_scheme \<Rightarrow> ('a maker_state_scheme, unit) outcome" where
  "hanging_did_cancel_order he i s =
     and_then (process_cancel_as_part_of_renew he i s) (\<lambda>u s1.
       (Inr (), upd_hanging (\<lambda>h.
          let h1 = h\<lparr>ho_being_cancelled := removeAll i (ho_being_cancelled h)\<rparr>;
              h2 = (case with_id i (ho_current h1) of
                      None \<Rightarrow> h1 | Some x \<Rightarrow> h1\<lparr>ho_current := filter (\<lambda>y. \<not> same_order x y) (ho_current h1)\<rparr>)
          in remove_original i h2) s1))"

definition hanging_did_complete_order :: "string \<Rightarrow> bool \<Rightarrow> hanging_orders \<Rightarrow> hanging_orders" where
  "hanging_did_complete_order i is_buy h =
     (case with_id i (ho_current h) of
        Some x \<Rightarrow>
          remove_original i (h\<lparr>ho_completed := hg_add x (ho_completed h), ho_current := filter (\<lambda>y. \<not> same_order x y) (ho_current h)\<rparr>)
      | None \<Rightarrow> h\<lparr>ho_pairs := map (note_fill i is_buy) (ho_pairs h)\<rparr>)"

end
