(* ===== verification/Pure_Market_Making.thy ===== *)
theory Pure_Market_Making
  imports Hanging_Orders
begin

text \<open>
  \<^verbatim>\<open>strategy/pure_market_making\<close>: quoting both sides of a market at spreads from a reference price.

  The parameters are \<open>pure_params\<close>, what a tick reads of the market, the price delegate and the clock is
  \<open>pure_env\<close>, and the attributes extend the state of a strategy with hanging orders.  A price that is \<^verbatim>\<open>NaN\<close> is \<open>None\<close>:
  comparing it raises.  The table of inventory costs in the database is a map from the two assets to the two
  volumes, stored exactly.  Floats are exact; \<^verbatim>\<open>numpy.interp\<close> is an argument.  Log lines, notifications and the status are left out.
\<close>

subsection \<open>Inventory skew\<close>

definition calculate_total_order_size :: "decimal \<Rightarrow> decimal \<Rightarrow> nat \<Rightarrow> decimal" where
  "calculate_total_order_size order_start_size order_step_size order_levels =
     2 * (of_nat order_levels * order_start_size + of_nat order_levels * (of_nat order_levels - 1) / 2 * order_step_size)"

type_synonym interpolation = "decimal \<Rightarrow> decimal \<times> decimal \<Rightarrow> decimal \<times> decimal \<Rightarrow> decimal"

definition calculate_bid_ask_ratios_from_base_asset_ratio ::
  "interpolation \<Rightarrow> decimal \<Rightarrow> decimal \<Rightarrow> decimal \<Rightarrow> decimal \<Rightarrow> decimal \<Rightarrow> decimal \<times> decimal" where
  "calculate_bid_ask_ratios_from_base_asset_ratio interp base_amount quote_amount price target_ratio base_range =
     (let total_portfolio_value = base_amount * price + quote_amount
      in if total_portfolio_value \<le> 0 \<or> base_range \<le> 0 then (0, 0)
         else
           let base_value = base_amount * price;
               range_value = min (base_range * price) (total_portfolio_value * (1 / 2));
               target_value = total_portfolio_value * target_ratio;
               left_limit = max (target_value - range_value) 0;
               right_limit = target_value + range_value;
               left_ratio = interp base_value (left_limit, target_value) (0, 1 / 2);
               right_ratio = interp base_value (target_value, right_limit) (1 / 2, 1);
               bid_adjustment = (if base_value < target_value then interp left_ratio (0, 1 / 2) (2, 1)
                                 else interp right_ratio (1 / 2, 1) (1, 0))
           in (bid_adjustment, 2 - bid_adjustment))"

subsection \<open>Moving price band\<close>

text \<open>A band that is updated with a \<^verbatim>\<open>NaN\<close> has no bounds, and comparing them raises.\<close>

record price_band =
  pb_price_floor_pct :: decimal
  pb_price_ceiling_pct :: decimal
  pb_refresh_time :: seconds
  pb_enabled :: bool
  pb_price_floor :: "decimal option"
  pb_price_ceiling :: "decimal option"
  pb_set_time :: seconds

definition update_price_band :: "seconds \<Rightarrow> decimal option \<Rightarrow> price_band \<Rightarrow> price_band" where
  "update_price_band timestamp price pb =
     pb\<lparr>pb_price_floor := map_option ((*) ((100 + pb_price_floor_pct pb) / 100)) price,
        pb_price_ceiling := map_option ((*) ((100 + pb_price_ceiling_pct pb) / 100)) price, pb_set_time := timestamp\<rparr>"

definition check_and_update_price_band :: "seconds \<Rightarrow> decimal option \<Rightarrow> price_band \<Rightarrow> price_band" where
  "check_and_update_price_band timestamp price pb =
     (if pb_set_time pb + pb_refresh_time pb \<le> timestamp then update_price_band timestamp price pb else pb)"

definition compare_prices :: "(decimal \<Rightarrow> decimal \<Rightarrow> bool) \<Rightarrow> decimal option \<Rightarrow> decimal option \<Rightarrow> py_error + bool" where
  "compare_prices P x y = (case (x, y) of (Some a, Some b) \<Rightarrow> Inr (P a b) | _ \<Rightarrow> Inl InvalidOperation)"

definition check_price_floor_exceeded :: "decimal option \<Rightarrow> price_band \<Rightarrow> py_error + bool" where
  "check_price_floor_exceeded price pb = compare_prices (\<le>) price (pb_price_floor pb)"

definition check_price_ceiling_exceeded :: "decimal option \<Rightarrow> price_band \<Rightarrow> py_error + bool" where
  "check_price_ceiling_exceeded price pb = compare_prices (\<ge>) price (pb_price_ceiling pb)"

definition switch_price_band :: "bool \<Rightarrow> price_band \<Rightarrow> price_band" where
  "switch_price_band b pb = pb\<lparr>pb_enabled := b\<rparr>"

subsection \<open>Inventory cost\<close>

type_synonym inventory_costs = "string \<times> string \<rightharpoonup> decimal \<times> decimal"

definition inventory_cost_price :: "string \<times> string \<Rightarrow> inventory_costs \<Rightarrow> py_error + decimal option" where
  "inventory_cost_price assets costs =
     (case costs assets of
        None \<Rightarrow> Inr None
      | Some (base_volume, quote_volume) \<Rightarrow>
          (case dec_div quote_volume base_volume of
             Inr p \<Rightarrow> Inr (Some p) | Inl InvalidOperation \<Rightarrow> Inr None | Inl e \<Rightarrow> Inl e))"

definition add_volume :: "string \<times> string \<Rightarrow> decimal \<Rightarrow> decimal \<Rightarrow> bool \<Rightarrow> inventory_costs \<Rightarrow> inventory_costs" where
  "add_volume assets base_volume quote_volume overwrite costs =
     (case costs assets of
        Some (b, q) \<Rightarrow> costs(assets \<mapsto> (if overwrite then (base_volume, quote_volume) else (b + base_volume, q + quote_volume)))
      | None \<Rightarrow> costs(assets \<mapsto> (base_volume, quote_volume)))"

record order_fill =
  of_order_id :: string
  of_trading_pair :: string
  of_trade_type :: trade_type
  of_price :: decimal
  of_amount :: decimal
  of_fee :: trade_fee

fun fee_volumes :: "order_fill \<Rightarrow> string \<times> string \<Rightarrow> token_amount list \<Rightarrow> decimal \<times> decimal \<Rightarrow> py_error + decimal \<times> decimal" where
  "fee_volumes fill assets [] v = Inr v"
| "fee_volumes fill (base, quote) (f # fs) (b, q) =
     bind_err
       (let sign = (if of_trade_type fill = BUY then 1 else - 1)
        in if ta_token f = base then Inr (b - sign * ta_amount f, q)
           else if ta_token f = quote then Inr (b, q + sign * ta_amount f)
           else bind_err (dec_div b (1 + tf_percent (of_fee fill))) (\<lambda>b'. Inr (b', q)))
       (fee_volumes fill (base, quote) fs)"

definition process_order_fill_event :: "order_fill \<Rightarrow> inventory_costs \<Rightarrow> py_error + inventory_costs" where
  "process_order_fill_event fill costs =
     bind_err (split_hb_trading_pair (of_trading_pair fill)) (\<lambda>assets.
     bind_err (fee_volumes fill assets (tf_flat_fees (of_fee fill)) (of_amount fill, of_amount fill * of_price fill))
       (\<lambda>(base_volume, quote_volume).
          if of_trade_type fill = SELL then
            (case costs assets of
               None \<Rightarrow> Inl RuntimeError
             | Some (b, q) \<Rightarrow>
                 bind_err (dec_div q b) (\<lambda>cost. Inr (add_volume assets (- base_volume) (- (cost * base_volume)) False costs)))
          else Inr (add_volume assets base_volume quote_volume False costs)))"

subsection \<open>The strategy\<close>

record quote =
  qt_price :: decimal
  qt_size :: decimal

record quotes =
  qs_buys :: "quote list"
  qs_sells :: "quote list"

record pure_params =
  pp_market :: market_pair
  pp_maker_type :: order_type
  pp_order_refresh_time :: seconds
  pp_hanging_cancel_pct :: "decimal option"
  pp_order_id :: "nat \<Rightarrow> string"
  pp_bid_spread :: decimal
  pp_ask_spread :: decimal
  pp_minimum_spread :: decimal
  pp_order_amount :: decimal
  pp_order_levels :: nat
  pp_buy_levels :: nat
  pp_sell_levels :: nat
  pp_order_level_spread :: decimal
  pp_order_level_amount :: decimal
  pp_max_order_age :: seconds
  pp_order_refresh_tolerance_pct :: decimal
  pp_filled_order_delay :: seconds
  pp_inventory_skew_enabled :: bool
  pp_inventory_target_base_pct :: decimal
  pp_inventory_range_multiplier :: decimal
  pp_hanging_orders_enabled :: bool
  pp_order_optimization_enabled :: bool
  pp_ask_order_optimization_depth :: decimal
  pp_bid_order_optimization_depth :: decimal
  pp_add_transaction_costs :: bool
  pp_has_inventory_cost_delegate :: bool
  pp_price_type :: price_type
  pp_take_if_crossed :: bool
  pp_price_ceiling :: decimal
  pp_price_floor :: decimal
  pp_ping_pong_enabled :: bool
  pp_order_override :: "(string \<times> decimal \<times> decimal) list"
  pp_split_order_levels_enabled :: bool
  pp_bid_order_level_spreads :: "decimal list"
  pp_ask_order_level_spreads :: "decimal list"
  pp_wait_cancel_confirmation :: bool
  pp_interp :: interpolation

record pure_env =
  pe_timestamp :: seconds
  pe_markets_ready :: bool
  pe_delegate_ready :: bool
  pe_price_by_type :: "price_type \<Rightarrow> decimal option"
  pe_get_price :: "bool \<Rightarrow> decimal option"
  pe_price_for_volume :: "bool \<Rightarrow> decimal \<Rightarrow> decimal option"
  pe_price_quantum :: "decimal \<Rightarrow> decimal"
  pe_quantize_price :: "decimal \<Rightarrow> decimal"
  pe_quantize_amount :: "decimal \<Rightarrow> decimal \<Rightarrow> decimal"
  pe_fee_percent :: "order_type \<Rightarrow> trade_type \<Rightarrow> decimal \<Rightarrow> decimal \<Rightarrow> decimal"
  pe_balance :: "string \<Rightarrow> decimal"
  pe_available :: "string \<Rightarrow> decimal"

record pure_state = maker_state +
  pu_cancel_timestamp :: seconds
  pu_create_timestamp :: seconds
  pu_all_markets_ready :: bool
  pu_filled_buys_balance :: nat
  pu_filled_sells_balance :: nat
  pu_last_timestamp :: seconds
  pu_last_own_trade_price :: "decimal option"
  pu_price_band :: price_band
  pu_costs :: inventory_costs

definition pure_price_type :: "string \<Rightarrow> py_error + price_type" where
  "pure_price_type s =
     (case map_of [(''mid_price'', MidPrice), (''best_bid'', BestBid), (''best_ask'', BestAsk), (''last_price'', LastTrade),
                   (''last_own_trade_price'', LastOwnTrade), (''inventory_cost'', InventoryCost), (''custom'', Custom)] s of
        Some t \<Rightarrow> Inr t | None \<Rightarrow> Inl ValueError)"

text \<open>\<^verbatim>\<open>PureMarketMakingOrderTracker\<close> keeps the orders that are being cancelled among the active ones.\<close>

definition pure_active :: "market_pair \<Rightarrow> strategy_orders \<Rightarrow> tracked_limit list" where
  "pure_active mp so = map snd (inner mp (so_limit_orders so))"

text \<open>What the strategy is for the tracker of its hanging orders.\<close>

definition pure_hanging :: "pure_params \<Rightarrow> hanging_env" where
  "pure_hanging pp =
     \<lparr>he_market = pp_market pp, he_maker_type = pp_maker_type pp, he_refresh_time = pp_order_refresh_time pp,
      he_max_order_age = Some (pp_max_order_age pp), he_cancel_pct = hanging_cancel_pct (pp_hanging_cancel_pct pp),
      he_order_id = pp_order_id pp, he_active = pure_active (pp_market pp)\<rparr>"

definition pure_init_params :: "pure_params \<Rightarrow> price_band \<Rightarrow> inventory_costs \<Rightarrow> py_error + pure_state" where
  "pure_init_params pp pb costs =
     (if pp_price_ceiling pp \<noteq> - 1 \<and> pp_price_ceiling pp < pp_price_floor pp then Inl ValueError
      else Inr \<lparr>ms_strategy = \<lparr>st_markets = [mp_market (pp_market pp)], st_delegate_lock = False,
                  st_orders = new_strategy_orders\<rparr>,
                ms_hanging = new_hanging_orders, ms_order_count = 0, ms_requests = [],
                pu_cancel_timestamp = 0, pu_create_timestamp = 0, pu_all_markets_ready = False, pu_filled_buys_balance = 0,
                pu_filled_sells_balance = 0, pu_last_timestamp = 0, pu_last_own_trade_price = None, pu_price_band = pb,
                pu_costs = costs\<rparr>)"

definition pure_get_price :: "pure_params \<Rightarrow> pure_env \<Rightarrow> pure_state \<Rightarrow> decimal option" where
  "pure_get_price pp pe s =
     (let price = (if pp_price_type pp = LastOwnTrade then pu_last_own_trade_price s
                   else if pp_price_type pp = InventoryCost then pe_price_by_type pe MidPrice
                   else pe_price_by_type pe (pp_price_type pp))
      in case price of None \<Rightarrow> pe_price_by_type pe MidPrice | Some p \<Rightarrow> Some p)"

definition pure_active_orders :: "pure_params \<Rightarrow> pure_state \<Rightarrow> tracked_limit list" where
  "pure_active_orders pp s = active_orders (pure_hanging pp) s"

definition active_non_hanging_orders :: "pure_params \<Rightarrow> pure_state \<Rightarrow> tracked_limit list" where
  "active_non_hanging_orders pp s =
     filter (\<lambda>x. \<not> is_order_id_in_hanging_orders (ms_hanging s) (lo_id x)) (pure_active_orders pp s)"

definition hanging_order_ids :: "pure_state \<Rightarrow> string option list" where
  "hanging_order_ids s = map hg_id (ho_current (ms_hanging s))"

text \<open>The restored orders are those of the market, other objects than those the strategy tracks.\<close>

definition pure_start :: "pure_params \<Rightarrow> tracked_limit list \<Rightarrow> seconds \<Rightarrow> pure_state \<Rightarrow> pure_state" where
  "pure_start pp limit_orders timestamp s =
     (let s1 = s\<lparr>pu_last_timestamp := timestamp\<rparr>
      in if pp_hanging_orders_enabled pp then
           upd_hanging (fold (\<lambda>x. add_as_hanging_order (False, x)) limit_orders)
             (s1\<lparr>ms_strategy := (ms_strategy s1)\<lparr>st_orders :=
                snd (track_restored_orders (pp_market pp) limit_orders (st_orders (ms_strategy s1)))\<rparr>\<rparr>)
         else s1)"

subsection \<open>Proposals\<close>

definition override_price :: "pure_env \<Rightarrow> bool \<Rightarrow> decimal \<Rightarrow> decimal \<Rightarrow> decimal" where
  "override_price pe is_buy reference spread =
     pe_quantize_price pe (reference * (if is_buy then 1 - spread / 100 else 1 + spread / 100))"

definition override_quotes :: "pure_env \<Rightarrow> bool \<Rightarrow> decimal option \<Rightarrow> (string \<times> decimal \<times> decimal) list \<Rightarrow> quote list" where
  "override_quotes pe is_buy reference overrides =
     (case reference of
        None \<Rightarrow> []
      | Some p \<Rightarrow>
          List.map_filter (\<lambda>(side, spread, amount).
            let price = override_price pe is_buy p spread; size = pe_quantize_amount pe amount 0
            in if side = (if is_buy then ''buy'' else ''sell'') \<and> 0 < size \<and> 0 < price
               then Some \<lparr>qt_price = price, qt_size = size\<rparr> else None) overrides)"

definition level_quotes :: "pure_params \<Rightarrow> pure_env \<Rightarrow> bool \<Rightarrow> decimal option \<Rightarrow> nat \<Rightarrow> quote list" where
  "level_quotes pp pe is_buy reference levels =
     (case reference of
        None \<Rightarrow> []
      | Some p \<Rightarrow>
          List.map_filter (\<lambda>level.
            let price = pe_quantize_price pe (p *
                  (if is_buy then 1 - pp_bid_spread pp - of_nat level * pp_order_level_spread pp
                   else 1 + pp_ask_spread pp + of_nat level * pp_order_level_spread pp));
                size = pe_quantize_amount pe (pp_order_amount pp + pp_order_level_amount pp * of_nat level) 0
            in if 0 < size then Some \<lparr>qt_price = price, qt_size = size\<rparr> else None) [0..<levels])"

text \<open>The reference price of the sells.  \<^verbatim>\<open>max\<close> with a \<^verbatim>\<open>NaN\<close> raises.\<close>

definition sell_reference :: "pure_params \<Rightarrow> pure_env \<Rightarrow> pure_state \<Rightarrow> py_error + decimal option" where
  "sell_reference pp pe s =
     (let mp = pp_market pp; reference = pure_get_price pp pe s
      in if pp_has_inventory_cost_delegate pp then
           bind_err (inventory_cost_price (mp_base mp, mp_quote mp) (pu_costs s)) (\<lambda>cost.
             case cost of
               Some c \<Rightarrow> (case reference of None \<Rightarrow> Inl InvalidOperation | Some p \<Rightarrow> Inr (Some (max c p)))
             | None \<Rightarrow> if 0 < pe_balance pe (mp_base mp) then Inl RuntimeError else Inr reference)
         else Inr reference)"

definition pure_base_proposal :: "pure_params \<Rightarrow> pure_env \<Rightarrow> pure_state \<Rightarrow> py_error + quotes" where
  "pure_base_proposal pp pe s =
     bind_err (sell_reference pp pe s) (\<lambda>sell_price.
       let buy_price = pure_get_price pp pe s
       in Inr
            (if pp_order_override pp \<noteq> [] then
               \<lparr>qs_buys = override_quotes pe True buy_price (pp_order_override pp),
                qs_sells = override_quotes pe False sell_price (pp_order_override pp)\<rparr>
             else
               \<lparr>qs_buys = level_quotes pp pe True buy_price (pp_buy_levels pp),
                qs_sells = level_quotes pp pe False sell_price (pp_sell_levels pp)\<rparr>))"

subsection \<open>Limits on the number of orders\<close>

definition drop_buys :: "bool \<Rightarrow> quotes \<Rightarrow> quotes" where
  "drop_buys b qs = (if b then qs\<lparr>qs_buys := []\<rparr> else qs)"

definition drop_sells :: "bool \<Rightarrow> quotes \<Rightarrow> quotes" where
  "drop_sells b qs = (if b then qs\<lparr>qs_sells := []\<rparr> else qs)"

definition pure_apply_price_band :: "pure_params \<Rightarrow> pure_env \<Rightarrow> pure_state \<Rightarrow> quotes \<Rightarrow> py_error + quotes" where
  "pure_apply_price_band pp pe s qs =
     bind_err (if 0 < pp_price_ceiling pp then compare_prices (\<ge>) (pure_get_price pp pe s) (Some (pp_price_ceiling pp)) else Inr False) (\<lambda>above.
     bind_err (if 0 < pp_price_floor pp then compare_prices (\<le>) (pure_get_price pp pe s) (Some (pp_price_floor pp)) else Inr False) (\<lambda>below.
       Inr (drop_sells below (drop_buys above qs))))"

definition apply_moving_price_band :: "pure_params \<Rightarrow> pure_env \<Rightarrow> quotes \<Rightarrow> pure_state \<Rightarrow> (pure_state, quotes) outcome" where
  "apply_moving_price_band pp pe qs s =
     (let price = pure_get_price pp pe s; pb = check_and_update_price_band (now_of s) price (pu_price_band s)
      in (bind_err (check_price_ceiling_exceeded price pb) (\<lambda>above.
          bind_err (check_price_floor_exceeded price pb) (\<lambda>below. Inr (drop_sells below (drop_buys above qs)))),
          s\<lparr>pu_price_band := pb\<rparr>))"

definition apply_ping_pong :: "quotes \<Rightarrow> pure_state \<Rightarrow> quotes \<times> pure_state" where
  "apply_ping_pong qs s =
     (let s1 = (if pu_filled_buys_balance s = pu_filled_sells_balance s
                then s\<lparr>pu_filled_buys_balance := 0, pu_filled_sells_balance := 0\<rparr> else s)
      in (qs\<lparr>qs_buys := drop (pu_filled_buys_balance s1) (qs_buys qs),
             qs_sells := drop (pu_filled_sells_balance s1) (qs_sells qs)\<rparr>, s1))"

definition apply_order_levels_modifiers :: "pure_params \<Rightarrow> pure_env \<Rightarrow> quotes \<Rightarrow> pure_state \<Rightarrow> (pure_state, quotes) outcome" where
  "apply_order_levels_modifiers pp pe qs s =
     and_then (pure_apply_price_band pp pe s qs, s) (\<lambda>qs1 s1.
     and_then (if pb_enabled (pu_price_band s1) then apply_moving_price_band pp pe qs1 s1 else (Inr qs1, s1)) (\<lambda>qs2 s2.
       if pp_ping_pong_enabled pp then (let (qs3, s3) = apply_ping_pong qs2 s2 in (Inr qs3, s3)) else (Inr qs2, s2)))"

subsection \<open>Prices\<close>

definition own_order_size :: "bool \<Rightarrow> tracked_limit list \<Rightarrow> decimal" where
  "own_order_size is_buy xs = (case filter (\<lambda>x. lo_is_buy x = is_buy) xs of [] \<Rightarrow> 0 | ys \<Rightarrow> lo_quantity (last ys))"

text \<open>The price of a level: with split levels at its own spread, which may be missing, else at equal distances.\<close>

definition level_price :: "pure_params \<Rightarrow> bool \<Rightarrow> decimal \<Rightarrow> nat \<Rightarrow> py_error + decimal" where
  "level_price pp is_buy price i =
     (let spreads = (if is_buy then pp_bid_order_level_spreads pp else pp_ask_order_level_spreads pp);
          factor = (\<lambda>spread. if is_buy then 1 - spread else 1 + spread)
      in if pp_split_order_levels_enabled pp then
           (if length spreads \<le> i then Inl IndexError
            else dec_div (price * factor (spreads ! i / 100)) (factor (spreads ! 0 / 100)))
         else Inr (price * factor (pp_order_level_spread pp * of_nat i)))"

fun set_level_prices :: "pure_params \<Rightarrow> bool \<Rightarrow> decimal \<Rightarrow> nat \<Rightarrow> quote list \<Rightarrow> py_error + quote list" where
  "set_level_prices pp is_buy price i [] = Inr []"
| "set_level_prices pp is_buy price i (x # xs) =
     bind_err (level_price pp is_buy price i) (\<lambda>p.
     bind_err (set_level_prices pp is_buy price (Suc i) xs) (\<lambda>ys. Inr (x\<lparr>qt_price := p\<rparr> # ys)))"

text \<open>The tick above the best bid and below the best ask for the volume; rounding a \<^verbatim>\<open>NaN\<close> raises.\<close>

definition price_next_to :: "pure_env \<Rightarrow> bool \<Rightarrow> decimal \<Rightarrow> py_error + decimal" where
  "price_next_to pe is_buy volume =
     (case pe_price_for_volume pe (\<not> is_buy) volume of
        None \<Rightarrow> Inl ValueError
      | Some best \<Rightarrow>
          bind_err (dec_div best (pe_price_quantum pe best)) (\<lambda>q.
            Inr (of_int (if is_buy then \<lceil>q\<rceil> + 1 else \<lfloor>q\<rfloor> - 1) * pe_price_quantum pe best)))"

definition optimize_side :: "pure_params \<Rightarrow> pure_env \<Rightarrow> pure_state \<Rightarrow> bool \<Rightarrow> quote list \<Rightarrow> py_error + quote list" where
  "optimize_side pp pe s is_buy xs =
     (if xs = [] then Inr []
      else
        bind_err
          (price_next_to pe is_buy
             ((if is_buy then pp_bid_order_optimization_depth pp else pp_ask_order_optimization_depth pp) +
              own_order_size is_buy (pure_active_orders pp s)))
          (\<lambda>next_price.
             let ys = sort_key (\<lambda>x. if is_buy then - qt_price x else qt_price x) xs;
                 best = (if is_buy then min else max) (qt_price (hd ys)) next_price
             in set_level_prices pp is_buy (pe_quantize_price pe best) 0 ys))"

definition pure_order_optimization :: "pure_params \<Rightarrow> pure_env \<Rightarrow> pure_state \<Rightarrow> quotes \<Rightarrow> py_error + quotes" where
  "pure_order_optimization pp pe s qs =
     bind_err (optimize_side pp pe s True (qs_buys qs)) (\<lambda>buys.
     bind_err (optimize_side pp pe s False (qs_sells qs)) (\<lambda>sells. Inr \<lparr>qs_buys = buys, qs_sells = sells\<rparr>))"

definition pure_limit_type :: "pure_params \<Rightarrow> order_type" where
  "pure_limit_type pp = (if pp_take_if_crossed pp then LIMIT else pp_maker_type pp)"

definition add_costs :: "pure_params \<Rightarrow> pure_env \<Rightarrow> bool \<Rightarrow> quote \<Rightarrow> quote" where
  "add_costs pp pe is_buy x =
     (let fee = pe_fee_percent pe (pure_limit_type pp) (if is_buy then BUY else SELL) (qt_size x) (qt_price x)
      in x\<lparr>qt_price := pe_quantize_price pe (qt_price x * (if is_buy then 1 - fee else 1 + fee))\<rparr>)"

definition apply_add_transaction_costs :: "pure_params \<Rightarrow> pure_env \<Rightarrow> quotes \<Rightarrow> quotes" where
  "apply_add_transaction_costs pp pe qs =
     \<lparr>qs_buys = map (add_costs pp pe True) (qs_buys qs), qs_sells = map (add_costs pp pe False) (qs_sells qs)\<rparr>"

definition pure_apply_order_price_modifiers :: "pure_params \<Rightarrow> pure_env \<Rightarrow> pure_state \<Rightarrow> quotes \<Rightarrow> py_error + quotes" where
  "pure_apply_order_price_modifiers pp pe s qs =
     bind_err (if pp_order_optimization_enabled pp then pure_order_optimization pp pe s qs else Inr qs) (\<lambda>qs1.
       Inr (if pp_add_transaction_costs pp then apply_add_transaction_costs pp pe qs1 else qs1))"

subsection \<open>Sizes\<close>

definition get_adjusted_available_balance :: "pure_params \<Rightarrow> pure_env \<Rightarrow> tracked_limit list \<Rightarrow> decimal \<times> decimal" where
  "get_adjusted_available_balance pp pe xs =
     (pe_available pe (mp_base (pp_market pp)) + (\<Sum>x \<leftarrow> filter (\<lambda>x. \<not> lo_is_buy x) xs. lo_quantity x),
      pe_available pe (mp_quote (pp_market pp)) + (\<Sum>x \<leftarrow> filter lo_is_buy xs. lo_quantity x * lo_price x))"

text \<open>Without a price there are no quotes, and nothing to be done.\<close>

definition apply_inventory_skew :: "pure_params \<Rightarrow> pure_env \<Rightarrow> pure_state \<Rightarrow> quotes \<Rightarrow> quotes" where
  "apply_inventory_skew pp pe s qs =
     (case pure_get_price pp pe s of
        None \<Rightarrow> qs
      | Some price \<Rightarrow>
          let (base_balance, quote_balance) = get_adjusted_available_balance pp pe (pure_active_orders pp s);
              total_order_size = calculate_total_order_size (pp_order_amount pp) (pp_order_level_amount pp) (pp_order_levels pp);
              (bid_ratio, ask_ratio) = calculate_bid_ask_ratios_from_base_asset_ratio (pp_interp pp) base_balance quote_balance price
                (pp_inventory_target_base_pct pp) (total_order_size * pp_inventory_range_multiplier pp)
          in \<lparr>qs_buys = map (\<lambda>x. x\<lparr>qt_size := pe_quantize_amount pe (qt_size x * bid_ratio) 0\<rparr>) (qs_buys qs),
              qs_sells = map (\<lambda>x. x\<lparr>qt_size := pe_quantize_amount pe (qt_size x * ask_ratio) (qt_price x)\<rparr>) (qs_sells qs)\<rparr>)"

definition balance_for_budget :: "pure_params \<Rightarrow> pure_env \<Rightarrow> pure_state \<Rightarrow> decimal \<times> decimal" where
  "balance_for_budget pp pe s =
     (let candidates = candidate_hanging_orders_from_pairs (pure_hanging pp) s;
          non_hanging = filter (\<lambda>x. \<not> is_order_id_in_hanging_orders (ms_hanging s) (lo_id x))
            (map snd (inner (pp_market pp) (so_limit_orders (st_orders (ms_strategy s)))))
      in get_adjusted_available_balance pp pe (filter (\<lambda>x. x \<notin> set candidates) non_hanging))"

fun fund_buys :: "pure_env \<Rightarrow> decimal \<Rightarrow> quote list \<Rightarrow> py_error + quote list" where
  "fund_buys pe quote_balance [] = Inr []"
| "fund_buys pe quote_balance (x # xs) =
     (let fee = pe_fee_percent pe LIMIT BUY (qt_size x) (qt_price x); quote_size = qt_size x * qt_price x * (1 + fee)
      in if quote_balance < quote_size then
           bind_err (dec_div quote_balance (qt_price x * (1 + fee))) (\<lambda>amount.
           bind_err (fund_buys pe 0 xs) (\<lambda>ys. Inr (x\<lparr>qt_size := pe_quantize_amount pe amount 0\<rparr> # ys)))
         else if quote_balance = 0 then bind_err (fund_buys pe quote_balance xs) (\<lambda>ys. Inr (x\<lparr>qt_size := 0\<rparr> # ys))
         else bind_err (fund_buys pe (quote_balance - quote_size) xs) (\<lambda>ys. Inr (x # ys)))"

fun fund_sells :: "pure_env \<Rightarrow> decimal \<Rightarrow> quote list \<Rightarrow> quote list" where
  "fund_sells pe base_balance [] = []"
| "fund_sells pe base_balance (x # xs) =
     (if base_balance < qt_size x then x\<lparr>qt_size := pe_quantize_amount pe base_balance 0\<rparr> # fund_sells pe 0 xs
      else if base_balance = 0 then x\<lparr>qt_size := 0\<rparr> # fund_sells pe base_balance xs
      else x # fund_sells pe (base_balance - qt_size x) xs)"

definition pure_apply_budget_constraint :: "pure_params \<Rightarrow> pure_env \<Rightarrow> pure_state \<Rightarrow> quotes \<Rightarrow> py_error + quotes" where
  "pure_apply_budget_constraint pp pe s qs =
     (let (base_balance, quote_balance) = balance_for_budget pp pe s
      in bind_err (fund_buys pe quote_balance (qs_buys qs)) (\<lambda>buys.
           Inr \<lparr>qs_buys = filter (\<lambda>x. 0 < qt_size x) buys,
                qs_sells = filter (\<lambda>x. 0 < qt_size x) (fund_sells pe base_balance (qs_sells qs))\<rparr>))"

definition pure_filter_out_takers :: "pure_env \<Rightarrow> quotes \<Rightarrow> quotes" where
  "pure_filter_out_takers pe qs =
     \<lparr>qs_buys = (case pe_get_price pe True of None \<Rightarrow> qs_buys qs | Some top_ask \<Rightarrow> filter (\<lambda>x. qt_price x < top_ask) (qs_buys qs)),
      qs_sells = (case pe_get_price pe False of None \<Rightarrow> qs_sells qs | Some top_bid \<Rightarrow> filter (\<lambda>x. top_bid < qt_price x) (qs_sells qs))\<rparr>"

definition pure_proposal :: "pure_params \<Rightarrow> pure_env \<Rightarrow> pure_state \<Rightarrow> (pure_state, quotes) outcome" where
  "pure_proposal pp pe s =
     and_then (pure_base_proposal pp pe s, s) (\<lambda>qs s.
     and_then (apply_order_levels_modifiers pp pe qs s) (\<lambda>qs s.
     and_then (pure_apply_order_price_modifiers pp pe s qs, s) (\<lambda>qs s.
     and_then
       (pure_apply_budget_constraint pp pe s (if pp_inventory_skew_enabled pp then apply_inventory_skew pp pe s qs else qs), s)
       (\<lambda>qs s. (Inr (if pp_take_if_crossed pp then qs else pure_filter_out_takers pe qs), s)))))"

subsection \<open>Orders\<close>

definition pure_cancel :: "pure_params \<Rightarrow> tracked_limit \<Rightarrow> pure_state \<Rightarrow> pure_state" where
  "pure_cancel pp x s = send_cancel (pure_hanging pp) (lo_id x) s"

text \<open>\<^verbatim>\<open>order_age\<close> in whole seconds, rounded towards zero.\<close>

definition order_age :: "tracked_limit \<Rightarrow> seconds \<Rightarrow> int" where
  "order_age x now =
     (let age = now - of_int (lo_creation_timestamp x) / 10 ^ 6 in if 0 \<le> age then \<lfloor>age\<rfloor> else \<lceil>age\<rceil>)"

definition cancel_active_orders_on_max_age_limit :: "pure_params \<Rightarrow> pure_state \<Rightarrow> pure_state" where
  "cancel_active_orders_on_max_age_limit pp s =
     (let xs = active_non_hanging_orders pp s
      in if \<exists>x \<in> set xs. pp_max_order_age pp < of_int (order_age x (now_of s)) then fold (pure_cancel pp) xs s else s)"

fun all_within :: "decimal \<Rightarrow> (decimal \<times> decimal) list \<Rightarrow> py_error + bool" where
  "all_within tolerance [] = Inr True"
| "all_within tolerance ((current, proposed) # ps) =
     bind_err (dec_div \<bar>proposed - current\<bar> current) (\<lambda>d. if tolerance < d then Inr False else all_within tolerance ps)"

definition pure_is_within_tolerance :: "pure_params \<Rightarrow> decimal list \<Rightarrow> decimal list \<Rightarrow> py_error + bool" where
  "pure_is_within_tolerance pp current_prices proposal_prices =
     (if length current_prices \<noteq> length proposal_prices then Inr False
      else all_within (pp_order_refresh_tolerance_pct pp) (zip (sort current_prices) (sort proposal_prices)))"

definition to_defer_canceling :: "pure_params \<Rightarrow> tracked_limit list \<Rightarrow> quotes option \<Rightarrow> py_error + bool" where
  "to_defer_canceling pp xs proposal =
     (case proposal of
        None \<Rightarrow> Inr False
      | Some qs \<Rightarrow>
          if pp_order_refresh_tolerance_pct pp < 0 then Inr False
          else
            bind_err (pure_is_within_tolerance pp (map lo_price (filter lo_is_buy xs)) (map qt_price (qs_buys qs))) (\<lambda>b.
              if b then pure_is_within_tolerance pp (map lo_price (filter (\<lambda>x. \<not> lo_is_buy x) xs)) (map qt_price (qs_sells qs))
              else Inr False))"

definition pure_cancel_active_orders :: "pure_params \<Rightarrow> quotes option \<Rightarrow> pure_state \<Rightarrow> (pure_state, unit) outcome" where
  "pure_cancel_active_orders pp proposal s =
     (let xs = active_non_hanging_orders pp s
      in if now_of s < pu_cancel_timestamp s \<or> xs = [] then (Inr (), s)
         else
           and_then (to_defer_canceling pp xs proposal, s) (\<lambda>defer s.
             if defer then (Inr (), s)
             else
               and_then (update_strategy_orders_with_equivalent_orders (pure_hanging pp) s) (\<lambda>u s.
                 (Inr (), fold (\<lambda>x s. if is_potential_hanging_order (ms_hanging s) x then s else pure_cancel pp x s)
                    (active_non_hanging_orders pp s) s))))"

fun cancel_below_spread :: "pure_params \<Rightarrow> decimal option \<Rightarrow> tracked_limit list \<Rightarrow> pure_state \<Rightarrow> (pure_state, unit) outcome" where
  "cancel_below_spread pp price [] s = (Inr (), s)"
| "cancel_below_spread pp price (x # xs) s =
     (case price of
        None \<Rightarrow> (Inl InvalidOperation, s)
      | Some p \<Rightarrow>
          and_then (dec_div ((if lo_is_buy x then - 1 else 1) * (lo_price x - p)) p, s) (\<lambda>spread s.
            cancel_below_spread pp price xs (if spread < pp_minimum_spread pp then pure_cancel pp x s else s)))"

definition pure_cancel_orders_below_min_spread :: "pure_params \<Rightarrow> pure_env \<Rightarrow> pure_state \<Rightarrow> (pure_state, unit) outcome" where
  "pure_cancel_orders_below_min_spread pp pe s =
     cancel_below_spread pp (pure_get_price pp pe s)
       (filter (\<lambda>x. Some (lo_id x) \<notin> set (hanging_order_ids s)) (pure_active_orders pp s)) s"

definition pure_to_create_orders :: "pure_params \<Rightarrow> quotes option \<Rightarrow> pure_state \<Rightarrow> bool" where
  "pure_to_create_orders pp proposal s \<longleftrightarrow>
     pu_create_timestamp s < now_of s \<and>
     (\<not> pp_wait_cancel_confirmation pp \<or> so_in_flight_cancels (st_orders (ms_strategy s)) = []) \<and>
     proposal \<noteq> None \<and>
     filter (\<lambda>x. \<not> is_potential_hanging_order (ms_hanging s) x) (active_non_hanging_orders pp s) = []"

definition pure_set_timers :: "pure_params \<Rightarrow> pure_state \<Rightarrow> pure_state" where
  "pure_set_timers pp s =
     (let next_cycle = now_of s + pp_order_refresh_time pp;
          create = (if pu_create_timestamp s \<le> now_of s then next_cycle else pu_create_timestamp s)
      in s\<lparr>pu_create_timestamp := create,
           pu_cancel_timestamp := (if pu_cancel_timestamp s \<le> now_of s then min create next_cycle else pu_cancel_timestamp s)\<rparr>)"

text \<open>
  The pair of an order: a buy opens a new pair, a sell is put into the pair with its index, counted from the
  beginning of the list.  An order that is not among the active ones ends the iteration with \<^verbatim>\<open>StopIteration\<close>.
\<close>

definition note_pair :: "bool \<Rightarrow> nat \<Rightarrow> tracked_limit \<Rightarrow> hanging_orders \<Rightarrow> py_error + hanging_orders" where
  "note_pair is_buy idx x h =
     (if is_buy then
        Inr (h\<lparr>ho_pairs := ho_pairs h @ [\<lparr>cp_buy = Some x, cp_sell = None, cp_filled_buy = False, cp_filled_sell = False\<rparr>]\<rparr>)
      else if idx < length (ho_pairs h) then
        Inr (h\<lparr>ho_pairs := (ho_pairs h)[idx := (ho_pairs h ! idx)\<lparr>cp_sell := Some x\<rparr>]\<rparr>)
      else Inl IndexError)"

fun place_quotes :: "pure_params \<Rightarrow> bool \<Rightarrow> nat \<Rightarrow> nat \<Rightarrow> quote list \<Rightarrow> pure_state \<Rightarrow> (pure_state, unit) outcome" where
  "place_quotes pp is_buy pairs idx [] s = (Inr (), s)"
| "place_quotes pp is_buy pairs idx (x # xs) s =
     and_then (send_order (pure_hanging pp) is_buy (qt_size x) (pure_limit_type pp) (qt_price x) None s) (\<lambda>i s.
     and_then
       (if idx < pairs then
          (case List.find (\<lambda>y. lo_id y = i) (pure_active_orders pp s) of
             None \<Rightarrow> (Inl RaisedException, s)
           | Some y \<Rightarrow>
               (case note_pair is_buy idx y (ms_hanging s) of
                  Inl e \<Rightarrow> (Inl e, s) | Inr h \<Rightarrow> (Inr (), upd_hanging (\<lambda>_. h) s)))
        else (Inr (), s))
       (\<lambda>u s. place_quotes pp is_buy pairs (Suc idx) xs s))"

definition pure_execute_orders_proposal :: "pure_params \<Rightarrow> quotes \<Rightarrow> pure_state \<Rightarrow> (pure_state, unit) outcome" where
  "pure_execute_orders_proposal pp qs s =
     (let pairs = (if pp_hanging_orders_enabled pp then min (length (qs_buys qs)) (length (qs_sells qs)) else 0)
      in and_then (place_quotes pp True pairs 0 (qs_buys qs) s) (\<lambda>u s.
         and_then (place_quotes pp False pairs 0 (qs_sells qs) s) (\<lambda>u s.
           (Inr (), if qs_buys qs \<noteq> [] \<or> qs_sells qs \<noteq> [] then pure_set_timers pp s else s))))"

subsection \<open>Ticks and events\<close>

definition pure_tick_body :: "pure_params \<Rightarrow> pure_env \<Rightarrow> pure_state \<Rightarrow> (pure_state, unit) outcome" where
  "pure_tick_body pp pe s =
     (let s = s\<lparr>pu_all_markets_ready := pu_all_markets_ready s \<or> (pe_markets_ready pe \<and> pe_delegate_ready pe)\<rparr>
      in if \<not> pu_all_markets_ready s then (Inr (), s)
         else
           and_then
             (if pu_create_timestamp s \<le> now_of s then and_then (pure_proposal pp pe s) (\<lambda>qs s. (Inr (Some qs), s))
              else (Inr None, s))
             (\<lambda>proposal s.
           and_then (hanging_process_tick (pure_hanging pp) (pure_get_price pp pe s) s) (\<lambda>u s.
           and_then (pure_cancel_active_orders pp proposal (cancel_active_orders_on_max_age_limit pp s)) (\<lambda>u s.
           and_then (pure_cancel_orders_below_min_spread pp pe s) (\<lambda>u s.
             (case proposal of
                Some qs \<Rightarrow> if pure_to_create_orders pp proposal s then pure_execute_orders_proposal pp qs s else (Inr (), s)
              | None \<Rightarrow> (Inr (), s)))))))"

definition upd_orders :: "(strategy_orders \<Rightarrow> strategy_orders) \<Rightarrow> 'a maker_state_scheme \<Rightarrow> 'a maker_state_scheme" where
  "upd_orders f s = s\<lparr>ms_strategy := (ms_strategy s)\<lparr>st_orders := f (st_orders (ms_strategy s))\<rparr>\<rparr>"

definition pure_tick :: "pure_params \<Rightarrow> pure_env \<Rightarrow> pure_state \<Rightarrow> (pure_state, unit) outcome" where
  "pure_tick pp pe s =
     (let (r, s1) = pure_tick_body pp pe (upd_orders (orders_tick (pe_timestamp pe)) s)
      in (r, s1\<lparr>pu_last_timestamp := pe_timestamp pe\<rparr>))"

definition pure_did_fill_order :: "pure_params \<Rightarrow> order_fill \<Rightarrow> pure_state \<Rightarrow> (pure_state, unit) outcome" where
  "pure_did_fill_order pp fill s =
     (if so_shadow_pair_of (st_orders (ms_strategy s)) (of_order_id fill) \<noteq> None \<and> pp_has_inventory_cost_delegate pp then
        (case process_order_fill_event fill (pu_costs s) of
           Inl e \<Rightarrow> (Inl e, s) | Inr costs \<Rightarrow> (Inr (), s\<lparr>pu_costs := costs\<rparr>))
      else (Inr (), s))"

definition pure_did_complete_order :: "pure_params \<Rightarrow> bool \<Rightarrow> string \<Rightarrow> pure_state \<Rightarrow> pure_state" where
  "pure_did_complete_order pp is_buy i s =
     (case get_limit_order (st_orders (ms_strategy s)) (pp_market pp) i of
        None \<Rightarrow> s
      | Some x \<Rightarrow>
          if pp_hanging_orders_enabled pp \<and> Some i \<in> set (hanging_order_ids s) then s
          else
            let create = now_of s + pp_filled_order_delay pp;
                s1 = s\<lparr>pu_create_timestamp := create, pu_cancel_timestamp := min (pu_cancel_timestamp s) create,
                      pu_last_own_trade_price := Some (lo_price x)\<rparr>
            in if is_buy then s1\<lparr>pu_filled_buys_balance := Suc (pu_filled_buys_balance s)\<rparr>
               else s1\<lparr>pu_filled_sells_balance := Suc (pu_filled_sells_balance s)\<rparr>)"

text \<open>
  An event of the market reaches the strategy and the tracker of the hanging orders, in an order the market's
  listeners do not fix.  The strategy's handler is followed by that of the base, which ends the tracking.
\<close>

definition in_order :: "bool \<Rightarrow> ('s \<Rightarrow> ('s, unit) outcome) \<Rightarrow> ('s \<Rightarrow> ('s, unit) outcome) \<Rightarrow> 's \<Rightarrow> ('s, unit) outcome" where
  "in_order first f g s =
     (let (r1, s1) = (if first then f s else g s); (r2, s2) = (if first then g s1 else f s1)
      in (bind_err r1 (\<lambda>u. r2), s2))"

definition pure_order_completed :: "pure_params \<Rightarrow> bool \<Rightarrow> bool \<Rightarrow> string \<Rightarrow> order_type \<Rightarrow> pure_state \<Rightarrow> (pure_state, unit) outcome" where
  "pure_order_completed pp strategy_first is_buy i ot s =
     in_order strategy_first
       (\<lambda>s. (Inr (), upd_orders (did_complete_order_tracker i ot) (pure_did_complete_order pp is_buy i s)))
       (\<lambda>s. (Inr (), upd_hanging (hanging_did_complete_order i is_buy) s)) s"

definition pure_order_cancelled :: "pure_params \<Rightarrow> bool \<Rightarrow> string \<Rightarrow> pure_state \<Rightarrow> (pure_state, unit) outcome" where
  "pure_order_cancelled pp strategy_first i s =
     in_order strategy_first (\<lambda>s. (Inr (), upd_orders (did_cancel_order_tracker i) s)) (hanging_did_cancel_order (pure_hanging pp) i) s"

end
