(* ===== verification/Pure_Quotes.thy ===== *)
theory Pure_Quotes
  imports Pure_Market_Making
begin

text \<open>
  What the model of \<^verbatim>\<open>strategy/pure_market_making\<close> satisfies: the skew and the inventory cost, what a tick can
  send, the generations of quotes and their funding, and runs that show where orders get lost.
\<close>

subsection \<open>Skew and cost\<close>

definition clamp :: "decimal \<Rightarrow> decimal" where
  "clamp x = max 0 (min 1 x)"

text \<open>What the documentation of \<^verbatim>\<open>numpy.interp\<close> says for two increasing points.\<close>

definition interpolates :: "interpolation \<Rightarrow> bool" where
  "interpolates interp \<longleftrightarrow> (\<forall>x a b c d. a < b \<longrightarrow> interp x (a, b) (c, d) = c + (d - c) * clamp ((x - a) / (b - a)))"

text \<open>The reference: one, and one more or less over the width of the range, which ends at an empty inventory.\<close>

definition linear_skew :: "decimal \<Rightarrow> decimal \<Rightarrow> decimal \<Rightarrow> decimal" where
  "linear_skew worth target width =
     (if worth < target then 1 + clamp ((target - worth) / min width target) else 1 - clamp ((worth - target) / width))"

lemma clamp_half: "clamp (1 / 2 * c / (1 / 2)) = clamp c" "0 \<le> c \<Longrightarrow> c \<le> 1 \<Longrightarrow> clamp c = c" "0 \<le> clamp c" "clamp c \<le> 1"
  by (simp_all add: clamp_def)

lemma clamp_compl: "clamp (1 - x) = 1 - clamp x"
  by (simp add: clamp_def max_def min_def)

lemma below_target:
  fixes v t r :: decimal
  assumes "0 < min r t"
  shows "(v - max (t - r) 0) / (t - max (t - r) 0) = 1 - (t - v) / min r t"
proof -
  have w: "t - max (t - r) 0 = min r t" by (simp add: min_def max_def)
  have "(v - max (t - r) 0) / min r t = (min r t - (t - v)) / min r t" using w by simp
  also have "\<dots> = 1 - (t - v) / min r t" by (metis assms diff_divide_distrib divide_self less_irrefl)
  finally show ?thesis by (simp add: w)
qed

text \<open>
  The inventory skew is linear in the value of the base asset: the bid ratio is one at the target, grows to
  two over the range below it and falls to zero over the range above it, and the ask ratio is its complement.
\<close>

theorem skew_is_linear:
  assumes "interpolates interp" "0 < price" "0 < base_amount * price + quote_amount" "0 < base_range" "0 \<le> base_amount"
  shows "calculate_bid_ask_ratios_from_base_asset_ratio interp base_amount quote_amount price target_ratio base_range =
    (let portfolio = base_amount * price + quote_amount;
         bid = linear_skew (base_amount * price) (portfolio * target_ratio) (min (base_range * price) (portfolio / 2))
     in (bid, 2 - bid))"
proof -
  let ?P = "base_amount * price + quote_amount" and ?v = "base_amount * price"
  let ?t = "?P * target_ratio" and ?r = "min (base_range * price) (?P / 2)"
  have r: "0 < ?r" using assms by simp
  have i: "interp x (a, b) (c, d) = c + (d - c) * clamp ((x - a) / (b - a))" if "a < b" for x a b c d
    using assms(1) that by (simp add: interpolates_def)
  have left: "interp (interp ?v (max (?t - ?r) 0, ?t) (0, 1 / 2)) (0, 1 / 2) (2, 1) = 1 + clamp ((?t - ?v) / min ?r ?t)" if "?v < ?t"
  proof -
    have v: "0 \<le> ?v" using assms(2,5) by simp
    then have t: "0 < ?t" using that by linarith
    have pos: "0 < min ?r ?t" using r t by simp
    then have "(?v - max (?t - ?r) 0) / (?t - max (?t - ?r) 0) = 1 - (?t - ?v) / min ?r ?t" by (rule below_target)
    moreover have "max (?t - ?r) 0 < ?t" using r t by simp
    ultimately have "interp ?v (max (?t - ?r) 0, ?t) (0, 1 / 2) = 1 / 2 * (1 - clamp ((?t - ?v) / min ?r ?t))"
      by (simp add: i clamp_compl)
    then show ?thesis using clamp_half(3,4)[of "(?t - ?v) / min ?r ?t"] by (simp add: i clamp_half(2))
  qed
  have right: "interp (interp ?v (?t, ?t + ?r) (1 / 2, 1)) (1 / 2, 1) (1, 0) = 1 - clamp ((?v - ?t) / ?r)"
    using r clamp_half(3,4)[of "(?v - ?t) / ?r"] by (simp add: i clamp_half(2))
  have P: "\<not> (?P \<le> 0 \<or> base_range \<le> 0)" using assms by simp
  show ?thesis
  proof (cases "?v < ?t")
    case True
    then show ?thesis
      using left by (simp only: calculate_bid_ask_ratios_from_base_asset_ratio_def Let_def linear_skew_def P if_True if_False
          mult_1_right times_divide_eq_right)
  next
    case False
    then show ?thesis
      using right by (simp only: calculate_bid_ask_ratios_from_base_asset_ratio_def Let_def linear_skew_def P if_False
          mult_1_right times_divide_eq_right)
  qed
qed

definition linear_interp :: interpolation where
  "linear_interp x p q = fst q + (snd q - fst q) * clamp ((x - fst p) / (snd p - fst p))"

theorem skew_is_linear_witness:
  "calculate_bid_ask_ratios_from_base_asset_ratio linear_interp 2 100 50 (1 / 4) 1 =
    (let portfolio = 2 * 50 + 100; bid = linear_skew (2 * 50) (portfolio * (1 / 4)) (min (1 * 50) (portfolio / 2)) in (bid, 2 - bid))"
  by (rule skew_is_linear) (simp_all add: interpolates_def linear_interp_def)

text \<open>
  A sale leaves the cost at which the inventory is valued as it was, whatever its price and fees, as long as
  some inventory is left.
\<close>

theorem sale_keeps_cost:
  assumes "process_order_fill_event fill costs = Inr costs'" "of_trade_type fill = SELL"
    and "split_hb_trading_pair (of_trading_pair fill) = Inr assets" "costs' assets = Some (b, q)" "b \<noteq> 0"
  shows "inventory_cost_price assets costs' = inventory_cost_price assets costs"
proof -
  obtain base_volume b0 q0 where c: "costs assets = Some (b0, q0)" "b0 \<noteq> 0"
    "costs' = costs(assets \<mapsto> (b0 - base_volume, q0 - q0 / b0 * base_volume))"
    using assms(1-3) by (auto simp: process_order_fill_event_def err_simps add_volume_def split: option.splits)
  then have "b = b0 - base_volume" "q = q0 / b0 * b" using assms(4) by (auto simp: field_simps)
  then show ?thesis using c assms(4,5) by (simp add: inventory_cost_price_def)
qed

theorem sale_keeps_cost_witness:
  "inventory_cost_price (''A'', ''B'') [(''A'', ''B'') \<mapsto> (3, 60)] = inventory_cost_price (''A'', ''B'') [(''A'', ''B'') \<mapsto> (5, 100)]"
proof -
  let ?fill = "\<lparr>of_order_id = ''1'', of_trading_pair = ''A-B'', of_trade_type = SELL, of_price = 30, of_amount = 2,
    of_fee = \<lparr>tf_class = AddedToCost, tf_percent = 0, tf_percent_token = None, tf_flat_fees = []\<rparr>\<rparr>"
  have "process_order_fill_event ?fill [(''A'', ''B'') \<mapsto> (5, 100)] = Inr [(''A'', ''B'') \<mapsto> (3, 60)]"
    by (simp add: process_order_fill_event_def split_hb_trading_pair_def add_volume_def)
  then show ?thesis
    by (rule sale_keeps_cost[of _ _ _ _ 3 60]) (simp_all add: split_hb_trading_pair_def)
qed

subsection \<open>Cancelling sends no orders\<close>

fun is_order_request :: "market_request \<Rightarrow> bool" where
  "is_order_request (MarketOrderRequest b p a t q e c) \<longleftrightarrow> True"
| "is_order_request (MarketCancelRequest p i) \<longleftrightarrow> False"

definition order_requests :: "('a) maker_state_scheme \<Rightarrow> market_request list" where
  "order_requests s = filter is_order_request (ms_requests s)"

text \<open>Steps that send cancels only: the tracked limit orders, the time and the timers stay.\<close>

definition no_orders :: "pure_state \<Rightarrow> pure_state \<Rightarrow> bool" where
  "no_orders s s' \<longleftrightarrow> order_requests s' = order_requests s \<and>
     so_limit_orders (st_orders (ms_strategy s')) = so_limit_orders (st_orders (ms_strategy s)) \<and> now_of s' = now_of s \<and>
     ms_order_count s' = ms_order_count s \<and>
     pu_create_timestamp s' = pu_create_timestamp s \<and> pu_cancel_timestamp s' = pu_cancel_timestamp s"

lemma no_orders_refl [simp]: "no_orders s s"
  by (simp add: no_orders_def)

lemma no_orders_trans: "no_orders s s1 \<Longrightarrow> no_orders s1 s2 \<Longrightarrow> no_orders s s2"
  by (simp add: no_orders_def)

lemma no_orders_fields [simp]:
  "no_orders s (upd_hanging f s1) \<longleftrightarrow> no_orders s s1"
  "no_orders s (s1\<lparr>pu_all_markets_ready := b\<rparr>) \<longleftrightarrow> no_orders s s1"
  "no_orders s (s1\<lparr>pu_price_band := pb\<rparr>) \<longleftrightarrow> no_orders s s1"
  "no_orders s (s1\<lparr>pu_filled_buys_balance := n, pu_filled_sells_balance := m\<rparr>) \<longleftrightarrow> no_orders s s1"
  by (simp_all add: no_orders_def upd_hanging_def order_requests_def now_of_def)

lemma check_and_track_cancel_keeps:
  "so_limit_orders (snd (check_and_track_cancel i so)) = so_limit_orders so"
  "so_now (snd (check_and_track_cancel i so)) = so_now so"
  by (simp_all add: check_and_track_cancel_def Let_def)

lemma no_orders_cancel: "no_orders s s1 \<Longrightarrow> no_orders s (send_cancel he i s1)"
  using check_and_track_cancel_keeps[of i "st_orders (ms_strategy s1)"]
  by (auto simp: no_orders_def send_cancel_def strategy_cancel_def order_requests_def now_of_def split: prod.splits)

lemma no_orders_cancel_in_strategy: "no_orders s s1 \<Longrightarrow> no_orders s (cancel_in_strategy he i s1)"
  by (simp add: cancel_in_strategy_def no_orders_cancel)

lemma no_orders_fold:
  assumes "\<And>x s1. no_orders s s1 \<Longrightarrow> no_orders s (f x s1)" "no_orders s s1"
  shows "no_orders s (fold f xs s1)"
  using assms(2) by (induction xs arbitrary: s1) (simp_all add: assms(1))

lemma no_orders_cancel_multiple: "no_orders s s1 \<Longrightarrow> no_orders s (cancel_multiple_orders_in_strategy he ids s1)"
  unfolding cancel_multiple_orders_in_strategy_def by (rule no_orders_fold) (rule no_orders_cancel_in_strategy)

lemma no_orders_process_tick: "no_orders s s1 \<Longrightarrow> leaves (no_orders s) (hanging_process_tick he price s1)"
  unfolding hanging_process_tick_def
  by (rule leaves_and_then)
    (auto simp: remove_orders_far_from_price_def no_orders_cancel_multiple renew_hanging_orders_past_max_order_age_def Let_def
      split: sum.split)

lemma execute_existing:
  "list_all (\<lambda>x. hg_id x \<noteq> None) xs \<Longrightarrow> execute_orders_in_strategy he xs s = (Inr xs, s)"
  by (induction xs) auto

lemma hg_add_all: "list_all P xs \<Longrightarrow> P x \<Longrightarrow> list_all P (hg_add x xs)"
  by (simp add: hg_add_def)

lemma hg_union_all: "list_all P xs \<Longrightarrow> list_all P ys \<Longrightarrow> list_all P (hg_union xs ys)"
  unfolding hg_union_def by (induction ys arbitrary: xs) (auto intro: hg_add_all)

lemma equivalent_have_ids: "list_all (\<lambda>x. hg_id x \<noteq> None) (hg_minus (equivalent_orders h) ys)"
proof -
  have "list_all (\<lambda>x. hg_id x \<noteq> None) (equivalent_orders h)"
    unfolding equivalent_orders_def by (rule hg_union_all) (simp_all add: list_all_iff hanging_from_limit_def)
  then show ?thesis by (simp add: hg_minus_def list_all_iff)
qed

text \<open>So bringing the hanging orders up to date only ever cancels.\<close>

lemma update_strategy_orders_eq:
  "update_strategy_orders_with_equivalent_orders he s =
    (let s1 = add_hanging_orders_based_on_partially_executed_pairs he s;
         equivalent = equivalent_orders (ms_hanging s1);
         new = hg_minus equivalent (ho_current (ms_hanging s1));
         s2 = cancel_multiple_orders_in_strategy he (List.map_filter hg_id (hg_minus (ho_current (ms_hanging s1)) equivalent)) s1
     in (Inr (), upd_hanging (\<lambda>h. h\<lparr>ho_current := hg_union (ho_current h) new\<rparr>) s2))"
  by (simp add: update_strategy_orders_with_equivalent_orders_def Let_def execute_existing[OF equivalent_have_ids])

lemma no_orders_update: "no_orders s s1 \<Longrightarrow> leaves (no_orders s) (update_strategy_orders_with_equivalent_orders he s1)"
  by (simp add: update_strategy_orders_eq Let_def no_orders_cancel_multiple add_hanging_orders_based_on_partially_executed_pairs_def)

lemma no_orders_pure_cancel: "no_orders s s1 \<Longrightarrow> no_orders s (pure_cancel pp x s1)"
  by (simp add: pure_cancel_def no_orders_cancel)

lemma no_orders_max_age: "no_orders s s1 \<Longrightarrow> no_orders s (cancel_active_orders_on_max_age_limit pp s1)"
  using no_orders_fold[of s "pure_cancel pp" s1] no_orders_pure_cancel
  by (simp add: cancel_active_orders_on_max_age_limit_def Let_def)

lemma no_orders_cancel_active:
  assumes "no_orders s s1"
  shows "leaves (no_orders s) (pure_cancel_active_orders pp proposal s1)"
proof -
  have "leaves (no_orders s) (and_then (update_strategy_orders_with_equivalent_orders (pure_hanging pp) s2) (\<lambda>u s3.
      (Inr (), fold (\<lambda>x s. if is_potential_hanging_order (ms_hanging s) x then s else pure_cancel pp x s)
        (active_non_hanging_orders pp s3) s3)))" if "no_orders s s2" for s2
    by (rule leaves_and_then[OF no_orders_update[OF that]]) (simp add: no_orders_fold no_orders_pure_cancel)
  then show ?thesis
    using assms unfolding pure_cancel_active_orders_def Let_def by (auto intro!: leaves_and_then)
qed

lemma no_orders_below_spread: "no_orders s s1 \<Longrightarrow> leaves (no_orders s) (cancel_below_spread pp price xs s1)"
proof (induction xs arbitrary: s1)
  case (Cons x xs)
  then show ?case by (auto simp: pure_cancel_def no_orders_cancel split: option.split intro!: leaves_and_then)
qed simp

lemma no_orders_levels: "no_orders s s1 \<Longrightarrow> leaves (no_orders s) (apply_order_levels_modifiers pp pe qs s1)"
  unfolding apply_order_levels_modifiers_def
  by (auto intro!: leaves_and_then simp: apply_moving_price_band_def apply_ping_pong_def Let_def)

lemma no_orders_proposal: "no_orders s s1 \<Longrightarrow> leaves (no_orders s) (pure_proposal pp pe s1)"
  unfolding pure_proposal_def by (auto intro!: leaves_and_then no_orders_levels)

subsection \<open>Placing orders\<close>

lemma pure_hanging_simps [simp]:
  "he_market (pure_hanging pp) = pp_market pp" "he_active (pure_hanging pp) = pure_active (pp_market pp)"
  "he_order_id (pure_hanging pp) = pp_order_id pp" "he_maker_type (pure_hanging pp) = pp_maker_type pp"
  by (simp_all add: pure_hanging_def)

definition quote_request :: "pure_params \<Rightarrow> bool \<Rightarrow> quote \<Rightarrow> market_request" where
  "quote_request pp is_buy x =
     MarketOrderRequest is_buy (pp_market pp) (qt_size x) (pure_limit_type pp) (Some (qt_price x)) None OPEN_POSITION"

definition creation_stamp :: "seconds \<Rightarrow> int" where
  "creation_stamp now = (let t = now * 10 ^ 6 in if 0 \<le> t then \<lfloor>t\<rfloor> else \<lceil>t\<rceil>)"

text \<open>At most \<open>n\<close> orders are added, all with the time stamp of the tick.\<close>

definition grows :: "pure_params \<Rightarrow> nat \<Rightarrow> pure_state \<Rightarrow> pure_state \<Rightarrow> bool" where
  "grows pp n s s' \<longleftrightarrow> now_of s' = now_of s \<and> length (pure_active_orders pp s') \<le> length (pure_active_orders pp s) + n \<and>
     (\<forall>x \<in> set (pure_active_orders pp s'). x \<in> set (pure_active_orders pp s) \<or> lo_creation_timestamp x = creation_stamp (now_of s))"

lemma grows_trans: "grows pp n s s1 \<Longrightarrow> grows pp m s1 s2 \<Longrightarrow> grows pp (n + m) s s2"
  by (auto simp: grows_def)

lemma grows_refl: "grows pp n s s"
  by (simp add: grows_def)

lemma length_update: "length (AList.update k v d) \<le> Suc (length d)"
  by (induction d) auto

lemma snd_update: "snd ` set (AList.update k v d) \<subseteq> insert v (snd ` set d)"
  by (induction d) (auto split: if_splits)

lemma track_limit_order_eq:
  "\<exists>y. so_limit_orders (track_limit_order mp i b p q so) = put_inner mp i y (so_limit_orders so) \<and>
    lo_creation_timestamp y = creation_stamp (so_now so)"
  by (intro exI[of _ "\<lparr>lo_id = i, lo_trading_pair = mp_trading_pair mp, lo_is_buy = b, lo_base = mp_base mp, lo_quote = mp_quote mp,
      lo_price = p, lo_quantity = q, lo_creation_timestamp = creation_stamp (so_now so)\<rparr>"])
    (simp add: track_limit_order_def creation_stamp_def Let_def)

lemma pure_active_market [simp]: "pure_active mp (so\<lparr>so_market_orders := d, so_market_pair_of := e\<rparr>) = pure_active mp so"
  by (simp add: pure_active_def)

lemma pure_active_track:
  "length (pure_active mp (track_limit_order mp i b p q so)) \<le> Suc (length (pure_active mp so)) \<and>
   (\<forall>x \<in> set (pure_active mp (track_limit_order mp i b p q so)).
      x \<in> set (pure_active mp so) \<or> lo_creation_timestamp x = creation_stamp (so_now so))"
proof -
  obtain y where y: "so_limit_orders (track_limit_order mp i b p q so) = put_inner mp i y (so_limit_orders so)"
    "lo_creation_timestamp y = creation_stamp (so_now so)"
    using track_limit_order_eq by blast
  show ?thesis
    using length_update[of i y "inner mp (so_limit_orders so)"] snd_update[of i y "inner mp (so_limit_orders so)"] y(2)
    by (auto simp: pure_active_def y(1))
qed

lemma track_now: "so_now (track_limit_order mp i b p q so) = so_now so"
  by (simp add: track_limit_order_def Let_def)

lemma send_order_Inr:
  assumes "send_order (pure_hanging pp) b a ot p e s = (Inr i, s')"
  shows "order_requests s' = order_requests s @ [MarketOrderRequest b (pp_market pp) a ot (Some p) (map_option (\<lambda>t. now_of s + t) e) OPEN_POSITION]"
    and "grows pp 1 s s'"
  using assms pure_active_track[of "pp_market pp" i b p a "st_orders (ms_strategy s)"]
  by (auto simp: send_order_def order_with_specific_market_def Let_def order_requests_def grows_def now_of_def track_now
      pure_active_orders_def active_orders_def track_market_order_def
      split: sum.splits if_splits)

lemma send_order_Inl: "send_order he b a ot p e s = (Inl x, s') \<Longrightarrow> s' = s"
  by (auto simp: send_order_def Let_def split: sum.splits)

lemma place_quotes_requests:
  "place_quotes pp b pairs idx xs s = (r, s') \<Longrightarrow>
    \<exists>k. order_requests s' = order_requests s @ map (quote_request pp b) (take k xs) \<and> grows pp (length xs) s s' \<and>
      (r = Inr () \<longrightarrow> k = length xs)"
proof (induction xs arbitrary: idx s)
  case Nil
  then show ?case by (auto simp: grows_refl)
next
  case (Cons x xs)
  obtain r1 s1 where send: "send_order (pure_hanging pp) b (qt_size x) (pure_limit_type pp) (qt_price x) None s = (r1, s1)"
    by fastforce
  show ?case
  proof (cases r1)
    case (Inl e)
    then have "r = Inl e" "s' = s" using Cons.prems send send_order_Inl[OF send[unfolded Inl]] by auto
    then show ?thesis by (intro exI[of _ 0]) (simp add: grows_refl)
  next
    case (Inr i)
    note sent = send_order_Inr[OF send[unfolded Inr]]
    let ?note = "if idx < pairs then
          (case List.find (\<lambda>y. lo_id y = i) (pure_active_orders pp s1) of
             None \<Rightarrow> (Inl RaisedException, s1)
           | Some y \<Rightarrow>
               (case note_pair b idx y (ms_hanging s1) of
                  Inl e \<Rightarrow> (Inl e, s1) | Inr h \<Rightarrow> (Inr (), upd_hanging (\<lambda>_. h) s1)))
        else (Inr (), s1)"
    obtain r2 s2 where nt: "?note = (r2, s2)" by fastforce
    have same: "order_requests s2 = order_requests s1" "grows pp 0 s1 s2"
      using nt by (auto simp: upd_hanging_def order_requests_def grows_def pure_active_orders_def active_orders_def now_of_def
          split: if_splits option.splits sum.splits)
    have one: "order_requests s2 = order_requests s @ [quote_request pp b x]" "grows pp 1 s s2"
      using sent same grows_trans[of pp 1 s s1 0 s2] by (simp_all add: quote_request_def)
    have rest: "and_then (r2, s2) (\<lambda>u s. place_quotes pp b pairs (Suc idx) xs s) = (r, s')"
      using Cons.prems send Inr nt by simp
    show ?thesis
    proof (cases r2)
      case (Inl e)
      then have "r = Inl e" "s' = s2" using rest by auto
      then show ?thesis using one grows_trans[OF one(2) grows_refl[of pp "length xs"]]
        by (intro exI[of _ 1]) simp
    next
      case (Inr u)
      obtain k where k: "order_requests s' = order_requests s2 @ map (quote_request pp b) (take k xs)"
        "grows pp (length xs) s2 s'" "r = Inr () \<longrightarrow> k = length xs"
        using Cons.IH[of "Suc idx" s2] rest Inr by auto
      then show ?thesis using one grows_trans[OF one(2) k(2)] by (intro exI[of _ "Suc k"]) simp
    qed
  qed
qed

subsection \<open>Proposals\<close>

definition buy_bound :: "pure_params \<Rightarrow> nat" where
  "buy_bound pp = (if pp_order_override pp \<noteq> [] then length (pp_order_override pp) else pp_buy_levels pp)"

definition sell_bound :: "pure_params \<Rightarrow> nat" where
  "sell_bound pp = (if pp_order_override pp \<noteq> [] then length (pp_order_override pp) else pp_sell_levels pp)"

definition few_quotes :: "pure_params \<Rightarrow> quotes \<Rightarrow> bool" where
  "few_quotes pp qs \<longleftrightarrow> length (qs_buys qs) \<le> buy_bound pp \<and> length (qs_sells qs) \<le> sell_bound pp"

definition nonneg_quotes :: "quote list \<Rightarrow> bool" where
  "nonneg_quotes xs \<longleftrightarrow> list_all (\<lambda>x. 0 \<le> qt_price x \<and> 0 \<le> qt_size x) xs"

lemma length_map_filter: "length (List.map_filter f xs) \<le> length xs"
  by (induction xs) (auto simp: List.map_filter_simps split: option.split)

lemma list_all_map_filter: "(\<And>x y. f x = Some y \<Longrightarrow> P y) \<Longrightarrow> list_all P (List.map_filter f xs)"
  by (induction xs) (auto simp: List.map_filter_simps split: option.split)

lemma override_length: "length (override_quotes pe b p xs) \<le> length xs"
  by (auto simp: override_quotes_def length_map_filter split: option.split)

lemma level_length: "length (level_quotes pp pe b p n) \<le> n"
  using length_map_filter[of _ "[0..<n]"] by (auto simp: level_quotes_def split: option.split)

lemma base_proposal_few: "pure_base_proposal pp pe s = Inr qs \<Longrightarrow> few_quotes pp qs"
  by (auto simp: pure_base_proposal_def Let_def err_simps few_quotes_def buy_bound_def sell_bound_def override_length level_length)

lemma drop_few: "few_quotes pp qs \<Longrightarrow> few_quotes pp (drop_sells a (drop_buys b qs))"
  by (auto simp: few_quotes_def drop_sells_def drop_buys_def)

lemma band_few: "pure_apply_price_band pp pe s qs = Inr qs' \<Longrightarrow> few_quotes pp qs \<Longrightarrow> few_quotes pp qs'"
  by (auto simp: pure_apply_price_band_def err_simps drop_few)

lemma moving_band_few: "apply_moving_price_band pp pe qs s = (Inr qs', s') \<Longrightarrow> few_quotes pp qs \<Longrightarrow> few_quotes pp qs'"
  by (auto simp: apply_moving_price_band_def Let_def err_simps drop_few)

lemma ping_pong_few: "apply_ping_pong qs s = (qs', s') \<Longrightarrow> few_quotes pp qs \<Longrightarrow> few_quotes pp qs'"
  by (auto simp: apply_ping_pong_def Let_def few_quotes_def)

lemma and_then_Inr: "and_then r f = (Inr b, s') \<Longrightarrow> \<exists>a s. r = (Inr a, s) \<and> f a s = (Inr b, s')"
  by (auto simp: and_then_def split: prod.splits sum.splits)

lemma levels_few:
  assumes "apply_order_levels_modifiers pp pe qs s = (Inr qs', s')" "few_quotes pp qs"
  shows "few_quotes pp qs'"
proof -
  obtain qs1 where 1: "pure_apply_price_band pp pe s qs = Inr qs1"
    using and_then_Inr[OF assms(1)[unfolded apply_order_levels_modifiers_def]] by auto
  then have few1: "few_quotes pp qs1" using band_few assms(2) by blast
  have "few_quotes pp qs'" if "apply_moving_price_band pp pe qs1 s = (Inr qs2, s2)" "apply_ping_pong qs2 s2 = (qs', s')" for qs2 s2
    using that ping_pong_few moving_band_few few1 by blast
  then show ?thesis
    using assms(1) 1 few1 ping_pong_few[of qs1 s qs' s'] moving_band_few[of pp pe qs1 s qs' s']
    unfolding apply_order_levels_modifiers_def
    by (auto split: if_splits prod.splits dest!: and_then_Inr)
qed

lemma set_level_prices_length: "set_level_prices pp b p i xs = Inr ys \<Longrightarrow> length ys = length xs"
  by (induction xs arbitrary: i ys) (auto simp: err_simps)

lemma optimize_length: "optimize_side pp pe s b xs = Inr ys \<Longrightarrow> length ys = length xs"
  by (auto simp: optimize_side_def Let_def err_simps set_level_prices_length split: if_splits)

lemma price_modifiers_few: "pure_apply_order_price_modifiers pp pe s qs = Inr qs' \<Longrightarrow> few_quotes pp qs \<Longrightarrow> few_quotes pp qs'"
  by (auto simp: pure_apply_order_price_modifiers_def pure_order_optimization_def apply_add_transaction_costs_def err_simps
      few_quotes_def optimize_length split: if_splits)

lemma skew_few: "few_quotes pp qs \<Longrightarrow> few_quotes pp (apply_inventory_skew pp pe s qs)"
  by (simp add: apply_inventory_skew_def few_quotes_def Let_def split: option.split prod.split)

lemma fund_buys_length: "fund_buys pe q xs = Inr ys \<Longrightarrow> length ys = length xs"
  by (induction pe q xs arbitrary: ys rule: fund_buys.induct) (auto simp: Let_def err_simps split: if_splits)

lemma fund_sells_length: "length (fund_sells pe b xs) = length xs"
  by (induction pe b xs rule: fund_sells.induct) auto

lemma budget_few: "pure_apply_budget_constraint pp pe s qs = Inr qs' \<Longrightarrow> few_quotes pp qs \<Longrightarrow> few_quotes pp qs'"
  by (auto simp: pure_apply_budget_constraint_def few_quotes_def err_simps dest!: fund_buys_length split: prod.splits
      intro!: order_trans[OF length_filter_le] simp: fund_sells_length)

lemma takers_few: "few_quotes pp qs \<Longrightarrow> few_quotes pp (pure_filter_out_takers pe qs)"
  by (auto simp: pure_filter_out_takers_def few_quotes_def split: option.split intro: order_trans[OF length_filter_le])

text \<open>The stages of a proposal.\<close>

lemma pure_proposal_stages:
  assumes "pure_proposal pp pe s = (Inr qs, s')"
  obtains qs0 qs1 qs2 qs3 qs4 where "pure_base_proposal pp pe s = Inr qs0"
    "apply_order_levels_modifiers pp pe qs0 s = (Inr qs1, s')" "pure_apply_order_price_modifiers pp pe s' qs1 = Inr qs2"
    "qs3 = (if pp_inventory_skew_enabled pp then apply_inventory_skew pp pe s' qs2 else qs2)"
    "pure_apply_budget_constraint pp pe s' qs3 = Inr qs4"
    "qs = (if pp_take_if_crossed pp then qs4 else pure_filter_out_takers pe qs4)"
  using assms unfolding pure_proposal_def by (auto dest!: and_then_Inr)

lemma pure_proposal_few:
  assumes "pure_proposal pp pe s = (Inr qs, s')"
  shows "few_quotes pp qs"
proof -
  obtain qs0 qs1 qs2 qs3 qs4 where st: "pure_base_proposal pp pe s = Inr qs0"
    "apply_order_levels_modifiers pp pe qs0 s = (Inr qs1, s')" "pure_apply_order_price_modifiers pp pe s' qs1 = Inr qs2"
    "qs3 = (if pp_inventory_skew_enabled pp then apply_inventory_skew pp pe s' qs2 else qs2)"
    "pure_apply_budget_constraint pp pe s' qs3 = Inr qs4"
    "qs = (if pp_take_if_crossed pp then qs4 else pure_filter_out_takers pe qs4)"
    using pure_proposal_stages[OF assms] by blast
  have "few_quotes pp qs2" using base_proposal_few[OF st(1)] levels_few[OF st(2)] price_modifiers_few[OF st(3)] by blast
  then have "few_quotes pp qs3" using st(4) by (simp add: skew_few)
  then show ?thesis using budget_few[OF st(5)] st(6) by (simp add: takers_few)
qed

subsection \<open>Without hanging orders\<close>

definition nothing_hanging :: "hanging_orders \<Rightarrow> bool" where
  "nothing_hanging h \<longleftrightarrow> ho_current h = [] \<and> ho_original h = [] \<and> ho_pairs h = [] \<and> ho_being_renewed h = []"

definition same_hanging :: "pure_state \<Rightarrow> pure_state \<Rightarrow> bool" where
  "same_hanging s s' \<longleftrightarrow> (nothing_hanging (ms_hanging s) \<longrightarrow> ms_hanging s' = ms_hanging s)"

lemma same_hanging_fields [simp]:
  "same_hanging s s"
  "same_hanging s (s1\<lparr>pu_all_markets_ready := b\<rparr>) \<longleftrightarrow> same_hanging s s1"
  "same_hanging s (s1\<lparr>pu_price_band := pb\<rparr>) \<longleftrightarrow> same_hanging s s1"
  "same_hanging s (s1\<lparr>pu_filled_buys_balance := n, pu_filled_sells_balance := m\<rparr>) \<longleftrightarrow> same_hanging s s1"
  by (simp_all add: same_hanging_def)

lemma same_hanging_cancel: "same_hanging s s1 \<Longrightarrow> same_hanging s (pure_cancel pp x s1)"
  by (auto simp: same_hanging_def pure_cancel_def send_cancel_def split: prod.split)

lemma same_hanging_fold:
  assumes "\<And>x s1. same_hanging s s1 \<Longrightarrow> same_hanging s (f x s1)" "same_hanging s s1"
  shows "same_hanging s (fold f xs s1)"
  using assms(2) by (induction xs arbitrary: s1) (simp_all add: assms(1))

lemma nothing_hanging_tick:
  assumes "nothing_hanging (ms_hanging s)"
  shows "hanging_process_tick he price s = (Inr (), s)" "update_strategy_orders_with_equivalent_orders he s = (Inr (), s)"
  using assms
  by (simp_all add: nothing_hanging_def hanging_process_tick_def remove_orders_far_from_price_def past_max_age_def hg_union_def
      renew_hanging_orders_past_max_order_age_def cancel_multiple_orders_in_strategy_def upd_hanging_def map_filter_simps
      update_strategy_orders_eq equivalent_orders_def hg_minus_def candidate_hanging_orders_from_pairs_def
      add_hanging_orders_based_on_partially_executed_pairs_def Let_def split: option.split)

lemma same_hanging_process_tick: "same_hanging s s1 \<Longrightarrow> leaves (same_hanging s) (hanging_process_tick he price s1)"
  by (cases "nothing_hanging (ms_hanging s)") (simp_all add: same_hanging_def nothing_hanging_tick leaves_def)

lemma same_hanging_max_age: "same_hanging s s1 \<Longrightarrow> same_hanging s (cancel_active_orders_on_max_age_limit pp s1)"
  using same_hanging_fold[of s "pure_cancel pp" s1] same_hanging_cancel
  by (simp add: cancel_active_orders_on_max_age_limit_def Let_def)

lemma same_hanging_cancel_active:
  assumes "same_hanging s s1"
  shows "leaves (same_hanging s) (pure_cancel_active_orders pp proposal s1)"
proof (cases "nothing_hanging (ms_hanging s)")
  case True
  then have "nothing_hanging (ms_hanging s1)" using assms by (simp add: same_hanging_def)
  then show ?thesis
    using assms unfolding pure_cancel_active_orders_def Let_def
    by (auto intro!: leaves_and_then same_hanging_fold same_hanging_cancel simp: nothing_hanging_tick)
qed (simp add: same_hanging_def leaves_def)

lemma same_hanging_below_spread: "same_hanging s s1 \<Longrightarrow> leaves (same_hanging s) (cancel_below_spread pp price xs s1)"
proof (induction xs arbitrary: s1)
  case (Cons x xs)
  then show ?case by (auto simp: same_hanging_cancel split: option.split intro!: leaves_and_then)
qed simp

lemma same_hanging_proposal: "same_hanging s s1 \<Longrightarrow> leaves (same_hanging s) (pure_proposal pp pe s1)"
  unfolding pure_proposal_def apply_order_levels_modifiers_def
  by (auto intro!: leaves_and_then simp: apply_moving_price_band_def apply_ping_pong_def Let_def)

subsection \<open>Ticks\<close>

definition calm :: "pure_state \<Rightarrow> pure_state \<Rightarrow> bool" where
  "calm s s' \<longleftrightarrow> no_orders s s' \<and> same_hanging s s'"

lemma calm_stages:
  assumes "calm s s1"
  shows "leaves (calm s) (pure_proposal pp pe s1)" "leaves (calm s) (hanging_process_tick he price s1)"
    "leaves (calm s) (pure_cancel_active_orders pp proposal (cancel_active_orders_on_max_age_limit pp s1))"
    "leaves (calm s) (pure_cancel_orders_below_min_spread pp pe s1)"
  using assms no_orders_proposal[of s s1 pp pe] same_hanging_proposal[of s s1 pp pe]
    no_orders_process_tick[of s s1 he price] same_hanging_process_tick[of s s1 he price]
    no_orders_cancel_active[OF no_orders_max_age, of s s1 pp proposal pp]
    same_hanging_cancel_active[OF same_hanging_max_age, of s s1 pp proposal pp]
    no_orders_below_spread[of s s1] same_hanging_below_spread[of s s1]
  by (auto simp: calm_def leaves_def pure_cancel_orders_below_min_spread_def)

lemma calm_fields [simp]: "calm s (s1\<lparr>pu_all_markets_ready := b\<rparr>) \<longleftrightarrow> calm s s1" "calm s s"
  by (simp_all add: calm_def)

lemma and_then_cases:
  "and_then r f = (b, s') \<Longrightarrow> (\<exists>e. r = (Inl e, s') \<and> b = Inl e) \<or> (\<exists>a s. r = (Inr a, s) \<and> f a s = (b, s'))"
  by (auto simp: and_then_def split: prod.splits sum.splits)

text \<open>A tick sends cancels only, and then possibly executes the proposal it has made.\<close>

lemma pure_tick_cases:
  assumes "pure_tick pp pe s = (r, s')"
  defines "s0 \<equiv> (upd_orders (orders_tick (pe_timestamp pe)) s)"
  obtains (calm) s1 where "calm s0 s1" "s' = s1\<lparr>pu_last_timestamp := pe_timestamp pe\<rparr>"
  | (placed) b qs s1 s2 s3 where "calm s0 s1" "pure_proposal pp pe (s0\<lparr>pu_all_markets_ready := b\<rparr>) = (Inr qs, s2)"
      "pure_to_create_orders pp (Some qs) s1" "pure_execute_orders_proposal pp qs s1 = (r, s3)"
      "s' = s3\<lparr>pu_last_timestamp := pe_timestamp pe\<rparr>"
proof -
  let ?b = "pu_all_markets_ready s0 \<or> (pe_markets_ready pe \<and> pe_delegate_ready pe)"
  let ?s = "s0\<lparr>pu_all_markets_ready := ?b\<rparr>"
  obtain s'' where body: "pure_tick_body pp pe s0 = (r, s'')" "s' = s''\<lparr>pu_last_timestamp := pe_timestamp pe\<rparr>"
    using assms by (auto simp: pure_tick_def split: prod.splits)
  define first where "first = (if pu_create_timestamp ?s \<le> now_of ?s then and_then (pure_proposal pp pe ?s) (\<lambda>qs s. (Inr (Some qs), s))
      else (Inr None, ?s))"
  define rest where "rest proposal s = (and_then (hanging_process_tick (pure_hanging pp) (pure_get_price pp pe s) s) (\<lambda>u s.
      and_then (pure_cancel_active_orders pp proposal (cancel_active_orders_on_max_age_limit pp s)) (\<lambda>u s.
        pure_cancel_orders_below_min_spread pp pe s)))" for proposal s
  define last' where "last' proposal s = (case proposal of
      Some qs \<Rightarrow> if pure_to_create_orders pp proposal s then pure_execute_orders_proposal pp qs s else (Inr (), s)
    | None \<Rightarrow> (Inr (), s))" for proposal s
  have split: "(if \<not> pu_all_markets_ready ?s then (Inr (), ?s)
      else and_then first (\<lambda>proposal s. and_then (rest proposal s) (\<lambda>u s. last' proposal s))) = (r, s'')"
    using body(1) unfolding pure_tick_body_def Let_def first_def rest_def last'_def by (simp only: and_then_assoc)
  have "leaves (calm s0) first" unfolding first_def by (auto intro!: leaves_and_then calm_stages(1))
  moreover have "leaves (calm s0) (rest proposal s1)" if "calm s0 s1" for proposal s1
    unfolding rest_def using that by (auto intro!: leaves_and_then calm_stages)
  ultimately have first: "leaves (calm s0) first"
    and rest: "\<And>proposal s1. calm s0 s1 \<Longrightarrow> leaves (calm s0) (rest proposal s1)" by blast+
  consider "calm s0 s''" | proposal s1 s2 where "first = (Inr proposal, s1)" "rest proposal s1 = (Inr (), s2)" "calm s0 s2"
    "last' proposal s2 = (r, s'')"
  proof (cases "pu_all_markets_ready ?s")
    case False
    then have "s'' = ?s" using split by (simp only: not_False_eq_True if_True prod.inject)
    then show thesis using that(1) by simp
  next
    case True
    then have "and_then first (\<lambda>proposal s. and_then (rest proposal s) (\<lambda>u s. last' proposal s)) = (r, s'')"
      using split by (simp only: not_True_eq_False if_False)
    from and_then_cases[OF this] show thesis
    proof (elim disjE exE conjE)
      fix e assume "first = (Inl e, s'')"
      then show thesis using that(1) first by simp
    next
      fix proposal s1 assume f: "first = (Inr proposal, s1)" and "and_then (rest proposal s1) (\<lambda>u s. last' proposal s) = (r, s'')"
      then have "calm s0 s1" using first by simp
      note calm1 = rest[OF this, of proposal]
      show thesis
        using and_then_cases[OF \<open>and_then (rest proposal s1) (\<lambda>u s. last' proposal s) = (r, s'')\<close>] calm1 that(1) that(2)[OF f]
        by auto
    qed
  qed
  then show thesis
  proof cases
    case 1
    then show thesis using calm body(2) by blast
  next
    case 2
    show thesis
    proof (cases "s'' = s2")
      case True
      then show thesis using calm 2(3) body(2) by blast
    next
      case False
      then obtain qs where qs: "proposal = Some qs" "pure_to_create_orders pp (Some qs) s2" "pure_execute_orders_proposal pp qs s2 = (r, s'')"
        using 2(4) by (auto simp: last'_def split: option.splits if_splits)
      have "pure_proposal pp pe ?s = (Inr qs, s1)"
        using 2(1) qs(1) by (auto simp: first_def split: if_splits dest!: and_then_Inr)
      then show thesis using placed[of s2 ?b qs s1 s''] 2(3) qs body(2) by blast
    qed
  qed
qed

subsection \<open>Generations of orders\<close>

lemma execute_requests:
  assumes "pure_execute_orders_proposal pp qs s = (r, s')"
  shows "\<exists>k1 k2. order_requests s' = order_requests s @ map (quote_request pp True) (take k1 (qs_buys qs)) @
      map (quote_request pp False) (take k2 (qs_sells qs)) \<and> grows pp (length (qs_buys qs) + length (qs_sells qs)) s s'"
proof -
  let ?pairs = "if pp_hanging_orders_enabled pp then min (length (qs_buys qs)) (length (qs_sells qs)) else 0"
  obtain r1 s1 where 1: "place_quotes pp True ?pairs 0 (qs_buys qs) s = (r1, s1)" by fastforce
  obtain r2 s2 where 2: "place_quotes pp False ?pairs 0 (qs_sells qs) s1 = (r2, s2)" by fastforce
  have timers: "order_requests (pure_set_timers pp s) = order_requests s" "grows pp n s s1 \<Longrightarrow> grows pp n s (pure_set_timers pp s1)"
    for s s1 n
    by (simp_all add: pure_set_timers_def Let_def order_requests_def grows_def now_of_def pure_active_orders_def active_orders_def)
  obtain k1 where k1: "order_requests s1 = order_requests s @ map (quote_request pp True) (take k1 (qs_buys qs))"
    "grows pp (length (qs_buys qs)) s s1"
    using place_quotes_requests[OF 1] by blast
  obtain k2 where k2: "order_requests s2 = order_requests s1 @ map (quote_request pp False) (take k2 (qs_sells qs))"
    "grows pp (length (qs_sells qs)) s1 s2"
    using place_quotes_requests[OF 2] by blast
  have both: "grows pp (length (qs_buys qs) + length (qs_sells qs)) s s2" by (rule grows_trans[OF k1(2) k2(2)])
  have "s' = s1 \<or> s' = s2 \<or> s' = pure_set_timers pp s2"
    using assms 1 2 by (auto simp: pure_execute_orders_proposal_def and_then_def Let_def split: sum.splits if_splits)
  then show ?thesis
  proof (elim disjE)
    assume "s' = s1"
    then show ?thesis using k1 grows_trans[OF k1(2) grows_refl[of pp "length (qs_sells qs)"]]
      by (intro exI[of _ k1] exI[of _ 0]) simp
  next
    assume "s' = s2"
    then show ?thesis using k1(1) k2(1) both by (intro exI[of _ k1] exI[of _ k2]) simp
  next
    assume "s' = pure_set_timers pp s2"
    then show ?thesis using k1(1) k2(1) both timers by (intro exI[of _ k1] exI[of _ k2]) simp
  qed
qed

lemma send_order_hanging: "ms_hanging (snd (send_order he b a ot p e s)) = ms_hanging s"
  by (auto simp: send_order_def Let_def split: sum.split)

lemma place_quotes_hanging: "ms_hanging (snd (place_quotes pp b 0 idx xs s)) = ms_hanging s"
proof (induction xs arbitrary: idx s)
  case (Cons x xs)
  then show ?case
    using send_order_hanging[of "pure_hanging pp" b "qt_size x" "pure_limit_type pp" "qt_price x" None s]
    by (auto simp: and_then_def split: prod.splits sum.splits)
qed simp

lemma execute_hanging:
  assumes "\<not> pp_hanging_orders_enabled pp" "pure_execute_orders_proposal pp qs s = (r, s')"
  shows "ms_hanging s' = ms_hanging s"
proof -
  obtain r1 s1 where 1: "place_quotes pp True 0 0 (qs_buys qs) s = (r1, s1)" by fastforce
  obtain r2 s2 where 2: "place_quotes pp False 0 0 (qs_sells qs) s1 = (r2, s2)" by fastforce
  have "ms_hanging s1 = ms_hanging s" "ms_hanging s2 = ms_hanging s1"
    using place_quotes_hanging[of pp True 0 "qs_buys qs" s] place_quotes_hanging[of pp False 0 "qs_sells qs" s1] 1 2 by simp_all
  moreover have "s' = s1 \<or> s' = s2 \<or> s' = pure_set_timers pp s2"
    using assms 1 2 by (auto simp: pure_execute_orders_proposal_def and_then_def Let_def split: sum.splits if_splits)
  ultimately show ?thesis by (auto simp: pure_set_timers_def Let_def)
qed

datatype pure_op =
    PureTick pure_env
  | PureFill order_fill
  | PureCompleted bool bool string order_type
  | PureCancelled bool string
  | PureFailed string order_type
  | PureExpired string

fun pure_step :: "pure_params \<Rightarrow> pure_op \<Rightarrow> pure_state \<Rightarrow> pure_state" where
  "pure_step pp (PureTick pe) s = snd (pure_tick pp pe s)"
| "pure_step pp (PureFill fill) s = snd (pure_did_fill_order pp fill s)"
| "pure_step pp (PureCompleted strategy_first is_buy i ot) s = snd (pure_order_completed pp strategy_first is_buy i ot s)"
| "pure_step pp (PureCancelled strategy_first i) s = snd (pure_order_cancelled pp strategy_first i s)"
| "pure_step pp (PureFailed i ot) s = upd_orders (did_fail_order_tracker i ot) s"
| "pure_step pp (PureExpired i) s = upd_orders (did_expire_order_tracker i) s"

definition one_generation :: "pure_params \<Rightarrow> pure_state \<Rightarrow> bool" where
  "one_generation pp s \<longleftrightarrow> length (pure_active_orders pp s) \<le> buy_bound pp + sell_bound pp \<and>
     (\<exists>t. \<forall>x \<in> set (pure_active_orders pp s). lo_creation_timestamp x = t)"

definition generation_inv :: "pure_params \<Rightarrow> pure_state \<Rightarrow> bool" where
  "generation_inv pp s \<longleftrightarrow> one_generation pp s \<and> nothing_hanging (ms_hanging s)"

text \<open>Steps that only end orders.\<close>

definition shrinks :: "pure_params \<Rightarrow> pure_state \<Rightarrow> pure_state \<Rightarrow> bool" where
  "shrinks pp s s' \<longleftrightarrow> length (pure_active_orders pp s') \<le> length (pure_active_orders pp s) \<and>
     set (pure_active_orders pp s') \<subseteq> set (pure_active_orders pp s)"

lemma shrinks_generation: "one_generation pp s \<Longrightarrow> shrinks pp s s' \<Longrightarrow> one_generation pp s'"
  by (auto simp: one_generation_def shrinks_def dest: subsetD)

lemma shrinks_fields [simp]:
  "shrinks pp s (upd_hanging f s1) \<longleftrightarrow> shrinks pp s s1"
  "shrinks pp s (s1\<lparr>pu_last_timestamp := t\<rparr>) \<longleftrightarrow> shrinks pp s s1"
  "shrinks pp s (s1\<lparr>pu_costs := c\<rparr>) \<longleftrightarrow> shrinks pp s s1"
  "shrinks pp s s"
  by (simp_all add: shrinks_def upd_hanging_def pure_active_orders_def active_orders_def)

lemma untrack_active:
  "length (pure_active mp (untrack_limit_order mpo i so)) \<le> length (pure_active mp so) \<and>
   set (pure_active mp (untrack_limit_order mpo i so)) \<subseteq> set (pure_active mp so)"
  by (auto simp: untrack_limit_order_def pure_active_def Let_def AList.delete_eq intro!: length_filter_le split: option.split)

lemma untrack_market_active [simp]: "pure_active mp (untrack_market_order mpo i so) = pure_active mp so"
  by (simp add: untrack_market_order_def pure_active_def Let_def split: option.split)

lemma tracker_events_active:
  "length (pure_active mp (did_complete_order_tracker i ot so)) \<le> length (pure_active mp so) \<and>
   set (pure_active mp (did_complete_order_tracker i ot so)) \<subseteq> set (pure_active mp so)"
  "length (pure_active mp (did_fail_order_tracker i ot so)) \<le> length (pure_active mp so) \<and>
   set (pure_active mp (did_fail_order_tracker i ot so)) \<subseteq> set (pure_active mp so)"
  "length (pure_active mp (did_cancel_order_tracker i so)) \<le> length (pure_active mp so) \<and>
   set (pure_active mp (did_cancel_order_tracker i so)) \<subseteq> set (pure_active mp so)"
  using untrack_active[of mp _ i so]
  by (auto simp: did_complete_order_tracker_def did_fail_order_tracker_def did_cancel_order_tracker_def Let_def split: option.split)

lemma shrinks_trans: "shrinks pp s s1 \<Longrightarrow> shrinks pp s1 s2 \<Longrightarrow> shrinks pp s s2"
  by (auto simp: shrinks_def)

lemma shrinks_events:
  "shrinks pp s (upd_orders (did_complete_order_tracker i ot) s)" "shrinks pp s (upd_orders (did_fail_order_tracker i ot) s)"
  "shrinks pp s (upd_orders (did_cancel_order_tracker i) s)" "shrinks pp s (upd_orders (did_expire_order_tracker i) s)"
  using tracker_events_active(1,2)[of "pp_market pp" i ot "st_orders (ms_strategy s)"]
    tracker_events_active(3)[of "pp_market pp" i "st_orders (ms_strategy s)"]
  by (auto simp: shrinks_def upd_orders_def pure_active_orders_def active_orders_def did_expire_order_tracker_def)

lemma shrinks_complete: "shrinks pp s (pure_did_complete_order pp b i s)"
  by (simp add: shrinks_def pure_did_complete_order_def Let_def pure_active_orders_def active_orders_def split: option.split)

lemma upd_orders_hanging [simp]: "ms_hanging (upd_orders f s) = ms_hanging s"
  by (simp add: upd_orders_def)

lemma pure_did_complete_hanging [simp]: "ms_hanging (pure_did_complete_order pp b i s) = ms_hanging s"
  by (simp add: pure_did_complete_order_def Let_def split: option.split)

lemma nothing_hanging_complete: "nothing_hanging h \<Longrightarrow> nothing_hanging (hanging_did_complete_order i b h)"
  by (simp add: nothing_hanging_def hanging_did_complete_order_def with_id_def)

lemma nothing_hanging_cancel:
  "nothing_hanging (ms_hanging s) \<Longrightarrow> hanging_did_cancel_order he i s =
    (Inr (), upd_hanging (\<lambda>h. h\<lparr>ho_being_cancelled := removeAll i (ho_being_cancelled h)\<rparr>) s)"
  by (simp add: nothing_hanging_def hanging_did_cancel_order_def process_cancel_as_part_of_renew_def with_id_def upd_hanging_def
      remove_original_def Let_def)

lemma nothing_hanging_cancelled [simp]: "nothing_hanging (h\<lparr>ho_being_cancelled := xs\<rparr>) \<longleftrightarrow> nothing_hanging h"
  by (simp add: nothing_hanging_def)

lemma upd_hanging_hanging [simp]: "ms_hanging (upd_hanging f s) = f (ms_hanging s)"
  by (simp add: upd_hanging_def)

lemma in_order_snd: "snd (in_order first f g s) = (if first then snd (g (snd (f s))) else snd (f (snd (g s))))"
  by (simp add: in_order_def split: prod.split)

lemma calm_active: "calm s s' \<Longrightarrow> pure_active_orders pp s' = pure_active_orders pp s"
  by (simp add: calm_def no_orders_def pure_active_orders_def active_orders_def pure_active_def)

lemma tick_active: "pure_active_orders pp (upd_orders (orders_tick t) s) = pure_active_orders pp s"
proof -
  have "so_limit_orders (cleanup_loop gc so) = so_limit_orders so" for gc so
    by (induction gc so rule: cleanup_loop.induct) (simp_all add: collect_shadow_def)
  then show ?thesis
    by (simp add: upd_orders_def orders_tick_def cleanup_shadow_records_def pure_active_orders_def active_orders_def pure_active_def)
qed

lemma create_orders_empty:
  "nothing_hanging (ms_hanging s) \<Longrightarrow> pure_to_create_orders pp p s \<Longrightarrow> pure_active_orders pp s = []"
  by (auto simp: pure_to_create_orders_def active_non_hanging_orders_def nothing_hanging_def is_potential_hanging_order_def
      is_order_id_in_hanging_orders_def)

lemma generation_tick:
  assumes "generation_inv pp s" "\<not> pp_hanging_orders_enabled pp" "pure_tick pp pe s = (r, s')"
  shows "generation_inv pp s'"
proof -
  let ?s0 = "upd_orders (orders_tick (pe_timestamp pe)) s"
  have inv0: "generation_inv pp ?s0" using assms(1) by (simp add: generation_inv_def one_generation_def tick_active)
  have calm_inv: "generation_inv pp s1" if "calm ?s0 s1" for s1
    using inv0 that calm_active[OF that, of pp] by (simp add: generation_inv_def one_generation_def calm_def same_hanging_def)
  have last_inv: "generation_inv pp (s1\<lparr>pu_last_timestamp := t\<rparr>) \<longleftrightarrow> generation_inv pp s1" for s1 t
    by (simp add: generation_inv_def one_generation_def pure_active_orders_def active_orders_def)
  from assms(3) show ?thesis
  proof (cases rule: pure_tick_cases)
    case (calm s1)
    then show ?thesis using calm_inv last_inv by simp
  next
    case (placed b qs s1 s2 s3)
    have inv1: "generation_inv pp s1" by (rule calm_inv[OF placed(1)])
    have none: "pure_active_orders pp s1 = []"
      using create_orders_empty[OF _ placed(3)] inv1 by (simp add: generation_inv_def)
    have "grows pp (length (qs_buys qs) + length (qs_sells qs)) s1 s3" using execute_requests[OF placed(4)] by blast
    moreover have "length (qs_buys qs) + length (qs_sells qs) \<le> buy_bound pp + sell_bound pp"
      using pure_proposal_few[OF placed(2)] by (simp add: few_quotes_def)
    ultimately have "one_generation pp s3" using none by (auto simp: grows_def one_generation_def)
    moreover have "ms_hanging s3 = ms_hanging s1" by (rule execute_hanging[OF assms(2) placed(4)])
    ultimately have "generation_inv pp s3" using inv1 by (simp add: generation_inv_def)
    then show ?thesis using placed(5) last_inv by simp
  qed
qed

lemma generation_step:
  assumes "generation_inv pp s" "\<not> pp_hanging_orders_enabled pp"
  shows "generation_inv pp (pure_step pp op s)"
proof (cases op)
  case (PureTick pe)
  then show ?thesis using generation_tick[OF assms] by (cases "pure_tick pp pe s") auto
next
  case (PureFill fill)
  have "shrinks pp s (pure_step pp op s)" "ms_hanging (pure_step pp op s) = ms_hanging s"
    using PureFill by (auto simp: pure_did_fill_order_def split: sum.split)
  then show ?thesis using assms by (auto simp: generation_inv_def shrinks_generation)
next
  case (PureCompleted first b i ot)
  let ?f = "\<lambda>s. upd_orders (did_complete_order_tracker i ot) (pure_did_complete_order pp b i s)"
  let ?g = "upd_hanging (hanging_did_complete_order i b) :: pure_state \<Rightarrow> pure_state"
  have f: "shrinks pp s1 (?f s1)" for s1 by (rule shrinks_trans[OF shrinks_complete shrinks_events(1)])
  have "shrinks pp s (pure_step pp op s)"
    using f[of s] f[of "?g s"] shrinks_trans[of pp s "?g s" "?f (?g s)"] PureCompleted
    by (simp add: pure_order_completed_def in_order_snd)
  moreover have "nothing_hanging (ms_hanging (pure_step pp op s))"
    using PureCompleted assms nothing_hanging_complete by (simp add: pure_order_completed_def in_order_snd generation_inv_def)
  ultimately show ?thesis using assms by (auto simp: generation_inv_def shrinks_generation)
next
  case (PureCancelled first i)
  let ?f = "upd_orders (did_cancel_order_tracker i) :: pure_state \<Rightarrow> pure_state"
  let ?g = "upd_hanging (\<lambda>h. h\<lparr>ho_being_cancelled := removeAll i (ho_being_cancelled h)\<rparr>) :: pure_state \<Rightarrow> pure_state"
  have h: "nothing_hanging (ms_hanging s)" using assms by (simp add: generation_inv_def)
  have eq: "pure_step pp op s = (if first then ?g (?f s) else ?f (?g s))"
    using PureCancelled h by (simp add: pure_order_cancelled_def in_order_snd nothing_hanging_cancel)
  have "shrinks pp s (pure_step pp op s)"
    using shrinks_events(3)[of pp s i] shrinks_events(3)[of pp "?g s" i] shrinks_trans[of pp s "?g s" "?f (?g s)"] eq by simp
  moreover have "nothing_hanging (ms_hanging (pure_step pp op s))" using h eq by simp
  ultimately show ?thesis using assms by (auto simp: generation_inv_def shrinks_generation)
next
  case (PureFailed i ot)
  then show ?thesis using assms shrinks_events(2)[of pp s i ot] by (auto simp: generation_inv_def shrinks_generation)
next
  case (PureExpired i)
  then show ?thesis using assms shrinks_events(4)[of pp s i] by (auto simp: generation_inv_def shrinks_generation)
qed

text \<open>
  C11: without hanging orders the strategy never has more than one generation of quotes in the market: whatever
  happened since it started, all its open orders were created at the same time, and there are at most as many
  as it has levels.
\<close>

theorem quotes_one_generation:
  assumes "pure_init_params pp pb costs = Inr s" "\<not> pp_hanging_orders_enabled pp"
  shows "one_generation pp (fold (pure_step pp) ops s)"
proof -
  have "generation_inv pp s"
    using assms(1) by (auto simp: pure_init_params_def generation_inv_def one_generation_def nothing_hanging_def new_hanging_orders_def
        pure_active_orders_def active_orders_def pure_active_def new_strategy_orders_def inner_def split: if_splits)
  then have "generation_inv pp (fold (pure_step pp) ops s)"
    by (induction ops arbitrary: s) (simp_all add: generation_step[OF _ assms(2)])
  then show ?thesis by (simp add: generation_inv_def)
qed

subsection \<open>Funding\<close>

text \<open>
  What is assumed of the market: amounts are rounded down, rounding does not make a price negative, quanta are positive,
  the prices of the book and of the reference are not negative, and no fee exceeds the value of an order.
\<close>

definition market_ok :: "pure_env \<Rightarrow> bool" where
  "market_ok pe \<longleftrightarrow> (\<forall>a p. 0 \<le> a \<longrightarrow> 0 \<le> pe_quantize_amount pe a p \<and> pe_quantize_amount pe a p \<le> a) \<and>
     (\<forall>p. 0 \<le> p \<longrightarrow> 0 \<le> pe_quantize_price pe p \<and> 0 < pe_price_quantum pe p) \<and>
     (\<forall>v p. pe_price_for_volume pe False v = Some p \<longrightarrow> 0 \<le> p) \<and> (\<forall>t a p. pe_fee_percent pe t BUY a p \<le> 1)"

definition reference_ok :: "pure_params \<Rightarrow> pure_env \<Rightarrow> pure_state \<Rightarrow> bool" where
  "reference_ok pp pe s \<longleftrightarrow> (\<forall>p. pure_get_price pp pe s = Some p \<longrightarrow> 0 \<le> p)"

definition buy_fee_is :: "pure_env \<Rightarrow> decimal \<Rightarrow> bool" where
  "buy_fee_is pe fee \<longleftrightarrow> 0 \<le> fee \<and> (\<forall>a p. pe_fee_percent pe LIMIT BUY a p = fee)"

definition quote_cost :: "decimal \<Rightarrow> quote \<Rightarrow> decimal" where
  "quote_cost fee x = qt_size x * qt_price x * (1 + fee)"

lemma fund_buys_cost:
  "fund_buys pe balance xs = Inr ys \<Longrightarrow> nonneg_quotes xs \<Longrightarrow> market_ok pe \<Longrightarrow> buy_fee_is pe fee \<Longrightarrow> 0 \<le> balance \<Longrightarrow>
    nonneg_quotes ys \<and> (\<Sum>y \<leftarrow> ys. quote_cost fee y) \<le> balance"
proof (induction pe balance xs arbitrary: ys rule: fund_buys.induct)
  case (1 pe balance)
  then show ?case by (simp add: nonneg_quotes_def)
next
  case (2 pe balance x xs)
  note fee = \<open>buy_fee_is pe fee\<close>
  have percent: "pe_fee_percent pe LIMIT BUY (qt_size x) (qt_price x) = fee" "0 \<le> fee" using fee by (simp_all add: buy_fee_is_def)
  have x: "0 \<le> qt_price x" "0 \<le> qt_size x" "nonneg_quotes xs" using 2(5) by (simp_all add: nonneg_quotes_def)
  let ?cost = "qt_size x * qt_price x * (1 + fee)"
  show ?case
  proof (cases "balance < ?cost")
    case True
    then obtain zs where zs: "fund_buys pe 0 xs = Inr zs" "qt_price x * (1 + fee) \<noteq> 0"
      "ys = x\<lparr>qt_size := pe_quantize_amount pe (balance / (qt_price x * (1 + fee))) 0\<rparr> # zs"
      using 2(4) percent by (auto simp: err_simps Let_def)
    have pos: "0 < qt_price x * (1 + fee)" using zs(2) x(1) percent(2) by (metis add_nonneg_nonneg less_eq_rat_def mult_nonneg_nonneg zero_le_one)
    let ?a = "pe_quantize_amount pe (balance / (qt_price x * (1 + fee))) 0"
    have a: "0 \<le> ?a" "?a \<le> balance / (qt_price x * (1 + fee))" using 2(6,8) pos by (simp_all add: market_ok_def)
    then have "?a * (qt_price x * (1 + fee)) \<le> balance" using pos by (simp add: pos_le_divide_eq)
    moreover have "nonneg_quotes zs \<and> (\<Sum>y \<leftarrow> zs. quote_cost fee y) \<le> 0"
      using 2(1)[OF refl refl _ zs(1)] True percent x(3) 2(6) fee by (simp add: refl)
    ultimately show ?thesis using zs(3) a(1) x(1) by (simp add: quote_cost_def nonneg_quotes_def mult.assoc)
  next
    case False
    note enough = this
    show ?thesis
    proof (cases "balance = 0")
      case True
      then obtain zs where zs: "fund_buys pe balance xs = Inr zs" "ys = x\<lparr>qt_size := 0\<rparr> # zs"
        using 2(4) enough percent by (auto simp: err_simps Let_def)
      have "nonneg_quotes zs \<and> (\<Sum>y \<leftarrow> zs. quote_cost fee y) \<le> balance"
        using 2(2)[OF refl refl _ _ zs(1)] True enough percent x(3) 2(6,8) fee by simp
      then show ?thesis using zs(2) x(1) by (simp add: quote_cost_def nonneg_quotes_def)
    next
      case False
      then obtain zs where zs: "fund_buys pe (balance - ?cost) xs = Inr zs" "ys = x # zs"
        using 2(4) enough percent by (auto simp: err_simps Let_def)
      have "nonneg_quotes zs \<and> (\<Sum>y \<leftarrow> zs. quote_cost fee y) \<le> balance - ?cost"
        using 2(3)[OF refl refl] zs(1) False enough percent x(3) 2(6) fee by simp
      then show ?thesis using zs(2) x by (simp add: quote_cost_def nonneg_quotes_def)
    qed
  qed
qed

lemma fund_sells_amount:
  "list_all (\<lambda>x. 0 \<le> qt_size x) xs \<Longrightarrow> market_ok pe \<Longrightarrow> 0 \<le> balance \<Longrightarrow>
    list_all (\<lambda>x. 0 \<le> qt_size x) (fund_sells pe balance xs) \<and> (\<Sum>y \<leftarrow> fund_sells pe balance xs. qt_size y) \<le> balance"
proof (induction pe balance xs rule: fund_sells.induct)
  case (2 pe balance x xs)
  have "0 \<le> pe_quantize_amount pe balance 0" "pe_quantize_amount pe balance 0 \<le> balance" using 2(5,6) by (simp_all add: market_ok_def)
  then show ?case using 2 by (auto simp: algebra_simps)
qed simp

lemma sum_filter_le:
  fixes f :: "'a \<Rightarrow> decimal"
  shows "list_all (\<lambda>x. 0 \<le> f x) xs \<Longrightarrow> (\<Sum>x \<leftarrow> filter P xs. f x) \<le> (\<Sum>x \<leftarrow> xs. f x)"
  by (induction xs) auto

lemma sum_take_le:
  fixes f :: "'a \<Rightarrow> decimal"
  shows "list_all (\<lambda>x. 0 \<le> f x) xs \<Longrightarrow> (\<Sum>x \<leftarrow> take n xs. f x) \<le> (\<Sum>x \<leftarrow> xs. f x)"
proof (induction xs arbitrary: n)
  case (Cons x xs)
  have "0 \<le> (\<Sum>x \<leftarrow> xs. f x)" using Cons.prems by (intro sum_list_nonneg) (auto simp: list_all_iff)
  then show ?case using Cons by (cases n) auto
qed simp

text \<open>The quotes that are left after the budget constraint and the filter of takers.\<close>

definition funded :: "decimal \<Rightarrow> decimal \<times> decimal \<Rightarrow> quotes \<Rightarrow> bool" where
  "funded fee balances qs \<longleftrightarrow> nonneg_quotes (qs_buys qs) \<and> list_all (\<lambda>x. 0 \<le> qt_size x) (qs_sells qs) \<and>
     (\<Sum>x \<leftarrow> qs_buys qs. quote_cost fee x) \<le> snd balances \<and> (\<Sum>x \<leftarrow> qs_sells qs. qt_size x) \<le> fst balances"

lemma nonneg_costs: "nonneg_quotes xs \<Longrightarrow> 0 \<le> fee \<Longrightarrow> list_all (\<lambda>x. 0 \<le> quote_cost fee x) xs"
  by (auto simp: nonneg_quotes_def quote_cost_def list_all_iff)

lemma funded_filter:
  assumes "funded fee balances qs" "0 \<le> fee"
  shows "funded fee balances \<lparr>qs_buys = filter P (qs_buys qs), qs_sells = filter Q (qs_sells qs)\<rparr>"
  using assms sum_filter_le[OF nonneg_costs, of "qs_buys qs" fee P] sum_filter_le[of qt_size "qs_sells qs" Q]
  by (auto simp: funded_def nonneg_quotes_def list_all_iff)

lemma budget_funded:
  assumes "pure_apply_budget_constraint pp pe s qs = Inr qs'" "nonneg_quotes (qs_buys qs)" "list_all (\<lambda>x. 0 \<le> qt_size x) (qs_sells qs)"
    "market_ok pe" "buy_fee_is pe fee" "0 \<le> fst (balance_for_budget pp pe s)" "0 \<le> snd (balance_for_budget pp pe s)"
  shows "funded fee (balance_for_budget pp pe s) qs'"
proof -
  obtain base quote where b: "balance_for_budget pp pe s = (base, quote)" by fastforce
  obtain buys where buys: "fund_buys pe quote (qs_buys qs) = Inr buys"
    "qs' = \<lparr>qs_buys = filter (\<lambda>x. 0 < qt_size x) buys, qs_sells = filter (\<lambda>x. 0 < qt_size x) (fund_sells pe base (qs_sells qs))\<rparr>"
    using assms(1) b by (auto simp: pure_apply_budget_constraint_def err_simps)
  have "funded fee (base, quote) \<lparr>qs_buys = buys, qs_sells = fund_sells pe base (qs_sells qs)\<rparr>"
    using fund_buys_cost[OF buys(1) assms(2,4,5)] fund_sells_amount[OF assms(3,4), of base] assms(6,7) b by (simp add: funded_def)
  from funded_filter[OF this] show ?thesis using assms(5) buys(2) b by (simp add: buy_fee_is_def)
qed

text \<open>The number of levels on the bid side, and what is assumed of their spreads: none reaches below zero.\<close>

definition bid_levels :: "pure_params \<Rightarrow> nat" where
  "bid_levels pp = (if pp_order_override pp = [] then pp_buy_levels pp else length (pp_order_override pp))"

definition spreads_ok :: "pure_params \<Rightarrow> bool" where
  "spreads_ok pp \<longleftrightarrow>
     (\<forall>n < bid_levels pp. pp_bid_spread pp + of_nat n * pp_order_level_spread pp \<le> 1 \<and> pp_order_level_spread pp * of_nat n \<le> 1) \<and>
     list_all (\<lambda>x. x \<le> 100) (pp_bid_order_level_spreads pp) \<and> (pp_inventory_skew_enabled pp \<longrightarrow> interpolates (pp_interp pp))"

definition sound_quotes :: "pure_params \<Rightarrow> quotes \<Rightarrow> bool" where
  "sound_quotes pp qs \<longleftrightarrow> nonneg_quotes (qs_buys qs) \<and> list_all (\<lambda>x. 0 \<le> qt_size x) (qs_sells qs) \<and> length (qs_buys qs) \<le> bid_levels pp"

lemma override_nonneg: "list_all (\<lambda>x. 0 \<le> qt_price x \<and> 0 \<le> qt_size x) (override_quotes pe b p xs)"
  "length (override_quotes pe b p xs) \<le> length xs"
  unfolding override_quotes_def
  by (cases p; auto intro!: list_all_map_filter simp: Let_def length_map_filter split: if_splits)+

lemma level_sizes: "list_all (\<lambda>x. 0 \<le> qt_size x) (level_quotes pp pe b p n)" "length (level_quotes pp pe b p n) \<le> n"
  unfolding level_quotes_def
  by (cases p; auto intro!: list_all_map_filter order_trans[OF length_map_filter] simp: Let_def split: if_splits)+

lemma bid_levels_nonneg:
  assumes "market_ok pe" "spreads_ok pp" "pp_order_override pp = []" "\<forall>r. p = Some r \<longrightarrow> 0 \<le> r"
  shows "list_all (\<lambda>x. 0 \<le> qt_price x \<and> 0 \<le> qt_size x) (level_quotes pp pe True p (pp_buy_levels pp))"
proof (cases p)
  case (Some r)
  have "0 \<le> pe_quantize_price pe (r * (1 - pp_bid_spread pp - of_nat n * pp_order_level_spread pp))" if "n < pp_buy_levels pp" for n
    using assms that Some by (simp add: market_ok_def spreads_ok_def bid_levels_def diff_diff_add)
  then show ?thesis unfolding level_quotes_def Some
    by (auto simp: List.map_filter_def list_all_iff Let_def split: if_splits)
qed (simp add: level_quotes_def)

lemma base_sound:
  assumes "pure_base_proposal pp pe s = Inr qs" "market_ok pe" "spreads_ok pp" "reference_ok pp pe s"
  shows "sound_quotes pp qs"
proof (cases "pp_order_override pp = []")
  case True
  then obtain sell where "qs = \<lparr>qs_buys = level_quotes pp pe True (pure_get_price pp pe s) (pp_buy_levels pp),
      qs_sells = level_quotes pp pe False sell (pp_sell_levels pp)\<rparr>"
    using assms(1) by (auto simp: pure_base_proposal_def Let_def err_simps)
  moreover have "list_all (\<lambda>x. 0 \<le> qt_price x \<and> 0 \<le> qt_size x) (level_quotes pp pe True (pure_get_price pp pe s) (pp_buy_levels pp))"
    using bid_levels_nonneg[OF assms(2,3) True] assms(4) by (simp add: reference_ok_def)
  ultimately show ?thesis using True level_sizes by (auto simp: sound_quotes_def nonneg_quotes_def bid_levels_def list_all_iff)
next
  case False
  then show ?thesis using assms(1) override_nonneg
    by (auto simp: pure_base_proposal_def Let_def err_simps sound_quotes_def nonneg_quotes_def bid_levels_def list_all_iff)
qed

lemma drop_sound: "sound_quotes pp qs \<Longrightarrow> sound_quotes pp (drop_sells a (drop_buys b qs))"
  by (auto simp: sound_quotes_def drop_sells_def drop_buys_def nonneg_quotes_def)

lemma list_all_drop: "list_all P xs \<Longrightarrow> list_all P (drop n xs)"
  by (auto simp: list_all_iff dest: in_set_dropD)

lemma ping_pong_sound: "apply_ping_pong qs s = (qs', s') \<Longrightarrow> sound_quotes pp qs \<Longrightarrow> sound_quotes pp qs'"
  by (auto simp: apply_ping_pong_def Let_def sound_quotes_def nonneg_quotes_def intro: list_all_drop)

lemma levels_sound:
  assumes "apply_order_levels_modifiers pp pe qs s = (Inr qs', s')" "sound_quotes pp qs"
  shows "sound_quotes pp qs' \<and> ms_strategy s' = ms_strategy s \<and> ms_hanging s' = ms_hanging s"
proof -
  obtain qs1 where 1: "pure_apply_price_band pp pe s qs = Inr qs1"
    using and_then_Inr[OF assms(1)[unfolded apply_order_levels_modifiers_def]] by auto
  then have qs1: "sound_quotes pp qs1" using assms(2) by (auto simp: pure_apply_price_band_def err_simps drop_sound)
  have band: "sound_quotes pp qs2 \<and> ms_strategy s2 = ms_strategy s \<and> ms_hanging s2 = ms_hanging s"
    if "apply_moving_price_band pp pe qs1 s = (Inr qs2, s2)" for qs2 s2
    using that qs1 by (auto simp: apply_moving_price_band_def Let_def err_simps drop_sound)
  have pong: "sound_quotes pp qs3 \<and> ms_strategy s3 = ms_strategy s2 \<and> ms_hanging s3 = ms_hanging s2"
    if "apply_ping_pong qs2 s2 = (qs3, s3)" "sound_quotes pp qs2" for qs2 s2 qs3 s3
    using that ping_pong_sound[OF that] by (auto simp: apply_ping_pong_def Let_def split: if_splits)
  have "and_then (if pb_enabled (pu_price_band s) then apply_moving_price_band pp pe qs1 s else (Inr qs1, s)) (\<lambda>qs2 s2.
      if pp_ping_pong_enabled pp then (let (qs3, s3) = apply_ping_pong qs2 s2 in (Inr qs3, s3)) else (Inr qs2, s2)) = (Inr qs', s')"
    using assms(1) 1 by (simp add: apply_order_levels_modifiers_def)
  from and_then_Inr[OF this]
  obtain qs2 s2 where 2: "(if pb_enabled (pu_price_band s) then apply_moving_price_band pp pe qs1 s else (Inr qs1, s)) = (Inr qs2, s2)"
    "(if pp_ping_pong_enabled pp then (let (qs3, s3) = apply_ping_pong qs2 s2 in (Inr qs3, s3)) else (Inr qs2, s2)) = ((Inr qs', s') :: (pure_state, quotes) outcome)"
    by blast
  have "sound_quotes pp qs2 \<and> ms_strategy s2 = ms_strategy s \<and> ms_hanging s2 = ms_hanging s"
    using 2(1) band qs1 by (auto split: if_splits)
  then show ?thesis using 2(2) pong[of qs2 s2] by (auto split: if_splits prod.splits)
qed

lemma skew_ratios_nonneg:
  assumes "interpolates interp"
    "calculate_bid_ask_ratios_from_base_asset_ratio interp b q p t r = (bid, ask)"
  shows "0 \<le> bid \<and> 0 \<le> ask"
proof -
  have i: "interp x (0, 1 / 2) (2, 1) = 2 - clamp (x / (1 / 2))" "interp x (1 / 2, 1) (1, 0) = 1 - clamp ((x - 1 / 2) / (1 - 1 / 2))" for x
    using assms(1) by (simp_all add: interpolates_def)
  have c: "0 \<le> clamp x \<and> clamp x \<le> 1" for x by (simp add: clamp_half)
  have "0 \<le> interp x (0, 1 / 2) (2, 1) \<and> interp x (0, 1 / 2) (2, 1) \<le> 2"
    "0 \<le> interp x (1 / 2, 1) (1, 0) \<and> interp x (1 / 2, 1) (1, 0) \<le> 2" for x
    using c[of "x / (1 / 2)"] c[of "(x - 1 / 2) / (1 - 1 / 2)"] unfolding i by linarith+
  then show ?thesis
    using assms(2) by (auto simp: calculate_bid_ask_ratios_from_base_asset_ratio_def Let_def split: if_splits)
qed

lemma skew_sound:
  assumes "sound_quotes pp qs" "interpolates (pp_interp pp)" "market_ok pe"
  shows "sound_quotes pp (apply_inventory_skew pp pe s qs)"
proof (cases "pure_get_price pp pe s")
  case None
  then show ?thesis using assms(1) by (simp add: apply_inventory_skew_def)
next
  case (Some price)
  obtain base quote where bal: "get_adjusted_available_balance pp pe (pure_active_orders pp s) = (base, quote)" by fastforce
  let ?size = "calculate_total_order_size (pp_order_amount pp) (pp_order_level_amount pp) (pp_order_levels pp)"
  obtain bid ask where r: "calculate_bid_ask_ratios_from_base_asset_ratio (pp_interp pp) base quote price
      (pp_inventory_target_base_pct pp) (?size * pp_inventory_range_multiplier pp) = (bid, ask)" by fastforce
  have "0 \<le> bid" "0 \<le> ask" using skew_ratios_nonneg[OF assms(2) r] by simp_all
  then show ?thesis
    using assms(1,3) Some bal r
    by (auto simp: apply_inventory_skew_def Let_def sound_quotes_def nonneg_quotes_def list_all_iff market_ok_def)
qed

lemma level_price_nonneg:
  assumes "level_price pp True price i = Inr p" "0 \<le> price" "spreads_ok pp" "i < bid_levels pp"
  shows "0 \<le> p"
proof (cases "pp_split_order_levels_enabled pp")
  case True
  let ?spreads = "pp_bid_order_level_spreads pp"
  have i: "i < length ?spreads" "p = price * (1 - ?spreads ! i / 100) / (1 - ?spreads ! 0 / 100)"
    using assms(1) True by (auto simp: level_price_def Let_def err_simps split: if_splits)
  have "?spreads ! n \<le> 100" if "n \<le> i" for n using assms(3) i(1) that by (auto simp: spreads_ok_def list_all_iff)
  then have "?spreads ! i \<le> 100" "?spreads ! 0 \<le> 100" by simp_all
  then show ?thesis using assms(2) by (auto simp: i(2) intro!: divide_nonneg_nonneg mult_nonneg_nonneg)
next
  case False
  then show ?thesis using assms by (auto simp: level_price_def Let_def spreads_ok_def)
qed

lemma set_level_prices_sound:
  assumes "set_level_prices pp b price i xs = Inr ys"
  shows "length ys = length xs" "list_all (\<lambda>x. 0 \<le> qt_size x) xs \<Longrightarrow> list_all (\<lambda>x. 0 \<le> qt_size x) ys"
    "b \<Longrightarrow> 0 \<le> price \<Longrightarrow> spreads_ok pp \<Longrightarrow> i + length xs \<le> bid_levels pp \<Longrightarrow> list_all (\<lambda>x. 0 \<le> qt_price x) ys"
proof -
  have "length ys = length xs \<and> (list_all (\<lambda>x. 0 \<le> qt_size x) xs \<longrightarrow> list_all (\<lambda>x. 0 \<le> qt_size x) ys) \<and>
    (b \<and> 0 \<le> price \<and> spreads_ok pp \<and> i + length xs \<le> bid_levels pp \<longrightarrow> list_all (\<lambda>x. 0 \<le> qt_price x) ys)"
    using assms
  proof (induction xs arbitrary: i ys)
    case (Cons x xs)
    obtain p zs where p: "level_price pp b price i = Inr p" "set_level_prices pp b price (Suc i) xs = Inr zs" "ys = x\<lparr>qt_price := p\<rparr> # zs"
      using Cons.prems by (auto simp: err_simps)
    show ?case using Cons.IH[OF p(2)] p(1,3) level_price_nonneg[of pp price i p] by auto
  qed simp
  then show "length ys = length xs" "list_all (\<lambda>x. 0 \<le> qt_size x) xs \<Longrightarrow> list_all (\<lambda>x. 0 \<le> qt_size x) ys"
    "b \<Longrightarrow> 0 \<le> price \<Longrightarrow> spreads_ok pp \<Longrightarrow> i + length xs \<le> bid_levels pp \<Longrightarrow> list_all (\<lambda>x. 0 \<le> qt_price x) ys" by simp_all
qed

lemma next_price_nonneg:
  assumes "price_next_to pe True v = Inr p" "market_ok pe"
  shows "0 \<le> p"
proof -
  obtain best where best: "pe_price_for_volume pe False v = Some best" "p = of_int (\<lceil>best / pe_price_quantum pe best\<rceil> + 1) * pe_price_quantum pe best"
    using assms(1) by (auto simp: price_next_to_def err_simps split: option.splits)
  have pos: "0 \<le> best" "0 < pe_price_quantum pe best" using assms(2) best(1) by (auto simp: market_ok_def)
  then have "0 \<le> \<lceil>best / pe_price_quantum pe best\<rceil>" by (simp add: le_ceiling_iff less_le_trans[of _ 0])
  then show ?thesis using pos(2) by (simp add: best(2))
qed

lemma optimize_side_sound:
  assumes "optimize_side pp pe s b xs = Inr ys" "list_all (\<lambda>x. 0 \<le> qt_size x) xs"
  shows "length ys = length xs" "list_all (\<lambda>x. 0 \<le> qt_size x) ys"
    "b \<Longrightarrow> market_ok pe \<Longrightarrow> spreads_ok pp \<Longrightarrow> length xs \<le> bid_levels pp \<Longrightarrow> list_all (\<lambda>x. 0 \<le> qt_price x) xs \<Longrightarrow> list_all (\<lambda>x. 0 \<le> qt_price x) ys"
proof -
  let ?ys = "sort_key (\<lambda>x. if b then - qt_price x else qt_price x) xs"
  have "length ys = length xs \<and> list_all (\<lambda>x. 0 \<le> qt_size x) ys \<and>
    (b \<and> market_ok pe \<and> spreads_ok pp \<and> length xs \<le> bid_levels pp \<and> list_all (\<lambda>x. 0 \<le> qt_price x) xs \<longrightarrow> list_all (\<lambda>x. 0 \<le> qt_price x) ys)"
  proof (cases "xs = []")
    case False
    obtain v next_price where run: "price_next_to pe b v = Inr next_price"
        "set_level_prices pp b (pe_quantize_price pe ((if b then min else max) (qt_price (hd ?ys)) next_price)) 0 ?ys = Inr ys"
      using assms(1) False by (auto simp: optimize_side_def Let_def err_simps)
    have sizes: "list_all (\<lambda>x. 0 \<le> qt_size x) ?ys" using assms(2) by (simp add: list_all_iff)
    have "hd ?ys \<in> set xs" using False by (metis hd_in_set length_0_conv length_sort set_sort)
    then have "0 \<le> pe_quantize_price pe (min (qt_price (hd ?ys)) next_price)" if "b" "market_ok pe" "list_all (\<lambda>x. 0 \<le> qt_price x) xs"
      using that run(1) next_price_nonneg[of pe v next_price] by (simp add: market_ok_def list_all_iff)
    then show ?thesis using set_level_prices_sound[OF run(2)] sizes by simp
  qed (use assms(1) in \<open>simp add: optimize_side_def\<close>)
  then show "length ys = length xs" "list_all (\<lambda>x. 0 \<le> qt_size x) ys"
    "b \<Longrightarrow> market_ok pe \<Longrightarrow> spreads_ok pp \<Longrightarrow> length xs \<le> bid_levels pp \<Longrightarrow> list_all (\<lambda>x. 0 \<le> qt_price x) xs \<Longrightarrow> list_all (\<lambda>x. 0 \<le> qt_price x) ys"
    by simp_all
qed

lemma price_modifiers_sound:
  assumes "pure_apply_order_price_modifiers pp pe s qs = Inr qs'" "sound_quotes pp qs" "market_ok pe" "spreads_ok pp"
  shows "sound_quotes pp qs'"
proof -
  obtain qs1 where run: "(if pp_order_optimization_enabled pp then pure_order_optimization pp pe s qs else Inr qs) = Inr qs1"
      "qs' = (if pp_add_transaction_costs pp then apply_add_transaction_costs pp pe qs1 else qs1)"
    using assms(1) by (auto simp: pure_apply_order_price_modifiers_def err_simps)
  have sound: "sound_quotes pp qs1"
  proof (cases "pp_order_optimization_enabled pp")
    case True
    then obtain buys sells where opt: "optimize_side pp pe s True (qs_buys qs) = Inr buys" "optimize_side pp pe s False (qs_sells qs) = Inr sells"
        "qs1 = \<lparr>qs_buys = buys, qs_sells = sells\<rparr>"
      using run(1) by (auto simp: pure_order_optimization_def err_simps)
    have "list_all (\<lambda>x. 0 \<le> qt_size x) (qs_buys qs)" "list_all (\<lambda>x. 0 \<le> qt_price x) (qs_buys qs)" "list_all (\<lambda>x. 0 \<le> qt_size x) (qs_sells qs)"
      "length (qs_buys qs) \<le> bid_levels pp"
      using assms(2) by (auto simp: sound_quotes_def nonneg_quotes_def list_all_iff)
    then show ?thesis
      using optimize_side_sound[OF opt(1)] optimize_side_sound[OF opt(2)] assms(3,4) opt(3)
      by (auto simp: sound_quotes_def nonneg_quotes_def list_all_iff)
  qed (use run(1) assms(2) in simp)
  have "0 \<le> qt_price (add_costs pp pe True x)" if "0 \<le> qt_price x" for x
    using assms(3) that by (simp add: add_costs_def Let_def market_ok_def)
  then show ?thesis
    using sound run(2) by (auto simp: apply_add_transaction_costs_def sound_quotes_def nonneg_quotes_def list_all_iff) (simp_all add: add_costs_def Let_def)
qed

definition balances_nonneg :: "decimal \<times> decimal \<Rightarrow> bool" where
  "balances_nonneg b \<longleftrightarrow> 0 \<le> fst b \<and> 0 \<le> snd b"

definition not_crossing :: "pure_env \<Rightarrow> quotes \<Rightarrow> bool" where
  "not_crossing pe qs \<longleftrightarrow>
     (case pe_get_price pe True of None \<Rightarrow> True | Some ask \<Rightarrow> list_all (\<lambda>x. qt_price x < ask) (qs_buys qs)) \<and>
     (case pe_get_price pe False of None \<Rightarrow> True | Some bid \<Rightarrow> list_all (\<lambda>x. bid < qt_price x) (qs_sells qs))"

lemma takers_passive: "not_crossing pe (pure_filter_out_takers pe qs)"
  by (auto simp: not_crossing_def pure_filter_out_takers_def list_all_iff split: option.split)

lemma takers_funded:
  assumes "funded fee b qs" "0 \<le> fee"
  shows "funded fee b (pure_filter_out_takers pe qs)"
proof -
  have "pure_filter_out_takers pe qs =
    \<lparr>qs_buys = filter (\<lambda>x. case pe_get_price pe True of None \<Rightarrow> True | Some a \<Rightarrow> qt_price x < a) (qs_buys qs),
     qs_sells = filter (\<lambda>x. case pe_get_price pe False of None \<Rightarrow> True | Some a \<Rightarrow> a < qt_price x) (qs_sells qs)\<rparr>"
    by (simp add: pure_filter_out_takers_def split: option.split)
  then show ?thesis by (simp only: funded_filter[OF assms])
qed

lemma proposal_sound:
  assumes "pure_proposal pp pe s = (Inr qs, s')" "market_ok pe" "buy_fee_is pe fee" "spreads_ok pp"
    "balances_nonneg (balance_for_budget pp pe s)" "reference_ok pp pe s"
  shows "funded fee (balance_for_budget pp pe s) qs \<and> (pp_take_if_crossed pp \<or> not_crossing pe qs)"
proof -
  obtain qs0 qs1 qs2 qs3 qs4 where st: "pure_base_proposal pp pe s = Inr qs0"
    "apply_order_levels_modifiers pp pe qs0 s = (Inr qs1, s')" "pure_apply_order_price_modifiers pp pe s' qs1 = Inr qs2"
    "qs3 = (if pp_inventory_skew_enabled pp then apply_inventory_skew pp pe s' qs2 else qs2)"
    "pure_apply_budget_constraint pp pe s' qs3 = Inr qs4"
    "qs = (if pp_take_if_crossed pp then qs4 else pure_filter_out_takers pe qs4)"
    using pure_proposal_stages[OF assms(1)] by blast
  have fee: "0 \<le> fee" using assms(3) by (simp add: buy_fee_is_def)
  have lv: "sound_quotes pp qs1" "ms_strategy s' = ms_strategy s" "ms_hanging s' = ms_hanging s"
    using levels_sound[OF st(2) base_sound[OF st(1) assms(2,4,6)]] by simp_all
  have bal: "balance_for_budget pp pe s' = balance_for_budget pp pe s"
    using lv by (simp add: balance_for_budget_def candidate_hanging_orders_from_pairs_def active_orders_def)
  have "sound_quotes pp qs2" by (rule price_modifiers_sound[OF st(3) lv(1) assms(2,4)])
  then have "sound_quotes pp qs3" using st(4) assms(2,4) skew_sound by (auto simp: spreads_ok_def)
  then have "funded fee (balance_for_budget pp pe s) qs4"
    using budget_funded[OF st(5) _ _ assms(2,3)] assms(5) bal by (simp add: sound_quotes_def balances_nonneg_def)
  then show ?thesis using st(6) takers_funded[OF _ fee] takers_passive by simp
qed

subsection \<open>The orders of a tick\<close>

fun request_cost :: "decimal \<Rightarrow> market_request \<Rightarrow> decimal" where
  "request_cost fee (MarketOrderRequest True mp a t (Some p) e c) = a * p * (1 + fee)"
| "request_cost fee _ = 0"

fun request_sale :: "market_request \<Rightarrow> decimal" where
  "request_sale (MarketOrderRequest False mp a t p e c) = a"
| "request_sale _ = 0"

fun request_makes :: "pure_env \<Rightarrow> market_request \<Rightarrow> bool" where
  "request_makes pe (MarketOrderRequest True mp a t (Some p) e c) \<longleftrightarrow>
     (case pe_get_price pe True of None \<Rightarrow> True | Some ask \<Rightarrow> p < ask)"
| "request_makes pe (MarketOrderRequest False mp a t (Some p) e c) \<longleftrightarrow>
     (case pe_get_price pe False of None \<Rightarrow> True | Some bid \<Rightarrow> bid < p)"
| "request_makes pe _ \<longleftrightarrow> False"

definition orders_funded :: "pure_params \<Rightarrow> pure_env \<Rightarrow> decimal \<Rightarrow> decimal \<times> decimal \<Rightarrow> market_request list \<Rightarrow> bool" where
  "orders_funded pp pe fee balances rs \<longleftrightarrow>
     (\<Sum>r \<leftarrow> rs. request_cost fee r) \<le> snd balances \<and> (\<Sum>r \<leftarrow> rs. request_sale r) \<le> fst balances \<and>
     (pp_take_if_crossed pp \<or> list_all (request_makes pe) rs)"

definition tick_balances :: "pure_params \<Rightarrow> pure_env \<Rightarrow> pure_state \<Rightarrow> decimal \<times> decimal" where
  "tick_balances pp pe s = balance_for_budget pp pe (upd_orders (orders_tick (pe_timestamp pe)) s)"

lemma quote_request_simps [simp]:
  "request_cost fee (quote_request pp b x) = (if b then quote_cost fee x else 0)"
  "request_sale (quote_request pp b x) = (if b then 0 else qt_size x)"
  by (cases b; simp add: quote_request_def quote_cost_def)+

lemma funded_take:
  assumes "funded fee balances qs" "0 \<le> fee" "pp_take_if_crossed pp \<or> not_crossing pe qs"
  shows "orders_funded pp pe fee balances
    (map (quote_request pp True) (take k1 (qs_buys qs)) @ map (quote_request pp False) (take k2 (qs_sells qs)))"
proof -
  have "(\<Sum>x \<leftarrow> take k1 (qs_buys qs). quote_cost fee x) \<le> snd balances"
    using sum_take_le[OF nonneg_costs, of "qs_buys qs" fee k1] assms(1,2) by (auto simp: funded_def)
  moreover have "(\<Sum>x \<leftarrow> take k2 (qs_sells qs). qt_size x) \<le> fst balances"
    using sum_take_le[of qt_size "qs_sells qs" k2] assms(1) by (auto simp: funded_def)
  moreover have "list_all (request_makes pe)
      (map (quote_request pp True) (take k1 (qs_buys qs)) @ map (quote_request pp False) (take k2 (qs_sells qs)))"
    if "not_crossing pe qs"
    using that by (auto simp: not_crossing_def list_all_iff quote_request_def split: option.splits dest: in_set_takeD)
  ultimately show ?thesis using assms(3) by (auto simp: orders_funded_def comp_def)
qed

lemma order_requests_fields [simp]:
  "order_requests (s\<lparr>pu_last_timestamp := t\<rparr>) = order_requests s"
  "order_requests (upd_orders f s) = order_requests s"
  by (simp_all add: order_requests_def upd_orders_def)

text \<open>
  C10: the orders of a tick are covered by the balances, in which the money in the open quotes is included, and,
  unless taking is allowed, none of them crosses the book; whether or not prices are optimised, costs added and sizes
  skewed, as long as no spread of a bid level exceeds the whole price.
\<close>

theorem tick_orders_funded:
  assumes "pure_tick pp pe s = (r, s')" "market_ok pe" "buy_fee_is pe fee" "spreads_ok pp"
    "balances_nonneg (tick_balances pp pe s)" "reference_ok pp pe s"
  shows "orders_funded pp pe fee (tick_balances pp pe s) (drop (length (order_requests s)) (order_requests s'))"
proof -
  let ?s0 = "upd_orders (orders_tick (pe_timestamp pe)) s"
  from assms(1) show ?thesis
  proof (cases rule: pure_tick_cases)
    case (calm s1)
    then have "order_requests s' = order_requests s" by (simp add: calm_def no_orders_def)
    then show ?thesis using assms(5) by (simp add: orders_funded_def balances_nonneg_def)
  next
    case (placed b qs s1 s2 s3)
    have bal: "balance_for_budget pp pe (?s0\<lparr>pu_all_markets_ready := b\<rparr>) = tick_balances pp pe s"
      by (simp add: tick_balances_def balance_for_budget_def candidate_hanging_orders_from_pairs_def active_orders_def)
    have "reference_ok pp pe (?s0\<lparr>pu_all_markets_ready := b\<rparr>)"
      using assms(6) by (simp add: reference_ok_def pure_get_price_def upd_orders_def)
    then have ok: "funded fee (tick_balances pp pe s) qs \<and> (pp_take_if_crossed pp \<or> not_crossing pe qs)"
      using proposal_sound[OF placed(2) assms(2-4)] assms(5) by (simp add: bal)
    obtain k1 k2 where k: "order_requests s3 = order_requests s1 @ map (quote_request pp True) (take k1 (qs_buys qs)) @
        map (quote_request pp False) (take k2 (qs_sells qs))"
      using execute_requests[OF placed(4)] by blast
    have "order_requests s1 = order_requests s" using placed(1) by (simp add: calm_def no_orders_def)
    then have "drop (length (order_requests s)) (order_requests s') =
        map (quote_request pp True) (take k1 (qs_buys qs)) @ map (quote_request pp False) (take k2 (qs_sells qs))"
      using k placed(5) by simp
    moreover have "0 \<le> fee" using assms(3) by (simp add: buy_fee_is_def)
    ultimately show ?thesis using funded_take[of fee _ qs pp pe k1 k2] ok by simp
  qed
qed

subsection \<open>A market\<close>

definition quoted_pair :: market_pair where
  "quoted_pair = \<lparr>mp_market = ''A'', mp_trading_pair = ''ETH-USDT'', mp_base = ''ETH'', mp_quote = ''USDT''\<rparr>"

definition quoted_params :: "bool \<Rightarrow> pure_params" where
  "quoted_params hanging =
     \<lparr>pp_market = quoted_pair, pp_maker_type = LIMIT, pp_order_refresh_time = 30, pp_hanging_cancel_pct = None,
      pp_order_id = (\<lambda>n. replicate n (CHR ''i'')), pp_bid_spread = 1 / 100, pp_ask_spread = 1 / 100, pp_minimum_spread = - 1,
      pp_order_amount = 1, pp_order_levels = 2, pp_buy_levels = 2, pp_sell_levels = 2, pp_order_level_spread = 1 / 100,
      pp_order_level_amount = 0, pp_max_order_age = 1800, pp_order_refresh_tolerance_pct = - 1, pp_filled_order_delay = 60,
      pp_inventory_skew_enabled = False, pp_inventory_target_base_pct = 1 / 2, pp_inventory_range_multiplier = 1,
      pp_hanging_orders_enabled = hanging, pp_order_optimization_enabled = False, pp_ask_order_optimization_depth = 0,
      pp_bid_order_optimization_depth = 0, pp_add_transaction_costs = False, pp_has_inventory_cost_delegate = False,
      pp_price_type = MidPrice, pp_take_if_crossed = False, pp_price_ceiling = - 1, pp_price_floor = - 1,
      pp_ping_pong_enabled = False, pp_order_override = [], pp_split_order_levels_enabled = False,
      pp_bid_order_level_spreads = [], pp_ask_order_level_spreads = [], pp_wait_cancel_confirmation = True, pp_interp = linear_interp\<rparr>"

definition quoted_env :: "seconds \<Rightarrow> pure_env" where
  "quoted_env t =
     \<lparr>pe_timestamp = t, pe_markets_ready = True, pe_delegate_ready = True, pe_price_by_type = (\<lambda>_. Some 100),
      pe_get_price = (\<lambda>is_buy. Some (if is_buy then 101 else 99)), pe_price_for_volume = (\<lambda>is_buy v. Some (if is_buy then 101 else 99)),
      pe_price_quantum = (\<lambda>_. 1 / 100), pe_quantize_price = (\<lambda>p. of_int (if 0 \<le> p then \<lfloor>p * 100\<rfloor> else \<lceil>p * 100\<rceil>) / 100),
      pe_quantize_amount = (\<lambda>a p. of_int (if 0 \<le> a then \<lfloor>a * 1000\<rfloor> else \<lceil>a * 1000\<rceil>) / 1000),
      pe_fee_percent = (\<lambda>t s a p. 1 / 1000), pe_balance = (\<lambda>_. 150), pe_available = (\<lambda>_. 150)\<rparr>"

definition quoted_band :: price_band where
  "quoted_band = \<lparr>pb_price_floor_pct = - 1, pb_price_ceiling_pct = 1, pb_refresh_time = 86400, pb_enabled = False,
     pb_price_floor = Some 0, pb_price_ceiling = Some 0, pb_set_time = 0\<rparr>"

definition quoted_state :: "bool \<Rightarrow> pure_state" where
  "quoted_state hanging = projr (pure_init_params (quoted_params hanging) quoted_band Map.empty)"

theorem quotes_one_generation_witness:
  "one_generation (quoted_params False)
    (fold (pure_step (quoted_params False)) [PureTick (quoted_env 1), PureCancelled True [], PureTick (quoted_env 40)] (quoted_state False))"
  by (rule quotes_one_generation[of _ quoted_band Map.empty]) (simp_all add: quoted_state_def pure_init_params_def quoted_params_def)

theorem tick_orders_funded_witness:
  "orders_funded (quoted_params True) (quoted_env 1) (1 / 1000) (tick_balances (quoted_params True) (quoted_env 1) (quoted_state True))
    (drop (length (order_requests (quoted_state True)))
      (order_requests (snd (pure_tick (quoted_params True) (quoted_env 1) (quoted_state True)))))"
  by (rule tick_orders_funded[OF prod.collapse[symmetric]])
    (auto simp: market_ok_def buy_fee_is_def quoted_env_def, auto simp: spreads_ok_def bid_levels_def quoted_params_def less_Suc_eq numeral_2_eq_2, code_simp, auto simp: reference_ok_def pure_get_price_def quoted_env_def quoted_params_def)

subsection \<open>Hanging orders that are lost\<close>

definition hanging_params :: pure_params where
  "hanging_params = (quoted_params True)\<lparr>pp_buy_levels := 1, pp_sell_levels := 1\<rparr>"

text \<open>The first pair of orders: when the buy is filled, the sell is left in the market.\<close>

lemma first_sell_hangs:
  "map hg_id (ho_current (ms_hanging (fold (pure_step hanging_params)
     [PureTick (quoted_env 1), PureCompleted True True [] LIMIT, PureTick (quoted_env 100)] (quoted_state True)))) = [Some ''i'']"
  by code_simp

text \<open>
  After a round in which both orders were filled, the sell of the next round is put into the old pair: when the
  buy is filled, the sell is not left in the market but cancelled.
\<close>

lemma later_sell_cancelled:
  "let s = fold (pure_step hanging_params)
       [PureTick (quoted_env 1), PureCompleted True True [] LIMIT, PureCompleted True False ''i'' LIMIT, PureTick (quoted_env 100),
        PureCompleted True True ''ii'' LIMIT, PureTick (quoted_env 200)] (quoted_state True)
   in ho_current (ms_hanging s) = [] \<and> MarketCancelRequest quoted_pair ''iii'' \<in> set (ms_requests s)"
  by code_simp

text \<open>
  A hanging order that is filled does not delay the next quotes, unless its tracker hears of the fill before the
  strategy does.
\<close>

lemma hanging_fill_depends_on_order:
  "let run = (\<lambda>strategy_first. pu_create_timestamp (fold (pure_step hanging_params)
       [PureTick (quoted_env 1), PureCompleted True True [] LIMIT, PureTick (quoted_env 100), PureCompleted strategy_first False ''i'' LIMIT]
       (quoted_state True)))
   in run True \<noteq> run False"
  by code_simp

text \<open>A moving price band that is refreshed while there is no price stops the strategy until the next refresh.\<close>

lemma band_without_price:
  "let pb = quoted_band\<lparr>pb_enabled := True\<rparr>
   in check_price_ceiling_exceeded (Some 100) (check_and_update_price_band 90000 (Some 100) (check_and_update_price_band 86400 None pb)) =
      Inl InvalidOperation"
  by code_simp

end
