(* ===== verification/Indicators.thy ===== *)
theory Indicators
  imports Prelude "HOL-Library.Word"
begin

text \<open>
  The ring buffer and the indicators that strategies compute from samples of the market
  (\<^verbatim>\<open>hummingbot/strategy/__utils__/ring_buffer.pyx\<close>, \<^verbatim>\<open>__utils__/trailing_indicators\<close>,
  \<^verbatim>\<open>strategy/aroon_oscillator/aroon_oscillator_indicator.pyx\<close>).

  A sample is a decimal or NaN (\<open>None\<close>).  The positions that \<^verbatim>\<open>get_as_numpy_array\<close> reads are computed in
  16 bit integers, which wrap around: they are \<open>16 word\<close>s read as signed numbers.  The conversion of a sample to
  a single precision \<^verbatim>\<open>float\<close>, square roots and logarithms are arguments.  An exception in a \<^verbatim>\<open>cdef void\<close>
  function is not propagated: the function ends where it was raised.
\<close>

section \<open>The ring buffer\<close>

type_synonym sample = "decimal option"

record ring_buffer =
  rb_length :: int
  rb_buffer :: "sample list"
  rb_delimiter :: int
  rb_is_full :: bool

text \<open>\<^verbatim>\<open>np.zeros\<close> refuses a negative length.\<close>

definition zeros :: "int \<Rightarrow> py_error + sample list" where
  "zeros n = (if n < 0 then Inl ValueError else Inr (replicate (nat n) (Some 0)))"

definition new_ring :: "int \<Rightarrow> py_error + ring_buffer" where
  "new_ring n = bind_err (zeros n) (\<lambda>buf.
     Inr \<lparr> rb_length = n, rb_buffer = buf, rb_delimiter = 0, rb_is_full = False \<rparr>)"

definition increment_delimiter :: "ring_buffer \<Rightarrow> ring_buffer" where
  "increment_delimiter rb = (let d = (rb_delimiter rb + 1) mod rb_length rb in
     rb\<lparr>rb_delimiter := d, rb_is_full := rb_is_full rb \<or> d = 0\<rparr>)"

text \<open>Storing beyond the end of the array raises, which \<^verbatim>\<open>cdef void\<close> drops: nothing is stored.\<close>

definition ring_add :: "(decimal \<Rightarrow> decimal) \<Rightarrow> sample \<Rightarrow> ring_buffer \<Rightarrow> ring_buffer" where
  "ring_add single v rb =
     (if rb_delimiter rb < int (length (rb_buffer rb))
      then increment_delimiter (rb\<lparr>rb_buffer := (rb_buffer rb)[nat (rb_delimiter rb) := map_option single v]\<rparr>)
      else rb)"

definition ring_is_empty :: "ring_buffer \<Rightarrow> bool" where
  "ring_is_empty rb \<longleftrightarrow> \<not> rb_is_full rb \<and> rb_delimiter rb = 0"

text \<open>Indexing an array: a negative index counts from the end.\<close>

definition array_at :: "'a list \<Rightarrow> int \<Rightarrow> py_error + 'a" where
  "array_at xs i =
     (if 0 \<le> i \<and> i < int (length xs) then Inr (xs ! nat i)
      else if i < 0 \<and> 0 \<le> i + int (length xs) then Inr (xs ! nat (i + int (length xs)))
      else Inl IndexError)"

definition ring_last_value :: "ring_buffer \<Rightarrow> py_error + sample" where
  "ring_last_value rb =
     (if ring_is_empty rb then Inr None else array_at (rb_buffer rb) (rb_delimiter rb - 1))"

text \<open>\<^verbatim>\<open>np.arange(start, stop, dtype=np.int16)\<close>: the values beyond 32767 wrap around.\<close>

definition int16 :: "int \<Rightarrow> int" where
  "int16 i = sint (word_of_int i :: 16 word)"

definition arange_int16 :: "int \<Rightarrow> int \<Rightarrow> int list" where
  "arange_int16 start stop = map int16 [start..stop - 1]"

text \<open>
  Modulo a length that is no 16 bit integer the positions become wider integers, which the variable of the
  method does not accept.
\<close>

definition ring_indexes :: "ring_buffer \<Rightarrow> py_error + int list" where
  "ring_indexes rb =
     (if \<not> rb_is_full rb then Inr (arange_int16 0 (rb_delimiter rb))
      else if rb_length rb > 32767 then Inl ValueError
      else Inr (map (\<lambda>i. i mod rb_length rb) (arange_int16 (rb_delimiter rb) (rb_delimiter rb + rb_length rb))))"

definition get_as_numpy_array :: "ring_buffer \<Rightarrow> py_error + sample list" where
  "get_as_numpy_array rb = bind_err (ring_indexes rb) (map_err (array_at (rb_buffer rb)))"

text \<open>Sums and means of arrays: one NaN makes the result NaN; the mean of nothing is NaN.\<close>

fun all_numbers :: "sample list \<Rightarrow> decimal list option" where
  "all_numbers [] = Some []"
| "all_numbers (x # xs) = (case x of None \<Rightarrow> None | Some d \<Rightarrow> map_option ((#) d) (all_numbers xs))"

definition mean :: "decimal list \<Rightarrow> sample" where
  "mean ds = (if ds = [] then None else Some (sum_list ds / of_nat (length ds)))"

definition variance :: "decimal list \<Rightarrow> sample" where
  "variance ds = (case mean ds of None \<Rightarrow> None | Some m \<Rightarrow> mean (map (\<lambda>d. (d - m)\<^sup>2) ds))"

definition of_numbers :: "(decimal list \<Rightarrow> sample) \<Rightarrow> sample list \<Rightarrow> sample" where
  "of_numbers f xs = (case all_numbers xs of None \<Rightarrow> None | Some ds \<Rightarrow> f ds)"

text \<open>
  The statistics of the buffer are NaN until it is full.  They are \<^verbatim>\<open>cdef double\<close> functions: when reading
  the array raises they return 0.
\<close>

definition ring_statistic :: "(decimal list \<Rightarrow> sample) \<Rightarrow> ring_buffer \<Rightarrow> sample" where
  "ring_statistic f rb =
     (if rb_is_full rb
      then (case get_as_numpy_array rb of Inl e \<Rightarrow> Some 0 | Inr xs \<Rightarrow> of_numbers f xs)
      else None)"

definition ring_mean_value :: "ring_buffer \<Rightarrow> sample" where
  "ring_mean_value = ring_statistic mean"

definition ring_variance :: "ring_buffer \<Rightarrow> sample" where
  "ring_variance = ring_statistic variance"

definition ring_std_dev :: "(decimal \<Rightarrow> decimal) \<Rightarrow> ring_buffer \<Rightarrow> sample" where
  "ring_std_dev square_root = ring_statistic (\<lambda>ds. map_option square_root (variance ds))"

text \<open>\<^verbatim>\<open>data[-value:]\<close>: the last values, all of them for 0, those from an index for a negative length.\<close>

definition slice_from_end :: "int \<Rightarrow> 'a list \<Rightarrow> 'a list" where
  "slice_from_end v xs = (if v > 0 then take_last (nat v) xs else drop (nat (- v)) xs)"

definition set_ring_length :: "(decimal \<Rightarrow> decimal) \<Rightarrow> int \<Rightarrow> ring_buffer \<Rightarrow> (ring_buffer, unit) outcome" where
  "set_ring_length single v rb =
     (case get_as_numpy_array rb of
        Inl e \<Rightarrow> (Inl e, rb)
      | Inr data \<Rightarrow>
          (let rb = rb\<lparr>rb_length := v\<rparr> in
           case zeros v of
             Inl e \<Rightarrow> (Inl e, rb)
           | Inr buf \<Rightarrow>
               (let rb = rb\<lparr>rb_buffer := buf, rb_delimiter := 0, rb_is_full := False\<rparr> in
                (Inr (), fold (ring_add single) (slice_from_end v data) rb))))"

subsection \<open>The buffer is a window over the samples\<close>

text \<open>
  The specification: a window of a given length holds the latest samples.  A ring buffer implements the window
  of the samples added since its length was set.
\<close>

record sample_window =
  win_length :: nat
  win_samples :: "sample list"

definition window_add :: "sample \<Rightarrow> sample_window \<Rightarrow> sample_window" where
  "window_add v w = w\<lparr>win_samples := take_last (win_length w) (win_samples w @ [v])\<rparr>"

definition window_resize :: "nat \<Rightarrow> sample_window \<Rightarrow> sample_window" where
  "window_resize n w = \<lparr> win_length = n, win_samples = take_last n (win_samples w) \<rparr>"

text \<open>The buffer of length \<open>n\<close> after the samples \<open>xs\<close>: sample \<open>j\<close> is in slot \<open>j mod n\<close> until it is overwritten.\<close>

definition ring_holds :: "nat \<Rightarrow> sample list \<Rightarrow> ring_buffer \<Rightarrow> bool" where
  "ring_holds n xs rb \<longleftrightarrow>
     rb_length rb = int n \<and> length (rb_buffer rb) = n \<and> rb_delimiter rb = int (length xs mod n) \<and>
     rb_is_full rb = (n \<le> length xs) \<and>
     (\<forall>j < length xs. length xs \<le> j + n \<longrightarrow> rb_buffer rb ! (j mod n) = xs ! j)"

lemma new_ring_holds: "new_ring (int n) = Inr rb \<Longrightarrow> 0 < n \<Longrightarrow> ring_holds n [] rb"
  by (auto simp: new_ring_def zeros_def ring_holds_def)

lemma increment_simps [simp]:
  "rb_length (increment_delimiter rb) = rb_length rb" "rb_buffer (increment_delimiter rb) = rb_buffer rb"
  "rb_delimiter (increment_delimiter rb) = (rb_delimiter rb + 1) mod rb_length rb"
  "rb_is_full (increment_delimiter rb) = (rb_is_full rb \<or> (rb_delimiter rb + 1) mod rb_length rb = 0)"
  by (simp_all add: increment_delimiter_def Let_def)

text \<open>Slots of different samples of one window differ.\<close>

lemma slot_distinct: "j mod n \<noteq> m mod n" if "j < m" "m < j + n" for j m n :: nat
proof
  assume "j mod n = m mod n"
  then have "n dvd m - j" using that(1) by (metis less_imp_le_nat mod_eq_dvd_iff_nat)
  then show False using that by (auto dest: dvd_imp_le)
qed

lemma step_mod: "(int (k mod n) + 1) mod int n = int (Suc k mod n)"
  by (simp add: of_nat_mod mod_simps add.commute)

lemma wraps_iff: "n \<le> k \<or> Suc k mod n = 0 \<longleftrightarrow> n \<le> Suc k" if "0 < n" for n k :: nat
  using that by (metis Suc_leI dvd_imp_le le_SucI le_antisym mod_0_imp_dvd mod_self not_less_eq_eq zero_less_Suc)

lemma ring_add_holds:
  assumes "ring_holds n xs rb" "0 < n"
  shows "ring_holds n (xs @ [map_option single v]) (ring_add single v rb)"
proof -
  let ?k = "length xs"
  have slot: "rb_delimiter rb < int (length (rb_buffer rb))" "nat (rb_delimiter rb) = ?k mod n" "?k mod n < n"
    using assms by (auto simp: ring_holds_def)
  have flags: "rb_length (ring_add single v rb) = int n" "length (rb_buffer (ring_add single v rb)) = n"
    "rb_delimiter (ring_add single v rb) = int (length (xs @ [map_option single v]) mod n)"
    "rb_is_full (ring_add single v rb) = (n \<le> length (xs @ [map_option single v]))"
    using assms slot step_mod[of ?k n] wraps_iff[OF assms(2), of ?k]
    by (simp_all add: ring_add_def ring_holds_def)
  have "rb_buffer (ring_add single v rb) ! (j mod n) = (xs @ [map_option single v]) ! j"
    if j: "j < length (xs @ [map_option single v])" "length (xs @ [map_option single v]) \<le> j + n" for j
  proof (cases "j = ?k")
    case True
    then show ?thesis using slot assms by (simp add: ring_add_def ring_holds_def)
  next
    case False
    then have "j mod n \<noteq> ?k mod n" using j by (intro slot_distinct) auto
    then show ?thesis using slot assms j False by (simp add: ring_add_def ring_holds_def nth_append)
  qed
  then show ?thesis using flags by (simp add: ring_holds_def)
qed


lemma int16_small: "0 \<le> i \<Longrightarrow> i < 32768 \<Longrightarrow> int16 i = i"
  by (simp add: int16_def sint_sbintrunc' signed_take_bit_int_eq_self)

lemma arange_int16_small:
  "0 \<le> start \<Longrightarrow> stop \<le> 32768 \<Longrightarrow> arange_int16 start stop = [start..stop - 1]"
  by (auto simp: arange_int16_def int16_small intro!: map_idI)

lemma map_err_values:
  "list_all2 (\<lambda>i v. f i = Inr v) is vs \<Longrightarrow> map_err f is = Inr vs"
  by (induction rule: list_all2_induct) simp_all

text \<open>The positions read and the slots they fall into, when none of them exceeds 16 bits.\<close>

lemma upto_as_upt: "[int a..int a + int m - 1] = map (\<lambda>i. int (a + i)) [0..<m]"
  by (rule nth_equalityI) auto

lemma ring_indexes_holds:
  assumes "ring_holds n xs rb" "0 < n" "n \<le> 16384"
  shows "ring_indexes rb = Inr (map (\<lambda>i. int ((length xs - min n (length xs) + i) mod n)) [0..<min n (length xs)])"
proof (cases "n \<le> length xs")
  case False
  then show ?thesis
    using assms upto_as_upt[of 0 "length xs"] by (simp add: ring_indexes_def ring_holds_def arange_int16_small)
next
  case True
  let ?k = "length xs"
  have less: "?k mod n < n" using assms by simp
  have "arange_int16 (int (?k mod n)) (int (?k mod n) + int n) = [int (?k mod n)..int (?k mod n) + int n - 1]"
    using assms less by (intro arange_int16_small) linarith+
  moreover have "int (?k mod n + i) mod int n = int ((?k - n + i) mod n)" for i
  proof -
    have "(?k mod n + i) mod n = (?k - n + i + n) mod n" using True by (simp add: mod_simps)
    then show ?thesis by (simp flip: of_nat_add of_nat_mod)
  qed
  ultimately show ?thesis
    using assms True by (simp add: ring_indexes_def ring_holds_def upto_as_upt)
qed

lemma ring_array:
  assumes "ring_holds n xs rb" "0 < n" "n \<le> 16384"
  shows "get_as_numpy_array rb = Inr (take_last n xs)"
proof -
  let ?m = "min n (length xs)"
  have "list_all2 (\<lambda>i v. array_at (rb_buffer rb) i = Inr v)
      (map (\<lambda>i. int ((length xs - ?m + i) mod n)) [0..<?m]) (take_last n xs)"
  proof (rule list_all2_all_nthI)
    fix i assume "i < length (map (\<lambda>i. int ((length xs - ?m + i) mod n)) [0..<?m])"
    then have i: "i < ?m" by simp
    have "take_last n xs ! i = xs ! (length xs - ?m + i)" using i by (simp add: take_last_def min_def)
    moreover have "rb_buffer rb ! ((length xs - ?m + i) mod n) = xs ! (length xs - ?m + i)"
      using assms(1) i unfolding ring_holds_def by auto
    ultimately show "array_at (rb_buffer rb) (map (\<lambda>i. int ((length xs - ?m + i) mod n)) [0..<?m] ! i) = Inr (take_last n xs ! i)"
      using assms i by (auto simp: array_at_def ring_holds_def)
  qed (simp add: take_last_def)
  then show ?thesis
    using ring_indexes_holds[OF assms] by (simp add: get_as_numpy_array_def map_err_values)
qed


lemma ring_last_value_holds:
  assumes "ring_holds n xs rb" "0 < n"
  shows "ring_last_value rb = Inr (if xs = [] then None else last xs)"
proof (cases "xs = []")
  case True
  then show ?thesis using assms by (simp add: ring_last_value_def ring_is_empty_def ring_holds_def)
next
  case False
  let ?k = "length xs - 1"
  have k: "length xs = Suc ?k" using False by (cases xs) auto
  have slot: "rb_buffer rb ! (?k mod n) = last xs"
    using assms k by (simp add: ring_holds_def last_conv_nth False)
  have "\<not> ring_is_empty rb"
    using assms False by (auto simp: ring_is_empty_def ring_holds_def dest: dvd_imp_le)
  moreover have "array_at (rb_buffer rb) (rb_delimiter rb - 1) = Inr (last xs)"
  proof (cases "Suc ?k mod n = 0")
    case True
    then have "?k mod n = n - 1" using assms(2) mod_Suc[of ?k n] by (auto split: if_splits)
    then show ?thesis using assms True slot k by (simp add: array_at_def ring_holds_def nat_diff_distrib)
  next
    case nonzero: False
    then have "Suc ?k mod n = Suc (?k mod n)" using mod_Suc[of ?k n] by (auto split: if_splits)
    moreover have "?k mod n < n" using assms(2) by simp
    ultimately show ?thesis using assms slot k by (simp add: array_at_def ring_holds_def)
  qed
  ultimately show ?thesis using False by (simp add: ring_last_value_def)
qed

lemma ring_fold_holds:
  "ring_holds n xs rb \<Longrightarrow> 0 < n \<Longrightarrow>
   ring_holds n (xs @ map (map_option single) vs) (fold (ring_add single) vs rb)"
proof (induction vs arbitrary: xs rb)
  case (Cons v vs)
  then show ?case using ring_add_holds[of n xs rb single v] by fastforce
qed simp

text \<open>A session: the buffer is created, samples are added and its length is changed.\<close>

datatype ring_op = Add_Value sample | Set_Length nat

primrec ring_step :: "(decimal \<Rightarrow> decimal) \<Rightarrow> ring_op \<Rightarrow> ring_buffer \<Rightarrow> (ring_buffer, unit) outcome" where
  "ring_step single (Add_Value v) rb = (Inr (), ring_add single v rb)"
| "ring_step single (Set_Length m) rb = set_ring_length single (int m) rb"

primrec ring_run :: "(decimal \<Rightarrow> decimal) \<Rightarrow> ring_op list \<Rightarrow> ring_buffer \<Rightarrow> (ring_buffer, unit) outcome" where
  "ring_run single [] rb = (Inr (), rb)"
| "ring_run single (op # ops) rb = and_then (ring_step single op rb) (\<lambda>_ rb. ring_run single ops rb)"

primrec window_step :: "(decimal \<Rightarrow> decimal) \<Rightarrow> ring_op \<Rightarrow> sample_window \<Rightarrow> sample_window" where
  "window_step single (Add_Value v) w = window_add (map_option single v) w"
| "window_step single (Set_Length m) w = window_resize m w"

definition op_in_range :: "ring_op \<Rightarrow> bool" where
  "op_in_range op = (case op of Add_Value v \<Rightarrow> True | Set_Length m \<Rightarrow> 0 < m \<and> m \<le> 16384)"

text \<open>A buffer and the window it implements; its samples are single precision numbers.\<close>

definition ring_implements :: "(decimal \<Rightarrow> decimal) \<Rightarrow> ring_buffer \<Rightarrow> sample_window \<Rightarrow> bool" where
  "ring_implements single rb w \<longleftrightarrow>
     0 < win_length w \<and> win_length w \<le> 16384 \<and>
     (\<exists>xs. ring_holds (win_length w) xs rb \<and> win_samples w = take_last (win_length w) xs \<and>
       list_all (\<lambda>x. map_option single x = x) xs)"

lemma ring_step_implements:
  assumes impl: "ring_implements single rb w" and op: "op_in_range op" and single: "\<And>x. single (single x) = single x"
  shows "\<exists>rb'. ring_step single op rb = (Inr (), rb') \<and> ring_implements single rb' (window_step single op w)"
proof -
  obtain xs where xs: "ring_holds (win_length w) xs rb" "win_samples w = take_last (win_length w) xs"
      "list_all (\<lambda>x. map_option single x = x) xs" and n: "0 < win_length w" "win_length w \<le> 16384"
    using impl by (auto simp: ring_implements_def)
  show ?thesis
  proof (cases op)
    case (Add_Value v)
    have "map_option single (map_option single v) = map_option single v" using single by (cases v) auto
    then show ?thesis
      using ring_add_holds[OF xs(1) n(1), of single v] xs(2,3) n Add_Value
      by (auto simp: ring_implements_def window_add_def intro!: exI[of _ "xs @ [map_option single v]"])
  next
    case (Set_Length m)
    then have m: "0 < m" "m \<le> 16384" using op by (auto simp: op_in_range_def)
    let ?vs = "take_last m (take_last (win_length w) xs)"
    let ?start = "rb\<lparr>rb_length := int m, rb_buffer := replicate m (Some 0), rb_delimiter := 0, rb_is_full := False\<rparr>"
    have "ring_holds m [] ?start" using m by (simp add: ring_holds_def)
    then have holds: "ring_holds m (map (map_option single) ?vs) (fold (ring_add single) ?vs ?start)"
      using ring_fold_holds[of m "[]" ?start single ?vs] m by simp
    have same: "list_all (\<lambda>x. map_option single x = x) ?vs"
      using xs(3) subset_trans[OF set_take_last set_take_last] unfolding list_all_iff by (meson subsetD)
    then have "map (map_option single) ?vs = ?vs" by (simp add: list_all_iff map_idI)
    moreover have "ring_step single op rb = (Inr (), fold (ring_add single) ?vs ?start)"
      using ring_array[OF xs(1) n] m Set_Length
      by (simp add: set_ring_length_def slice_from_end_def zeros_def)
    ultimately show ?thesis
      using holds same m xs(2) Set_Length
      by (auto simp: ring_implements_def window_resize_def take_last_all intro!: exI[of _ ?vs])
  qed
qed

lemma ring_run_implements:
  assumes "ring_implements single rb w" "list_all op_in_range ops" "\<And>x. single (single x) = single x"
  shows "\<exists>rb'. ring_run single ops rb = (Inr (), rb') \<and> ring_implements single rb' (fold (window_step single) ops w)"
  using assms(1,2)
proof (induction ops arbitrary: rb w)
  case (Cons op ops)
  obtain rb1 where "ring_step single op rb = (Inr (), rb1)" "ring_implements single rb1 (window_step single op w)"
    using ring_step_implements[OF Cons.prems(1) _ assms(3)] Cons.prems(2) by auto
  then show ?case using Cons by simp
qed simp

lemma new_ring_implements:
  assumes "0 < n" "n \<le> 16384"
  shows "\<exists>rb. new_ring (int n) = Inr rb \<and> ring_implements single rb \<lparr> win_length = n, win_samples = [] \<rparr>"
proof -
  obtain rb where rb: "new_ring (int n) = Inr rb" by (simp add: new_ring_def zeros_def)
  moreover have "ring_implements single rb \<lparr> win_length = n, win_samples = [] \<rparr>"
    using new_ring_holds[OF rb assms(1)] assms by (auto simp: ring_implements_def take_last_def)
  ultimately show ?thesis by blast
qed

lemma ring_implements_reads:
  assumes "ring_implements single rb w"
  shows "get_as_numpy_array rb = Inr (win_samples w)"
    "rb_is_full rb \<longleftrightarrow> length (win_samples w) = win_length w"
    "ring_last_value rb = Inr (if win_samples w = [] then None else last (win_samples w))"
proof -
  obtain xs where xs: "ring_holds (win_length w) xs rb" "win_samples w = take_last (win_length w) xs"
      and n: "0 < win_length w" "win_length w \<le> 16384"
    using assms by (auto simp: ring_implements_def)
  show "get_as_numpy_array rb = Inr (win_samples w)" using ring_array[OF xs(1) n] xs(2) by simp
  show "rb_is_full rb \<longleftrightarrow> length (win_samples w) = win_length w" using xs by (auto simp: ring_holds_def)
  have "last (take_last (win_length w) xs) = last xs" "take_last (win_length w) xs = [] \<longleftrightarrow> xs = []"
    if "xs \<noteq> []" using that n(1) by (cases xs; simp add: take_last_def last_drop)+
  then show "ring_last_value rb = Inr (if win_samples w = [] then None else last (win_samples w))"
    using ring_last_value_holds[OF xs(1) n(1)] xs(2) by (auto simp: take_last_def)
qed

text \<open>
  C31: a ring buffer implements a window over the samples: whatever samples are added and whatever lengths from 1
  to 16384 are set, it returns the samples of the window in the order they were added, and is full exactly when
  the window is; converting a single precision number to single precision changes nothing.
\<close>

theorem ring_refines_window:
  assumes "0 < n" "n \<le> 16384" "list_all op_in_range ops" "\<And>x. single (single x) = single x"
    and w: "w = fold (window_step single) ops \<lparr> win_length = n, win_samples = [] \<rparr>"
  shows "\<exists>rb rb'. new_ring (int n) = Inr rb \<and> ring_run single ops rb = (Inr (), rb') \<and>
    get_as_numpy_array rb' = Inr (win_samples w) \<and> (rb_is_full rb' \<longleftrightarrow> length (win_samples w) = win_length w)"
proof -
  obtain rb where rb: "new_ring (int n) = Inr rb" "ring_implements single rb \<lparr> win_length = n, win_samples = [] \<rparr>"
    using new_ring_implements[OF assms(1,2)] by blast
  obtain rb' where "ring_run single ops rb = (Inr (), rb')" "ring_implements single rb' w"
    using ring_run_implements[OF rb(2) assms(3,4)] unfolding w by blast
  then show ?thesis using rb(1) ring_implements_reads[of single rb' w] by blast
qed

theorem ring_refines_window_witness:
  "\<exists>rb rb'. new_ring (int 2) = Inr rb \<and>
     ring_run id [Add_Value (Some 5), Add_Value (Some 6), Add_Value (Some 7), Set_Length 3, Add_Value (Some 8)] rb = (Inr (), rb') \<and>
     get_as_numpy_array rb' = Inr [Some 6, Some 7, Some 8] \<and> rb_is_full rb'"
  using ring_refines_window[of 2 "[Add_Value (Some 5), Add_Value (Some 6), Add_Value (Some 7), Set_Length 3, Add_Value (Some 8)]"
      id "\<lparr> win_length = 3, win_samples = [Some 6, Some 7, Some 8] \<rparr>"]
  by (simp add: op_in_range_def window_add_def window_resize_def take_last_def)

text \<open>
  A buffer of more than 16384 samples does not return them in order: the position 32768 of a full buffer of
  length 20000 is read from slot 7232, where the position 27232 is, and not from slot 12768.
\<close>

lemma wide_ring_wraps:
  "int16 32768 mod 20000 = 7232" "(32768 :: int) mod 20000 = 12768" "int16 27232 mod 20000 = 7232"
  by (simp_all add: int16_def)


section \<open>Trailing indicators\<close>

record trailing_indicator =
  ti_sampling :: ring_buffer
  ti_processing :: ring_buffer
  ti_samples_length :: nat

definition new_indicator :: "int \<Rightarrow> int \<Rightarrow> py_error + trailing_indicator" where
  "new_indicator sampling processing = bind_err (new_ring sampling) (\<lambda>s. bind_err (new_ring processing) (\<lambda>p.
     Inr \<lparr> ti_sampling = s, ti_processing = p, ti_samples_length = 0 \<rparr>))"

text \<open>The calculation of an indicator is an argument: the method of the subclass.\<close>

definition add_sample ::
  "(decimal \<Rightarrow> decimal) \<Rightarrow> (ring_buffer \<Rightarrow> py_error + sample) \<Rightarrow> decimal \<Rightarrow> trailing_indicator
     \<Rightarrow> (trailing_indicator, unit) outcome" where
  "add_sample single calculation v ti =
     (let ti = ti\<lparr>ti_sampling := ring_add single (Some v) (ti_sampling ti)\<rparr> in
      case calculation (ti_sampling ti) of
        Inl e \<Rightarrow> (Inl e, ti)
      | Inr x \<Rightarrow> (Inr (), ti\<lparr>ti_processing := ring_add single x (ti_processing ti)\<rparr>))"

text \<open>The default processing averages what has been calculated.\<close>

definition default_processing :: "trailing_indicator \<Rightarrow> py_error + sample" where
  "default_processing ti = bind_err (get_as_numpy_array (ti_processing ti)) (\<lambda>xs. Inr (of_numbers mean xs))"

text \<open>Reading the property notes the length of the buffer, so that a second reading finds no change.\<close>

definition sampling_buffer_changed :: "trailing_indicator \<Rightarrow> (trailing_indicator, bool) outcome" where
  "sampling_buffer_changed ti = (case get_as_numpy_array (ti_sampling ti) of
       Inl e \<Rightarrow> (Inl e, ti)
     | Inr xs \<Rightarrow> (Inr (ti_samples_length ti \<noteq> length xs), ti\<lparr>ti_samples_length := length xs\<rparr>))"

text \<open>\<^verbatim>\<open>np.diff\<close>\<close>

fun differences :: "decimal list \<Rightarrow> decimal list" where
  "differences (x # y # zs) = (y - x) # differences (y # zs)"
| "differences xs = []"

text \<open>
  The instant volatility is the root of the mean square of the ticks, the number of samples being the divisor; the
  buffer has a sample when it is calculated.
\<close>

definition instant_volatility :: "(decimal \<Rightarrow> decimal) \<Rightarrow> ring_buffer \<Rightarrow> py_error + sample" where
  "instant_volatility square_root rb = bind_err (get_as_numpy_array rb) (\<lambda>xs. Inr (
     if xs = [] then None
     else of_numbers (\<lambda>ds. Some (square_root (sum_list (map (\<lambda>d. d\<^sup>2) (differences ds)) / of_nat (length ds)))) xs))"

definition instant_volatility_value :: "trailing_indicator \<Rightarrow> py_error + sample" where
  "instant_volatility_value ti = ring_last_value (ti_processing ti)"

text \<open>The variance of the logarithmic returns; of a single price it is NaN, and of none the method returns None.\<close>

definition historical_volatility :: "(decimal \<Rightarrow> decimal) \<Rightarrow> ring_buffer \<Rightarrow> py_error + sample" where
  "historical_volatility logarithm rb = bind_err (get_as_numpy_array rb) (\<lambda>xs. Inr (
     if xs = [] then None else of_numbers (\<lambda>ds. variance (differences (map logarithm ds))) xs))"

text \<open>\<^verbatim>\<open>np.nan_to_num\<close> makes a NaN 0.\<close>

definition nan_to_num :: "sample \<Rightarrow> decimal" where
  "nan_to_num x = (case x of None \<Rightarrow> 0 | Some d \<Rightarrow> d)"

definition historical_volatility_value :: "(decimal \<Rightarrow> decimal) \<Rightarrow> trailing_indicator \<Rightarrow> py_error + sample" where
  "historical_volatility_value square_root ti = bind_err (get_as_numpy_array (ti_processing ti)) (\<lambda>xs. Inr (
     if xs = [] then None else map_option square_root (mean (map nan_to_num xs))))"

text \<open>
  The exponential moving average asks for an attribute that no indicator has, \<^verbatim>\<open>_sampling_length\<close>, once the array
  is read: it cannot be calculated.
\<close>

definition new_moving_average :: "int \<Rightarrow> int \<Rightarrow> py_error + trailing_indicator" where
  "new_moving_average sampling processing =
     (if processing \<noteq> 1 then Inl RaisedException else new_indicator sampling processing)"

definition moving_average :: "ring_buffer \<Rightarrow> py_error + sample" where
  "moving_average rb = bind_err (get_as_numpy_array rb) (\<lambda>xs. Inl AttributeError)"

text \<open>The moving average never accepts a sample.\<close>

lemma moving_average_fails:
  "\<exists>e ti'. add_sample single moving_average v ti = (Inl e, ti')"
  by (simp add: add_sample_def moving_average_def Let_def split: sum.splits)
     (metis bind_err_simps sum.exhaust sum.inject(1) sum.distinct(1))

section \<open>The Aroon oscillator\<close>

text \<open>The high of a new period is -1 and its low infinite (\<open>None\<close>).\<close>

record oscillator_period =
  op_high :: decimal
  op_low :: "decimal option"
  op_start :: seconds
  op_end :: seconds

definition new_period :: "seconds \<Rightarrow> seconds \<Rightarrow> oscillator_period" where
  "new_period start_tick end_tick = \<lparr> op_high = -1, op_low = None, op_start = start_tick, op_end = end_tick \<rparr>"

definition period_add_tick :: "sample \<Rightarrow> oscillator_period \<Rightarrow> oscillator_period" where
  "period_add_tick price p = (case price of
       None \<Rightarrow> p
     | Some d \<Rightarrow> p\<lparr>op_high := max (op_high p) d,
                   op_low := Some (case op_low p of None \<Rightarrow> d | Some l \<Rightarrow> min l d)\<rparr>)"

text \<open>The current period is the last of the list, of which it is an element.\<close>

record aroon =
  ar_period_length :: int
  ar_period_duration :: int
  ar_periods :: "oscillator_period list"

definition new_aroon :: "int \<Rightarrow> int \<Rightarrow> aroon" where
  "new_aroon len duration = \<lparr> ar_period_length = len, ar_period_duration = duration, ar_periods = [] \<rparr>"

definition aroon_full :: "aroon \<Rightarrow> bool" where
  "aroon_full ar \<longleftrightarrow> int (length (ar_periods ar)) \<ge> ar_period_length ar"

definition aroon_add_tick :: "seconds \<Rightarrow> sample \<Rightarrow> aroon \<Rightarrow> (aroon, unit) outcome" where
  "aroon_add_tick stamp price ar =
     (let fresh = (ar_periods ar = [] \<or> stamp \<ge> op_end (last (ar_periods ar))) in
      if fresh \<and> aroon_full ar \<and> ar_periods ar = [] then (Inl IndexError, ar)
      else let periods = (if fresh \<and> aroon_full ar then tl (ar_periods ar) else ar_periods ar);
               periods = (if fresh then periods @ [new_period stamp (stamp + of_int (ar_period_duration ar))] else periods)
           in (Inr (), ar\<lparr>ar_periods := butlast periods @ [period_add_tick price (last periods)]\<rparr>))"

text \<open>
  The loops of \<^verbatim>\<open>c_aroon_up\<close> and \<^verbatim>\<open>c_aroon_down\<close>: the index of the last element that is as good as the best so far,
  -1 when there is none.
\<close>

definition better_so_far :: "('a \<Rightarrow> 'a \<Rightarrow> bool) \<Rightarrow> nat \<times> 'a \<Rightarrow> 'a \<times> int \<Rightarrow> 'a \<times> int" where
  "better_so_far better = (\<lambda>(i, x) (m, k). if better x m then (x, int i) else (m, k))"

definition last_best :: "('a \<Rightarrow> 'a \<Rightarrow> bool) \<Rightarrow> 'a \<Rightarrow> 'a list \<Rightarrow> 'a \<times> int" where
  "last_best better start xs = fold (better_so_far better) (enumerate 0 xs) (start, - 1)"

definition at_most :: "decimal option \<Rightarrow> decimal option \<Rightarrow> bool" where
  "at_most x y = (case y of None \<Rightarrow> True | Some b \<Rightarrow> (case x of None \<Rightarrow> False | Some a \<Rightarrow> a \<le> b))"

definition last_high_index :: "aroon \<Rightarrow> int" where
  "last_high_index ar = snd (last_best (\<ge>) (- 1) (map op_high (ar_periods ar)))"

definition last_low_index :: "aroon \<Rightarrow> int" where
  "last_low_index ar = snd (last_best at_most None (map op_low (ar_periods ar)))"

text \<open>The division of two C integers is Python's: exact, and an error for the length 0.\<close>

definition percent_of_length :: "int \<Rightarrow> aroon \<Rightarrow> py_error + decimal" where
  "percent_of_length k ar = (if ar_period_length ar = 0 then Inl DivisionByZero
     else Inr (of_int (k + 1) / of_int (ar_period_length ar) * 100))"

definition aroon_up :: "aroon \<Rightarrow> py_error + decimal" where
  "aroon_up ar = percent_of_length (last_high_index ar) ar"

definition aroon_down :: "aroon \<Rightarrow> py_error + decimal" where
  "aroon_down ar = percent_of_length (last_low_index ar) ar"

definition aroon_osc :: "aroon \<Rightarrow> py_error + decimal" where
  "aroon_osc ar = bind_err (aroon_up ar) (\<lambda>u. bind_err (aroon_down ar) (\<lambda>d. Inr (u - d)))"

subsection \<open>The documented formula\<close>

text \<open>
  The comment in the source defines the indicators by the periods since the latest best one:
  100 * (length - periods since) / length.
\<close>

definition periods_since :: "('a \<Rightarrow> 'a \<Rightarrow> bool) \<Rightarrow> 'a list \<Rightarrow> nat" where
  "periods_since better xs = length (takeWhile (\<lambda>x. \<exists>y \<in> set xs. \<not> better x y) (rev xs))"

definition documented_percent :: "nat \<Rightarrow> int \<Rightarrow> decimal" where
  "documented_percent since len = 100 * (of_int len - of_nat since) / of_int len"

fun aroon_ticks :: "(seconds \<times> sample) list \<Rightarrow> aroon \<Rightarrow> (aroon, unit) outcome" where
  "aroon_ticks [] ar = (Inr (), ar)"
| "aroon_ticks ((stamp, price) # ticks) ar = and_then (aroon_add_tick stamp price ar) (\<lambda>_. aroon_ticks ticks)"

lemma last_best_snoc:
  "last_best better start (xs @ [x]) = better_so_far better (length xs, x) (last_best better start xs)"
  by (simp add: last_best_def enumerate_append_eq)

text \<open>The loop keeps the best element and the index of its last occurrence.\<close>

lemma last_best_index:
  assumes total: "\<And>x y. better x y \<or> better y x" and trans: "\<And>x y z. better x y \<Longrightarrow> better y z \<Longrightarrow> better x z"
    and start: "\<And>x. x \<in> set xs \<Longrightarrow> better x start" and "xs \<noteq> []" "last_best better start xs = (m, k)"
  shows "m \<in> set xs \<and> (\<forall>y \<in> set xs. better m y) \<and> k = int (length xs) - 1 - int (length (takeWhile (\<lambda>x. \<not> better x m) (rev xs)))"
  using start \<open>xs \<noteq> []\<close> \<open>last_best better start xs = (m, k)\<close>
proof (induction xs arbitrary: m k rule: rev_induct)
  case (snoc x xs)
  obtain m' k' where prev: "last_best better start xs = (m', k')" by (cases "last_best better start xs")
  have step: "(m, k) = (if better x m' then (x, int (length xs)) else (m', k'))"
    using snoc.prems(3) prev by (simp add: last_best_snoc better_so_far_def split: if_splits)
  show ?case
  proof (cases "xs = []")
    case True
    then have "better x m'" using prev snoc.prems(1) by (simp add: last_best_def)
    then show ?thesis using step True total by (auto split: if_splits)
  next
    case False
    have IH: "m' \<in> set xs" "\<forall>y \<in> set xs. better m' y"
      "k' = int (length xs) - 1 - int (length (takeWhile (\<lambda>x. \<not> better x m') (rev xs)))"
      using snoc.IH[OF _ False prev] snoc.prems(1) by auto
    show ?thesis
    proof (cases "better x m'")
      case True
      have "better x y" if "y \<in> set xs" for y using IH(2) that True trans by blast
      then show ?thesis using True step total[of x x] by auto
    next
      case False
      then have "better m' x" using total by blast
      then show ?thesis using False step IH by simp
    qed
  qed
qed simp

lemma last_best_periods_since:
  assumes "\<And>x y. better x y \<or> better y x" "\<And>x y z. better x y \<Longrightarrow> better y z \<Longrightarrow> better x z"
    "\<And>x. x \<in> set xs \<Longrightarrow> better x start" "xs \<noteq> []"
  shows "snd (last_best better start xs) = int (length xs) - 1 - int (periods_since better xs)"
proof -
  obtain m k where mk: "last_best better start xs = (m, k)" by (cases "last_best better start xs")
  from last_best_index[OF assms mk]
  have m: "m \<in> set xs" "\<forall>y \<in> set xs. better m y" "k = int (length xs) - 1 - int (length (takeWhile (\<lambda>x. \<not> better x m) (rev xs)))"
    by auto
  have "(\<exists>y \<in> set xs. \<not> better x y) \<longleftrightarrow> \<not> better x m" for x using m assms(2) by blast
  then show ?thesis using m(3) mk by (simp add: periods_since_def)
qed

definition aroon_ok :: "int \<Rightarrow> aroon \<Rightarrow> bool" where
  "aroon_ok n ar \<longleftrightarrow> ar_period_length ar = n \<and> int (length (ar_periods ar)) \<le> n \<and> list_all (\<lambda>p. op_high p \<ge> - 1) (ar_periods ar)"

lemma period_high: "op_high p \<ge> - 1 \<Longrightarrow> op_high (period_add_tick price p) \<ge> - 1"
  by (auto simp: period_add_tick_def split: option.splits)

lemma aroon_ok_tick:
  assumes "aroon_ok n ar" "0 < n" "aroon_add_tick stamp price ar = (r, ar')"
  shows "aroon_ok n ar' \<and> r = Inr ()"
proof -
  have ends: "list_all (\<lambda>p. - 1 \<le> op_high p) (butlast ps @ [period_add_tick price (last ps)])"
    if "list_all (\<lambda>p. - 1 \<le> op_high p) ps" "ps \<noteq> []" for ps
    using that period_high by (auto simp: list_all_iff dest: in_set_butlastD)
  have tl: "list_all (\<lambda>p. - 1 \<le> op_high p) (tl ps)" if "list_all (\<lambda>p. - 1 \<le> op_high p) ps" for ps
    using that by (cases ps) auto
  have high: "- 1 \<le> op_high (new_period a b)" for a b by (simp add: new_period_def)
  show ?thesis
    using assms tl[of "ar_periods ar"] ends[of "ar_periods ar"]
      ends[of "ar_periods ar @ [new_period stamp (stamp + of_int (ar_period_duration ar))]"]
      ends[of "tl (ar_periods ar) @ [new_period stamp (stamp + of_int (ar_period_duration ar))]"]
    by (auto simp: aroon_ok_def aroon_add_tick_def aroon_full_def Let_def high simp del: butlast_snoc last_snoc list_all_append
        butlast_append split: if_splits) (auto simp: high)
qed

lemma aroon_ok_ticks:
  "aroon_ok n ar \<Longrightarrow> 0 < n \<Longrightarrow> aroon_ticks ticks ar = (r, ar') \<Longrightarrow> aroon_ok n ar' \<and> r = Inr ()"
proof (induction ticks arbitrary: ar)
  case (Cons t ticks)
  obtain stamp price where t: "t = (stamp, price)" by (cases t)
  obtain r1 ar1 where step: "aroon_add_tick stamp price ar = (r1, ar1)" by (cases "aroon_add_tick stamp price ar")
  then show ?case using aroon_ok_tick[OF Cons.prems(1,2) step] Cons.IH[of ar1] Cons.prems t by simp
qed simp

lemma at_most_total: "at_most x y \<or> at_most y x"
  by (cases x; cases y) (auto simp: at_most_def)

lemma at_most_trans: "at_most x y \<Longrightarrow> at_most y z \<Longrightarrow> at_most x z"
  by (cases x; cases y; cases z) (auto simp: at_most_def)

text \<open>
  C32: once an Aroon indicator is full, whatever the ticks were, its two values are those of the documented
  formula: 100 * (length - periods since the latest highest high, or lowest low) / length.
\<close>

theorem aroon_matches_formula:
  assumes "0 < n" "aroon_ticks ticks (new_aroon n duration) = (r, ar)" "aroon_full ar"
  shows "aroon_up ar = Inr (documented_percent (periods_since (\<ge>) (map op_high (ar_periods ar))) n) \<and>
    aroon_down ar = Inr (documented_percent (periods_since at_most (map op_low (ar_periods ar))) n)"
proof -
  have "aroon_ok n (new_aroon n duration)" using assms(1) by (simp add: aroon_ok_def new_aroon_def)
  then have ok: "aroon_ok n ar" using aroon_ok_ticks assms(1,2) by blast
  then have len: "int (length (ar_periods ar)) = n" and n: "ar_period_length ar = n" and ne: "ar_periods ar \<noteq> []"
    using assms(1,3) by (auto simp: aroon_ok_def aroon_full_def)
  have "snd (last_best (\<ge>) (- 1) (map op_high (ar_periods ar))) = n - 1 - int (periods_since (\<ge>) (map op_high (ar_periods ar)))"
    using last_best_periods_since[of "(\<ge>)" "map op_high (ar_periods ar)" "- 1"] ok ne len
    by (force simp: aroon_ok_def list_all_iff)
  moreover have "snd (last_best at_most None (map op_low (ar_periods ar))) = n - 1 - int (periods_since at_most (map op_low (ar_periods ar)))"
    using last_best_periods_since[of at_most "map op_low (ar_periods ar)" None] ne len at_most_total at_most_trans
    by (auto simp: at_most_def[of _ None])
  ultimately show ?thesis
    using n assms(1)
    by (simp add: aroon_up_def aroon_down_def percent_of_length_def last_high_index_def last_low_index_def documented_percent_def)
qed

theorem aroon_matches_formula_witness:
  "aroon_up (snd (aroon_ticks [(0, Some 5), (60, Some 9), (120, Some 7)] (new_aroon 3 60))) = Inr (200 / 3)"
  using aroon_matches_formula[of 3 "[(0, Some 5), (60, Some 9), (120, Some 7)]" 60
      "fst (aroon_ticks [(0, Some 5), (60, Some 9), (120, Some 7)] (new_aroon 3 60))"
      "snd (aroon_ticks [(0, Some 5), (60, Some 9), (120, Some 7)] (new_aroon 3 60))"]
  by (simp add: aroon_add_tick_def new_aroon_def aroon_full_def new_period_def period_add_tick_def periods_since_def
      documented_percent_def Let_def)

text \<open>Before it is full the formula does not hold: after the first tick the indicator is not 100.\<close>

lemma aroon_not_full:
  "aroon_up (snd (aroon_ticks [(0, Some 5)] (new_aroon 4 60))) = Inr 25"
  "documented_percent (periods_since (\<ge>) [5 :: decimal]) 4 = 100"
  by (simp_all add: aroon_add_tick_def new_aroon_def aroon_full_def new_period_def period_add_tick_def periods_since_def
      documented_percent_def Let_def aroon_up_def percent_of_length_def last_high_index_def last_best_def better_so_far_def)

end
