(* ===== verification/Pub_Sub.thy ===== *)
theory Pub_Sub
  imports Prelude "HOL-Library.Multiset"
begin

text \<open>
  Events between objects (\<^verbatim>\<open>hummingbot/core/pubsub.pyx\<close>, \<^verbatim>\<open>core/event/event_listener.pyx\<close>,
  \<^verbatim>\<open>event_forwarder.py\<close>, \<^verbatim>\<open>event_logger.pyx\<close>).

  A hub keeps weak references to its listeners, by event tag.  Listeners are named by identifiers; the living ones
  are part of the state, since a listener dies when its last owner drops it, which may happen in the handler of
  another listener.  A handler is an argument: a function on the state, which extends \<open>hub\<close> with whatever the
  listeners work on, that may raise.  The order in which an \<^verbatim>\<open>unordered_set\<close> is iterated is an argument, too.
  Calling a method on a listener that is gone dereferences a null object: the result is \<open>None\<close>.
\<close>

record 'l hub =
  hub_events :: "(int, 'l list) pydict"
  hub_alive :: "'l list"
  hub_info :: "('l, int \<times> bool) pydict"
  hub_errors :: "int list"

type_synonym ('l, 'a, 's) handler = "'l \<Rightarrow> 'a \<Rightarrow> 's \<Rightarrow> ('s, unit) outcome"

subsection \<open>The registrations\<close>

definition remove_dead_listeners :: "int \<Rightarrow> ('l, 'w) hub_scheme \<Rightarrow> ('l, 'w) hub_scheme" where
  "remove_dead_listeners tag s = (case map_of (hub_events s) tag of
       None \<Rightarrow> s
     | Some ls \<Rightarrow>
         (let ls = filter (\<lambda>l. l \<in> set (hub_alive s)) ls in
          if ls = [] then s\<lparr>hub_events := AList.delete tag (hub_events s)\<rparr>
          else s\<lparr>hub_events := AList.update tag ls (hub_events s)\<rparr>))"

text \<open>Once in two hundred times, at random (\<open>gc\<close>), adding a listener also removes the dead ones.\<close>

definition add_listener :: "bool \<Rightarrow> int \<Rightarrow> 'l \<Rightarrow> ('l, 'w) hub_scheme \<Rightarrow> ('l, 'w) hub_scheme" where
  "add_listener gc tag l s =
     (let s = (case map_of (hub_events s) tag of
           Some ls \<Rightarrow> s\<lparr>hub_events := AList.update tag (List.insert l ls) (hub_events s)\<rparr>
         | None \<Rightarrow> s\<lparr>hub_events := AList.update tag [l] (hub_events s)\<rparr>) in
      if gc then remove_dead_listeners tag s else s)"

definition remove_listener :: "int \<Rightarrow> 'l \<Rightarrow> ('l, 'w) hub_scheme \<Rightarrow> ('l, 'w) hub_scheme" where
  "remove_listener tag l s = (case map_of (hub_events s) tag of
       None \<Rightarrow> s
     | Some ls \<Rightarrow> remove_dead_listeners tag (s\<lparr>hub_events := AList.update tag (removeAll l ls) (hub_events s)\<rparr>))"

definition get_listeners ::
  "('l list \<Rightarrow> 'l list) \<Rightarrow> int \<Rightarrow> ('l, 'w) hub_scheme \<Rightarrow> 'l list \<times> ('l, 'w) hub_scheme" where
  "get_listeners order tag s =
     (let s = remove_dead_listeners tag s in
      (case map_of (hub_events s) tag of None \<Rightarrow> [] | Some ls \<Rightarrow> order ls, s))"

subsection \<open>Triggering an event\<close>

definition set_event_info :: "'l \<Rightarrow> int \<Rightarrow> bool \<Rightarrow> ('l, 'w) hub_scheme \<Rightarrow> ('l, 'w) hub_scheme" where
  "set_event_info l tag caller s = s\<lparr>hub_info := AList.update l (tag, caller) (hub_info s)\<rparr>"

definition log_exception :: "int \<Rightarrow> ('l, 'w) hub_scheme \<Rightarrow> ('l, 'w) hub_scheme" where
  "log_exception tag s = s\<lparr>hub_errors := hub_errors s @ [tag]\<rparr>"

text \<open>One call: the listener learns the event's tag, an exception is logged, the tag is cleared.\<close>

definition call_listener ::
  "('l, 'a, ('l, 'w) hub_scheme) handler \<Rightarrow> int \<Rightarrow> 'a \<Rightarrow> 'l \<Rightarrow> ('l, 'w) hub_scheme \<Rightarrow> ('l, 'w) hub_scheme" where
  "call_listener handler tag a l s =
     (case handler l a (set_event_info l tag True s) of
        (Inl e, s) \<Rightarrow> set_event_info l 0 False (log_exception tag s)
      | (Inr u, s) \<Rightarrow> set_event_info l 0 False s)"

fun call_listeners ::
  "('l, 'a, ('l, 'w) hub_scheme) handler \<Rightarrow> int \<Rightarrow> 'a \<Rightarrow> 'l list \<Rightarrow> ('l, 'w) hub_scheme \<Rightarrow> ('l, 'w) hub_scheme option" where
  "call_listeners handler tag a [] s = Some s"
| "call_listeners handler tag a (l # ls) s =
     (if l \<in> set (hub_alive s) then call_listeners handler tag a ls (call_listener handler tag a l s) else None)"

text \<open>The listeners are those registered when the event is triggered, whatever handlers register or remove.\<close>

definition trigger_event ::
  "('l list \<Rightarrow> 'l list) \<Rightarrow> ('l, 'a, ('l, 'w) hub_scheme) handler \<Rightarrow> int \<Rightarrow> 'a \<Rightarrow> ('l, 'w) hub_scheme
     \<Rightarrow> ('l, 'w) hub_scheme option" where
  "trigger_event order handler tag a s =
     (let s = remove_dead_listeners tag s in
      case map_of (hub_events s) tag of
        None \<Rightarrow> Some s
      | Some ls \<Rightarrow> call_listeners handler tag a (order ls) s)"

subsection \<open>Forwarders and loggers\<close>

text \<open>\<^verbatim>\<open>SourceInfoEventForwarder\<close> hands on what the listener knows of the event.\<close>

definition event_info :: "'l \<Rightarrow> ('l, 'w) hub_scheme \<Rightarrow> int \<times> bool" where
  "event_info l s = (case map_of (hub_info s) l of None \<Rightarrow> (0, False) | Some i \<Rightarrow> i)"

definition source_info_forwarder ::
  "('l \<Rightarrow> int \<times> bool \<Rightarrow> 'a \<Rightarrow> ('l, 'w) hub_scheme \<Rightarrow> (('l, 'w) hub_scheme, unit) outcome)
     \<Rightarrow> ('l, 'a, ('l, 'w) hub_scheme) handler" where
  "source_info_forwarder to_function l a s = to_function l (event_info l s) a s"

text \<open>
  An event is given with its type.  A logger keeps all the fills and the latest 50 of the other events; coroutines
  wait in it for an event of a type, each with a notifier.
\<close>

record ('t, 'e) event_logger =
  el_generic :: "('t \<times> 'e) list"
  el_filled :: "('t \<times> 'e) list"
  el_waiting :: "(nat, 't) pydict"
  el_wait_returns :: "(nat, 't \<times> 'e) pydict"
  el_set :: "nat list"

definition new_event_logger :: "('t, 'e) event_logger" where
  "new_event_logger = \<lparr> el_generic = [], el_filled = [], el_waiting = [], el_wait_returns = [], el_set = [] \<rparr>"

definition event_log :: "('t, 'e) event_logger \<Rightarrow> ('t \<times> 'e) list" where
  "event_log el = el_generic el @ el_filled el"

definition clear_log :: "('t, 'e) event_logger \<Rightarrow> ('t, 'e) event_logger" where
  "clear_log el = el\<lparr>el_generic := [], el_filled := []\<rparr>"

definition store_event :: "'t \<Rightarrow> 't \<times> 'e \<Rightarrow> ('t, 'e) event_logger \<Rightarrow> ('t, 'e) event_logger" where
  "store_event fill_type ev el =
     (if fst ev = fill_type then el\<lparr>el_filled := el_filled el @ [ev]\<rparr>
      else el\<lparr>el_generic := take_last 50 (el_generic el @ [ev])\<rparr>)"

definition notify_waiting :: "'t \<times> 'e \<Rightarrow> ('t, 'e) event_logger \<Rightarrow> ('t, 'e) event_logger" where
  "notify_waiting ev el =
     (let ns = map fst (filter (\<lambda>(n, t). t = fst ev) (el_waiting el)) in
      el\<lparr>el_wait_returns := fold (\<lambda>n. AList.update n ev) ns (el_wait_returns el),
         el_set := fold List.insert ns (el_set el)\<rparr>)"

definition log_event :: "'t \<Rightarrow> 't \<times> 'e \<Rightarrow> ('t, 'e) event_logger \<Rightarrow> ('t, 'e) event_logger" where
  "log_event fill_type ev el = notify_waiting ev (store_event fill_type ev el)"

text \<open>
  The steps of the coroutine \<^verbatim>\<open>wait_for\<close>: it begins to wait, and ends when its notifier is set.  A timeout ends it
  without a further step of the logger.
\<close>

definition begin_wait :: "nat \<Rightarrow> 't \<Rightarrow> ('t, 'e) event_logger \<Rightarrow> ('t, 'e) event_logger" where
  "begin_wait n t el = el\<lparr>el_waiting := AList.update n t (el_waiting el)\<rparr>"

definition end_wait :: "nat \<Rightarrow> ('t, 'e) event_logger \<Rightarrow> (('t \<times> 'e) option \<times> ('t, 'e) event_logger) option" where
  "end_wait n el =
     (if n \<in> set (el_set el)
      then Some (map_of (el_wait_returns el) n,
        el\<lparr>el_wait_returns := AList.delete n (el_wait_returns el), el_waiting := AList.delete n (el_waiting el)\<rparr>)
      else None)"

text \<open>A hub whose listeners are loggers.\<close>

record ('l, 't, 'e) logged_hub = "'l hub" +
  lh_loggers :: "'l \<Rightarrow> ('t, 'e) event_logger"

definition logger_handler :: "'t \<Rightarrow> ('l, 't \<times> 'e, ('l, 't, 'e) logged_hub) handler" where
  "logger_handler fill_type l ev s =
     (Inr (), s\<lparr>lh_loggers := (lh_loggers s)(l := log_event fill_type ev (lh_loggers s l))\<rparr>)"


section \<open>What the hub keeps\<close>

text \<open>A listener is registered at most once for a tag, and no tag is kept without a listener.\<close>

definition hub_ok :: "('l, 'w) hub_scheme \<Rightarrow> bool" where
  "hub_ok s \<longleftrightarrow> dict_ok (hub_events s) \<and> list_all (\<lambda>(t, ls). distinct ls \<and> ls \<noteq> []) (hub_events s)"

definition registered :: "int \<Rightarrow> ('l, 'w) hub_scheme \<Rightarrow> 'l list" where
  "registered tag s = (case map_of (hub_events s) tag of None \<Rightarrow> [] | Some ls \<Rightarrow> ls)"

definition living :: "int \<Rightarrow> ('l, 'w) hub_scheme \<Rightarrow> 'l list" where
  "living tag s = filter (\<lambda>l. l \<in> set (hub_alive s)) (registered tag s)"

lemma list_all_update:
  "list_all P d \<Longrightarrow> P (k, v) \<Longrightarrow> list_all P (AList.update k v d)"
  by (induction d) auto

lemma list_all_delete: "list_all P d \<Longrightarrow> list_all P (AList.delete k d)"
  by (auto simp: list_all_iff AList.delete_eq)

lemma list_all_lookup: "list_all P d \<Longrightarrow> map_of d k = Some v \<Longrightarrow> P (k, v)"
  by (auto simp: list_all_iff dest: map_of_SomeD)

lemma update_entries:
  "dict_ok d \<Longrightarrow> (k', v') \<in> set (AList.update k v d) \<Longrightarrow> (k', v') = (k, v) \<or> ((k', v') \<in> set d \<and> k' \<noteq> k)"
  by (induction d) (auto simp: dict_ok_def rev_image_eqI split: if_splits)

lemma hub_ok_lookup: "hub_ok s \<Longrightarrow> map_of (hub_events s) tag = Some ls \<Longrightarrow> distinct ls \<and> ls \<noteq> []"
  unfolding hub_ok_def by (drule conjunct2) (drule list_all_lookup, auto)

lemma hub_ok_registered: "hub_ok s \<Longrightarrow> distinct (registered tag s)"
  by (auto simp: registered_def dest: hub_ok_lookup split: option.splits)

lemma hub_ok_events_cong: "hub_events s' = hub_events s \<Longrightarrow> hub_ok s' = hub_ok s"
  by (simp add: hub_ok_def)

lemma remove_dead_simps [simp]:
  "hub_alive (remove_dead_listeners tag s) = hub_alive s" "hub_errors (remove_dead_listeners tag s) = hub_errors s"
  "hub_info (remove_dead_listeners tag s) = hub_info s"
  by (simp_all add: remove_dead_listeners_def Let_def split: option.splits)

text \<open>The clean-up repairs a tag whose listeners are all gone.\<close>

lemma remove_dead_ok:
  assumes "dict_ok (hub_events s)" "list_all (\<lambda>(t, ls). distinct ls \<and> (ls \<noteq> [] \<or> t = tag)) (hub_events s)"
  shows "hub_ok (remove_dead_listeners tag s)"
proof (cases "map_of (hub_events s) tag")
  case None
  then have "(tag, ls) \<notin> set (hub_events s)" for ls by (force simp: map_of_eq_None_iff)
  then show ?thesis using assms None by (auto simp: hub_ok_def remove_dead_listeners_def list_all_iff)
next
  case (Some ls)
  have "distinct ls" using list_all_lookup[OF assms(2) Some] by simp
  moreover have "list_all (\<lambda>(t, ls). distinct ls \<and> ls \<noteq> []) (AList.delete tag (hub_events s))"
    using assms(2) by (auto simp: list_all_iff AList.delete_eq)
  moreover have "list_all (\<lambda>(t, ls). distinct ls \<and> ls \<noteq> []) (AList.update tag xs (hub_events s))"
    if "distinct xs" "xs \<noteq> []" for xs
    using assms(2) that unfolding list_all_iff
    by (auto dest!: update_entries[OF assms(1)])
  ultimately show ?thesis
    using assms(1) Some by (simp add: hub_ok_def remove_dead_listeners_def Let_def)
qed

lemma hub_ok_remove_dead: "hub_ok s \<Longrightarrow> hub_ok (remove_dead_listeners tag s)"
  by (rule remove_dead_ok) (auto simp: hub_ok_def list_all_iff)

lemma registered_remove_dead:
  "registered t (remove_dead_listeners tag s) = (if t = tag then living tag s else registered t s)"
proof (cases "map_of (hub_events s) tag")
  case (Some ls)
  then show ?thesis
    by (simp add: registered_def remove_dead_listeners_def living_def Let_def delete_conv' update_conv')
qed (simp add: registered_def remove_dead_listeners_def living_def)

lemma hub_ok_add: "hub_ok s \<Longrightarrow> hub_ok (add_listener gc tag l s)"
proof -
  assume ok: "hub_ok s"
  have "hub_ok (s\<lparr>hub_events := AList.update tag ls (hub_events s)\<rparr>)" if "distinct ls" "ls \<noteq> []" for ls
    using ok that by (simp add: hub_ok_def list_all_update)
  moreover have "List.insert l ls \<noteq> []" for ls by (auto simp: List.insert_def)
  ultimately show ?thesis
    using hub_ok_lookup[OF ok] by (simp add: add_listener_def Let_def hub_ok_remove_dead split: option.splits)
qed

lemma hub_ok_remove: "hub_ok s \<Longrightarrow> hub_ok (remove_listener tag l s)"
proof (cases "map_of (hub_events s) tag")
  case (Some ls)
  assume ok: "hub_ok s"
  let ?s = "s\<lparr>hub_events := AList.update tag (removeAll l ls) (hub_events s)\<rparr>"
  have "list_all (\<lambda>(t, ls). distinct ls \<and> (ls \<noteq> [] \<or> t = tag)) (hub_events s)"
    using ok by (auto simp: hub_ok_def list_all_iff)
  then have "list_all (\<lambda>(t, ls). distinct ls \<and> (ls \<noteq> [] \<or> t = tag)) (hub_events ?s)"
    using hub_ok_lookup[OF ok Some] by (simp add: list_all_update distinct_removeAll)
  then show ?thesis using Some ok by (simp add: remove_listener_def remove_dead_ok hub_ok_def[of s])
qed (simp add: remove_listener_def)

lemma registered_add: "registered t (add_listener False tag l s) = (if t = tag then List.insert l (registered t s) else registered t s)"
  by (auto simp: registered_def add_listener_def Let_def update_conv' split: option.splits)

lemma registered_remove:
  "map_of (hub_events s) tag \<noteq> None \<Longrightarrow> registered t (remove_listener tag l s) =
     (if t = tag then removeAll l (living tag s) else registered t s)"
  by (auto simp: remove_listener_def registered_remove_dead)
     (auto simp: registered_def living_def update_conv' removeAll_filter_not_eq conj_commute split: option.splits)

section \<open>Listeners under a contract\<close>

text \<open>Handlers that keep the registrations in order, whatever they add or remove.\<close>

locale orderly_listeners =
  fixes handler :: "('l, 'a, ('l, 'w) hub_scheme) handler"
  assumes keeps: "hub_ok s \<Longrightarrow> hub_ok (snd (handler l a s))"
begin

lemma call_listener_ok: "hub_ok s \<Longrightarrow> hub_ok (call_listener handler tag a l s)"
  using keeps[of "set_event_info l tag True s" l a]
  by (auto simp: call_listener_def set_event_info_def log_exception_def hub_ok_def split: prod.splits sum.splits)

lemma call_listeners_ok: "hub_ok s \<Longrightarrow> call_listeners handler tag a ls s = Some s' \<Longrightarrow> hub_ok s'"
proof (induction ls arbitrary: s)
  case (Cons l ls)
  then show ?case using call_listener_ok[OF Cons.prems(1)] Cons.IH[of "call_listener handler tag a l s"] by (simp split: if_splits)
qed simp

lemma trigger_event_ok: "hub_ok s \<Longrightarrow> trigger_event order handler tag a s = Some s' \<Longrightarrow> hub_ok s'"
  using call_listeners_ok[OF hub_ok_remove_dead[of s tag]]
  by (auto simp: trigger_event_def Let_def hub_ok_remove_dead split: option.splits)

end

text \<open>Handlers that drop no listener, whatever else they do: all living listeners are called, in order.\<close>

lemma call_listener_alive:
  assumes "\<And>l s. hub_alive (snd (handler l a s)) = hub_alive s"
  shows "hub_alive (call_listener handler tag a l s) = hub_alive s"
  using assms[of l "set_event_info l tag True s"]
  by (auto simp: call_listener_def set_event_info_def log_exception_def split: prod.splits sum.splits)

lemma trigger_event_fold:
  assumes alive: "\<And>l s. hub_alive (snd (handler l a s)) = hub_alive s" and order: "\<And>ls. mset (order ls) = mset ls"
  shows "\<exists>ls. mset ls = mset (living tag s) \<and>
    trigger_event order handler tag a s = Some (fold (call_listener handler tag a) ls (remove_dead_listeners tag s))"
proof (cases "map_of (hub_events (remove_dead_listeners tag s)) tag")
  case None
  then have "living tag s = []" using registered_remove_dead[of tag tag s] by (simp add: registered_def)
  then show ?thesis using None by (auto simp: trigger_event_def Let_def)
next
  case (Some ls)
  have calls: "set ls \<subseteq> set (hub_alive s) \<Longrightarrow> call_listeners handler tag a ls s = Some (fold (call_listener handler tag a) ls s)" for ls s
    by (induction ls arbitrary: s) (auto simp: call_listener_alive[of handler, OF alive])
  have "ls = living tag s" using Some registered_remove_dead[of tag tag s] by (simp add: registered_def)
  moreover have "set (order ls) = set ls" using order by (metis mset_eq_setD)
  ultimately have "call_listeners handler tag a (order ls) (remove_dead_listeners tag s) =
      Some (fold (call_listener handler tag a) (order ls) (remove_dead_listeners tag s))"
    by (intro calls) (auto simp: living_def)
  then show ?thesis using Some order \<open>ls = living tag s\<close> by (auto simp: trigger_event_def Let_def)
qed

locale quiet_listeners = orderly_listeners handler for handler :: "('l, 'a, ('l, 'w) hub_scheme) handler" +
  assumes alive_kept: "hub_alive (snd (handler l a s)) = hub_alive s"
begin

lemma all_living_called:
  assumes "\<And>ls. mset (order ls) = mset ls"
  shows "\<exists>ls. mset ls = mset (living tag s) \<and>
    trigger_event order handler tag a s = Some (fold (call_listener handler tag a) ls (remove_dead_listeners tag s))"
  by (rule trigger_event_fold) (simp_all add: alive_kept assms)

end

text \<open>Event loggers satisfy both contracts.\<close>

interpretation loggers: quiet_listeners "logger_handler fill_type"
  by unfold_locales (auto simp: logger_handler_def hub_ok_def)

lemma call_logger [simp]:
  "lh_loggers (call_listener (logger_handler ft) tag ev l s) = (lh_loggers s)(l := log_event ft ev (lh_loggers s l))"
  "hub_errors (call_listener (logger_handler ft) tag ev l s) = hub_errors s"
  "hub_events (call_listener (logger_handler ft) tag ev l s) = hub_events s"
  by (simp_all add: call_listener_def logger_handler_def set_event_info_def log_exception_def)

lemma fold_loggers:
  "distinct ls \<Longrightarrow> lh_loggers (fold (call_listener (logger_handler ft) tag ev) ls s) l =
     (if l \<in> set ls then log_event ft ev (lh_loggers s l) else lh_loggers s l)"
  "hub_errors (fold (call_listener (logger_handler ft) tag ev) ls s) = hub_errors s"
  by (induction ls arbitrary: s) auto

text \<open>What a logger in a hub gets of an event.\<close>

lemma event_logged:
  assumes "hub_ok s" "\<And>ls. mset (order ls) = mset ls"
  shows "\<exists>s'. trigger_event order (logger_handler ft) tag ev s = Some s' \<and> hub_errors s' = hub_errors s \<and>
    lh_loggers s' = (\<lambda>l. if l \<in> set (registered tag s) \<and> l \<in> set (hub_alive s)
      then log_event ft ev (lh_loggers s l) else lh_loggers s l)"
proof -
  obtain ls where ls: "mset ls = mset (living tag s)" "trigger_event order (logger_handler ft) tag ev s =
      Some (fold (call_listener (logger_handler ft) tag ev) ls (remove_dead_listeners tag s))"
    using loggers.all_living_called[of order tag s ft ev] assms(2) by blast
  have "distinct (living tag s)" using hub_ok_registered[OF assms(1)] by (simp add: living_def)
  then have "distinct ls" "set ls = set (living tag s)" using ls(1) by (metis mset_eq_imp_distinct_iff, metis mset_eq_setD)
  moreover have "lh_loggers (remove_dead_listeners tag s) = lh_loggers s"
    by (simp add: remove_dead_listeners_def Let_def split: option.splits)
  ultimately show ?thesis using ls(2) by (auto simp: fold_loggers living_def)
qed

section \<open>Every living listener is called once\<close>

text \<open>
  A hub that records its calls: the listener, the event and what the listener knows of the event when its handler runs.
  The handler recorded is any function on the hub.
\<close>

record ('l, 'a) called_hub = "'l hub" +
  ch_calls :: "('l \<times> 'a \<times> int \<times> bool) list"

definition recording ::
  "('l, 'a, ('l, 'a, 'w) called_hub_scheme) handler \<Rightarrow> ('l, 'a, ('l, 'a, 'w) called_hub_scheme) handler" where
  "recording handler l a s = handler l a (s\<lparr>ch_calls := ch_calls s @ [(l, a, event_info l s)]\<rparr>)"

lemma recorded_call:
  assumes "\<And>l s. ch_calls (snd (handler l a s)) = ch_calls s"
  shows "ch_calls (call_listener (recording handler) tag a l s) = ch_calls s @ [(l, a, tag, True)]"
proof -
  have info: "event_info l (s\<lparr>hub_info := AList.update l (tag, True) (hub_info s)\<rparr>) = (tag, True)"
    by (simp add: event_info_def update_conv')
  show ?thesis
    using assms[of l "(set_event_info l tag True s)\<lparr>ch_calls := ch_calls s @ [(l, a, tag, True)]\<rparr>"]
    by (auto simp: call_listener_def recording_def info set_event_info_def log_exception_def split: prod.splits sum.splits)
qed

lemma recorded_calls:
  assumes "\<And>l s. ch_calls (snd (handler l a s)) = ch_calls s"
  shows "ch_calls (fold (call_listener (recording handler) tag a) ls s) = ch_calls s @ map (\<lambda>l. (l, a, tag, True)) ls"
  by (induction ls arbitrary: s) (simp_all add: recorded_call[of handler, OF assms])

text \<open>
  C30: an event reaches every living listener registered for its tag exactly once and no other, whatever the order of the
  set of listeners is and whatever their handlers do: raise, which does not keep the event from the others, or add and
  remove listeners.  Each listener knows the tag of the event while it is called.  Assumed is that a handler drops no
  listener and triggers no further event on the hub.
\<close>

theorem event_reaches_living_once:
  assumes "hub_ok s" "\<And>ls. mset (order ls) = mset ls"
    "\<And>l s. hub_alive (snd (handler l a s)) = hub_alive s" "\<And>l s. ch_calls (snd (handler l a s)) = ch_calls s"
  shows "\<exists>s' ls. trigger_event order (recording handler) tag a s = Some s' \<and>
    ch_calls s' = ch_calls s @ map (\<lambda>l. (l, a, tag, True)) ls \<and> distinct ls \<and>
    set ls = {l. l \<in> set (registered tag s) \<and> l \<in> set (hub_alive s)}"
proof -
  have "hub_alive (snd (recording handler l a s)) = hub_alive s" for l s by (simp add: recording_def assms(3))
  then obtain ls where ls: "mset ls = mset (living tag s)" "trigger_event order (recording handler) tag a s =
      Some (fold (call_listener (recording handler) tag a) ls (remove_dead_listeners tag s))"
    using trigger_event_fold[of "recording handler" a order tag s] assms(2) by blast
  have "distinct (living tag s)" using hub_ok_registered[OF assms(1)] by (simp add: living_def)
  then have "distinct ls" "set ls = set (living tag s)" using ls(1) by (metis mset_eq_imp_distinct_iff, metis mset_eq_setD)
  moreover have "ch_calls (remove_dead_listeners tag s) = ch_calls s"
    by (simp add: remove_dead_listeners_def Let_def split: option.splits)
  ultimately show ?thesis using ls(2) recorded_calls[of handler, OF assms(4)] by (auto simp: living_def)
qed

text \<open>Of three listeners, of which one is gone, the handler of the first raises and removes the last: the last is called.\<close>

definition raising_handler :: "(nat, string, (nat, string) called_hub) handler" where
  "raising_handler l a s = (if l = 1 then (Inl RuntimeError, remove_listener 7 3 s) else (Inr (), s))"

definition three_listeners :: "(nat, string) called_hub" where
  "three_listeners = \<lparr> hub_events = [(7, [1, 2, 3])], hub_alive = [3, 1], hub_info = [], hub_errors = [], ch_calls = [] \<rparr>"

theorem event_reaches_living_once_witness:
  "\<exists>s'. trigger_event id (recording raising_handler) 7 ''fill'' three_listeners = Some s' \<and>
     set (ch_calls s') = {(1, ''fill'', 7, True), (3, ''fill'', 7, True)} \<and> hub_errors s' = [7]"
proof -
  have ok: "hub_ok three_listeners" by (simp add: hub_ok_def dict_ok_def three_listeners_def)
  have kept: "hub_alive (snd (raising_handler l a s)) = hub_alive s" "ch_calls (snd (raising_handler l a s)) = ch_calls s" for l a s
    by (simp_all add: raising_handler_def remove_listener_def remove_dead_listeners_def Let_def split: option.splits)
  obtain s' ls where s': "trigger_event id (recording raising_handler) 7 ''fill'' three_listeners = Some s'"
      "ch_calls s' = ch_calls three_listeners @ map (\<lambda>l. (l, ''fill'', 7, True)) ls"
      "set ls = {l. l \<in> set (registered 7 three_listeners) \<and> l \<in> set (hub_alive three_listeners)}"
    using event_reaches_living_once[where order = id and handler = raising_handler and tag = 7 and a = "''fill''", OF ok _ kept] by auto
  have "map_option hub_errors (trigger_event id (recording raising_handler) 7 ''fill'' three_listeners) = Some [7]" by code_simp
  moreover have "set ls = {1, 3}" using s'(3) by (auto simp: three_listeners_def registered_def)
  ultimately show ?thesis using s'(1,2) by (auto simp: three_listeners_def)
qed

section \<open>Loggers\<close>

text \<open>What a logger keeps of a sequence of events: all fills and the latest 50 of the others.\<close>

lemma logged_events:
  "el_filled (fold (log_event ft) evs new_event_logger) = filter (\<lambda>ev. fst ev = ft) evs"
  "el_generic (fold (log_event ft) evs new_event_logger) = take_last 50 (filter (\<lambda>ev. fst ev \<noteq> ft) evs)"
proof -
  have step: "el_filled (log_event ft ev el) = el_filled el @ (if fst ev = ft then [ev] else [])"
    "el_generic (log_event ft ev el) = (if fst ev = ft then el_generic el else take_last 50 (el_generic el @ [ev]))"
    for ev and el :: "('a, 'b) event_logger"
    by (simp_all add: log_event_def notify_waiting_def store_event_def Let_def)
  show "el_filled (fold (log_event ft) evs new_event_logger) = filter (\<lambda>ev. fst ev = ft) evs"
    by (induction evs rule: rev_induct) (simp_all add: step new_event_logger_def)
  show "el_generic (fold (log_event ft) evs new_event_logger) = take_last 50 (filter (\<lambda>ev. fst ev \<noteq> ft) evs)"
    by (induction evs rule: rev_induct) (simp_all add: step new_event_logger_def take_last_def[of _ "[]"])
qed

text \<open>
  A coroutine that has timed out stays among the waiting: every later event of its type is kept for it.
\<close>

lemma timed_out_wait_remains:
  "el_wait_returns (log_event ft (t, e) (begin_wait n t new_event_logger)) = [(n, (t, e))]"
  "el_waiting (log_event ft (t, e) (begin_wait n t new_event_logger)) = [(n, t)]"
  by (simp_all add: log_event_def notify_waiting_def store_event_def begin_wait_def new_event_logger_def)

section \<open>Handlers that interfere\<close>

text \<open>
  A listener that is dropped by the handler of one called before it is called through a null object: the handler of
  1 drops 2.
\<close>

definition dropping_handler :: "(nat, unit, nat hub) handler" where
  "dropping_handler l a s = (Inr (), if l = 1 then s\<lparr>hub_alive := removeAll 2 (hub_alive s)\<rparr> else s)"

lemma dropped_listener_crashes:
  "trigger_event id dropping_handler 7 () \<lparr> hub_events = [(7, [1, 2])], hub_alive = [1, 2], hub_info = [], hub_errors = [] \<rparr> = None"
  by (simp add: trigger_event_def Let_def remove_dead_listeners_def dropping_handler_def call_listener_def set_event_info_def)

text \<open>
  A handler that triggers another event its listener is registered for finds its own tag cleared afterwards: here
  the handler of event 7 triggers event 8 and then reads the tag.
\<close>

record 'l tag_hub = "'l hub" + th_seen :: "int list"

definition see_tag :: "(nat, int, nat tag_hub) handler" where
  "see_tag = source_info_forwarder (\<lambda>l info a s. (Inr (), s\<lparr>th_seen := th_seen s @ [fst info]\<rparr>))"

definition nesting_handler :: "(nat, int, nat tag_hub) handler" where
  "nesting_handler l a s = (case trigger_event id see_tag 8 a s of
       None \<Rightarrow> (Inl RuntimeError, s)
     | Some s \<Rightarrow> see_tag l a s)"

lemma nested_event_clears_tag:
  "map_option th_seen (trigger_event id nesting_handler 7 0
     \<lparr> hub_events = [(7, [1]), (8, [1])], hub_alive = [1], hub_info = [], hub_errors = [], th_seen = [] \<rparr>) = Some [8, 0]"
  by (simp add: trigger_event_def Let_def remove_dead_listeners_def nesting_handler_def see_tag_def source_info_forwarder_def
      call_listener_def set_event_info_def event_info_def)

end
