(* ===== verification/Clock.thy ===== *)
theory Clock
  imports Prelude
begin

text \<open>
  The clock that drives connectors and strategies (\<^verbatim>\<open>hummingbot/core/clock.pyx\<close>, \<^verbatim>\<open>core/time_iterator.pyx\<close>) and
  the network state of an iterator (\<^verbatim>\<open>core/network_iterator.pyx\<close>).

  The state holds the clock, what every time iterator notes of it (its timestamp, and whether it is attached to the
  clock), and, as an extension, whatever the iterators work on.  The methods of the iterators are arguments.  A
  Python list is iterated by position, so that an iterator added or removed by a tick changes the iteration;
  the list the context manager creates exists from then on.  A loop that need not end is a partial function, whose
  value \<open>None\<close> is not ending; readings of the computer's clock are arguments.
\<close>

record 'c clock =
  ck_backtest :: bool
  ck_tick_size :: seconds
  ck_start_time :: seconds
  ck_end_time :: "seconds option"
  ck_current_tick :: seconds
  ck_children :: "'c list"
  ck_context :: "'c list"
  ck_in_context :: bool
  ck_started :: bool
  ck_errors :: nat
  ti_timestamp :: "'c \<Rightarrow> seconds option"
  ti_attached :: "'c \<Rightarrow> bool"

datatype tick_result = Ticked | Stop_Iteration | Failed

record ('c, 's) iterator_ops =
  op_c_start :: "'c \<Rightarrow> seconds \<Rightarrow> 's \<Rightarrow> ('s, unit) outcome"
  op_c_stop :: "'c \<Rightarrow> 's \<Rightarrow> ('s, unit) outcome"
  op_c_tick :: "'c \<Rightarrow> seconds \<Rightarrow> 's \<Rightarrow> tick_result \<times> 's"

text \<open>\<^verbatim>\<open>TimeIterator\<close> itself, the base class of connectors and strategies.\<close>

definition iterator_start :: "'c \<Rightarrow> seconds \<Rightarrow> ('c, 'w) clock_scheme \<Rightarrow> (('c, 'w) clock_scheme, unit) outcome" where
  "iterator_start c t s =
     (Inr (), s\<lparr>ti_attached := (ti_attached s)(c := True), ti_timestamp := (ti_timestamp s)(c := Some t)\<rparr>)"

definition iterator_stop :: "'c \<Rightarrow> ('c, 'w) clock_scheme \<Rightarrow> (('c, 'w) clock_scheme, unit) outcome" where
  "iterator_stop c s =
     (Inr (), s\<lparr>ti_attached := (ti_attached s)(c := False), ti_timestamp := (ti_timestamp s)(c := None)\<rparr>)"

definition iterator_tick :: "'c \<Rightarrow> seconds \<Rightarrow> ('c, 'w) clock_scheme \<Rightarrow> tick_result \<times> ('c, 'w) clock_scheme" where
  "iterator_tick c t s = (Ticked, s\<lparr>ti_timestamp := (ti_timestamp s)(c := Some t)\<rparr>)"

definition base_ops :: "('c, ('c, 'w) clock_scheme) iterator_ops" where
  "base_ops = \<lparr> op_c_start = iterator_start, op_c_stop = iterator_stop, op_c_tick = iterator_tick \<rparr>"

text \<open>\<^verbatim>\<open>now // tick_size * tick_size\<close>, and the tick after it.\<close>

definition floor_tick :: "seconds \<Rightarrow> seconds \<Rightarrow> seconds" where
  "floor_tick tick_size now = of_int \<lfloor>now / tick_size\<rfloor> * tick_size"

definition next_tick :: "seconds \<Rightarrow> seconds \<Rightarrow> seconds" where
  "next_tick tick_size now = (of_int \<lfloor>now / tick_size\<rfloor> + 1) * tick_size"

definition new_clock :: "bool \<Rightarrow> seconds \<Rightarrow> seconds \<Rightarrow> seconds option \<Rightarrow> seconds \<Rightarrow> 'c clock" where
  "new_clock backtest tick_size start end_time now =
     \<lparr> ck_backtest = backtest, ck_tick_size = tick_size, ck_start_time = start, ck_end_time = end_time,
       ck_current_tick = (if backtest then start else floor_tick tick_size now), ck_children = [], ck_context = [],
       ck_in_context = False, ck_started = False, ck_errors = 0, ti_timestamp = (\<lambda>_. None), ti_attached = (\<lambda>_. False) \<rparr>"

subsection \<open>The context and its iterators\<close>

text \<open>
  A \<^verbatim>\<open>for\<close> loop over a list of the state, from a position on: the body gives \<open>Some\<close> to leave the loop, by an exception or
  a \<^verbatim>\<open>return\<close>.
\<close>

partial_function (option) for_live ::
  "('c \<Rightarrow> 's \<Rightarrow> 'r option \<times> 's) \<Rightarrow> ('s \<Rightarrow> 'c list) \<Rightarrow> nat \<Rightarrow> 's \<Rightarrow> ('r option \<times> 's) option" where
  "for_live body list i s =
     (if i < length (list s)
      then (case body (list s ! i) s of (r, s') \<Rightarrow> if r \<noteq> None then Some (r, s') else for_live body list (Suc i) s')
      else Some (None, s))"

text \<open>A body that only calls a method: its exception leaves the loop and the function.\<close>

definition calling :: "('c \<Rightarrow> 's \<Rightarrow> ('s, unit) outcome) \<Rightarrow> 'c \<Rightarrow> 's \<Rightarrow> py_error option \<times> 's" where
  "calling f c s = (case f c s of (Inl e, s) \<Rightarrow> (Some e, s) | (Inr u, s) \<Rightarrow> (None, s))"

definition for_calls ::
  "('c \<Rightarrow> 's \<Rightarrow> ('s, unit) outcome) \<Rightarrow> ('s \<Rightarrow> 'c list) \<Rightarrow> 's \<Rightarrow> ('s, unit) outcome option" where
  "for_calls f list s = map_option (\<lambda>(r, s). (case r of None \<Rightarrow> Inr () | Some e \<Rightarrow> Inl e, s)) (for_live (calling f) list 0 s)"

definition enter_context :: "('c, 'w) clock_scheme \<Rightarrow> (('c, 'w) clock_scheme, unit) outcome" where
  "enter_context s =
     (if ck_in_context s then (Inl RuntimeError, s)
      else (Inr (), s\<lparr>ck_context := ck_children s, ck_in_context := True\<rparr>))"

definition exit_context ::
  "('c, ('c, 'w) clock_scheme) iterator_ops \<Rightarrow> ('c, 'w) clock_scheme \<Rightarrow> (('c, 'w) clock_scheme, unit) outcome option" where
  "exit_context ops s =
     (if ck_in_context s
      then map_option (\<lambda>r. and_then r (\<lambda>_ s. (Inr (), s\<lparr>ck_in_context := False\<rparr>))) (for_calls (op_c_stop ops) ck_context s)
      else Some (Inr (), s))"

definition add_iterator ::
  "('c, ('c, 'w) clock_scheme) iterator_ops \<Rightarrow> 'c \<Rightarrow> ('c, 'w) clock_scheme \<Rightarrow> (('c, 'w) clock_scheme, unit) outcome" where
  "add_iterator ops c s =
     (let s = (if ck_in_context s then s\<lparr>ck_context := ck_context s @ [c]\<rparr> else s) in
      and_then (if ck_started s then op_c_start ops c (ck_current_tick s) s else (Inr (), s))
        (\<lambda>_ s. (Inr (), s\<lparr>ck_children := ck_children s @ [c]\<rparr>)))"

text \<open>\<^verbatim>\<open>list.remove\<close> removes the first occurrence and raises when there is none.\<close>

definition remove_iterator ::
  "('c, ('c, 'w) clock_scheme) iterator_ops \<Rightarrow> 'c \<Rightarrow> ('c, 'w) clock_scheme \<Rightarrow> (('c, 'w) clock_scheme, unit) outcome" where
  "remove_iterator ops c s =
     and_then (if ck_in_context s \<and> c \<in> set (ck_context s)
         then and_then (op_c_stop ops c s) (\<lambda>_ s.
           if c \<in> set (ck_context s) then (Inr (), s\<lparr>ck_context := remove1 c (ck_context s)\<rparr>) else (Inl ValueError, s))
         else (Inr (), s))
       (\<lambda>_ s. if c \<in> set (ck_children s) then (Inr (), s\<lparr>ck_children := remove1 c (ck_children s)\<rparr>)
               else (Inl ValueError, s))"

subsection \<open>Ticks\<close>

text \<open>
  One call of \<^verbatim>\<open>c_tick\<close> with the current tick: exceptions are logged, \<^verbatim>\<open>StopIteration\<close> leaves the loop.
\<close>

definition tick_child ::
  "('c, ('c, 'w) clock_scheme) iterator_ops \<Rightarrow> 'c \<Rightarrow> ('c, 'w) clock_scheme \<Rightarrow> unit option \<times> ('c, 'w) clock_scheme" where
  "tick_child ops c s = (case op_c_tick ops c (ck_current_tick s) s of
       (Ticked, s) \<Rightarrow> (None, s)
     | (Stop_Iteration, s) \<Rightarrow> (Some (), s)
     | (Failed, s) \<Rightarrow> (None, s\<lparr>ck_errors := Suc (ck_errors s)\<rparr>))"

definition tick_round ::
  "('c, ('c, 'w) clock_scheme) iterator_ops \<Rightarrow> (('c, 'w) clock_scheme \<Rightarrow> 'c list) \<Rightarrow> ('c, 'w) clock_scheme
     \<Rightarrow> (unit option \<times> ('c, 'w) clock_scheme) option" where
  "tick_round ops list s = for_live (tick_child ops) list 0 s"

definition detach :: "'c list \<Rightarrow> ('c, 'w) clock_scheme \<Rightarrow> ('c, 'w) clock_scheme" where
  "detach cs s = s\<lparr>ti_attached := (\<lambda>c. if c \<in> set cs then False else ti_attached s c)\<rparr>"

definition reached :: "seconds option \<Rightarrow> seconds \<Rightarrow> bool" where
  "reached until now = (case until of None \<Rightarrow> False | Some t \<Rightarrow> now \<ge> t)"

text \<open>The iterators are started once, by the first run.\<close>

definition start_once ::
  "('c, ('c, 'w) clock_scheme) iterator_ops \<Rightarrow> (('c, 'w) clock_scheme \<Rightarrow> 'c list) \<Rightarrow> (('c, 'w) clock_scheme \<Rightarrow> seconds)
     \<Rightarrow> ('c, 'w) clock_scheme \<Rightarrow> (('c, 'w) clock_scheme, unit) outcome option" where
  "start_once ops list time s =
     (if ck_started s then Some (Inr (), s)
      else map_option (\<lambda>r. and_then r (\<lambda>_ s. (Inr (), s\<lparr>ck_started := True\<rparr>)))
        (for_calls (\<lambda>c s. op_c_start ops c (time s) s) list s))"

text \<open>
  \<^verbatim>\<open>run_til\<close>: the iterators are started with the tick of the current time.  Each pass reads the clock, ends when the
  time is reached (never for a NaN), and otherwise sleeps until the next tick.  The list of readings is what the
  clock shows in the passes; the result tells whether the loop has ended.  A \<^verbatim>\<open>StopIteration\<close> ends the run, too,
  and when it ends the iterators are detached.
\<close>

definition begin_run ::
  "('c, ('c, 'w) clock_scheme) iterator_ops \<Rightarrow> seconds \<Rightarrow> ('c, 'w) clock_scheme
     \<Rightarrow> (('c, 'w) clock_scheme, unit) outcome option" where
  "begin_run ops now s =
     (if \<not> ck_in_context s then Some (Inl RuntimeError, s)
      else start_once ops ck_context ck_current_tick (s\<lparr>ck_current_tick := floor_tick (ck_tick_size s) now\<rparr>))"

definition run_pass ::
  "('c, ('c, 'w) clock_scheme) iterator_ops \<Rightarrow> seconds option \<Rightarrow> seconds \<Rightarrow> ('c, 'w) clock_scheme
     \<Rightarrow> (unit option \<times> ('c, 'w) clock_scheme) option" where
  "run_pass ops until now s =
     (if reached until now then Some (Some (), s)
      else tick_round ops ck_context (s\<lparr>ck_current_tick := next_tick (ck_tick_size s) now\<rparr>))"

fun run_loop ::
  "('c, ('c, 'w) clock_scheme) iterator_ops \<Rightarrow> seconds option \<Rightarrow> seconds list \<Rightarrow> ('c, 'w) clock_scheme
     \<Rightarrow> (bool \<times> ('c, 'w) clock_scheme) option" where
  "run_loop ops until [] s = Some (False, s)"
| "run_loop ops until (now # nows) s = (case run_pass ops until now s of
       None \<Rightarrow> None
     | Some (Some u, s) \<Rightarrow> Some (True, detach (ck_context s) s)
     | Some (None, s) \<Rightarrow> run_loop ops until nows s)"

text \<open>\<^verbatim>\<open>backtest_til\<close> advances by itself until the time is reached; a NaN is never reached.\<close>

partial_function (option) backtest_loop ::
  "('c, ('c, 'w) clock_scheme) iterator_ops \<Rightarrow> seconds option \<Rightarrow> ('c, 'w) clock_scheme \<Rightarrow> ('c, 'w) clock_scheme option" where
  "backtest_loop ops until s =
     (if reached until (ck_current_tick s) then Some s
      else Option.bind (tick_round ops ck_children (s\<lparr>ck_current_tick := ck_current_tick s + ck_tick_size s\<rparr>))
        (\<lambda>(r, s). if r \<noteq> None then Some s else backtest_loop ops until s))"

definition backtest_til ::
  "('c, ('c, 'w) clock_scheme) iterator_ops \<Rightarrow> seconds option \<Rightarrow> ('c, 'w) clock_scheme
     \<Rightarrow> (('c, 'w) clock_scheme, unit) outcome option" where
  "backtest_til ops until s = Option.bind (start_once ops ck_children ck_start_time s) (\<lambda>r. case r of
        (Inl e, s) \<Rightarrow> Some (Inl e, s)
      | (Inr u, s) \<Rightarrow> map_option (\<lambda>s. (Inr (), detach (ck_children s) s)) (backtest_loop ops until s))"

definition backtest ::
  "('c, ('c, 'w) clock_scheme) iterator_ops \<Rightarrow> ('c, 'w) clock_scheme \<Rightarrow> (('c, 'w) clock_scheme, unit) outcome option" where
  "backtest ops s = backtest_til ops (ck_end_time s) s"

section \<open>Iterators under a contract\<close>

text \<open>
  The contract of an iterator: its tick raises at most exceptions the clock logs, and leaves the clock alone.
\<close>

definition clock_part :: "('c, 'w) clock_scheme \<Rightarrow> seconds \<times> seconds \<times> 'c list \<times> 'c list \<times> bool" where
  "clock_part s = (ck_tick_size s, ck_current_tick s, ck_children s, ck_context s, ck_started s)"

lemma clock_part_eqs:
  "clock_part s = clock_part s' \<longleftrightarrow> ck_tick_size s = ck_tick_size s' \<and> ck_current_tick s = ck_current_tick s' \<and>
     ck_children s = ck_children s' \<and> ck_context s = ck_context s' \<and> ck_started s = ck_started s'"
  by (simp add: clock_part_def)

text \<open>A loop over a list that the body leaves alone runs the body for every element.\<close>

lemma for_live_all:
  assumes "\<And>c s. fst (body c s) = None" "\<And>c s. list (snd (body c s)) = list s"
  shows "for_live body list i s = Some (None, fold (\<lambda>c s. snd (body c s)) (drop i (list s)) s)"
proof (induction "length (list s) - i" arbitrary: i s)
  case 0
  then show ?case by (simp add: for_live.simps)
next
  case (Suc n)
  then have i: "i < length (list s)" by simp
  let ?s = "snd (body (list s ! i) s)"
  have "for_live body list i s = for_live body list (Suc i) ?s"
    using i assms(1) by (subst for_live.simps) (simp add: split_beta)
  moreover have "drop i (list s) = list s ! i # drop (Suc i) (list s)" using i by (simp add: Cons_nth_drop_Suc)
  ultimately show ?case using Suc.hyps(1)[of ?s "Suc i"] Suc.hyps(2) assms(2) by simp
qed

locale steady_iterators =
  fixes ops :: "('c, ('c, 'w) clock_scheme) iterator_ops"
  assumes goes_on: "fst (op_c_tick ops c t s) \<noteq> Stop_Iteration"
    and leaves_clock: "clock_part (snd (op_c_tick ops c t s)) = clock_part s"
begin

lemma tick_child_steady: "fst (tick_child ops c s) = None \<and> clock_part (snd (tick_child ops c s)) = clock_part s"
  using goes_on[of c "ck_current_tick s" s] leaves_clock[of c "ck_current_tick s" s]
  by (auto simp: tick_child_def clock_part_def split: prod.splits tick_result.splits)

text \<open>A round ticks every iterator of the list once, in order.\<close>

lemma tick_round_fold:
  "tick_round ops ck_context s = Some (None, fold (\<lambda>c s. snd (tick_child ops c s)) (ck_context s) s)"
  "tick_round ops ck_children s = Some (None, fold (\<lambda>c s. snd (tick_child ops c s)) (ck_children s) s)"
  using for_live_all[of "tick_child ops" ck_context 0 s] for_live_all[of "tick_child ops" ck_children 0 s] tick_child_steady
  by (simp_all add: tick_round_def clock_part_eqs)

lemma fold_ticks_clock: "clock_part (fold (\<lambda>c s. snd (tick_child ops c s)) cs s) = clock_part s"
  by (induction cs arbitrary: s) (simp_all add: tick_child_steady)

text \<open>A backtest ends, at the first tick that reaches the time.\<close>

lemma backtest_loop_ends:
  assumes "0 < ck_tick_size s"
  shows "\<exists>s'. backtest_loop ops (Some t) s = Some s' \<and> ck_current_tick s' =
    ck_current_tick s + of_nat (nat \<lceil>(t - ck_current_tick s) / ck_tick_size s\<rceil>) * ck_tick_size s"
  using assms
proof (induction "nat \<lceil>(t - ck_current_tick s) / ck_tick_size s\<rceil>" arbitrary: s)
  case 0
  then have "t \<le> ck_current_tick s" by (simp add: divide_le_0_iff)
  then show ?case using 0 by (subst backtest_loop.simps) (auto simp: reached_def)
next
  case (Suc n)
  let ?k = "(t - ck_current_tick s) / ck_tick_size s"
  have "0 < ?k" using Suc.hyps(2) by linarith
  then have more: "\<not> reached (Some t) (ck_current_tick s)" using Suc.prems by (simp add: reached_def zero_less_divide_iff)
  let ?s1 = "s\<lparr>ck_current_tick := ck_current_tick s + ck_tick_size s\<rparr>"
  let ?s2 = "fold (\<lambda>c s. snd (tick_child ops c s)) (ck_children ?s1) ?s1"
  have step: "backtest_loop ops (Some t) s = backtest_loop ops (Some t) ?s2"
    using more tick_round_fold(2)[of ?s1] by (subst backtest_loop.simps) simp
  have part: "ck_tick_size ?s2 = ck_tick_size s" "ck_current_tick ?s2 = ck_current_tick s + ck_tick_size s"
    using fold_ticks_clock[of "ck_children ?s1" ?s1] by (simp_all add: clock_part_eqs)
  have "(t - ck_current_tick ?s2) / ck_tick_size ?s2 = ?k - 1"
    using Suc.prems part by (simp add: field_simps)
  then have n: "n = nat \<lceil>(t - ck_current_tick ?s2) / ck_tick_size ?s2\<rceil>" using Suc.hyps(2) by simp
  obtain s' where "backtest_loop ops (Some t) ?s2 = Some s'" "ck_current_tick s' = ck_current_tick ?s2 + of_nat n * ck_tick_size ?s2"
    using Suc.hyps(1)[OF n] n Suc.prems part by auto
  then show ?case using step part Suc.hyps(2)[symmetric] by (auto simp: algebra_simps)
qed

end

text \<open>Iterators that start without an exception and leave the clock alone, too.\<close>

locale starting_iterators = steady_iterators ops for ops :: "('c, ('c, 'w) clock_scheme) iterator_ops" +
  assumes starts: "fst (op_c_start ops c t s) = Inr ()"
    and start_leaves_clock: "clock_part (snd (op_c_start ops c t s)) = clock_part s"
begin

lemma start_all:
  "\<exists>s'. for_calls (\<lambda>c s. op_c_start ops c (time s) s) ck_children s = Some (Inr (), s') \<and> clock_part s' = clock_part s"
proof -
  let ?body = "calling (\<lambda>c s. op_c_start ops c (time s) s)"
  have body: "fst (?body c s) = None" "clock_part (snd (?body c s)) = clock_part s" for c s
    using starts[of c "time s" s] start_leaves_clock[of c "time s" s]
    by (auto simp: calling_def split: prod.splits sum.splits)
  moreover have "clock_part (fold (\<lambda>c s. snd (?body c s)) cs s) = clock_part s" for cs
    by (induction cs arbitrary: s) (simp_all add: body(2))
  ultimately show ?thesis
    using for_live_all[of ?body ck_children 0 s] by (simp add: for_calls_def clock_part_eqs)
qed

lemma start_once_all:
  "\<exists>s'. start_once ops ck_children time s = Some (Inr (), s') \<and> ck_tick_size s' = ck_tick_size s \<and> ck_current_tick s' = ck_current_tick s"
  using start_all[of time s] by (auto simp: start_once_def clock_part_eqs)

lemma backtest_til_ends:
  assumes "0 < ck_tick_size s"
  shows "\<exists>s'. backtest_til ops (Some t) s = Some (Inr (), s') \<and> ck_current_tick s' =
    ck_current_tick s + of_nat (nat \<lceil>(t - ck_current_tick s) / ck_tick_size s\<rceil>) * ck_tick_size s"
proof -
  obtain s1 where s1: "start_once ops ck_children ck_start_time s = Some (Inr (), s1)"
      "ck_tick_size s1 = ck_tick_size s" "ck_current_tick s1 = ck_current_tick s"
    using start_once_all by blast
  obtain s2 where "backtest_loop ops (Some t) s1 = Some s2" "ck_current_tick s2 =
      ck_current_tick s + of_nat (nat \<lceil>(t - ck_current_tick s) / ck_tick_size s\<rceil>) * ck_tick_size s"
    using backtest_loop_ends[of s1 t] assms s1 by auto
  then show ?thesis using s1 by (simp add: backtest_til_def detach_def)
qed

end

text \<open>The base class of the iterators satisfies the contracts.\<close>

interpretation base: starting_iterators base_ops
  by unfold_locales (simp_all add: base_ops_def iterator_tick_def iterator_start_def clock_part_def)

text \<open>
  C28: a backtest ends, having advanced by the number of ticks that lie between the clock and the end of the
  simulation, whatever the iterators do, as long as they leave the clock alone and raise no \<^verbatim>\<open>StopIteration\<close>.
\<close>

theorem backtest_ends:
  assumes "starting_iterators ops" "0 < ck_tick_size s" "ck_end_time s = Some t"
  shows "\<exists>s'. backtest ops s = Some (Inr (), s') \<and> ck_current_tick s' =
    ck_current_tick s + of_nat (nat \<lceil>(t - ck_current_tick s) / ck_tick_size s\<rceil>) * ck_tick_size s"
  using starting_iterators.backtest_til_ends[OF assms(1,2)] assms(3) by (simp add: backtest_def)

theorem backtest_ends_witness:
  "\<exists>s'. backtest base_ops (new_clock True 60 1000 (Some 1150) 5 \<lparr>ck_children := [1, 2 :: nat]\<rparr>) = Some (Inr (), s') \<and>
    ck_current_tick s' = 1180"
proof -
  have "\<lceil>(5 :: rat) / 2\<rceil> = 3" by (simp add: ceiling_eq_iff)
  then show ?thesis
    using backtest_ends[OF base.starting_iterators_axioms, of "new_clock True 60 1000 (Some 1150) 5 \<lparr>ck_children := [1, 2 :: nat]\<rparr>" 1150]
    by (simp add: new_clock_def)
qed

section \<open>Ticks in real time\<close>

lemma next_tick_after: "0 < d \<Longrightarrow> now < next_tick d now \<and> next_tick d now \<le> now + d"
proof -
  assume d: "0 < d"
  have "now / d < of_int \<lfloor>now / d\<rfloor> + 1" by linarith
  then have "of_int \<lfloor>now / d\<rfloor> * d \<le> now" "now < (of_int \<lfloor>now / d\<rfloor> + 1) * d"
    using d of_int_floor_le[of "now / d"] by (metis pos_le_divide_eq, metis pos_divide_less_eq)
  then show ?thesis by (simp add: next_tick_def algebra_simps)
qed

lemma tick_child_base:
  "tick_child base_ops c s = (None, s\<lparr>ti_timestamp := (ti_timestamp s)(c := Some (ck_current_tick s))\<rparr>)"
  by (simp add: tick_child_def base_ops_def iterator_tick_def)

lemma base_fold_ticks:
  "ti_timestamp (fold (\<lambda>c s. snd (tick_child base_ops c s)) cs s) c =
     (if c \<in> set cs then Some (ck_current_tick s) else ti_timestamp s c)"
  by (induction cs arbitrary: s) (auto simp: tick_child_base)

lemma run_pass_base:
  "run_pass base_ops until now s = Some (r, s') \<Longrightarrow> r = None \<Longrightarrow>
   ck_current_tick s' = next_tick (ck_tick_size s) now \<and> ck_tick_size s' = ck_tick_size s \<and>
   (\<forall>c \<in> set (ck_context s'). ti_timestamp s' c = Some (ck_current_tick s'))"
  using base.fold_ticks_clock[of "ck_context s" "s\<lparr>ck_current_tick := next_tick (ck_tick_size s) now\<rparr>"]
  by (auto simp: run_pass_def base.tick_round_fold clock_part_eqs base_fold_ticks split: if_splits)

lemma run_loop_split:
  "run_loop ops until (nows @ [now]) s = Some (False, s') \<Longrightarrow>
   \<exists>s1. run_loop ops until nows s = Some (False, s1) \<and> run_pass ops until now s1 = Some (None, s')"
  by (induction nows arbitrary: s) (auto split: option.splits)

lemma run_loop_size:
  "run_loop base_ops until nows s = Some (False, s') \<Longrightarrow> ck_tick_size s' = ck_tick_size s"
  by (induction nows arbitrary: s) (auto dest!: run_pass_base split: option.splits)

text \<open>
  While the clock runs, all iterators of its context have the same timestamp after every round, the tick of the
  clock, a multiple of the tick size that is later than the reading of the clock by at most one tick size.
\<close>

theorem iterators_share_tick:
  assumes "run_loop base_ops until (nows @ [now]) s = Some (False, s')" "0 < ck_tick_size s"
  shows "(\<forall>c \<in> set (ck_context s'). ti_timestamp s' c = Some (ck_current_tick s')) \<and>
    (\<exists>k :: int. ck_current_tick s' = of_int k * ck_tick_size s) \<and>
    now < ck_current_tick s' \<and> ck_current_tick s' \<le> now + ck_tick_size s"
proof -
  obtain s1 where "run_loop base_ops until nows s = Some (False, s1)" "run_pass base_ops until now s1 = Some (None, s')"
    using run_loop_split[OF assms(1)] by blast
  then have "ck_current_tick s' = next_tick (ck_tick_size s) now"
    "\<forall>c \<in> set (ck_context s'). ti_timestamp s' c = Some (ck_current_tick s')"
    using run_pass_base[of until now s1 None s'] run_loop_size by fastforce+
  moreover have "next_tick d now = of_int (\<lfloor>now / d\<rfloor> + 1) * d" for d by (simp add: next_tick_def)
  ultimately show ?thesis using next_tick_after[OF assms(2), of now] by metis
qed

theorem iterators_share_tick_witness:
  "\<exists>s'. run_loop base_ops None ([61] @ [119]) (new_clock False 60 0 None 5 \<lparr>ck_context := [1, 2 :: nat]\<rparr>) = Some (False, s') \<and>
     ti_timestamp s' 1 = Some 120 \<and> 119 < ck_current_tick s'"
proof -
  have f: "\<lfloor>(61 :: rat) / 60\<rfloor> = 1" "\<lfloor>(119 :: rat) / 60\<rfloor> = 1" by (simp_all add: floor_eq_iff)
  obtain s' where s': "run_loop base_ops None ([61] @ [119]) (new_clock False 60 0 None 5 \<lparr>ck_context := [1, 2 :: nat]\<rparr>) = Some (False, s')"
      "ck_current_tick s' = 120" "ck_context s' = [1, 2]"
    by (simp add: run_pass_def reached_def base.tick_round_fold tick_child_base new_clock_def next_tick_def f)
  from iterators_share_tick[OF s'(1)] show ?thesis using s' by (simp add: new_clock_def)
qed

text \<open>
  An iterator that is removed by its own tick makes the clock skip the next one in that round: the iterator 1 removes
  itself, and 2 is not ticked.
\<close>

definition leaving_ops :: "(nat, nat clock) iterator_ops" where
  "leaving_ops = base_ops\<lparr>op_c_tick := (\<lambda>c t s. if c = 1 then (Ticked, snd (remove_iterator base_ops 1 s)) else iterator_tick c t s)\<rparr>"

lemma removal_skips_next:
  "map_option (\<lambda>(r, s). map (ti_timestamp s) [2, 3]) (run_pass leaving_ops None 5
     (new_clock False 60 0 None 5 \<lparr>ck_children := [1, 2, 3], ck_context := [1, 2, 3], ck_in_context := True\<rparr>))
   = Some [None, Some 60]"
proof -
  have "\<lfloor>(1 :: rat) / 12\<rfloor> = 0" by (simp add: floor_eq_iff)
  then show ?thesis
    by (simp add: run_pass_def reached_def tick_round_def for_live.simps tick_child_def leaving_ops_def base_ops_def
      iterator_tick_def iterator_stop_def remove_iterator_def new_clock_def next_tick_def)
qed


section \<open>The network state of an iterator\<close>

text \<open>
  A network iterator checks its network in a coroutine from its start to its stop.  The phases are the places where
  it is suspended: before its first step, in the check (with the status it began with), in starting or stopping the
  network and in the sleep after it (with whether the check raised, which makes the sleep longer), and ended by an
  exception.  The calls of \<^verbatim>\<open>start_network\<close> and \<^verbatim>\<open>stop_network\<close> are recorded.
\<close>

datatype network_status = STOPPED | NOT_CONNECTED | CONNECTED

datatype check_result = Answered network_status | Timed_Out | Check_Raised

datatype network_phase = Begins | Checks network_status | Acts bool | Sleeps bool | Ended

datatype network_call = Start_Network | Stop_Network

record network =
  nw_status :: network_status
  nw_task :: "network_phase option"
  nw_calls :: "network_call list"

definition new_network :: network where
  "new_network = \<lparr> nw_status = STOPPED, nw_task = None, nw_calls = [] \<rparr>"

definition network_c_start :: "network \<Rightarrow> network" where
  "network_c_start n = n\<lparr>nw_task := Some Begins, nw_status := NOT_CONNECTED\<rparr>"

definition network_c_stop :: "network \<Rightarrow> network" where
  "network_c_stop n = n\<lparr>nw_task := None, nw_status := STOPPED, nw_calls := nw_calls n @ [Stop_Network]\<rparr>"

definition checked_status :: "check_result \<Rightarrow> network_status" where
  "checked_status r = (case r of Answered st \<Rightarrow> st | _ \<Rightarrow> NOT_CONNECTED)"

definition network_checked :: "network_status \<Rightarrow> check_result \<Rightarrow> network \<Rightarrow> network" where
  "network_checked last_status r n =
     (let new_status = checked_status r; n = n\<lparr>nw_status := new_status\<rparr> in
      if new_status \<noteq> last_status
      then n\<lparr>nw_calls := nw_calls n @ [if new_status = CONNECTED then Start_Network else Stop_Network],
             nw_task := Some (Acts (r = Check_Raised))\<rparr>
      else n\<lparr>nw_task := Some (Sleeps (r = Check_Raised))\<rparr>)"

definition sleep_time :: "seconds \<Rightarrow> seconds \<Rightarrow> bool \<Rightarrow> seconds" where
  "sleep_time check_interval error_wait_time raised = (if raised then error_wait_time else check_interval)"

text \<open>An iterator that is running is not started again.\<close>

inductive network_step :: "network \<Rightarrow> network \<Rightarrow> bool" where
  starts: "nw_task n = None \<Longrightarrow> network_step n (network_c_start n)"
| stops: "nw_task n \<noteq> None \<Longrightarrow> network_step n (network_c_stop n)"
| begins: "nw_task n = Some Begins \<Longrightarrow> network_step n (n\<lparr>nw_task := Some (Checks (nw_status n))\<rparr>)"
| checked: "nw_task n = Some (Checks st) \<Longrightarrow> network_step n (network_checked st r n)"
| acted: "nw_task n = Some (Acts raised) \<Longrightarrow> network_step n (n\<lparr>nw_task := Some (Sleeps raised)\<rparr>)"
| raises: "nw_task n = Some (Acts raised) \<Longrightarrow> network_step n (n\<lparr>nw_task := Some Ended\<rparr>)"
| slept: "nw_task n = Some (Sleeps raised) \<Longrightarrow> network_step n (n\<lparr>nw_task := Some Begins\<rparr>)"

inductive network_reachable :: "network \<Rightarrow> bool" where
  initially: "network_reachable new_network"
| after: "network_reachable n \<Longrightarrow> network_step n n' \<Longrightarrow> network_reachable n'"

inductive_cases network_stepE: "network_step n n'"

fun no_repeated_start :: "network_call list \<Rightarrow> bool" where
  "no_repeated_start (c # d # cs) \<longleftrightarrow> \<not> (c = Start_Network \<and> d = Start_Network) \<and> no_repeated_start (d # cs)"
| "no_repeated_start cs \<longleftrightarrow> True"

lemma no_repeated_start_snoc:
  "no_repeated_start (cs @ [c]) \<longleftrightarrow> no_repeated_start cs \<and> (cs \<noteq> [] \<and> c = Start_Network \<longrightarrow> last cs \<noteq> Start_Network)"
  by (induction cs rule: no_repeated_start.induct) auto

definition network_started :: "network \<Rightarrow> bool" where
  "network_started n \<longleftrightarrow> nw_calls n \<noteq> [] \<and> last (nw_calls n) = Start_Network"

text \<open>The status a check began with is still the status when it ends.\<close>

definition network_ok :: "network \<Rightarrow> bool" where
  "network_ok n \<longleftrightarrow> (nw_status n = CONNECTED \<longleftrightarrow> network_started n) \<and> no_repeated_start (nw_calls n) \<and>
     (nw_task n = None \<longrightarrow> nw_status n = STOPPED) \<and> (\<forall>st. nw_task n = Some (Checks st) \<longrightarrow> st = nw_status n)"

lemma network_ok_step: "network_step n n' \<Longrightarrow> network_ok n \<Longrightarrow> network_ok n'"
  by (erule network_stepE)
     (auto simp: network_ok_def network_started_def network_c_start_def network_c_stop_def network_checked_def
       no_repeated_start_snoc Let_def)

text \<open>
  C29: whatever the checks of a network answer, it has been started, and not stopped since, exactly while the status is
  connected; it is never started twice without being stopped in between.
\<close>

theorem network_started_while_connected:
  assumes "network_reachable n"
  shows "(nw_status n = CONNECTED \<longleftrightarrow> network_started n) \<and> no_repeated_start (nw_calls n)"
proof -
  have "network_ok n"
    using assms
  proof induction
    case initially
    show ?case by (simp add: network_ok_def new_network_def network_started_def)
  next
    case (after n n')
    show ?case using after.hyps(2) after.IH by (rule network_ok_step)
  qed
  then show ?thesis by (simp add: network_ok_def)
qed

lemma network_connects: "network_reachable \<lparr> nw_status = CONNECTED, nw_task = Some (Acts False), nw_calls = [Start_Network] \<rparr>"
proof -
  have "network_step new_network \<lparr> nw_status = NOT_CONNECTED, nw_task = Some Begins, nw_calls = [] \<rparr>"
    using starts[of new_network] by (simp add: new_network_def network_c_start_def)
  moreover have "network_step \<lparr> nw_status = NOT_CONNECTED, nw_task = Some Begins, nw_calls = [] \<rparr>
      \<lparr> nw_status = NOT_CONNECTED, nw_task = Some (Checks NOT_CONNECTED), nw_calls = [] \<rparr>"
    using begins[of "\<lparr> nw_status = NOT_CONNECTED, nw_task = Some Begins, nw_calls = [] \<rparr>"] by simp
  moreover have "network_step \<lparr> nw_status = NOT_CONNECTED, nw_task = Some (Checks NOT_CONNECTED), nw_calls = [] \<rparr>
      \<lparr> nw_status = CONNECTED, nw_task = Some (Acts False), nw_calls = [Start_Network] \<rparr>"
    using checked[of "\<lparr> nw_status = NOT_CONNECTED, nw_task = Some (Checks NOT_CONNECTED), nw_calls = [] \<rparr>" NOT_CONNECTED "Answered CONNECTED"]
    by (simp add: network_checked_def checked_status_def)
  ultimately show ?thesis using initially after by metis
qed

theorem network_started_while_connected_witness:
  "network_started \<lparr> nw_status = CONNECTED, nw_task = Some (Acts False), nw_calls = [Start_Network] \<rparr>"
  using network_started_while_connected[OF network_connects] by simp

text \<open>
  An exception of \<^verbatim>\<open>start_network\<close> ends the coroutine: the status stays connected and is not checked again until the
  iterator is stopped.
\<close>

lemma failed_start_ends_checks:
  assumes "nw_task n = Some Ended" "network_step n n'"
  shows "n' = network_c_stop n"
  using assms(2,1) by (auto elim: network_stepE)

end
