(* ===== verification/Cross_Exchange.thy ===== *)
theory Cross_Exchange
  imports Strategy_Orders Exchange_Base
begin

text \<open>
  Cross exchange market making (\<^verbatim>\<open>strategy/cross_exchange_market_making\<close>): limit orders on a maker market, priced so
  that a fill can be hedged at a profit on a taker market, and the hedging of the fills.

  A market is the quotes of \<open>Exchange_Base\<close> and the balances of \<open>Connector_Base\<close>; both are arguments.  A NaN is
  \<open>None\<close>: arithmetic with it is NaN and comparing it raises \<^verbatim>\<open>InvalidOperation\<close>.  The rate oracle is a function,
  \<open>None\<close> for a rate it does not know.  Log lines, notifications and the status report are left out.
\<close>

section \<open>The identifiers of orders and their market pairs\<close>

record cross_pair =
  xp_maker :: market_pair
  xp_taker :: market_pair

record tracking_item =
  ti_exchange :: string
  ti_market_pair :: cross_pair
  ti_expiry_timestamp :: "seconds option"

record pair_tracker =
  pt_items :: "(string, tracking_item) pydict"
  pt_expiry_timeout :: seconds
  pt_now :: seconds

definition new_pair_tracker :: pair_tracker where
  "new_pair_tracker = \<lparr> pt_items = [], pt_expiry_timeout = 3 * 60, pt_now = 0 \<rparr>"

definition pair_of_order_id :: "pair_tracker \<Rightarrow> string \<Rightarrow> cross_pair option" where
  "pair_of_order_id pt order_id = map_option ti_market_pair (map_of (pt_items pt) order_id)"

definition exchange_of_order_id :: "pair_tracker \<Rightarrow> string \<Rightarrow> string option" where
  "exchange_of_order_id pt order_id = map_option ti_exchange (map_of (pt_items pt) order_id)"

definition track_order_id :: "string \<Rightarrow> string \<Rightarrow> cross_pair \<Rightarrow> pair_tracker \<Rightarrow> pair_tracker" where
  "track_order_id order_id exchange xp pt =
     pt\<lparr>pt_items := AList.update order_id \<lparr> ti_exchange = exchange, ti_market_pair = xp, ti_expiry_timestamp = None \<rparr> (pt_items pt)\<rparr>"

definition untrack_order_id :: "string \<Rightarrow> pair_tracker \<Rightarrow> pair_tracker" where
  "untrack_order_id order_id pt = (case map_of (pt_items pt) order_id of
       None \<Rightarrow> pt
     | Some item \<Rightarrow> pt\<lparr>pt_items := AList.update order_id
         (item\<lparr>ti_expiry_timestamp := Some (pt_now pt + pt_expiry_timeout pt)\<rparr>) (pt_items pt)\<rparr>)"

text \<open>The items are deleted from the front until one that has not expired; NaN never has.\<close>

definition item_expired :: "seconds \<Rightarrow> tracking_item \<Rightarrow> bool" where
  "item_expired now item \<longleftrightarrow> (case ti_expiry_timestamp item of None \<Rightarrow> False | Some t \<Rightarrow> t < now)"

definition expire_tracking_items :: "pair_tracker \<Rightarrow> pair_tracker" where
  "expire_tracking_items pt = pt\<lparr>pt_items := dropWhile (\<lambda>(i, item). item_expired (pt_now pt) item) (pt_items pt)\<rparr>"

definition pair_tracker_tick :: "seconds \<Rightarrow> pair_tracker \<Rightarrow> pair_tracker" where
  "pair_tracker_tick timestamp pt = expire_tracking_items (pt\<lparr>pt_now := timestamp\<rparr>)"

section \<open>Configuration, markets and state\<close>

datatype refresh_mode =
    PassiveOrderRefreshMode decimal seconds
  | ActiveOrderRefreshMode

definition get_cancel_order_threshold :: "refresh_mode \<Rightarrow> decimal option" where
  "get_cancel_order_threshold mode = (case mode of PassiveOrderRefreshMode t e \<Rightarrow> Some (t / 100) | ActiveOrderRefreshMode \<Rightarrow> None)"

definition get_expiration_seconds :: "refresh_mode \<Rightarrow> seconds option" where
  "get_expiration_seconds mode = (case mode of PassiveOrderRefreshMode t e \<Rightarrow> Some e | ActiveOrderRefreshMode \<Rightarrow> None)"

datatype conversion_mode =
    OracleConversionRateMode "string \<Rightarrow> decimal option"
  | TakerToMakerConversionRateMode decimal decimal

text \<open>The rates of the quote and of the base asset.\<close>

definition oracle_rate :: "(string \<Rightarrow> decimal option) \<Rightarrow> string \<Rightarrow> string \<Rightarrow> decimal option" where
  "oracle_rate rate taker_asset maker_asset =
     (if taker_asset \<noteq> maker_asset then rate (taker_asset @ ''-'' @ maker_asset) else Some 1)"

definition taker_to_maker_conversion_rate :: "conversion_mode \<Rightarrow> cross_pair \<Rightarrow> decimal option \<times> decimal option" where
  "taker_to_maker_conversion_rate mode xp = (case mode of
       OracleConversionRateMode rate \<Rightarrow>
         (oracle_rate rate (mp_quote (xp_taker xp)) (mp_quote (xp_maker xp)),
          oracle_rate rate (mp_base (xp_taker xp)) (mp_base (xp_maker xp)))
     | TakerToMakerConversionRateMode base_rate quote_rate \<Rightarrow> (Some quote_rate, Some base_rate))"

record cross_config =
  cc_order_amount :: decimal
  cc_min_profitability_pct :: decimal
  cc_taker_balance_factor_pct :: decimal
  cc_portfolio_ratio_limit_pct :: decimal
  cc_top_depth_tolerance :: decimal
  cc_anti_hysteresis_duration :: seconds
  cc_adjust_order_enabled :: bool
  cc_refresh_mode :: refresh_mode
  cc_conversion_mode :: conversion_mode
  cc_slippage_buffer_pct :: decimal

definition min_profitability :: "cross_config \<Rightarrow> decimal" where
  "min_profitability cc = cc_min_profitability_pct cc / 100"

definition taker_balance_factor :: "cross_config \<Rightarrow> decimal" where
  "taker_balance_factor cc = cc_taker_balance_factor_pct cc / 100"

definition portfolio_ratio_limit :: "cross_config \<Rightarrow> decimal" where
  "portfolio_ratio_limit cc = cc_portfolio_ratio_limit_pct cc / 100"

definition slippage_buffer :: "cross_config \<Rightarrow> decimal" where
  "slippage_buffer cc = cc_slippage_buffer_pct cc / 100"

record cross_market =
  cm_api :: exchange_api
  cm_connector :: connector

text \<open>The pairs are the values of the dictionary of the strategy; its keys are the maker market and trading pair.\<close>

record cross_env =
  xe_config :: cross_config
  xe_pairs :: "cross_pair list"
  xe_market :: "string \<Rightarrow> cross_market"
  xe_order_id :: "nat \<Rightarrow> string"
  xe_ready :: bool

type_synonym fill_record = "tracked_limit option \<times> order_filled_event"

record cross_state =
  cs_strategy :: strategy
  cs_tracker :: pair_tracker
  cs_anti_hysteresis_timers :: "(cross_pair, seconds) pydict"
  cs_buy_fills :: "(cross_pair, fill_record list) pydict"
  cs_sell_fills :: "(cross_pair, fill_record list) pydict"
  cs_price_samples :: "(cross_pair, decimal option list \<times> decimal option list) pydict"
  cs_maker_order_ids :: "string list"
  cs_all_markets_ready :: bool
  cs_last_timestamp :: seconds
  cs_order_count :: nat
  cs_requests :: "market_request list"

definition pair_key :: "cross_pair \<Rightarrow> string \<times> string" where
  "pair_key xp = (mp_market (xp_maker xp), mp_trading_pair (xp_maker xp))"

definition pairs_of_list :: "cross_pair list \<Rightarrow> cross_pair list" where
  "pairs_of_list xps = map snd (fold (\<lambda>xp. AList.update (pair_key xp) xp) xps [])"

definition pair_of_maker :: "cross_pair list \<Rightarrow> string \<Rightarrow> string \<Rightarrow> cross_pair option" where
  "pair_of_maker xps market trading_pair = find (\<lambda>xp. pair_key xp = (market, trading_pair)) xps"

definition cross_init_params :: "cross_pair list \<Rightarrow> cross_state" where
  "cross_init_params xps =
     \<lparr> cs_strategy = \<lparr> st_markets = remdups (map (\<lambda>xp. mp_market (xp_maker xp)) xps @ map (\<lambda>xp. mp_market (xp_taker xp)) xps),
         st_delegate_lock = False, st_orders = new_strategy_orders \<rparr>,
       cs_tracker = new_pair_tracker, cs_anti_hysteresis_timers = [], cs_buy_fills = [], cs_sell_fills = [],
       cs_price_samples = [], cs_maker_order_ids = [], cs_all_markets_ready = False, cs_last_timestamp = 0,
       cs_order_count = 0, cs_requests = [] \<rparr>"

definition cross_start :: "seconds \<Rightarrow> cross_state \<Rightarrow> cross_state" where
  "cross_start timestamp s = s\<lparr>cs_last_timestamp := timestamp\<rparr>"

definition cross_now :: "cross_state \<Rightarrow> seconds" where
  "cross_now s = so_now (st_orders (cs_strategy s))"

subsection \<open>Queries of a market\<close>

definition market_of :: "cross_env \<Rightarrow> market_pair \<Rightarrow> cross_market" where
  "market_of xe mp = xe_market xe (mp_market mp)"

definition available_on :: "cross_env \<Rightarrow> market_pair \<Rightarrow> string \<Rightarrow> py_error + decimal" where
  "available_on xe mp asset = get_available_balance (cm_connector (market_of xe mp)) asset"

definition balance_on :: "cross_env \<Rightarrow> market_pair \<Rightarrow> string \<Rightarrow> decimal" where
  "balance_on xe mp asset = get_balance (cm_connector (market_of xe mp)) asset"

definition price_on :: "cross_env \<Rightarrow> market_pair \<Rightarrow> bool \<Rightarrow> py_error + decimal option" where
  "price_on xe mp is_buy = exchange_price (cm_api (market_of xe mp)) (mp_trading_pair mp) is_buy"

definition volume_price_on :: "cross_env \<Rightarrow> market_pair \<Rightarrow> bool \<Rightarrow> decimal \<Rightarrow> py_error + decimal option" where
  "volume_price_on xe mp is_buy volume =
     bind_err (exchange_price_for_volume (cm_api (market_of xe mp)) (mp_trading_pair mp) is_buy volume) (\<lambda>r. Inr (qr_result_price r))"

definition vwap_on :: "cross_env \<Rightarrow> market_pair \<Rightarrow> bool \<Rightarrow> decimal \<Rightarrow> py_error + decimal option" where
  "vwap_on xe mp is_buy volume =
     bind_err (exchange_vwap_for_volume (cm_api (market_of xe mp)) (mp_trading_pair mp) is_buy volume) (\<lambda>r. Inr (qr_result_price r))"

definition quote_volume_price_on :: "cross_env \<Rightarrow> market_pair \<Rightarrow> bool \<Rightarrow> decimal \<Rightarrow> py_error + decimal option" where
  "quote_volume_price_on xe mp is_buy volume =
     bind_err (exchange_price_for_quote_volume (cm_api (market_of xe mp)) (mp_trading_pair mp) is_buy volume) (\<lambda>r. Inr (qr_result_price r))"

definition quantize_amount_on :: "cross_env \<Rightarrow> market_pair \<Rightarrow> decimal \<Rightarrow> py_error + decimal" where
  "quantize_amount_on xe mp amount = quantize_order_amount (ea_size_quantum (cm_api (market_of xe mp))) (mp_trading_pair mp) amount"

definition quantize_price_on :: "cross_env \<Rightarrow> market_pair \<Rightarrow> decimal option \<Rightarrow> py_error + decimal option" where
  "quantize_price_on xe mp price = quantized_price (cm_api (market_of xe mp)) (mp_trading_pair mp) price"

definition price_quantum_on :: "cross_env \<Rightarrow> market_pair \<Rightarrow> decimal \<Rightarrow> py_error + decimal" where
  "price_quantum_on xe mp price = ea_price_quantum (cm_api (market_of xe mp)) (mp_trading_pair mp) price"


section \<open>Sizes and prices of maker orders\<close>

definition market_conversion_rate_of :: "cross_env \<Rightarrow> py_error + decimal" where
  "market_conversion_rate_of xe = (case xe_pairs xe of
       [] \<Rightarrow> Inl IndexError
     | xp # _ \<Rightarrow> (case taker_to_maker_conversion_rate (cc_conversion_mode (xe_config xe)) xp of
           (Some quote_rate, Some base_rate) \<Rightarrow> dec_div quote_rate base_rate
         | _ \<Rightarrow> Inl TypeError))"

text \<open>The price the hedge of an order would have: \<open>None\<close> is the \<^verbatim>\<open>None\<close> of the code, \<open>Some None\<close> a NaN.\<close>

definition effective_hedging_price :: "cross_env \<Rightarrow> cross_pair \<Rightarrow> bool \<Rightarrow> decimal \<Rightarrow> py_error + decimal option option" where
  "effective_hedging_price xe xp is_bid amount =
     (case vwap_on xe (xp_taker xp) (\<not> is_bid) amount of
        Inl DivisionByZero \<Rightarrow> Inr None
      | Inl e \<Rightarrow> Inl e
      | Inr taker_price \<Rightarrow>
          if mp_quote (xp_maker xp) \<noteq> mp_quote (xp_taker xp)
          then bind_err (market_conversion_rate_of xe) (\<lambda>rate. Inr (Some (nan_mult taker_price rate)))
          else Inr (Some taker_price))"

definition size_after_portfolio_ratio_limit :: "cross_env \<Rightarrow> cross_pair \<Rightarrow> py_error + decimal option" where
  "size_after_portfolio_ratio_limit xe xp =
     (let maker = xp_maker xp in
      bind_err (price_on xe maker True) (\<lambda>ask. bind_err (price_on xe maker False) (\<lambda>bid.
      bind_err (nan_div (Some (balance_on xe maker (mp_quote maker))) (nan_mult (nan_add ask bid) (1 / 2))) (\<lambda>quote_value.
        quantized_amount (cm_api (market_of xe maker)) (mp_trading_pair maker)
          (map_option (\<lambda>v. (balance_on xe maker (mp_base maker) + v) * portfolio_ratio_limit (xe_config xe)) quote_value)))))"

definition adjusted_limit_order_size :: "cross_env \<Rightarrow> cross_pair \<Rightarrow> py_error + decimal option" where
  "adjusted_limit_order_size xe xp =
     (if 0 < cc_order_amount (xe_config xe)
      then bind_err (quantize_amount_on xe (xp_maker xp) (cc_order_amount (xe_config xe))) (\<lambda>a. Inr (Some a))
      else size_after_portfolio_ratio_limit xe xp)"

text \<open>The price of a volume that is NaN is NaN, if there is a book.\<close>

definition vwap_of_size :: "cross_env \<Rightarrow> market_pair \<Rightarrow> bool \<Rightarrow> decimal option \<Rightarrow> py_error + decimal option" where
  "vwap_of_size xe mp is_buy amount = (case amount of
       None \<Rightarrow> bind_err (ea_order_book (cm_api (market_of xe mp)) (mp_trading_pair mp)) (\<lambda>_. Inr None)
     | Some v \<Rightarrow> vwap_on xe mp is_buy v)"

text \<open>The least of the balances and the size asked for, rounded by the maker market.\<close>

definition least_size ::
  "cross_env \<Rightarrow> cross_pair \<Rightarrow> decimal option \<Rightarrow> decimal option \<Rightarrow> decimal option \<Rightarrow> py_error + decimal" where
  "least_size xe xp maker_balance taker_balance user_order =
     bind_err (compare_decimals min maker_balance taker_balance) (\<lambda>balance.
     bind_err (compare_decimals min (Some balance) user_order) (quantize_amount_on xe (xp_maker xp)))"

definition zero_division_size :: "decimal option \<Rightarrow> py_error \<Rightarrow> py_error + decimal" where
  "zero_division_size user_order e =
     (if e = DivisionByZero then (if user_order = Some 0 then Inr 0 else Inl AssertionError) else Inl e)"

definition market_making_bid_size :: "cross_env \<Rightarrow> cross_pair \<Rightarrow> py_error + decimal" where
  "market_making_bid_size xe xp =
     bind_err (available_on xe (xp_maker xp) (mp_quote (xp_maker xp))) (\<lambda>maker_balance_in_quote.
     bind_err (available_on xe (xp_taker xp) (mp_base (xp_taker xp))) (\<lambda>taker_available.
     bind_err (adjusted_limit_order_size xe xp) (\<lambda>user_order.
       case vwap_of_size xe (xp_taker xp) False user_order of
         Inl e \<Rightarrow> zero_division_size user_order e
       | Inr taker_price \<Rightarrow>
           bind_err (nan_div (Some maker_balance_in_quote) taker_price) (\<lambda>maker_balance.
             least_size xe xp maker_balance (Some (taker_available * taker_balance_factor (xe_config xe))) user_order))))"

definition market_making_ask_size :: "cross_env \<Rightarrow> cross_pair \<Rightarrow> py_error + decimal" where
  "market_making_ask_size xe xp =
     bind_err (available_on xe (xp_maker xp) (mp_base (xp_maker xp))) (\<lambda>maker_balance.
     bind_err (available_on xe (xp_taker xp) (mp_quote (xp_taker xp))) (\<lambda>taker_available.
     bind_err (adjusted_limit_order_size xe xp) (\<lambda>user_order.
     let taker_balance_in_quote = taker_available * taker_balance_factor (xe_config xe) in
       case quote_volume_price_on xe (xp_taker xp) True taker_balance_in_quote of
         Inl e \<Rightarrow> zero_division_size user_order e
       | Inr taker_price \<Rightarrow>
           bind_err (nan_div (Some taker_balance_in_quote) (nan_mult taker_price (1 + slippage_buffer (xe_config xe)))) (\<lambda>taker_balance.
             least_size xe xp (Some maker_balance) taker_balance user_order))))"

definition market_making_size :: "cross_env \<Rightarrow> cross_pair \<Rightarrow> bool \<Rightarrow> py_error + decimal" where
  "market_making_size xe xp is_bid = (if is_bid then market_making_bid_size xe xp else market_making_ask_size xe xp)"

subsection \<open>Samples of the maker's best prices\<close>

definition ORDER_ADJUST_SAMPLE_INTERVAL :: seconds where
  "ORDER_ADJUST_SAMPLE_INTERVAL = 5"

definition ORDER_ADJUST_SAMPLE_WINDOW :: nat where
  "ORDER_ADJUST_SAMPLE_WINDOW = 12"

definition suggested_price_samples :: "cross_pair \<Rightarrow> cross_state \<Rightarrow> decimal option list \<times> decimal option list" where
  "suggested_price_samples xp s = (case map_of (cs_price_samples s) xp of None \<Rightarrow> ([], []) | Some qs \<Rightarrow> qs)"

definition top_bid_ask :: "cross_env \<Rightarrow> cross_pair \<Rightarrow> py_error + (decimal option \<times> decimal option)" where
  "top_bid_ask xe xp =
     (let tolerance = cc_top_depth_tolerance (xe_config xe);
          top = (\<lambda>is_buy. if tolerance = 0 then price_on xe (xp_maker xp) is_buy
                          else volume_price_on xe (xp_maker xp) is_buy tolerance) in
      bind_err (top False) (\<lambda>bid. bind_err (top True) (\<lambda>ask. Inr (bid, ask))))"

definition best_of_samples :: "(decimal \<Rightarrow> decimal \<Rightarrow> decimal) \<Rightarrow> decimal option list \<Rightarrow> decimal option \<Rightarrow> decimal option" where
  "best_of_samples best samples current =
     (case current of
        None \<Rightarrow> None
      | Some c \<Rightarrow> Some (if None \<in> set samples then c else fold best (map the samples) c))"

definition top_bid_ask_from_price_samples :: "cross_env \<Rightarrow> cross_pair \<Rightarrow> cross_state \<Rightarrow> py_error + (decimal option \<times> decimal option)" where
  "top_bid_ask_from_price_samples xe xp s =
     bind_err (top_bid_ask xe xp) (\<lambda>(bid, ask).
       let (bids, asks) = suggested_price_samples xp s in
       Inr (best_of_samples max bids bid, best_of_samples min asks ask))"

text \<open>
  A sample is taken when a new interval has begun since the last tick; the queue of the pair exists from then on, even
  when reading the prices raises.
\<close>

definition take_suggested_price_sample :: "cross_env \<Rightarrow> cross_pair \<Rightarrow> cross_state \<Rightarrow> (cross_state, unit) outcome" where
  "take_suggested_price_sample xe xp s =
     (if \<lfloor>cs_last_timestamp s / ORDER_ADJUST_SAMPLE_INTERVAL\<rfloor> < \<lfloor>cross_now s / ORDER_ADJUST_SAMPLE_INTERVAL\<rfloor>
      then let s = s\<lparr>cs_price_samples := AList.update xp (suggested_price_samples xp s) (cs_price_samples s)\<rparr> in
        and_then (top_bid_ask_from_price_samples xe xp s, s) (\<lambda>(bid, ask) s.
          let (bids, asks) = suggested_price_samples xp s in
          (Inr (), s\<lparr>cs_price_samples := AList.update xp
             (take_last ORDER_ADJUST_SAMPLE_WINDOW (bids @ [bid]), take_last ORDER_ADJUST_SAMPLE_WINDOW (asks @ [ask]))
             (cs_price_samples s)\<rparr>))
      else (Inr (), s))"

subsection \<open>The price of a maker order\<close>

text \<open>
  One quantum above the best bid, or below the best ask.  When the side is empty the bid's variable is not
  assigned (\<open>None\<close>) and reading it raises.
\<close>

definition price_above_bid :: "cross_env \<Rightarrow> cross_pair \<Rightarrow> decimal option \<Rightarrow> py_error + decimal option" where
  "price_above_bid xe xp top_bid = (case top_bid of
       None \<Rightarrow> Inr None
     | Some p \<Rightarrow> bind_err (price_quantum_on xe (xp_maker xp) p) (\<lambda>q. bind_err (dec_div p q) (\<lambda>n.
         Inr (Some ((of_int \<lceil>n\<rceil> + 1) * q)))))"

definition price_below_ask :: "cross_env \<Rightarrow> cross_pair \<Rightarrow> decimal option \<Rightarrow> py_error + decimal option" where
  "price_below_ask xe xp top_ask = (case top_ask of
       None \<Rightarrow> Inr None
     | Some p \<Rightarrow> bind_err (price_quantum_on xe (xp_maker xp) p) (\<lambda>q. bind_err (dec_div p q) (\<lambda>n.
         Inr (Some ((of_int \<lfloor>n\<rfloor> - 1) * q)))))"

text \<open>\<^verbatim>\<open>floor\<close> and \<^verbatim>\<open>ceil\<close> of a NaN raise.\<close>

definition round_price :: "cross_env \<Rightarrow> cross_pair \<Rightarrow> (decimal \<Rightarrow> int) \<Rightarrow> decimal option \<Rightarrow> py_error + decimal" where
  "round_price xe xp rounding price = (case price of
       None \<Rightarrow> Inl ValueError
     | Some p \<Rightarrow> bind_err (price_quantum_on xe (xp_maker xp) p) (\<lambda>q. bind_err (dec_div p q) (\<lambda>n. Inr (of_int (rounding n) * q))))"

text \<open>With the adjustment a bid is at most one quantum above the best bid, and an ask at least one below the best ask.\<close>

definition adjust_bid_price :: "cross_env \<Rightarrow> decimal option \<Rightarrow> decimal option \<Rightarrow> py_error + decimal option" where
  "adjust_bid_price xe upper maker_price =
     (if cc_adjust_order_enabled (xe_config xe)
      then (case upper of
          None \<Rightarrow> Inl RaisedException
        | Some b \<Rightarrow> bind_err (compare_decimals min maker_price (Some b)) (\<lambda>p. Inr (Some p)))
      else Inr maker_price)"

definition adjust_ask_price :: "cross_env \<Rightarrow> decimal option \<Rightarrow> decimal option \<Rightarrow> py_error + decimal option" where
  "adjust_ask_price xe lower maker_price =
     (if cc_adjust_order_enabled (xe_config xe) \<and> lower \<noteq> None
      then bind_err (compare_decimals max maker_price lower) (\<lambda>p. Inr (Some p))
      else Inr maker_price)"

definition market_making_bid_price :: "cross_env \<Rightarrow> cross_pair \<Rightarrow> decimal \<Rightarrow> cross_state \<Rightarrow> py_error + decimal" where
  "market_making_bid_price xe xp amount s =
     bind_err (top_bid_ask_from_price_samples xe xp s) (\<lambda>(top_bid, top_ask).
     bind_err (price_above_bid xe xp top_bid) (\<lambda>upper.
     bind_err (effective_hedging_price xe xp True amount) (\<lambda>hedging.
       case hedging of
         None \<Rightarrow> Inl TypeError
       | Some taker_price \<Rightarrow>
           bind_err (nan_div taker_price (Some (1 + min_profitability (xe_config xe)))) (\<lambda>maker_price.
           bind_err (adjust_bid_price xe upper maker_price) (round_price xe xp floor)))))"

definition market_making_ask_price :: "cross_env \<Rightarrow> cross_pair \<Rightarrow> decimal \<Rightarrow> cross_state \<Rightarrow> py_error + decimal" where
  "market_making_ask_price xe xp amount s =
     bind_err (top_bid_ask_from_price_samples xe xp s) (\<lambda>(top_bid, top_ask).
     bind_err (price_below_ask xe xp top_ask) (\<lambda>lower.
     bind_err (effective_hedging_price xe xp False amount) (\<lambda>hedging.
       case hedging of
         None \<Rightarrow> Inl TypeError
       | Some taker_price \<Rightarrow>
           bind_err (adjust_ask_price xe lower (nan_mult taker_price (1 + min_profitability (xe_config xe))))
             (round_price xe xp ceiling))))"

definition market_making_price :: "cross_env \<Rightarrow> cross_pair \<Rightarrow> bool \<Rightarrow> decimal \<Rightarrow> cross_state \<Rightarrow> py_error + decimal" where
  "market_making_price xe xp is_bid amount s =
     (if is_bid then market_making_bid_price xe xp amount s else market_making_ask_price xe xp amount s)"

section \<open>Placing and cancelling\<close>

text \<open>
  A market order is sent with the price NaN; the expiration is that of maker orders for both sides.  A limit order whose
  price is NaN, which the tracker of orders cannot represent here, is refused with an error.
\<close>

definition without_price :: "order_type \<Rightarrow> market_request \<Rightarrow> market_request" where
  "without_price ot r = (case r of
       MarketOrderRequest is_buy mp amount t price expiration action \<Rightarrow>
         MarketOrderRequest is_buy mp amount t (if ot = MARKET then None else price) expiration action
     | _ \<Rightarrow> r)"

definition cross_place_order ::
  "cross_env \<Rightarrow> cross_pair \<Rightarrow> bool \<Rightarrow> bool \<Rightarrow> decimal \<Rightarrow> decimal option \<Rightarrow> cross_state \<Rightarrow> (cross_state, string) outcome" where
  "cross_place_order xe xp is_buy is_maker amount price s =
     (let mp = (if is_maker then xp_maker xp else xp_taker xp); api = cm_api (market_of xe mp);
          order_id = xe_order_id xe (cs_order_count s) in
      and_then (if is_maker then get_maker_order_type api else get_taker_order_type api, s) (\<lambda>ot s.
        if ot \<noteq> MARKET \<and> price = None then (Inl InvalidOperation, s)
        else case order_with_specific_market is_buy mp amount ot (case price of None \<Rightarrow> 0 | Some p \<Rightarrow> p) (get_expiration_seconds (cc_refresh_mode (xe_config xe)))
               OPEN_POSITION order_id (cs_strategy s) of
          Inl e \<Rightarrow> (Inl e, s)
        | Inr (st, r) \<Rightarrow>
            (Inr order_id,
             s\<lparr>cs_strategy := st\<lparr>st_orders := add_create_order_pending order_id (st_orders st)\<rparr>,
               cs_tracker := track_order_id order_id (mp_market mp) xp (cs_tracker s),
               cs_maker_order_ids := (if is_maker then cs_maker_order_ids s @ [order_id] else cs_maker_order_ids s),
               cs_order_count := Suc (cs_order_count s), cs_requests := cs_requests s @ [without_price ot r]\<rparr>)))"

text \<open>The order is cancelled on the market it is tracked for.\<close>

definition cross_cancel :: "string \<Rightarrow> cross_state \<Rightarrow> (cross_state, unit) outcome" where
  "cross_cancel order_id s = (case so_market_pair_of (st_orders (cs_strategy s)) order_id of
       None \<Rightarrow> (Inl AttributeError, s)
     | Some mp \<Rightarrow> (let (st, rs) = strategy_cancel mp order_id (cs_strategy s) in
         (Inr (), s\<lparr>cs_strategy := st, cs_requests := cs_requests s @ rs\<rparr>)))"

section \<open>Active orders\<close>

text \<open>The result of the checks is whether the order stays.\<close>

definition check_if_still_profitable ::
  "cross_env \<Rightarrow> tracked_limit \<Rightarrow> decimal option option \<Rightarrow> cross_state \<Rightarrow> (cross_state, bool) outcome" where
  "check_if_still_profitable xe x hedging s =
     (let threshold = (case get_cancel_order_threshold (cc_refresh_mode (xe_config xe)) of
            None \<Rightarrow> min_profitability (xe_config xe) | Some t \<Rightarrow> t) in
      case hedging of
        None \<Rightarrow> and_then (cross_cancel (lo_id x) s) (\<lambda>_ s. (Inr False, s))
      | Some price \<Rightarrow>
          and_then (if lo_is_buy x then compare_decimals (<) price (Some (lo_price x * (1 + threshold)))
                    else compare_decimals (<) (Some (lo_price x)) (nan_mult price (1 + threshold)), s) (\<lambda>loses s.
            if loses then and_then (cross_cancel (lo_id x) s) (\<lambda>_ s. (Inr False, s)) else (Inr True, s)))"

text \<open>
  The balances are those of the first pair of the strategy, whichever pair the order belongs to; the markets are those
  of the order's pair.
\<close>

definition order_size_limit :: "cross_env \<Rightarrow> cross_pair \<Rightarrow> tracked_limit \<Rightarrow> py_error + decimal" where
  "order_size_limit xe xp x = (case xe_pairs xe of
       [] \<Rightarrow> Inl IndexError
     | first # _ \<Rightarrow>
         (let (quote_rate, base_rate) = taker_to_maker_conversion_rate (cc_conversion_mode (xe_config xe)) first;
              maker = (xp_maker first)\<lparr>mp_market := mp_market (xp_maker xp)\<rparr>;
              taker = (xp_taker first)\<lparr>mp_market := mp_market (xp_taker xp)\<rparr> in
          if lo_is_buy x then
            (case base_rate of None \<Rightarrow> Inl TypeError | Some r \<Rightarrow>
              bind_err (dec_div (balance_on xe maker (mp_quote maker)) (lo_price x)) (\<lambda>quote_amount.
                Inr (min (balance_on xe taker (mp_base taker) * r) quote_amount)))
          else
            (case quote_rate of None \<Rightarrow> Inl TypeError | Some r \<Rightarrow>
              let quote_amount = balance_on xe taker (mp_quote taker) * r in
              bind_err (quote_volume_price_on xe (xp_taker xp) True quote_amount) (\<lambda>taker_price.
              bind_err (nan_div (Some quote_amount) (nan_mult taker_price (1 + slippage_buffer (xe_config xe)))) (\<lambda>amount.
                compare_decimals min (Some (balance_on xe maker (mp_base maker))) amount)))))"

definition check_if_sufficient_balance ::
  "cross_env \<Rightarrow> cross_pair \<Rightarrow> tracked_limit \<Rightarrow> cross_state \<Rightarrow> (cross_state, bool) outcome" where
  "check_if_sufficient_balance xe xp x s =
     and_then (adjusted_limit_order_size xe xp, s) (\<lambda>_ s.
     and_then (order_size_limit xe xp x, s) (\<lambda>limit s.
     and_then (quantize_amount_on xe ((xp_maker xp)\<lparr>mp_trading_pair := lo_trading_pair x\<rparr>) limit, s) (\<lambda>size_limit s.
       if size_limit < lo_quantity x then and_then (cross_cancel (lo_id x) s) (\<lambda>_ s. (Inr False, s))
       else (Inr True, s))))"

definition check_if_price_has_drifted ::
  "cross_env \<Rightarrow> cross_pair \<Rightarrow> tracked_limit \<Rightarrow> cross_state \<Rightarrow> (cross_state, bool) outcome" where
  "check_if_price_has_drifted xe xp x s =
     and_then (market_making_price xe xp (lo_is_buy x) (lo_quantity x) s, s) (\<lambda>suggested s.
       if suggested \<noteq> lo_price x then and_then (cross_cancel (lo_id x) s) (\<lambda>_ s. (Inr False, s)) else (Inr True, s))"


section \<open>New orders\<close>

text \<open>The rate at which the logged price is adjusted is read before an order is placed, and may raise.\<close>

definition place_maker_order :: "cross_env \<Rightarrow> cross_pair \<Rightarrow> bool \<Rightarrow> cross_state \<Rightarrow> (cross_state, unit) outcome" where
  "place_maker_order xe xp is_bid s =
     and_then (market_making_size xe xp is_bid, s) (\<lambda>amount s.
       if amount \<le> 0 then (Inr (), s)
       else and_then (market_making_price xe xp is_bid amount s, s) (\<lambda>price s.
            and_then (effective_hedging_price xe xp is_bid amount, s) (\<lambda>hedging s.
            and_then (market_conversion_rate_of xe, s) (\<lambda>rate s.
            and_then (case hedging of None \<Rightarrow> Inl TypeError | Some h \<Rightarrow> nan_div h (Some rate), s) (\<lambda>_ s.
            and_then (cross_place_order xe xp is_bid True amount (Some price) s) (\<lambda>_ s. (Inr (), s)))))))"

definition check_and_create_new_orders ::
  "cross_env \<Rightarrow> cross_pair \<Rightarrow> bool \<Rightarrow> bool \<Rightarrow> cross_state \<Rightarrow> (cross_state, unit) outcome" where
  "check_and_create_new_orders xe xp has_active_bid has_active_ask s =
     and_then (if has_active_bid then (Inr (), s) else place_maker_order xe xp True s) (\<lambda>_ s.
       if has_active_ask then (Inr (), s) else place_maker_order xe xp False s)"

text \<open>
  The pending orders of the taker are looked up with the pair of both markets, whereas the dictionaries of the tracker
  have the single markets as keys; \<open>Inl\<close> and \<open>Inr\<close> keep the two classes of keys apart.
\<close>

definition lookup_cross :: "cross_pair \<Rightarrow> (market_pair, ('i, 'v) pydict) pydict \<Rightarrow> ('i, 'v) pydict" where
  "lookup_cross xp d = (case map_of (map (\<lambda>(mp, e). (Inl mp :: market_pair + cross_pair, e)) d) (Inr xp) of
       None \<Rightarrow> [] | Some e \<Rightarrow> e)"

definition has_active_taker_order :: "cross_pair \<Rightarrow> cross_state \<Rightarrow> bool" where
  "has_active_taker_order xp s =
     (let so = st_orders (cs_strategy s); limit_orders = lookup_cross xp (so_limit_orders so) in
      lookup_cross xp (so_market_orders so) \<noteq> [] \<or>
      (\<exists>i \<in> fst ` set limit_orders. i \<in> set (cs_maker_order_ids s)))"

text \<open>The active orders of a pair in turn; the result is whether one was cancelled because prices have moved.\<close>

fun check_active_orders ::
  "cross_env \<Rightarrow> cross_pair \<Rightarrow> seconds \<Rightarrow> tracked_limit list \<Rightarrow> cross_state \<Rightarrow> (cross_state, bool) outcome" where
  "check_active_orders xe xp timer [] s = (Inr False, s)"
| "check_active_orders xe xp timer (x # xs) s =
     and_then (effective_hedging_price xe xp (lo_is_buy x) (lo_quantity x), s) (\<lambda>hedging s.
     and_then (check_if_still_profitable xe x hedging s) (\<lambda>profitable s.
     and_then
       (if \<not> profitable \<or> (case cc_refresh_mode (xe_config xe) of PassiveOrderRefreshMode _ _ \<Rightarrow> True | ActiveOrderRefreshMode \<Rightarrow> False)
        then (Inr False, s)
        else and_then (check_if_sufficient_balance xe xp x s) (\<lambda>sufficient s.
          if \<not> sufficient \<or> cross_now s \<le> timer then (Inr False, s)
          else and_then (check_if_price_has_drifted xe xp x s) (\<lambda>stays s. (Inr (\<not> stays), s))))
       (\<lambda>drifted s. and_then (check_active_orders xe xp timer xs s) (\<lambda>rest s. (Inr (drifted \<or> rest), s)))))"

definition process_cross_pair ::
  "cross_env \<Rightarrow> cross_pair \<Rightarrow> tracked_limit list \<Rightarrow> cross_state \<Rightarrow> (cross_state, unit) outcome" where
  "process_cross_pair xe xp active_orders s =
     (let timer = (case map_of (cs_anti_hysteresis_timers s) xp of None \<Rightarrow> 0 | Some t \<Rightarrow> t);
          has_active_bid = list_ex lo_is_buy active_orders;
          has_active_ask = list_ex (\<lambda>x. \<not> lo_is_buy x) active_orders in
      and_then (take_suggested_price_sample xe xp s) (\<lambda>_ s.
      and_then (check_active_orders xe xp timer active_orders s) (\<lambda>need_adjust_order s.
        let s = (if need_adjust_order
            then s\<lparr>cs_anti_hysteresis_timers := AList.update xp
                     (cross_now s + cc_anti_hysteresis_duration (xe_config xe)) (cs_anti_hysteresis_timers s)\<rparr> else s) in
        if has_active_bid \<and> has_active_ask then (Inr (), s)
        else if has_active_taker_order xp s then (Inr (), s)
        else check_and_create_new_orders xe xp has_active_bid has_active_ask s)))"

section \<open>Ticks\<close>

definition cross_active_limit_orders :: "cross_state \<Rightarrow> (string \<times> tracked_limit) list" where
  "cross_active_limit_orders s =
     filter (\<lambda>(market, x). lo_id x \<in> set (cs_maker_order_ids s)) (active_limit_orders (st_orders (cs_strategy s)))"

definition active_orders_of_pair :: "cross_env \<Rightarrow> cross_pair \<Rightarrow> cross_state \<Rightarrow> (string \<times> tracked_limit) list \<Rightarrow> tracked_limit list" where
  "active_orders_of_pair xe xp s orders =
     map snd (filter (\<lambda>(market, x). pair_of_maker (xe_pairs xe) market (lo_trading_pair x) = Some xp \<and>
       \<not> has_in_flight_cancel (st_orders (cs_strategy s)) (lo_id x)) orders)"

fun process_cross_pairs ::
  "cross_env \<Rightarrow> (cross_pair \<times> tracked_limit list) list \<Rightarrow> cross_state \<Rightarrow> (cross_state, unit) outcome" where
  "process_cross_pairs xe [] s = (Inr (), s)"
| "process_cross_pairs xe ((xp, orders) # rest) s =
     and_then (process_cross_pair xe xp orders s) (\<lambda>_. process_cross_pairs xe rest)"

text \<open>
  The active orders are collected before the pair tracker is ticked, and grouped before any pair is processed; an
  exception ends the tick for the remaining pairs.
\<close>

definition cross_tick :: "cross_env \<Rightarrow> seconds \<Rightarrow> cross_state \<Rightarrow> (cross_state, unit) outcome" where
  "cross_tick xe timestamp s =
     (let s = s\<lparr>cs_strategy := (cs_strategy s)\<lparr>st_orders := orders_tick timestamp (st_orders (cs_strategy s))\<rparr>\<rparr>;
          orders = cross_active_limit_orders s;
          s = s\<lparr>cs_tracker := pair_tracker_tick timestamp (cs_tracker s)\<rparr>;
          s = s\<lparr>cs_all_markets_ready := cs_all_markets_ready s \<or> xe_ready xe\<rparr>;
          (r, s) = (if \<not> cs_all_markets_ready s then (Inr (), s)
            else process_cross_pairs xe (map (\<lambda>xp. (xp, active_orders_of_pair xe xp s orders)) (xe_pairs xe)) s)
      in (r, s\<lparr>cs_last_timestamp := timestamp\<rparr>))"

section \<open>Hedging\<close>

definition fills_of :: "bool \<Rightarrow> cross_state \<Rightarrow> (cross_pair, fill_record list) pydict" where
  "fills_of is_buy s = (if is_buy then cs_buy_fills s else cs_sell_fills s)"

definition set_fills :: "bool \<Rightarrow> (cross_pair, fill_record list) pydict \<Rightarrow> cross_state \<Rightarrow> cross_state" where
  "set_fills is_buy fills s = (if is_buy then s\<lparr>cs_buy_fills := fills\<rparr> else s\<lparr>cs_sell_fills := fills\<rparr>)"

definition fill_records :: "bool \<Rightarrow> cross_pair \<Rightarrow> cross_state \<Rightarrow> fill_record list" where
  "fill_records is_buy xp s = (case map_of (fills_of is_buy s) xp of None \<Rightarrow> [] | Some rs \<Rightarrow> rs)"

definition fill_quantity :: "fill_record list \<Rightarrow> decimal" where
  "fill_quantity rs = (\<Sum>r \<leftarrow> rs. of_amount (snd r))"

text \<open>The taker's balance that may hedge fills: of the base asset for buys, of the quote asset at the price of the fills for sells.\<close>

definition hedge_balance :: "cross_env \<Rightarrow> cross_pair \<Rightarrow> bool \<Rightarrow> decimal \<Rightarrow> py_error + decimal option" where
  "hedge_balance xe xp filled_buy quantity =
     (let taker = xp_taker xp; factor = taker_balance_factor (xe_config xe) in
      if filled_buy then bind_err (available_on xe taker (mp_base taker)) (\<lambda>b. Inr (Some (b * factor)))
      else bind_err (available_on xe taker (mp_quote taker)) (\<lambda>b.
           bind_err (volume_price_on xe taker True quantity) (\<lambda>price.
           bind_err (nan_div (Some b) price) (\<lambda>v. Inr (nan_mult v factor)))))"

text \<open>The amount and the price of the order that hedges a quantity.\<close>

definition hedge_order :: "cross_env \<Rightarrow> cross_pair \<Rightarrow> bool \<Rightarrow> decimal \<Rightarrow> py_error + (decimal \<times> decimal option)" where
  "hedge_order xe xp filled_buy quantity =
     (let taker = xp_taker xp; slippage = slippage_buffer (xe_config xe) in
      bind_err (hedge_balance xe xp filled_buy quantity) (\<lambda>balance.
      bind_err (compare_decimals min (Some quantity) balance) (\<lambda>hedged.
      bind_err (quantize_amount_on xe taker hedged) (\<lambda>amount.
      bind_err (price_on xe taker (\<not> filled_buy)) (\<lambda>taker_top.
      bind_err (volume_price_on xe taker (\<not> filled_buy) amount) (\<lambda>price.
      bind_err (quantize_price_on xe taker (nan_mult price (if filled_buy then 1 - slippage else 1 + slippage))) (\<lambda>price.
        Inr (amount, price))))))))"

text \<open>
  Hedging the fills of one side: one order of the opposite side on the taker market, after which the records of the
  side are deleted; nothing happens while the amount is below the least the taker accepts.
\<close>

definition hedge_side :: "cross_env \<Rightarrow> cross_pair \<Rightarrow> bool \<Rightarrow> cross_state \<Rightarrow> (cross_state, unit) outcome" where
  "hedge_side xe xp filled_buy s =
     (let quantity = fill_quantity (fill_records filled_buy xp s) in
      if quantity \<le> 0 then (Inr (), s)
      else and_then (hedge_order xe xp filled_buy quantity, s) (\<lambda>(amount, price) s.
        if 0 < amount then
          and_then (cross_place_order xe xp (\<not> filled_buy) False amount price s) (\<lambda>_ s.
            (Inr (), set_fills filled_buy (AList.delete xp (fills_of filled_buy s)) s))
        else (Inr (), s)))"

text \<open>The quantities of both sides are those at the beginning; hedging one side leaves the records of the other.\<close>

definition check_and_hedge_orders :: "cross_env \<Rightarrow> cross_pair \<Rightarrow> cross_state \<Rightarrow> (cross_state, unit) outcome" where
  "check_and_hedge_orders xe xp s = and_then (hedge_side xe xp True s) (\<lambda>_. hedge_side xe xp False)"

section \<open>Events\<close>

text \<open>An exception while hedging is logged.\<close>

definition cross_did_fill_order :: "cross_env \<Rightarrow> string \<Rightarrow> order_filled_event \<Rightarrow> cross_state \<Rightarrow> cross_state" where
  "cross_did_fill_order xe order_id e s =
     (case pair_of_order_id (cs_tracker s) order_id of
        None \<Rightarrow> s
      | Some xp \<Rightarrow>
          if order_id \<in> set (cs_maker_order_ids s) then
            (let is_buy = (of_trade_type e = BUY);
                 record = (get_shadow_limit_order (st_orders (cs_strategy s)) order_id, e);
                 s = set_fills is_buy (AList.update xp (fill_records is_buy xp s @ [record]) (fills_of is_buy s)) s
             in snd (check_and_hedge_orders xe xp s))
          else s)"

definition upd_cross_orders :: "(strategy_orders \<Rightarrow> strategy_orders) \<Rightarrow> cross_state \<Rightarrow> cross_state" where
  "upd_cross_orders f s = s\<lparr>cs_strategy := (cs_strategy s)\<lparr>st_orders := f (st_orders (cs_strategy s))\<rparr>\<rparr>"

text \<open>Whatever ends the tracking of an order first lets its market pair expire.\<close>

definition cross_did_cancel_order :: "string \<Rightarrow> cross_state \<Rightarrow> cross_state" where
  "cross_did_cancel_order order_id s =
     upd_cross_orders (did_cancel_order_tracker order_id) (s\<lparr>cs_tracker := untrack_order_id order_id (cs_tracker s)\<rparr>)"

definition cross_did_fail_order :: "string \<Rightarrow> order_type \<Rightarrow> cross_state \<Rightarrow> cross_state" where
  "cross_did_fail_order order_id ot s =
     upd_cross_orders (did_fail_order_tracker order_id ot) (s\<lparr>cs_tracker := untrack_order_id order_id (cs_tracker s)\<rparr>)"

definition cross_did_complete_order :: "string \<Rightarrow> order_type \<Rightarrow> cross_state \<Rightarrow> cross_state" where
  "cross_did_complete_order order_id ot s =
     (case so_market_pair_of (st_orders (cs_strategy s)) order_id of
        None \<Rightarrow> s
      | Some _ \<Rightarrow> upd_cross_orders (did_complete_order_tracker order_id ot) (s\<lparr>cs_tracker := untrack_order_id order_id (cs_tracker s)\<rparr>))"

definition cross_did_create_order :: "string \<Rightarrow> cross_state \<Rightarrow> cross_state" where
  "cross_did_create_order order_id s = upd_cross_orders (remove_create_order_pending order_id) s"


section \<open>Prices and sizes of maker orders\<close>

text \<open>Where the quanta of a market are positive, rounding an amount does not increase it.\<close>

definition quanta_positive :: "cross_market \<Rightarrow> bool" where
  "quanta_positive m \<longleftrightarrow> (\<forall>tp x q. ea_price_quantum (cm_api m) tp x = Inr q \<longrightarrow> 0 < q) \<and>
     (\<forall>tp x q. ea_size_quantum (cm_api m) tp x = Inr q \<longrightarrow> 0 < q)"

lemma truncated_le:
  assumes "0 < q" "0 < of_int (truncate_rat (x / q)) * q"
  shows "of_int (truncate_rat (x / q)) * q \<le> x"
proof -
  have "0 \<le> x / q"
  proof (rule ccontr)
    assume "\<not> 0 \<le> x / q"
    then have "truncate_rat (x / q) \<le> 0" by (simp add: truncate_rat_def)
    then have "of_int (truncate_rat (x / q)) * q \<le> 0" using assms(1) by (simp add: mult_nonpos_nonneg)
    then show False using assms(2) by simp
  qed
  then have "of_int (truncate_rat (x / q)) \<le> x / q" by (simp add: truncate_rat_def)
  then show ?thesis using assms(1) by (simp add: pos_le_divide_eq)
qed

lemma quantize_amount_le:
  assumes "quantize_amount_on xe mp x = Inr a" "quanta_positive (market_of xe mp)" "0 < a"
  shows "a \<le> x"
  using assms truncated_le by (auto simp: quantize_amount_on_def quantize_order_amount_def floor_div_def err_simps quanta_positive_def)

lemma least_size_le:
  assumes "least_size xe xp mb tb u = Inr a" "quanta_positive (market_of xe (xp_maker xp))" "0 < a"
  shows "\<exists>m t. mb = Some m \<and> tb = Some t \<and> a \<le> m \<and> a \<le> t"
  using assms quantize_amount_le[OF _ assms(2,3)] by (fastforce simp: least_size_def err_simps)

text \<open>The balance a bid or an ask is hedged with.\<close>

definition hedge_funds :: "cross_env \<Rightarrow> cross_pair \<Rightarrow> bool \<Rightarrow> decimal \<Rightarrow> bool" where
  "hedge_funds xe xp is_bid amount \<longleftrightarrow>
     (let factor = taker_balance_factor (xe_config xe) in
      if is_bid then (\<exists>b. available_on xe (xp_taker xp) (mp_base (xp_taker xp)) = Inr b \<and> amount \<le> b * factor)
      else (\<exists>b price. available_on xe (xp_taker xp) (mp_quote (xp_taker xp)) = Inr b \<and>
              quote_volume_price_on xe (xp_taker xp) True (b * factor) = Inr (Some price) \<and>
              amount \<le> b * factor / (price * (1 + slippage_buffer (xe_config xe)))) \<and>
           (\<exists>m. available_on xe (xp_maker xp) (mp_base (xp_maker xp)) = Inr m \<and> amount \<le> m))"

lemma zero_division_size_Inr: "zero_division_size u e = Inr a \<Longrightarrow> a = 0"
  by (simp add: zero_division_size_def split: if_splits)

lemma market_making_size_funded:
  assumes "market_making_size xe xp is_bid = Inr a" "quanta_positive (market_of xe (xp_maker xp))" "0 < a"
  shows "hedge_funds xe xp is_bid a"
proof (cases is_bid)
  case True
  let ?f = "taker_balance_factor (xe_config xe)"
  obtain q t u where run: "available_on xe (xp_taker xp) (mp_base (xp_taker xp)) = Inr t"
    "(case vwap_of_size xe (xp_taker xp) False u of Inl e \<Rightarrow> zero_division_size u e
      | Inr v \<Rightarrow> bind_err (nan_div (Some q) v) (\<lambda>mb. least_size xe xp mb (Some (t * ?f)) u)) = Inr a"
    using assms(1) True by (auto simp: market_making_size_def market_making_bid_size_def err_simps)
  obtain mb where "least_size xe xp mb (Some (t * ?f)) u = Inr a"
    using run(2) assms(3) zero_division_size_Inr
    by (cases "vwap_of_size xe (xp_taker xp) False u") (auto simp: err_simps)
  then show ?thesis using True run(1) least_size_le[OF _ assms(2,3)] by (fastforce simp: hedge_funds_def)
next
  case False
  let ?f = "taker_balance_factor (xe_config xe)" and ?s = "1 + slippage_buffer (xe_config xe)"
  obtain m t u where run: "available_on xe (xp_maker xp) (mp_base (xp_maker xp)) = Inr m"
    "available_on xe (xp_taker xp) (mp_quote (xp_taker xp)) = Inr t"
    "(case quote_volume_price_on xe (xp_taker xp) True (t * ?f) of Inl e \<Rightarrow> zero_division_size u e
      | Inr v \<Rightarrow> bind_err (nan_div (Some (t * ?f)) (nan_mult v ?s)) (\<lambda>tb. least_size xe xp (Some m) tb u)) = Inr a"
    using assms(1) False by (auto simp: market_making_size_def market_making_ask_size_def err_simps Let_def)
  obtain v tb where v: "quote_volume_price_on xe (xp_taker xp) True (t * ?f) = Inr v"
    "nan_div (Some (t * ?f)) (nan_mult v ?s) = Inr tb" "least_size xe xp (Some m) tb u = Inr a"
    using run(3) assms(3) zero_division_size_Inr
    by (cases "quote_volume_price_on xe (xp_taker xp) True (t * ?f)") (auto simp: err_simps)
  obtain tb' where "tb = Some tb'" "a \<le> m" "a \<le> tb'" using least_size_le[OF v(3) assms(2,3)] by blast
  then show ?thesis using False run v by (auto simp: hedge_funds_def err_simps)
qed

text \<open>The price of a maker order leaves the minimum profitability to its hedge.\<close>

lemma round_price_floor:
  assumes "round_price xe xp floor price = Inr p" "quanta_positive (market_of xe (xp_maker xp))"
  shows "\<exists>x. price = Some x \<and> p \<le> x"
proof -
  obtain x where x: "price = Some x" using assms(1) by (cases price) (auto simp: round_price_def)
  then obtain q where "0 < q" "p = of_int \<lfloor>x / q\<rfloor> * q"
    using assms by (auto simp: round_price_def price_quantum_on_def quanta_positive_def err_simps)
  moreover from this have "of_int \<lfloor>x / q\<rfloor> * q \<le> x" using of_int_floor_le[of "x / q"] by (metis pos_le_divide_eq)
  ultimately show ?thesis using x by blast
qed

lemma round_price_ceiling:
  assumes "round_price xe xp ceiling price = Inr p" "quanta_positive (market_of xe (xp_maker xp))"
  shows "\<exists>x. price = Some x \<and> x \<le> p"
proof -
  obtain x where x: "price = Some x" using assms(1) by (cases price) (auto simp: round_price_def)
  then obtain q where "0 < q" "p = of_int \<lceil>x / q\<rceil> * q"
    using assms by (auto simp: round_price_def price_quantum_on_def quanta_positive_def err_simps)
  moreover from this have "x \<le> of_int \<lceil>x / q\<rceil> * q" using le_of_int_ceiling[of "x / q"] by (metis pos_divide_le_eq)
  ultimately show ?thesis using x by blast
qed

lemma adjust_bid_price_le:
  "adjust_bid_price xe upper mp = Inr (Some x) \<Longrightarrow> \<exists>y. mp = Some y \<and> x \<le> y"
  by (auto simp: adjust_bid_price_def bind_err_eq_Inr compare_decimals_Inr split: if_splits option.splits)

lemma adjust_ask_price_ge:
  "adjust_ask_price xe lower mp = Inr (Some x) \<Longrightarrow> \<exists>y. mp = Some y \<and> y \<le> x"
  by (auto simp: adjust_ask_price_def bind_err_eq_Inr compare_decimals_Inr split: if_splits)

lemma market_making_bid_price_profitable:
  assumes "market_making_bid_price xe xp a s = Inr p" "quanta_positive (market_of xe (xp_maker xp))"
    "0 < 1 + min_profitability (xe_config xe)"
  shows "\<exists>h. effective_hedging_price xe xp True a = Inr (Some (Some h)) \<and> p * (1 + min_profitability (xe_config xe)) \<le> h"
proof -
  let ?m = "1 + min_profitability (xe_config xe)"
  obtain upper taker_price maker_price price where run: "effective_hedging_price xe xp True a = Inr (Some taker_price)"
      "nan_div taker_price (Some ?m) = Inr maker_price" "adjust_bid_price xe upper maker_price = Inr price"
      "round_price xe xp floor price = Inr p"
    using assms(1) by (auto simp: market_making_bid_price_def bind_err_eq_Inr split: option.splits)
  obtain x where "price = Some x" "p \<le> x" using round_price_floor[OF run(4) assms(2)] by blast
  then obtain y where "maker_price = Some y" "p \<le> y" using run(3) adjust_bid_price_le by fastforce
  then obtain h where "taker_price = Some h" "p \<le> h / ?m" using run(2) by (auto simp: err_simps)
  then show ?thesis using run(1) assms(3) by (simp add: pos_le_divide_eq)
qed

lemma market_making_ask_price_profitable:
  assumes "market_making_ask_price xe xp a s = Inr p" "quanta_positive (market_of xe (xp_maker xp))"
  shows "\<exists>h. effective_hedging_price xe xp False a = Inr (Some (Some h)) \<and> h * (1 + min_profitability (xe_config xe)) \<le> p"
proof -
  let ?m = "1 + min_profitability (xe_config xe)"
  obtain lower taker_price price where run: "effective_hedging_price xe xp False a = Inr (Some taker_price)"
      "adjust_ask_price xe lower (nan_mult taker_price ?m) = Inr price" "round_price xe xp ceiling price = Inr p"
    using assms(1) by (auto simp: market_making_ask_price_def bind_err_eq_Inr split: option.splits)
  obtain x where "price = Some x" "x \<le> p" using round_price_ceiling[OF run(3) assms(2)] by blast
  then obtain y where "nan_mult taker_price ?m = Some y" "y \<le> p" using run(2) adjust_ask_price_ge by fastforce
  then show ?thesis using run(1) by (auto simp: nan_mult_def)
qed


section \<open>New orders can be hedged\<close>

text \<open>What placing an order does: nothing but an error, or one request and its tracking.\<close>

lemma place_order_cases:
  assumes "cross_place_order xe xp is_buy is_maker amount price s = (r, s')"
  obtains (refused) e where "r = Inl e" "s' = s"
  | (placed) ot expiration where
      "r = Inr (xe_order_id xe (cs_order_count s))"
      "(if is_maker then get_maker_order_type else get_taker_order_type) (cm_api (market_of xe (if is_maker then xp_maker xp else xp_taker xp))) = Inr ot"
      "cs_requests s' = cs_requests s @ [MarketOrderRequest is_buy (if is_maker then xp_maker xp else xp_taker xp) amount ot
         (if ot = MARKET then None else price) expiration OPEN_POSITION]"
      "cs_buy_fills s' = cs_buy_fills s" "cs_sell_fills s' = cs_sell_fills s"
      "cs_tracker s' = track_order_id (xe_order_id xe (cs_order_count s)) (mp_market (if is_maker then xp_maker xp else xp_taker xp)) xp (cs_tracker s)"
      "cs_maker_order_ids s' = (if is_maker then cs_maker_order_ids s @ [xe_order_id xe (cs_order_count s)] else cs_maker_order_ids s)"
proof -
  let ?mp = "if is_maker then xp_maker xp else xp_taker xp"
  let ?ot = "(if is_maker then get_maker_order_type else get_taker_order_type) (cm_api (market_of xe ?mp))"
  show thesis
  proof (cases ?ot)
    case (Inl e)
    then show thesis using assms refused by (auto simp: cross_place_order_def Let_def if_distribR)
  next
    case (Inr ot)
    have run: "(if ot \<noteq> MARKET \<and> price = None then (Inl InvalidOperation, s)
        else case order_with_specific_market is_buy ?mp amount ot (case price of None \<Rightarrow> 0 | Some p \<Rightarrow> p)
               (get_expiration_seconds (cc_refresh_mode (xe_config xe))) OPEN_POSITION (xe_order_id xe (cs_order_count s)) (cs_strategy s) of
          Inl e \<Rightarrow> (Inl e, s)
        | Inr (st, r) \<Rightarrow>
            (Inr (xe_order_id xe (cs_order_count s)),
             s\<lparr>cs_strategy := st\<lparr>st_orders := add_create_order_pending (xe_order_id xe (cs_order_count s)) (st_orders st)\<rparr>,
               cs_tracker := track_order_id (xe_order_id xe (cs_order_count s)) (mp_market ?mp) xp (cs_tracker s),
               cs_maker_order_ids := (if is_maker then cs_maker_order_ids s @ [xe_order_id xe (cs_order_count s)] else cs_maker_order_ids s),
               cs_order_count := Suc (cs_order_count s), cs_requests := cs_requests s @ [without_price ot r]\<rparr>)) = (r, s')"
      using assms Inr by (simp add: cross_place_order_def Let_def if_distribR)
    show thesis
    proof (cases "order_with_specific_market is_buy ?mp amount ot (case price of None \<Rightarrow> 0 | Some p \<Rightarrow> p)
        (get_expiration_seconds (cc_refresh_mode (xe_config xe))) OPEN_POSITION (xe_order_id xe (cs_order_count s)) (cs_strategy s)")
      case (Inl e)
      then show thesis using run refused by (auto split: if_splits)
    next
      case accepted: (Inr sr)
      obtain st req where sr: "sr = (st, req)" by (cases sr)
      show thesis
      proof (cases "ot \<noteq> MARKET \<and> price = None")
        case True
        then show thesis using run refused by auto
      next
        case False
        obtain expiration where "req = MarketOrderRequest is_buy ?mp amount ot (Some (case price of None \<Rightarrow> 0 | Some p \<Rightarrow> p)) expiration OPEN_POSITION"
          using accepted sr by (auto simp: order_with_specific_market_def split: if_splits)
        then have "without_price ot req = MarketOrderRequest is_buy ?mp amount ot (if ot = MARKET then None else price) expiration OPEN_POSITION"
          using False by (auto simp: without_price_def)
        then show thesis using placed[OF _ Inr, of expiration] run accepted sr False by auto
      qed
    qed
  qed
qed

text \<open>
  A request for a maker order that can be hedged: its price leaves the minimum profitability to the price of the hedge,
  and the taker market has the balance for it (for an ask the maker market, too).
\<close>

definition hedgeable :: "cross_env \<Rightarrow> cross_pair \<Rightarrow> market_request \<Rightarrow> bool" where
  "hedgeable xe xp r = (case r of
       MarketOrderRequest is_bid mp amount ot (Some price) expiration action \<Rightarrow>
         mp = xp_maker xp \<and> 0 < amount \<and> hedge_funds xe xp is_bid amount \<and>
         (\<exists>h. effective_hedging_price xe xp is_bid amount = Inr (Some (Some h)) \<and>
           (if is_bid then price * (1 + min_profitability (xe_config xe)) \<le> h
            else h * (1 + min_profitability (xe_config xe)) \<le> price))
     | _ \<Rightarrow> False)"

lemma place_maker_order_hedgeable:
  assumes "place_maker_order xe xp is_bid s = (r, s')" "quanta_positive (market_of xe (xp_maker xp))"
    "0 < 1 + min_profitability (xe_config xe)"
  shows "\<exists>rs. cs_requests s' = cs_requests s @ rs \<and> length rs \<le> 1 \<and> list_all (hedgeable xe xp) rs"
proof (cases "market_making_size xe xp is_bid")
  case (Inl e)
  then show ?thesis using assms(1) by (simp add: place_maker_order_def)
next
  case (Inr a)
  show ?thesis
  proof (cases "\<exists>price h rate q. market_making_price xe xp is_bid a s = Inr price \<and> effective_hedging_price xe xp is_bid a = Inr (Some h) \<and>
      market_conversion_rate_of xe = Inr rate \<and> nan_div h (Some rate) = Inr q \<and> 0 < a")
    case False
    then have "s' = s"
      using assms(1) Inr by (auto simp: place_maker_order_def and_then_def split: sum.splits if_splits option.splits)
    then show ?thesis by simp
  next
    case True
    then obtain price h rate q where run: "market_making_price xe xp is_bid a s = Inr price"
        "effective_hedging_price xe xp is_bid a = Inr (Some h)" "market_conversion_rate_of xe = Inr rate" "nan_div h (Some rate) = Inr q" "0 < a"
      by blast
    then obtain r1 where place: "cross_place_order xe xp is_bid True a (Some price) s = (r1, s')"
      using assms(1) Inr by (auto simp: place_maker_order_def and_then_def split: prod.splits sum.splits)
    have profit: "\<exists>h. effective_hedging_price xe xp is_bid a = Inr (Some (Some h)) \<and>
        (if is_bid then price * (1 + min_profitability (xe_config xe)) \<le> h else h * (1 + min_profitability (xe_config xe)) \<le> price)"
      using run(1) market_making_bid_price_profitable[OF _ assms(2,3)] market_making_ask_price_profitable[OF _ assms(2)]
      by (cases is_bid) (fastforce simp: market_making_price_def)+
    from place show ?thesis
    proof (cases rule: place_order_cases)
      case (placed ot expiration)
      then have "ot \<noteq> MARKET" by (auto simp: get_maker_order_type_def split: if_splits)
      then show ?thesis
        using placed profit run(5) market_making_size_funded[OF Inr assms(2) run(5)] by (auto simp: hedgeable_def)
    qed auto
  qed
qed

text \<open>
  C16: the orders that cross exchange market making places on the maker market can be hedged: at most one bid and one ask
  are placed, priced so that hedging at the prices of the taker's book leaves the minimum profitability, and of an amount
  that the balance of the taker market covers.
\<close>

theorem new_orders_hedgeable:
  assumes "check_and_create_new_orders xe xp has_active_bid has_active_ask s = (r, s')"
    "quanta_positive (market_of xe (xp_maker xp))" "0 < 1 + min_profitability (xe_config xe)"
  shows "\<exists>rs. cs_requests s' = cs_requests s @ rs \<and> length rs \<le> 2 \<and> list_all (hedgeable xe xp) rs"
proof -
  obtain r1 s1 where bid: "(if has_active_bid then (Inr (), s) else place_maker_order xe xp True s) = (r1, s1)"
    by (cases "if has_active_bid then (Inr (), s) else place_maker_order xe xp True s")
  obtain rs1 where rs1: "cs_requests s1 = cs_requests s @ rs1" "length rs1 \<le> 1" "list_all (hedgeable xe xp) rs1"
    using bid place_maker_order_hedgeable[OF _ assms(2,3)] by (cases has_active_bid) fastforce+
  obtain r2 where "s' = s1 \<or> (if has_active_ask then (Inr (), s1) else place_maker_order xe xp False s1) = (r2, s')"
    using assms(1) bid by (cases r1) (auto simp: check_and_create_new_orders_def split: if_splits)
  then obtain rs2 where "cs_requests s' = cs_requests s1 @ rs2" "length rs2 \<le> 1" "list_all (hedgeable xe xp) rs2"
    using place_maker_order_hedgeable[OF _ assms(2,3)] by (cases has_active_ask) fastforce+
  then show ?thesis using rs1 by (intro exI[of _ "rs1 @ rs2"]) simp
qed

text \<open>
  The strategy never waits for a pending order of the taker market: the keys of the dictionaries are single markets, the
  key looked up is the pair.
\<close>

lemma lookup_cross_empty [simp]: "lookup_cross xp d = []"
proof -
  have "map_of (map (\<lambda>(mp, e). (Inl mp :: market_pair + cross_pair, e)) d) (Inr xp) = None"
    by (induction d) auto
  then show ?thesis by (simp add: lookup_cross_def)
qed

lemma never_waits_for_taker_order: "\<not> has_active_taker_order xp s"
  by (simp add: has_active_taker_order_def)

text \<open>With a taker book too thin for the order the price is NaN and comparing it raises: the tick ends for all pairs.\<close>

lemma thin_taker_book_raises:
  assumes "0 < cc_order_amount (xe_config xe)" "quantize_amount_on xe (xp_maker xp) (cc_order_amount (xe_config xe)) = Inr a"
    "vwap_on xe (xp_taker xp) False a = Inr None"
    "available_on xe (xp_maker xp) (mp_quote (xp_maker xp)) = Inr q" "available_on xe (xp_taker xp) (mp_base (xp_taker xp)) = Inr b"
  shows "check_and_create_new_orders xe xp False has_active_ask s = (Inl InvalidOperation, s)"
  using assms
  by (simp add: check_and_create_new_orders_def place_maker_order_def market_making_size_def market_making_bid_size_def
      adjusted_limit_order_size_def vwap_of_size_def nan_div_def least_size_def compare_decimals_def)

text \<open>When the bid side of the maker's book is empty the price of a bid is never found, if orders are adjusted.\<close>

lemma empty_bid_side_raises:
  assumes "top_bid_ask_from_price_samples xe xp s = Inr (None, top_ask)" "cc_adjust_order_enabled (xe_config xe)"
  shows "\<exists>e. market_making_price xe xp True a s = Inl e"
proof -
  have "adjust_bid_price xe None mp = Inl RaisedException" for mp using assms(2) by (simp add: adjust_bid_price_def)
  then show ?thesis using assms(1)
    by (cases "effective_hedging_price xe xp True a")
       (auto simp: market_making_price_def market_making_bid_price_def price_above_bid_def bind_err_def split: option.splits sum.splits)
qed

section \<open>Fills are hedged once\<close>

lemma set_fills_simps [simp]:
  "fills_of b (set_fills b f s) = f" "fills_of (\<not> b) (set_fills b f s) = fills_of (\<not> b) s"
  "cs_requests (set_fills b f s) = cs_requests s" "cs_tracker (set_fills b f s) = cs_tracker s"
  "cs_maker_order_ids (set_fills b f s) = cs_maker_order_ids s"
  by (cases b; simp add: fills_of_def set_fills_def)+

lemma fills_of_other [simp]: "c \<noteq> d \<Longrightarrow> fills_of c (set_fills d f s) = fills_of c s"
  by (cases d; simp add: fills_of_def set_fills_def)

lemma fill_records_delete:
  "fills_of b s' = AList.delete xp (fills_of b s) \<Longrightarrow> fill_records b xp' s' = (if xp' = xp then [] else fill_records b xp' s)"
  by (simp add: fill_records_def delete_conv')

lemma hedge_order_Inr:
  "hedge_order xe xp b quantity = Inr (amount, price) \<Longrightarrow>
   \<exists>balance. hedge_balance xe xp b quantity = Inr (Some balance) \<and> quantize_amount_on xe (xp_taker xp) (min quantity balance) = Inr amount"
  by (auto simp: hedge_order_def Let_def bind_err_eq_Inr compare_decimals_Inr)

text \<open>
  Hedging a side does nothing, or sends one order for at most the fills and at most the balance, after which no fill of
  the side is left to hedge.
\<close>

lemma hedge_side_cases:
  assumes "hedge_side xe xp b s = (r, s')" "quanta_positive (market_of xe (xp_taker xp))"
  obtains (kept) "s' = s"
  | (hedged) amount balance ot price expiration where
      "r = Inr ()" "cs_requests s' = cs_requests s @ [MarketOrderRequest (\<not> b) (xp_taker xp) amount ot price expiration OPEN_POSITION]"
      "0 < amount" "hedge_balance xe xp b (fill_quantity (fill_records b xp s)) = Inr (Some balance)"
      "quantize_amount_on xe (xp_taker xp) (min (fill_quantity (fill_records b xp s)) balance) = Inr amount"
      "amount \<le> fill_quantity (fill_records b xp s)" "amount \<le> balance"
      "fills_of b s' = AList.delete xp (fills_of b s)" "fills_of (\<not> b) s' = fills_of (\<not> b) s"
      "cs_tracker s' = track_order_id (xe_order_id xe (cs_order_count s)) (mp_market (xp_taker xp)) xp (cs_tracker s)"
      "cs_maker_order_ids s' = cs_maker_order_ids s"
proof -
  let ?quantity = "fill_quantity (fill_records b xp s)"
  consider "s' = s" | amount price where "hedge_order xe xp b ?quantity = Inr (amount, price)" "0 < amount"
      "and_then (cross_place_order xe xp (\<not> b) False amount price s)
         (\<lambda>_ s. (Inr (), set_fills b (AList.delete xp (fills_of b s)) s)) = (r, s')"
    using assms(1) by (cases "hedge_order xe xp b ?quantity") (auto simp: hedge_side_def Let_def split: if_splits)
  then show thesis
  proof cases
    case (2 amount price)
    obtain balance where q: "hedge_balance xe xp b ?quantity = Inr (Some balance)"
        "quantize_amount_on xe (xp_taker xp) (min ?quantity balance) = Inr amount"
      using hedge_order_Inr[OF 2(1)] by blast
    have le: "amount \<le> min ?quantity balance" using quantize_amount_le[OF q(2) assms(2) 2(2)] .
    obtain r1 s1 where place: "cross_place_order xe xp (\<not> b) False amount price s = (r1, s1)" by (cases "cross_place_order xe xp (\<not> b) False amount price s")
    from place show thesis
    proof (cases rule: place_order_cases)
      case refused
      then show thesis using 2(3) place kept by simp
    next
      case (placed ot expiration)
      have fills: "fills_of c s1 = fills_of c s" for c using placed by (simp add: fills_of_def)
      have s': "r = Inr ()" "s' = set_fills b (AList.delete xp (fills_of b s)) s1" using 2(3) place placed(1) fills by auto
      show thesis
        by (rule hedged[OF s'(1) _ 2(2) q]) (use le placed s' fills in auto)
    qed
  qed (rule kept)
qed


subsection \<open>Runs\<close>

datatype cross_event =
    Cross_Tick seconds
  | Cross_Fill string order_filled_event
  | Cross_Cancelled string
  | Cross_Failed string order_type
  | Cross_Completed string order_type
  | Cross_Created string

definition cross_step :: "cross_env \<Rightarrow> cross_event \<Rightarrow> cross_state \<Rightarrow> cross_state" where
  "cross_step xe ev s = (case ev of
       Cross_Tick t \<Rightarrow> snd (cross_tick xe t s)
     | Cross_Fill order_id e \<Rightarrow> cross_did_fill_order xe order_id e s
     | Cross_Cancelled order_id \<Rightarrow> cross_did_cancel_order order_id s
     | Cross_Failed order_id ot \<Rightarrow> cross_did_fail_order order_id ot s
     | Cross_Completed order_id ot \<Rightarrow> cross_did_complete_order order_id ot s
     | Cross_Created order_id \<Rightarrow> cross_did_create_order order_id s)"

text \<open>The markets may change between the steps.\<close>

fun cross_run :: "(cross_env \<times> cross_event) list \<Rightarrow> cross_state \<Rightarrow> cross_state" where
  "cross_run [] s = s"
| "cross_run ((xe, ev) # evs) s = cross_run evs (cross_step xe ev s)"

text \<open>The amount a step fills of the maker orders of a pair, on one side.\<close>

definition filled_by :: "bool \<Rightarrow> cross_pair \<Rightarrow> cross_event \<Rightarrow> cross_state \<Rightarrow> decimal" where
  "filled_by b xp ev s = (case ev of
       Cross_Fill order_id e \<Rightarrow>
         if pair_of_order_id (cs_tracker s) order_id = Some xp \<and> order_id \<in> set (cs_maker_order_ids s) \<and> (of_trade_type e = BUY) = b
         then of_amount e else 0
     | _ \<Rightarrow> 0)"

fun total_filled :: "bool \<Rightarrow> cross_pair \<Rightarrow> (cross_env \<times> cross_event) list \<Rightarrow> cross_state \<Rightarrow> decimal" where
  "total_filled b xp [] s = 0"
| "total_filled b xp ((xe, ev) # evs) s = filled_by b xp ev s + total_filled b xp evs (cross_step xe ev s)"

text \<open>The amount sent to the taker market of a pair to hedge the fills of one side, and the amount left to hedge.\<close>

definition request_hedges :: "bool \<Rightarrow> market_pair \<Rightarrow> market_request \<Rightarrow> decimal" where
  "request_hedges b taker r = (case r of
       MarketOrderRequest is_buy mp amount ot price expiration action \<Rightarrow> if mp = taker \<and> is_buy = (\<not> b) then amount else 0
     | _ \<Rightarrow> 0)"

definition hedged_amount :: "bool \<Rightarrow> cross_pair \<Rightarrow> cross_state \<Rightarrow> decimal" where
  "hedged_amount b xp s = (\<Sum>r \<leftarrow> cs_requests s. request_hedges b (xp_taker xp) r)"

definition unhedged_amount :: "bool \<Rightarrow> cross_pair \<Rightarrow> cross_state \<Rightarrow> decimal" where
  "unhedged_amount b xp s = fill_quantity (fill_records b xp s)"

text \<open>No pair makes where another takes, and every pair takes in its own market.\<close>

definition pairs_separate :: "cross_pair list \<Rightarrow> bool" where
  "pairs_separate xps \<longleftrightarrow> (\<forall>xp \<in> set xps. \<forall>xp' \<in> set xps. xp_maker xp' \<noteq> xp_taker xp \<and> (xp_taker xp' = xp_taker xp \<longrightarrow> xp' = xp))"

definition cross_step_ok :: "cross_pair list \<Rightarrow> cross_env \<times> cross_event \<Rightarrow> bool" where
  "cross_step_ok xps step = (case step of (xe, ev) \<Rightarrow>
     xe_pairs xe = xps \<and> (\<forall>xp \<in> set xps. quanta_positive (market_of xe (xp_taker xp))))"

definition tracked_in :: "cross_pair list \<Rightarrow> cross_state \<Rightarrow> bool" where
  "tracked_in xps s \<longleftrightarrow> list_all (\<lambda>(i, item). ti_market_pair item \<in> set xps) (pt_items (cs_tracker s))"

text \<open>What a step that fills nothing leaves as it is.\<close>

definition hedges_kept :: "cross_pair list \<Rightarrow> bool \<Rightarrow> cross_pair \<Rightarrow> decimal \<Rightarrow> fill_record list \<Rightarrow> cross_state \<Rightarrow> bool" where
  "hedges_kept xps b xp h rs s \<longleftrightarrow> tracked_in xps s \<and> hedged_amount b xp s = h \<and> fill_records b xp s = rs"

lemma list_all_update_entry:
  "list_all P d \<Longrightarrow> P (k, v) \<Longrightarrow> list_all P (AList.update k v d)"
  by (induction d) auto

lemma tracked_in_track: "tracked_in xps s \<Longrightarrow> xp \<in> set xps \<Longrightarrow>
   list_all (\<lambda>(i, item). ti_market_pair item \<in> set xps) (pt_items (track_order_id i ex xp (cs_tracker s)))"
  by (simp add: tracked_in_def track_order_id_def list_all_update_entry)

lemma tracked_in_untrack:
  assumes "tracked_in xps s"
  shows "list_all (\<lambda>(i, item). ti_market_pair item \<in> set xps) (pt_items (untrack_order_id i (cs_tracker s)))"
proof (cases "map_of (pt_items (cs_tracker s)) i")
  case (Some item)
  then have "ti_market_pair item \<in> set xps" using assms by (auto simp: tracked_in_def list_all_iff dest!: map_of_SomeD)
  then show ?thesis using Some assms by (simp add: tracked_in_def untrack_order_id_def list_all_update_entry)
qed (use assms in \<open>simp add: tracked_in_def untrack_order_id_def\<close>)

lemma tracked_in_tick: "tracked_in xps s \<Longrightarrow>
   list_all (\<lambda>(i, item). ti_market_pair item \<in> set xps) (pt_items (pair_tracker_tick t (cs_tracker s)))"
  by (auto simp: tracked_in_def pair_tracker_tick_def expire_tracking_items_def list_all_iff dest: set_dropWhileD)

lemma hedges_kept_intro:
  assumes "hedges_kept xps b xp h rs s" "tracked_in xps s'" "cs_buy_fills s' = cs_buy_fills s" "cs_sell_fills s' = cs_sell_fills s"
    "cs_requests s' = cs_requests s @ new" "list_all (\<lambda>r. request_hedges b (xp_taker xp) r = 0) new"
  shows "hedges_kept xps b xp h rs s'"
proof -
  have "(\<Sum>r \<leftarrow> new. request_hedges b (xp_taker xp) r) = 0" using assms(6) by (induction new) auto
  moreover have "fill_records b xp s' = fill_records b xp s" using assms by (simp add: fill_records_def fills_of_def)
  ultimately show ?thesis using assms by (simp add: hedges_kept_def hedged_amount_def)
qed

lemma hedges_kept_cancel:
  assumes "hedges_kept xps b xp h rs s"
  shows "leaves (hedges_kept xps b xp h rs) (cross_cancel i s)"
proof (cases "so_market_pair_of (st_orders (cs_strategy s)) i")
  case (Some mp)
  obtain st new where cancel: "strategy_cancel mp i (cs_strategy s) = (st, new)" by (cases "strategy_cancel mp i (cs_strategy s)")
  then have "list_all (\<lambda>r. request_hedges b (xp_taker xp) r = 0) new"
    by (auto simp: strategy_cancel_def request_hedges_def split: prod.splits if_splits)
  moreover have "tracked_in xps (s\<lparr>cs_strategy := st, cs_requests := cs_requests s @ new\<rparr>)"
    using assms by (simp add: hedges_kept_def tracked_in_def)
  ultimately have "hedges_kept xps b xp h rs (s\<lparr>cs_strategy := st, cs_requests := cs_requests s @ new\<rparr>)"
    by (intro hedges_kept_intro[OF assms]) auto
  then show ?thesis using Some cancel by (simp add: cross_cancel_def)
qed (use assms in \<open>simp add: cross_cancel_def\<close>)

lemma hedges_kept_place_maker:
  assumes "hedges_kept xps b xp h rs s" "xp' \<in> set xps" "xp \<in> set xps" "pairs_separate xps"
  shows "leaves (hedges_kept xps b xp h rs) (cross_place_order xe xp' is_bid True amount price s)"
proof -
  obtain r s' where run: "cross_place_order xe xp' is_bid True amount price s = (r, s')" by (cases "cross_place_order xe xp' is_bid True amount price s")
  from run have "hedges_kept xps b xp h rs s'"
  proof (cases rule: place_order_cases)
    case (placed ot expiration)
    moreover have "xp_maker xp' \<noteq> xp_taker xp" using assms by (auto simp: pairs_separate_def)
    ultimately show ?thesis
      using assms(1,2) tracked_in_track[of xps s xp'] 
      by (auto simp: hedges_kept_def tracked_in_def hedged_amount_def fill_records_def fills_of_def request_hedges_def)
  qed (use assms in simp)
  then show ?thesis using run by simp
qed

declare leaves_read [intro]

lemma hedges_kept_samples:
  "hedges_kept xps b xp h rs s \<Longrightarrow> leaves (hedges_kept xps b xp h rs) (take_suggested_price_sample xe xp' s)"
  by (auto simp: take_suggested_price_sample_def Let_def and_then_def hedges_kept_def tracked_in_def hedged_amount_def
      fill_records_def fills_of_def leaves_def split: sum.splits prod.splits)

lemma hedges_kept_checks:
  assumes "hedges_kept xps b xp h rs s"
  shows "leaves (hedges_kept xps b xp h rs) (check_if_still_profitable xe x hedging s)"
    "leaves (hedges_kept xps b xp h rs) (check_if_sufficient_balance xe xp' x s)"
    "leaves (hedges_kept xps b xp h rs) (check_if_price_has_drifted xe xp' x s)"
  using assms
  by (auto simp: check_if_still_profitable_def check_if_sufficient_balance_def check_if_price_has_drifted_def Let_def
      intro!: leaves_and_then hedges_kept_cancel split: option.splits)

lemma hedges_kept_active_orders:
  "hedges_kept xps b xp h rs s \<Longrightarrow> leaves (hedges_kept xps b xp h rs) (check_active_orders xe xp' timer xs s)"
proof (induction xs arbitrary: s)
  case (Cons x xs)
  then show ?case
    by (auto intro!: leaves_and_then hedges_kept_checks leaves_read simp: leaves_pair split: if_splits)
qed simp


lemma hedges_kept_place:
  assumes "hedges_kept xps b xp h rs s" "xp' \<in> set xps" "xp \<in> set xps" "pairs_separate xps"
  shows "leaves (hedges_kept xps b xp h rs) (place_maker_order xe xp' is_bid s)"
  unfolding place_maker_order_def
  by (auto intro!: leaves_and_then leaves_read hedges_kept_place_maker assms)

lemma hedges_kept_process:
  assumes "hedges_kept xps b xp h rs s" "xp' \<in> set xps" "xp \<in> set xps" "pairs_separate xps"
  shows "leaves (hedges_kept xps b xp h rs) (process_cross_pair xe xp' orders s)"
proof -
  have create: "leaves (hedges_kept xps b xp h rs) (check_and_create_new_orders xe xp' hb ha t)"
    if "hedges_kept xps b xp h rs t" for hb ha t
    unfolding check_and_create_new_orders_def
    by (auto intro!: leaves_and_then leaves_read hedges_kept_place that assms(2-))
  have timers: "hedges_kept xps b xp h rs (t\<lparr>cs_anti_hysteresis_timers := ts\<rparr>)" if "hedges_kept xps b xp h rs t" for t ts
    by (rule hedges_kept_intro[OF that, of _ "[]"]) (use that in \<open>auto simp: hedges_kept_def tracked_in_def\<close>)
  show ?thesis
    unfolding process_cross_pair_def Let_def
    by (rule leaves_and_then leaves_and_then hedges_kept_samples assms(1) | intro hedges_kept_active_orders | assumption)+
       (auto intro!: create leaves_read timers)
qed

lemma hedges_kept_pairs:
  "hedges_kept xps b xp h rs s \<Longrightarrow> list_all (\<lambda>(xp', xs). xp' \<in> set xps) ps \<Longrightarrow> xp \<in> set xps \<Longrightarrow> pairs_separate xps \<Longrightarrow>
   leaves (hedges_kept xps b xp h rs) (process_cross_pairs xe ps s)"
proof (induction ps arbitrary: s)
  case (Cons p ps)
  obtain xp' xs where p: "p = (xp', xs)" by (cases p)
  show ?case using Cons.prems p by (auto intro!: leaves_and_then hedges_kept_process Cons.IH)
qed simp

lemma hedges_kept_tick:
  assumes "hedges_kept xps b xp h rs s" "xe_pairs xe = xps" "xp \<in> set xps" "pairs_separate xps"
  shows "hedges_kept xps b xp h rs (snd (cross_tick xe t s))"
proof -
  define s1 where "s1 = s\<lparr>cs_strategy := (cs_strategy s)\<lparr>st_orders := orders_tick t (st_orders (cs_strategy s))\<rparr>\<rparr>"
  define s2 where "s2 = s1\<lparr>cs_tracker := pair_tracker_tick t (cs_tracker s1), cs_all_markets_ready := cs_all_markets_ready s1 \<or> xe_ready xe\<rparr>"
  define ps where "ps = map (\<lambda>xp. (xp, active_orders_of_pair xe xp s2 (cross_active_limit_orders s1))) (xe_pairs xe)"
  have "tracked_in xps s1" using assms(1) by (simp add: hedges_kept_def tracked_in_def s1_def)
  then have "tracked_in xps s2" using tracked_in_tick[of xps s1 t] by (simp add: tracked_in_def s2_def)
  then have kept: "hedges_kept xps b xp h rs s2" by (intro hedges_kept_intro[OF assms(1), of _ "[]"]) (auto simp: s1_def s2_def)
  have run: "cross_tick xe t s = (case (if \<not> cs_all_markets_ready s2 then (Inr (), s2) else process_cross_pairs xe ps s2) of
      (r, s) \<Rightarrow> (r, s\<lparr>cs_last_timestamp := t\<rparr>))"
    by (simp add: cross_tick_def Let_def s1_def s2_def ps_def)
  have "leaves (hedges_kept xps b xp h rs) (if \<not> cs_all_markets_ready s2 then (Inr (), s2) else process_cross_pairs xe ps s2)"
    using kept hedges_kept_pairs[OF kept _ assms(3,4), of ps xe] assms(2) by (auto simp: ps_def list_all_iff)
  moreover obtain r s3 where r: "(if \<not> cs_all_markets_ready s2 then (Inr (), s2) else process_cross_pairs xe ps s2) = (r, s3)"
    by (cases "if \<not> cs_all_markets_ready s2 then (Inr (), s2) else process_cross_pairs xe ps s2")
  ultimately have s3: "cross_tick xe t s = (r, s3\<lparr>cs_last_timestamp := t\<rparr>)" "hedges_kept xps b xp h rs s3"
    by (simp_all add: run r)
  have "hedges_kept xps b xp h rs (s3\<lparr>cs_last_timestamp := t\<rparr>)"
    by (rule hedges_kept_intro[OF s3(2), of _ "[]"]) (use s3(2) in \<open>auto simp: hedges_kept_def tracked_in_def\<close>)
  then show ?thesis using s3(1) by simp
qed

lemma hedges_kept_upd:
  assumes "hedges_kept xps b xp h rs s"
  shows "hedges_kept xps b xp h rs (upd_cross_orders f s)"
    "hedges_kept xps b xp h rs (upd_cross_orders f (s\<lparr>cs_tracker := untrack_order_id i (cs_tracker s)\<rparr>))"
  by (rule hedges_kept_intro[OF assms, of _ "[]"];
      use assms tracked_in_untrack[of xps s i] in \<open>simp add: upd_cross_orders_def hedges_kept_def tracked_in_def\<close>)+


text \<open>What is hedged and what is left to hedge do not exceed a bound, the fills so far.\<close>

definition accounted :: "cross_pair list \<Rightarrow> bool \<Rightarrow> cross_pair \<Rightarrow> decimal \<Rightarrow> cross_state \<Rightarrow> bool" where
  "accounted xps b xp bound s \<longleftrightarrow> tracked_in xps s \<and> hedged_amount b xp s + unhedged_amount b xp s \<le> bound"

lemma hedges_kept_accounted:
  "accounted xps b xp bound s \<Longrightarrow> hedges_kept xps b xp (hedged_amount b xp s) (fill_records b xp s) s' \<Longrightarrow> accounted xps b xp bound s'"
  by (simp add: accounted_def hedges_kept_def unhedged_amount_def)

lemma accounted_hedges_kept:
  "accounted xps b xp bound s \<Longrightarrow> hedges_kept xps b xp (hedged_amount b xp s) (fill_records b xp s) s"
  by (simp add: accounted_def hedges_kept_def)

lemma accounted_hedge_side:
  assumes "accounted xps b xp bound s" "xp \<in> set xps" "xp' \<in> set xps" "pairs_separate xps" "cross_step_ok xps (xe, ev)"
  shows "leaves (accounted xps b xp bound) (hedge_side xe xp' c s)"
proof -
  obtain r s' where run: "hedge_side xe xp' c s = (r, s')" by (cases "hedge_side xe xp' c s")
  moreover have "quanta_positive (market_of xe (xp_taker xp'))" using assms(3,5) by (simp add: cross_step_ok_def)
  ultimately have "accounted xps b xp bound s'"
  proof (cases rule: hedge_side_cases)
    case (hedged amount balance ot price expiration)
    have tracked: "tracked_in xps s'" using hedged(10) assms(1,3) tracked_in_track[of xps s xp'] by (simp add: accounted_def tracked_in_def)
    show ?thesis
    proof (cases "xp' = xp \<and> c = b")
      case True
      then show ?thesis using hedged(2,6,8) tracked assms(1) fill_records_delete[of b s' xp s]
        by (simp add: accounted_def hedged_amount_def request_hedges_def unhedged_amount_def fill_quantity_def)
    next
      case False
      then have "request_hedges b (xp_taker xp) (MarketOrderRequest (\<not> c) (xp_taker xp') amount ot price expiration OPEN_POSITION) = 0"
        using assms(2-4) by (auto simp: request_hedges_def pairs_separate_def)
      moreover have "fill_records b xp s' = fill_records b xp s"
        using False hedged(8,9) fill_records_delete[of b s' xp' s xp] by (cases "c = b") (auto simp: fill_records_def)
      ultimately show ?thesis using hedged(2) tracked assms(1) by (simp add: accounted_def hedged_amount_def unhedged_amount_def)
    qed
  qed (use assms(1) in simp)
  then show ?thesis using run by simp
qed

lemma accounted_fill:
  assumes "accounted xps b xp bound s" "xp \<in> set xps" "pairs_separate xps" "cross_step_ok xps (xe, Cross_Fill i e)"
  shows "accounted xps b xp (bound + filled_by b xp (Cross_Fill i e) s) (cross_did_fill_order xe i e s)"
proof (cases "\<exists>xp'. pair_of_order_id (cs_tracker s) i = Some xp' \<and> i \<in> set (cs_maker_order_ids s)")
  case True
  then obtain xp' where xp': "pair_of_order_id (cs_tracker s) i = Some xp'" "i \<in> set (cs_maker_order_ids s)" by blast
  then have pair: "xp' \<in> set xps"
    using assms(1) by (auto simp: accounted_def tracked_in_def pair_of_order_id_def list_all_iff dest!: map_of_SomeD)
  define c where "c = (of_trade_type e = BUY)"
  define s1 where "s1 = set_fills c (AList.update xp' (fill_records c xp' s @ [(get_shadow_limit_order (st_orders (cs_strategy s)) i, e)]) (fills_of c s)) s"
  have same: "cs_tracker s1 = cs_tracker s" "cs_requests s1 = cs_requests s" by (simp_all add: s1_def)
  have records: "fill_records b xp s1 = (if xp' = xp \<and> c = b then fill_records b xp s @ [(get_shadow_limit_order (st_orders (cs_strategy s)) i, e)] else fill_records b xp s)"
    by (cases "c = b") (auto simp: s1_def fill_records_def update_conv')
  have "accounted xps b xp (bound + filled_by b xp (Cross_Fill i e) s) s1"
    using assms(1) xp' records same
    by (auto simp: accounted_def tracked_in_def hedged_amount_def unhedged_amount_def fill_quantity_def filled_by_def c_def)
  then have "leaves (accounted xps b xp (bound + filled_by b xp (Cross_Fill i e) s)) (check_and_hedge_orders xe xp' s1)"
    unfolding check_and_hedge_orders_def by (auto intro!: leaves_and_then accounted_hedge_side assms pair)
  then show ?thesis
    using xp' by (simp add: cross_did_fill_order_def Let_def s1_def c_def leaves_def split: prod.splits)
next
  case False
  then show ?thesis using assms(1) by (auto simp: cross_did_fill_order_def filled_by_def split: option.splits)
qed

lemma accounted_step:
  assumes "accounted xps b xp bound s" "xp \<in> set xps" "pairs_separate xps" "cross_step_ok xps (xe, ev)"
  shows "accounted xps b xp (bound + filled_by b xp ev s) (cross_step xe ev s)"
proof (cases ev)
  case (Cross_Fill i e)
  then show ?thesis using accounted_fill[OF assms(1-3)] assms(4) by (simp add: cross_step_def)
next
  case (Cross_Tick t)
  then show ?thesis
    using hedges_kept_accounted[OF assms(1) hedges_kept_tick[OF accounted_hedges_kept[OF assms(1)]]] assms(2-4)
    by (simp add: cross_step_def filled_by_def cross_step_ok_def)
qed (use assms(1) hedges_kept_accounted[OF assms(1)] hedges_kept_upd[OF accounted_hedges_kept[OF assms(1)]] in
      \<open>auto simp: cross_step_def filled_by_def cross_did_cancel_order_def cross_did_fail_order_def
        cross_did_complete_order_def cross_did_create_order_def split: option.splits\<close>)

lemma accounted_run:
  "accounted xps b xp bound s \<Longrightarrow> list_all (cross_step_ok xps) evs \<Longrightarrow> xp \<in> set xps \<Longrightarrow> pairs_separate xps \<Longrightarrow>
   accounted xps b xp (bound + total_filled b xp evs s) (cross_run evs s)"
proof (induction evs arbitrary: s bound)
  case (Cons step evs)
  obtain xe ev where step: "step = (xe, ev)" by (cases step)
  show ?case
    using Cons.IH[OF accounted_step[OF Cons.prems(1,3,4)]] Cons.prems step by (simp add: algebra_simps)
qed simp


text \<open>
  C4: whatever happens on the markets, cross exchange market making never hedges more than was filled: for each pair and
  side, the amount of the orders sent to the taker market and the fills still to hedge never exceed the fills of the
  maker orders.
\<close>

theorem never_over_hedged:
  assumes "list_all (cross_step_ok xps) evs" "xp \<in> set xps" "pairs_separate xps"
  shows "hedged_amount b xp (cross_run evs (cross_init_params xps)) + unhedged_amount b xp (cross_run evs (cross_init_params xps))
    \<le> total_filled b xp evs (cross_init_params xps)"
proof -
  have "accounted xps b xp 0 (cross_init_params xps)"
    by (simp add: accounted_def tracked_in_def cross_init_params_def new_pair_tracker_def hedged_amount_def
        unhedged_amount_def fill_quantity_def fill_records_def fills_of_def)
  from accounted_run[OF this assms] show ?thesis by (simp add: accounted_def)
qed

text \<open>An order the taker market accepts is sent.\<close>

lemma place_taker_order:
  assumes "get_taker_order_type (cm_api (market_of xe (xp_taker xp))) = Inr ot" "price = Some p"
    "mp_market (xp_taker xp) \<in> set (st_markets (cs_strategy s))" "\<not> st_delegate_lock (cs_strategy s)"
  shows "\<exists>s'. cross_place_order xe xp is_buy False amount price s = (Inr (xe_order_id xe (cs_order_count s)), s')"
  using assms by (simp add: cross_place_order_def Let_def order_with_specific_market_def)

lemma hedge_side_full:
  assumes "hedge_order xe xp b (unhedged_amount b xp s) = Inr (unhedged_amount b xp s, Some price)" "0 < unhedged_amount b xp s"
    "get_taker_order_type (cm_api (market_of xe (xp_taker xp))) = Inr ot"
    "mp_market (xp_taker xp) \<in> set (st_markets (cs_strategy s))" "\<not> st_delegate_lock (cs_strategy s)"
  shows "\<exists>s'. hedge_side xe xp b s = (Inr (), s') \<and> hedged_amount b xp s' = hedged_amount b xp s + unhedged_amount b xp s \<and>
    unhedged_amount b xp s' = 0 \<and> fill_records (\<not> b) xp s' = fill_records (\<not> b) xp s"
proof -
  let ?q = "unhedged_amount b xp s"
  obtain s1 where place: "cross_place_order xe xp (\<not> b) False ?q (Some price) s = (Inr (xe_order_id xe (cs_order_count s)), s1)"
    using place_taker_order[OF assms(3) refl assms(4,5)] by blast
  then have run: "hedge_side xe xp b s = (Inr (), set_fills b (AList.delete xp (fills_of b s1)) s1)"
    using assms(1,2) by (simp add: hedge_side_def Let_def unhedged_amount_def not_le and_then_def)
  from place show ?thesis
  proof (cases rule: place_order_cases)
    case (placed ot expiration)
    have kept: "fills_of c s1 = fills_of c s" for c using placed by (simp add: fills_of_def)
    then show ?thesis using run placed(3)
      by (simp add: hedged_amount_def request_hedges_def unhedged_amount_def fill_records_def delete_conv' fill_quantity_def)
  qed simp
qed

lemma hedge_side_nothing: "fill_records b xp s = [] \<Longrightarrow> hedge_side xe xp b s = (Inr (), s)"
  by (simp add: hedge_side_def fill_quantity_def Let_def)

text \<open>Hedging a side leaves the other as it is, whatever comes of it.\<close>

lemma hedge_other_side:
  assumes "hedge_side xe xp (\<not> b) s = (r, s')" "quanta_positive (market_of xe (xp_taker xp))"
  shows "hedged_amount b xp s' = hedged_amount b xp s \<and> unhedged_amount b xp s' = unhedged_amount b xp s"
  using assms
proof (cases rule: hedge_side_cases)
  case (hedged amount balance ot price expiration)
  then show ?thesis by (simp add: hedged_amount_def request_hedges_def unhedged_amount_def fill_records_def)
qed simp

text \<open>
  The balance of the taker market covers a quantity: for bought fills the base asset that is to be sold, for sold fills
  the quote asset at the price of the quantity, each up to the share the configuration allows.
\<close>

definition taker_covers :: "cross_env \<Rightarrow> cross_pair \<Rightarrow> bool \<Rightarrow> decimal \<Rightarrow> bool" where
  "taker_covers xe xp filled_buy quantity \<longleftrightarrow>
     (let taker = xp_taker xp; connector = cm_connector (market_of xe taker); share = cc_taker_balance_factor_pct (xe_config xe) / 100 in
      if filled_buy then \<exists>c. get_available_balance connector (mp_base taker) = Inr c \<and> quantity \<le> c * share
      else \<exists>c p. get_available_balance connector (mp_quote taker) = Inr c \<and> volume_price_on xe taker True quantity = Inr (Some p) \<and>
             0 < p \<and> quantity * p \<le> c * share)"

text \<open>The quantity is a multiple of the taker market's quantum, and its book has prices for it, one of which can be rounded.\<close>

definition taker_takes :: "cross_env \<Rightarrow> cross_pair \<Rightarrow> bool \<Rightarrow> decimal \<Rightarrow> bool" where
  "taker_takes xe xp filled_buy quantity \<longleftrightarrow>
     (let taker = xp_taker xp; api = cm_api (market_of xe taker); slippage = cc_slippage_buffer_pct (xe_config xe) / 100 in
      (\<exists>q n. ea_size_quantum api (mp_trading_pair taker) quantity = Inr q \<and> 0 < q \<and> quantity = of_nat n * q) \<and>
      (\<exists>best. exchange_price api (mp_trading_pair taker) (\<not> filled_buy) = Inr best) \<and>
      (\<exists>p q. volume_price_on xe taker (\<not> filled_buy) quantity = Inr (Some p) \<and> 0 < q \<and>
        ea_price_quantum api (mp_trading_pair taker) (p * (if filled_buy then 1 - slippage else 1 + slippage)) = Inr q))"

lemma hedge_order_full:
  assumes "taker_covers xe xp b quantity" "taker_takes xe xp b quantity"
  shows "\<exists>price. hedge_order xe xp b quantity = Inr (quantity, Some price)"
proof -
  let ?taker = "xp_taker xp" and ?share = "taker_balance_factor (xe_config xe)"
  have share: "?share = cc_taker_balance_factor_pct (xe_config xe) / 100"
    and slippage: "slippage_buffer (xe_config xe) = cc_slippage_buffer_pct (xe_config xe) / 100"
    by (simp_all add: taker_balance_factor_def slippage_buffer_def)
  have covered: "\<exists>balance. hedge_balance xe xp b quantity = Inr (Some balance) \<and> quantity \<le> balance"
  proof (cases b)
    case True
    then obtain c where "get_available_balance (cm_connector (market_of xe ?taker)) (mp_base ?taker) = Inr c" "quantity \<le> c * ?share"
      using assms(1) by (auto simp: taker_covers_def Let_def share)
    then show ?thesis using True by (simp add: hedge_balance_def available_on_def Let_def)
  next
    case False
    then obtain c p where c: "get_available_balance (cm_connector (market_of xe ?taker)) (mp_quote ?taker) = Inr c"
        "volume_price_on xe ?taker True quantity = Inr (Some p)" "0 < p" "quantity * p \<le> c * ?share"
      using assms(1) by (auto simp: taker_covers_def Let_def share)
    then have "quantity \<le> c * ?share / p" by (simp add: pos_le_divide_eq)
    then show ?thesis using False c by (simp add: hedge_balance_def available_on_def Let_def nan_div_def nan_mult_def err_simps)
  qed
  obtain q n where q: "ea_size_quantum (cm_api (market_of xe ?taker)) (mp_trading_pair ?taker) quantity = Inr q" "0 < q" "quantity = of_nat n * q"
    using assms(2) by (auto simp: taker_takes_def Let_def)
  then have "truncate_rat (quantity / q) = int n" by (simp add: truncate_rat_def)
  then have amount: "quantize_amount_on xe ?taker quantity = Inr quantity"
    using q by (simp add: quantize_amount_on_def quantize_order_amount_def floor_div_def)
  show ?thesis
    using covered amount assms(2)
    by (cases b) (auto simp: hedge_order_def Let_def taker_takes_def price_on_def quantize_price_on_def quantized_price_rounds nan_mult_def
        compare_decimals_def slippage min_def)
qed

text \<open>
  C17: a fill of a maker order is hedged at once and in full, together with the fills of the side that were too small
  before, when the taker market can take the whole amount: its balance covers it, it is a multiple of the quantum, and the
  book has a price for it.  Afterwards the amount sent to the taker market has grown by it and nothing of the side is left
  to hedge.  Fills of sell orders are hedged after those of buy orders, whose failure would end the hedging: for them no
  fill of a buy order is to be left.
\<close>

theorem fill_hedged_at_once:
  assumes "pair_of_order_id (cs_tracker s) i = Some xp" "i \<in> set (cs_maker_order_ids s)" "b = (of_trade_type e = BUY)"
    "b \<or> fill_records True xp s = []" "quantity = unhedged_amount b xp s + of_amount e" "0 < quantity"
    "taker_covers xe xp b quantity" "taker_takes xe xp b quantity" "quanta_positive (market_of xe (xp_taker xp))"
    "get_taker_order_type (cm_api (market_of xe (xp_taker xp))) = Inr ot"
    "mp_market (xp_taker xp) \<in> set (st_markets (cs_strategy s))" "\<not> st_delegate_lock (cs_strategy s)"
  shows "hedged_amount b xp (cross_step xe (Cross_Fill i e) s) = hedged_amount b xp s + quantity \<and>
    unhedged_amount b xp (cross_step xe (Cross_Fill i e) s) = 0"
proof -
  define s1 where "s1 = set_fills b (AList.update xp (fill_records b xp s @ [(get_shadow_limit_order (st_orders (cs_strategy s)) i, e)]) (fills_of b s)) s"
  have same: "hedged_amount b xp s1 = hedged_amount b xp s" "cs_strategy s1 = cs_strategy s"
    by (simp_all add: s1_def hedged_amount_def) (simp add: set_fills_def)
  have bought: "b \<or> fill_records True xp s1 = []"
    using assms(4) by (cases b) (simp_all add: s1_def fill_records_def fills_of_def set_fills_def)
  have quantity: "unhedged_amount b xp s1 = quantity"
    using assms(5) by (simp add: s1_def unhedged_amount_def fill_records_def update_conv' fill_quantity_def)
  obtain price where order: "hedge_order xe xp b quantity = Inr (quantity, Some price)" using hedge_order_full[OF assms(7,8)] by blast
  obtain s2 where s2: "hedge_side xe xp b s1 = (Inr (), s2)" "hedged_amount b xp s2 = hedged_amount b xp s + quantity" "unhedged_amount b xp s2 = 0"
    using hedge_side_full[of xe xp b s1 price ot] order assms(6,10-12) same quantity by auto
  have "hedged_amount b xp (snd (check_and_hedge_orders xe xp s1)) = hedged_amount b xp s + quantity \<and>
      unhedged_amount b xp (snd (check_and_hedge_orders xe xp s1)) = 0"
  proof (cases b)
    case True
    obtain r s3 where s3: "hedge_side xe xp False s2 = (r, s3)" by fastforce
    then show ?thesis using hedge_other_side[of xe xp True s2 r s3] assms(9) s2 True by (simp add: check_and_hedge_orders_def)
  next
    case False
    then show ?thesis using hedge_side_nothing[of True xp s1 xe] bought s2 by (simp add: check_and_hedge_orders_def)
  qed
  then show ?thesis using assms(1-3) by (simp add: cross_step_def cross_did_fill_order_def Let_def s1_def)
qed

text \<open>
  Hedging a side forgets what the balance of the taker does not cover: an order of at most the balance is sent, and no
  fill of the side is left.
\<close>

lemma partial_hedge_forgets:
  assumes "hedge_side xe xp b s = (r, s')" "quanta_positive (market_of xe (xp_taker xp))" "cs_requests s' \<noteq> cs_requests s"
    "hedge_balance xe xp b (unhedged_amount b xp s) = Inr (Some balance)" "balance < unhedged_amount b xp s"
  shows "unhedged_amount b xp s' = 0 \<and> hedged_amount b xp s' < hedged_amount b xp s + unhedged_amount b xp s"
proof -
  from assms(1,2) show ?thesis
  proof (cases rule: hedge_side_cases)
    case (hedged amount balance' ot price expiration)
    then show ?thesis using assms(4,5) fill_records_delete[of b s' xp s]
      by (simp add: unhedged_amount_def hedged_amount_def request_hedges_def fill_quantity_def)
  qed (use assms(3) in simp)
qed

subsection \<open>A pair of markets\<close>

definition eth_maker :: market_pair where
  "eth_maker = \<lparr> mp_market = ''maker'', mp_trading_pair = ''ETH-USDT'', mp_base = ''ETH'', mp_quote = ''USDT'' \<rparr>"

definition eth_pair :: cross_pair where
  "eth_pair = \<lparr> xp_maker = eth_maker, xp_taker = eth_maker\<lparr> mp_market := ''taker'' \<rparr> \<rparr>"

definition eth_market :: "string \<Rightarrow> cross_market" where
  "eth_market name =
     \<lparr> cm_api = sample_api\<lparr> ea_order_book := (\<lambda>_. Inr sample_book) \<rparr>,
       cm_connector = sample_connector\<lparr> cn_name := name, cn_account_balances := [''USDT'' \<mapsto> 300, ''ETH'' \<mapsto> 10],
         cn_account_available_balances := [''USDT'' \<mapsto> 300, ''ETH'' \<mapsto> 10], cn_real_time_balance_update := True \<rparr> \<rparr>"

definition eth_env :: cross_env where
  "eth_env =
     \<lparr> xe_config = \<lparr> cc_order_amount = 1, cc_min_profitability_pct = 1, cc_taker_balance_factor_pct = 100, cc_portfolio_ratio_limit_pct = 100,
         cc_top_depth_tolerance = 0, cc_anti_hysteresis_duration = 60, cc_adjust_order_enabled = False,
         cc_refresh_mode = ActiveOrderRefreshMode, cc_conversion_mode = TakerToMakerConversionRateMode 1 1, cc_slippage_buffer_pct = 5 \<rparr>,
       xe_pairs = [eth_pair], xe_market = eth_market,
       xe_order_id = (\<lambda>n. replicate n (CHR ''i'')), xe_ready = True \<rparr>"

definition eth_fill :: "decimal \<Rightarrow> order_filled_event" where
  "eth_fill amount = \<lparr> of_timestamp = 2, of_trading_pair = ''ETH-USDT'', of_trade_type = BUY, of_price = 98, of_amount = amount \<rparr>"

definition placed_state :: cross_state where
  "placed_state = cross_run [(eth_env, Cross_Tick 1)] (cross_init_params [eth_pair])"

lemma quanta_positive_eth: "quanta_positive (market_of eth_env mp)"
  by (simp add: quanta_positive_def market_of_def eth_env_def eth_market_def sample_api_def)

lemma new_orders_hedgeable_witness:
  "list_all (hedgeable eth_env eth_pair)
     [MarketOrderRequest True eth_maker 1 LIMIT (Some (9801 / 100)) None OPEN_POSITION,
      MarketOrderRequest False eth_maker 1 LIMIT (Some (10201 / 100)) None OPEN_POSITION]"
proof -
  let ?s = "cross_init_params [eth_pair]"
  let ?run = "check_and_create_new_orders eth_env eth_pair False False ?s"
  have requests: "cs_requests (snd ?run) =
      [MarketOrderRequest True eth_maker 1 LIMIT (Some (9801 / 100)) None OPEN_POSITION,
       MarketOrderRequest False eth_maker 1 LIMIT (Some (10201 / 100)) None OPEN_POSITION]"
    by code_simp
  have "\<exists>rs. cs_requests (snd ?run) = cs_requests ?s @ rs \<and> length rs \<le> 2 \<and> list_all (hedgeable eth_env eth_pair) rs"
    by (rule new_orders_hedgeable[of eth_env eth_pair False False ?s "fst ?run"])
       (simp_all add: quanta_positive_eth, simp add: min_profitability_def eth_env_def)
  then show ?thesis unfolding requests by (auto simp: cross_init_params_def)
qed

text \<open>A bid of 1 is placed and filled by halves; the first half is hedged.\<close>

lemma never_over_hedged_witness:
  "hedged_amount True eth_pair (cross_run [(eth_env, Cross_Tick 1), (eth_env, Cross_Fill '''' (eth_fill (1/2)))]
      (cross_init_params [eth_pair])) \<le> 1/2"
proof -
  let ?evs = "[(eth_env, Cross_Tick 1), (eth_env, Cross_Fill '''' (eth_fill (1/2)))]"
  let ?s = "cross_init_params [eth_pair]"
  have "list_all (cross_step_ok [eth_pair]) ?evs" "pairs_separate [eth_pair]"
    by (simp_all add: cross_step_ok_def quanta_positive_eth pairs_separate_def eth_pair_def eth_maker_def) (simp add: eth_env_def eth_pair_def eth_maker_def)
  moreover have "total_filled True eth_pair ?evs ?s = 1/2" "unhedged_amount True eth_pair (cross_run ?evs ?s) = 0"
    by (code_simp, code_simp)
  ultimately show ?thesis using never_over_hedged[of "[eth_pair]" ?evs eth_pair True] by simp
qed

lemma fill_hedged_at_once_witness:
  "hedged_amount True eth_pair (cross_step eth_env (Cross_Fill '''' (eth_fill (1/2))) placed_state) = 1/2"
proof -
  have tracked: "pair_of_order_id (cs_tracker placed_state) '''' = Some eth_pair" "'''' \<in> set (cs_maker_order_ids placed_state)"
    by (code_simp, code_simp)
  have before: "hedged_amount True eth_pair placed_state = 0" "unhedged_amount True eth_pair placed_state = 0"
    by (code_simp, code_simp)
  have taker: "get_taker_order_type (cm_api (market_of eth_env (xp_taker eth_pair))) = Inr LIMIT"
    "mp_market (xp_taker eth_pair) \<in> set (st_markets (cs_strategy placed_state))" "\<not> st_delegate_lock (cs_strategy placed_state)"
    by (code_simp, code_simp, code_simp)
  have "get_available_balance (cm_connector (market_of eth_env (xp_taker eth_pair))) (mp_base (xp_taker eth_pair)) = Inr 10" by code_simp
  then have covers: "taker_covers eth_env eth_pair True (1/2)" by (simp add: taker_covers_def Let_def) (simp add: eth_env_def)
  have "exchange_price (cm_api (market_of eth_env (xp_taker eth_pair))) (mp_trading_pair (xp_taker eth_pair)) False = Inr (Some 99)"
    "volume_price_on eth_env (xp_taker eth_pair) False (1/2) = Inr (Some 99)" by (code_simp, code_simp)
  moreover have "ea_size_quantum (cm_api (market_of eth_env mp)) tp x = Inr (1 / 100)" "ea_price_quantum (cm_api (market_of eth_env mp)) tp x = Inr (1 / 100)"
    for mp tp x by (simp_all add: eth_env_def market_of_def eth_market_def sample_api_def)
  moreover have "1 / 2 = of_nat 50 * (1 / 100 :: rat)" by simp
  ultimately have takes: "taker_takes eth_env eth_pair True (1/2)" unfolding taker_takes_def Let_def by (metis zero_less_divide_1_iff zero_less_numeral)
  have "of_trade_type (eth_fill (1/2)) = BUY" "of_amount (eth_fill (1/2)) = 1/2" by (simp_all add: eth_fill_def)
  then show ?thesis
    using fill_hedged_at_once[OF tracked, of True "eth_fill (1/2)" "1/2" eth_env LIMIT] before taker quanta_positive_eth covers takes by simp
qed

end
