(* ===== verification/Twap.thy ===== *)
theory Twap
  imports Strategy_Orders Exchange_Base
begin

text \<open>
  The strategy \<^verbatim>\<open>strategy/twap/twap.py\<close>, which buys or sells an amount in orders of equal size at equal intervals, and
  the conditions of \<^verbatim>\<open>strategy/conditional_execution_state.py\<close> under which a strategy is run.

  The moments of a condition are dates, in seconds, or times of the day, in seconds since midnight; the local time of the
  day at a timestamp is an argument.  A market is its quotes, its balances and whether it is ready.  Log lines and the
  status report are left out.
\<close>

section \<open>Conditional execution\<close>

datatype moment =
    Date_Time seconds
  | Time_Of_Day seconds

datatype execution_condition =
    RunAlways
  | RunInTime moment "moment option"

record execution_state =
  ex_condition :: execution_condition
  ex_closing_time :: "seconds option"
  ex_time_left :: "seconds option"

definition new_execution_state :: "execution_condition \<Rightarrow> execution_state" where
  "new_execution_state c = \<lparr> ex_condition = c, ex_closing_time = None, ex_time_left = None \<rparr>"

datatype run_action = Process_Tick | Cancel_Active_Orders | Do_Nothing

text \<open>Within a span: the times are set before the strategy is run.\<close>

definition run_in_span :: "seconds \<Rightarrow> seconds \<Rightarrow> seconds \<Rightarrow> execution_state \<Rightarrow> execution_state \<times> run_action" where
  "run_in_span start end now ex =
     (let ex = ex\<lparr> ex_closing_time := Some ((end - start) * 1000) \<rparr> in
      if start \<le> now \<and> now < end
      then (ex\<lparr> ex_time_left := Some (max ((end - now) * 1000) 0) \<rparr>, Process_Tick)
      else (ex\<lparr> ex_time_left := Some 0 \<rparr>, Cancel_Active_Orders))"

text \<open>A start that is a time of the day without an end never runs the strategy; mixing dates and times raises.\<close>

definition execution_tick ::
  "(seconds \<Rightarrow> seconds) \<Rightarrow> seconds \<Rightarrow> execution_state \<Rightarrow> py_error + (execution_state \<times> run_action)" where
  "execution_tick time_of_day timestamp ex = (case ex_condition ex of
       RunAlways \<Rightarrow> Inr (ex\<lparr> ex_closing_time := None, ex_time_left := None \<rparr>, Process_Tick)
     | RunInTime (Date_Time start) (Some (Date_Time end)) \<Rightarrow> Inr (run_in_span start end timestamp ex)
     | RunInTime (Date_Time start) (Some (Time_Of_Day end)) \<Rightarrow> Inl AttributeError
     | RunInTime (Date_Time start) None \<Rightarrow>
         Inr (ex\<lparr> ex_closing_time := None, ex_time_left := None \<rparr>,
              if start \<le> timestamp then Process_Tick else Cancel_Active_Orders)
     | RunInTime (Time_Of_Day start) (Some (Time_Of_Day end)) \<Rightarrow> Inr (run_in_span start end (time_of_day timestamp) ex)
     | RunInTime (Time_Of_Day start) (Some (Date_Time end)) \<Rightarrow> Inl TypeError
     | RunInTime (Time_Of_Day start) None \<Rightarrow> Inr (ex, Do_Nothing))"

section \<open>The strategy\<close>

record twap_params =
  tp_market_infos :: "market_pair list"
  tp_is_buy :: bool
  tp_target_asset_amount :: decimal
  tp_order_step_size :: decimal
  tp_order_price :: decimal
  tp_order_delay_time :: seconds
  tp_cancel_order_wait_time :: "seconds option"
  tp_condition :: execution_condition
  tp_order_id :: "nat \<Rightarrow> string"

record twap_market =
  tm_api :: exchange_api
  tm_balance :: "string \<Rightarrow> decimal"
  tm_ready :: bool

record twap_env =
  te_market :: "string \<Rightarrow> twap_market"
  te_time_of_day :: "seconds \<Rightarrow> seconds"

record twap =
  tw_params :: twap_params
  tw_strategy :: strategy
  tw_all_markets_ready :: bool
  tw_quantity_remaining :: decimal
  tw_time_to_cancel :: "(string, seconds) pydict"
  tw_first_order :: bool
  tw_previous_timestamp :: seconds
  tw_last_timestamp :: seconds
  tw_execution :: execution_state
  tw_order_count :: nat
  tw_requests :: "market_request list"

text \<open>The markets are the values of a dictionary by market and trading pair.\<close>

definition twap_markets :: "market_pair list \<Rightarrow> market_pair list" where
  "twap_markets mps = map snd (fold (\<lambda>mp. AList.update (mp_market mp, mp_trading_pair mp) mp) mps [])"

definition new_twap :: "twap_params \<Rightarrow> py_error + twap" where
  "new_twap p =
     (if tp_market_infos p = [] then Inl ValueError
      else Inr \<lparr> tw_params = p,
        tw_strategy = \<lparr> st_markets = remdups (map mp_market (tp_market_infos p)), st_delegate_lock = False, st_orders = new_strategy_orders \<rparr>,
        tw_all_markets_ready = False, tw_quantity_remaining = tp_target_asset_amount p, tw_time_to_cancel = [], tw_first_order = True,
        tw_previous_timestamp = 0, tw_last_timestamp = 0, tw_execution = new_execution_state (tp_condition p),
        tw_order_count = 0, tw_requests = [] \<rparr>)"

definition twap_start :: "seconds \<Rightarrow> twap \<Rightarrow> twap" where
  "twap_start timestamp s = s\<lparr> tw_previous_timestamp := timestamp, tw_last_timestamp := timestamp \<rparr>"

abbreviation twap_orders :: "twap \<Rightarrow> strategy_orders" where
  "twap_orders s \<equiv> st_orders (tw_strategy s)"

abbreviation twap_now :: "twap \<Rightarrow> seconds" where
  "twap_now s \<equiv> so_now (twap_orders s)"

subsection \<open>Placing an order\<close>

definition twap_market_of :: "twap_env \<Rightarrow> market_pair \<Rightarrow> twap_market" where
  "twap_market_of te mp = te_market te (mp_market mp)"

text \<open>The price is that of the ask side for both sides; comparing with a price of a book that is too thin raises.\<close>

definition has_enough_balance :: "twap_env \<Rightarrow> bool \<Rightarrow> market_pair \<Rightarrow> decimal \<Rightarrow> py_error + bool" where
  "has_enough_balance te is_buy mp amount =
     (let m = twap_market_of te mp in
      bind_err (ea_order_book (tm_api m) (mp_trading_pair mp)) (\<lambda>ob.
        if is_buy then (case qr_result_price (price_for_volume ob True amount) of
            None \<Rightarrow> Inl InvalidOperation
          | Some price \<Rightarrow> Inr (amount * price \<le> tm_balance m (mp_quote mp)))
        else Inr (amount \<le> tm_balance m (mp_base mp))))"

text \<open>The order is sent before the time to cancel it is computed, and the quantity is reduced last.\<close>

definition send_twap_order :: "market_pair \<Rightarrow> decimal \<Rightarrow> decimal \<Rightarrow> twap \<Rightarrow> (twap, unit) outcome" where
  "send_twap_order mp amount price s =
     (let p = tw_params s; order_id = tp_order_id p (tw_order_count s) in
      case order_with_specific_market (tp_is_buy p) mp amount LIMIT price None OPEN_POSITION order_id (tw_strategy s) of
        Inl e \<Rightarrow> (Inl e, s)
      | Inr (st, r) \<Rightarrow>
          (let s = s\<lparr> tw_strategy := st, tw_order_count := Suc (tw_order_count s), tw_requests := tw_requests s @ [r] \<rparr> in
           case tp_cancel_order_wait_time p of
             None \<Rightarrow> (Inl AttributeError, s)
           | Some wait \<Rightarrow> (Inr (), s\<lparr> tw_time_to_cancel := AList.update order_id (twap_now s + wait) (tw_time_to_cancel s),
               tw_quantity_remaining := tw_quantity_remaining s - amount \<rparr>)))"

definition place_orders_for_market :: "twap_env \<Rightarrow> market_pair \<Rightarrow> twap \<Rightarrow> (twap, unit) outcome" where
  "place_orders_for_market te mp s =
     (let p = tw_params s; api = tm_api (twap_market_of te mp) in
      and_then (quantize_order_amount (ea_size_quantum api) (mp_trading_pair mp) (min (tp_order_step_size p) (tw_quantity_remaining s)), s) (\<lambda>amount s.
      and_then (quantized_price api (mp_trading_pair mp) (Some (tp_order_price p)), s) (\<lambda>price s.
        if amount = 0 then (Inr (), s)
        else and_then (has_enough_balance te (tp_is_buy p) mp amount, s) (\<lambda>enough s.
          if enough then send_twap_order mp amount (case price of None \<Rightarrow> 0 | Some q \<Rightarrow> q) s else (Inr (), s)))))"

subsection \<open>Ticks\<close>

definition order_due :: "twap \<Rightarrow> bool" where
  "order_due s \<longleftrightarrow> 0 < tw_quantity_remaining s \<and>
     (if tw_first_order s then tw_previous_timestamp s < twap_now s
      else tw_previous_timestamp s + tp_order_delay_time (tw_params s) < twap_now s)"

text \<open>The first order is over when placing it has not raised.\<close>

definition place_due_order :: "twap_env \<Rightarrow> market_pair \<Rightarrow> twap \<Rightarrow> (twap, unit) outcome" where
  "place_due_order te mp s =
     (if order_due s
      then and_then (place_orders_for_market te mp (s\<lparr> tw_previous_timestamp := twap_now s \<rparr>)) (\<lambda>_ s.
        (Inr (), s\<lparr> tw_first_order := False \<rparr>))
      else (Inr (), s))"

text \<open>The orders to cancel are a generator: each is looked up when the one before has been cancelled.\<close>

fun cancel_due_orders :: "market_pair \<Rightarrow> tracked_limit list \<Rightarrow> twap \<Rightarrow> (twap, unit) outcome" where
  "cancel_due_orders mp [] s = (Inr (), s)"
| "cancel_due_orders mp (x # xs) s = (case map_of (tw_time_to_cancel s) (lo_id x) of
       None \<Rightarrow> (Inl KeyError, s)
     | Some t \<Rightarrow> cancel_due_orders mp xs
         (if t \<le> twap_now s
          then (let (st, rs) = strategy_cancel mp (lo_id x) (tw_strategy s) in s\<lparr> tw_strategy := st, tw_requests := tw_requests s @ rs \<rparr>)
          else s))"

definition process_twap_market :: "twap_env \<Rightarrow> market_pair \<Rightarrow> twap \<Rightarrow> (twap, unit) outcome" where
  "process_twap_market te mp s =
     and_then (place_due_order te mp s) (\<lambda>_ s.
       cancel_due_orders mp (case map_of (market_pair_to_active_orders (twap_orders s)) mp of None \<Rightarrow> [] | Some xs \<Rightarrow> xs) s)"

fun process_twap_markets :: "twap_env \<Rightarrow> market_pair list \<Rightarrow> twap \<Rightarrow> (twap, unit) outcome" where
  "process_twap_markets te [] s = (Inr (), s)"
| "process_twap_markets te (mp # mps) s = and_then (process_twap_market te mp s) (\<lambda>_. process_twap_markets te mps)"

definition twap_process_tick :: "twap_env \<Rightarrow> twap \<Rightarrow> (twap, unit) outcome" where
  "twap_process_tick te s =
     (let ready = tw_all_markets_ready s \<or> (\<forall>m \<in> set (st_markets (tw_strategy s)). tm_ready (te_market te m));
          s = s\<lparr> tw_all_markets_ready := ready \<rparr> in
      if ready then process_twap_markets te (twap_markets (tp_market_infos (tw_params s))) s else (Inr (), s))"

text \<open>\<^verbatim>\<open>cancel_active_orders\<close> does nothing in this strategy.\<close>

definition twap_tick :: "twap_env \<Rightarrow> seconds \<Rightarrow> twap \<Rightarrow> (twap, unit) outcome" where
  "twap_tick te timestamp s =
     (let s = s\<lparr> tw_strategy := (tw_strategy s)\<lparr> st_orders := orders_tick timestamp (twap_orders s) \<rparr> \<rparr>;
          (r, s) = and_then (execution_tick (te_time_of_day te) timestamp (tw_execution s), s) (\<lambda>(ex, action) s.
            let s = s\<lparr> tw_execution := ex \<rparr> in if action = Process_Tick then twap_process_tick te s else (Inr (), s))
      in (r, s\<lparr> tw_last_timestamp := timestamp \<rparr>))"

subsection \<open>Events\<close>

text \<open>An order that ends without being completed gives its whole quantity back.\<close>

definition update_remaining_after_removing_order :: "string \<Rightarrow> twap \<Rightarrow> twap" where
  "update_remaining_after_removing_order order_id s =
     (case so_market_pair_of (twap_orders s) order_id of
        None \<Rightarrow> s
      | Some mp \<Rightarrow> (case get_limit_order (twap_orders s) mp order_id of
          None \<Rightarrow> s
        | Some x \<Rightarrow> s\<lparr> tw_quantity_remaining := tw_quantity_remaining s + lo_quantity x \<rparr>))"

definition upd_twap_orders :: "(strategy_orders \<Rightarrow> strategy_orders) \<Rightarrow> twap \<Rightarrow> twap" where
  "upd_twap_orders f s = s\<lparr> tw_strategy := (tw_strategy s)\<lparr> st_orders := f (twap_orders s) \<rparr> \<rparr>"

definition twap_did_cancel_order :: "string \<Rightarrow> twap \<Rightarrow> twap" where
  "twap_did_cancel_order order_id s =
     upd_twap_orders (did_cancel_order_tracker order_id) (update_remaining_after_removing_order order_id s)"

definition twap_did_expire_order :: "string \<Rightarrow> twap \<Rightarrow> twap" where
  "twap_did_expire_order order_id s =
     upd_twap_orders (did_expire_order_tracker order_id) (update_remaining_after_removing_order order_id s)"

definition twap_did_fail_order :: "string \<Rightarrow> order_type \<Rightarrow> twap \<Rightarrow> twap" where
  "twap_did_fail_order order_id ot s =
     upd_twap_orders (did_fail_order_tracker order_id ot) (update_remaining_after_removing_order order_id s)"

text \<open>The log line of a completed order reads the tracked limit order; without one it raises before the tracker is told.\<close>

definition twap_did_complete_order :: "string \<Rightarrow> order_type \<Rightarrow> twap \<Rightarrow> twap" where
  "twap_did_complete_order order_id ot s =
     (case so_market_pair_of (twap_orders s) order_id of
        None \<Rightarrow> s
      | Some mp \<Rightarrow> (case get_limit_order (twap_orders s) mp order_id of
          None \<Rightarrow> s
        | Some x \<Rightarrow> upd_twap_orders (did_complete_order_tracker order_id ot) s))"

section \<open>The quantity of the open orders\<close>

definition sum_values :: "('v \<Rightarrow> decimal) \<Rightarrow> ('k, 'v) pydict \<Rightarrow> decimal" where
  "sum_values f d = (\<Sum>(k, v) \<leftarrow> d. f v)"

definition open_quantity :: "strategy_orders \<Rightarrow> decimal" where
  "open_quantity so = sum_values (sum_values lo_quantity) (so_limit_orders so)"

lemma sum_values_Nil [simp]: "sum_values f [] = 0"
  by (simp add: sum_values_def)

lemma sum_values_update: "sum_values f (AList.update k v d) = sum_values f d - (case map_of d k of None \<Rightarrow> 0 | Some w \<Rightarrow> f w) + f v"
  by (induction d) (auto simp: sum_values_def)

lemma sum_values_delete:
  "dict_ok d \<Longrightarrow> sum_values f (AList.delete k d) = sum_values f d - (case map_of d k of None \<Rightarrow> 0 | Some w \<Rightarrow> f w)"
proof (induction d)
  case (Cons e d)
  obtain i v where e: "e = (i, v)" by (cases e)
  have "AList.delete i d = d" if "i \<notin> fst ` set d" using that by (simp add: delete_id)
  then show ?case using Cons e by (auto simp: sum_values_def dict_ok_def)
qed (simp add: sum_values_def)

text \<open>Keys are distinct in the dictionary of the markets and in those of their orders.\<close>

definition nested_ok :: "('k, ('i, 'v) pydict) pydict \<Rightarrow> bool" where
  "nested_ok d \<longleftrightarrow> dict_ok d \<and> (\<forall>k. dict_ok (inner k d))"

lemma nested_ok_put: "nested_ok d \<Longrightarrow> nested_ok (put_inner k i v d)"
  by (auto simp: nested_ok_def) (simp add: put_inner_def)

lemma nested_ok_drop: "nested_ok d \<Longrightarrow> nested_ok (drop_inner k i d)"
  by (auto simp: nested_ok_def) (simp add: drop_inner_def Let_def)

lemma case_inner: "g [] = (0 :: decimal) \<Longrightarrow> (case map_of d k of None \<Rightarrow> 0 | Some e \<Rightarrow> g e) = g (inner k d)"
  by (cases "map_of d k") (simp_all add: inner_def)

lemma sum_put_inner:
  "\<not> is_tracked d k i \<Longrightarrow> sum_values (sum_values f) (put_inner k i v d) = sum_values (sum_values f) d + f v"
  by (simp add: put_inner_def sum_values_update is_tracked_def map_of_eq_None_iff[symmetric] case_inner[where g = "sum_values f"])

lemma sum_drop_inner:
  assumes "nested_ok d" "map_of (inner k d) i = Some x"
  shows "sum_values (sum_values f) (drop_inner k i d) = sum_values (sum_values f) d - f x"
proof -
  have e: "sum_values f (AList.delete i (inner k d)) = sum_values f (inner k d) - f x"
    using assms by (simp add: sum_values_delete nested_ok_def)
  show ?thesis
  proof (cases "AList.delete i (inner k d) = []")
    case True
    then have "sum_values f (inner k d) = f x" using e by simp
    then show ?thesis using True assms(1)
      by (simp add: drop_inner_def sum_values_delete nested_ok_def case_inner[where g = "sum_values f"])
  next
    case False
    then show ?thesis using e by (simp add: drop_inner_def sum_values_update case_inner[where g = "sum_values f"])
  qed
qed

section \<open>The quantity still to order\<close>

declare limit_orders_kept [simp]

lemma order_sent:
  assumes "order_with_specific_market is_buy mp amount LIMIT price expiration action i st = Inr (st', r)"
  shows "\<exists>x. lo_quantity x = amount \<and> so_limit_orders (st_orders st') = put_inner mp i x (so_limit_orders (st_orders st))"
  using assms
  by (auto simp: order_with_specific_market_def is_limit_type_def track_limit_order_def Let_def simp del: if_image_distrib split: if_splits)
    (rule exI, rule conjI[rotated], rule refl, simp)+

text \<open>
  What a run keeps: the tracked orders have identifiers already used and no negative quantity, and what is left to order
  and what is open have a given sum.
\<close>

definition twap_ok :: "twap_params \<Rightarrow> decimal \<Rightarrow> twap \<Rightarrow> bool" where
  "twap_ok p whole s \<longleftrightarrow> tw_params s = p \<and> nested_ok (so_limit_orders (twap_orders s)) \<and>
     (\<forall>mp i x. map_of (inner mp (so_limit_orders (twap_orders s))) i = Some x \<longrightarrow>
        i \<in> tp_order_id p ` {..<tw_order_count s} \<and> 0 \<le> lo_quantity x) \<and>
     0 \<le> tw_quantity_remaining s \<and> tw_quantity_remaining s + open_quantity (twap_orders s) = whole"

lemma twap_ok_fields:
  assumes "twap_ok p whole s" "tw_params s' = tw_params s" "so_limit_orders (twap_orders s') = so_limit_orders (twap_orders s)"
    "tw_order_count s' = tw_order_count s" "tw_quantity_remaining s' = tw_quantity_remaining s"
  shows "twap_ok p whole s'"
  using assms by (simp add: twap_ok_def open_quantity_def)

definition sizes_positive :: "twap_env \<Rightarrow> bool" where
  "sizes_positive te \<longleftrightarrow> (\<forall>m tp x q. ea_size_quantum (tm_api (te_market te m)) tp x = Inr q \<longrightarrow> 0 < q)"

definition params_ok :: "twap_params \<Rightarrow> bool" where
  "params_ok p \<longleftrightarrow> inj (tp_order_id p) \<and> 0 \<le> tp_order_step_size p \<and> 0 \<le> tp_order_delay_time p \<and> tp_cancel_order_wait_time p \<noteq> None"

lemma send_twap_order_ok:
  assumes "twap_ok p whole s" "params_ok p" "0 \<le> amount" "amount \<le> tw_quantity_remaining s"
  shows "leaves (twap_ok p whole) (send_twap_order mp amount price s)"
proof (cases "order_with_specific_market (tp_is_buy p) mp amount LIMIT price None OPEN_POSITION (tp_order_id p (tw_order_count s)) (tw_strategy s)")
  case (Inl e)
  then show ?thesis using assms(1) by (simp add: send_twap_order_def Let_def twap_ok_def)
next
  case (Inr sent)
  obtain st r where sent: "sent = (st, r)" by (cases sent)
  let ?i = "tp_order_id p (tw_order_count s)"
  obtain x where orders: "lo_quantity x = amount" "so_limit_orders (st_orders st) = put_inner mp ?i x (so_limit_orders (twap_orders s))"
    using order_sent[OF Inr[unfolded sent]] by blast
  obtain wait where wait: "tp_cancel_order_wait_time p = Some wait" using assms(2) by (auto simp: params_ok_def)
  have params: "tw_params s = p" using assms(1) by (simp add: twap_ok_def)
  have new: "?i \<notin> tp_order_id p ` {..<tw_order_count s}" using assms(2) by (auto simp: params_ok_def inj_def)
  have fresh: "\<not> is_tracked (so_limit_orders (twap_orders s)) mp ?i"
  proof
    assume "is_tracked (so_limit_orders (twap_orders s)) mp ?i"
    then obtain x where "map_of (inner mp (so_limit_orders (twap_orders s))) ?i = Some x"
      by (auto simp: is_tracked_def dest!: weak_map_of_SomeI)
    then show False using assms(1) new by (auto simp: twap_ok_def)
  qed
  let ?s = "s\<lparr> tw_strategy := st, tw_order_count := Suc (tw_order_count s), tw_requests := tw_requests s @ [r],
    tw_time_to_cancel := AList.update ?i (so_now (st_orders st) + wait) (tw_time_to_cancel s), tw_quantity_remaining := tw_quantity_remaining s - amount \<rparr>"
  have tracked: "map_of (inner mp' (put_inner mp ?i x (so_limit_orders (twap_orders s)))) i = Some y \<Longrightarrow>
      i \<in> tp_order_id p ` {..<Suc (tw_order_count s)} \<and> 0 \<le> lo_quantity y" for mp' i y
    using assms(1,3) orders(1) by (auto simp: twap_ok_def update_conv' lessThan_Suc split: if_splits)
  have "nested_ok (so_limit_orders (st_orders st))" "open_quantity (st_orders st) = open_quantity (twap_orders s) + amount"
    using assms(1) orders sum_put_inner[OF fresh] by (simp_all add: twap_ok_def nested_ok_put open_quantity_def)
  then have "twap_ok p whole ?s"
    using assms(1,4) tracked unfolding orders(2)[symmetric] twap_ok_def by auto
  then show ?thesis by (simp add: send_twap_order_def Let_def Inr sent wait params)
qed

lemma place_orders_ok:
  assumes "twap_ok p whole s" "params_ok p" "sizes_positive te"
  shows "leaves (twap_ok p whole) (place_orders_for_market te mp s)"
proof -
  have params: "tw_params s = p" and remaining: "0 \<le> tw_quantity_remaining s" using assms(1) by (simp_all add: twap_ok_def)
  have "leaves (twap_ok p whole) (send_twap_order mp amount price s)"
    if "quantize_order_amount (ea_size_quantum (tm_api (twap_market_of te mp))) (mp_trading_pair mp)
      (min (tp_order_step_size p) (tw_quantity_remaining s)) = Inr amount" for amount price
  proof (rule send_twap_order_ok[OF assms(1,2)])
    have "0 \<le> min (tp_order_step_size p) (tw_quantity_remaining s)" using assms(2) remaining by (simp add: params_ok_def)
    moreover have "ea_size_quantum (tm_api (twap_market_of te mp)) (mp_trading_pair mp) y = Inr q \<Longrightarrow> 0 < q" for y q
      using assms(3) by (simp add: sizes_positive_def twap_market_of_def)
    ultimately show "0 \<le> amount" "amount \<le> tw_quantity_remaining s" using quantized_between[OF that] by fastforce+
  qed
  then show ?thesis
    using assms(1) params unfolding place_orders_for_market_def Let_def
    by (auto intro!: leaves_and_then leaves_read)
qed

lemma place_due_order_ok:
  assumes "twap_ok p whole s" "params_ok p" "sizes_positive te"
  shows "leaves (twap_ok p whole) (place_due_order te mp s)"
proof -
  have "twap_ok p whole (s\<lparr> tw_previous_timestamp := twap_now s \<rparr>)" by (rule twap_ok_fields[OF assms(1)]) simp_all
  moreover have "twap_ok p whole (t\<lparr> tw_first_order := False \<rparr>)" if "twap_ok p whole t" for t
    by (rule twap_ok_fields[OF that]) simp_all
  ultimately show ?thesis
    using assms unfolding place_due_order_def by (auto intro!: leaves_and_then leaves_read place_orders_ok)
qed

lemma cancel_due_orders_ok: "twap_ok p whole s \<Longrightarrow> leaves (twap_ok p whole) (cancel_due_orders mp xs s)"
proof (induction mp xs s rule: cancel_due_orders.induct)
  case (2 mp x xs s)
  have "twap_ok p whole (s\<lparr> tw_strategy := st, tw_requests := rs \<rparr>)"
    if "strategy_cancel mp i (tw_strategy s) = (st, rs')" for i st rs rs'
    by (rule twap_ok_fields[OF 2(2)]) (use cancel_limit_orders[OF that] in simp_all)
  then show ?case using 2 by (auto split: option.splits prod.splits)
qed simp

lemma process_twap_markets_ok:
  assumes "params_ok p" "sizes_positive te"
  shows "twap_ok p whole s \<Longrightarrow> leaves (twap_ok p whole) (process_twap_markets te mps s)"
proof (induction mps arbitrary: s)
  case (Cons mp mps)
  then show ?case using assms
    by (auto simp: process_twap_market_def intro!: leaves_and_then place_due_order_ok cancel_due_orders_ok)
qed simp

lemma twap_tick_ok:
  assumes "twap_ok p whole s" "params_ok p" "sizes_positive te"
  shows "twap_ok p whole (snd (twap_tick te t s))"
proof -
  let ?s = "s\<lparr> tw_strategy := (tw_strategy s)\<lparr> st_orders := orders_tick t (twap_orders s) \<rparr> \<rparr>"
  let ?run = "and_then (execution_tick (te_time_of_day te) t (tw_execution s), ?s) (\<lambda>(ex, action) s.
    let s = s\<lparr> tw_execution := ex \<rparr> in if action = Process_Tick then twap_process_tick te s else (Inr (), s))"
  have other: "twap_ok p whole (u\<lparr> tw_execution := ex \<rparr>)" "twap_ok p whole (u\<lparr> tw_all_markets_ready := r \<rparr>)"
    "twap_ok p whole (u\<lparr> tw_last_timestamp := t \<rparr>)" if "twap_ok p whole u" for u ex r
    by (rule twap_ok_fields[OF that]; simp)+
  have "twap_ok p whole ?s" by (rule twap_ok_fields[OF assms(1)]) simp_all
  then have "leaves (twap_ok p whole) ?run"
    using assms(2,3) other unfolding twap_process_tick_def Let_def
    by (auto intro!: leaves_and_then process_twap_markets_ok leaves_read split: prod.splits)
  moreover obtain r u where run: "?run = (r, u)" by (cases ?run)
  ultimately have "twap_ok p whole u" by simp
  moreover have "twap_tick te t s = (r, u\<lparr> tw_last_timestamp := t \<rparr>)" using run by (simp add: twap_tick_def)
  ultimately show ?thesis using other(3) by simp
qed


subsection \<open>Runs\<close>

datatype twap_event =
    Twap_Tick seconds
  | Twap_Filled string decimal
  | Twap_Cancelled string
  | Twap_Expired string
  | Twap_Failed string order_type
  | Twap_Completed string order_type

text \<open>A fill is only logged.\<close>

definition twap_step :: "twap_env \<Rightarrow> twap_event \<Rightarrow> twap \<Rightarrow> twap" where
  "twap_step te ev s = (case ev of
       Twap_Tick t \<Rightarrow> snd (twap_tick te t s)
     | Twap_Filled i amount \<Rightarrow> s
     | Twap_Cancelled i \<Rightarrow> twap_did_cancel_order i s
     | Twap_Expired i \<Rightarrow> twap_did_expire_order i s
     | Twap_Failed i ot \<Rightarrow> twap_did_fail_order i ot s
     | Twap_Completed i ot \<Rightarrow> twap_did_complete_order i ot s)"

fun twap_run :: "(twap_env \<times> twap_event) list \<Rightarrow> twap \<Rightarrow> twap" where
  "twap_run [] s = s"
| "twap_run ((te, ev) # evs) s = twap_run evs (twap_step te ev s)"

text \<open>The quantity of the tracked order that an event completed_by.\<close>

definition tracked_quantity :: "string \<Rightarrow> strategy_orders \<Rightarrow> decimal" where
  "tracked_quantity i so = (case so_market_pair_of so i of
       None \<Rightarrow> 0
     | Some mp \<Rightarrow> (case get_limit_order so mp i of None \<Rightarrow> 0 | Some x \<Rightarrow> lo_quantity x))"

definition completed_by :: "twap_event \<Rightarrow> twap \<Rightarrow> decimal" where
  "completed_by ev s = (case ev of Twap_Completed i ot \<Rightarrow> tracked_quantity i (twap_orders s) | _ \<Rightarrow> 0)"

fun completed_quantity :: "(twap_env \<times> twap_event) list \<Rightarrow> twap \<Rightarrow> decimal" where
  "completed_quantity [] s = 0"
| "completed_quantity ((te, ev) # evs) s = completed_by ev s + completed_quantity evs (twap_step te ev s)"

text \<open>The sizes of a market are positive, and the orders of this strategy are limit orders.\<close>

definition twap_event_ok :: "twap_env \<times> twap_event \<Rightarrow> bool" where
  "twap_event_ok step = (case step of (te, ev) \<Rightarrow> sizes_positive te \<and>
     (case ev of Twap_Failed i ot \<Rightarrow> is_limit_type ot | Twap_Completed i ot \<Rightarrow> is_limit_type ot | _ \<Rightarrow> True))"

lemma is_tracked_iff: "is_tracked d k i \<longleftrightarrow> map_of (inner k d) i \<noteq> None"
  by (simp add: is_tracked_def map_of_eq_None_iff)

lemma untrack_limit_quantity:
  assumes "nested_ok (so_limit_orders so)"
  shows "open_quantity (untrack_limit_order (so_market_pair_of so i) i so) = open_quantity so - tracked_quantity i so"
    "nested_ok (so_limit_orders (untrack_limit_order (so_market_pair_of so i) i so))"
    "map_of (inner mp (so_limit_orders (untrack_limit_order (so_market_pair_of so i) i so))) j = Some x \<Longrightarrow>
      map_of (inner mp (so_limit_orders so)) j = Some x"
  using assms sum_drop_inner[OF assms]
  by (auto simp: untrack_limit_order_def open_quantity_def tracked_quantity_def get_limit_order_def is_tracked_iff nested_ok_drop
      delete_conv' Let_def split: option.splits if_splits)

lemma removed_order_ok:
  assumes "twap_ok p whole s"
  shows "twap_ok p whole (upd_twap_orders (\<lambda>so. untrack_limit_order (so_market_pair_of so i) i so) (update_remaining_after_removing_order i s))"
proof -
  have "0 \<le> tracked_quantity i (twap_orders s)"
    using assms by (auto simp: twap_ok_def tracked_quantity_def get_limit_order_def split: option.splits)
  moreover have "update_remaining_after_removing_order i s =
      s\<lparr> tw_quantity_remaining := tw_quantity_remaining s + tracked_quantity i (twap_orders s) \<rparr>"
    by (simp add: update_remaining_after_removing_order_def tracked_quantity_def split: option.splits)
  moreover have "nested_ok (so_limit_orders (twap_orders s))" using assms by (simp add: twap_ok_def)
  note untrack_limit_quantity[OF this, where i = i]
  ultimately show ?thesis using assms by (auto simp: twap_ok_def upd_twap_orders_def; blast)
qed


lemma completed_order_ok:
  assumes "twap_ok p whole s" "is_limit_type ot"
  shows "twap_ok p (whole - tracked_quantity i (twap_orders s)) (twap_did_complete_order i ot s)"
proof (cases "\<exists>mp x. so_market_pair_of (twap_orders s) i = Some mp \<and> get_limit_order (twap_orders s) mp i = Some x")
  case True
  then have run: "twap_did_complete_order i ot s = upd_twap_orders (\<lambda>so. untrack_limit_order (so_market_pair_of so i) i so) s"
    using assms(2) by (auto simp: twap_did_complete_order_def upd_twap_orders_def did_complete_order_tracker_def)
  have "nested_ok (so_limit_orders (twap_orders s))" using assms(1) by (simp add: twap_ok_def)
  note untrack_limit_quantity[OF this, where i = i]
  then show ?thesis using assms(1) unfolding run by (auto simp: twap_ok_def upd_twap_orders_def; blast)
next
  case False
  then show ?thesis using assms(1) by (auto simp: twap_did_complete_order_def tracked_quantity_def split: option.splits)
qed

lemma twap_step_ok:
  assumes "twap_ok p whole s" "params_ok p" "twap_event_ok (te, ev)"
  shows "twap_ok p (whole - completed_by ev s) (twap_step te ev s)"
  using assms removed_order_ok[OF assms(1)] completed_order_ok[OF assms(1)] twap_tick_ok[OF assms(1,2)]
  by (cases ev)
     (simp_all add: twap_step_def completed_by_def twap_event_ok_def twap_did_cancel_order_def twap_did_expire_order_def did_expire_order_tracker_def
       twap_did_fail_order_def did_cancel_order_tracker_def[abs_def] did_fail_order_tracker_def[abs_def] Let_def)

lemma twap_run_ok:
  "twap_ok p whole s \<Longrightarrow> params_ok p \<Longrightarrow> list_all twap_event_ok evs \<Longrightarrow>
   twap_ok p (whole - completed_quantity evs s) (twap_run evs s)"
proof (induction evs arbitrary: whole s)
  case (Cons step evs)
  obtain te ev where step: "step = (te, ev)" by (cases step)
  show ?case using Cons.IH[OF twap_step_ok[OF Cons.prems(1,2)]] Cons.prems step by (simp add: algebra_simps)
qed simp

lemma new_twap_ok:
  assumes "new_twap p = Inr s" "0 \<le> tp_target_asset_amount p"
  shows "twap_ok p (tp_target_asset_amount p) (twap_start t s)"
  using assms by (auto simp: new_twap_def twap_start_def twap_ok_def new_strategy_orders_def open_quantity_def nested_ok_def inner_def split: if_splits)

text \<open>
  C18: the time-weighted average price strategy orders its target and no more: in every run the quantity left to order is
  not negative, and with the quantities of the open orders and of the completed orders it is the target.
\<close>

theorem twap_orders_target:
  assumes "new_twap p = Inr s" "params_ok p" "0 \<le> tp_target_asset_amount p" "list_all twap_event_ok evs"
  shows "0 \<le> tw_quantity_remaining (twap_run evs (twap_start t s)) \<and>
    tw_quantity_remaining (twap_run evs (twap_start t s)) + open_quantity (twap_orders (twap_run evs (twap_start t s))) +
      completed_quantity evs (twap_start t s) = tp_target_asset_amount p"
  using twap_run_ok[OF new_twap_ok[OF assms(1,3)] assms(2,4)] by (simp add: twap_ok_def)


section \<open>The times of the orders\<close>

definition is_order :: "market_request \<Rightarrow> bool" where
  "is_order r = (case r of MarketCancelRequest mp i \<Rightarrow> False | _ \<Rightarrow> True)"

definition orders_sent :: "twap \<Rightarrow> nat" where
  "orders_sent s = length (filter is_order (tw_requests s))"

text \<open>What a tick may do once the time is set: send at most one order, and one after the first only when the delay is over.\<close>

definition ticked :: "twap \<Rightarrow> twap \<Rightarrow> bool" where
  "ticked s s' \<longleftrightarrow> tw_params s' = tw_params s \<and> tw_execution s' = tw_execution s \<and> twap_now s' = twap_now s \<and>
     tw_previous_timestamp s \<le> tw_previous_timestamp s' \<and> (tw_first_order s' \<longrightarrow> tw_first_order s) \<and>
     (orders_sent s' = orders_sent s \<or> orders_sent s' = Suc (orders_sent s) \<and>
        (\<not> tw_first_order s \<longrightarrow> tw_previous_timestamp s + tp_order_delay_time (tw_params s) < twap_now s) \<and>
        twap_now s \<le> tw_previous_timestamp s' \<and> \<not> tw_first_order s')"

lemma ticked_refl: "ticked s s"
  by (simp add: ticked_def)

lemma ticked_params: "ticked s s' \<Longrightarrow> tw_params s' = tw_params s"
  by (simp add: ticked_def)

lemma ticked_trans: "ticked s s' \<Longrightarrow> ticked s' s'' \<Longrightarrow> 0 \<le> tp_order_delay_time (tw_params s) \<Longrightarrow> ticked s s''"
  by (auto simp: ticked_def)

lemma place_orders_cases:
  assumes "place_orders_for_market te mp s = (r, s')" "tp_cancel_order_wait_time (tw_params s) \<noteq> None"
  obtains "s' = s" | "r = Inr ()" "orders_sent s' = Suc (orders_sent s)" "tw_params s' = tw_params s" "tw_execution s' = tw_execution s"
    "twap_now s' = twap_now s" "tw_previous_timestamp s' = tw_previous_timestamp s"
proof -
  have "s' = s \<or> r = Inr () \<and> orders_sent s' = Suc (orders_sent s) \<and> tw_params s' = tw_params s \<and> tw_execution s' = tw_execution s \<and>
      twap_now s' = twap_now s \<and> tw_previous_timestamp s' = tw_previous_timestamp s"
    if "send_twap_order mp amount price s = (r, s')" for amount price
    using that assms(2)
    by (auto simp: send_twap_order_def Let_def order_with_specific_market_def is_limit_type_def track_limit_order_def orders_sent_def is_order_def
        split: if_splits)
  then have "s' = s \<or> r = Inr () \<and> orders_sent s' = Suc (orders_sent s) \<and> tw_params s' = tw_params s \<and> tw_execution s' = tw_execution s \<and>
      twap_now s' = twap_now s \<and> tw_previous_timestamp s' = tw_previous_timestamp s"
    using assms(1) by (auto simp: place_orders_for_market_def Let_def and_then_def split: sum.splits if_splits)
  then show thesis using that by blast
qed

lemma ticked_place_due_order:
  assumes "tp_cancel_order_wait_time (tw_params s) \<noteq> None" "0 \<le> tp_order_delay_time (tw_params s)"
  shows "leaves (ticked s) (place_due_order te mp s)"
proof (cases "order_due s")
  case True
  let ?s = "s\<lparr> tw_previous_timestamp := twap_now s \<rparr>"
  obtain r s' where place: "place_orders_for_market te mp ?s = (r, s')" by (cases "place_orders_for_market te mp ?s")
  have wait: "tp_cancel_order_wait_time (tw_params ?s) \<noteq> None" using assms(1) by simp
  show ?thesis
    using True assms place
    by (cases rule: place_orders_cases[OF place wait])
       (auto simp: place_due_order_def and_then_def ticked_def order_due_def orders_sent_def leaves_def split: sum.splits if_splits)
qed (simp add: place_due_order_def ticked_refl)


lemma ticked_cancel_due_orders: "leaves (ticked s) (cancel_due_orders mp xs s)"
proof -
  have "leaves (\<lambda>s'. tw_params s' = tw_params s \<and> tw_execution s' = tw_execution s \<and> twap_now s' = twap_now s \<and>
      tw_previous_timestamp s' = tw_previous_timestamp s \<and> tw_first_order s' = tw_first_order s \<and> orders_sent s' = orders_sent s)
    (cancel_due_orders mp xs s)"
    by (induction mp xs s rule: cancel_due_orders.induct)
       (auto simp: strategy_cancel_def check_and_track_cancel_def Let_def orders_sent_def is_order_def leaves_def split: option.splits prod.splits if_splits)
  then show ?thesis by (simp add: leaves_def ticked_def split: prod.splits)
qed

lemma leaves_ticked_and_then:
  assumes "leaves (ticked s) r" "\<And>a u. ticked s u \<Longrightarrow> leaves (ticked u) (f a u)" "0 \<le> tp_order_delay_time (tw_params s)"
  shows "leaves (ticked s) (and_then r f)"
proof (rule leaves_and_then[OF assms(1)])
  fix a u assume u: "ticked s u"
  show "leaves (ticked s) (f a u)" using assms(2)[OF u, of a] ticked_trans[OF u _ assms(3)] by (auto simp: leaves_def split: prod.splits)
qed

lemma ticked_process_twap_markets:
  assumes "tp_cancel_order_wait_time (tw_params s) \<noteq> None" "0 \<le> tp_order_delay_time (tw_params s)"
  shows "leaves (ticked s) (process_twap_markets te mps s)"
  using assms
proof (induction mps arbitrary: s)
  case (Cons mp mps)
  have "leaves (ticked s) (process_twap_market te mp s)"
    unfolding process_twap_market_def
    by (rule leaves_ticked_and_then) (use Cons.prems in \<open>auto intro: ticked_place_due_order ticked_cancel_due_orders\<close>)
  then show ?case
    using Cons.prems by (auto intro!: leaves_ticked_and_then Cons.IH simp: ticked_params)
qed (simp add: ticked_refl)

text \<open>The moments at which a condition lets the strategy run.\<close>

definition runs_at :: "(seconds \<Rightarrow> seconds) \<Rightarrow> execution_condition \<Rightarrow> seconds \<Rightarrow> bool" where
  "runs_at time_of_day c t = (case c of
       RunAlways \<Rightarrow> True
     | RunInTime (Date_Time start) None \<Rightarrow> start \<le> t
     | RunInTime (Date_Time start) (Some (Date_Time end)) \<Rightarrow> start \<le> t \<and> t < end
     | RunInTime (Time_Of_Day start) (Some (Time_Of_Day end)) \<Rightarrow> start \<le> time_of_day t \<and> time_of_day t < end
     | _ \<Rightarrow> False)"

lemma execution_tick_runs:
  assumes "execution_tick time_of_day t ex = Inr (ex', action)"
  shows "ex_condition ex' = ex_condition ex" "action = Process_Tick \<longleftrightarrow> runs_at time_of_day (ex_condition ex) t"
  using assms
  by (auto simp: execution_tick_def runs_at_def run_in_span_def Let_def split: execution_condition.splits moment.splits option.splits if_splits)

text \<open>The ticks at which orders are sent.\<close>

definition sends_at :: "twap_env \<Rightarrow> twap_event \<Rightarrow> twap \<Rightarrow> (twap_env \<times> seconds) list" where
  "sends_at te ev s = (case ev of
       Twap_Tick t \<Rightarrow> replicate (orders_sent (twap_step te ev s) - orders_sent s) (te, t)
     | _ \<Rightarrow> [])"

fun order_ticks :: "(twap_env \<times> twap_event) list \<Rightarrow> twap \<Rightarrow> (twap_env \<times> seconds) list" where
  "order_ticks [] s = []"
| "order_ticks ((te, ev) # evs) s = sends_at te ev s @ order_ticks evs (twap_step te ev s)"


text \<open>What a tick does to the times and the number of orders.\<close>

definition tick_sends :: "twap_env \<Rightarrow> seconds \<Rightarrow> twap \<Rightarrow> twap \<Rightarrow> bool" where
  "tick_sends te t s s' \<longleftrightarrow> tw_params s' = tw_params s \<and> ex_condition (tw_execution s') = ex_condition (tw_execution s) \<and>
     tw_previous_timestamp s \<le> tw_previous_timestamp s' \<and> (tw_first_order s' \<longrightarrow> tw_first_order s) \<and>
     (orders_sent s' = orders_sent s \<or> orders_sent s' = Suc (orders_sent s) \<and>
        (\<not> tw_first_order s \<longrightarrow> tw_previous_timestamp s + tp_order_delay_time (tw_params s) < t) \<and>
        t \<le> tw_previous_timestamp s' \<and> \<not> tw_first_order s' \<and> runs_at (te_time_of_day te) (ex_condition (tw_execution s)) t)"

lemma process_tick_ticked:
  assumes "params_ok (tw_params s)"
  shows "\<exists>ready. ticked (s\<lparr> tw_all_markets_ready := ready \<rparr>) (snd (twap_process_tick te s))"
proof -
  have "leaves (ticked (s\<lparr> tw_all_markets_ready := ready \<rparr>)) (process_twap_markets te mps (s\<lparr> tw_all_markets_ready := ready \<rparr>))" for ready mps
    by (rule ticked_process_twap_markets) (use assms in \<open>simp_all add: params_ok_def\<close>)
  then have processed: "ticked (s\<lparr> tw_all_markets_ready := ready \<rparr>) (snd (process_twap_markets te mps (s\<lparr> tw_all_markets_ready := ready \<rparr>)))"
    for ready mps
    by (simp add: leaves_def split: prod.splits)
  show ?thesis
    by (cases "tw_all_markets_ready s \<or> (\<forall>m \<in> set (st_markets (tw_strategy s)). tm_ready (te_market te m))")
       (use processed ticked_refl in \<open>fastforce simp: twap_process_tick_def Let_def\<close>)+
qed

lemma twap_tick_sends:
  assumes "params_ok (tw_params s)"
  shows "tick_sends te t s (snd (twap_tick te t s))"
proof -
  let ?s = "s\<lparr> tw_strategy := (tw_strategy s)\<lparr> st_orders := orders_tick t (twap_orders s) \<rparr> \<rparr>"
  have now: "so_now (orders_tick t so) = t" for so by (simp add: orders_tick_def cleanup_shadow_records_def)
  show ?thesis
  proof (cases "execution_tick (te_time_of_day te) t (tw_execution s)")
    case (Inl e)
    then show ?thesis by (simp add: twap_tick_def tick_sends_def orders_sent_def)
  next
    case (Inr result)
    obtain ex action where result: "result = (ex, action)" by (cases result)
    note runs = execution_tick_runs[OF Inr[unfolded result]]
    let ?ex = "?s\<lparr> tw_execution := ex \<rparr>"
    show ?thesis
    proof (cases "action = Process_Tick")
      case True
      have "params_ok (tw_params ?ex)" using assms by simp
      from process_tick_ticked[OF this] obtain ready where "ticked (?ex\<lparr> tw_all_markets_ready := ready \<rparr>) (snd (twap_process_tick te ?ex))" by blast
      moreover have "snd (twap_tick te t s) = (snd (twap_process_tick te ?ex))\<lparr> tw_last_timestamp := t \<rparr>"
        using Inr True by (simp add: twap_tick_def result split: prod.splits)
      ultimately show ?thesis using runs True by (simp add: ticked_def tick_sends_def orders_sent_def now)
    next
      case False
      then show ?thesis using Inr runs by (simp add: twap_tick_def result tick_sends_def orders_sent_def)
    qed
  qed
qed


lemma other_events_send_nothing:
  assumes "\<And>t. ev \<noteq> Twap_Tick t"
  shows "tw_params (twap_step te ev s) = tw_params s" "tw_execution (twap_step te ev s) = tw_execution s"
    "tw_previous_timestamp (twap_step te ev s) = tw_previous_timestamp s" "tw_first_order (twap_step te ev s) = tw_first_order s"
  using assms
  by (cases ev; simp add: twap_step_def twap_did_cancel_order_def twap_did_expire_order_def twap_did_fail_order_def twap_did_complete_order_def
      upd_twap_orders_def update_remaining_after_removing_order_def split: option.splits)+

lemma order_ticks_spaced:
  assumes "tw_params s = p" "params_ok p" "ex_condition (tw_execution s) = tp_condition p"
    "\<not> tw_first_order s \<longrightarrow> last_order \<le> tw_previous_timestamp s"
  shows "sorted_wrt (\<lambda>(te, a) (te', b). a + tp_order_delay_time p < b) (order_ticks evs s) \<and>
    list_all (\<lambda>(te, t). runs_at (te_time_of_day te) (tp_condition p) t) (order_ticks evs s) \<and>
    (\<not> tw_first_order s \<longrightarrow> list_all (\<lambda>(te, t). last_order + tp_order_delay_time p < t) (order_ticks evs s))"
  using assms
proof (induction evs arbitrary: s last_order)
  case (Cons step evs)
  obtain te ev where step: "step = (te, ev)" by (cases step)
  let ?s = "twap_step te ev s"
  show ?case
  proof (cases "\<exists>t. ev = Twap_Tick t")
    case True
    then obtain t where ev: "ev = Twap_Tick t" by blast
    have sends: "tick_sends te t s ?s" using twap_tick_sends[of s te t] Cons.prems(1,2) by (simp add: twap_step_def ev)
    have p: "tw_params ?s = p" "ex_condition (tw_execution ?s) = tp_condition p" using sends Cons.prems by (simp_all add: tick_sends_def)
    show ?thesis
    proof (cases "orders_sent ?s = orders_sent s")
      case True
      have "\<not> tw_first_order s \<Longrightarrow> \<not> tw_first_order ?s \<and> last_order \<le> tw_previous_timestamp ?s"
        using sends Cons.prems(4) by (auto simp: tick_sends_def)
      then show ?thesis
        using Cons.IH[OF p(1) Cons.prems(2) p(2), of last_order] Cons.IH[OF p(1) Cons.prems(2) p(2), of "tw_previous_timestamp ?s"] True
        by (auto simp: step ev sends_at_def)
    next
      case False
      then have sent: "orders_sent ?s = Suc (orders_sent s)" "t \<le> tw_previous_timestamp ?s" "\<not> tw_first_order ?s"
          "runs_at (te_time_of_day te) (tp_condition p) t"
          "\<not> tw_first_order s \<longrightarrow> last_order + tp_order_delay_time p < t"
        using sends Cons.prems by (auto simp: tick_sends_def)
      note rest = Cons.IH[OF p(1) Cons.prems(2) p(2), of t]
      have "list_all (\<lambda>(te, u). last_order + tp_order_delay_time p < u) (order_ticks evs ?s)" if "\<not> tw_first_order s"
        using rest sent that Cons.prems(2) by (auto simp: list_all_iff params_ok_def)
      then show ?thesis using rest sent by (auto simp: step ev sends_at_def list_all_iff)
    qed
  next
    case False
    then have none: "\<And>t. ev \<noteq> Twap_Tick t" by blast
    note same = other_events_send_nothing[OF none, of te s]
    have "sends_at te ev s = []" using False by (cases ev) (auto simp: sends_at_def)
    then show ?thesis using Cons.IH[of ?s last_order] Cons.prems same by (simp add: step)
  qed
qed simp

text \<open>
  C19: the time-weighted average price strategy spreads its orders: it sends orders only at times at which its execution
  condition lets it run, never two in a tick, and from one order to the next more than the delay passes.
\<close>

theorem twap_orders_spaced:
  assumes "new_twap p = Inr s" "params_ok p"
  shows "sorted_wrt (\<lambda>(te, a) (te', b). a + tp_order_delay_time p < b) (order_ticks evs (twap_start t0 s)) \<and>
    list_all (\<lambda>(te, t). runs_at (te_time_of_day te) (tp_condition p) t) (order_ticks evs (twap_start t0 s))"
proof -
  have "tw_params s = p" "tw_execution s = new_execution_state (tp_condition p)" "tw_first_order s"
    using assms(1) by (auto simp: new_twap_def split: if_splits)
  then show ?thesis
    using order_ticks_spaced[of "twap_start t0 s" p t0 evs] assms(2) by (simp add: twap_start_def new_execution_state_def)
qed

section \<open>Orders beyond the target\<close>

text \<open>
  Fills are not subtracted: an order that is cancelled when it is partly filled gives its whole quantity back, and what was
  filled is ordered again.
\<close>

lemma partly_filled_order_given_back:
  assumes "so_market_pair_of (twap_orders s) i = Some mp" "get_limit_order (twap_orders s) mp i = Some x"
  shows "tw_quantity_remaining (twap_run [(te, Twap_Filled i amount), (te', Twap_Cancelled i)] s) = tw_quantity_remaining s + lo_quantity x"
  using assms by (simp add: twap_step_def twap_did_cancel_order_def upd_twap_orders_def update_remaining_after_removing_order_def)

text \<open>Without a time to wait the attribute is never set: the order is sent, the quantity stays and the tick ends with an exception.\<close>

lemma order_without_wait_time:
  assumes "tp_cancel_order_wait_time (tw_params s) = None" "mp_market mp \<in> set (st_markets (tw_strategy s))" "\<not> st_delegate_lock (tw_strategy s)"
  shows "\<exists>s'. send_twap_order mp amount price s = (Inl AttributeError, s') \<and> orders_sent s' = Suc (orders_sent s) \<and>
    tw_quantity_remaining s' = tw_quantity_remaining s"
  using assms by (simp add: send_twap_order_def Let_def order_with_specific_market_def orders_sent_def is_order_def)

text \<open>Whatever happens to the first market of a tick, no order is due for the others.\<close>

lemma later_markets_never_due:
  assumes "0 \<le> tp_order_delay_time (tw_params s)" "tp_cancel_order_wait_time (tw_params s) \<noteq> None"
  shows "leaves (\<lambda>s'. \<not> order_due s') (place_due_order te mp s)"
proof (cases "order_due s")
  case True
  let ?s = "s\<lparr> tw_previous_timestamp := twap_now s \<rparr>"
  obtain r s' where place: "place_orders_for_market te mp ?s = (r, s')" by (cases "place_orders_for_market te mp ?s")
  have wait: "tp_cancel_order_wait_time (tw_params ?s) \<noteq> None" using assms(2) by simp
  show ?thesis using True assms place
    by (cases rule: place_orders_cases[OF place wait])
       (auto simp: place_due_order_def and_then_def order_due_def leaves_def split: sum.splits if_splits)
qed (simp add: place_due_order_def)

section \<open>A run\<close>

definition twap_pair :: market_pair where
  "twap_pair = \<lparr> mp_market = ''exchange'', mp_trading_pair = ''ETH-USDT'', mp_base = ''ETH'', mp_quote = ''USDT'' \<rparr>"

definition paced :: twap_params where
  "paced = \<lparr> tp_market_infos = [twap_pair], tp_is_buy = True, tp_target_asset_amount = 2, tp_order_step_size = 1, tp_order_price = 100,
     tp_order_delay_time = 10, tp_cancel_order_wait_time = Some 60, tp_condition = RunAlways, tp_order_id = (\<lambda>n. replicate n (CHR ''i'')) \<rparr>"

definition rich_env :: twap_env where
  "rich_env = \<lparr> te_market = (\<lambda>m. \<lparr> tm_api = sample_api\<lparr> ea_order_book := (\<lambda>_. Inr sample_book) \<rparr>, tm_balance = (\<lambda>c. 1000), tm_ready = True \<rparr>),
     te_time_of_day = (\<lambda>t. t) \<rparr>"

definition twap_events :: "(twap_env \<times> twap_event) list" where
  "twap_events = map (Pair rich_env) [Twap_Tick 5, Twap_Completed '''' LIMIT, Twap_Tick 10, Twap_Tick 20, Twap_Filled ''i'' (1/2), Twap_Cancelled ''i'']"

definition fresh_twap :: twap where
  "fresh_twap = (case new_twap paced of Inr s \<Rightarrow> s)"

lemma fresh_twap: "new_twap paced = Inr fresh_twap"
  by (simp add: fresh_twap_def new_twap_def paced_def)

lemma paced_ok: "params_ok paced"
  by (auto simp: params_ok_def paced_def inj_def dest: arg_cong[where f = length])

text \<open>The second order is half filled when it is cancelled; the whole of it is left to order.\<close>

lemma twap_orders_target_witness:
  "tw_quantity_remaining (twap_run twap_events (twap_start 0 fresh_twap)) = 1"
proof -
  have "list_all twap_event_ok twap_events"
    by (auto simp: twap_events_def twap_event_ok_def sizes_positive_def rich_env_def sample_api_def is_limit_type_def)
  moreover have "completed_quantity twap_events (twap_start 0 fresh_twap) = 1" by code_simp
  moreover have "open_quantity (twap_orders (twap_run twap_events (twap_start 0 fresh_twap))) = 0" by code_simp
  moreover have "tp_target_asset_amount paced = 2" by (simp add: paced_def)
  ultimately show ?thesis using twap_orders_target[OF fresh_twap paced_ok, of twap_events 0] by simp
qed

lemma twap_orders_spaced_witness:
  "sorted_wrt (\<lambda>a b. a + 10 < b) (map snd (order_ticks twap_events (twap_start 0 fresh_twap))) \<and>
   map snd (order_ticks twap_events (twap_start 0 fresh_twap)) = [5, 20]"
proof
  have "sorted_wrt (\<lambda>(te, a) (te', b). a + tp_order_delay_time paced < b) (order_ticks twap_events (twap_start 0 fresh_twap))"
    using twap_orders_spaced[OF fresh_twap paced_ok] by blast
  then show "sorted_wrt (\<lambda>a b. a + 10 < b) (map snd (order_ticks twap_events (twap_start 0 fresh_twap)))"
    by (simp add: sorted_wrt_map case_prod_unfold paced_def)
  show "map snd (order_ticks twap_events (twap_start 0 fresh_twap)) = [5, 20]" by code_simp
qed

end
