(* ===== verification/Liquidity_Mining.thy ===== *)
theory Liquidity_Mining
  imports Pure_Quotes Exchange_Base
begin

text \<open>
  The strategy \<^verbatim>\<open>strategy/liquidity_mining\<close>: one bid and one ask in each of several markets of an exchange, sized by
  budgets per market and spread by the volatility of the price.

  A market has a name, base and quote joined by a dash, which is its key in the dictionaries; a dictionary with a value
  for every market is a function of the name.  A price that is NaN is \<open>None\<close>: comparing it raises.  \<^verbatim>\<open>numpy.interp\<close> is an
  argument.  Log lines, notifications and the status report are left out.
\<close>

section \<open>Parameters, exchange and state\<close>

record mining_params =
  lm_exchange :: string
  lm_market_infos :: "(string, market_pair) pydict"
  lm_token :: string
  lm_order_amount :: decimal
  lm_spread :: decimal
  lm_inventory_skew_enabled :: bool
  lm_target_base_pct :: decimal
  lm_order_refresh_time :: seconds
  lm_order_refresh_tolerance_pct :: decimal
  lm_inventory_range_multiplier :: decimal
  lm_volatility_interval :: nat
  lm_avg_volatility_period :: nat
  lm_volatility_to_spread_multiplier :: decimal
  lm_max_spread :: decimal
  lm_max_order_age :: seconds
  lm_interp :: interpolation

record mining_env =
  me_api :: exchange_api
  me_available :: "string \<Rightarrow> py_error + decimal"
  me_ready :: bool
  me_limit_orders :: "(string \<times> string) list"
  me_fee_schema :: trade_fee_schema
  me_order_id :: "nat \<Rightarrow> string"

record mining =
  mn_strategy :: strategy
  mn_last_timestamp :: seconds
  mn_ready_to_trade :: bool
  mn_refresh_times :: "string \<Rightarrow> seconds"
  mn_token_balances :: "string \<Rightarrow> decimal"
  mn_sell_budgets :: "string \<Rightarrow> decimal"
  mn_buy_budgets :: "string \<Rightarrow> decimal"
  mn_mid_prices :: "string \<Rightarrow> decimal option list"
  mn_volatility :: "string \<Rightarrow> decimal option"
  mn_order_count :: nat
  mn_requests :: "market_request list"

definition new_mining :: "mining_params \<Rightarrow> mining" where
  "new_mining p =
     \<lparr> mn_strategy = \<lparr> st_markets = [lm_exchange p], st_delegate_lock = False, st_orders = new_strategy_orders \<rparr>, mn_last_timestamp = 0,
       mn_ready_to_trade = False, mn_refresh_times = (\<lambda>_. 0), mn_token_balances = (\<lambda>_. 0), mn_sell_budgets = (\<lambda>_. 0),
       mn_buy_budgets = (\<lambda>_. 0), mn_mid_prices = (\<lambda>_. []), mn_volatility = (\<lambda>_. None), mn_order_count = 0, mn_requests = [] \<rparr>"

abbreviation mining_orders :: "mining \<Rightarrow> strategy_orders" where
  "mining_orders s \<equiv> st_orders (mn_strategy s)"

abbreviation mining_now :: "mining \<Rightarrow> seconds" where
  "mining_now s \<equiv> so_now (mining_orders s)"

text \<open>Orders that are restored when the strategy starts are cancelled on the exchange.\<close>

definition mining_start :: "mining_params \<Rightarrow> mining_env \<Rightarrow> mining \<Rightarrow> mining" where
  "mining_start p me s = s\<lparr> mn_requests := mn_requests s @ map (\<lambda>(tp, i). MarketCancelRequest
     \<lparr> mp_market = lm_exchange p, mp_trading_pair = tp, mp_base = pair_base tp, mp_quote = pair_quote tp \<rparr> i) (me_limit_orders me) \<rparr>"

subsection \<open>Tokens and balances\<close>

definition market_names :: "mining_params \<Rightarrow> string list" where
  "market_names p = map fst (lm_market_infos p)"

definition all_quote_tokens :: "mining_params \<Rightarrow> string list" where
  "all_quote_tokens p = remdups (map pair_quote (market_names p))"

definition all_tokens :: "mining_params \<Rightarrow> string list" where
  "all_tokens p = remdups (concat (map (\<lambda>m. [pair_base m, pair_quote m]) (market_names p)))"

definition is_token_a_quote_token :: "mining_params \<Rightarrow> bool" where
  "is_token_a_quote_token p \<longleftrightarrow> all_quote_tokens p = [lm_token p]"

definition mining_active_orders :: "mining \<Rightarrow> tracked_limit list" where
  "mining_active_orders s = map snd (active_limit_orders (mining_orders s))"

definition orders_of_market :: "string \<Rightarrow> mining \<Rightarrow> tracked_limit list" where
  "orders_of_market m s = filter (\<lambda>x. lo_trading_pair x = m) (mining_active_orders s)"

definition add_order_funds :: "tracked_limit \<Rightarrow> (string \<Rightarrow> decimal) \<Rightarrow> string \<Rightarrow> decimal" where
  "add_order_funds x bal =
     (if lo_is_buy x then bal(pair_quote (lo_trading_pair x) := bal (pair_quote (lo_trading_pair x)) + lo_quantity x * lo_price x)
      else bal(pair_base (lo_trading_pair x) := bal (pair_base (lo_trading_pair x)) + lo_quantity x))"

fun available_of :: "mining_env \<Rightarrow> string list \<Rightarrow> (string \<Rightarrow> decimal) \<Rightarrow> py_error + (string \<Rightarrow> decimal)" where
  "available_of me [] bal = Inr bal"
| "available_of me (t # ts) bal = bind_err (me_available me t) (\<lambda>b. available_of me ts (bal(t := b)))"

text \<open>What is available and what the active orders hold; a token that no market has is zero.\<close>

definition adjusted_available_balances :: "mining_params \<Rightarrow> mining_env \<Rightarrow> mining \<Rightarrow> py_error + (string \<Rightarrow> decimal)" where
  "adjusted_available_balances p me s =
     bind_err (available_of me (all_tokens p) (\<lambda>_. 0)) (\<lambda>bal. Inr (fold add_order_funds (mining_active_orders s) bal))"

definition mining_mid :: "mining_env \<Rightarrow> market_pair \<Rightarrow> py_error + decimal option" where
  "mining_mid me mp = mid_price (me_api me) (mp_trading_pair mp)"

section \<open>Budgets\<close>

text \<open>The value of the base asset in the token, if it is the quote; otherwise the value of the quote asset.\<close>

definition holding_value :: "mining_params \<Rightarrow> mining_env \<Rightarrow> (string \<Rightarrow> decimal) \<Rightarrow> string \<times> market_pair \<Rightarrow> py_error + decimal option" where
  "holding_value p me bal = (\<lambda>(m, mp). bind_err (mining_mid me mp) (\<lambda>mid.
     if is_token_a_quote_token p then Inr (nan_mult mid (bal (pair_base m)))
     else nan_div (Some (bal (pair_quote m))) mid))"

fun add_holdings :: "mining_params \<Rightarrow> mining_env \<Rightarrow> (string \<Rightarrow> decimal) \<Rightarrow> (string, market_pair) pydict \<Rightarrow> decimal option \<Rightarrow> py_error + decimal option" where
  "add_holdings p me bal [] port = Inr port"
| "add_holdings p me bal (x # xs) port = bind_err (holding_value p me bal x) (\<lambda>v. add_holdings p me bal xs (nan_add port v))"

definition total_port_value_in_token :: "mining_params \<Rightarrow> mining_env \<Rightarrow> mining \<Rightarrow> py_error + decimal option" where
  "total_port_value_in_token p me s =
     bind_err (adjusted_available_balances p me s) (\<lambda>bal. add_holdings p me bal (lm_market_infos p) (Some (bal (lm_token p))))"

text \<open>The budget of the token is what the portion of a market leaves; a budget that is not positive stays zero.\<close>

fun allocate_budgets :: "mining_params \<Rightarrow> mining_env \<Rightarrow> decimal option \<Rightarrow> (string \<Rightarrow> decimal) \<Rightarrow> (string, market_pair) pydict \<Rightarrow> mining \<Rightarrow>
    (mining, unit) outcome" where
  "allocate_budgets p me portion bal [] s = (Inr (), s)"
| "allocate_budgets p me portion bal ((m, mp) # xs) s =
     (let s = (if is_token_a_quote_token p then s\<lparr> mn_sell_budgets := (mn_sell_budgets s)(m := bal (pair_base m)) \<rparr>
               else s\<lparr> mn_buy_budgets := (mn_buy_budgets s)(m := bal (pair_quote m)) \<rparr>) in
      and_then (holding_value p me bal (m, mp), s) (\<lambda>v s.
      and_then (compare_decimals (\<lambda>b v. max (b - v) 0) portion v, s) (\<lambda>budget s.
        allocate_budgets p me portion bal xs
          (if is_token_a_quote_token p then s\<lparr> mn_buy_budgets := (mn_buy_budgets s)(m := budget) \<rparr>
           else s\<lparr> mn_sell_budgets := (mn_sell_budgets s)(m := budget) \<rparr>))))"

definition create_budget_allocation :: "mining_params \<Rightarrow> mining_env \<Rightarrow> mining \<Rightarrow> (mining, unit) outcome" where
  "create_budget_allocation p me s =
     (let s = s\<lparr> mn_sell_budgets := (\<lambda>_. 0), mn_buy_budgets := (\<lambda>_. 0) \<rparr> in
      and_then (total_port_value_in_token p me s, s) (\<lambda>port s.
      and_then (nan_div port (Some (of_nat (length (lm_market_infos p)))), s) (\<lambda>portion s.
      and_then (adjusted_available_balances p me s, s) (\<lambda>bal s.
        allocate_budgets p me portion bal (lm_market_infos p) s))))"

section \<open>Prices and volatility\<close>

text \<open>Slices and ranges as in the language: an index below zero counts from the end.\<close>

definition slice_index :: "int \<Rightarrow> nat \<Rightarrow> nat" where
  "slice_index i n = (if i < 0 then nat (i + int n) else min (nat i) n)"

definition py_slice :: "int \<Rightarrow> int \<Rightarrow> 'a list \<Rightarrow> 'a list" where
  "py_slice i j xs = take (slice_index j (length xs) - slice_index i (length xs)) (drop (slice_index i (length xs)) xs)"

definition range_down :: "int \<Rightarrow> int \<Rightarrow> nat \<Rightarrow> int list" where
  "range_down start stop step = map (\<lambda>k. start - int k * int step) [0..<nat ((start - stop + int step - 1) div int step)]"

definition extreme :: "(decimal \<Rightarrow> decimal \<Rightarrow> decimal) \<Rightarrow> decimal option list \<Rightarrow> py_error + decimal option" where
  "extreme best xs = (case xs of
       [] \<Rightarrow> Inl ValueError
     | [x] \<Rightarrow> Inr x
     | _ \<Rightarrow> if None \<in> set xs then Inl InvalidOperation else Inr (Some (fold best (map the xs) (the (hd xs)))))"

definition true_range :: "decimal option list \<Rightarrow> py_error + decimal option" where
  "true_range prices =
     bind_err (extreme max prices) (\<lambda>high. bind_err (extreme min prices) (\<lambda>low. nan_div (nan_add high (nan_mult low (- 1))) low))"

text \<open>An empty window ends the loop.\<close>

fun true_ranges :: "nat \<Rightarrow> decimal option list \<Rightarrow> int list \<Rightarrow> py_error + decimal option list" where
  "true_ranges interval prices [] = Inr []"
| "true_ranges interval prices (i # is) =
     (let window = py_slice (i - int interval + 1) (i + 1) prices in
      if window = [] then Inr []
      else bind_err (true_range window) (\<lambda>r. bind_err (true_ranges interval prices is) (\<lambda>rs. Inr (r # rs))))"

definition mean_of :: "decimal option list \<Rightarrow> decimal option" where
  "mean_of xs = (if xs = [] \<or> None \<in> set xs then None else Some ((\<Sum>x \<leftarrow> xs. the x) / of_nat (length xs)))"

definition volatility_of :: "mining_params \<Rightarrow> decimal option list \<Rightarrow> py_error + decimal option" where
  "volatility_of p prices =
     (let interval = lm_volatility_interval p; last_index = int (length prices) - 1;
          first_index = max (last_index - int (interval * lm_avg_volatility_period p)) 0 in
      if interval = 0 then Inl ValueError
      else bind_err (true_ranges interval prices (range_down last_index first_index interval)) (\<lambda>atr. Inr (mean_of atr)))"

fun update_volatilities :: "mining_params \<Rightarrow> string list \<Rightarrow> mining \<Rightarrow> (mining, unit) outcome" where
  "update_volatilities p [] s = (Inr (), s)"
| "update_volatilities p (m # ms) s =
     and_then (volatility_of p (mn_mid_prices s m), s) (\<lambda>v s. update_volatilities p ms (s\<lparr> mn_volatility := (mn_volatility s)(m := v) \<rparr>))"

definition update_volatility :: "mining_params \<Rightarrow> mining \<Rightarrow> (mining, unit) outcome" where
  "update_volatility p s = update_volatilities p (market_names p) (s\<lparr> mn_volatility := (\<lambda>_. None) \<rparr>)"

text \<open>The slice of a length of zero is the whole list.\<close>

definition keep_prices :: "nat \<Rightarrow> 'a list \<Rightarrow> 'a list" where
  "keep_prices n xs = (if n = 0 then xs else take_last n xs)"

fun update_mid_prices :: "mining_params \<Rightarrow> mining_env \<Rightarrow> (string, market_pair) pydict \<Rightarrow> mining \<Rightarrow> (mining, unit) outcome" where
  "update_mid_prices p me [] s = (Inr (), s)"
| "update_mid_prices p me ((m, mp) # xs) s =
     and_then (mining_mid me mp, s) (\<lambda>mid s.
       update_mid_prices p me xs (s\<lparr> mn_mid_prices := (mn_mid_prices s)(m :=
         keep_prices (lm_volatility_interval p * lm_avg_volatility_period p) (mn_mid_prices s m @ [mid])) \<rparr>))"

section \<open>Proposals\<close>

record mining_quote =
  mq_buy_price :: decimal
  mq_buy_size :: decimal
  mq_sell_price :: decimal
  mq_sell_size :: decimal

text \<open>The proposal of a market without a mid price has prices that are NaN: it is \<open>None\<close>.\<close>

type_synonym mining_proposal = "(string \<times> market_pair) \<times> mining_quote option"

definition mining_spread :: "mining_params \<Rightarrow> decimal option \<Rightarrow> decimal" where
  "mining_spread p volatility =
     (let spread = (case volatility of None \<Rightarrow> lm_spread p | Some v \<Rightarrow> max (lm_spread p) (v * lm_volatility_to_spread_multiplier p)) in
      if 0 < lm_max_spread p then min spread (lm_max_spread p) else spread)"

text \<open>A size is in the base asset; a price of zero is replaced by the mid price.\<close>

definition base_order_size :: "mining_params \<Rightarrow> string \<Rightarrow> decimal \<Rightarrow> decimal \<Rightarrow> py_error + decimal" where
  "base_order_size p m mid price =
     (if lm_token p = pair_base m then Inr (lm_order_amount p) else dec_div (lm_order_amount p) (if price = 0 then mid else price))"

definition base_proposal :: "mining_params \<Rightarrow> mining_env \<Rightarrow> mining \<Rightarrow> string \<times> market_pair \<Rightarrow> py_error + mining_proposal" where
  "base_proposal p me s = (\<lambda>(m, mp).
     let spread = mining_spread p (mn_volatility s m) in
     bind_err (mining_mid me mp) (\<lambda>mid. case mid of
         None \<Rightarrow> Inr ((m, mp), None)
       | Some mid \<Rightarrow>
           bind_err (quantized_price (me_api me) m (Some (mid * (1 - spread)))) (\<lambda>buy_price.
           bind_err (quantized_price (me_api me) m (Some (mid * (1 + spread)))) (\<lambda>sell_price.
           case (buy_price, sell_price) of
             (Some buy_price, Some sell_price) \<Rightarrow>
               bind_err (base_order_size p m mid buy_price) (\<lambda>buy_size. bind_err (base_order_size p m mid sell_price) (\<lambda>sell_size.
                 Inr ((m, mp), Some \<lparr> mq_buy_price = buy_price, mq_buy_size = buy_size, mq_sell_price = sell_price, mq_sell_size = sell_size \<rparr>)))
           | _ \<Rightarrow> Inr ((m, mp), None)))))"

definition create_mining_proposals :: "mining_params \<Rightarrow> mining_env \<Rightarrow> mining \<Rightarrow> py_error + mining_proposal list" where
  "create_mining_proposals p me s = map_err (base_proposal p me s) (lm_market_infos p)"

definition skew_proposal :: "mining_params \<Rightarrow> mining_env \<Rightarrow> mining \<Rightarrow> mining_proposal \<Rightarrow> py_error + mining_proposal" where
  "skew_proposal p me s = (\<lambda>((m, mp), q). bind_err (mining_mid me mp) (\<lambda>mid. Inr ((m, mp), case (mid, q) of
       (Some mid, Some q) \<Rightarrow>
         (let (bid_ratio, ask_ratio) = calculate_bid_ask_ratios_from_base_asset_ratio (lm_interp p) (mn_sell_budgets s m) (mn_buy_budgets s m) mid
                (lm_target_base_pct p) ((mq_sell_size q + mq_buy_size q) * lm_inventory_range_multiplier p)
          in Some (q\<lparr> mq_buy_size := mq_buy_size q * bid_ratio, mq_sell_size := mq_sell_size q * ask_ratio \<rparr>))
     | _ \<Rightarrow> None)))"

definition skew_inventory :: "mining_params \<Rightarrow> mining_env \<Rightarrow> mining \<Rightarrow> mining_proposal list \<Rightarrow> py_error + mining_proposal list" where
  "skew_inventory p me s = map_err (skew_proposal p me s)"

text \<open>
  The size of an ask is cut to the balance of the base asset, that of a bid to what the balance of the quote asset pays with
  the fee; each takes its funds from the balances of the next.
\<close>

definition fund_ask :: "mining_env \<Rightarrow> string \<Rightarrow> (string \<Rightarrow> decimal) \<Rightarrow> mining_quote \<Rightarrow> py_error + (mining_quote \<times> (string \<Rightarrow> decimal))" where
  "fund_ask me m bal q =
     bind_err (quantize_order_amount (ea_size_quantum (me_api me)) m (min (mq_sell_size q) (bal (pair_base m)))) (\<lambda>size.
       Inr (q\<lparr> mq_sell_size := size \<rparr>, bal(pair_base m := bal (pair_base m) - size)))"

definition fund_bid :: "mining_env \<Rightarrow> string \<Rightarrow> (string \<Rightarrow> decimal) \<Rightarrow> mining_quote \<Rightarrow> py_error + (mining_quote \<times> (string \<Rightarrow> decimal))" where
  "fund_bid me m bal q =
     (let quote_size = min (mq_buy_size q * mq_buy_price q) (bal (pair_quote m)) in
      bind_err (dec_div quote_size (mq_buy_price q * (1 + tf_percent (estimate_fee (me_fee_schema me) True)))) (\<lambda>size.
      bind_err (quantize_order_amount (ea_size_quantum (me_api me)) m size) (\<lambda>size.
        Inr (q\<lparr> mq_buy_size := size \<rparr>, bal(pair_quote m := bal (pair_quote m) - quote_size)))))"

fun constrain_to_budget ::
  "mining_env \<Rightarrow> (string \<Rightarrow> decimal) \<Rightarrow> mining_proposal list \<Rightarrow> py_error + ((string \<times> market_pair) \<times> mining_quote) list" where
  "constrain_to_budget me bal [] = Inr []"
| "constrain_to_budget me bal (((m, mp), q) # ps) = (case q of
       None \<Rightarrow> Inl InvalidOperation
     | Some q \<Rightarrow>
         bind_err (fund_ask me m bal q) (\<lambda>(q, bal). bind_err (fund_bid me m bal q) (\<lambda>(q, bal).
         bind_err (constrain_to_budget me bal ps) (\<lambda>qs. Inr (((m, mp), q) # qs)))))"

section \<open>Orders\<close>

text \<open>The first active order of a side is compared with the proposal; dividing by a price of zero raises.\<close>

definition price_moved :: "mining_params \<Rightarrow> decimal \<Rightarrow> tracked_limit list \<Rightarrow> py_error + bool" where
  "price_moved p price xs = (case xs of
       [] \<Rightarrow> Inr False
     | x # _ \<Rightarrow> bind_err (dec_div \<bar>price - lo_price x\<bar> (lo_price x)) (\<lambda>d. Inr (lm_order_refresh_tolerance_pct p < d)))"

definition within_tolerance :: "mining_params \<Rightarrow> tracked_limit list \<Rightarrow> mining_quote \<Rightarrow> py_error + bool" where
  "within_tolerance p cur_orders q =
     (let cur_buy = filter lo_is_buy cur_orders; cur_sell = filter (\<lambda>x. \<not> lo_is_buy x) cur_orders in
      if cur_buy \<noteq> [] \<and> mq_buy_size q \<le> 0 \<or> cur_sell \<noteq> [] \<and> mq_sell_size q \<le> 0 then Inr False
      else bind_err (price_moved p (mq_buy_price q) cur_buy) (\<lambda>buy_moved.
        if buy_moved then Inr False
        else bind_err (price_moved p (mq_sell_price q) cur_sell) (\<lambda>sell_moved. Inr (\<not> sell_moved))))"

definition cancel_in_market :: "market_pair \<Rightarrow> tracked_limit \<Rightarrow> mining \<Rightarrow> mining" where
  "cancel_in_market mp x s =
     (let (st, rs) = strategy_cancel mp (lo_id x) (mn_strategy s) in
      s\<lparr> mn_strategy := st, mn_requests := mn_requests s @ rs,
         mn_refresh_times := (mn_refresh_times s)(lo_trading_pair x := mining_now s + 1 / 10) \<rparr>)"

definition orders_outdated :: "mining_params \<Rightarrow> string \<Rightarrow> mining_quote \<Rightarrow> mining \<Rightarrow> py_error + bool" where
  "orders_outdated p m q s =
     (let cur_orders = orders_of_market m s in
      if \<exists>x \<in> set cur_orders. lm_max_order_age p < of_int (order_age x (mining_now s)) then Inr True
      else if mn_refresh_times s m \<le> mining_now s \<and> cur_orders \<noteq> []
      then bind_err (within_tolerance p cur_orders q) (\<lambda>w. Inr (\<not> w)) else Inr False)"

fun cancel_outdated_orders :: "mining_params \<Rightarrow> ((string \<times> market_pair) \<times> mining_quote) list \<Rightarrow> mining \<Rightarrow> (mining, unit) outcome" where
  "cancel_outdated_orders p [] s = (Inr (), s)"
| "cancel_outdated_orders p (((m, mp), q) # qs) s =
     and_then (orders_outdated p m q s, s) (\<lambda>outdated s.
       cancel_outdated_orders p qs (if outdated then fold (cancel_in_market mp) (orders_of_market m s) s else s))"

definition send_mining_order :: "mining_env \<Rightarrow> market_pair \<Rightarrow> order_type \<Rightarrow> decimal option \<Rightarrow> bool \<Rightarrow> decimal \<Rightarrow> decimal \<Rightarrow> mining \<Rightarrow> (mining, unit) outcome" where
  "send_mining_order me mp ot mid is_buy price amount s =
     (if amount \<le> 0 then (Inr (), s)
      else and_then (case mid of None \<Rightarrow> Inr 0 | Some mid \<Rightarrow> dec_div \<bar>price - mid\<bar> mid, s) (\<lambda>_ s.
        case order_with_specific_market is_buy mp amount ot price None OPEN_POSITION (me_order_id me (mn_order_count s)) (mn_strategy s) of
          Inl e \<Rightarrow> (Inl e, s)
        | Inr (st, r) \<Rightarrow> (Inr (), s\<lparr> mn_strategy := st, mn_order_count := Suc (mn_order_count s), mn_requests := mn_requests s @ [r] \<rparr>)))"

text \<open>A market with an active order, or whose refresh time has not come, is left alone.\<close>

definition execute_mining_quote :: "mining_params \<Rightarrow> mining_env \<Rightarrow> (string \<times> market_pair) \<times> mining_quote \<Rightarrow> mining \<Rightarrow> (mining, unit) outcome" where
  "execute_mining_quote p me = (\<lambda>((m, mp), q) s.
     and_then (get_maker_order_type (me_api me), s) (\<lambda>ot s.
       if orders_of_market m s \<noteq> [] \<or> mining_now s < mn_refresh_times s m then (Inr (), s)
       else and_then (mining_mid me mp, s) (\<lambda>mid s.
         and_then (send_mining_order me mp ot mid True (mq_buy_price q) (mq_buy_size q) s) (\<lambda>_ s.
         and_then (send_mining_order me mp ot mid False (mq_sell_price q) (mq_sell_size q) s) (\<lambda>_ s.
           (Inr (), if 0 < mq_buy_size q \<or> 0 < mq_sell_size q
             then s\<lparr> mn_refresh_times := (mn_refresh_times s)(m := mining_now s + lm_order_refresh_time p) \<rparr> else s))))))"

fun execute_mining_quotes :: "mining_params \<Rightarrow> mining_env \<Rightarrow> ((string \<times> market_pair) \<times> mining_quote) list \<Rightarrow> mining \<Rightarrow> (mining, unit) outcome" where
  "execute_mining_quotes p me [] s = (Inr (), s)"
| "execute_mining_quotes p me (q # qs) s = and_then (execute_mining_quote p me q s) (\<lambda>_. execute_mining_quotes p me qs)"

section \<open>Ticks and events\<close>

text \<open>The strategy trades as soon as the exchange is ready, even if it is not marked as ready for orders left on the exchange.\<close>

definition mining_prepare :: "mining_params \<Rightarrow> mining_env \<Rightarrow> mining \<Rightarrow> (mining, bool) outcome" where
  "mining_prepare p me s =
     (if mn_ready_to_trade s then (Inr True, s)
      else let s = s\<lparr> mn_ready_to_trade := me_ready me \<and> me_limit_orders me = [] \<rparr> in
        if \<not> me_ready me then (Inr False, s)
        else and_then (create_budget_allocation p me s) (\<lambda>_ s. (Inr True, s)))"

definition mining_quotes :: "mining_params \<Rightarrow> mining_env \<Rightarrow> mining \<Rightarrow> (mining, ((string \<times> market_pair) \<times> mining_quote) list) outcome" where
  "mining_quotes p me s =
     and_then (create_mining_proposals p me s, s) (\<lambda>ps s.
     and_then (adjusted_available_balances p me s, s) (\<lambda>bal s.
       let s = s\<lparr> mn_token_balances := bal \<rparr> in
       and_then (if lm_inventory_skew_enabled p then skew_inventory p me s ps else Inr ps, s) (\<lambda>ps s.
         (constrain_to_budget me bal ps, s))))"

definition mining_trade :: "mining_params \<Rightarrow> mining_env \<Rightarrow> mining \<Rightarrow> (mining, unit) outcome" where
  "mining_trade p me s =
     and_then (update_mid_prices p me (lm_market_infos p) s) (\<lambda>_ s.
     and_then (update_volatility p s) (\<lambda>_ s.
     and_then (mining_quotes p me s) (\<lambda>qs s.
     and_then (cancel_outdated_orders p qs s) (\<lambda>_. execute_mining_quotes p me qs))))"

definition mining_tick :: "mining_params \<Rightarrow> mining_env \<Rightarrow> seconds \<Rightarrow> mining \<Rightarrow> (mining, unit) outcome" where
  "mining_tick p me timestamp s =
     (let s = s\<lparr> mn_strategy := (mn_strategy s)\<lparr> st_orders := orders_tick timestamp (mining_orders s) \<rparr> \<rparr> in
      and_then (mining_prepare p me s) (\<lambda>go s.
        if go then and_then (mining_trade p me s) (\<lambda>_ s. (Inr (), s\<lparr> mn_last_timestamp := timestamp \<rparr>)) else (Inr (), s)))"

definition mining_did_fill_order :: "string \<Rightarrow> order_filled_event \<Rightarrow> mining \<Rightarrow> mining" where
  "mining_did_fill_order order_id e s = (case so_shadow_pair_of (mining_orders s) order_id of
       None \<Rightarrow> s
     | Some mp \<Rightarrow>
         (let m = mp_trading_pair mp; base = (if of_trade_type e = BUY then of_amount e else - of_amount e) in
          s\<lparr> mn_sell_budgets := (mn_sell_budgets s)(m := mn_sell_budgets s m + base),
             mn_buy_budgets := (mn_buy_budgets s)(m := mn_buy_budgets s m - base * of_price e) \<rparr>))"

section \<open>What orders hold\<close>

definition fee_factor :: "mining_env \<Rightarrow> decimal" where
  "fee_factor me = 1 + tf_percent (estimate_fee (me_fee_schema me) True)"

text \<open>What an order request holds of a token.\<close>

definition request_holds :: "mining_env \<Rightarrow> string \<Rightarrow> market_request \<Rightarrow> decimal" where
  "request_holds me t r = (case r of
       MarketOrderRequest is_buy mp amount ot (Some price) expiration action \<Rightarrow>
         if is_buy then (if mp_quote mp = t then amount * price * fee_factor me else 0) else (if mp_base mp = t then amount else 0)
     | _ \<Rightarrow> 0)"

definition requests_hold :: "mining_env \<Rightarrow> string \<Rightarrow> mining \<Rightarrow> decimal" where
  "requests_hold me t s = (\<Sum>r \<leftarrow> mn_requests s. request_holds me t r)"

definition quote_holds :: "mining_env \<Rightarrow> string \<Rightarrow> (string \<times> market_pair) \<times> mining_quote \<Rightarrow> decimal" where
  "quote_holds me t = (\<lambda>((m, mp), q).
     (if pair_base m = t then mq_sell_size q else 0) + (if pair_quote m = t then mq_buy_size q * mq_buy_price q * fee_factor me else 0))"

definition quote_nonneg :: "mining_quote \<Rightarrow> bool" where
  "quote_nonneg q \<longleftrightarrow> 0 \<le> mq_buy_price q \<and> 0 \<le> mq_buy_size q \<and> 0 \<le> mq_sell_price q \<and> 0 \<le> mq_sell_size q"

text \<open>The exchange: quanta, mid prices and balances are not negative, nor is the fee.\<close>

definition exchange_ok :: "mining_env \<Rightarrow> bool" where
  "exchange_ok me \<longleftrightarrow> (\<forall>tp x q. ea_size_quantum (me_api me) tp x = Inr q \<longrightarrow> 0 < q) \<and>
     (\<forall>tp x q. ea_price_quantum (me_api me) tp x = Inr q \<longrightarrow> 0 < q) \<and> 1 \<le> fee_factor me \<and>
     (\<forall>t b. me_available me t = Inr b \<longrightarrow> 0 \<le> b) \<and> (\<forall>mp mid. mining_mid me mp = Inr (Some mid) \<longrightarrow> 0 < mid)"

lemma quantized_amount_between:
  assumes "quantize_order_amount (ea_size_quantum (me_api me)) m x = Inr a" "exchange_ok me" "0 \<le> x"
  shows "0 \<le> a" "a \<le> x"
  using quantized_between[OF assms(1) _ assms(3)] assms(2) by (auto simp: exchange_ok_def)

lemma fund_ask_holds:
  assumes "fund_ask me m bal q = Inr (q', bal')" "exchange_ok me" "quote_nonneg q" "\<forall>t. 0 \<le> bal t"
  shows "quote_nonneg q'" "\<forall>t. 0 \<le> bal' t" "bal' t = bal t - (if pair_base m = t then mq_sell_size q' else 0)" "mq_buy_price q' = mq_buy_price q"
proof -
  obtain a where a: "quantize_order_amount (ea_size_quantum (me_api me)) m (min (mq_sell_size q) (bal (pair_base m))) = Inr a"
      "q' = q\<lparr> mq_sell_size := a \<rparr>" "bal' = bal(pair_base m := bal (pair_base m) - a)"
    using assms(1) by (auto simp: fund_ask_def bind_err_eq_Inr)
  have "0 \<le> min (mq_sell_size q) (bal (pair_base m))" using assms(3,4) by (simp add: quote_nonneg_def)
  note between = quantized_amount_between[OF a(1) assms(2) this]
  show "quote_nonneg q'" "\<forall>t. 0 \<le> bal' t" "bal' t = bal t - (if pair_base m = t then mq_sell_size q' else 0)" "mq_buy_price q' = mq_buy_price q"
    using assms(3,4) a between by (auto simp: quote_nonneg_def)
qed

lemma fund_bid_holds:
  assumes "fund_bid me m bal q = Inr (q', bal')" "exchange_ok me" "quote_nonneg q" "\<forall>t. 0 \<le> bal t"
  shows "quote_nonneg q'" "\<forall>t. 0 \<le> bal' t" "bal' t \<le> bal t - (if pair_quote m = t then mq_buy_size q' * mq_buy_price q' * fee_factor me else 0)"
    "mq_sell_size q' = mq_sell_size q"
proof -
  let ?quote = "min (mq_buy_size q * mq_buy_price q) (bal (pair_quote m))" and ?price = "mq_buy_price q * fee_factor me"
  obtain a where a: "?price \<noteq> 0" "quantize_order_amount (ea_size_quantum (me_api me)) m (?quote / ?price) = Inr a"
      "q' = q\<lparr> mq_buy_size := a \<rparr>" "bal' = bal(pair_quote m := bal (pair_quote m) - ?quote)"
    using assms(1) by (auto simp: fund_bid_def Let_def fee_factor_def err_simps)
  have quote: "0 \<le> ?quote" using assms(3,4) by (simp add: quote_nonneg_def)
  have price: "0 < ?price" using a(1) assms(2,3) by (auto simp: quote_nonneg_def exchange_ok_def order_le_less)
  have "0 \<le> ?quote / ?price" using quote price by simp
  note between = quantized_amount_between[OF a(2) assms(2) this]
  have "a * ?price \<le> ?quote" using between(2) price by (simp only: pos_le_divide_eq)
  then have "a * mq_buy_price q * fee_factor me \<le> ?quote" by (simp only: mult.assoc)
  then show "quote_nonneg q'" "\<forall>t. 0 \<le> bal' t" "bal' t \<le> bal t - (if pair_quote m = t then mq_buy_size q' * mq_buy_price q' * fee_factor me else 0)"
      "mq_sell_size q' = mq_sell_size q"
    using assms(3,4) a(3,4) between(1) by (auto simp: quote_nonneg_def)
qed

lemma constrain_to_budget_holds:
  assumes "constrain_to_budget me bal ps = Inr qs" "exchange_ok me" "list_all (\<lambda>(x, q). \<forall>q'. q = Some q' \<longrightarrow> quote_nonneg q') ps" "\<forall>t. 0 \<le> bal t"
  shows "list_all (\<lambda>(x, q). quote_nonneg q) qs \<and> (\<Sum>q \<leftarrow> qs. quote_holds me t q) \<le> bal t \<and> map fst qs = map fst ps"
  using assms
proof (induction me bal ps arbitrary: qs rule: constrain_to_budget.induct)
  case (2 me bal m mp q ps)
  obtain q0 q1 bal1 q2 bal2 qs' where run: "q = Some q0" "fund_ask me m bal q0 = Inr (q1, bal1)" "fund_bid me m bal1 q1 = Inr (q2, bal2)"
      "constrain_to_budget me bal2 ps = Inr qs'" "qs = ((m, mp), q2) # qs'"
    using 2(2) by (auto simp: bind_err_eq_Inr split: option.splits)
  have "quote_nonneg q0" using 2(4) run(1) by simp
  note ask = fund_ask_holds[OF run(2) 2(3) this 2(5)]
  note bid = fund_bid_holds[OF run(3) 2(3) ask(1,2)]
  have "list_all (\<lambda>(x, q). quote_nonneg q) qs' \<and> (\<Sum>q \<leftarrow> qs'. quote_holds me t q) \<le> bal2 t \<and> map fst qs' = map fst ps"
    using 2(1)[OF run(1) run(4) 2(3) _ bid(2)] 2(4) by simp
  then show ?case using ask(3)[of t] bid(3)[of t] bid(1,4) by (auto simp: run(5) quote_holds_def)
qed (auto simp: list_all_iff)


subsection \<open>The proposals are not negative\<close>

definition mining_params_ok :: "mining_params \<Rightarrow> bool" where
  "mining_params_ok p \<longleftrightarrow> 0 \<le> lm_spread p \<and> 0 < lm_max_spread p \<and> lm_max_spread p < 1 \<and> 0 \<le> lm_order_amount p \<and> interpolates (lm_interp p) \<and>
     (\<forall>(m, mp) \<in> set (lm_market_infos p). mp_base mp = pair_base m \<and> mp_quote mp = pair_quote m)"

abbreviation proposal_nonneg :: "mining_proposal \<Rightarrow> bool" where
  "proposal_nonneg \<equiv> \<lambda>(x, q). \<forall>q'. q = Some q' \<longrightarrow> quote_nonneg q'"

lemma mining_spread_bounds: "mining_params_ok p \<Longrightarrow> 0 \<le> mining_spread p v \<and> mining_spread p v < 1"
  by (auto simp: mining_params_ok_def mining_spread_def Let_def split: option.splits)

lemma quantized_price_nonneg:
  assumes "quantized_price (me_api me) m (Some x) = Inr (Some a)" "exchange_ok me" "0 \<le> x"
  shows "0 \<le> a"
proof -
  have "quantize_order_amount (ea_price_quantum (me_api me)) m x = Inr a"
    using assms(1) by (auto simp: quantized_price_def quantize_order_price_def quantize_order_amount_def err_simps)
  then show ?thesis using quantized_between(1)[of _ m x a] assms(2,3) by (auto simp: exchange_ok_def)
qed

lemma base_order_size_nonneg:
  "base_order_size p m mid price = Inr a \<Longrightarrow> mining_params_ok p \<Longrightarrow> 0 \<le> mid \<Longrightarrow> 0 \<le> price \<Longrightarrow> 0 \<le> a"
  by (auto simp: base_order_size_def mining_params_ok_def err_simps split: if_splits)

lemma base_proposal_cases:
  assumes "base_proposal p me s (m, mp) = Inr y"
  obtains "y = ((m, mp), None)"
  | mid bp sp bs ss where "mining_mid me mp = Inr (Some mid)"
      "quantized_price (me_api me) m (Some (mid * (1 - mining_spread p (mn_volatility s m)))) = Inr (Some bp)"
      "quantized_price (me_api me) m (Some (mid * (1 + mining_spread p (mn_volatility s m)))) = Inr (Some sp)"
      "base_order_size p m mid bp = Inr bs" "base_order_size p m mid sp = Inr ss"
      "y = ((m, mp), Some \<lparr> mq_buy_price = bp, mq_buy_size = bs, mq_sell_price = sp, mq_sell_size = ss \<rparr>)"
proof (cases "mining_mid me mp")
  case (Inr mid)
  show thesis
  proof (cases mid)
    case (Some mid')
    let ?spread = "mining_spread p (mn_volatility s m)"
    obtain bp sp where prices: "quantized_price (me_api me) m (Some (mid' * (1 - ?spread))) = Inr bp"
        "quantized_price (me_api me) m (Some (mid' * (1 + ?spread))) = Inr sp"
      using assms Inr Some by (auto simp: base_proposal_def Let_def err_simps)
    then show thesis using assms Inr Some that
      by (cases bp; cases sp) (auto simp: base_proposal_def Let_def err_simps)
  qed (use assms Inr that in \<open>simp add: base_proposal_def\<close>)
qed (use assms in \<open>simp add: base_proposal_def\<close>)

lemma base_proposal_nonneg:
  assumes "base_proposal p me s x = Inr y" "mining_params_ok p" "exchange_ok me"
  shows "fst y = x \<and> proposal_nonneg y"
proof -
  obtain m mp where x: "x = (m, mp)" by (cases x)
  show ?thesis using assms(1)[unfolded x]
  proof (cases rule: base_proposal_cases)
    case (2 mid bp sp bs ss)
    have mid: "0 < mid" using 2(1) assms(3) by (auto simp: exchange_ok_def)
    have spread: "0 \<le> mining_spread p (mn_volatility s m)" "mining_spread p (mn_volatility s m) \<le> 1"
      using mining_spread_bounds[OF assms(2)] by (simp_all add: less_imp_le)
    have bp: "0 \<le> bp" by (rule quantized_price_nonneg[OF 2(2) assms(3)]) (use mid spread in simp)
    have sp: "0 \<le> sp" by (rule quantized_price_nonneg[OF 2(3) assms(3)]) (use mid spread in simp)
    show ?thesis
      using bp sp mid base_order_size_nonneg[OF 2(4) assms(2)] base_order_size_nonneg[OF 2(5) assms(2)]
      by (simp add: 2(6) x quote_nonneg_def)
  qed (simp add: x)
qed

lemma skew_proposal_nonneg:
  assumes "skew_proposal p me s x = Inr y" "mining_params_ok p" "proposal_nonneg x"
  shows "fst y = fst x \<and> proposal_nonneg y"
proof -
  obtain m mp q where x: "x = ((m, mp), q)" by (cases x) auto
  obtain mid where mid: "mining_mid me mp = Inr mid" using assms(1) by (auto simp: x skew_proposal_def err_simps)
  show ?thesis
  proof (cases "\<exists>a b. mid = Some a \<and> q = Some b")
    case True
    then obtain a b where some: "mid = Some a" "q = Some b" by blast
    obtain bid ask where r: "calculate_bid_ask_ratios_from_base_asset_ratio (lm_interp p) (mn_sell_budgets s m) (mn_buy_budgets s m) a
        (lm_target_base_pct p) ((mq_sell_size b + mq_buy_size b) * lm_inventory_range_multiplier p) = (bid, ask)" by fastforce
    have "0 \<le> bid \<and> 0 \<le> ask" using skew_ratios_nonneg[OF _ r] assms(2) by (simp add: mining_params_ok_def)
    then show ?thesis using assms(1,3) r mid by (auto simp: some x skew_proposal_def quote_nonneg_def)
  qed (use assms(1) mid in \<open>cases mid; cases q; auto simp: x skew_proposal_def\<close>)
qed

lemma map_err_all:
  assumes "map_err f xs = Inr ys" "list_all P xs" "\<And>x y. f x = Inr y \<Longrightarrow> P x \<Longrightarrow> Q y \<and> g y = h x"
  shows "list_all Q ys \<and> map g ys = map h xs"
  using assms by (induction xs arbitrary: ys) (auto simp: err_simps)

text \<open>The proposals of a tick hold no more than there is.\<close>

lemma mining_quotes_hold:
  assumes "mining_quotes p me s = (Inr qs, s')" "mining_params_ok p" "exchange_ok me" "adjusted_available_balances p me s = Inr bal" "\<forall>t. 0 \<le> bal t"
  shows "list_all (\<lambda>(x, q). quote_nonneg q) qs \<and> (\<Sum>q \<leftarrow> qs. quote_holds me t q) \<le> bal t \<and> map fst qs = lm_market_infos p"
proof -
  obtain ps ps' where run: "create_mining_proposals p me s = Inr ps"
      "(if lm_inventory_skew_enabled p then skew_inventory p me (s\<lparr> mn_token_balances := bal \<rparr>) ps else Inr ps) = Inr ps'"
      "constrain_to_budget me bal ps' = Inr qs"
    using assms(1,4) by (auto simp: mining_quotes_def Let_def and_then_def split: sum.splits prod.splits)
  have "list_all proposal_nonneg ps \<and> map fst ps = map (\<lambda>x. x) (lm_market_infos p)"
    by (rule map_err_all[OF run(1)[unfolded create_mining_proposals_def], of "\<lambda>_. True"])
       (use base_proposal_nonneg[OF _ assms(2,3)] in \<open>auto simp: list_all_iff\<close>)
  moreover have "list_all proposal_nonneg ps' \<and> map fst ps' = map fst ps" if "list_all proposal_nonneg ps"
    using run(2) that map_err_all[of _ ps ps' proposal_nonneg proposal_nonneg fst fst] skew_proposal_nonneg[OF _ assms(2)]
    by (auto simp: skew_inventory_def split: if_splits) blast+
  ultimately have "list_all proposal_nonneg ps'" "map fst ps' = lm_market_infos p" by auto
  then show ?thesis using constrain_to_budget_holds[OF run(3) assms(3) _ assms(5)] by simp
qed

subsection \<open>What a tick leaves alone\<close>

text \<open>Prices, budgets and volatility do not touch the orders.\<close>

definition same_orders :: "mining \<Rightarrow> mining \<Rightarrow> bool" where
  "same_orders s0 s \<longleftrightarrow> mn_strategy s = mn_strategy s0 \<and> mn_requests s = mn_requests s0"

lemma same_orders_refl: "same_orders s s"
  by (simp add: same_orders_def)

lemma same_orders_fields [simp]:
  "same_orders s0 (s\<lparr> mn_sell_budgets := b \<rparr>) \<longleftrightarrow> same_orders s0 s" "same_orders s0 (s\<lparr> mn_buy_budgets := b \<rparr>) \<longleftrightarrow> same_orders s0 s"
  "same_orders s0 (s\<lparr> mn_token_balances := b \<rparr>) \<longleftrightarrow> same_orders s0 s" "same_orders s0 (s\<lparr> mn_ready_to_trade := r \<rparr>) \<longleftrightarrow> same_orders s0 s"
  "same_orders s0 (s\<lparr> mn_mid_prices := ps \<rparr>) \<longleftrightarrow> same_orders s0 s" "same_orders s0 (s\<lparr> mn_volatility := v \<rparr>) \<longleftrightarrow> same_orders s0 s"
  by (simp_all add: same_orders_def)

lemma same_adjusted: "same_orders s0 s \<Longrightarrow> adjusted_available_balances p me s = adjusted_available_balances p me s0"
  by (simp add: same_orders_def adjusted_available_balances_def mining_active_orders_def)

lemma allocate_budgets_same: "same_orders s0 s \<Longrightarrow> leaves (same_orders s0) (allocate_budgets p me portion bal xs s)"
proof (induction xs arbitrary: s)
  case (Cons x xs)
  then show ?case by (cases x) (auto simp: Let_def intro!: leaves_and_then leaves_read)
qed simp

lemma create_budget_allocation_same: "same_orders s0 s \<Longrightarrow> leaves (same_orders s0) (create_budget_allocation p me s)"
  unfolding create_budget_allocation_def Let_def by (intro leaves_and_then leaves_read allocate_budgets_same) simp_all

lemma update_mid_prices_same: "same_orders s0 s \<Longrightarrow> leaves (same_orders s0) (update_mid_prices p me xs s)"
proof (induction xs arbitrary: s)
  case (Cons x xs)
  then show ?case by (cases x) (auto intro!: leaves_and_then leaves_read)
qed simp

lemma update_volatilities_same: "same_orders s0 s \<Longrightarrow> leaves (same_orders s0) (update_volatilities p ms s)"
  by (induction ms arbitrary: s) (auto intro!: leaves_and_then leaves_read)

lemma mining_prepare_same: "same_orders s0 s \<Longrightarrow> leaves (same_orders s0) (mining_prepare p me s)"
  unfolding mining_prepare_def Let_def by (auto intro!: leaves_and_then create_budget_allocation_same)

lemma mining_quotes_same: "same_orders s0 s \<Longrightarrow> leaves (same_orders s0) (mining_quotes p me s)"
  unfolding mining_quotes_def Let_def by (intro leaves_and_then leaves_read) simp_all

subsection \<open>Tracked orders\<close>

definition limit_values :: "strategy_orders \<Rightarrow> tracked_limit list" where
  "limit_values so = concat (map (\<lambda>(mp, d). map snd d) (so_limit_orders so))"

definition order_nonneg :: "tracked_limit \<Rightarrow> bool" where
  "order_nonneg x \<longleftrightarrow> 0 \<le> lo_price x \<and> 0 \<le> lo_quantity x"

definition mining_ok :: "mining \<Rightarrow> bool" where
  "mining_ok s \<longleftrightarrow> list_all order_nonneg (limit_values (mining_orders s))"

definition nested_values :: "('k, ('i, 'v) pydict) pydict \<Rightarrow> 'v set" where
  "nested_values d = (\<Union>(k, e) \<in> set d. snd ` set e)"

lemma inner_values: "snd ` set (inner k d) \<subseteq> nested_values d"
  by (cases "map_of d k") (auto simp: inner_def nested_values_def dest!: map_of_SomeD)

lemma values_update: "nested_values (AList.update k e d) \<subseteq> snd ` set e \<union> nested_values d"
  using set_update_subset[of k e d] by (auto simp: nested_values_def)

lemma values_put: "nested_values (put_inner k i v d) \<subseteq> insert v (nested_values d)"
proof -
  have "snd ` set (AList.update i v (inner k d)) \<subseteq> insert v (snd ` set (inner k d))"
    using set_update_subset[of i v "inner k d"] by auto
  also have "\<dots> \<subseteq> insert v (nested_values d)" using inner_values[of k d] by blast
  finally show ?thesis using values_update[of k "AList.update i v (inner k d)" d] unfolding put_inner_def by blast
qed

lemma values_drop: "nested_values (drop_inner k i d) \<subseteq> nested_values d"
proof (cases "AList.delete i (inner k d) = []")
  case True
  then show ?thesis using set_delete_subset[of k d] by (auto simp: drop_inner_def nested_values_def)
next
  case False
  have "snd ` set (AList.delete i (inner k d)) \<subseteq> snd ` set (inner k d)" using set_delete_subset by (rule image_mono)
  also note inner_values[of k d]
  finally show ?thesis using False values_update[of k "AList.delete i (inner k d)" d] by (simp add: drop_inner_def) blast
qed

lemma limit_values_alt: "set (limit_values so) = nested_values (so_limit_orders so)"
  by (auto simp: limit_values_def nested_values_def)

lemma limit_values_drop: "set (limit_values (untrack_limit_order mpo i so)) \<subseteq> set (limit_values so)"
  using values_drop[THEN subsetD] by (auto simp: limit_values_alt untrack_limit_order_def Let_def split: option.splits)

lemma order_sent_values:
  assumes "order_with_specific_market is_buy mp amount ot price expiration action i st = Inr (st', r)" "0 \<le> price" "0 \<le> amount"
    "list_all order_nonneg (limit_values (st_orders st))"
  shows "list_all order_nonneg (limit_values (st_orders st'))"
proof (cases "is_limit_type ot")
  case True
  then obtain x where x: "so_limit_orders (st_orders st') = put_inner mp i x (so_limit_orders (st_orders st))" "order_nonneg x"
    using assms(1-3)
    by (auto simp: order_with_specific_market_def track_limit_order_def Let_def order_nonneg_def simp del: if_image_distrib split: if_splits)
  show ?thesis using values_put[of mp i x] x assms(4) unfolding list_all_iff limit_values_alt by auto
next
  case False
  then show ?thesis using assms(1,4)
    by (auto simp: order_with_specific_market_def track_market_order_def limit_values_def split: if_splits)
qed

lemma cancel_requests_hold: "strategy_cancel mp i st = (st', rs) \<Longrightarrow> (\<Sum>r \<leftarrow> rs. request_holds me t r) = 0"
  by (auto simp: strategy_cancel_def request_holds_def split: prod.splits if_splits)

lemma cancel_in_market_keeps:
  assumes "mining_ok s"
  shows "mining_ok (cancel_in_market mp x s) \<and> requests_hold me t (cancel_in_market mp x s) = requests_hold me t s"
proof -
  obtain st rs where c: "strategy_cancel mp (lo_id x) (mn_strategy s) = (st, rs)" by fastforce
  show ?thesis
    using assms cancel_limit_orders[OF c] cancel_requests_hold[OF c, of me t]
    by (simp add: cancel_in_market_def c mining_ok_def limit_values_def requests_hold_def)
qed

lemma cancel_outdated_orders_keeps:
  "mining_ok s \<Longrightarrow> requests_hold me t s = h \<Longrightarrow>
   leaves (\<lambda>s. mining_ok s \<and> requests_hold me t s = h) (cancel_outdated_orders p qs s)"
proof (induction qs arbitrary: s)
  case (Cons q qs)
  obtain m mp q' where q: "q = ((m, mp), q')" by (metis prod.exhaust)
  have "mining_ok (fold (cancel_in_market mp) xs s) \<and> requests_hold me t (fold (cancel_in_market mp) xs s) = h"
    if "mining_ok s" "requests_hold me t s = h" for xs s
    using that by (induction xs arbitrary: s) (simp_all add: cancel_in_market_keeps)
  then show ?case using Cons by (auto simp: q intro!: leaves_and_then leaves_read)
qed simp

lemma order_sent_request:
  "order_with_specific_market is_buy mp amount ot price expiration action i st = Inr (st', r) \<Longrightarrow>
   request_holds me t r = (if is_buy then if mp_quote mp = t then amount * price * fee_factor me else 0 else if mp_base mp = t then amount else 0)"
  by (auto simp: order_with_specific_market_def request_holds_def split: if_splits)

text \<open>What an order of a side may hold.\<close>

definition side_holds :: "mining_env \<Rightarrow> market_pair \<Rightarrow> bool \<Rightarrow> string \<Rightarrow> decimal \<Rightarrow> decimal \<Rightarrow> decimal" where
  "side_holds me mp is_buy t price amount =
     (if is_buy then if mp_quote mp = t then amount * price * fee_factor me else 0 else if mp_base mp = t then amount else 0)"

lemma side_holds_nonneg: "exchange_ok me \<Longrightarrow> 0 \<le> price \<Longrightarrow> 0 \<le> amount \<Longrightarrow> 0 \<le> side_holds me mp is_buy t price amount"
  by (simp add: side_holds_def exchange_ok_def)

definition holds_within :: "mining_env \<Rightarrow> string \<Rightarrow> decimal \<Rightarrow> mining \<Rightarrow> bool" where
  "holds_within me t h s \<longleftrightarrow> mining_ok s \<and> requests_hold me t s \<le> h"

lemma holds_within_mono: "holds_within me t h s \<Longrightarrow> h \<le> h' \<Longrightarrow> holds_within me t h' s"
  by (simp add: holds_within_def)

lemma holds_within_refreshed [simp]: "holds_within me t h (s\<lparr> mn_refresh_times := ts \<rparr>) \<longleftrightarrow> holds_within me t h s"
  by (simp add: holds_within_def mining_ok_def requests_hold_def)

lemma leaves_then:
  "leaves P r \<Longrightarrow> (\<And>s. P s \<Longrightarrow> Q s) \<Longrightarrow> (\<And>a s. P s \<Longrightarrow> leaves Q (f a s)) \<Longrightarrow> leaves Q (and_then r f)"
  by (auto simp: leaves_def and_then_def split: prod.splits sum.splits)

lemma send_mining_order_holds:
  assumes "holds_within me t h s" "exchange_ok me" "0 \<le> price" "0 \<le> amount"
  shows "leaves (holds_within me t (h + side_holds me mp is_buy t price amount)) (send_mining_order me mp ot mid is_buy price amount s)"
proof -
  let ?P = "holds_within me t (h + side_holds me mp is_buy t price amount)"
  have here: "?P s" by (rule holds_within_mono[OF assms(1)]) (simp add: side_holds_nonneg[OF assms(2-4)])
  have "leaves ?P (case order_with_specific_market is_buy mp amount ot price None OPEN_POSITION (me_order_id me (mn_order_count s)) (mn_strategy s) of
          Inl e \<Rightarrow> (Inl e, s)
        | Inr (st, r) \<Rightarrow> (Inr (), s\<lparr> mn_strategy := st, mn_order_count := Suc (mn_order_count s), mn_requests := mn_requests s @ [r] \<rparr>))"
    using here assms order_sent_values order_sent_request
    by (auto simp: holds_within_def mining_ok_def requests_hold_def side_holds_def split: sum.splits)
  then show ?thesis using here unfolding send_mining_order_def
    by (auto intro!: leaves_and_then leaves_read simp: and_then_def split: sum.splits prod.splits)
qed

lemma quote_holds_nonneg: "exchange_ok me \<Longrightarrow> quote_nonneg q \<Longrightarrow> 0 \<le> quote_holds me t (x, q)"
  by (cases x) (simp add: quote_holds_def quote_nonneg_def exchange_ok_def)

lemma execute_mining_quote_holds:
  assumes "holds_within me t h s" "exchange_ok me" "quote_nonneg q" "mp_base mp = pair_base m" "mp_quote mp = pair_quote m"
  shows "leaves (holds_within me t (h + quote_holds me t ((m, mp), q))) (execute_mining_quote p me ((m, mp), q) s)"
proof -
  let ?buy = "side_holds me mp True t (mq_buy_price q) (mq_buy_size q)" and ?sell = "side_holds me mp False t (mq_sell_price q) (mq_sell_size q)"
  have q: "0 \<le> mq_buy_price q" "0 \<le> mq_buy_size q" "0 \<le> mq_sell_price q" "0 \<le> mq_sell_size q" using assms(3) by (simp_all add: quote_nonneg_def)
  have holds: "quote_holds me t ((m, mp), q) = ?buy + ?sell" by (simp add: quote_holds_def side_holds_def assms(4,5))
  have sell_nonneg: "0 \<le> ?sell" by (rule side_holds_nonneg[OF assms(2)]; simp add: q)
  let ?P = "holds_within me t (h + ?buy + ?sell)"
  have "0 \<le> ?buy" by (rule side_holds_nonneg[OF assms(2)]; simp add: q)
  then have here: "?P s" using sell_nonneg by (intro holds_within_mono[OF assms(1)]) simp
  let ?send_sell = "\<lambda>ot mid s. and_then (send_mining_order me mp ot mid False (mq_sell_price q) (mq_sell_size q) s) (\<lambda>_ s.
      (Inr (), if 0 < mq_buy_size q \<or> 0 < mq_sell_size q
        then s\<lparr> mn_refresh_times := (mn_refresh_times s)(m := mining_now s + lm_order_refresh_time p) \<rparr> else s))"
  have sell: "leaves ?P (?send_sell ot mid s)" if "holds_within me t (h + ?buy) s" for ot mid s
    by (rule leaves_and_then[OF send_mining_order_holds[OF that assms(2) q(3,4)]]) simp
  have "leaves ?P (and_then (send_mining_order me mp ot mid True (mq_buy_price q) (mq_buy_size q) s) (\<lambda>_. ?send_sell ot mid))" for ot mid
    by (rule leaves_then[OF send_mining_order_holds[OF assms(1,2) q(1,2)] _ sell])
       (use sell_nonneg in \<open>auto elim: holds_within_mono\<close>)
  then show ?thesis
    using here unfolding execute_mining_quote_def holds add.assoc[symmetric]
    by (auto simp: and_then_def split: sum.splits prod.splits)
qed

lemma execute_mining_quotes_hold:
  assumes "exchange_ok me" "list_all (\<lambda>(x, q). quote_nonneg q) qs" "list_all (\<lambda>(m, mp). mp_base mp = pair_base m \<and> mp_quote mp = pair_quote m) (map fst qs)"
    "holds_within me t h s"
  shows "leaves (holds_within me t (h + (\<Sum>q \<leftarrow> qs. quote_holds me t q))) (execute_mining_quotes p me qs s)"
  using assms(2-)
proof (induction qs arbitrary: s h)
  case (Cons q qs)
  obtain m mp q' where q: "q = ((m, mp), q')" by (metis prod.exhaust)
  have "0 \<le> (\<Sum>q \<leftarrow> qs. quote_holds me t q)"
    using Cons(2) quote_holds_nonneg[OF assms(1)] by (intro sum_list_nonneg) (auto simp: list_all_iff)
  then have weaker: "holds_within me t (h + quote_holds me t q + (\<Sum>q \<leftarrow> qs. quote_holds me t q)) s" if "holds_within me t (h + quote_holds me t q) s" for s
    by (intro holds_within_mono[OF that]) simp
  have "leaves (holds_within me t (h + quote_holds me t q)) (execute_mining_quote p me q s)"
    unfolding q by (rule execute_mining_quote_holds) (use Cons q assms(1) in auto)
  then have "leaves (holds_within me t (h + quote_holds me t q + (\<Sum>q \<leftarrow> qs. quote_holds me t q)))
      (and_then (execute_mining_quote p me q s) (\<lambda>_. execute_mining_quotes p me qs))"
    by (rule leaves_then[OF _ weaker Cons(1)]) (use Cons in auto)
  then show ?case by (simp add: add.assoc)
qed simp

subsection \<open>Ticks and runs\<close>

lemma adjusted_nonneg:
  assumes "adjusted_available_balances p me s = Inr bal" "mining_ok s" "exchange_ok me"
  shows "\<forall>t. 0 \<le> bal t"
proof -
  obtain b where b: "available_of me (all_tokens p) (\<lambda>_. 0) = Inr b" "bal = fold add_order_funds (mining_active_orders s) b"
    using assms(1) by (auto simp: adjusted_available_balances_def err_simps)
  have "available_of me ts b0 = Inr b \<Longrightarrow> \<forall>t. 0 \<le> b0 t \<Longrightarrow> \<forall>t. 0 \<le> b t" for ts b0 b
    using assms(3) by (induction me ts b0 rule: available_of.induct) (auto simp: err_simps exchange_ok_def)
  then have "\<forall>t. 0 \<le> b t" using b(1) by simp
  moreover have "list_all order_nonneg xs \<Longrightarrow> \<forall>t. 0 \<le> b t \<Longrightarrow> \<forall>t. 0 \<le> fold add_order_funds xs b t" for xs b
    by (induction xs arbitrary: b) (auto simp: add_order_funds_def order_nonneg_def)
  moreover have "list_all order_nonneg (mining_active_orders s)"
    using assms(2) by (fastforce simp: mining_ok_def list_all_iff mining_active_orders_def active_limit_orders_def not_cancelling_def limit_values_def)
  ultimately show ?thesis using b(2) by blast
qed

lemma holds_within_same: "same_orders s0 s \<Longrightarrow> holds_within me t h s \<longleftrightarrow> holds_within me t h s0"
  by (simp add: same_orders_def holds_within_def mining_ok_def requests_hold_def)

lemma mining_trade_holds:
  assumes "mining_params_ok p" "exchange_ok me" "holds_within me t h s0" "same_orders s0 s" "h \<le> h'"
    "\<And>bal. adjusted_available_balances p me s0 = Inr bal \<Longrightarrow> h + bal t \<le> h'"
  shows "leaves (holds_within me t h') (mining_trade p me s)"
proof -
  let ?same = "same_orders s0" and ?P = "holds_within me t h'"
  have weaker: "?P s" if "?same s" for s
    using holds_within_same[OF that] holds_within_mono[OF assms(3,5)] by blast
  have trade: "leaves ?P (and_then (cancel_outdated_orders p qs s2) (\<lambda>_. execute_mining_quotes p me qs))"
    if quotes: "mining_quotes p me s1 = (Inr qs, s2)" and s: "?same s1" "?same s2" for qs s1 s2
  proof -
    obtain bal where bal: "adjusted_available_balances p me s1 = Inr bal"
      using quotes by (auto simp: mining_quotes_def and_then_def split: sum.splits prod.splits)
    have ok: "mining_ok s1" "holds_within me t h s2" using holds_within_same[OF s(1)] holds_within_same[OF s(2)] assms(3) by (auto simp: holds_within_def)
    note hold = mining_quotes_hold[OF quotes assms(1,2) bal adjusted_nonneg[OF bal ok(1) assms(2)], of t]
    have pairs: "list_all (\<lambda>(m, mp). mp_base mp = pair_base m \<and> mp_quote mp = pair_quote m) (map fst qs)"
      using hold assms(1) by (auto simp: mining_params_ok_def list_all_iff)
    have "h + bal t \<le> h'" using assms(6) bal same_adjusted[OF s(1)] by simp
    then have up: "holds_within me t (h + (\<Sum>q \<leftarrow> qs. quote_holds me t q)) s \<Longrightarrow> ?P s" for s
      using hold by (elim holds_within_mono) linarith
    have "leaves (holds_within me t h) (cancel_outdated_orders p qs s2)"
      using cancel_outdated_orders_keeps[of s2 me t "requests_hold me t s2" p qs] ok(2) by (simp add: holds_within_def leaves_def)
    then show ?thesis
    proof (rule leaves_then)
      fix s assume s: "holds_within me t h s"
      show "?P s" by (rule holds_within_mono[OF s assms(5)])
      show "leaves ?P (execute_mining_quotes p me qs s)"
        using execute_mining_quotes_hold[OF assms(2) _ pairs s, of p] hold up by (simp add: leaves_def)
    qed
  qed
  have quotes: "leaves ?P (and_then (mining_quotes p me s1) (\<lambda>qs s. and_then (cancel_outdated_orders p qs s) (\<lambda>_. execute_mining_quotes p me qs)))"
    if "?same s1" for s1
    using mining_quotes_same[OF that, of p me] trade that weaker
    by (cases "mining_quotes p me s1"; cases "fst (mining_quotes p me s1)") auto
  show ?thesis
    unfolding mining_trade_def update_volatility_def
    by (rule leaves_then[OF update_mid_prices_same[OF assms(4)] weaker leaves_then[OF update_volatilities_same weaker quotes]]) simp_all
qed

text \<open>A tick begins at its time.\<close>

definition mining_at :: "seconds \<Rightarrow> mining \<Rightarrow> mining" where
  "mining_at timestamp s = s\<lparr> mn_strategy := (mn_strategy s)\<lparr> st_orders := orders_tick timestamp (mining_orders s) \<rparr> \<rparr>"

lemma mining_at_keeps [simp]: "mining_ok (mining_at now s) \<longleftrightarrow> mining_ok s" "requests_hold me t (mining_at now s) = requests_hold me t s"
  by (simp_all add: mining_at_def mining_ok_def limit_values_def limit_orders_kept requests_hold_def)

lemma mining_tick_holds:
  assumes "mining_params_ok p" "exchange_ok me" "mining_ok s" "requests_hold me t s \<le> h'"
    "\<And>bal. adjusted_available_balances p me (mining_at now s) = Inr bal \<Longrightarrow> requests_hold me t s + bal t \<le> h'"
  shows "leaves (holds_within me t h') (mining_tick p me now s)"
proof -
  let ?s = "mining_at now s"
  have start: "holds_within me t (requests_hold me t s) ?s" using assms(3) by (simp add: holds_within_def)
  have weaker: "holds_within me t h' s1" if "same_orders ?s s1" for s1
    using holds_within_same[OF that] holds_within_mono[OF start assms(4)] by blast
  have "leaves (holds_within me t h') (and_then (mining_prepare p me ?s) (\<lambda>go s.
      if go then and_then (mining_trade p me s) (\<lambda>_ s. (Inr (), s\<lparr> mn_last_timestamp := now \<rparr>)) else (Inr (), s)))"
  proof (rule leaves_then[OF mining_prepare_same[OF same_orders_refl] weaker])
    fix go s1 assume s1: "same_orders ?s s1"
    have "leaves (holds_within me t h') (mining_trade p me s1)" by (rule mining_trade_holds[OF assms(1,2) start s1 assms(4)]) (rule assms(5))
    then show "leaves (holds_within me t h') (if go then and_then (mining_trade p me s1) (\<lambda>_ s. (Inr (), s\<lparr> mn_last_timestamp := now \<rparr>)) else (Inr (), s1))"
      using weaker[OF s1] by (auto intro!: leaves_and_then simp: holds_within_def mining_ok_def requests_hold_def)
  qed
  then show ?thesis by (simp add: mining_tick_def mining_at_def)
qed

datatype mining_event =
    Mining_Tick seconds
  | Mining_Filled string order_filled_event
  | Mining_Cancelled string
  | Mining_Failed string order_type
  | Mining_Completed string order_type

definition upd_mining_orders :: "(strategy_orders \<Rightarrow> strategy_orders) \<Rightarrow> mining \<Rightarrow> mining" where
  "upd_mining_orders f s = s\<lparr> mn_strategy := (mn_strategy s)\<lparr> st_orders := f (mining_orders s) \<rparr> \<rparr>"

definition mining_step :: "mining_params \<Rightarrow> mining_env \<times> mining_event \<Rightarrow> mining \<Rightarrow> mining" where
  "mining_step p = (\<lambda>(me, ev) s. case ev of
       Mining_Tick now \<Rightarrow> snd (mining_tick p me now s)
     | Mining_Filled i e \<Rightarrow> mining_did_fill_order i e s
     | Mining_Cancelled i \<Rightarrow> upd_mining_orders (did_cancel_order_tracker i) s
     | Mining_Failed i ot \<Rightarrow> upd_mining_orders (did_fail_order_tracker i ot) s
     | Mining_Completed i ot \<Rightarrow> upd_mining_orders (did_complete_order_tracker i ot) s)"

lemma untrack_market_values [simp]: "limit_values (untrack_market_order mpo i so) = limit_values so"
  by (simp add: untrack_market_order_def limit_values_def Let_def split: option.splits)

lemma mining_step_ok:
  assumes "mining_params_ok p" "exchange_ok me" "mining_ok s"
  shows "mining_ok (mining_step p (me, ev) s)"
proof -
  have kept: "list_all order_nonneg (limit_values (untrack_limit_order mpo i (mining_orders s)))" for mpo i
    using assms(3) limit_values_drop[of mpo i "mining_orders s"] unfolding mining_ok_def list_all_iff by blast
  have "mining_ok (snd (mining_tick p me now s))" for now
  proof -
    let ?h = "requests_hold me [] s" and ?adj = "adjusted_available_balances p me (mining_at now s)"
    have "leaves (holds_within me [] (max ?h (case ?adj of Inl _ \<Rightarrow> ?h | Inr bal \<Rightarrow> ?h + bal []))) (mining_tick p me now s)"
      by (rule mining_tick_holds[OF assms]) simp_all
    then show ?thesis by (simp add: leaves_def holds_within_def)
  qed
  then show ?thesis
    using kept assms(3)
    by (cases ev) (auto simp: mining_step_def mining_did_fill_order_def upd_mining_orders_def mining_ok_def did_cancel_order_tracker_def
      did_fail_order_tracker_def did_complete_order_tracker_def Let_def split: option.splits)
qed

text \<open>A run starts with the cancelling of the restored orders.\<close>

fun mining_run :: "mining_params \<Rightarrow> (mining_env \<times> mining_event) list \<Rightarrow> mining \<Rightarrow> mining" where
  "mining_run p [] s = s"
| "mining_run p (ev # evs) s = mining_run p evs (mining_step p ev s)"

lemma mining_run_ok:
  "mining_params_ok p \<Longrightarrow> list_all (\<lambda>(me, ev). exchange_ok me) evs \<Longrightarrow> mining_ok s \<Longrightarrow> mining_ok (mining_run p evs s)"
  by (induction p evs s rule: mining_run.induct) (auto simp: mining_step_ok)

lemma new_mining_ok: "mining_ok (mining_start p me (new_mining p))"
  by (simp add: mining_ok_def mining_start_def new_mining_def limit_values_def new_strategy_orders_def)

text \<open>
  C15: in every run of the liquidity mining strategy the order requests of a tick, fees included, hold no more of any
  token than the exchange reports as available and the active orders hold when the tick begins, whatever the markets
  that share the token.  The spread and the order amount are not negative, a maximum below one limits the spread, mid
  prices and quanta are positive, balances and the fee are not negative.
\<close>

theorem mining_orders_funded:
  assumes "mining_params_ok p" "list_all (\<lambda>(me, ev). exchange_ok me) evs" "exchange_ok me"
    "s = mining_run p evs (mining_start p me0 (new_mining p))" "adjusted_available_balances p me (mining_at now s) = Inr bal"
  shows "requests_hold me t (snd (mining_tick p me now s)) \<le> requests_hold me t s + bal t"
proof -
  have ok: "mining_ok s" unfolding assms(4) by (rule mining_run_ok[OF assms(1,2) new_mining_ok])
  have "0 \<le> bal t" using adjusted_nonneg[OF assms(5)] ok assms(3) by simp
  then have "leaves (holds_within me t (requests_hold me t s + bal t)) (mining_tick p me now s)"
    using assms(5) by (intro mining_tick_holds[OF assms(1,3) ok]) simp_all
  then show ?thesis by (simp add: leaves_def holds_within_def)
qed

section \<open>A run with two markets\<close>

definition mining_pair :: "string \<Rightarrow> market_pair" where
  "mining_pair m = \<lparr> mp_market = ''exchange'', mp_trading_pair = m, mp_base = pair_base m, mp_quote = pair_quote m \<rparr>"

definition two_markets :: mining_params where
  "two_markets = \<lparr> lm_exchange = ''exchange'', lm_market_infos = map (\<lambda>m. (m, mining_pair m)) [''ETH-USDT'', ''BTC-USDT''], lm_token = ''USDT'',
     lm_order_amount = 800, lm_spread = 1 / 100, lm_inventory_skew_enabled = False, lm_target_base_pct = 1 / 2, lm_order_refresh_time = 10,
     lm_order_refresh_tolerance_pct = 1 / 100, lm_inventory_range_multiplier = 1, lm_volatility_interval = 2, lm_avg_volatility_period = 2,
     lm_volatility_to_spread_multiplier = 1, lm_max_spread = 1 / 10, lm_max_order_age = 3600, lm_interp = linear_interp \<rparr>"

definition mining_market :: mining_env where
  "mining_market = \<lparr> me_api = sample_api\<lparr> ea_order_book := (\<lambda>_. Inr sample_book) \<rparr>, me_available = (\<lambda>t. Inr 1000), me_ready = True,
     me_limit_orders = [], me_fee_schema = \<lparr> fs_percent_fee_token = None, fs_maker_percent_fee_decimal = 1 / 100, fs_taker_percent_fee_decimal = 1 / 100,
       fs_buy_percent_fee_deducted_from_returns = False, fs_maker_fixed_fees = [], fs_taker_fixed_fees = [] \<rparr>,
     me_order_id = (\<lambda>n. replicate n (CHR ''i'')) \<rparr>"

lemma two_markets_ok: "mining_params_ok two_markets"
  by (auto simp: mining_params_ok_def two_markets_def interpolates_def linear_interp_def mining_pair_def)

lemma mining_market_ok: "exchange_ok mining_market"
proof -
  have "mining_mid mining_market mp = Inr (Some 100)" for mp
  proof -
    have q: "quantized_price (me_api mining_market) tp x = quantized_price (me_api mining_market) [] x" for tp x
      by (cases x) (simp_all add: quantized_price_def quantize_order_price_def mining_market_def sample_api_def)
    have "mining_mid mining_market mp = mining_mid mining_market (mining_pair [])"
      unfolding mining_mid_def mid_price_def exchange_price_def q[of "mp_trading_pair mp"] q[of "mp_trading_pair (mining_pair [])"]
      by (simp add: mining_market_def)
    also have "\<dots> = Inr (Some 100)" by code_simp
    finally show ?thesis .
  qed
  moreover have "fee_factor mining_market = 101 / 100" by code_simp
  ultimately show ?thesis by (auto simp: exchange_ok_def mining_market_def sample_api_def)
qed

text \<open>Both bids want 800 of the 1000 there are.\<close>

definition mining_events :: "(mining_env \<times> mining_event) list" where
  "mining_events = map (Pair mining_market) [Mining_Failed ''i'' LIMIT, Mining_Cancelled ''ii'']"

definition mined :: mining where
  "mined = mining_run two_markets mining_events (mining_start two_markets mining_market (new_mining two_markets))"

lemma mining_orders_funded_witness:
  "requests_hold mining_market ''USDT'' (snd (mining_tick two_markets mining_market 20 mined)) \<le> 1000"
proof -
  have ok: "list_all (\<lambda>(me, ev). exchange_ok me) mining_events" by (simp add: mining_events_def mining_market_ok)
  have bal: "map_sum id (\<lambda>b. b ''USDT'') (adjusted_available_balances two_markets mining_market (mining_at 20 mined)) = Inr 1000" by code_simp
  then obtain b where b: "adjusted_available_balances two_markets mining_market (mining_at 20 mined) = Inr b" "b ''USDT'' = 1000"
    by (cases "adjusted_available_balances two_markets mining_market (mining_at 20 mined)") auto
  have "requests_hold mining_market ''USDT'' mined = 0" by code_simp
  then show ?thesis
    using mining_orders_funded[OF two_markets_ok ok mining_market_ok mined_def b(1), of "''USDT''"] b(2) by simp
qed

section \<open>Where the strategy departs from its intent\<close>

text \<open>
  The window of fewer prices than the interval starts at a negative index, which counts from the end: of two prices only
  the last is seen, and the volatility is zero though the price doubled; a window that would begin before the first price is empty.
\<close>

lemma volatility_window_wraps:
  "volatility_of (two_markets\<lparr> lm_volatility_interval := 3 \<rparr>) [Some 1, Some 2] = Inr (Some 0)"
  "volatility_of (two_markets\<lparr> lm_volatility_interval := 3 \<rparr>) [Some 1, Some 2, Some 2, Some 2, Some 2] = Inr (Some 0)"
  by code_simp+

text \<open>A mid price that was missing once makes every volatility raise in whose windows it is.\<close>

lemma missing_price_raises: "true_range (None # p # prices) = Inl InvalidOperation"
  by (simp add: true_range_def extreme_def)

text \<open>The strategy is ready before the budgets are allocated: a failure leaves them at zero for good.\<close>

lemma failed_allocation_not_retried:
  assumes "\<not> mn_ready_to_trade s" "me_ready me" "me_limit_orders me = []" "total_port_value_in_token p me s = Inl e"
  shows "\<exists>s'. mining_prepare p me s = (Inl e, s') \<and> mn_buy_budgets s' = (\<lambda>_. 0) \<and> mn_sell_budgets s' = (\<lambda>_. 0) \<and>
    (\<forall>me'. mining_prepare p me' s' = (Inr True, s'))"
  using assms by (simp add: mining_prepare_def Let_def create_budget_allocation_def total_port_value_in_token_def adjusted_available_balances_def
      mining_active_orders_def)

text \<open>Orders left on the exchange do not keep the strategy from trading; the budgets are then allocated again at every tick.\<close>

lemma trades_with_restored_orders:
  assumes "\<not> mn_ready_to_trade s" "me_ready me" "me_limit_orders me \<noteq> []" "create_budget_allocation p me (s\<lparr> mn_ready_to_trade := False \<rparr>) = (Inr (), s')"
  shows "mining_prepare p me s = (Inr True, s')"
  using assms by (simp add: mining_prepare_def Let_def)

text \<open>Without a maximum, a spread above one, which a volatile market gives, puts the bid below zero.\<close>

lemma volatile_market_negative_bid:
  "map_sum id (\<lambda>y. map_option mq_buy_price (snd y)) (base_proposal (two_markets\<lparr> lm_max_spread := - 1 \<rparr>) mining_market
     ((new_mining two_markets)\<lparr> mn_volatility := (\<lambda>_. Some 2) \<rparr>) (''ETH-USDT'', mining_pair ''ETH-USDT'')) = Inr (Some (- 100))"
  by code_simp

end
