(* ===== verification/Spec2Isabelle.thy ===== *)
theory Spec2Isabelle
  imports Rate_Oracle Order_Tracker Budget_Checker Throttler Spot_Perp_Arb Perpetual_Market_Making
    Order_Book_Tracker Exchange_Py_Base Paper_Trade Arbitrage Pure_Quotes Indicators Pub_Sub Clock Cross_Exchange Twap
    Liquidity_Mining
begin

text \<open>
  A verification development for Hummingbot, a framework for automated trading: strategies place orders
  through connectors, which speak to exchanges and keep books, balances and orders.  The development models
  the parts every strategy and connector relies on, seven strategies and the simulated exchange.

  Parts and theories, from the bottom up (paths under \<^verbatim>\<open>src/hummingbot\<close>):

  \<^item> \<open>Prelude\<close>, \<open>Common_Types\<close>, \<open>Json\<close>: error results (\<open>py_error\<close>, \<open>bind_err\<close>), dictionaries in insertion order
    (\<open>pydict\<close>), Python's decimal division and rounding, the enumerations of \<^verbatim>\<open>core/data_type/common.py\<close>, trading
    pair helpers, JSON values.
  \<^item> \<open>Trade_Fee\<close> (\<^verbatim>\<open>core/data_type/trade_fee.py\<close>, \<^verbatim>\<open>core/utils/estimate_fee.py\<close>), \<open>Rate_Oracle\<close>
    (\<^verbatim>\<open>core/rate_oracle/utils.py\<close>): fee schemas, fees, conversion rates.
  \<^item> \<open>In_Flight_Order\<close>, \<open>Order_Tracker\<close> (\<^verbatim>\<open>core/data_type/in_flight_order.py\<close>,
    \<^verbatim>\<open>connector/client_order_tracker.py\<close>): the life of an order on an exchange, its updates and fills, the events
    triggered for it.  Coroutines that are suspended are pending tasks; a run is any interleaving of the
    updates with the completion of tasks (\<open>tracker_reachable\<close>).
  \<^item> \<open>Order_Candidate\<close>, \<open>Budget_Checker\<close> (\<^verbatim>\<open>core/data_type/order_candidate.py\<close>, \<^verbatim>\<open>connector/budget_checker.py\<close>,
    \<^verbatim>\<open>connector/derivative/perpetual_budget_checker.py\<close>): the collateral, fees and returns of an intended order
    and how it is cut down to the balances.
  \<^item> \<open>Throttler\<close> (\<^verbatim>\<open>core/api_throttler\<close>): rate limits of requests; one pass of the loop of \<^verbatim>\<open>acquire\<close> is a step.
  \<^item> \<open>Order_Book\<close>, \<open>Order_Book_Tracker\<close>, \<open>Composite_Order_Book\<close> (\<^verbatim>\<open>core/data_type/order_book.pyx\<close>,
    \<^verbatim>\<open>core/cpp/OrderBookEntry.cpp\<close>, \<^verbatim>\<open>order_book_tracker.py\<close>, \<^verbatim>\<open>composite_order_book.pyx\<close>): order books, queries
    on them, their upkeep from the messages of an exchange, and books with simulated consumption.
  \<^item> \<open>Connector_Base\<close>, \<open>Exchange_Base\<close>, \<open>Exchange_Py_Base\<close> (\<^verbatim>\<open>connector/connector_base.pyx\<close>,
    \<^verbatim>\<open>connector/exchange_base.pyx\<close>, \<^verbatim>\<open>connector/exchange_py_base.py\<close>, \<^verbatim>\<open>connector/trading_rule.pyx\<close>): balances,
    quotes, and the placing and cancelling of orders under the trading rules, on top of the order tracker.
  \<^item> \<open>Paper_Trade\<close> (\<^verbatim>\<open>connector/exchange/paper_trade/paper_trade_exchange.pyx\<close>): the exchange that fills orders
    against the books of a real market.
  \<^item> \<open>Pub_Sub\<close>, \<open>Clock\<close> (\<^verbatim>\<open>core/pubsub.pyx\<close>, \<^verbatim>\<open>core/event\<close>, \<^verbatim>\<open>core/clock.pyx\<close>, \<^verbatim>\<open>core/time_iterator.pyx\<close>,
    \<^verbatim>\<open>core/network_iterator.pyx\<close>): the delivery of events to listeners that may be garbage collected, the ticks of
    the clock in real time and in backtests, and the check of the network that starts and stops connectors.
  \<^item> \<open>Strategy_Orders\<close>, \<open>Hanging_Orders\<close> (\<^verbatim>\<open>strategy/order_tracker.pyx\<close>, \<^verbatim>\<open>strategy/strategy_base.pyx\<close>,
    \<^verbatim>\<open>strategy/hanging_orders_tracker.py\<close>): the orders a strategy tracks, the requests it sends and the events that
    end orders; orders that hang on after their side has been filled.
  \<^item> \<open>Indicators\<close> (\<^verbatim>\<open>strategy/__utils__\<close>, \<^verbatim>\<open>strategy/aroon_oscillator/aroon_oscillator_indicator.pyx\<close>): the ring buffer
    and what strategies compute from the prices in it.
  \<^item> \<open>Arbitrage\<close>, \<open>Spot_Perp_Arb\<close>, \<open>Perpetual_Market_Making\<close>, \<open>Pure_Market_Making\<close> with \<open>Pure_Quotes\<close>,
    \<open>Cross_Exchange\<close>, \<open>Twap\<close>, \<open>Liquidity_Mining\<close> (the packages of these names under \<^verbatim>\<open>strategy\<close>): the strategies,
    tick by tick and event by event, against markets that are arguments; \<open>Twap\<close> with the conditions of execution.
    \<open>Pure_Market_Making\<close> holds the parameters, state and proposals of its strategy, \<open>Pure_Quotes\<close> its ticks and events.

  How they interact: the exchange connector steps the order tracker (by \<open>exchange_tracker_reachable\<close> it
  takes steps of the tracker only); budget checkers adjust the order candidates of strategies; the paper
  exchange settles orders by order candidates and executes them on composite books; strategies see
  connectors through quotes (\<open>exchange_api\<close>), balances (\<open>connector\<close>) and the events of their orders, and send requests
  through \<open>Strategy_Orders\<close>; they are driven by the clock, and events reach them through \<open>Pub_Sub\<close>.

  Conventions.  A class is a record and a method a function on it that returns the new state; what a method
  raises is \<open>Inl\<close> of a \<open>py_error\<close>.  \<^verbatim>\<open>Decimal\<close> and \<^verbatim>\<open>float\<close> amounts, prices and times are rational numbers, exact:
  the rounding that the code asks for is modelled, the rounding of the 28 digits of a decimal or of a double
  is not; a NaN is \<open>None\<close> where the code handles it.  Where a method changes the state before it raises, its result
  is an outcome, the state next to the error or value, sequenced by \<open>and_then\<close>; \<open>leaves\<close> says what an outcome keeps.
  Code outside \<^verbatim>\<open>src\<close> (interpolation, roots and logarithms, single precision), the network, the readings of the
  clock, the order in which a set is iterated and random identifiers are arguments.  Objects that are shared and changed
  are in a store (the orders of the order tracker) or named by their identifier (listeners, iterators, orders).

  Loops are recursive on their list or end by a measure (\<open>exponent10\<close>; \<open>match_books\<close> by the entries left of two
  books); no fuel is used.  The loops of the clock, which may not end, are partial functions into \<open>option\<close>
  (\<open>for_live\<close>, \<open>backtest_loop\<close>), \<open>None\<close> for a loop that does not end; \<open>backtest_ends\<close> shows that a backtest does.

  Lemmas.  Each theory proves the invariant of its state (\<open>dict_ok\<close> tables, \<open>book_ok\<close> books, \<open>orders_ok\<close> maps of
  orders), that every operation keeps it, and from that its properties for all reachable states.  Contracts
  are locales, interpreted on the model's own definitions where they are provided: the adjustment of orders
  to collateral, the sides of a book (\<open>price_side\<close>), what the operations of a paper exchange keep
  (\<open>paper_contract\<close>), listeners that leave the other listeners as they are (\<open>quiet_listeners\<close>), iterators that leave
  the clock as it is (\<open>steady_iterators\<close>).  A theorem with hypotheses is followed by a concrete state to which it
  applies.  Other theorems show where the code does not do what it is meant to; the manifest lists them as findings.

  Of the strategies they show that the amount of an arbitrage is the one both books allow at a profit and the orders of
  its two sides match, that openings and closings of a spot-perpetual arbitrage alternate, that a market maker quotes one
  generation of orders at a time, funded by its balances and within its price band, and that cross exchange market making
  places only orders that can be hedged at its profitability, hedges each fill at once where balances allow it and never
  hedges more than was filled, and that the time-weighted average price strategy orders its target, spread over time;
  the orders of a tick of liquidity mining hold no more of a token than there is, whatever markets share it.

  Not modelled: the connectors of single exchanges and of the gateway (translations between the requests and
  messages of an exchange and the classes above, determined by the documentation of the exchange), the user
  interface, the configuration and its commands, the database, logging and start-up scripts (I/O and
  display), the TypeScript gateway, and the strategies listed in the manifest as not modelled.
\<close>

end
